(* ===== verification/JsNumber.thy ===== *)
theory JsNumber
  imports Complex_Main "HOL-Library.Log_Nat"
begin

text \<open>
  JavaScript numbers. Every score, weight, cost and threshold of the program is a JavaScript
  \<open>number\<close>, an IEEE 754 binary64 value. The datatype \<open>jsnum\<close> has the two infinities, NaN and the
  finite values as rationals; every arithmetic operation computes the exact rational result and
  rounds it to the nearest double (ties to even, gradual underflow, overflow to an infinity), which
  is what the language prescribes. The rounding is executable. Signed zeros are identified: the
  program never divides by a negative zero.

  The section on rounding proves the laws the rest of the development uses, collected in the
  locale \<open>rounding\<close>: rounding is monotone and does not move representable values. The range
  lemmas below the operations push intervals through an expression one operation at a time.
\<close>

section \<open>Rounding to binary64\<close>

datatype jsnum = NaN | Inf | NegInf | Fin rat

definition pow2 :: "int \<Rightarrow> rat" where
  "pow2 e = (if 0 \<le> e then of_int (2 ^ nat e) else 1 / of_int (2 ^ nat (- e)))"

definition ilog2 :: "rat \<Rightarrow> int" where
  "ilog2 x = (let (p, q) = quotient_of x; e = bitlen p - bitlen q
              in if pow2 e \<le> x then e else e - 1)"

definition rne :: "rat \<Rightarrow> int" where
  "rne y = (let f = \<lfloor>y\<rfloor>; d = y - of_int f
            in if d < 1 / 2 then f
               else if 1 / 2 < d then f + 1
               else if even f then f else f + 1)"

definition ulp_exp :: "rat \<Rightarrow> int" where
  "ulp_exp x = max (ilog2 \<bar>x\<bar> - 52) (- 1074)"

definition rnd_rat :: "rat \<Rightarrow> rat" where
  "rnd_rat x = (if x = 0 then 0
     else let u = pow2 (ulp_exp x) in of_int (rne (x / u)) * u)"

definition rnd64 :: "rat \<Rightarrow> jsnum" where
  "rnd64 x = (let r = rnd_rat x
              in if r \<noteq> 0 \<and> 1024 \<le> ilog2 \<bar>r\<bar> then (if 0 < r then Inf else NegInf) else Fin r)"


lemma pow2_powi: "pow2 e = 2 powi e"
  by (simp add: pow2_def power_int_def divide_simps)

lemma pow2_pos [simp]: "0 < pow2 e"
  by (simp add: pow2_powi)

lemma pow2_nonneg [simp]: "0 \<le> pow2 e" "\<bar>pow2 e\<bar> = pow2 e"
  using pow2_pos [of e] by linarith+

lemma pow2_neg_nat: "pow2 (- int k) = 1 / 2 ^ k"
  by (simp add: pow2_powi power_int_minus divide_simps)

lemma pow2_neq0 [simp]: "pow2 e \<noteq> 0"
  using pow2_pos [of e] by linarith

lemma pow2_add: "pow2 (a + b) = pow2 a * pow2 b"
  by (simp add: pow2_powi power_int_add)

lemma pow2_diff: "pow2 (a - b) = pow2 a / pow2 b"
  by (simp add: pow2_powi power_int_diff)

lemma pow2_Suc: "pow2 (e + 1) = 2 * pow2 e"
  by (simp add: pow2_add pow2_def [of 1])

lemma pow2_mono: "a \<le> b \<Longrightarrow> pow2 a \<le> pow2 b"
  by (simp add: pow2_powi power_int_increasing)

lemma pow2_less_cancel: "pow2 a < pow2 b \<Longrightarrow> a < b"
  by (metis linorder_not_less pow2_mono)

lemma pow2_nonneg_int: "0 \<le> e \<Longrightarrow> pow2 e = of_int (2 ^ nat e)"
  by (simp add: pow2_def)

lemma ilog2_unique:
  assumes "pow2 e \<le> x" "x < pow2 (e + 1)" "pow2 f \<le> x" "x < pow2 (f + 1)"
  shows "e = f"
proof -
  have "pow2 e < pow2 (f + 1)" "pow2 f < pow2 (e + 1)" using assms by linarith+
  then have "e < f + 1" "f < e + 1" by (blast dest: pow2_less_cancel)+
  then show ?thesis by simp
qed

lemma ilog2_bounds:
  assumes "0 < x"
  shows "pow2 (ilog2 x) \<le> x" "x < pow2 (ilog2 x + 1)"
proof -
  obtain p q where pq: "quotient_of x = (p, q)" by fastforce
  have x: "x = of_int p / of_int q" and q: "0 < q"
    using pq quotient_of_div quotient_of_denom_pos by auto
  have p: "0 < p" using assms x q by (simp add: zero_less_divide_iff)
  have bp: "2 ^ nat (bitlen p - 1) \<le> p" "p < 2 ^ nat (bitlen p)" "1 \<le> bitlen p"
    using bitlen_bounds [of p] p by (auto simp: bitlen_ge_iff_power)
  have bq: "2 ^ nat (bitlen q - 1) \<le> q" "q < 2 ^ nat (bitlen q)" "1 \<le> bitlen q"
    using bitlen_bounds [of q] q by (auto simp: bitlen_ge_iff_power)
  have P: "pow2 (bitlen p - 1) \<le> of_int p" "of_int p < pow2 (bitlen p)"
    and Q: "pow2 (bitlen q - 1) \<le> of_int q" "of_int q < pow2 (bitlen q)"
    using bp bq by (simp_all add: pow2_nonneg_int del: of_int_power)
  have q0: "(0::rat) < of_int q" using q by simp
  let ?e = "bitlen p - bitlen q"
  have "of_int p < pow2 (?e + 1) * of_int q"
  proof -
    have "pow2 (bitlen p) = pow2 (?e + 1) * pow2 (bitlen q - 1)"
      by (simp flip: pow2_add)
    also have "\<dots> \<le> pow2 (?e + 1) * of_int q" using Q(1) by simp
    finally show ?thesis using P(2) by linarith
  qed
  then have hi: "x < pow2 (?e + 1)" using q0 x by (simp add: divide_less_eq)
  have "pow2 (?e - 1) * of_int q < of_int p"
  proof -
    have "pow2 (?e - 1) * of_int q < pow2 (?e - 1) * pow2 (bitlen q)" using Q(2) by simp
    also have "\<dots> = pow2 (bitlen p - 1)" by (simp flip: pow2_add)
    finally show ?thesis using P(1) by linarith
  qed
  then have lo: "pow2 (?e - 1) < x" using q0 x by (simp add: less_divide_eq)
  show "pow2 (ilog2 x) \<le> x" "x < pow2 (ilog2 x + 1)"
    using hi lo by (auto simp: ilog2_def pq Let_def)
qed

lemma ilog2_eq: "pow2 e \<le> x \<Longrightarrow> x < pow2 (e + 1) \<Longrightarrow> ilog2 x = e"
  using ilog2_bounds [of x] ilog2_unique pow2_pos
  by (metis less_le_trans)

lemma ilog2_mono: "0 < x \<Longrightarrow> x \<le> y \<Longrightarrow> ilog2 x \<le> ilog2 y"
  using ilog2_bounds [of x] ilog2_bounds [of y] pow2_less_cancel [of "ilog2 x" "ilog2 y + 1"]
  by linarith

lemma ilog2_ge_iff: "0 < x \<Longrightarrow> e \<le> ilog2 x \<longleftrightarrow> pow2 e \<le> x"
  using ilog2_bounds [of x] pow2_mono [of e "ilog2 x"] pow2_less_cancel [of e "ilog2 x + 1"]
  by fastforce

lemma rne_bounds: "\<lfloor>y\<rfloor> \<le> rne y" "rne y \<le> \<lfloor>y\<rfloor> + 1"
  by (auto simp: rne_def Let_def)

lemma rne_mono: "x \<le> y \<Longrightarrow> rne x \<le> rne y"
proof (cases "\<lfloor>x\<rfloor> = \<lfloor>y\<rfloor>")
  case True
  assume "x \<le> y"
  with True show ?thesis by (auto simp: rne_def Let_def)
next
  case False
  assume "x \<le> y"
  with False have "\<lfloor>x\<rfloor> < \<lfloor>y\<rfloor>" using floor_mono [of x y] by simp
  then show ?thesis using rne_bounds [of x] rne_bounds [of y] by linarith
qed

lemma rne_of_int [simp]: "rne (of_int n) = n"
  by (simp add: rne_def Let_def)

lemma rne_of_numeral [simp]:
  "rne (numeral n) = numeral n" "rne 0 = 0" "rne 1 = 1"
  using rne_of_int [of "numeral n"] rne_of_int [of 0] rne_of_int [of 1]
  by (simp_all del: rne_of_int)

lemma rne_minus: "rne (- y) = - rne y"
proof (cases "y = of_int \<lfloor>y\<rfloor>")
  case True
  then show ?thesis by (metis of_int_minus rne_of_int)
next
  case False
  then have "\<lfloor>- y\<rfloor> = - \<lfloor>y\<rfloor> - 1" by linarith
  with False show ?thesis by (auto simp: rne_def Let_def)
qed

lemma rne_nonneg: "0 \<le> y \<Longrightarrow> 0 \<le> rne y"
  using rne_mono [of 0 y] by simp

lemma rne_eqI: "\<bar>y - of_int m\<bar> < 1 / 2 \<Longrightarrow> rne y = m"
proof -
  assume a: "\<bar>y - of_int m\<bar> < 1 / 2"
  show "rne y = m"
  proof (cases "of_int m \<le> y")
    case True
    with a have "\<lfloor>y\<rfloor> = m" by linarith
    with a True show ?thesis by (simp add: rne_def)
  next
    case False
    with a have "\<lfloor>y\<rfloor> = m - 1" by linarith
    with a False show ?thesis by (simp add: rne_def Let_def)
  qed
qed

lemma rnd_rat_0 [simp]: "rnd_rat 0 = 0"
  by (simp add: rnd_rat_def)

lemma ulp_exp_minus [simp]: "ulp_exp (- x) = ulp_exp x"
  by (simp add: ulp_exp_def)

lemma rnd_rat_minus: "rnd_rat (- x) = - rnd_rat x"
  by (simp add: rnd_rat_def Let_def rne_minus)

lemma rnd_rat_nonneg: "0 \<le> x \<Longrightarrow> 0 \<le> rnd_rat x"
  using rne_nonneg [of "x / pow2 (ulp_exp x)"] divide_nonneg_pos [of x "pow2 (ulp_exp x)"]
  by (simp add: rnd_rat_def Let_def)

lemma rnd_rat_scaled:
  assumes "x \<noteq> 0"
  shows "x \<le> of_int n * pow2 (ulp_exp x) \<Longrightarrow> rnd_rat x \<le> of_int n * pow2 (ulp_exp x)"
    and "of_int n * pow2 (ulp_exp x) \<le> x \<Longrightarrow> of_int n * pow2 (ulp_exp x) \<le> rnd_rat x"
proof -
  let ?u = "pow2 (ulp_exp x)"
  show "rnd_rat x \<le> of_int n * ?u" if "x \<le> of_int n * ?u"
  proof -
    have "rne (x / ?u) \<le> rne (of_int n)" by (rule rne_mono) (use that in \<open>simp add: divide_le_eq\<close>)
    then show ?thesis using assms by (simp add: rnd_rat_def Let_def)
  qed
  show "of_int n * ?u \<le> rnd_rat x" if "of_int n * ?u \<le> x"
  proof -
    have "rne (of_int n) \<le> rne (x / ?u)" by (rule rne_mono) (use that in \<open>simp add: le_divide_eq\<close>)
    then show ?thesis using assms by (simp add: rnd_rat_def Let_def)
  qed
qed

lemma pow2_52: "of_int (2 ^ 52) * pow2 e = pow2 (e + 52)"
  and pow2_53: "of_int (2 ^ 53) * pow2 e = pow2 (e + 53)"
  by (simp_all add: pow2_add pow2_def [of 52] pow2_def [of 53])

lemma rnd_rat_le_binade: "0 < x \<Longrightarrow> rnd_rat x \<le> pow2 (ulp_exp x + 53)"
proof -
  assume x: "0 < x"
  have "x < pow2 (ilog2 x + 1)" by (rule ilog2_bounds [OF x])
  also have "\<dots> \<le> pow2 (ulp_exp x + 53)" by (rule pow2_mono) (use x in \<open>simp add: ulp_exp_def\<close>)
  finally show ?thesis using rnd_rat_scaled(1) [of x "2 ^ 53"] x pow2_53 by simp
qed

lemma rnd_rat_ge_binade:
  assumes "0 < x" "- 1074 < ulp_exp x"
  shows "pow2 (ulp_exp x + 52) \<le> rnd_rat x"
proof -
  have "ulp_exp x + 52 = ilog2 x" using assms by (auto simp: ulp_exp_def)
  then have "pow2 (ulp_exp x + 52) \<le> x" using ilog2_bounds [OF assms(1)] by simp
  then show ?thesis using rnd_rat_scaled(2) [of x "2 ^ 52"] assms pow2_52 by simp
qed

lemma rnd_rat_mono_pos:
  assumes "0 < x" "x \<le> y"
  shows "rnd_rat x \<le> rnd_rat y"
proof (cases "ulp_exp x = ulp_exp y")
  case True
  have "rne (x / pow2 (ulp_exp y)) \<le> rne (y / pow2 (ulp_exp y))"
    by (rule rne_mono) (use assms in \<open>simp add: divide_right_mono less_imp_le\<close>)
  with True assms show ?thesis by (simp add: rnd_rat_def Let_def)
next
  case False
  have "ulp_exp x \<le> ulp_exp y" using assms ilog2_mono [of x y] by (simp add: ulp_exp_def)
  with False have less: "ulp_exp x < ulp_exp y" by simp
  then have "- 1074 < ulp_exp y" by (simp add: ulp_exp_def)
  have "rnd_rat x \<le> pow2 (ulp_exp x + 53)" by (rule rnd_rat_le_binade [OF assms(1)])
  also have "\<dots> \<le> pow2 (ulp_exp y + 52)" by (rule pow2_mono) (use less in simp)
  also have "\<dots> \<le> rnd_rat y" using rnd_rat_ge_binade \<open>- 1074 < ulp_exp y\<close> assms by simp
  finally show ?thesis .
qed

lemma rnd_rat_mono: "x \<le> y \<Longrightarrow> rnd_rat x \<le> rnd_rat y"
proof -
  assume le: "x \<le> y"
  consider "0 < x" | "x \<le> 0" "0 \<le> y" | "y < 0" using le by linarith
  then show ?thesis
  proof cases
    case 1
    then show ?thesis using le rnd_rat_mono_pos by simp
  next
    case 2
    then show ?thesis using rnd_rat_nonneg [of y] rnd_rat_nonneg [of "- x"] by (simp add: rnd_rat_minus)
  next
    case 3
    then show ?thesis using rnd_rat_mono_pos [of "- y" "- x"] le by (simp add: rnd_rat_minus)
  qed
qed

lemma rnd_rat_multiple:
  assumes "x = of_int n * pow2 (ulp_exp x)"
  shows "rnd_rat x = x"
proof -
  have "x / pow2 (ulp_exp x) = of_int n" by (subst assms) simp
  then show ?thesis using assms by (simp add: rnd_rat_def Let_def)
qed

lemma rnd_rat_exact_pos:
  assumes "0 < m" "m \<le> 2 ^ 53" "- 1074 \<le> e"
  shows "rnd_rat (of_int m * pow2 e) = of_int m * pow2 e"
proof -
  define x where "x = of_int m * pow2 e"
  have x: "0 < x" using assms by (simp add: x_def)
  have "(of_int m :: rat) \<le> of_int (2 ^ 53)" using assms(2) of_int_le_iff by blast
  then have le: "x \<le> pow2 (e + 53)" unfolding x_def pow2_53 [symmetric] by simp
  have "\<exists>n. x = of_int n * pow2 (ulp_exp x)"
  proof (cases "x = pow2 (e + 53)")
    case True
    then have "x < pow2 (e + 53 + 1)" unfolding pow2_Suc using x by simp
    with True have "ilog2 x = e + 53" by (intro ilog2_eq) simp_all
    then have "ulp_exp x = e + 1" using assms x by (simp add: ulp_exp_def)
    then have "x = of_int (2 ^ 52) * pow2 (ulp_exp x)" unfolding pow2_52 using True by (simp add: add.commute)
    then show ?thesis by blast
  next
    case False
    then have "ilog2 x < e + 53" using le x ilog2_ge_iff [of x "e + 53"] by fastforce
    then have u: "ulp_exp x \<le> e" using assms x by (simp add: ulp_exp_def)
    have "pow2 e = pow2 (e - ulp_exp x) * pow2 (ulp_exp x)" by (simp flip: pow2_add)
    then have "x = of_int (m * 2 ^ nat (e - ulp_exp x)) * pow2 (ulp_exp x)"
      using u by (simp add: x_def pow2_nonneg_int)
    then show ?thesis by blast
  qed
  then show ?thesis using rnd_rat_multiple x_def by blast
qed

lemma rnd_rat_exact:
  assumes "\<bar>m\<bar> \<le> 2 ^ 53" "- 1074 \<le> e"
  shows "rnd_rat (of_int m * pow2 e) = of_int m * pow2 e"
proof -
  consider "0 < m" | "m = 0" | "0 < - m" by linarith
  then show ?thesis
    using assms rnd_rat_exact_pos [of m e] rnd_rat_exact_pos [of "- m" e]
      rnd_rat_minus [of "of_int m * pow2 e"]
    by cases auto
qed

lemma rnd_rat_eqI:
  assumes "pow2 (e + 52) \<le> x" "x < pow2 (e + 53)" "- 1074 \<le> e" "\<bar>x / pow2 e - of_int m\<bar> < 1 / 2"
  shows "rnd_rat x = of_int m * pow2 e"
proof -
  have x: "0 < x" using assms(1) pow2_pos by (rule less_le_trans [rotated])
  have "ilog2 x = e + 52" using assms by (intro ilog2_eq) (simp_all add: add.commute)
  then have "ulp_exp x = e" using assms x by (simp add: ulp_exp_def)
  then show ?thesis using assms x rne_eqI by (simp add: rnd_rat_def Let_def)
qed

lemma rnd64_Fin_iff: "rnd64 x = Fin y \<longleftrightarrow> y = rnd_rat x \<and> \<bar>y\<bar> < pow2 1024"
proof (cases "rnd_rat x = 0")
  case True
  then show ?thesis using pow2_pos [of 1024] by (auto simp: rnd64_def Let_def)
next
  case False
  then have "1024 \<le> ilog2 \<bar>rnd_rat x\<bar> \<longleftrightarrow> pow2 1024 \<le> \<bar>rnd_rat x\<bar>" by (simp add: ilog2_ge_iff)
  with False show ?thesis by (auto simp: rnd64_def Let_def simp del: pow2_pos)
qed

lemma rnd64_FinI: "rnd_rat x = y \<Longrightarrow> \<bar>y\<bar> < pow2 1024 \<Longrightarrow> rnd64 x = Fin y"
  by (simp add: rnd64_Fin_iff)


lemma rnd64_exact: "\<bar>m\<bar> \<le> 2 ^ 53 \<Longrightarrow> - 1074 \<le> e \<Longrightarrow> e \<le> 970 \<Longrightarrow> rnd64 (of_int m * pow2 e) = Fin (of_int m * pow2 e)"
proof (rule rnd64_FinI [OF rnd_rat_exact])
  assume m: "\<bar>m\<bar> \<le> 2 ^ 53" and e: "e \<le> 970"
  have "\<bar>of_int m :: rat\<bar> \<le> of_int (2 ^ 53)" using m of_int_le_iff by (metis of_int_abs)
  then have "\<bar>of_int m * pow2 e\<bar> \<le> of_int (2 ^ 53) * pow2 e" by (simp add: abs_mult)
  also have "\<dots> < pow2 1024"
  proof -
    have "pow2 (e + 53) \<le> pow2 1023" by (rule pow2_mono) (use e in simp)
    moreover have "0 < pow2 1023" by (rule pow2_pos)
    moreover have "pow2 1024 = 2 * pow2 1023" using pow2_Suc [of 1023] by simp
    ultimately show ?thesis unfolding pow2_53 by linarith
  qed
  finally show "\<bar>of_int m * pow2 e\<bar> < pow2 1024" .
qed simp_all

lemma rnd64_of_int: "\<bar>m\<bar> \<le> 2 ^ 53 \<Longrightarrow> rnd64 (of_int m) = Fin (of_int m)"
  using rnd64_exact [of m 0] by (simp add: pow2_def)

lemma rnd64_dyadic: "\<bar>m\<bar> \<le> 2 ^ 53 \<Longrightarrow> k \<le> 1074 \<Longrightarrow> rnd64 (of_int m / 2 ^ k) = Fin (of_int m / 2 ^ k)"
  using rnd64_exact [of m "- int k"] by (simp add: pow2_neg_nat)

lemma rnd64_small_int [simp]:
  "rnd64 0 = Fin 0" "rnd64 1 = Fin 1" "rnd64 (- 1) = Fin (- 1)"
  "(numeral n :: int) \<le> 2 ^ 53 \<Longrightarrow> rnd64 (numeral n) = Fin (numeral n)"
  "(numeral n :: int) \<le> 2 ^ 53 \<Longrightarrow> rnd64 (- numeral n) = Fin (- numeral n)"
  using rnd64_of_int [of 0] rnd64_of_int [of 1] rnd64_of_int [of "- 1"]
    rnd64_of_int [of "numeral n"] rnd64_of_int [of "- numeral n"] by simp_all

lemma rnd64_eqI:
  assumes "pow2 (e + 52) \<le> x" "x < pow2 (e + 53)" "\<bar>x / pow2 e - of_int m\<bar> < 1 / 2"
    "- 1074 \<le> e" "e \<le> 970" "\<bar>m\<bar> \<le> 2 ^ 53"
  shows "rnd64 x = Fin (of_int m * pow2 e)"
  using rnd64_exact [of m e] rnd_rat_eqI [of e x m] assms by (simp add: rnd64_Fin_iff)

locale rounding =
  fixes rnd :: "rat \<Rightarrow> jsnum"
  assumes rnd_between: "rnd a = Fin a' \<Longrightarrow> rnd b = Fin b' \<Longrightarrow> a \<le> x \<Longrightarrow> x \<le> b
      \<Longrightarrow> \<exists>x'. rnd x = Fin x' \<and> a' \<le> x' \<and> x' \<le> b'"
    and rnd_idem: "rnd x = Fin y \<Longrightarrow> rnd y = Fin y"
    and rnd_int: "\<bar>m\<bar> \<le> 2 ^ 53 \<Longrightarrow> rnd (of_int m) = Fin (of_int m)"
begin

lemma rnd_mono: "rnd a = Fin a' \<Longrightarrow> rnd b = Fin b' \<Longrightarrow> a \<le> b \<Longrightarrow> a' \<le> b'"
  using rnd_between [of a a' b b' a] by auto

lemma rnd_unit: "0 \<le> x \<Longrightarrow> x \<le> 1 \<Longrightarrow> \<exists>x'. rnd x = Fin x' \<and> 0 \<le> x' \<and> x' \<le> 1"
  using rnd_between [of 0 0 1 1 x] rnd_int [of 0] rnd_int [of 1] by simp

lemma rnd_finite_convex: "rnd a = Fin a' \<Longrightarrow> rnd b = Fin b' \<Longrightarrow> a \<le> x \<Longrightarrow> x \<le> b \<Longrightarrow> rnd x \<notin> {NaN, Inf, NegInf}"
  using rnd_between by fastforce

lemma rnd_between_int:
  assumes "of_int m \<le> x" "x \<le> of_int n" "\<bar>m\<bar> \<le> 2 ^ 53" "\<bar>n\<bar> \<le> 2 ^ 53"
  shows "\<exists>x'. rnd x = Fin x' \<and> of_int m \<le> x' \<and> x' \<le> of_int n"
  using rnd_between [OF rnd_int rnd_int, of m n x] assms by simp

end

lemma rnd64_idem: "rnd64 x = Fin y \<Longrightarrow> rnd64 y = Fin y"
proof -
  assume y: "rnd64 x = Fin y"
  have "rnd_rat y = y"
  proof (cases "x = 0")
    case True
    then show ?thesis using y by (simp add: rnd64_Fin_iff)
  next
    case False
    let ?u = "ulp_exp x"
    have yx: "y = of_int (rne (x / pow2 ?u)) * pow2 ?u"
      using y False by (simp add: rnd64_Fin_iff rnd_rat_def Let_def)
    have "\<bar>y\<bar> = rnd_rat \<bar>x\<bar>"
      using y rnd_rat_nonneg [of "- x"] rnd_rat_nonneg [of x]
      by (cases "0 \<le> x") (auto simp: rnd64_Fin_iff rnd_rat_minus abs_of_neg)
    also have "\<dots> \<le> pow2 (?u + 53)" using rnd_rat_le_binade [of "\<bar>x\<bar>"] False by (simp add: ulp_exp_def)
    finally have "\<bar>of_int (rne (x / pow2 ?u)) :: rat\<bar> \<le> of_int (2 ^ 53)"
      unfolding yx pow2_53 [symmetric] by (simp add: abs_mult)
    then have "\<bar>rne (x / pow2 ?u)\<bar> \<le> 2 ^ 53" by (metis of_int_abs of_int_le_iff)
    then show ?thesis unfolding yx by (rule rnd_rat_exact) (simp add: ulp_exp_def)
  qed
  moreover have "\<bar>y\<bar> < pow2 1024" using y rnd64_Fin_iff by blast
  ultimately show ?thesis unfolding rnd64_Fin_iff by simp
qed

interpretation r64: rounding rnd64
proof
  fix a a' b b' x
  assume "rnd64 a = Fin a'" "rnd64 b = Fin b'" "a \<le> x" "x \<le> b"
  then show "\<exists>x'. rnd64 x = Fin x' \<and> a' \<le> x' \<and> x' \<le> b'"
    using rnd_rat_mono [of a x] rnd_rat_mono [of x b] by (auto simp: rnd64_Fin_iff)
qed (simp_all add: rnd64_of_int rnd64_idem)


section \<open>Operations and comparisons\<close>

text \<open>
  The operators and \<open>Math\<close> functions the program uses. Comparisons with NaN are false, and
  \<open>Math.max\<close> and \<open>Math.min\<close> are NaN when an argument is. \<open>Math.round\<close> is the greatest integer
  not above \<open>x + 1/2\<close>, computed exactly as the language requires. \<open>jlit\<close> is a decimal literal of
  the source: the double nearest to its decimal value.
\<close>

definition jlit :: "rat \<Rightarrow> jsnum" where
  "jlit q = rnd64 q"

fun jneg :: "jsnum \<Rightarrow> jsnum" where
  "jneg NaN = NaN"
| "jneg Inf = NegInf"
| "jneg NegInf = Inf"
| "jneg (Fin x) = Fin (- x)"

fun jadd :: "jsnum \<Rightarrow> jsnum \<Rightarrow> jsnum" where
  "jadd (Fin x) (Fin y) = rnd64 (x + y)"
| "jadd NaN y = NaN"
| "jadd x NaN = NaN"
| "jadd Inf NegInf = NaN"
| "jadd NegInf Inf = NaN"
| "jadd Inf y = Inf"
| "jadd x Inf = Inf"
| "jadd NegInf y = NegInf"
| "jadd x NegInf = NegInf"

definition jsub :: "jsnum \<Rightarrow> jsnum \<Rightarrow> jsnum" where
  "jsub x y = jadd x (jneg y)"

text \<open>An infinity times a finite value takes the sign of the product; zero gives NaN.\<close>

definition jinf_times :: "bool \<Rightarrow> rat \<Rightarrow> jsnum" where
  "jinf_times pos y = (if y = 0 then NaN else if (0 < y) = pos then Inf else NegInf)"

fun jmul :: "jsnum \<Rightarrow> jsnum \<Rightarrow> jsnum" where
  "jmul (Fin x) (Fin y) = rnd64 (x * y)"
| "jmul NaN y = NaN"
| "jmul x NaN = NaN"
| "jmul Inf (Fin y) = jinf_times True y"
| "jmul NegInf (Fin y) = jinf_times False y"
| "jmul (Fin x) Inf = jinf_times True x"
| "jmul (Fin x) NegInf = jinf_times False x"
| "jmul Inf Inf = Inf"
| "jmul NegInf NegInf = Inf"
| "jmul Inf NegInf = NegInf"
| "jmul NegInf Inf = NegInf"

fun jdiv :: "jsnum \<Rightarrow> jsnum \<Rightarrow> jsnum" where
  "jdiv (Fin x) (Fin y) =
     (if y = 0 then (if x = 0 then NaN else if 0 < x then Inf else NegInf) else rnd64 (x / y))"
| "jdiv NaN y = NaN"
| "jdiv x NaN = NaN"
| "jdiv (Fin x) y = Fin 0"
| "jdiv Inf (Fin y) = (if 0 \<le> y then Inf else NegInf)"
| "jdiv NegInf (Fin y) = (if 0 \<le> y then NegInf else Inf)"
| "jdiv x y = NaN"

fun jlt :: "jsnum \<Rightarrow> jsnum \<Rightarrow> bool" where
  "jlt (Fin x) (Fin y) = (x < y)"
| "jlt NaN y = False"
| "jlt x NaN = False"
| "jlt x NegInf = False"
| "jlt Inf y = False"
| "jlt x y = True"

fun jeq :: "jsnum \<Rightarrow> jsnum \<Rightarrow> bool" where
  "jeq (Fin x) (Fin y) = (x = y)"
| "jeq Inf Inf = True"
| "jeq NegInf NegInf = True"
| "jeq x y = False"

definition jle :: "jsnum \<Rightarrow> jsnum \<Rightarrow> bool" where
  "jle x y = (jlt x y \<or> jeq x y)"

fun jabs :: "jsnum \<Rightarrow> jsnum" where
  "jabs (Fin x) = Fin \<bar>x\<bar>"
| "jabs NaN = NaN"
| "jabs x = Inf"

definition jmax :: "jsnum \<Rightarrow> jsnum \<Rightarrow> jsnum" where
  "jmax x y = (if x = NaN \<or> y = NaN then NaN else if jlt x y then y else x)"

definition jmin :: "jsnum \<Rightarrow> jsnum \<Rightarrow> jsnum" where
  "jmin x y = (if x = NaN \<or> y = NaN then NaN else if jlt y x then y else x)"

fun jround :: "jsnum \<Rightarrow> jsnum" where
  "jround (Fin x) = Fin (of_int \<lfloor>x + 1 / 2\<rfloor>)"
| "jround x = x"

fun isFinite :: "jsnum \<Rightarrow> bool" where
  "isFinite (Fin x) = True"
| "isFinite x = False"

text \<open>\<open>Math.round(x * 10) / 10\<close> and \<open>Math.round(x * 100) / 100\<close>, the program's rounding idioms.\<close>

definition jround1 :: "jsnum \<Rightarrow> jsnum" where
  "jround1 x = jdiv (jround (jmul x (Fin 10))) (Fin 10)"

definition jround2 :: "jsnum \<Rightarrow> jsnum" where
  "jround2 x = jdiv (jround (jmul x (Fin 100))) (Fin 100)"

text \<open>\<open>Math.max(...xs, d)\<close> and a \<open>reduce\<close> that adds from zero.\<close>

definition jmax_list :: "jsnum list \<Rightarrow> jsnum \<Rightarrow> jsnum" where
  "jmax_list xs d = foldr jmax xs d"

definition jsum :: "jsnum list \<Rightarrow> jsnum" where
  "jsum xs = foldl jadd (Fin 0) xs"

section \<open>Ranges\<close>

fun in_range :: "rat \<Rightarrow> rat \<Rightarrow> jsnum \<Rightarrow> bool" where
  "in_range lo hi (Fin x) = (lo \<le> x \<and> x \<le> hi)"
| "in_range lo hi x = False"

lemma in_range_iff: "in_range lo hi x \<longleftrightarrow> (\<exists>r. x = Fin r \<and> lo \<le> r \<and> r \<le> hi)"
  by (cases x) auto

lemma in_rangeE:
  assumes "in_range lo hi x"
  obtains r where "x = Fin r" "lo \<le> r" "r \<le> hi"
  using assms by (auto simp: in_range_iff)

lemma in_range_weaken: "in_range a b x \<Longrightarrow> c \<le> a \<Longrightarrow> b \<le> d \<Longrightarrow> in_range c d x"
  by (auto simp: in_range_iff)

lemma in_range_finite: "in_range a b x \<Longrightarrow> isFinite x"
  by (auto elim: in_rangeE)

lemma isFinite_iff: "isFinite x \<longleftrightarrow> (\<exists>r. x = Fin r)"
  by (cases x) auto

lemma in_range_rnd:
  assumes "a \<le> x" "x \<le> b" "rnd64 a = Fin lo" "rnd64 b = Fin hi"
  shows "in_range lo hi (rnd64 x)"
  using r64.rnd_between [OF assms(3,4,1,2)] by (auto simp: in_range_iff)

lemma in_range_add:
  assumes "in_range a b x" "in_range c d y" "rnd64 (a + c) = Fin lo" "rnd64 (b + d) = Fin hi"
  shows "in_range lo hi (jadd x y)"
  using assms(1,2) in_range_rnd [OF _ _ assms(3,4)]
  by (auto elim!: in_rangeE intro: add_mono)

lemma in_range_neg: "in_range a b x \<Longrightarrow> in_range (- b) (- a) (jneg x)"
  by (auto elim!: in_rangeE)

lemma in_range_sub:
  assumes "in_range a b x" "in_range c d y" "rnd64 (a - d) = Fin lo" "rnd64 (b - c) = Fin hi"
  shows "in_range lo hi (jsub x y)"
  using in_range_add [OF assms(1) in_range_neg [OF assms(2)]] assms(3,4) by (simp add: jsub_def)

lemma in_range_mul:
  assumes "in_range a b x" "in_range c d y" "0 \<le> a" "0 \<le> c"
    "rnd64 (a * c) = Fin lo" "rnd64 (b * d) = Fin hi"
  shows "in_range lo hi (jmul x y)"
proof -
  obtain r q where r: "x = Fin r" "a \<le> r" "r \<le> b" and q: "y = Fin q" "c \<le> q" "q \<le> d"
    using assms(1,2) by (auto simp: in_range_iff)
  have "a * c \<le> r * q" "r * q \<le> b * d" using r q assms(3,4) by (auto intro!: mult_mono)
  then show ?thesis using in_range_rnd [OF _ _ assms(5,6)] r q by simp
qed

lemma in_range_div:
  assumes "in_range a b x" "in_range c d y" "0 \<le> a" "0 < c"
    "rnd64 (a / d) = Fin lo" "rnd64 (b / c) = Fin hi"
  shows "in_range lo hi (jdiv x y)"
proof -
  obtain r q where r: "x = Fin r" "a \<le> r" "r \<le> b" and q: "y = Fin q" "c \<le> q" "q \<le> d"
    using assms(1,2) by (auto simp: in_range_iff)
  have "a / d \<le> r / q" "r / q \<le> b / c" using r q assms(3,4) by (auto intro!: frac_le)
  then show ?thesis using in_range_rnd [OF _ _ assms(5,6)] r q assms(4) by simp
qed

lemma in_range_div_unit:
  assumes "0 \<le> x" "x \<le> y" "0 < y"
  shows "in_range 0 1 (jdiv (Fin x) (Fin y))"
  using assms r64.rnd_unit [of "x / y"] by (auto simp: in_range_iff)

lemma in_range_round: "in_range (of_int a) (of_int b) x \<Longrightarrow> in_range (of_int a) (of_int b) (jround x)"
proof (elim in_rangeE)
  fix r assume r: "x = Fin r" "of_int a \<le> r" "r \<le> of_int b"
  have "a \<le> \<lfloor>r + 1 / 2\<rfloor>" using r(2) by linarith
  moreover have "\<lfloor>r + 1 / 2\<rfloor> \<le> b" using r(3) by linarith
  ultimately show ?thesis using r(1) by simp
qed

lemma in_range_max: "in_range a b x \<Longrightarrow> in_range c d y \<Longrightarrow> in_range (max a c) (max b d) (jmax x y)"
  by (auto simp: jmax_def elim!: in_rangeE)

lemma in_range_min: "in_range a b x \<Longrightarrow> in_range c d y \<Longrightarrow> in_range (min a c) (min b d) (jmin x y)"
  by (auto simp: jmin_def elim!: in_rangeE)

text \<open>The rounding idiom keeps an integer percentage range, here for any \<open>[0, n]\<close> with small \<open>n\<close>.\<close>

lemma in_range_round1:
  assumes "in_range 0 (of_int n) x" "0 \<le> n" "10 * n \<le> 2 ^ 53"
  shows "in_range 0 (of_int n) (jround1 x)"
proof -
  have "in_range 0 (of_int (n * 10)) (jmul x (Fin 10))"
    using in_range_mul [OF assms(1), of 10 10 "Fin 10" 0 "of_int (n * 10)"] rnd64_of_int [of "n * 10"] assms
    by (simp add: mult.commute)
  then have "in_range 0 (of_int (n * 10)) (jround (jmul x (Fin 10)))"
    using in_range_round [of 0 "n * 10"] by simp
  then have "in_range 0 (of_int n) (jdiv (jround (jmul x (Fin 10))) (Fin 10))"
    using in_range_div [of 0 "of_int (n * 10)" _ 10 10 "Fin 10" 0 "of_int n"] rnd64_of_int [of n] assms
    by simp
  then show ?thesis by (simp add: jround1_def)
qed

section \<open>Order\<close>

lemma jle_Fin [simp]: "jle (Fin x) (Fin y) \<longleftrightarrow> x \<le> y"
  by (auto simp: jle_def)

lemma jle_NaN [simp]: "\<not> jle NaN x" "\<not> jle x NaN" "\<not> jlt NaN x" "\<not> jlt x NaN"
  by (cases x; simp add: jle_def)+

lemma jle_not_jlt: "x \<noteq> NaN \<Longrightarrow> y \<noteq> NaN \<Longrightarrow> jle x y \<longleftrightarrow> \<not> jlt y x"
  by (cases x; cases y) (auto simp: jle_def)

lemma jle_trans: "jle x y \<Longrightarrow> jle y z \<Longrightarrow> jle x z"
  by (cases x; cases y; cases z) (auto simp: jle_def)

lemma jlt_jle_trans: "jlt x y \<Longrightarrow> jle y z \<Longrightarrow> jlt x z"
  by (cases x; cases y; cases z) (auto simp: jle_def)


lemma rnd64_not_NaN [simp]: "rnd64 x \<noteq> NaN"
  by (simp add: rnd64_def Let_def)

lemma jle_rnd: "x \<le> y \<Longrightarrow> jle (rnd64 x) (rnd64 y)"
proof -
  assume "x \<le> y"
  then have m: "rnd_rat x \<le> rnd_rat y" by (rule rnd_rat_mono)
  have big: "1024 \<le> ilog2 \<bar>z\<bar> \<longleftrightarrow> pow2 1024 \<le> \<bar>z\<bar>" if "z \<noteq> 0" for z
    using that by (simp add: ilog2_ge_iff)
  show ?thesis
    using m pow2_pos [of 1024] big [of "rnd_rat x"] big [of "rnd_rat y"]
    by (auto simp: rnd64_def Let_def jle_def)
qed

lemma jle_add: "jle (Fin a) (Fin b) \<Longrightarrow> jle (Fin c) (Fin d) \<Longrightarrow> jle (jadd (Fin a) (Fin c)) (jadd (Fin b) (Fin d))"
  by (simp add: jle_rnd add_mono)

lemma jle_mul: "0 \<le> w \<Longrightarrow> a \<le> b \<Longrightarrow> jle (jmul (Fin w) (Fin a)) (jmul (Fin w) (Fin b))"
  by (simp add: jle_rnd mult_left_mono)

lemma jle_Inf [simp]:
  "x \<noteq> NaN \<Longrightarrow> jle x Inf" "x \<noteq> NaN \<Longrightarrow> jle NegInf x"
  "\<not> jle Inf (Fin r)" "\<not> jle (Fin r) NegInf" "\<not> jle Inf NegInf"
  by (cases x; simp add: jle_def)+

lemma jle_scale: "jle x y \<Longrightarrow> 0 < w \<Longrightarrow> jle (jmul x (Fin w)) (jmul y (Fin w))"
  by (cases x; cases y) (auto simp: jinf_times_def intro!: jle_rnd)

lemma jle_div: "jle x y \<Longrightarrow> 0 < w \<Longrightarrow> jle (jdiv x (Fin w)) (jdiv y (Fin w))"
  by (cases x; cases y) (auto intro!: jle_rnd divide_right_mono)

lemma jle_round: "jle x y \<Longrightarrow> jle (jround x) (jround y)"
  by (cases x; cases y) (auto intro: floor_mono)

lemma jle_round1: "jle x y \<Longrightarrow> jle (jround1 x) (jround1 y)"
  unfolding jround1_def by (intro jle_div jle_round jle_scale) simp_all

lemma jle_round2: "jle x y \<Longrightarrow> jle (jround2 x) (jround2 y)"
  unfolding jround2_def by (intro jle_div jle_round jle_scale) simp_all

lemma jround_of_int [simp]: "jround (Fin (of_int n)) = Fin (of_int n)"
  by (simp add: floor_eq_iff)

lemma jround_numeral [simp]: "jround (Fin 0) = Fin 0" "jround (Fin 1) = Fin 1" "jround (Fin (numeral k)) = Fin (numeral k)"
  using jround_of_int [of 0] jround_of_int [of 1] jround_of_int [of "numeral k"] by (simp_all del: jround.simps)

lemma jround1_of_int: "\<bar>10 * n\<bar> \<le> 2 ^ 53 \<Longrightarrow> jround1 (Fin (of_int n)) = Fin (of_int n)"
  using rnd64_of_int [of "n * 10"] rnd64_of_int [of n] jround_of_int [of "n * 10"]
  by (simp add: jround1_def del: jround.simps)

lemma jle_jneg: "jle x y \<Longrightarrow> jle (jneg y) (jneg x)"
  by (cases x; cases y) simp_all

lemma jle_minus: "jle x y \<Longrightarrow> jle (jsub (Fin c) y) (jsub (Fin c) x)"
  by (cases x; cases y) (simp_all add: jsub_def jle_rnd)

lemma jle_max0: "jle x y \<Longrightarrow> jle (jmax (Fin c) x) (jmax (Fin c) y)"
  by (cases x; cases y) (auto simp: jmax_def)

lemma in_range_max0: "jle x (Fin b) \<Longrightarrow> 0 \<le> b \<Longrightarrow> in_range 0 b (jmax (Fin 0) x)"
  by (cases x) (auto simp: jmax_def)

text \<open>The values a JavaScript number can hold: a finite one is a double.\<close>

definition is_double :: "jsnum \<Rightarrow> bool" where
  "is_double x = (case x of Fin r \<Rightarrow> rnd64 r = Fin r | _ \<Rightarrow> True)"

lemma is_double_rnd [simp]: "is_double (rnd64 x)"
  by (cases "rnd64 x") (auto simp: is_double_def intro: rnd64_idem)

text \<open>A product of a positive double with a factor of at least one does not underflow to zero.\<close>

lemma jmul_pos:
  assumes "rnd64 g = Fin g" "0 < g" "1 \<le> f"
  shows "jmul (Fin g) (Fin f) = Inf \<or> (\<exists>a. jmul (Fin g) (Fin f) = Fin a \<and> g \<le> a)"
proof -
  have "jle (rnd64 g) (rnd64 (g * f))" using assms by (intro jle_rnd) simp
  then show ?thesis using assms(1) by (cases "rnd64 (g * f)") auto
qed

lemma jdiv_mono_num:
  assumes "x \<le> y" "a = Inf \<or> (\<exists>r. a = Fin r \<and> 0 < r)"
  shows "jle (jdiv (Fin x) a) (jdiv (Fin y) a)"
  using assms by (auto intro!: jle_rnd divide_right_mono)

section \<open>Times\<close>

text \<open>\<open>new Date(t)\<close>: the time value is truncated, and invalid beyond \<open>8.64e15\<close>.\<close>

definition date_value :: "jsnum \<Rightarrow> int option" where
  "date_value t =
     (case t of
        Fin r \<Rightarrow> if \<bar>r\<bar> \<le> 8640000000000000 then Some (if 0 \<le> r then \<lfloor>r\<rfloor> else \<lceil>r\<rceil>) else None
      | _ \<Rightarrow> None)"

lemma date_value_Some: "date_value t = Some e \<Longrightarrow> \<exists>r. t = Fin r \<and> \<bar>r\<bar> \<le> 8640000000000000 \<and> (0 \<le> r \<longrightarrow> e = \<lfloor>r\<rfloor>)"
  by (auto simp: date_value_def split: jsnum.splits if_splits)

text \<open>\<open>Math.floor\<close>.\<close>

fun jfloor :: "jsnum \<Rightarrow> jsnum" where
  "jfloor (Fin x) = Fin (of_int \<lfloor>x\<rfloor>)"
| "jfloor x = x"

end
