(* ===== verification/Prelude.thy ===== *)
theory Prelude
  imports Main "HOL-Library.AList" "HOL-Library.Sublist"
begin

text \<open>
  Shared vocabulary of the development: JavaScript maps (insertion-ordered association lists) with
  their interface as the locale \<open>js_map\<close>, bounded buffers with the locale \<open>bounded_buffer\<close>, the
  string operations the program uses, and generic lemmas on \<open>find\<close> and stable sorting.

  Strings are Isabelle \<open>string\<close>s and stand for the ASCII strings of the program: the case
  conversions and \<open>trim\<close> below agree with JavaScript's on ASCII. A dash that the source writes
  as a Unicode character is the list of its UTF-8 bytes.
\<close>

named_theorems js_defs \<open>definitions of small helpers that simplification may unfold\<close>

lemma find_Some_mem: "find P xs = Some x \<Longrightarrow> x \<in> set xs \<and> P x"
proof (induction xs)
  case (Cons y ys)
  then show ?case by (cases "P y") auto
qed simp

section \<open>Insertion-ordered maps\<close>

text \<open>
  A JavaScript \<open>Map\<close> iterates in the order in which its keys were first set; setting a key again
  keeps its place. \<^const>\<open>AList.update\<close> of the library is exactly that on association lists.
\<close>

type_synonym ('k, 'v) jmap = "('k \<times> 'v) list"

abbreviation jm_get :: "('k, 'v) jmap \<Rightarrow> 'k \<Rightarrow> 'v option" where
  "jm_get m k \<equiv> map_of m k"

abbreviation jm_set :: "'k \<Rightarrow> 'v \<Rightarrow> ('k, 'v) jmap \<Rightarrow> ('k, 'v) jmap" where
  "jm_set k v m \<equiv> AList.update k v m"

abbreviation jm_keys :: "('k, 'v) jmap \<Rightarrow> 'k list" where
  "jm_keys m \<equiv> map fst m"

lemma jm_keys_set: "jm_keys (jm_set k v m) = (if k \<in> set (jm_keys m) then jm_keys m else jm_keys m @ [k])"
  by (induction m) auto

lemma jm_set_new: "k \<notin> set (jm_keys m) \<Longrightarrow> jm_set k v m = m @ [(k, v)]"
  by (induction m) auto

lemma jm_get_None_iff: "jm_get m k = None \<longleftrightarrow> k \<notin> set (jm_keys m)"
  by (simp add: map_of_eq_None_iff)

text \<open>
  The interface the components rely on when they fill a map in a loop: what a lookup returns after
  a store, and how a store changes the iteration order.
\<close>

locale js_map =
  fixes empty :: "'m"
    and store :: "'k \<Rightarrow> 'v \<Rightarrow> 'm \<Rightarrow> 'm"
    and lookup :: "'m \<Rightarrow> 'k \<Rightarrow> 'v option"
    and keys :: "'m \<Rightarrow> 'k list"
  assumes lookup_empty: "lookup empty k = None"
    and lookup_store: "lookup (store k v m) k' = (if k' = k then Some v else lookup m k')"
    and keys_empty: "keys empty = []"
    and keys_store: "keys (store k v m) = (if k \<in> set (keys m) then keys m else keys m @ [k])"
    and lookup_None: "lookup m k = None \<longleftrightarrow> k \<notin> set (keys m)"
begin

lemma lookup_fill:
  "lookup (foldl (\<lambda>m x. store (f x) (g x) m) m xs) k =
     (case find (\<lambda>x. f x = k) (rev xs) of Some x \<Rightarrow> Some (g x) | None \<Rightarrow> lookup m k)"
proof (induction xs rule: rev_induct)
  case Nil
  then show ?case by simp
next
  case (snoc x xs)
  then show ?case by (auto simp: lookup_store)
qed

lemma keys_fill: "set (keys (foldl (\<lambda>m x. store (f x) (g x) m) m xs)) = set (keys m) \<union> f ` set xs"
  by (induction xs rule: rev_induct) (auto simp: keys_store)

lemma distinct_keys_fill:
  "distinct (keys m) \<Longrightarrow> distinct (keys (foldl (\<lambda>m x. store (f x) (g x) m) m xs))"
  by (induction xs rule: rev_induct) (auto simp: keys_store)

lemma fill_empty:
  assumes "x \<in> set xs"
  obtains y where "y \<in> set xs" "f y = f x"
    "lookup (foldl (\<lambda>m x. store (f x) (g x) m) empty xs) (f x) = Some (g y)"
proof (cases "find (\<lambda>y. f y = f x) (rev xs)")
  case None
  then have "\<forall>y\<in>set xs. f y \<noteq> f x" by (simp add: find_None_iff)
  with assms show thesis by blast
next
  case (Some y)
  then have "y \<in> set (rev xs) \<and> f y = f x" by (rule find_Some_mem)
  then show thesis using Some that [of y] by (simp add: lookup_fill)
qed

lemma fill_range:
  assumes "lookup (foldl (\<lambda>m x. store (f x) (g x) m) empty xs) k = Some v"
  obtains x where "x \<in> set xs" "f x = k" "v = g x"
proof (cases "find (\<lambda>y. f y = k) (rev xs)")
  case None
  with assms show thesis by (simp add: lookup_fill lookup_empty)
next
  case (Some y)
  then have "y \<in> set (rev xs) \<and> f y = k" by (rule find_Some_mem)
  then show thesis using Some that [of y] assms by (simp add: lookup_fill)
qed

end

interpretation jm: js_map "[] :: ('k, 'v) jmap" AList.update map_of jm_keys
  by unfold_locales (auto simp: update_conv jm_keys_set jm_get_None_iff simp del: map_map)

section \<open>Bounded buffers\<close>

text \<open>
  Several components keep the most recent entries in an array: they push at the end and, above the
  bound, shift the oldest entry out.
\<close>

definition ring_push :: "nat \<Rightarrow> 'a \<Rightarrow> 'a list \<Rightarrow> 'a list" where
  "ring_push cap x xs = (let ys = xs @ [x] in if cap < length ys then tl ys else ys)"

locale bounded_buffer =
  fixes cap :: nat
    and push :: "'a \<Rightarrow> 'a list \<Rightarrow> 'a list"
  assumes cap_pos: "0 < cap"
    and push_bound: "length xs \<le> cap \<Longrightarrow> length (push x xs) \<le> cap"
    and push_last: "last (push x xs) = x"
    and push_keeps: "length xs < cap \<Longrightarrow> push x xs = xs @ [x]"
    and push_evicts: "length xs = cap \<Longrightarrow> push x xs = tl xs @ [x]"
begin

lemma push_all_bound: "length xs \<le> cap \<Longrightarrow> length (foldl (\<lambda>b x. push x b) xs ys) \<le> cap"
  by (induction ys arbitrary: xs) (auto intro: push_bound)

lemma push_set: "length xs \<le> cap \<Longrightarrow> set (push x xs) \<subseteq> insert x (set xs)"
  using push_keeps [of xs x] push_evicts [of xs x]
  by (cases "length xs = cap") (auto dest: list.set_sel(2) [rotated] intro: list.set_sel(2))

text \<open>A full run of pushes from the empty buffer keeps exactly the last \<open>cap\<close> values.\<close>

lemma push_all_suffix: "foldl (\<lambda>b x. push x b) [] ys = drop (length ys - cap) ys"
proof (induction ys rule: rev_induct)
  case Nil
  then show ?case by simp
next
  case (snoc y ys)
  show ?case
  proof (cases "length ys < cap")
    case True
    with snoc show ?thesis by (simp add: push_keeps)
  next
    case False
    then have "push y (drop (length ys - cap) ys) = tl (drop (length ys - cap) ys) @ [y]"
      by (intro push_evicts) simp
    then show ?thesis using snoc False cap_pos
      by (simp add: tl_drop drop_Suc Suc_diff_le flip: drop_Suc)
  qed
qed

end

lemma ring_push_buffer: "0 < cap \<Longrightarrow> bounded_buffer cap (ring_push cap)"
  by unfold_locales (auto simp: ring_push_def Let_def last_tl tl_append split: list.split)

section \<open>Strings\<close>

definition lower_char :: "char \<Rightarrow> char" where
  "lower_char c = (if 65 \<le> (of_char c :: nat) \<and> (of_char c :: nat) \<le> 90
                   then char_of (of_char c + 32 :: nat) else c)"

definition upper_char :: "char \<Rightarrow> char" where
  "upper_char c = (if 97 \<le> (of_char c :: nat) \<and> (of_char c :: nat) \<le> 122
                   then char_of (of_char c - 32 :: nat) else c)"

definition to_lower :: "string \<Rightarrow> string" where
  "to_lower s = map lower_char s"

definition to_upper :: "string \<Rightarrow> string" where
  "to_upper s = map upper_char s"

lemma lower_char_idem [simp]: "lower_char (lower_char c) = lower_char c"
  by (simp add: lower_char_def)

lemma upper_char_idem [simp]: "upper_char (upper_char c) = upper_char c"
proof (cases "97 \<le> (of_char c :: nat) \<and> (of_char c :: nat) \<le> 122")
  case True
  then have "of_char (upper_char c) = (of_char c - 32 :: nat)"
    by (simp add: upper_char_def less_imp_diff_less)
  moreover from True have "\<not> 97 \<le> (of_char c - 32 :: nat)" by linarith
  ultimately show ?thesis by (subst upper_char_def) simp
next
  case False
  then have "upper_char c = c" unfolding upper_char_def by argo
  then show ?thesis by simp
qed

lemma upper_lower_char [simp]: "upper_char (lower_char c) = upper_char c"
proof (cases "65 \<le> (of_char c :: nat) \<and> (of_char c :: nat) \<le> 90")
  case True
  then have "(of_char (lower_char c) :: nat) = of_char c + 32" by (simp add: lower_char_def)
  moreover have "upper_char c = c" using True by (simp add: upper_char_def)
  ultimately show ?thesis using True by (simp add: upper_char_def [of "lower_char c"])
next
  case False
  then have "lower_char c = c" unfolding lower_char_def by argo
  then show ?thesis by simp
qed

lemma to_upper_lower [simp]: "to_upper (to_lower s) = to_upper s"
  by (simp add: to_upper_def to_lower_def)

lemma to_lower_idem [simp]: "to_lower (to_lower s) = to_lower s"
  by (simp add: to_lower_def)

lemma to_upper_idem [simp]: "to_upper (to_upper s) = to_upper s"
  by (simp add: to_upper_def)

lemma to_lower_append: "to_lower (s @ t) = to_lower s @ to_lower t"
  by (simp add: to_lower_def)

definition is_space :: "char \<Rightarrow> bool" where
  "is_space c = ((of_char c :: nat) \<in> {9, 10, 11, 12, 13, 32})"

definition trim_start :: "string \<Rightarrow> string" where
  "trim_start s = dropWhile is_space s"

definition trim :: "string \<Rightarrow> string" where
  "trim s = rev (trim_start (rev (trim_start s)))"

lemma dropWhile_idem [simp]: "dropWhile P (dropWhile P xs) = dropWhile P xs"
  by (induction xs) auto

fun str_includes :: "string \<Rightarrow> string \<Rightarrow> bool" where
  "str_includes [] p = (p = [])"
| "str_includes (c # s) p = (prefix p (c # s) \<or> str_includes s p)"

lemma str_includes_iff: "str_includes s p \<longleftrightarrow> (\<exists>a b. s = a @ p @ b)"
proof (induction s)
  case Nil
  then show ?case by auto
next
  case (Cons c s)
  show ?case
  proof
    assume "str_includes (c # s) p"
    then consider "prefix p (c # s)" | "str_includes s p" by auto
    then show "\<exists>a b. c # s = a @ p @ b"
    proof cases
      case 1
      then show ?thesis by (auto simp: prefix_def intro: exI [of _ "[]"])
    next
      case 2
      with Cons obtain a b where "s = a @ p @ b" by auto
      then have "c # s = (c # a) @ p @ b" by simp
      then show ?thesis by blast
    qed
  next
    assume "\<exists>a b. c # s = a @ p @ b"
    then obtain a b where ab: "c # s = a @ p @ b" by blast
    then show "str_includes (c # s) p"
    proof (cases a)
      case Nil
      then have "prefix p (c # s)" using ab by simp
      then show ?thesis by simp
    next
      case (Cons d a')
      then have "s = a' @ p @ b" using ab by simp
      then have "str_includes s p" using Cons.IH by blast
      then show ?thesis by simp
    qed
  qed
qed

lemma str_includes_append: "str_includes s p \<Longrightarrow> str_includes (a @ s @ b) p"
  unfolding str_includes_iff by (metis append.assoc)

fun join :: "string \<Rightarrow> string list \<Rightarrow> string" where
  "join sep [] = []"
| "join sep [x] = x"
| "join sep (x # y # zs) = x @ sep @ join sep (y # zs)"

text \<open>\<open>String.prototype.split\<close> with a separator of one character.\<close>

fun split_on :: "char \<Rightarrow> string \<Rightarrow> string list" where
  "split_on d [] = [[]]"
| "split_on d (c # s) =
     (if c = d then [] # split_on d s else (case split_on d s of t # ts \<Rightarrow> (c # t) # ts | [] \<Rightarrow> [[c]]))"

lemma split_on_ne [simp]: "split_on d s \<noteq> []"
  by (cases s) (auto split: list.split)

lemma split_on_free: "d \<notin> set s \<Longrightarrow> split_on d s = [s]"
  by (induction s) auto

lemma split_on_append: "d \<notin> set s \<Longrightarrow> split_on d (s @ d # t) = s # split_on d t"
  by (induction s) auto

lemma split_on_join: "xs \<noteq> [] \<Longrightarrow> \<forall>x\<in>set xs. d \<notin> set x \<Longrightarrow> split_on d (join [d] xs) = xs"
proof (induction "[d]" xs rule: join.induct)
  case (3 x y zs)
  then show ?case by (simp add: split_on_append)
qed (simp_all add: split_on_free)

text \<open>Decimal notation of a natural number, as a template literal prints it.\<close>

fun nat_str :: "nat \<Rightarrow> string" where
  "nat_str n = (if n < 10 then [char_of (48 + n)] else nat_str (n div 10) @ [char_of (48 + n mod 10)])"

declare nat_str.simps [simp del]

lemma nat_str_ne [simp]: "nat_str n \<noteq> []"
  by (subst nat_str.simps) simp

text \<open>The em dash of the program's messages, as its UTF-8 bytes.\<close>

definition em_dash :: string where
  "em_dash = [CHR 0xE2, CHR 0x80, CHR 0x94]"

section \<open>Lists\<close>

text \<open>\<open>Array.prototype.sort\<close> is stable, as \<^const>\<open>sort_key\<close> is; its first element is the first
  minimal one.\<close>

lemma sort_key_hd_min: "xs \<noteq> [] \<Longrightarrow> x \<in> set xs \<Longrightarrow> f (hd (sort_key f xs)) \<le> f x"
proof -
  assume xs: "xs \<noteq> []" and x: "x \<in> set xs"
  have s: "sorted (map f (sort_key f xs))" by simp
  have ne: "sort_key f xs \<noteq> []" using xs by (metis length_sort length_0_conv)
  obtain y ys where ys: "sort_key f xs = y # ys" using ne by (cases "sort_key f xs") auto
  have "x \<in> set (y # ys)" using x by (simp flip: ys)
  then show ?thesis using s by (auto simp: ys)
qed

lemma sort_key_hd_mem: "xs \<noteq> [] \<Longrightarrow> hd (sort_key f xs) \<in> set xs"
  by (metis hd_in_set length_0_conv length_sort set_sort)

lemma filter_eq_Nil_iff: "filter P xs = [] \<longleftrightarrow> (\<forall>x\<in>set xs. \<not> P x)"
  by (simp add: filter_empty_conv)

section \<open>Sorting with a comparison\<close>

text \<open>A stable sort by a comparison function, and what it is when the comparison is that of a key.\<close>

fun insert_by :: "('a \<Rightarrow> 'a \<Rightarrow> bool) \<Rightarrow> 'a \<Rightarrow> 'a list \<Rightarrow> 'a list" where
  "insert_by before x [] = [x]"
| "insert_by before x (y # ys) = (if before y x then y # insert_by before x ys else x # y # ys)"

definition sort_by :: "('a \<Rightarrow> 'a \<Rightarrow> bool) \<Rightarrow> 'a list \<Rightarrow> 'a list" where
  "sort_by before xs = foldr (insert_by before) xs []"

lemma set_insert_by [simp]: "set (insert_by before x ys) = insert x (set ys)"
  by (induction ys) auto

lemma length_insert_by [simp]: "length (insert_by before x ys) = Suc (length ys)"
  by (induction ys) auto

lemma sort_by_simps [simp]: "sort_by before [] = []" "sort_by before (x # xs) = insert_by before x (sort_by before xs)"
  by (simp_all add: sort_by_def)

lemma set_sort_by [simp]: "set (sort_by before xs) = set xs"
  by (induction xs) simp_all

lemma length_sort_by [simp]: "length (sort_by before xs) = length xs"
  by (induction xs) simp_all

lemma insert_by_key:
  assumes "\<forall>y\<in>set ys. before y x \<longleftrightarrow> (f y :: 'k :: linorder) < f x"
  shows "insert_by before x ys = insort_key f x ys"
  using assms by (induction ys) auto

lemma sort_by_key:
  assumes "\<forall>x\<in>set xs. \<forall>y\<in>set xs. before x y \<longleftrightarrow> (f x :: 'k :: linorder) < f y"
  shows "sort_by before xs = sort_key f xs"
  using assms
proof (induction xs)
  case (Cons x xs)
  then have "sort_by before xs = sort_key f xs" by simp
  moreover have "\<forall>y\<in>set (sort_key f xs). before y x \<longleftrightarrow> f y < f x" using Cons.prems by simp
  ultimately show ?case using insert_by_key [of "sort_key f xs" before x f] by (simp add: sort_by_def)
qed (simp add: sort_by_def)

section \<open>Sets in insertion order\<close>

text \<open>\<open>[...new Set(xs)]\<close>: the first occurrence of every element.\<close>

definition uniq :: "'a list \<Rightarrow> 'a list" where
  "uniq xs = rev (remdups (rev xs))"

lemma distinct_uniq [simp]: "distinct (uniq xs)"
  by (simp add: uniq_def)

lemma set_uniq [simp]: "set (uniq xs) = set xs"
  by (simp add: uniq_def)

end
