(* ===== verification/Scoring.thy ===== *)
theory Scoring
  imports Prelude JsNumber
begin

text \<open>
  The deterministic scoring engine, \<open>packages/core/engine/scoring\<close> and \<open>tier.ts\<close>: utilization,
  detection and quality scores, the weighted composite with its weight validation and minimum
  activity gate, and the tier of a composite. Counts, weights and scores are \<^typ>\<open>jsnum\<close>; an
  exception is a value of \<^typ>\<open>jsnum\<close>-carrying type \<open>score_error\<close>, on the left of a sum. An absent
  or null \<open>sourcetype\<close> is \<^const>\<open>None\<close>.
\<close>

section \<open>Inputs and results\<close>

record utilization_input =
  ui_index :: string
  ui_sourcetype :: "string option"
  alertCount :: jsnum
  scheduledSearchCount :: jsnum
  dashboardPanelCount :: jsnum
  distinctUserCount :: jsnum
  adHocSearchCount :: jsnum

record detection_input =
  di_index :: string
  di_sourcetype :: "string option"
  mitreTechniqueCount :: jsnum
  lanternUsecaseCount :: jsnum
  activeAlertCount :: jsnum

record quality_input =
  qi_index :: string
  qi_sourcetype :: "string option"
  weightedIssues :: jsnum
  qi_dailyGb :: jsnum
  eventsPerGbFactor :: "jsnum option"

record scoring_weights =
  w_utilization :: jsnum
  w_detection :: jsnum
  w_quality :: jsnum

datatype tier = Low_Value | Nice_to_Have | Important | Critical

record detection_result =
  dr_score :: jsnum
  dr_detectionGap :: bool
  dr_operationalGap :: bool

datatype score_error = WeightsSum jsnum | NotFinite string jsnum

text \<open>The template \<open>index::sourcetype\<close>, with \<open>_\<close> for a missing or empty sourcetype.\<close>

definition or_default :: "string option \<Rightarrow> string \<Rightarrow> string" where
  "or_default s d = (case s of None \<Rightarrow> d | Some t \<Rightarrow> if t = [] then d else t)"

definition score_key :: "string \<Rightarrow> string option \<Rightarrow> string" where
  "score_key idx st = idx @ ''::'' @ or_default st ''_''"

section \<open>Utilization\<close>

definition weighted_sum :: "utilization_input \<Rightarrow> jsnum" where
  "weighted_sum inp =
     jadd (jadd (jadd (jadd (jmul (alertCount inp) (Fin 3)) (jmul (scheduledSearchCount inp) (Fin 3)))
       (jmul (dashboardPanelCount inp) (Fin 2))) (jmul (adHocSearchCount inp) (Fin 1)))
       (jmul (distinctUserCount inp) (Fin 2))"

definition ui_key :: "utilization_input \<Rightarrow> string" where
  "ui_key inp = score_key (ui_index inp) (ui_sourcetype inp)"

definition utilization_score :: "jsnum \<Rightarrow> jsnum \<Rightarrow> jsnum" where
  "utilization_score mx ws = jround1 (jmul (jdiv ws mx) (Fin 100))"

definition weightedSums :: "utilization_input list \<Rightarrow> (string, jsnum) jmap" where
  "weightedSums inputs = foldl (\<lambda>m inp. jm_set (ui_key inp) (weighted_sum inp) m) [] inputs"

definition computeUtilizationScores :: "utilization_input list \<Rightarrow> (string, jsnum) jmap" where
  "computeUtilizationScores inputs =
     (let wsums = weightedSums inputs; mx = jmax_list (map snd wsums) (Fin 1)
      in foldl (\<lambda>m kw. jm_set (fst kw) (utilization_score mx (snd kw)) m) [] wsums)"

section \<open>Detection\<close>

definition di_key :: "detection_input \<Rightarrow> string" where
  "di_key inp = score_key (di_index inp) (di_sourcetype inp)"

definition detection_result_of :: "jsnum \<Rightarrow> detection_input \<Rightarrow> detection_result" where
  "detection_result_of maxAlertCount inp =
     (if jeq (mitreTechniqueCount inp) (Fin 0) \<and> jeq (lanternUsecaseCount inp) (Fin 0)
      then \<lparr>dr_score = Fin 0, dr_detectionGap = False, dr_operationalGap = False\<rparr>
      else
        let mitrePotential = jmin (Fin 100) (jmul (mitreTechniqueCount inp) (jlit (5 / 4)));
            lanternPotential = jmin (Fin 100) (jmul (lanternUsecaseCount inp) (Fin 6));
            potential = jmax mitrePotential lanternPotential;
            realized = jmul (jdiv (activeAlertCount inp) maxAlertCount) (Fin 100);
            score = jround1 (jadd (jmul (jlit (4 / 10)) potential) (jmul (jlit (6 / 10)) realized));
            coveragePct = (if jlt (Fin 0) (mitreTechniqueCount inp)
              then jmul (jdiv (activeAlertCount inp) (mitreTechniqueCount inp)) (Fin 100) else Fin 0)
        in \<lparr>dr_score = score,
            dr_detectionGap = (jle (Fin 15) (mitreTechniqueCount inp) \<and> jlt coveragePct (Fin 25)),
            dr_operationalGap = (jle (Fin 4) (lanternUsecaseCount inp) \<and> jle (activeAlertCount inp) (Fin 0))\<rparr>)"

definition computeDetectionScores :: "detection_input list \<Rightarrow> (string, detection_result) jmap" where
  "computeDetectionScores inputs =
     (let mx = jmax_list (map activeAlertCount inputs) (Fin 1)
      in foldl (\<lambda>m inp. jm_set (di_key inp) (detection_result_of mx inp) m) [] inputs)"

section \<open>Quality\<close>

definition computeQualityScore :: "quality_input \<Rightarrow> jsnum" where
  "computeQualityScore inp =
     (if jle (qi_dailyGb inp) (Fin 0) then Fin 100
      else
        let factor = (case eventsPerGbFactor inp of Some f \<Rightarrow> f | None \<Rightarrow> Fin 1000000);
            approxEvents = jmul (qi_dailyGb inp) factor;
            issueDensity = jdiv (weightedIssues inp) approxEvents
        in jmax (Fin 0) (jround1 (jsub (Fin 100) (jmul issueDensity (Fin 2000)))))"

section \<open>Composite\<close>

definition DEFAULT_WEIGHTS :: scoring_weights where
  "DEFAULT_WEIGHTS = \<lparr>w_utilization = jlit (35 / 100), w_detection = jlit (4 / 10), w_quality = jlit (25 / 100)\<rparr>"

definition SCORING_PROFILES :: "(string, scoring_weights) jmap" where
  "SCORING_PROFILES =
     [(''balanced'', \<lparr>w_utilization = jlit (35 / 100), w_detection = jlit (4 / 10), w_quality = jlit (25 / 100)\<rparr>),
      (''security_first'', \<lparr>w_utilization = jlit (25 / 100), w_detection = jlit (5 / 10), w_quality = jlit (25 / 100)\<rparr>),
      (''operations_first'', \<lparr>w_utilization = jlit (5 / 10), w_detection = jlit (25 / 100), w_quality = jlit (25 / 100)\<rparr>),
      (''data_quality'', \<lparr>w_utilization = jlit (3 / 10), w_detection = jlit (3 / 10), w_quality = jlit (4 / 10)\<rparr>)]"

definition validateWeights :: "scoring_weights \<Rightarrow> score_error + unit" where
  "validateWeights w =
     (let sum = jadd (jadd (w_utilization w) (w_detection w)) (w_quality w)
      in if jlt (jlit (1 / 1000)) (jabs (jsub sum (Fin 1))) then Inl (WeightsSum sum) else Inr ())"

definition extractWeightsFromConfig :: "(string \<rightharpoonup> jsnum) \<Rightarrow> score_error + scoring_weights" where
  "extractWeightsFromConfig cfg =
     (let w = \<lparr>w_utilization = (case cfg ''utilization'' of Some x \<Rightarrow> x | None \<Rightarrow> w_utilization DEFAULT_WEIGHTS),
               w_detection = (case cfg ''detection'' of Some x \<Rightarrow> x | None \<Rightarrow> w_detection DEFAULT_WEIGHTS),
               w_quality = (case cfg ''quality'' of Some x \<Rightarrow> x | None \<Rightarrow> w_quality DEFAULT_WEIGHTS)\<rparr>
      in case validateWeights w of Inl e \<Rightarrow> Inl e | Inr _ \<Rightarrow> Inr w)"

definition weighted_composite :: "scoring_weights \<Rightarrow> jsnum \<Rightarrow> jsnum \<Rightarrow> jsnum \<Rightarrow> jsnum" where
  "weighted_composite w u d q =
     jadd (jadd (jmul (w_utilization w) u) (jmul (w_detection w) d)) (jmul (w_quality w) q)"

definition computeCompositeScore ::
  "jsnum \<Rightarrow> jsnum \<Rightarrow> jsnum \<Rightarrow> scoring_weights \<Rightarrow> score_error + jsnum" where
  "computeCompositeScore utilization detection quality weights =
     (case validateWeights weights of
        Inl e \<Rightarrow> Inl e
      | Inr _ \<Rightarrow>
          if \<not> isFinite utilization then Inl (NotFinite ''Utilization'' utilization)
          else if \<not> isFinite detection then Inl (NotFinite ''Detection'' detection)
          else if \<not> isFinite quality then Inl (NotFinite ''Quality'' quality)
          else Inr (jround1 (weighted_composite weights utilization detection quality)))"

definition applyMinimumActivityGate :: "jsnum \<Rightarrow> jsnum \<Rightarrow> jsnum \<Rightarrow> jsnum \<times> bool" where
  "applyMinimumActivityGate composite utilization detection =
     (if jlt utilization (Fin 2) \<and> jle detection (Fin 0)
      then (jmin composite (jlit (199 / 10)), True)
      else (composite, False))"

record gated_composite =
  gc_composite :: jsnum
  gc_utilization :: jsnum
  gc_detection :: jsnum
  gc_quality :: jsnum
  minimum_activity_gated :: bool
  scoring_version :: string

definition SCORING_VERSION :: string where
  "SCORING_VERSION = ''1.0''"

definition computeGatedCompositeScore ::
  "jsnum \<Rightarrow> jsnum \<Rightarrow> jsnum \<Rightarrow> scoring_weights \<Rightarrow> score_error + gated_composite" where
  "computeGatedCompositeScore utilization detection quality weights =
     (case computeCompositeScore utilization detection quality weights of
        Inl e \<Rightarrow> Inl e
      | Inr raw \<Rightarrow>
          let (composite, gated) = applyMinimumActivityGate raw utilization detection
          in Inr \<lparr>gc_composite = composite, gc_utilization = jround1 utilization,
                  gc_detection = jround1 detection, gc_quality = jround1 quality,
                  minimum_activity_gated = gated, scoring_version = SCORING_VERSION\<rparr>)"

section \<open>Tiers\<close>

definition assignTier :: "jsnum \<Rightarrow> tier" where
  "assignTier compositeScore =
     (if jle (Fin 65) compositeScore then Critical
      else if jle (Fin 40) compositeScore then Important
      else if jle (Fin 20) compositeScore then Nice_to_Have
      else Low_Value)"


section \<open>Laws of the tiers\<close>

instantiation tier :: linorder
begin

fun tier_rank :: "tier \<Rightarrow> nat" where
  "tier_rank Low_Value = 0"
| "tier_rank Nice_to_Have = 1"
| "tier_rank Important = 2"
| "tier_rank Critical = 3"

definition less_eq_tier :: "tier \<Rightarrow> tier \<Rightarrow> bool" where
  "less_eq_tier s t = (tier_rank s \<le> tier_rank t)"

definition less_tier :: "tier \<Rightarrow> tier \<Rightarrow> bool" where
  "less_tier s t = (tier_rank s < tier_rank t)"

instance
proof
  fix s t :: tier
  assume "s \<le> t" "t \<le> s"
  then show "s = t" by (cases s; cases t) (simp_all add: less_eq_tier_def)
qed (auto simp: less_eq_tier_def less_tier_def)

end

lemma assignTier_Fin:
  "assignTier (Fin x) = (if 65 \<le> x then Critical else if 40 \<le> x then Important
     else if 20 \<le> x then Nice_to_Have else Low_Value)"
  by (simp add: assignTier_def)

lemma assignTier_NaN: "assignTier NaN = Low_Value"
  by (simp add: assignTier_def)

lemma assignTier_mono_le: "jle x y \<Longrightarrow> assignTier x \<le> assignTier y"
  by (cases x; cases y) (auto simp: assignTier_def jle_def less_eq_tier_def)

section \<open>Laws of the component scores\<close>

lemma jmax_list_Cons [simp]: "jmax_list (x # xs) d = jmax x (jmax_list xs d)"
  and jmax_list_Nil [simp]: "jmax_list [] d = d"
  by (simp_all add: jmax_list_def)

lemma jmax_list_finite:
  assumes "\<forall>x\<in>set xs. isFinite x"
  obtains m where "jmax_list xs (Fin d) = Fin m" "d \<le> m" "\<forall>r. Fin r \<in> set xs \<longrightarrow> r \<le> m"
    "m = d \<or> Fin m \<in> set xs"
  using assms
proof (induction xs arbitrary: thesis)
  case Nil
  show ?case by (rule Nil.prems(1) [of d]) simp_all
next
  case (Cons x xs)
  obtain r where r: "x = Fin r" using Cons.prems(2) by (auto simp: isFinite_iff)
  obtain m where m: "jmax_list xs (Fin d) = Fin m" "d \<le> m" "\<forall>r. Fin r \<in> set xs \<longrightarrow> r \<le> m"
    "m = d \<or> Fin m \<in> set xs"
    using Cons.IH Cons.prems(2) by auto
  show ?case
    by (rule Cons.prems(1) [of "max r m"]) (use m r in \<open>auto simp: jmax_def max_def\<close>)
qed

abbreviation count :: "jsnum \<Rightarrow> bool" where
  "count x \<equiv> in_range 0 (2 ^ 40) x"

definition counts_ok :: "utilization_input \<Rightarrow> bool" where
  "counts_ok inp = (count (alertCount inp) \<and> count (scheduledSearchCount inp) \<and>
     count (dashboardPanelCount inp) \<and> count (distinctUserCount inp) \<and> count (adHocSearchCount inp))"

lemma count_times:
  assumes "count x" "0 \<le> k" "k \<le> 8"
  shows "in_range 0 (of_int k * 2 ^ 40) (jmul x (Fin (of_int k)))"
proof (rule in_range_mul)
  show "in_range 0 (2 ^ 40) x" by fact
  show "in_range 0 (of_int k) (Fin (of_int k))" using assms by simp
  show "rnd64 (2 ^ 40 * of_int k) = Fin (of_int k * 2 ^ 40)"
    using rnd64_of_int [of "k * 2 ^ 40"] assms by (simp add: mult.commute)
qed simp_all

lemma count_add:
  assumes "in_range 0 (of_int a * 2 ^ 40) x" "in_range 0 (of_int b * 2 ^ 40) y" "0 \<le> a" "0 \<le> b" "a + b \<le> 16"
  shows "in_range 0 (of_int (a + b) * 2 ^ 40) (jadd x y)"
proof (rule in_range_add [OF assms(1,2)])
  show "rnd64 (of_int a * 2 ^ 40 + of_int b * 2 ^ 40) = Fin (of_int (a + b) * 2 ^ 40)"
    using rnd64_of_int [of "(a + b) * 2 ^ 40"] assms by (simp add: distrib_right)
qed simp

lemma weighted_sum_range: "counts_ok inp \<Longrightarrow> in_range 0 (11 * 2 ^ 40) (weighted_sum inp)"
proof -
  assume c: "counts_ok inp"
  have "in_range 0 (of_int (3 + 3 + 2 + 1 + 2) * 2 ^ 40) (weighted_sum inp)"
    unfolding weighted_sum_def
    by (intro count_add)
      (use c count_times [of _ 3] count_times [of _ 2] count_times [of _ 1] in \<open>simp_all add: counts_ok_def\<close>)
  then show ?thesis by simp
qed

lemma utilization_score_range:
  assumes "0 \<le> x" "x \<le> m" "1 \<le> m"
  shows "in_range 0 100 (utilization_score (Fin m) (Fin x))"
proof -
  have "in_range 0 1 (jdiv (Fin x) (Fin m))" using assms by (intro in_range_div_unit) auto
  then have "in_range 0 (of_int 100) (jmul (jdiv (Fin x) (Fin m)) (Fin 100))"
    using in_range_mul [of 0 1 _ 100 100 "Fin 100" 0 100] by simp
  then show ?thesis using in_range_round1 [of 100] by (simp add: utilization_score_def)
qed

lemma weightedSums_mem:
  "(k, v) \<in> set (weightedSums inputs) \<Longrightarrow> \<exists>inp\<in>set inputs. k = ui_key inp \<and> v = weighted_sum inp"
proof -
  assume kv: "(k, v) \<in> set (weightedSums inputs)"
  have "distinct (jm_keys (weightedSums inputs))"
    unfolding weightedSums_def by (rule jm.distinct_keys_fill) simp
  then have "jm_get (weightedSums inputs) k = Some v" using kv by simp
  then show ?thesis unfolding weightedSums_def by (rule jm.fill_range) auto
qed

lemma computeUtilizationScores_map:
  "computeUtilizationScores inputs =
     (let wsums = weightedSums inputs; mx = jmax_list (map snd wsums) (Fin 1)
      in map (\<lambda>(k, ws). (k, utilization_score mx ws)) wsums)"
proof -
  have *: "foldl (\<lambda>m kw. jm_set (fst kw) (g (snd kw)) m) m xs = m @ map (\<lambda>(k, ws). (k, g ws)) xs"
    if "distinct (map fst (m @ xs))" for m xs and g :: "jsnum \<Rightarrow> jsnum"
    using that
  proof (induction xs arbitrary: m)
    case (Cons x xs)
    have "jm_set (fst x) (g (snd x)) m = m @ [(fst x, g (snd x))]"
      using Cons.prems by (intro jm_set_new) auto
    then show ?case using Cons by (auto split: prod.splits)
  qed simp
  have "distinct (jm_keys (weightedSums inputs))"
    unfolding weightedSums_def by (rule jm.distinct_keys_fill) simp
  then show ?thesis using * [of "[]" "weightedSums inputs"] by (simp add: computeUtilizationScores_def Let_def)
qed


lemma computeUtilizationScores_keys:
  "set (jm_keys (computeUtilizationScores inputs)) = ui_key ` set inputs"
proof -
  have "jm_keys (computeUtilizationScores inputs) = jm_keys (weightedSums inputs)"
    by (simp add: computeUtilizationScores_map Let_def case_prod_beta comp_def)
  then show ?thesis using jm.keys_fill [of ui_key weighted_sum "[]" inputs] by (simp only: weightedSums_def) simp
qed

lemma weightedSums_finite:
  assumes "\<forall>inp\<in>set inputs. counts_ok inp" "(k, v) \<in> set (weightedSums inputs)"
  obtains r where "v = Fin r" "0 \<le> r"
proof -
  obtain inp where "inp \<in> set inputs" "v = weighted_sum inp" using weightedSums_mem [OF assms(2)] by auto
  then show thesis using weighted_sum_range [of inp] assms(1) that by (auto elim: in_rangeE)
qed

lemma utilization_max:
  assumes "\<forall>inp\<in>set inputs. counts_ok inp"
  obtains m where "jmax_list (map snd (weightedSums inputs)) (Fin 1) = Fin m" "1 \<le> m"
    "\<forall>k r. (k, Fin r) \<in> set (weightedSums inputs) \<longrightarrow> r \<le> m"
    "m = 1 \<or> (\<exists>k. (k, Fin m) \<in> set (weightedSums inputs))"
proof -
  have fin: "\<forall>x\<in>set (map snd (weightedSums inputs)). isFinite x"
    using assms by (auto elim!: weightedSums_finite)
  obtain m where "jmax_list (map snd (weightedSums inputs)) (Fin 1) = Fin m" "1 \<le> m"
    "\<forall>r. Fin r \<in> set (map snd (weightedSums inputs)) \<longrightarrow> r \<le> m"
    "m = 1 \<or> Fin m \<in> set (map snd (weightedSums inputs))"
    using jmax_list_finite [OF fin, of 1] by metis
  then show thesis by (intro that [of m]) force+
qed

lemma utilization_score_top: "0 < m \<Longrightarrow> utilization_score (Fin m) (Fin m) = Fin 100"
  using jround1_of_int [of 100] by (simp add: utilization_score_def)

lemma utilization_score_mono:
  assumes "jle x y" "0 < m"
  shows "jle (utilization_score (Fin m) x) (utilization_score (Fin m) y)"
  unfolding utilization_score_def using assms by (intro jle_round1 jle_scale jle_div) simp_all

text \<open>
  Every index and sourcetype of the inputs gets a utilization score, no other key does, and
  when the usage counts are non-negative and at most 2^40 every score is a finite number between
  0 and 100.
\<close>

theorem utilization_scores_bounded:
  assumes ok: "\<forall>inp\<in>set inputs. counts_ok inp"
  shows "set (jm_keys (computeUtilizationScores inputs)) = ui_key ` set inputs \<and>
    (\<forall>(k, s)\<in>set (computeUtilizationScores inputs). in_range 0 100 s)"
proof -
  obtain m where m: "jmax_list (map snd (weightedSums inputs)) (Fin 1) = Fin m" "1 \<le> m"
    "\<forall>k r. (k, Fin r) \<in> set (weightedSums inputs) \<longrightarrow> r \<le> m" using utilization_max [OF ok] by metis
  have "in_range 0 100 s" if "(k, s) \<in> set (computeUtilizationScores inputs)" for k s
  proof -
    have "computeUtilizationScores inputs = map (\<lambda>(k, ws). (k, utilization_score (Fin m) ws)) (weightedSums inputs)"
      by (simp add: computeUtilizationScores_map Let_def m(1))
    with that have "\<exists>ws. (k, ws) \<in> set (weightedSums inputs) \<and> s = utilization_score (Fin m) ws" by auto
    then obtain ws where ws: "(k, ws) \<in> set (weightedSums inputs)" "s = utilization_score (Fin m) ws" by blast
    obtain r where "ws = Fin r" "0 \<le> r" using weightedSums_finite [OF ok ws(1)] .
    with ws m show ?thesis by (auto intro: utilization_score_range)
  qed
  then show ?thesis using computeUtilizationScores_keys by auto
qed

definition busy_input :: utilization_input where
  "busy_input = \<lparr>ui_index = ''main'', ui_sourcetype = None, alertCount = Fin 2, scheduledSearchCount = Fin 1,
     dashboardPanelCount = Fin 0, distinctUserCount = Fin 3, adHocSearchCount = Fin 4\<rparr>"

definition idle_input :: utilization_input where
  "idle_input = busy_input\<lparr>ui_sourcetype := Some ''syslog'', alertCount := Fin 0, distinctUserCount := Fin 0\<rparr>"

lemma sample_inputs_ok: "\<forall>inp\<in>set [busy_input, idle_input]. counts_ok inp"
  by (simp add: busy_input_def idle_input_def counts_ok_def)

theorem utilization_scores_bounded_witness:
  "(\<exists>s. jm_get (computeUtilizationScores [busy_input, idle_input]) ''main::syslog'' = Some s \<and> in_range 0 100 s) \<and>
   set (jm_keys (computeUtilizationScores [busy_input, idle_input])) = {''main::_'', ''main::syslog''}"
proof -
  have keys: "set (jm_keys (computeUtilizationScores [busy_input, idle_input])) = {''main::_'', ''main::syslog''}"
    and range: "\<forall>(k, s)\<in>set (computeUtilizationScores [busy_input, idle_input]). in_range 0 100 s"
    using utilization_scores_bounded [OF sample_inputs_ok]
    by (simp_all add: busy_input_def idle_input_def ui_key_def score_key_def or_default_def)
  have "jm_get (computeUtilizationScores [busy_input, idle_input]) ''main::syslog'' \<noteq> None"
    unfolding jm_get_None_iff keys by simp
  then obtain s where s: "jm_get (computeUtilizationScores [busy_input, idle_input]) ''main::syslog'' = Some s" by blast
  then have "in_range 0 100 s" using range map_of_SomeD [OF s] by blast
  with s keys show ?thesis by blast
qed

text \<open>
  Utilization is relative to the busiest entry: scores follow the order of the weighted sums,
  and an entry whose weighted sum is the maximum of the batch (and at least 1) scores exactly 100.
\<close>

theorem utilization_relative_to_busiest:
  assumes ok: "\<forall>inp\<in>set inputs. counts_ok inp"
    and a: "(ka, Fin a) \<in> set (weightedSums inputs)"
    and b: "(kb, Fin b) \<in> set (weightedSums inputs)"
    and "a \<le> b"
  shows "\<exists>sa sb. jm_get (computeUtilizationScores inputs) ka = Some sa \<and>
    jm_get (computeUtilizationScores inputs) kb = Some sb \<and> jle sa sb \<and>
    ((\<forall>(k, s)\<in>set (weightedSums inputs). jle s (Fin b)) \<and> 1 \<le> b \<longrightarrow> sb = Fin 100)"
proof -
  obtain m where m: "jmax_list (map snd (weightedSums inputs)) (Fin 1) = Fin m" "1 \<le> m"
    "\<forall>k r. (k, Fin r) \<in> set (weightedSums inputs) \<longrightarrow> r \<le> m"
    "m = 1 \<or> (\<exists>k. (k, Fin m) \<in> set (weightedSums inputs))" using utilization_max [OF ok] by metis
  have eq: "computeUtilizationScores inputs = map (\<lambda>(k, ws). (k, utilization_score (Fin m) ws)) (weightedSums inputs)"
    by (simp add: computeUtilizationScores_map Let_def m(1))
  have d: "distinct (jm_keys (computeUtilizationScores inputs))"
    unfolding eq weightedSums_def using jm.distinct_keys_fill [of "[]" ui_key weighted_sum inputs]
    by (simp add: case_prod_beta comp_def)
  have get: "jm_get (computeUtilizationScores inputs) k = Some (utilization_score (Fin m) (Fin r))"
    if "(k, Fin r) \<in> set (weightedSums inputs)" for k r
    using that d by (intro map_of_is_SomeI) (force simp: eq)+
  have "m = b" if "\<forall>(k, s)\<in>set (weightedSums inputs). jle s (Fin b)" "1 \<le> b"
    using that m b by fastforce
  then show ?thesis
    using get [OF a] get [OF b] utilization_score_mono [of "Fin a" "Fin b" m] utilization_score_top [of m] m(2) \<open>a \<le> b\<close>
    by auto
qed

theorem utilization_relative_to_busiest_witness:
  "\<exists>sb. jm_get (computeUtilizationScores [busy_input, idle_input]) ''main::_'' = Some sb \<and> sb = Fin 100"
proof -
  have sums: "weightedSums [busy_input, idle_input] = [(''main::_'', Fin 19), (''main::syslog'', Fin 7)]"
    by (simp add: weightedSums_def busy_input_def idle_input_def weighted_sum_def ui_key_def
        score_key_def or_default_def)
  show ?thesis
    using utilization_relative_to_busiest [OF sample_inputs_ok, of "''main::syslog''" 7 "''main::_''" 19]
    by (auto simp: sums)
qed


section \<open>Laws of detection, quality and the composite\<close>

text \<open>The decimal literals of the source as doubles; \<open>0.25\<close>, \<open>0.5\<close> and \<open>1.25\<close> are exact.\<close>

lemma lit_035: "jlit (7 / 20) = Fin (3152519739159347 / 9007199254740992)"
  using rnd64_eqI [of "- 54" "7 / 20" 6305039478318694] by (simp add: jlit_def pow2_def)

lemma lit_04: "jlit (2 / 5) = Fin (3602879701896397 / 9007199254740992)"
  using rnd64_eqI [of "- 54" "2 / 5" 7205759403792794] by (simp add: jlit_def pow2_def)

lemma lit_03: "jlit (3 / 10) = Fin (5404319552844595 / 18014398509481984)"
  using rnd64_eqI [of "- 54" "3 / 10" 5404319552844595] by (simp add: jlit_def pow2_def)

lemma lit_06: "jlit (3 / 5) = Fin (5404319552844595 / 9007199254740992)"
  using rnd64_eqI [of "- 53" "3 / 5" 5404319552844595] by (simp add: jlit_def pow2_def)

lemma lit_199: "jlit (199 / 10) = Fin (2800676018271027 / 140737488355328)"
  using rnd64_eqI [of "- 48" "199 / 10" 5601352036542054] by (simp add: jlit_def pow2_def)

lemma lit_001: "jlit (1 / 1000) = Fin (1152921504606847 / 1152921504606846976)"
  using rnd64_eqI [of "- 62" "1 / 1000" 4611686018427388] by (simp add: jlit_def pow2_def)

lemma lit_exact: "jlit (1 / 4) = Fin (1 / 4)" "jlit (1 / 2) = Fin (1 / 2)" "jlit (5 / 4) = Fin (5 / 4)"
  using rnd64_dyadic [of 1 2] rnd64_dyadic [of 1 1] rnd64_dyadic [of 5 2] by (simp_all add: jlit_def)

lemmas lits = lit_035 lit_04 lit_03 lit_06 lit_199 lit_001 lit_exact

lemma pct_035: "rnd64 (78812993478983675 / 2251799813685248) = Fin (35)"
  using rnd64_eqI [of "- 47" "78812993478983675 / 2251799813685248" 4925812092436480] by (simp add: pow2_def)

lemma pct_04: "rnd64 (90071992547409925 / 2251799813685248) = Fin (40)"
  using rnd64_eqI [of "- 47" "90071992547409925 / 2251799813685248" 5629499534213120] by (simp add: pow2_def)

lemma pct_03: "rnd64 (135107988821114875 / 4503599627370496) = Fin (30)"
  using rnd64_eqI [of "- 48" "135107988821114875 / 4503599627370496" 8444249301319680] by (simp add: pow2_def)

lemma pct_06: "rnd64 (135107988821114875 / 2251799813685248) = Fin (60)"
  using rnd64_eqI [of "- 47" "135107988821114875 / 2251799813685248" 8444249301319680] by (simp add: pow2_def)

lemmas pct = pct_035 pct_04 pct_03 pct_06

lemma sum_035_04: "rnd64 (3 / 4) = Fin (3 / 4)"
  using rnd64_eqI [of "- 53" "3 / 4" 6755399441055744] by (simp add: pow2_def)

lemma sum_03_03: "rnd64 (5404319552844595 / 9007199254740992) = Fin (5404319552844595 / 9007199254740992)"
  using rnd64_eqI [of "- 53" "5404319552844595 / 9007199254740992" 5404319552844595] by (simp add: pow2_def)

lemma sum_06_04: "rnd64 (1) = Fin (1)"
  using rnd64_eqI [of "- 52" "1" 4503599627370496] by (simp add: pow2_def)


lemma in_range_const: "in_range r r (Fin r)"
  by simp

lemma in_range_pct:
  assumes "in_range 0 100 x" "0 \<le> w" "rnd64 (w * 100) = Fin h"
  shows "in_range 0 h (jmul (Fin w) x)"
  using in_range_mul [OF in_range_const assms(1), of w 0 h] assms(2,3) by simp

lemma pct_range_035: "in_range 0 100 x \<Longrightarrow> in_range 0 35 (jmul (jlit (35 / 100)) x)"
  using in_range_pct [of x "3152519739159347 / 9007199254740992" 35] by (simp add: lits pct)

lemma pct_range_04: "in_range 0 100 x \<Longrightarrow> in_range 0 40 (jmul (jlit (4 / 10)) x)"
  using in_range_pct [of x "3602879701896397 / 9007199254740992" 40] by (simp add: lits pct)

lemma pct_range_03: "in_range 0 100 x \<Longrightarrow> in_range 0 30 (jmul (jlit (3 / 10)) x)"
  using in_range_pct [of x "5404319552844595 / 18014398509481984" 30] by (simp add: lits pct)

lemma pct_range_06: "in_range 0 100 x \<Longrightarrow> in_range 0 60 (jmul (jlit (6 / 10)) x)"
  using in_range_pct [of x "5404319552844595 / 9007199254740992" 60] by (simp add: lits pct)

lemma pct_range_025: "in_range 0 100 x \<Longrightarrow> in_range 0 25 (jmul (jlit (25 / 100)) x)"
  using in_range_pct [of x "1 / 4" 25] by (simp add: lits pct)

lemma pct_range_05: "in_range 0 100 x \<Longrightarrow> in_range 0 50 (jmul (jlit (5 / 10)) x)"
  using in_range_pct [of x "1 / 2" 50] by (simp add: lits pct)

lemmas pct_ranges = pct_range_035 pct_range_04 pct_range_03 pct_range_06 pct_range_025 pct_range_05

definition detection_counts_ok :: "detection_input \<Rightarrow> bool" where
  "detection_counts_ok inp = (count (mitreTechniqueCount inp) \<and> count (lanternUsecaseCount inp) \<and>
     count (activeAlertCount inp))"

lemma capped_potential: "count x \<Longrightarrow> 0 \<le> k \<Longrightarrow> rnd64 (2 ^ 40 * k) = Fin h \<Longrightarrow> 0 \<le> h
    \<Longrightarrow> in_range 0 100 (jmin (Fin 100) (jmul x (Fin k)))"
  using in_range_min [OF in_range_const [of 100] in_range_mul [of 0 "2 ^ 40" x k k "Fin k" 0 h]]
  by (auto intro: in_range_weaken)

lemma detection_score_range:
  assumes ok: "detection_counts_ok inp" and m: "1 \<le> m" and a: "activeAlertCount inp = Fin a" "a \<le> m"
  shows "in_range 0 100 (dr_score (detection_result_of (Fin m) inp))"
proof (cases "jeq (mitreTechniqueCount inp) (Fin 0) \<and> jeq (lanternUsecaseCount inp) (Fin 0)")
  case True
  then show ?thesis by (simp add: detection_result_of_def)
next
  case False
  have a0: "0 \<le> a" using ok a by (simp add: detection_counts_ok_def)
  define pot where "pot = jmax (jmin (Fin 100) (jmul (mitreTechniqueCount inp) (jlit (5 / 4))))
    (jmin (Fin 100) (jmul (lanternUsecaseCount inp) (Fin 6)))"
  define real where "real = jmul (jdiv (activeAlertCount inp) (Fin m)) (Fin 100)"
  have pot: "in_range 0 100 pot"
    using in_range_max [OF capped_potential capped_potential, of "mitreTechniqueCount inp" "5 / 4" "5 * 2 ^ 38"
        "lanternUsecaseCount inp" 6 "6 * 2 ^ 40"] ok
    by (simp add: pot_def detection_counts_ok_def lits)
  have "in_range 0 1 (jdiv (activeAlertCount inp) (Fin m))"
    unfolding a(1) using a0 a(2) m by (intro in_range_div_unit) auto
  then have real: "in_range 0 100 real"
    using in_range_mul [of 0 1 _ 100 100 "Fin 100" 0 100] by (simp add: real_def)
  have "in_range 0 100 (jadd (jmul (jlit (4 / 10)) pot) (jmul (jlit (6 / 10)) real))"
    by (rule in_range_add [OF pct_range_04 [OF pot] pct_range_06 [OF real]]) simp_all
  then have "in_range 0 (of_int 100) (jround1 (jadd (jmul (jlit (4 / 10)) pot) (jmul (jlit (6 / 10)) real)))"
    by (intro in_range_round1) simp_all
  then show ?thesis using False by (simp add: detection_result_of_def Let_def pot_def real_def)
qed

text \<open>
  The detection score of every entry is between 0 and 100 when the counts are non-negative
  and at most 2^40, an entry with no MITRE technique and no Lantern use case scores 0 with no gap,
  and an operational gap is reported only where at least four use cases have no active alert.
\<close>

theorem detection_scores_bounded:
  assumes ok: "\<forall>inp\<in>set inputs. detection_counts_ok inp"
    and get: "jm_get (computeDetectionScores inputs) k = Some r"
  shows "\<exists>inp\<in>set inputs. k = di_key inp \<and> in_range 0 100 (dr_score r) \<and>
    (jeq (mitreTechniqueCount inp) (Fin 0) \<and> jeq (lanternUsecaseCount inp) (Fin 0) \<longrightarrow>
       r = \<lparr>dr_score = Fin 0, dr_detectionGap = False, dr_operationalGap = False\<rparr>) \<and>
    (dr_operationalGap r \<longrightarrow> activeAlertCount inp = Fin 0 \<and> jle (Fin 4) (lanternUsecaseCount inp))"
proof -
  have fin: "\<forall>x\<in>set (map activeAlertCount inputs). isFinite x"
    using ok by (auto simp: detection_counts_ok_def dest: in_range_finite)
  obtain m where m: "jmax_list (map activeAlertCount inputs) (Fin 1) = Fin m" "1 \<le> m"
    "\<forall>r. Fin r \<in> set (map activeAlertCount inputs) \<longrightarrow> r \<le> m"
    using jmax_list_finite [OF fin, of 1] by metis
  obtain inp where inp: "inp \<in> set inputs" "di_key inp = k" "r = detection_result_of (Fin m) inp"
    using jm.fill_range [OF get [unfolded computeDetectionScores_def Let_def m(1)]] by metis
  obtain a where a: "activeAlertCount inp = Fin a" "0 \<le> a"
    using ok inp(1) by (auto simp: detection_counts_ok_def in_range_iff)
  have "Fin a \<in> set (map activeAlertCount inputs)" using inp(1) a(1) by force
  then have "a \<le> m" using m(3) by blast
  then have "in_range 0 100 (dr_score r)"
    using detection_score_range [OF _ m(2) a(1)] ok inp by simp
  moreover have "dr_operationalGap r \<longrightarrow> activeAlertCount inp = Fin 0 \<and> jle (Fin 4) (lanternUsecaseCount inp)"
    using a inp(3) by (auto simp: detection_result_of_def Let_def)
  ultimately show ?thesis using inp by (auto simp: detection_result_of_def)
qed

definition sample_detection :: detection_input where
  "sample_detection = \<lparr>di_index = ''main'', di_sourcetype = None, mitreTechniqueCount = Fin 40,
     lanternUsecaseCount = Fin 4, activeAlertCount = Fin 0\<rparr>"

theorem detection_scores_bounded_witness:
  "detection_counts_ok sample_detection \<and>
   in_range 0 100 (dr_score (detection_result_of (Fin 1) sample_detection))"
proof -
  have ok: "\<forall>inp\<in>set [sample_detection]. detection_counts_ok inp"
    by (simp add: sample_detection_def detection_counts_ok_def)
  have "jm_get (computeDetectionScores [sample_detection]) (di_key sample_detection) =
      Some (detection_result_of (Fin 1) sample_detection)"
    by (simp add: computeDetectionScores_def sample_detection_def jmax_def)
  from detection_scores_bounded [OF ok this] ok show ?thesis by auto
qed

definition quality_of :: "jsnum \<Rightarrow> jsnum \<Rightarrow> jsnum" where
  "quality_of issues approx = jmax (Fin 0) (jround1 (jsub (Fin 100) (jmul (jdiv issues approx) (Fin 2000))))"

lemma quality_of_mono:
  assumes "x \<le> y" "a = Inf \<or> (\<exists>r. a = Fin r \<and> 0 < r)"
  shows "jle (quality_of (Fin y) a) (quality_of (Fin x) a)"
  unfolding quality_of_def
  by (intro jle_max0 jle_round1 jle_minus jle_scale jdiv_mono_num assms) simp

lemma quality_of_0: "a = Inf \<or> (\<exists>r. a = Fin r \<and> 0 < r) \<Longrightarrow> quality_of (Fin 0) a = Fin 100"
  using jround1_of_int [of 100] by (auto simp: quality_of_def jsub_def jmax_def)

text \<open>
  For an index with a non-negative issue count and a volume above zero the quality score lies
  between 0 and 100, it never rises when the issue count does, and it is 100 with no issues.
\<close>

theorem quality_score_bounded:
  assumes vol: "qi_dailyGb inp = Fin g" "is_double (qi_dailyGb inp)" "0 < g"
    and factor: "eventsPerGbFactor inp = None \<or> (\<exists>f. eventsPerGbFactor inp = Some (Fin f) \<and> 1 \<le> f)"
    and issues: "weightedIssues inp = Fin w" "0 \<le> w" "w \<le> w'"
  shows "in_range 0 100 (computeQualityScore inp) \<and>
    jle (computeQualityScore (inp\<lparr>weightedIssues := Fin w'\<rparr>)) (computeQualityScore inp) \<and>
    computeQualityScore (inp\<lparr>weightedIssues := Fin 0\<rparr>) = Fin 100"
proof -
  obtain f where f: "(case eventsPerGbFactor inp of Some f \<Rightarrow> f | None \<Rightarrow> Fin 1000000) = Fin f" "1 \<le> f"
    using factor by force
  define a where "a = jmul (Fin g) (Fin f)"
  have a: "a = Inf \<or> (\<exists>r. a = Fin r \<and> 0 < r)"
    using jmul_pos [of g f] vol f by (force simp: a_def is_double_def)
  have q: "computeQualityScore (inp\<lparr>weightedIssues := x\<rparr>) = quality_of x a" for x
    using vol f by (simp add: computeQualityScore_def quality_of_def a_def Let_def del: jmul.simps)
  have q0: "computeQualityScore inp = quality_of (Fin w) a"
    using q [of "Fin w"] issues(1) by (cases inp) simp
  have "jle (quality_of (Fin w) a) (Fin 100)" using quality_of_mono [OF issues(2) a] quality_of_0 [OF a] by simp
  moreover have "in_range 0 100 (quality_of (Fin w) a)"
    using calculation unfolding quality_of_def by (cases "jround1 (jsub (Fin 100) (jmul (jdiv (Fin w) a) (Fin 2000)))")
      (auto simp: jmax_def split: if_splits)
  ultimately show ?thesis using q q0 quality_of_mono [OF issues(3) a] quality_of_0 [OF a] by simp
qed

definition sample_quality :: quality_input where
  "sample_quality = \<lparr>qi_index = ''main'', qi_sourcetype = None, weightedIssues = Fin 12,
     qi_dailyGb = Fin 3, eventsPerGbFactor = None\<rparr>"

theorem quality_score_bounded_witness:
  "in_range 0 100 (computeQualityScore sample_quality) \<and>
   computeQualityScore (sample_quality\<lparr>weightedIssues := Fin 0\<rparr>) = Fin 100"
  using quality_score_bounded [of sample_quality 3 12 20] by (simp add: sample_quality_def is_double_def)

section \<open>The composite\<close>

definition scores_ok :: "jsnum \<Rightarrow> jsnum \<Rightarrow> jsnum \<Rightarrow> bool" where
  "scores_ok u d q = (in_range 0 100 u \<and> in_range 0 100 d \<and> in_range 0 100 q)"

definition weights_ok :: "scoring_weights \<Rightarrow> bool" where
  "weights_ok w = (in_range 0 1 (w_utilization w) \<and> in_range 0 1 (w_detection w) \<and> in_range 0 1 (w_quality w))"

lemma profile_weights:
  assumes "(name, w) \<in> set SCORING_PROFILES"
  shows "weights_ok w" "validateWeights w = Inr ()"
  using assms sum_03_03 rnd64_dyadic [of 3 2]
  by (auto simp: SCORING_PROFILES_def weights_ok_def validateWeights_def jsub_def lits Let_def)

lemma default_is_balanced: "jm_get SCORING_PROFILES ''balanced'' = Some DEFAULT_WEIGHTS"
  by (simp add: SCORING_PROFILES_def DEFAULT_WEIGHTS_def)

lemma profile_composite_range:
  assumes "(name, w) \<in> set SCORING_PROFILES" "scores_ok u d q"
  shows "in_range 0 100 (weighted_composite w u d q)"
proof -
  have r: "in_range 0 100 u" "in_range 0 100 d" "in_range 0 100 q" using assms(2) by (simp_all add: scores_ok_def)
  have add: "in_range 0 (a + b) (jadd x y)"
    if "in_range 0 a x" "in_range 0 b y" "rnd64 (a + b) = Fin (a + b)" for a b x y
    using in_range_add [OF that(1,2)] that(3) by simp
  show ?thesis
    using assms(1) unfolding SCORING_PROFILES_def weighted_composite_def
    using add [OF add [OF pct_range_035 [OF r(1)] pct_range_04 [OF r(2)]] pct_range_025 [OF r(3)]]
      add [OF add [OF pct_range_025 [OF r(1)] pct_range_05 [OF r(2)]] pct_range_025 [OF r(3)]]
      add [OF add [OF pct_range_05 [OF r(1)] pct_range_025 [OF r(2)]] pct_range_025 [OF r(3)]]
      add [OF add [OF pct_range_03 [OF r(1)] pct_range_03 [OF r(2)]] pct_range_04 [OF r(3)]]
    by auto
qed

lemma composite_finite:
  assumes "scores_ok u d q" "validateWeights w = Inr ()"
  shows "computeCompositeScore u d q w = Inr (jround1 (weighted_composite w u d q))"
  using assms in_range_finite by (auto simp: computeCompositeScore_def scores_ok_def)

text \<open>
  C6: Every scoring profile of the program passes the weight validation, and with component
  scores between 0 and 100 its composite score is computed without error and lies between 0 and 100.
\<close>

theorem profile_composite_bounded:
  assumes "(name, w) \<in> set SCORING_PROFILES" "scores_ok u d q"
  shows "\<exists>c. computeCompositeScore u d q w = Inr c \<and> in_range 0 100 c"
  using composite_finite [OF assms(2) profile_weights(2) [OF assms(1)]]
    in_range_round1 [of 100] profile_composite_range [OF assms] by simp

theorem profile_composite_bounded_witness:
  "\<exists>c. computeCompositeScore (Fin 80) (Fin 55) (Fin 90) DEFAULT_WEIGHTS = Inr c \<and> in_range 0 100 c"
  using profile_composite_bounded [OF map_of_SomeD [OF default_is_balanced], of "Fin 80" "Fin 55" "Fin 90"]
  by (simp add: scores_ok_def)

text \<open>
  Raising component scores never lowers the tier: with weights between 0 and 1 the composite
  is monotone in utilization, detection and quality, and so is the tier assigned to it.
\<close>

theorem tier_monotone_in_scores:
  assumes "weights_ok w" "scores_ok u d q" "scores_ok u' d' q'" "jle u u'" "jle d d'" "jle q q'"
    and c: "computeCompositeScore u d q w = Inr c" and c': "computeCompositeScore u' d' q' w = Inr c'"
  shows "jle c c' \<and> assignTier c \<le> assignTier c'"
proof -
  have mul: "\<exists>a b. jmul v x = Fin a \<and> jmul v y = Fin b \<and> a \<le> b \<and> a \<in> {0..100} \<and> b \<in> {0..100}"
    if "in_range 0 1 v" "in_range 0 100 x" "in_range 0 100 y" "jle x y" for v x y
  proof -
    have "in_range 0 100 (jmul v x)" "in_range 0 100 (jmul v y)"
      using in_range_mul [of 0 1 v 0 100 _ 0 100] that by simp_all
    moreover have "jle (jmul v x) (jmul v y)" using that by (auto elim!: in_rangeE intro!: jle_rnd mult_left_mono)
    ultimately show ?thesis by (auto elim!: in_rangeE)
  qed
  obtain a1 b1 where 1: "jmul (w_utilization w) u = Fin a1" "jmul (w_utilization w) u' = Fin b1" "a1 \<le> b1"
      "a1 \<in> {0..100}" "b1 \<in> {0..100}"
    using mul [of "w_utilization w" u u'] assms by (auto simp: scores_ok_def weights_ok_def)
  obtain a2 b2 where 2: "jmul (w_detection w) d = Fin a2" "jmul (w_detection w) d' = Fin b2" "a2 \<le> b2"
      "a2 \<in> {0..100}" "b2 \<in> {0..100}"
    using mul [of "w_detection w" d d'] assms by (auto simp: scores_ok_def weights_ok_def)
  obtain a3 b3 where 3: "jmul (w_quality w) q = Fin a3" "jmul (w_quality w) q' = Fin b3" "a3 \<le> b3"
    using mul [of "w_quality w" q q'] assms by (auto simp: scores_ok_def weights_ok_def)
  obtain s s' where s: "jadd (Fin a1) (Fin a2) = Fin s" "jadd (Fin b1) (Fin b2) = Fin s'"
    using in_range_add [of 0 100 "Fin a1" 0 100 "Fin a2" 0 200] in_range_add [of 0 100 "Fin b1" 0 100 "Fin b2" 0 200] 1 2
    by (auto simp: in_range_iff)
  have "jle (Fin s) (Fin s')" using jle_add [of a1 b1 a2 b2] 1 2 s by simp
  then have "jle (jadd (Fin s) (Fin a3)) (jadd (Fin s') (Fin b3))" using 3 by (intro jle_add) simp_all
  then have "jle (weighted_composite w u d q) (weighted_composite w u' d' q')"
    unfolding weighted_composite_def 1 2 3 s .
  then have "jle c c'"
    using c c' by (auto simp: computeCompositeScore_def intro!: jle_round1 split: sum.splits if_splits)
  then show ?thesis using assignTier_mono_le by blast
qed

theorem tier_monotone_in_scores_witness:
  "\<exists>c c'. computeCompositeScore (Fin 10) (Fin 20) (Fin 30) DEFAULT_WEIGHTS = Inr c \<and>
     computeCompositeScore (Fin 10) (Fin 90) (Fin 30) DEFAULT_WEIGHTS = Inr c' \<and> assignTier c \<le> assignTier c'"
proof -
  have w: "weights_ok DEFAULT_WEIGHTS" "validateWeights DEFAULT_WEIGHTS = Inr ()"
    using profile_weights [OF map_of_SomeD [OF default_is_balanced]] by simp_all
  have ok: "scores_ok (Fin 10) (Fin 20) (Fin 30)" "scores_ok (Fin 10) (Fin 90) (Fin 30)"
    by (simp_all add: scores_ok_def)
  show ?thesis
    using tier_monotone_in_scores [OF w(1) ok _ _ _ composite_finite [OF ok(1) w(2)] composite_finite [OF ok(2) w(2)]]
      composite_finite [OF ok(1) w(2)] composite_finite [OF ok(2) w(2)] by auto
qed

text \<open>
  Inert data is Low-Value: an index with utilization below 2 and no detection that passes the
  computation is gated, its composite is at most the double 19.9 or NaN, and its tier is Low-Value,
  whatever its quality score and the weights.
\<close>

theorem inert_index_is_low_value:
  assumes "jlt u (Fin 2)" "jle d (Fin 0)" "computeGatedCompositeScore u d q w = Inr r"
  shows "minimum_activity_gated r \<and> (gc_composite r = NaN \<or> jle (gc_composite r) (jlit (199 / 10))) \<and>
    assignTier (gc_composite r) = Low_Value"
proof -
  obtain raw where raw: "computeCompositeScore u d q w = Inr raw"
    using assms(3) by (auto simp: computeGatedCompositeScore_def split: sum.splits)
  have g: "minimum_activity_gated r" "gc_composite r = jmin raw (jlit (199 / 10))"
    using assms raw by (auto simp: computeGatedCompositeScore_def applyMinimumActivityGate_def)
  show ?thesis
  proof (cases "raw = NaN")
    case True
    then show ?thesis using g by (simp add: jmin_def assignTier_NaN)
  next
    case False
    then have le: "jle (gc_composite r) (jlit (199 / 10))" using g(2) by (cases raw) (auto simp: jmin_def lits)
    moreover have "assignTier (jlit (199 / 10)) = Low_Value" by (simp add: lits assignTier_Fin)
    ultimately have "assignTier (gc_composite r) \<le> Low_Value" using assignTier_mono_le by metis
    then show ?thesis using g(1) le by (cases "assignTier (gc_composite r)") (auto simp: less_eq_tier_def)
  qed
qed

theorem inert_index_is_low_value_witness:
  "\<exists>r. computeGatedCompositeScore (Fin 1) (Fin 0) (Fin 100) DEFAULT_WEIGHTS = Inr r \<and>
     minimum_activity_gated r \<and> assignTier (gc_composite r) = Low_Value"
proof -
  have "validateWeights DEFAULT_WEIGHTS = Inr ()"
    using profile_weights [OF map_of_SomeD [OF default_is_balanced]] by simp
  then have "\<exists>r. computeGatedCompositeScore (Fin 1) (Fin 0) (Fin 100) DEFAULT_WEIGHTS = Inr r"
    by (simp add: computeGatedCompositeScore_def composite_finite scores_ok_def applyMinimumActivityGate_def)
  then obtain r where r: "computeGatedCompositeScore (Fin 1) (Fin 0) (Fin 100) DEFAULT_WEIGHTS = Inr r" ..
  show ?thesis using inert_index_is_low_value [OF _ _ r] r by simp
qed

text \<open>
  What the weight validation lets through: a weight that is NaN passes it, and then every
  finite input has the composite NaN and the tier Low-Value without an error; and weights whose
  sum is within the tolerance of 0.001 can give a composite above 100.
\<close>

theorem weight_validation_gaps:
  "(isFinite u \<and> isFinite d \<and> isFinite q \<and> w_utilization w = NaN \<longrightarrow>
      computeCompositeScore u d q w = Inr NaN \<and> assignTier NaN = Low_Value) \<and>
   (\<exists>w c. weights_ok w \<and> computeCompositeScore (Fin 100) (Fin 100) (Fin 100) w = Inr c \<and> jlt (Fin 100) c)"
proof -
  let ?w = "\<lparr>w_utilization = Fin (1 / 2), w_detection = Fin (1 / 4), w_quality = Fin (257 / 1024)\<rparr>"
  have d: "rnd64 (1025 / 1024) = Fin (1025 / 1024)" "rnd64 (1 / 1024) = Fin (1 / 1024)"
    "rnd64 (6425 / 256) = Fin (6425 / 256)" "rnd64 (25625 / 256) = Fin (25625 / 256)"
    "rnd64 (128125 / 128) = Fin (128125 / 128)" "rnd64 (3 / 4) = Fin (3 / 4)"
    using rnd64_dyadic [of 1025 10] rnd64_dyadic [of 1 10] rnd64_dyadic [of 6425 8] rnd64_dyadic [of 25625 8]
      rnd64_dyadic [of 128125 7] rnd64_dyadic [of 3 2] by simp_all
  have top: "jlt (Fin 100) (rnd64 (1001 / 10))"
    using rnd64_eqI [of "- 46" "1001 / 10" 7043911292184166] by (simp add: pow2_def)
  have fl: "\<lfloor>128189 / 128 :: rat\<rfloor> = 1001" by (simp add: floor_eq_iff)
  have ok: "weights_ok ?w" by (simp add: weights_ok_def)
  have comp: "computeCompositeScore (Fin 100) (Fin 100) (Fin 100) ?w = Inr (rnd64 (1001 / 10))"
    by (simp add: computeCompositeScore_def validateWeights_def weighted_composite_def jsub_def lits d
        jround1_def fl Let_def)
  have "computeCompositeScore u d q w = Inr NaN"
    if "isFinite u \<and> isFinite d \<and> isFinite q \<and> w_utilization w = NaN" for u d q w
    using that by (auto simp: isFinite_iff computeCompositeScore_def validateWeights_def jsub_def
        weighted_composite_def jround1_def Let_def)
  then show ?thesis using ok comp top assignTier_NaN by blast
qed

theorem weight_validation_gaps_witness:
  "computeCompositeScore (Fin 50) (Fin 50) (Fin 50) (DEFAULT_WEIGHTS\<lparr>w_utilization := NaN\<rparr>) = Inr NaN"
  using weight_validation_gaps [of "Fin 50" "Fin 50" "Fin 50" "DEFAULT_WEIGHTS\<lparr>w_utilization := NaN\<rparr>"] by simp

end
