(* ===== verification/PolicyRules.thy ===== *)
theory PolicyRules
  imports Prelude JsNumber
begin

text \<open>
  Rules and guardrails of the policy engine, \<open>packages/core/policy\<close>: the types of \<open>types.ts\<close>, the
  rule evaluation of \<open>rules-validator.ts\<close> and the guardrails of \<open>guardrails.ts\<close>. A field of the
  scored input is a number, a string or undefined (\<open>js_value\<close>); a rule without a \<open>decision\<close>, which
  one of the shipped profiles has, carries \<^const>\<open>None\<close>.
\<close>

section \<open>Types\<close>

datatype policy_decision = ELIMINATE | RETAIN | MONITOR | ESCALATE | REBALANCE

datatype rule_severity = LOW | MEDIUM | HIGH | CRITICAL

datatype rule_operator = Gt | Gte | Lt | Lte | Eq | Neq | In | Not_in | Contains | Other_operator string

record scored_input =
  si_index :: string
  si_sourcetype :: "string option"
  si_utilizationScore :: jsnum
  si_detectionScore :: jsnum
  si_qualityScore :: jsnum
  si_compositeScore :: jsnum
  si_tier :: string
  si_annualCostUsd :: jsnum

record agent_recommendation =
  ar_index :: string
  recommendedDecision :: policy_decision
  ar_confidence :: jsnum
  ar_reasoning :: string
  ar_suggestedActions :: "string list option"

datatype si_field = F_index | F_sourcetype | F_utilizationScore | F_detectionScore | F_qualityScore
  | F_compositeScore | F_tier | F_annualCostUsd

datatype js_value = VNum jsnum | VStr string | VUndefined

datatype condition_value = CNum jsnum | CStr string | CList "string list"

record rule_condition =
  rc_field :: si_field
  rc_operator :: rule_operator
  rc_value :: condition_value
  rc_description :: string

record policy_rule =
  pr_id :: string
  pr_name :: string
  pr_description :: string
  pr_severity :: rule_severity
  pr_conditions :: "rule_condition list"
  pr_decision :: "policy_decision option"
  pr_blockedDecisions :: "policy_decision list option"
  pr_allowedDecisions :: "policy_decision list option"

datatype violation_message = VText string | VFun "scored_input \<Rightarrow> string"

record guardrail =
  gr_id :: string
  gr_name :: string
  gr_description :: string
  gr_condition :: "scored_input \<Rightarrow> bool"
  gr_blockedDecision :: policy_decision
  gr_violation :: violation_message

record policy_violation =
  pv_ruleId :: string
  pv_severity :: rule_severity
  pv_violation :: string
  pv_appliesTo :: policy_decision

section \<open>Rule evaluation\<close>

fun field_value :: "scored_input \<Rightarrow> si_field \<Rightarrow> js_value" where
  "field_value input F_index = VStr (si_index input)"
| "field_value input F_sourcetype = (case si_sourcetype input of Some s \<Rightarrow> VStr s | None \<Rightarrow> VUndefined)"
| "field_value input F_utilizationScore = VNum (si_utilizationScore input)"
| "field_value input F_detectionScore = VNum (si_detectionScore input)"
| "field_value input F_qualityScore = VNum (si_qualityScore input)"
| "field_value input F_compositeScore = VNum (si_compositeScore input)"
| "field_value input F_tier = VStr (si_tier input)"
| "field_value input F_annualCostUsd = VNum (si_annualCostUsd input)"

text \<open>Both operands have to be numbers for an order comparison.\<close>

fun num_compare :: "(jsnum \<Rightarrow> jsnum \<Rightarrow> bool) \<Rightarrow> js_value \<Rightarrow> condition_value \<Rightarrow> bool" where
  "num_compare cmp (VNum x) (CNum y) = cmp x y"
| "num_compare cmp v c = False"

text \<open>\<open>===\<close> of a field and a condition value: an array is identical to no field.\<close>

fun strict_equal :: "js_value \<Rightarrow> condition_value \<Rightarrow> bool" where
  "strict_equal (VNum x) (CNum y) = jeq x y"
| "strict_equal (VStr s) (CStr t) = (s = t)"
| "strict_equal v c = False"

text \<open>\<open>Array.isArray(value) && value.includes(field)\<close>: an array of strings has only strings.\<close>

fun array_includes :: "condition_value \<Rightarrow> js_value \<Rightarrow> bool" where
  "array_includes (CList xs) (VStr s) = (s \<in> set xs)"
| "array_includes c v = False"

fun is_array :: "condition_value \<Rightarrow> bool" where
  "is_array (CList xs) = True"
| "is_array c = False"

fun string_contains :: "js_value \<Rightarrow> condition_value \<Rightarrow> bool" where
  "string_contains (VStr s) (CStr t) = str_includes s t"
| "string_contains v c = False"

definition evaluateCondition :: "scored_input \<Rightarrow> rule_condition \<Rightarrow> bool" where
  "evaluateCondition input c =
     (let v = field_value input (rc_field c); cv = rc_value c
      in case rc_operator c of
           Gt \<Rightarrow> num_compare (\<lambda>x y. jlt y x) v cv
         | Gte \<Rightarrow> num_compare (\<lambda>x y. jle y x) v cv
         | Lt \<Rightarrow> num_compare jlt v cv
         | Lte \<Rightarrow> num_compare jle v cv
         | Eq \<Rightarrow> strict_equal v cv
         | Neq \<Rightarrow> \<not> strict_equal v cv
         | In \<Rightarrow> is_array cv \<and> array_includes cv v
         | Not_in \<Rightarrow> is_array cv \<and> \<not> array_includes cv v
         | Contains \<Rightarrow> string_contains v cv
         | Other_operator _ \<Rightarrow> False)"

definition evaluateRule :: "scored_input \<Rightarrow> policy_rule \<Rightarrow> bool" where
  "evaluateRule input rule = list_all (evaluateCondition input) (pr_conditions rule)"

definition findMatchingRules :: "scored_input \<Rightarrow> policy_rule list \<Rightarrow> policy_rule list" where
  "findMatchingRules input rules = filter (evaluateRule input) rules"

fun severityOrder :: "rule_severity \<Rightarrow> nat" where
  "severityOrder CRITICAL = 0"
| "severityOrder HIGH = 1"
| "severityOrder MEDIUM = 2"
| "severityOrder LOW = 3"

definition resolveDecisionFromRules ::
  "scored_input \<Rightarrow> policy_rule list \<Rightarrow> policy_decision option \<times> string list" where
  "resolveDecisionFromRules input rules =
     (let matching = findMatchingRules input rules
      in if matching = [] then (None, [])
         else let sorted = sort_key (\<lambda>r. severityOrder (pr_severity r)) matching
              in (pr_decision (hd sorted), map pr_id sorted))"

definition rule_blockers :: "policy_decision \<Rightarrow> policy_rule \<Rightarrow> string list" where
  "rule_blockers d rule =
     (case pr_blockedDecisions rule of Some ds \<Rightarrow> if d \<in> set ds then [pr_id rule] else [] | None \<Rightarrow> []) @
     (case pr_allowedDecisions rule of Some ds \<Rightarrow> if d \<notin> set ds then [pr_id rule] else [] | None \<Rightarrow> [])"

definition isDecisionBlockedByRule :: "policy_decision \<Rightarrow> policy_rule list \<Rightarrow> bool \<times> string list" where
  "isDecisionBlockedByRule d rules =
     (let blockedBy = concat (map (rule_blockers d) rules) in (blockedBy \<noteq> [], blockedBy))"

section \<open>Guardrails\<close>

text \<open>
  The messages of the default guardrails interpolate an arrow function instead of its result, so
  their text holds the source of the function and never the score.
\<close>

definition createDefaultGuardrails :: "guardrail list" where
  "createDefaultGuardrails =
    [\<lparr>gr_id = ''guardrail-detection-threshold'', gr_name = ''Detection Coverage Threshold'',
      gr_description = ''Cannot eliminate sources with detection > 60 (missed threats)'',
      gr_condition = (\<lambda>input. jlt (Fin 60) (si_detectionScore input)),
      gr_blockedDecision = ELIMINATE,
      gr_violation = VText (''Detection score input => input.detectionScore.toFixed(1) exceeds threshold (60) ''
        @ em_dash @ '' eliminating would create blind spot'')\<rparr>,
     \<lparr>gr_id = ''guardrail-critical-utilization'', gr_name = ''Critical Utilization Protection'',
      gr_description = ''Cannot eliminate sources in use by critical systems (alerts/dashboards)'',
      gr_condition = (\<lambda>input. jlt (Fin 70) (si_utilizationScore input)),
      gr_blockedDecision = ELIMINATE,
      gr_violation = VText (''Utilization score input => input.utilizationScore.toFixed(1) is critical (>70) ''
        @ em_dash @ '' in use by active systems'')\<rparr>,
     \<lparr>gr_id = ''guardrail-quality-unresolved'', gr_name = ''Quality Issues Must Be Addressed'',
      gr_description = ''Cannot eliminate sources with unresolved quality issues without remediation'',
      gr_condition = (\<lambda>input. jlt (si_qualityScore input) (Fin 50)),
      gr_blockedDecision = ELIMINATE,
      gr_violation = VText (''Quality score input => input.qualityScore.toFixed(1) is low (<50) ''
        @ em_dash @ '' quality issues must be resolved before elimination'')\<rparr>,
     \<lparr>gr_id = ''guardrail-tier-critical'', gr_name = ''Critical Tier Protection'',
      gr_description = ''Cannot eliminate Tier 1 (Critical) sources without escalation'',
      gr_condition = (\<lambda>input. si_tier input = ''Critical''),
      gr_blockedDecision = ELIMINATE,
      gr_violation = VText (''Source is Tier 1 (Critical) '' @ em_dash
        @ '' cannot eliminate without escalation and approval'')\<rparr>,
     \<lparr>gr_id = ''guardrail-high-cost'', gr_name = ''High-Cost Governance'',
      gr_description = ''Cannot eliminate sources costing >$50k/year without analysis'',
      gr_condition = (\<lambda>input. jlt (Fin 50000) (si_annualCostUsd input)),
      gr_blockedDecision = ELIMINATE,
      gr_violation = VText (''Annual cost input => `$${input.annualCostUsd.toFixed(0)}` exceeds $50k threshold ''
        @ em_dash @ '' elimination requires detailed analysis'')\<rparr>,
     \<lparr>gr_id = ''guardrail-composite-minimum'', gr_name = ''Composite Score Floor'',
      gr_description = ''Cannot eliminate sources with composite > 55 without business justification'',
      gr_condition = (\<lambda>input. jlt (Fin 55) (si_compositeScore input)),
      gr_blockedDecision = ELIMINATE,
      gr_violation = VText (''Composite score input => input.compositeScore.toFixed(1) is above elimination threshold (55) ''
        @ em_dash @ '' requires business case'')\<rparr>,
     \<lparr>gr_id = ''guardrail-monitor-quality'', gr_name = ''Monitor-to-Eliminate Transition'',
      gr_description = ''Sources in MONITOR state must address quality before elimination'',
      gr_condition = (\<lambda>input. jlt (si_qualityScore input) (Fin 70)),
      gr_blockedDecision = MONITOR,
      gr_violation = VText (''Quality too low (input => input.qualityScore.toFixed(1)) for monitoring ''
        @ em_dash @ '' needs improvement or elimination path'')\<rparr>]"

definition violation_text :: "scored_input \<Rightarrow> guardrail \<Rightarrow> string" where
  "violation_text input g = (case gr_violation g of VText t \<Rightarrow> t | VFun f \<Rightarrow> f input)"

fun checkGuardrailViolations ::
  "scored_input \<Rightarrow> policy_decision \<Rightarrow> guardrail list \<Rightarrow> policy_violation list" where
  "checkGuardrailViolations input d [] = []"
| "checkGuardrailViolations input d (g # gs) =
     (if gr_blockedDecision g = d \<and> gr_condition g input
      then \<lparr>pv_ruleId = gr_id g, pv_severity = CRITICAL, pv_violation = violation_text input g,
            pv_appliesTo = d\<rparr> # checkGuardrailViolations input d gs
      else checkGuardrailViolations input d gs)"

definition getBlockingGuardrails :: "scored_input \<Rightarrow> policy_decision \<Rightarrow> guardrail list \<Rightarrow> guardrail list" where
  "getBlockingGuardrails input d gs = filter (\<lambda>g. gr_blockedDecision g = d \<and> gr_condition g input) gs"

definition createCustomGuardrail ::
  "string \<Rightarrow> string \<Rightarrow> string \<Rightarrow> (scored_input \<Rightarrow> bool) \<Rightarrow> policy_decision \<Rightarrow> violation_message \<Rightarrow> guardrail" where
  "createCustomGuardrail i n d c b v =
     \<lparr>gr_id = i, gr_name = n, gr_description = d, gr_condition = c, gr_blockedDecision = b, gr_violation = v\<rparr>"

section \<open>Laws\<close>

definition blocks :: "guardrail list \<Rightarrow> scored_input \<Rightarrow> policy_decision \<Rightarrow> bool" where
  "blocks gs input d = (\<exists>g\<in>set gs. gr_blockedDecision g = d \<and> gr_condition g input)"

lemma checkGuardrailViolations_map:
  "checkGuardrailViolations input d gs =
     map (\<lambda>g. \<lparr>pv_ruleId = gr_id g, pv_severity = CRITICAL, pv_violation = violation_text input g, pv_appliesTo = d\<rparr>)
       (getBlockingGuardrails input d gs)"
  by (induction gs) (simp_all add: getBlockingGuardrails_def)

lemma no_violations_iff: "checkGuardrailViolations input d gs = [] \<longleftrightarrow> \<not> blocks gs input d"
  by (auto simp: checkGuardrailViolations_map getBlockingGuardrails_def blocks_def filter_empty_conv)

lemma blocks_default [simp]:
  "blocks createDefaultGuardrails input ELIMINATE \<longleftrightarrow>
     jlt (Fin 60) (si_detectionScore input) \<or> jlt (Fin 70) (si_utilizationScore input) \<or>
     jlt (si_qualityScore input) (Fin 50) \<or> si_tier input = ''Critical'' \<or>
     jlt (Fin 50000) (si_annualCostUsd input) \<or> jlt (Fin 55) (si_compositeScore input)"
  "blocks createDefaultGuardrails input MONITOR \<longleftrightarrow> jlt (si_qualityScore input) (Fin 70)"
  "\<not> blocks createDefaultGuardrails input RETAIN"
  "\<not> blocks createDefaultGuardrails input ESCALATE"
  "\<not> blocks createDefaultGuardrails input REBALANCE"
  by (simp_all add: blocks_def createDefaultGuardrails_def)

definition rule_forbids :: "policy_decision \<Rightarrow> policy_rule \<Rightarrow> bool" where
  "rule_forbids d rule =
     ((case pr_blockedDecisions rule of Some ds \<Rightarrow> d \<in> set ds | None \<Rightarrow> False) \<or>
      (case pr_allowedDecisions rule of Some ds \<Rightarrow> d \<notin> set ds | None \<Rightarrow> False))"

lemma rule_blockers_Nil_iff: "rule_blockers d rule = [] \<longleftrightarrow> \<not> rule_forbids d rule"
  by (cases "pr_blockedDecisions rule"; cases "pr_allowedDecisions rule")
    (simp_all add: rule_blockers_def rule_forbids_def)

lemma isDecisionBlocked_iff: "fst (isDecisionBlockedByRule d rules) \<longleftrightarrow> (\<exists>r\<in>set rules. rule_forbids d r)"
  by (simp add: isDecisionBlockedByRule_def rule_blockers_Nil_iff)

lemma resolve_Some:
  "findMatchingRules input rules \<noteq> [] \<Longrightarrow> resolveDecisionFromRules input rules =
     (pr_decision (hd (sort_key (\<lambda>r. severityOrder (pr_severity r)) (findMatchingRules input rules))),
      map pr_id (sort_key (\<lambda>r. severityOrder (pr_severity r)) (findMatchingRules input rules)))"
  by (simp add: resolveDecisionFromRules_def Let_def)

lemma set_matching: "set (findMatchingRules input rules) = {r \<in> set rules. evaluateRule input r}"
  by (simp add: findMatchingRules_def)

lemma resolve_None: "findMatchingRules input rules = [] \<Longrightarrow> resolveDecisionFromRules input rules = (None, [])"
  by (simp add: resolveDecisionFromRules_def)

text \<open>
  Rule resolution: when some rule matches, the decision is that of a matching rule of the
  highest severity among the matching ones, and the applied rules are the ids of all matching
  rules; when none matches there is no decision and no applied rule.
\<close>

theorem resolve_picks_highest_severity:
  shows "(findMatchingRules input rules = [] \<longrightarrow> resolveDecisionFromRules input rules = (None, [])) \<and>
    (findMatchingRules input rules \<noteq> [] \<longrightarrow>
      (\<exists>r\<in>set rules. evaluateRule input r \<and> fst (resolveDecisionFromRules input rules) = pr_decision r \<and>
        (\<forall>r'\<in>set rules. evaluateRule input r' \<longrightarrow> severityOrder (pr_severity r) \<le> severityOrder (pr_severity r'))) \<and>
      set (snd (resolveDecisionFromRules input rules)) = pr_id ` {r \<in> set rules. evaluateRule input r})"
proof (intro conjI impI)
  assume ne: "findMatchingRules input rules \<noteq> []"
  let ?f = "\<lambda>r. severityOrder (pr_severity r)"
  let ?p = "hd (sort_key ?f (findMatchingRules input rules))"
  have p: "?p \<in> set rules" "evaluateRule input ?p"
    using sort_key_hd_mem [OF ne, of ?f] by (simp_all add: set_matching)
  have min: "\<forall>r'\<in>set rules. evaluateRule input r' \<longrightarrow> ?f ?p \<le> ?f r'"
    using sort_key_hd_min [OF ne, of _ ?f] by (simp add: set_matching)
  have fst: "fst (resolveDecisionFromRules input rules) = pr_decision ?p"
    by (simp only: resolve_Some [OF ne] fst_conv)
  show "\<exists>r\<in>set rules. evaluateRule input r \<and> fst (resolveDecisionFromRules input rules) = pr_decision r \<and>
      (\<forall>r'\<in>set rules. evaluateRule input r' \<longrightarrow> ?f r \<le> ?f r')"
    using p min fst by blast
  show "set (snd (resolveDecisionFromRules input rules)) = pr_id ` {r \<in> set rules. evaluateRule input r}"
    by (simp add: resolve_Some [OF ne] set_matching)
qed (simp add: resolve_None)

definition sample_rule :: "string \<Rightarrow> rule_severity \<Rightarrow> policy_decision \<Rightarrow> policy_rule" where
  "sample_rule i sev d = \<lparr>pr_id = i, pr_name = i, pr_description = i, pr_severity = sev,
     pr_conditions = [\<lparr>rc_field = F_qualityScore, rc_operator = Lt, rc_value = CNum (Fin 60), rc_description = ''low''\<rparr>],
     pr_decision = Some d, pr_blockedDecisions = None, pr_allowedDecisions = None\<rparr>"

definition low_quality :: scored_input where
  "low_quality = \<lparr>si_index = ''main'', si_sourcetype = None, si_utilizationScore = Fin 2, si_detectionScore = Fin 3,
     si_qualityScore = Fin 50, si_compositeScore = Fin 10, si_tier = ''Low-Value'', si_annualCostUsd = Fin 2000\<rparr>"

lemma pr_id_sample: "pr_id (sample_rule i sev d) = i"
  and pr_severity_sample: "pr_severity (sample_rule i sev d) = sev"
  and pr_decision_sample: "pr_decision (sample_rule i sev d) = Some d"
  by (simp_all add: sample_rule_def)

theorem resolve_picks_highest_severity_witness:
  "fst (resolveDecisionFromRules low_quality [sample_rule ''a'' LOW ELIMINATE, sample_rule ''b'' HIGH MONITOR]) = Some MONITOR \<and>
   set (snd (resolveDecisionFromRules low_quality [sample_rule ''a'' LOW ELIMINATE, sample_rule ''b'' HIGH MONITOR])) = {''a'', ''b''}"
proof -
  let ?rs = "[sample_rule ''a'' LOW ELIMINATE, sample_rule ''b'' HIGH MONITOR]"
  have all: "evaluateRule low_quality (sample_rule i sev d)" for i sev d
    by (simp add: evaluateRule_def evaluateCondition_def sample_rule_def low_quality_def)
  then have ne: "findMatchingRules low_quality ?rs \<noteq> []" by (simp add: findMatchingRules_def)
  note res = resolve_picks_highest_severity [of low_quality ?rs, THEN conjunct2, THEN mp, OF ne]
  have "{r \<in> set ?rs. evaluateRule low_quality r} = set ?rs" using all by auto
  then have applied: "set (snd (resolveDecisionFromRules low_quality ?rs)) = {''a'', ''b''}"
    using res [THEN conjunct2] by (simp add: pr_id_sample)
  from res [THEN conjunct1] obtain r where r: "r \<in> set ?rs" "fst (resolveDecisionFromRules low_quality ?rs) = pr_decision r"
    "\<forall>r'\<in>set ?rs. evaluateRule low_quality r' \<longrightarrow> severityOrder (pr_severity r) \<le> severityOrder (pr_severity r')"
    by blast
  have "severityOrder (pr_severity r) \<le> 1"
    using r(3) [THEN bspec, of "sample_rule ''b'' HIGH MONITOR"] all by (simp add: pr_severity_sample)
  moreover have "r = sample_rule ''a'' LOW ELIMINATE \<or> r = sample_rule ''b'' HIGH MONITOR" using r(1) by simp
  ultimately have "r = sample_rule ''b'' HIGH MONITOR" by (auto simp: pr_severity_sample)
  then show ?thesis using r(2) applied by (simp add: pr_decision_sample)
qed

end
