(* ===== verification/PolicyEngine.thy ===== *)
theory PolicyEngine
  imports PolicyRules
begin

text \<open>
  The policy engine of \<open>packages/core/policy/policy-engine.ts\<close>, which turns a recommendation into a
  validated decision, and the constraints that \<open>policy-context.ts\<close> shows the agent beforehand. The
  engine object is its configuration, a value that the update operations return changed. Console
  output is left out.
\<close>

section \<open>Types\<close>

record policy_config =
  pc_version :: string
  pc_rules :: "policy_rule list"
  pc_guardrails :: "guardrail list"
  pc_defaultDecision :: policy_decision
  pc_escalationThreshold :: jsnum

record policy_validation_result =
  pvr_input :: scored_input
  pvr_recommendedDecision :: policy_decision
  pvr_validatedDecision :: policy_decision
  pvr_violations :: "policy_violation list"
  pvr_isValid :: bool
  pvr_appliedRules :: "string list"
  pvr_appliedGuardrails :: "string list"
  pvr_warnings :: "string list"

fun decision_name :: "policy_decision \<Rightarrow> string" where
  "decision_name ELIMINATE = ''ELIMINATE''"
| "decision_name RETAIN = ''RETAIN''"
| "decision_name MONITOR = ''MONITOR''"
| "decision_name ESCALATE = ''ESCALATE''"
| "decision_name REBALANCE = ''REBALANCE''"

section \<open>Operations of the engine\<close>

definition fallbackPriority :: "policy_decision list" where
  "fallbackPriority = [MONITOR, RETAIN, ESCALATE, REBALANCE]"

definition findFallbackDecision :: "policy_config \<Rightarrow> scored_input \<Rightarrow> policy_decision \<Rightarrow> policy_decision" where
  "findFallbackDecision config scored primaryDecision =
     (case find (\<lambda>candidate. checkGuardrailViolations scored candidate (pc_guardrails config) = []) fallbackPriority
      of Some candidate \<Rightarrow> candidate | None \<Rightarrow> ESCALATE)"

definition validateRecommendation ::
  "policy_config \<Rightarrow> scored_input \<Rightarrow> agent_recommendation \<Rightarrow> policy_validation_result" where
  "validateRecommendation config scored rec =
     (let violations = checkGuardrailViolations scored (recommendedDecision rec) (pc_guardrails config)
      in if violations \<noteq> [] then
           let alternative = findFallbackDecision config scored (recommendedDecision rec)
           in \<lparr>pvr_input = scored, pvr_recommendedDecision = recommendedDecision rec,
               pvr_validatedDecision = alternative, pvr_violations = violations, pvr_isValid = False,
               pvr_appliedRules = [], pvr_appliedGuardrails = map pv_ruleId violations,
               pvr_warnings =
                 [''Recommended decision ('' @ decision_name (recommendedDecision rec) @ '') blocked by guardrails'',
                  ''Falling back to: '' @ decision_name alternative]\<rparr>
         else
           let ruleResult = resolveDecisionFromRules scored (pc_rules config);
               appliedRules = snd ruleResult;
               finalDecision = (case fst ruleResult of Some d \<Rightarrow> d | None \<Rightarrow> recommendedDecision rec);
               finalViolations = checkGuardrailViolations scored finalDecision (pc_guardrails config)
           in if finalViolations \<noteq> [] then
                let escalated = findFallbackDecision config scored finalDecision
                in \<lparr>pvr_input = scored, pvr_recommendedDecision = recommendedDecision rec,
                    pvr_validatedDecision = escalated, pvr_violations = finalViolations, pvr_isValid = False,
                    pvr_appliedRules = appliedRules, pvr_appliedGuardrails = map pv_ruleId finalViolations,
                    pvr_warnings =
                      [''Rule-based decision ('' @ decision_name finalDecision @ '') violated guardrails, escalating'']\<rparr>
              else
                let ruleBlockers = isDecisionBlockedByRule finalDecision (pc_rules config)
                in if fst ruleBlockers then
                     let escalated = findFallbackDecision config scored finalDecision
                     in \<lparr>pvr_input = scored, pvr_recommendedDecision = recommendedDecision rec,
                         pvr_validatedDecision = escalated, pvr_violations = finalViolations, pvr_isValid = False,
                         pvr_appliedRules = appliedRules @ snd ruleBlockers, pvr_appliedGuardrails = [],
                         pvr_warnings = [''Decision '' @ decision_name finalDecision @ '' blocked by rule constraints'']\<rparr>
                   else
                     \<lparr>pvr_input = scored, pvr_recommendedDecision = recommendedDecision rec,
                      pvr_validatedDecision = finalDecision, pvr_violations = [], pvr_isValid = True,
                      pvr_appliedRules = appliedRules, pvr_appliedGuardrails = [], pvr_warnings = []\<rparr>)"

definition default_recommendation :: "policy_config \<Rightarrow> scored_input \<Rightarrow> agent_recommendation" where
  "default_recommendation config input =
     \<lparr>ar_index = si_index input, recommendedDecision = pc_defaultDecision config, ar_confidence = Fin 0,
      ar_reasoning = ''No recommendation provided, using default policy'', ar_suggestedActions = None\<rparr>"

definition validateBatch ::
  "policy_config \<Rightarrow> scored_input list \<Rightarrow> agent_recommendation list \<Rightarrow> policy_validation_result list" where
  "validateBatch config scored recommendations =
     map (\<lambda>input. case find (\<lambda>r. ar_index r = si_index input) recommendations of
            None \<Rightarrow> validateRecommendation config input (default_recommendation config input)
          | Some rec \<Rightarrow> validateRecommendation config input rec) scored"

definition exportConfig :: "policy_config \<Rightarrow> policy_config" where
  "exportConfig config = config"

definition updateRules :: "policy_rule list \<Rightarrow> policy_config \<Rightarrow> policy_config" where
  "updateRules rules config = config\<lparr>pc_rules := rules\<rparr>"

definition updateGuardrails :: "guardrail list \<Rightarrow> policy_config \<Rightarrow> policy_config" where
  "updateGuardrails gs config = config\<lparr>pc_guardrails := gs\<rparr>"

text \<open>The factory spreads the given overrides over the default configuration.\<close>

record policy_overrides =
  po_version :: "string option"
  po_rules :: "policy_rule list option"
  po_guardrails :: "guardrail list option"
  po_defaultDecision :: "policy_decision option"
  po_escalationThreshold :: "jsnum option"

definition over :: "'a option \<Rightarrow> 'a \<Rightarrow> 'a" where
  "over x d = (case x of Some v \<Rightarrow> v | None \<Rightarrow> d)"

definition createDefaultPolicyEngine :: "policy_overrides \<Rightarrow> policy_config" where
  "createDefaultPolicyEngine ov =
     \<lparr>pc_version = over (po_version ov) ''1.0.0'', pc_rules = over (po_rules ov) [],
      pc_guardrails = over (po_guardrails ov) createDefaultGuardrails,
      pc_defaultDecision = over (po_defaultDecision ov) MONITOR,
      pc_escalationThreshold = over (po_escalationThreshold ov) (Fin (1/2))\<rparr>"

section \<open>Constraints shown to the agent\<close>

record policy_constraint =
  pcn_decision :: policy_decision
  pcn_blockedBy :: string
  pcn_reason :: string
  pcn_severity :: rule_severity

record policy_context =
  pcx_constraints :: "policy_constraint list"
  pcx_allowedDecisions :: "policy_decision list"
  pcx_explanation :: string

definition add_blocked ::
  "scored_input \<Rightarrow> guardrail \<Rightarrow> (policy_decision, string list) jmap \<Rightarrow> (policy_decision, string list) jmap" where
  "add_blocked input g m =
     (if gr_condition g input
      then jm_set (gr_blockedDecision g)
             ((case jm_get m (gr_blockedDecision g) of Some ns \<Rightarrow> ns | None \<Rightarrow> []) @ [gr_name g]) m
      else m)"

definition blocked_decisions :: "scored_input \<Rightarrow> guardrail list \<Rightarrow> (policy_decision, string list) jmap" where
  "blocked_decisions input gs = foldl (\<lambda>m g. add_blocked input g m) [] gs"

definition allPossibleDecisions :: "policy_decision list" where
  "allPossibleDecisions = [ELIMINATE, RETAIN, MONITOR, ESCALATE, REBALANCE]"

definition extractPolicyContext :: "scored_input \<Rightarrow> guardrail list \<Rightarrow> policy_context" where
  "extractPolicyContext input gs =
     (let blocked = blocked_decisions input gs;
          constraints = map (\<lambda>(d, names).
            \<lparr>pcn_decision = d, pcn_blockedBy = join '', '' names,
             pcn_reason = ''Cannot '' @ decision_name d @ '' '' @ em_dash @ '' '' @
               (case names of n # _ \<Rightarrow> if n = [] then ''constraint violated'' else n | [] \<Rightarrow> ''constraint violated''),
             pcn_severity = CRITICAL\<rparr>) blocked;
          allowed = filter (\<lambda>d. jm_get blocked d = None) allPossibleDecisions
      in \<lparr>pcx_constraints = constraints, pcx_allowedDecisions = allowed,
          pcx_explanation =
            (if constraints = [] then ''All decisions are available for '' @ si_index input
             else si_index input @ '' has '' @ nat_str (length constraints) @ '' constraint(s). Choose from: ''
                  @ join '', '' (map decision_name allowed))\<rparr>)"

section \<open>Laws\<close>

text \<open>
  What the engine promises of a fallback: a candidate that nothing blocks if there is one, and the
  last resort otherwise.
\<close>

locale fallback_choice =
  fixes blocked :: "'d \<Rightarrow> bool"
    and candidates :: "'d list"
    and last_resort :: "'d"
    and choice :: "'d"
  assumes choice_free: "\<exists>c\<in>set candidates. \<not> blocked c \<Longrightarrow> choice \<in> set candidates \<and> \<not> blocked choice"
    and choice_last: "\<forall>c\<in>set candidates. blocked c \<Longrightarrow> choice = last_resort"
begin

lemma choice_mem: "choice \<in> insert last_resort (set candidates)"
  using choice_free choice_last by blast

lemma blocked_choice: "blocked choice \<Longrightarrow> choice = last_resort \<and> (\<forall>c\<in>set candidates. blocked c)"
  using choice_free choice_last by blast

end

lemma findFallback_cases:
  "findFallbackDecision config scored p =
     (if \<not> blocks (pc_guardrails config) scored MONITOR then MONITOR
      else if \<not> blocks (pc_guardrails config) scored RETAIN then RETAIN
      else if \<not> blocks (pc_guardrails config) scored ESCALATE then ESCALATE
      else if \<not> blocks (pc_guardrails config) scored REBALANCE then REBALANCE
      else ESCALATE)"
  by (simp add: findFallbackDecision_def fallbackPriority_def no_violations_iff)

interpretation fb: fallback_choice "blocks (pc_guardrails config) scored" fallbackPriority ESCALATE
    "findFallbackDecision config scored p"
  for config scored p
  by unfold_locales (auto simp: findFallback_cases fallbackPriority_def)

text \<open>The decision the rules ask for, and the acceptance test of steps 1 to 4.\<close>

definition requested :: "policy_config \<Rightarrow> scored_input \<Rightarrow> agent_recommendation \<Rightarrow> policy_decision" where
  "requested config scored rec =
     (case fst (resolveDecisionFromRules scored (pc_rules config)) of Some d \<Rightarrow> d | None \<Rightarrow> recommendedDecision rec)"

definition accepted :: "policy_config \<Rightarrow> scored_input \<Rightarrow> agent_recommendation \<Rightarrow> bool" where
  "accepted config scored rec =
     (\<not> blocks (pc_guardrails config) scored (recommendedDecision rec) \<and>
      \<not> blocks (pc_guardrails config) scored (requested config scored rec) \<and>
      \<not> (\<exists>r\<in>set (pc_rules config). rule_forbids (requested config scored rec) r))"

lemma isValid_iff: "pvr_isValid (validateRecommendation config scored rec) \<longleftrightarrow> accepted config scored rec"
  by (simp add: validateRecommendation_def accepted_def requested_def Let_def no_violations_iff isDecisionBlocked_iff)

lemma fallback_irrelevant: "findFallbackDecision config scored p = findFallbackDecision config scored q"
  by (simp add: findFallback_cases)

lemma validatedDecision_eq:
  "pvr_validatedDecision (validateRecommendation config scored rec) =
     (if accepted config scored rec then requested config scored rec
      else findFallbackDecision config scored (recommendedDecision rec))"
proof -
  have "findFallbackDecision config scored (requested config scored rec) =
      findFallbackDecision config scored (recommendedDecision rec)"
    by (rule fallback_irrelevant)
  then show ?thesis
    by (simp add: validateRecommendation_def accepted_def requested_def Let_def no_violations_iff isDecisionBlocked_iff)
qed

lemma validated_input [simp]:
  "pvr_input (validateRecommendation config scored rec) = scored"
  "pvr_recommendedDecision (validateRecommendation config scored rec) = recommendedDecision rec"
  by (simp_all add: validateRecommendation_def Let_def)

section \<open>Properties\<close>

text \<open>
  The engine's contract: a recommendation is reported valid exactly when no guardrail blocks it,
  no guardrail blocks the decision the matching rules ask for instead, and no rule of the
  configuration forbids that decision; the validated decision is then the requested one, and
  otherwise it is the fallback.
\<close>

theorem validation_outcome:
  "pvr_isValid (validateRecommendation config scored rec) = accepted config scored rec \<and>
   pvr_validatedDecision (validateRecommendation config scored rec) =
     (if accepted config scored rec then requested config scored rec
      else findFallbackDecision config scored (recommendedDecision rec))"
  by (simp add: isValid_iff validatedDecision_eq)

text \<open>
  C2: Guardrail safety: whatever the rules and the agent say, the engine issues a decision that some
  guardrail blocks for this source in one case only, the forced escalation when every fallback is
  blocked, and then the result is marked invalid.
\<close>

theorem guardrails_hold_on_validated_decision:
  assumes "blocks (pc_guardrails config) scored (pvr_validatedDecision (validateRecommendation config scored rec))"
  shows "pvr_validatedDecision (validateRecommendation config scored rec) = ESCALATE \<and>
    \<not> pvr_isValid (validateRecommendation config scored rec) \<and>
    (\<forall>d\<in>set fallbackPriority. blocks (pc_guardrails config) scored d)"
proof (cases "accepted config scored rec")
  case True
  with assms have False by (simp add: validatedDecision_eq accepted_def)
  then show ?thesis ..
next
  case False
  then have "blocks (pc_guardrails config) scored (findFallbackDecision config scored (recommendedDecision rec))"
    using assms by (simp add: validatedDecision_eq)
  from fb.blocked_choice [OF this] False show ?thesis
    by (simp add: validatedDecision_eq isValid_iff)
qed

definition no_go :: policy_config where
  "no_go = \<lparr>pc_version = ''1'', pc_rules = [],
     pc_guardrails = map (\<lambda>d. createCustomGuardrail ''g'' ''n'' ''d'' (\<lambda>_. True) d (VText ''v'')) allPossibleDecisions,
     pc_defaultDecision = MONITOR, pc_escalationThreshold = Fin 0\<rparr>"

definition sample_scored :: scored_input where
  "sample_scored = \<lparr>si_index = ''main'', si_sourcetype = None, si_utilizationScore = Fin 2, si_detectionScore = Fin 3,
     si_qualityScore = Fin 80, si_compositeScore = Fin 10, si_tier = ''Low-Value'', si_annualCostUsd = Fin 2000\<rparr>"

definition eliminate_rec :: agent_recommendation where
  "eliminate_rec = \<lparr>ar_index = ''main'', recommendedDecision = ELIMINATE, ar_confidence = Fin 1, ar_reasoning = ''r'',
     ar_suggestedActions = None\<rparr>"

lemma no_go_blocks: "blocks (pc_guardrails no_go) scored d"
  by (cases d) (simp_all add: blocks_def no_go_def createCustomGuardrail_def allPossibleDecisions_def)

theorem guardrails_hold_on_validated_decision_witness:
  "pvr_validatedDecision (validateRecommendation no_go sample_scored eliminate_rec) = ESCALATE"
  using guardrails_hold_on_validated_decision [of no_go sample_scored eliminate_rec, OF no_go_blocks] by blast

text \<open>
  Elimination is only ever issued for a source that the shipped guardrails leave unprotected:
  with the default guardrails, under every rule set and every recommendation, an ELIMINATE result
  has no detection score above 60, no utilization above 70, no quality below 50, a tier other than
  Critical, no annual cost above 50000 and no composite above 55.
\<close>

theorem eliminate_only_unprotected:
  assumes "pc_guardrails config = createDefaultGuardrails"
    and "pvr_validatedDecision (validateRecommendation config scored rec) = ELIMINATE"
  shows "pvr_isValid (validateRecommendation config scored rec) \<and>
    \<not> jlt (Fin 60) (si_detectionScore scored) \<and> \<not> jlt (Fin 70) (si_utilizationScore scored) \<and>
    \<not> jlt (si_qualityScore scored) (Fin 50) \<and> si_tier scored \<noteq> ''Critical'' \<and>
    \<not> jlt (Fin 50000) (si_annualCostUsd scored) \<and> \<not> jlt (Fin 55) (si_compositeScore scored)"
proof -
  have acc: "accepted config scored rec"
    using assms(2) fb.choice_mem [of config scored "recommendedDecision rec"]
    by (auto simp: validatedDecision_eq fallbackPriority_def split: if_splits)
  then have "\<not> blocks createDefaultGuardrails scored ELIMINATE"
    using assms by (simp add: validatedDecision_eq accepted_def)
  then show ?thesis using acc by (simp add: isValid_iff)
qed

definition default_engine :: policy_config where
  "default_engine = createDefaultPolicyEngine
     \<lparr>po_version = None, po_rules = None, po_guardrails = None, po_defaultDecision = None, po_escalationThreshold = None\<rparr>"

lemma default_engine_simps [simp]:
  "pc_guardrails default_engine = createDefaultGuardrails" "pc_rules default_engine = []"
  by (simp_all add: default_engine_def createDefaultPolicyEngine_def over_def)

lemma default_engine_eliminates:
  "pvr_validatedDecision (validateRecommendation default_engine sample_scored eliminate_rec) = ELIMINATE"
  by (simp add: validatedDecision_eq accepted_def requested_def resolveDecisionFromRules_def findMatchingRules_def
      eliminate_rec_def sample_scored_def)

theorem eliminate_only_unprotected_witness:
  "pvr_isValid (validateRecommendation default_engine sample_scored eliminate_rec)"
  using eliminate_only_unprotected [of default_engine sample_scored eliminate_rec, OF _ default_engine_eliminates] by simp

text \<open>
  The guardrails fail open: a source whose scores and cost are all NaN passes every default
  guardrail but the tier one, so an engine with no rules confirms its elimination.
\<close>

theorem nan_scores_fail_open:
  "\<forall>scored. si_detectionScore scored = NaN \<and> si_utilizationScore scored = NaN \<and> si_qualityScore scored = NaN \<and>
     si_compositeScore scored = NaN \<and> si_annualCostUsd scored = NaN \<and> si_tier scored \<noteq> ''Critical'' \<longrightarrow>
     pvr_isValid (validateRecommendation default_engine scored eliminate_rec) \<and>
     pvr_validatedDecision (validateRecommendation default_engine scored eliminate_rec) = ELIMINATE"
  by (simp add: validatedDecision_eq isValid_iff accepted_def requested_def resolveDecisionFromRules_def
      findMatchingRules_def eliminate_rec_def)

definition nan_scored :: scored_input where
  "nan_scored = sample_scored\<lparr>si_utilizationScore := NaN, si_detectionScore := NaN, si_qualityScore := NaN,
     si_compositeScore := NaN, si_annualCostUsd := NaN\<rparr>"

theorem nan_scores_fail_open_witness:
  "pvr_isValid (validateRecommendation default_engine nan_scored eliminate_rec)"
  using nan_scores_fail_open by (auto simp: nan_scored_def sample_scored_def)

section \<open>What the agent is shown\<close>

lemma blocked_decisions_get:
  "jm_get (blocked_decisions input gs) d =
     (let bs = getBlockingGuardrails input d gs in if bs = [] then None else Some (map gr_name bs))"
proof (induction gs rule: rev_induct)
  case Nil
  then show ?case by (simp add: blocked_decisions_def getBlockingGuardrails_def)
next
  case (snoc g gs)
  have step: "blocked_decisions input (gs @ [g]) = add_blocked input g (blocked_decisions input gs)"
    by (simp add: blocked_decisions_def)
  show ?case
  proof (cases "gr_condition g input \<and> gr_blockedDecision g = d")
    case True
    then show ?thesis using snoc
      by (simp add: step add_blocked_def jm.lookup_store getBlockingGuardrails_def Let_def)
  next
    case False
    then show ?thesis using snoc
      by (auto simp: step add_blocked_def jm.lookup_store getBlockingGuardrails_def Let_def)
  qed
qed

lemma blocked_decisions_distinct: "distinct (jm_keys (blocked_decisions input gs))"
  by (induction gs rule: rev_induct) (simp_all add: blocked_decisions_def add_blocked_def jm_keys_set)

lemma getBlocking_Nil: "getBlockingGuardrails input d gs = [] \<longleftrightarrow> \<not> blocks gs input d"
  by (auto simp: getBlockingGuardrails_def blocks_def filter_empty_conv)

lemma constraint_decisions:
  "map pcn_decision (pcx_constraints (extractPolicyContext input gs)) = jm_keys (blocked_decisions input gs)"
  by (simp add: extractPolicyContext_def Let_def case_prod_beta)

lemma allowed_iff: "d \<in> set (pcx_allowedDecisions (extractPolicyContext input gs)) \<longleftrightarrow> \<not> blocks gs input d"
proof -
  have "d \<in> set allPossibleDecisions" by (cases d) (simp_all add: allPossibleDecisions_def)
  then show ?thesis by (simp add: extractPolicyContext_def Let_def blocked_decisions_get getBlocking_Nil)
qed

text \<open>
  C5: The agent is shown exactly what the engine enforces: the decisions offered to it are those
  that the guardrail check passes without a violation, every other decision has exactly one
  constraint, and without rules the engine confirms a recommendation exactly when it was offered.
\<close>

theorem context_agrees_with_engine:
  "set (pcx_allowedDecisions (extractPolicyContext input gs)) = {d. checkGuardrailViolations input d gs = []} \<and>
   set (map pcn_decision (pcx_constraints (extractPolicyContext input gs))) = {d. checkGuardrailViolations input d gs \<noteq> []} \<and>
   distinct (map pcn_decision (pcx_constraints (extractPolicyContext input gs))) \<and>
   (pvr_isValid (validateRecommendation (config\<lparr>pc_rules := [], pc_guardrails := gs\<rparr>) input rec) =
     (recommendedDecision rec \<in> set (pcx_allowedDecisions (extractPolicyContext input gs))))"
proof (intro conjI)
  show "set (pcx_allowedDecisions (extractPolicyContext input gs)) = {d. checkGuardrailViolations input d gs = []}"
    by (auto simp: allowed_iff no_violations_iff)
  have "(d \<in> set (jm_keys (blocked_decisions input gs))) = blocks gs input d" for d
    using jm_get_None_iff [of "blocked_decisions input gs" d]
    by (simp add: blocked_decisions_get getBlocking_Nil Let_def split: if_splits)
  then show "set (map pcn_decision (pcx_constraints (extractPolicyContext input gs))) =
      {d. checkGuardrailViolations input d gs \<noteq> []}"
    unfolding constraint_decisions by (auto simp: no_violations_iff)
  show "distinct (map pcn_decision (pcx_constraints (extractPolicyContext input gs)))"
    unfolding constraint_decisions by (rule blocked_decisions_distinct)
  show "pvr_isValid (validateRecommendation (config\<lparr>pc_rules := [], pc_guardrails := gs\<rparr>) input rec) =
      (recommendedDecision rec \<in> set (pcx_allowedDecisions (extractPolicyContext input gs)))"
    by (simp add: isValid_iff accepted_def requested_def resolveDecisionFromRules_def findMatchingRules_def allowed_iff)
qed

text \<open>
  A batch answers every source once and in order, and a source whose index no recommendation
  names is validated on the configured default decision; recommendations are matched on the index
  alone, so two sources that share an index and differ in sourcetype are judged on the same one.
\<close>

theorem batch_matches_by_index:
  "map pvr_input (validateBatch config scored recs) = scored \<and>
   (\<forall>r\<in>set (validateBatch config scored recs).
      (if \<exists>a\<in>set recs. ar_index a = si_index (pvr_input r)
       then \<exists>a\<in>set recs. ar_index a = si_index (pvr_input r) \<and> r = validateRecommendation config (pvr_input r) a
       else pvr_recommendedDecision r = pc_defaultDecision config)) \<and>
   (\<forall>r\<in>set (validateBatch config scored recs). \<forall>r'\<in>set (validateBatch config scored recs).
      si_index (pvr_input r) = si_index (pvr_input r') \<longrightarrow> pvr_recommendedDecision r = pvr_recommendedDecision r')"
proof -
  define f where "f i = (case find (\<lambda>r. ar_index r = si_index i) recs of
      None \<Rightarrow> validateRecommendation config i (default_recommendation config i)
    | Some rec \<Rightarrow> validateRecommendation config i rec)" for i
  have vb: "validateBatch config scored recs = map f scored"
    by (simp add: validateBatch_def f_def)
  have input: "pvr_input (f i) = i" for i by (simp add: f_def split: option.split)
  have step: "if \<exists>a\<in>set recs. ar_index a = si_index i
       then \<exists>a\<in>set recs. ar_index a = si_index i \<and> f i = validateRecommendation config i a
       else pvr_recommendedDecision (f i) = pc_defaultDecision config" for i
  proof (cases "find (\<lambda>r. ar_index r = si_index i) recs")
    case None
    then have "\<not> (\<exists>a\<in>set recs. ar_index a = si_index i)" by (auto simp: find_None_iff)
    then show ?thesis using None by (simp add: f_def default_recommendation_def)
  next
    case (Some a)
    then have "a \<in> set recs \<and> ar_index a = si_index i" by (rule find_Some_mem)
    then show ?thesis using Some by (auto simp: f_def)
  qed
  have same: "si_index i = si_index j \<Longrightarrow> pvr_recommendedDecision (f i) = pvr_recommendedDecision (f j)" for i j
    by (simp add: f_def default_recommendation_def split: option.split)
  have inputs: "map pvr_input (map f scored) = scored" by (simp add: input comp_def)
  have each: "\<forall>r\<in>set (map f scored).
      (if \<exists>a\<in>set recs. ar_index a = si_index (pvr_input r)
       then \<exists>a\<in>set recs. ar_index a = si_index (pvr_input r) \<and> r = validateRecommendation config (pvr_input r) a
       else pvr_recommendedDecision r = pc_defaultDecision config)"
    unfolding list.set_map ball_simps input using step by blast
  have pairs: "\<forall>r\<in>set (map f scored). \<forall>r'\<in>set (map f scored).
      si_index (pvr_input r) = si_index (pvr_input r') \<longrightarrow> pvr_recommendedDecision r = pvr_recommendedDecision r'"
    unfolding list.set_map ball_simps input using same by blast
  from inputs each pairs show ?thesis unfolding vb by (intro conjI)
qed

definition two_main :: "scored_input list" where
  "two_main = [sample_scored, sample_scored\<lparr>si_sourcetype := Some ''syslog'', si_detectionScore := Fin 90\<rparr>]"

theorem batch_matches_by_index_witness:
  "map pvr_input (validateBatch default_engine two_main [eliminate_rec]) = two_main"
  using batch_matches_by_index [of default_engine two_main "[eliminate_rec]"] by blast

end
