(* ===== verification/PolicyProfiles.thy ===== *)
theory PolicyProfiles
  imports PolicyEngine
begin

text \<open>
  The five policy profiles that ship with the program, \<open>packages/core/policy/policies.config.ts\<close>, and
  what the engine of \<open>PolicyEngine\<close> makes of them.
\<close>

section \<open>Profiles\<close>

definition COST_OPTIMIZATION_POLICY :: policy_config where
  "COST_OPTIMIZATION_POLICY =
     \<lparr>pc_version = ''1.0.0'',
      pc_rules = [
      \<lparr>pr_id = ''rule-tier-4-eliminate'', pr_name = ''Eliminate Tier 4 (Low-Value)'',
        pr_description = ''Automatically eliminate low-value sources with minimal impact'',
        pr_severity = MEDIUM,
        pr_conditions = [\<lparr>rc_field = F_tier, rc_operator = Eq, rc_value = CStr ''Low-Value'', rc_description = ''Tier 4 (Low-Value)''\<rparr>,
          \<lparr>rc_field = F_annualCostUsd, rc_operator = Gt, rc_value = CNum (Fin 1000), rc_description = ''Cost > $1k/year''\<rparr>],
        pr_decision = Some ELIMINATE, pr_blockedDecisions = None,
        pr_allowedDecisions = None\<rparr>,
      \<lparr>pr_id = ''rule-low-utilization-monitor'', pr_name = ''Monitor Low Utilization'',
        pr_description = ''Monitor sources with minimal usage to validate before elimination'',
        pr_severity = LOW,
        pr_conditions = [\<lparr>rc_field = F_utilizationScore, rc_operator = Lt, rc_value = CNum (Fin 20), rc_description = ''Utilization < 20''\<rparr>,
          \<lparr>rc_field = F_compositeScore, rc_operator = Lt, rc_value = CNum (Fin 35), rc_description = ''Composite < 35''\<rparr>],
        pr_decision = Some MONITOR, pr_blockedDecisions = Some [RETAIN],
        pr_allowedDecisions = None\<rparr>,
      \<lparr>pr_id = ''rule-stale-eliminate'', pr_name = ''Eliminate Stale Sources'',
        pr_description = ''Eliminate sources with no recent activity and low composite score'',
        pr_severity = MEDIUM,
        pr_conditions = [\<lparr>rc_field = F_utilizationScore, rc_operator = Lt, rc_value = CNum (Fin 5), rc_description = ''Utilization < 5''\<rparr>,
          \<lparr>rc_field = F_compositeScore, rc_operator = Lt, rc_value = CNum (Fin 20), rc_description = ''Composite < 20''\<rparr>],
        pr_decision = Some ELIMINATE, pr_blockedDecisions = None,
        pr_allowedDecisions = None\<rparr>],
      pc_guardrails = createDefaultGuardrails, pc_defaultDecision = MONITOR,
      pc_escalationThreshold = jlit (3/10)\<rparr>"

text \<open>
  The object literal of the second rule of this profile writes \<open>operator\<close> and \<open>value\<close> twice in its
  condition (\<open>gte 40\<close>, then \<open>lt 75\<close>); the later ones win.
\<close>

definition SECURITY_FIRST_POLICY :: policy_config where
  "SECURITY_FIRST_POLICY =
     \<lparr>pc_version = ''1.0.0'',
      pc_rules = [
      \<lparr>pr_id = ''rule-high-detection-retain'', pr_name = ''Retain High Detection Coverage'',
        pr_description = ''Always retain sources with critical threat detection'',
        pr_severity = CRITICAL,
        pr_conditions = [\<lparr>rc_field = F_detectionScore, rc_operator = Gte, rc_value = CNum (Fin 75), rc_description = ''Detection >= 75''\<rparr>],
        pr_decision = Some RETAIN, pr_blockedDecisions = Some [ELIMINATE],
        pr_allowedDecisions = None\<rparr>,
      \<lparr>pr_id = ''rule-medium-detection-monitor'', pr_name = ''Monitor Medium Detection'',
        pr_description = ''Monitor sources with moderate detection before any action'',
        pr_severity = HIGH,
        pr_conditions = [\<lparr>rc_field = F_detectionScore, rc_operator = Lt, rc_value = CNum (Fin 75), rc_description = ''Detection 40-75''\<rparr>],
        pr_decision = Some MONITOR, pr_blockedDecisions = None,
        pr_allowedDecisions = Some [MONITOR, RETAIN, ESCALATE]\<rparr>,
      \<lparr>pr_id = ''rule-quality-issues-remediate'', pr_name = ''Quality Issues Must Be Resolved'',
        pr_description = ''Flag sources with quality issues for remediation'',
        pr_severity = HIGH,
        pr_conditions = [\<lparr>rc_field = F_qualityScore, rc_operator = Lt, rc_value = CNum (Fin 60), rc_description = ''Quality < 60''\<rparr>],
        pr_decision = Some ESCALATE, pr_blockedDecisions = None,
        pr_allowedDecisions = Some [ESCALATE, REBALANCE]\<rparr>],
      pc_guardrails = createDefaultGuardrails, pc_defaultDecision = RETAIN,
      pc_escalationThreshold = jlit (7/10)\<rparr>"

definition OPERATIONS_FOCUSED_POLICY :: policy_config where
  "OPERATIONS_FOCUSED_POLICY =
     \<lparr>pc_version = ''1.0.0'',
      pc_rules = [
      \<lparr>pr_id = ''rule-critical-retain'', pr_name = ''Retain Critical Sources'',
        pr_description = ''Always retain Tier 1 and Tier 2 sources'',
        pr_severity = CRITICAL,
        pr_conditions = [\<lparr>rc_field = F_tier, rc_operator = In, rc_value = CList [''Critical'', ''Important''], rc_description = ''Tier 1 or Tier 2''\<rparr>],
        pr_decision = Some RETAIN, pr_blockedDecisions = Some [ELIMINATE],
        pr_allowedDecisions = None\<rparr>,
      \<lparr>pr_id = ''rule-nice-to-have-monitor'', pr_name = ''Monitor Nice-to-Have'',
        pr_description = ''Monitor Tier 3 (Nice-to-Have) sources for efficiency'',
        pr_severity = MEDIUM,
        pr_conditions = [\<lparr>rc_field = F_tier, rc_operator = Eq, rc_value = CStr ''Nice-to-Have'', rc_description = ''Tier 3''\<rparr>],
        pr_decision = Some MONITOR, pr_blockedDecisions = None,
        pr_allowedDecisions = Some [MONITOR, REBALANCE]\<rparr>,
      \<lparr>pr_id = ''rule-low-value-rebalance'', pr_name = ''Rebalance Low-Value Sources'',
        pr_description = ''Attempt to consolidate low-value sources instead of elimination'',
        pr_severity = LOW,
        pr_conditions = [\<lparr>rc_field = F_tier, rc_operator = Eq, rc_value = CStr ''Low-Value'', rc_description = ''Tier 4''\<rparr>,
          \<lparr>rc_field = F_annualCostUsd, rc_operator = Lt, rc_value = CNum (Fin 10000), rc_description = ''Cost < $10k/year''\<rparr>],
        pr_decision = Some REBALANCE, pr_blockedDecisions = None,
        pr_allowedDecisions = Some [REBALANCE, MONITOR]\<rparr>],
      pc_guardrails = createDefaultGuardrails, pc_defaultDecision = MONITOR,
      pc_escalationThreshold = jlit (1/2)\<rparr>"

text \<open>The rule of this profile has no \<open>decision\<close>.\<close>

definition CONSERVATIVE_POLICY :: policy_config where
  "CONSERVATIVE_POLICY =
     \<lparr>pc_version = ''1.0.0'',
      pc_rules = [
      \<lparr>pr_id = ''rule-everything-escalate'', pr_name = ''Escalate All Non-Monitoring Decisions'',
        pr_description = ''Any recommended change beyond MONITOR must be escalated'',
        pr_severity = HIGH,
        pr_conditions = [\<lparr>rc_field = F_compositeScore, rc_operator = Gte, rc_value = CNum (Fin 0), rc_description = ''All sources''\<rparr>],
        pr_decision = None, pr_blockedDecisions = Some [ELIMINATE, REBALANCE],
        pr_allowedDecisions = Some [MONITOR, ESCALATE]\<rparr>],
      pc_guardrails = createDefaultGuardrails, pc_defaultDecision = MONITOR,
      pc_escalationThreshold = jlit (1/5)\<rparr>"

definition DATA_QUALITY_POLICY :: policy_config where
  "DATA_QUALITY_POLICY =
     \<lparr>pc_version = ''1.0.0'',
      pc_rules = [
      \<lparr>pr_id = ''rule-quality-issues-flag'', pr_name = ''Flag Quality Issues'',
        pr_description = ''Any quality score < 70 requires remediation action'',
        pr_severity = CRITICAL,
        pr_conditions = [\<lparr>rc_field = F_qualityScore, rc_operator = Lt, rc_value = CNum (Fin 70), rc_description = ''Quality < 70''\<rparr>],
        pr_decision = Some ESCALATE, pr_blockedDecisions = Some [ELIMINATE],
        pr_allowedDecisions = None\<rparr>,
      \<lparr>pr_id = ''rule-good-quality-eligible'', pr_name = ''Quality-Approved for Action'',
        pr_description = ''Only sources with quality >= 70 are eligible for optimization decisions'',
        pr_severity = MEDIUM,
        pr_conditions = [\<lparr>rc_field = F_qualityScore, rc_operator = Gte, rc_value = CNum (Fin 70), rc_description = ''Quality >= 70''\<rparr>,
          \<lparr>rc_field = F_compositeScore, rc_operator = Lt, rc_value = CNum (Fin 30), rc_description = ''Composite < 30''\<rparr>],
        pr_decision = Some REBALANCE, pr_blockedDecisions = None,
        pr_allowedDecisions = Some [REBALANCE, MONITOR, ELIMINATE]\<rparr>],
      pc_guardrails = createDefaultGuardrails, pc_defaultDecision = MONITOR,
      pc_escalationThreshold = jlit (3/5)\<rparr>"

definition POLICY_PROFILES :: "(string \<times> policy_config) list" where
  "POLICY_PROFILES =
     [(''cost_optimization'', COST_OPTIMIZATION_POLICY), (''security_first'', SECURITY_FIRST_POLICY),
      (''operations_focused'', OPERATIONS_FOCUSED_POLICY), (''conservative'', CONSERVATIVE_POLICY),
      (''data_quality'', DATA_QUALITY_POLICY)]"

datatype policy_error = Unknown_policy_profile string

definition getPolicyByProfile :: "string \<Rightarrow> policy_error + policy_config" where
  "getPolicyByProfile profileName =
     (case map_of POLICY_PROFILES profileName of
        None \<Rightarrow> Inl (Unknown_policy_profile profileName)
      | Some config \<Rightarrow> Inr config)"

section \<open>Laws\<close>

lemmas rule_simps = evaluateRule_def evaluateCondition_def findMatchingRules_def resolveDecisionFromRules_def Let_def

lemma sf_forbids:
  "(\<exists>r\<in>set (pc_rules SECURITY_FIRST_POLICY). rule_forbids d r) \<longleftrightarrow> d \<noteq> ESCALATE"
  by (cases d) (simp_all add: SECURITY_FIRST_POLICY_def rule_forbids_def)

lemma of_forbids:
  "(\<exists>r\<in>set (pc_rules OPERATIONS_FOCUSED_POLICY). rule_forbids d r) \<longleftrightarrow> d \<noteq> MONITOR \<and> d \<noteq> REBALANCE"
  by (cases d) (simp_all add: OPERATIONS_FOCUSED_POLICY_def rule_forbids_def)

lemma profile_guardrails [simp]:
  "pc_guardrails COST_OPTIMIZATION_POLICY = createDefaultGuardrails"
  "pc_guardrails SECURITY_FIRST_POLICY = createDefaultGuardrails"
  "pc_guardrails OPERATIONS_FOCUSED_POLICY = createDefaultGuardrails"
  "pc_guardrails CONSERVATIVE_POLICY = createDefaultGuardrails"
  "pc_guardrails DATA_QUALITY_POLICY = createDefaultGuardrails"
  by (simp_all add: COST_OPTIMIZATION_POLICY_def SECURITY_FIRST_POLICY_def OPERATIONS_FOCUSED_POLICY_def
      CONSERVATIVE_POLICY_def DATA_QUALITY_POLICY_def)

lemma default_fallback:
  "pc_guardrails config = createDefaultGuardrails \<Longrightarrow>
     findFallbackDecision config scored p = (if jlt (si_qualityScore scored) (Fin 70) then RETAIN else MONITOR)"
  by (simp add: findFallback_cases)

section \<open>Properties\<close>

text \<open>
  Every profile the registry hands out keeps the default guardrails, so none of them ever
  eliminates a source that is protected, and an unknown name is an error.
\<close>

theorem profiles_never_eliminate_protected:
  "(\<forall>config. getPolicyByProfile name = Inr config \<longrightarrow> blocks createDefaultGuardrails scored ELIMINATE \<longrightarrow>
      pvr_validatedDecision (validateRecommendation config scored rec) \<noteq> ELIMINATE) \<and>
   (name \<notin> fst ` set POLICY_PROFILES \<longrightarrow> getPolicyByProfile name = Inl (Unknown_policy_profile name))"
proof (intro conjI allI impI notI)
  fix config
  assume g: "getPolicyByProfile name = Inr config" and b: "blocks createDefaultGuardrails scored ELIMINATE"
    and e: "pvr_validatedDecision (validateRecommendation config scored rec) = ELIMINATE"
  have "map_of POLICY_PROFILES name = Some config"
    using g by (simp add: getPolicyByProfile_def split: option.splits)
  then have "(name, config) \<in> set POLICY_PROFILES" by (rule map_of_SomeD)
  then have d: "pc_guardrails config = createDefaultGuardrails" by (auto simp: POLICY_PROFILES_def)
  have "blocks (pc_guardrails config) scored (pvr_validatedDecision (validateRecommendation config scored rec))"
    using b e d by simp
  from fb.blocked_choice [of config scored "recommendedDecision rec"] this e d b show False
    by (simp add: validatedDecision_eq accepted_def default_fallback split: if_splits)
next
  assume "name \<notin> fst ` set POLICY_PROFILES"
  then have "map_of POLICY_PROFILES name = None" by (simp add: map_of_eq_None_iff)
  then show "getPolicyByProfile name = Inl (Unknown_policy_profile name)" by (simp add: getPolicyByProfile_def)
qed

lemma get_security_first: "getPolicyByProfile ''security_first'' = Inr SECURITY_FIRST_POLICY"
  by (simp add: getPolicyByProfile_def POLICY_PROFILES_def)

theorem profiles_never_eliminate_protected_witness:
  "pvr_validatedDecision (validateRecommendation SECURITY_FIRST_POLICY (sample_scored\<lparr>si_detectionScore := Fin 90\<rparr>) eliminate_rec)
     \<noteq> ELIMINATE"
  using profiles_never_eliminate_protected
      [of "''security_first''" "sample_scored\<lparr>si_detectionScore := Fin 90\<rparr>" eliminate_rec] get_security_first
  by simp

text \<open>
  The security profile cannot confirm anything but an escalation: step 4 of the engine checks
  the blocked and allowed lists of all rules, matching or not, and the three lists of this profile
  have only ESCALATE in common. So a source with a detection score of 75 or more, which the profile's
  critical rule retains, never gets a valid RETAIN, and the result is the fallback.
\<close>

theorem security_first_only_escalates:
  "(pvr_isValid (validateRecommendation SECURITY_FIRST_POLICY scored rec) \<longrightarrow>
      pvr_validatedDecision (validateRecommendation SECURITY_FIRST_POLICY scored rec) = ESCALATE) \<and>
   (jle (Fin 75) (si_detectionScore scored) \<longrightarrow>
      \<not> pvr_isValid (validateRecommendation SECURITY_FIRST_POLICY scored rec) \<and>
      pvr_validatedDecision (validateRecommendation SECURITY_FIRST_POLICY scored rec) =
        (if jlt (si_qualityScore scored) (Fin 70) then RETAIN else MONITOR))"
proof (intro conjI impI)
  assume "pvr_isValid (validateRecommendation SECURITY_FIRST_POLICY scored rec)"
  then show "pvr_validatedDecision (validateRecommendation SECURITY_FIRST_POLICY scored rec) = ESCALATE"
    by (auto simp: isValid_iff validatedDecision_eq accepted_def sf_forbids)
next
  assume d: "jle (Fin 75) (si_detectionScore scored)"
  let ?m = "findMatchingRules scored (pc_rules SECURITY_FIRST_POLICY)"
  have ne: "?m \<noteq> []" using d
    by (simp add: SECURITY_FIRST_POLICY_def findMatchingRules_def evaluateRule_def evaluateCondition_def)
  have "requested SECURITY_FIRST_POLICY scored rec = RETAIN" using d
    by (simp add: requested_def resolveDecisionFromRules_def SECURITY_FIRST_POLICY_def findMatchingRules_def
        evaluateRule_def evaluateCondition_def)
  then have na: "\<not> accepted SECURITY_FIRST_POLICY scored rec" by (simp add: accepted_def sf_forbids)
  then show "\<not> pvr_isValid (validateRecommendation SECURITY_FIRST_POLICY scored rec)" by (simp add: isValid_iff)
  show "pvr_validatedDecision (validateRecommendation SECURITY_FIRST_POLICY scored rec) =
        (if jlt (si_qualityScore scored) (Fin 70) then RETAIN else MONITOR)"
    using na by (simp add: validatedDecision_eq default_fallback)
qed

theorem security_first_only_escalates_witness:
  "pvr_validatedDecision (validateRecommendation SECURITY_FIRST_POLICY (sample_scored\<lparr>si_detectionScore := Fin 90\<rparr>) eliminate_rec)
     = MONITOR"
  using security_first_only_escalates [of "sample_scored\<lparr>si_detectionScore := Fin 90\<rparr>" eliminate_rec]
  by (simp add: sample_scored_def)

text \<open>
  The operations profile never confirms the retention its critical rule asks for: the allowed
  lists of its two other rules exclude RETAIN for every source, so a Critical or Important source of
  quality 70 or more is put under MONITOR and the result is marked invalid.
\<close>

theorem operations_profile_demotes_critical:
  "si_tier scored \<in> {''Critical'', ''Important''} \<and> jle (Fin 70) (si_qualityScore scored) \<longrightarrow>
     \<not> pvr_isValid (validateRecommendation OPERATIONS_FOCUSED_POLICY scored rec) \<and>
     pvr_validatedDecision (validateRecommendation OPERATIONS_FOCUSED_POLICY scored rec) = MONITOR"
proof
  assume a: "si_tier scored \<in> {''Critical'', ''Important''} \<and> jle (Fin 70) (si_qualityScore scored)"
  then have "requested OPERATIONS_FOCUSED_POLICY scored rec = RETAIN"
    by (auto simp: requested_def resolveDecisionFromRules_def OPERATIONS_FOCUSED_POLICY_def findMatchingRules_def
        evaluateRule_def evaluateCondition_def)
  then have na: "\<not> accepted OPERATIONS_FOCUSED_POLICY scored rec" by (simp add: accepted_def of_forbids)
  have "\<not> jlt (si_qualityScore scored) (Fin 70)" using a by (cases "si_qualityScore scored") auto
  then show "\<not> pvr_isValid (validateRecommendation OPERATIONS_FOCUSED_POLICY scored rec) \<and>
     pvr_validatedDecision (validateRecommendation OPERATIONS_FOCUSED_POLICY scored rec) = MONITOR"
    using na by (simp add: isValid_iff validatedDecision_eq default_fallback)
qed

theorem operations_profile_demotes_critical_witness:
  "pvr_validatedDecision (validateRecommendation OPERATIONS_FOCUSED_POLICY (sample_scored\<lparr>si_tier := ''Critical''\<rparr>) eliminate_rec)
     = MONITOR"
  using operations_profile_demotes_critical [of "sample_scored\<lparr>si_tier := ''Critical''\<rparr>" eliminate_rec]
  by (simp add: sample_scored_def)

end
