(* ===== verification/DecisionModel.thy ===== *)
theory DecisionModel
  imports Prelude
begin

text \<open>
  The decision types of \<open>core/governance/engine/decision-model.ts\<close>, the rollout modes of
  \<open>governance-mode.ts\<close> and the break-glass switch of \<open>governance-freeze.ts\<close>. The environment
  variables that the code reads are arguments. Times are milliseconds since the epoch, which is what
  an ISO string with a valid date stands for.
\<close>

section \<open>Decisions\<close>

datatype decision = ALLOW | DENY | REQUIRE_APPROVAL | REQUIRE_ESCALATION | SIMULATE_ONLY | SANDBOX_ONLY | READ_ONLY

datatype risk_level = LOW | MODERATE | HIGH | CRITICAL

datatype actor_type = Human | Agent | Service

datatype enforcement_mode = Hard_block | Soft_block | Approval_required | Simulation

record execution_authorization =
  ea_authorized :: bool
  ea_authorization_id :: string
  ea_authorized_by :: string
  ea_authorized_at :: int
  ea_approval_scope :: "string list"
  ea_expires_at :: "int option"
  ea_revoked :: bool
  ea_revoked_at :: "int option"
  ea_revocation_reason :: "string option"
  ea_nonce :: string
  ea_execution_token :: string
  ea_authorization_signature :: string
  ea_authorization_schema_version :: string

record governance_decision =
  gd_decision :: decision
  gd_risk_level :: risk_level
  gd_decision_id :: string
  gd_input_fingerprint :: string
  gd_decision_schema_version :: string
  gd_policy_schema_version :: string
  gd_trace_id :: string
  gd_correlation_id :: string
  gd_causation_id :: "string option"
  gd_actor_id :: string
  gd_actor_type :: actor_type
  gd_environment :: string
  gd_action :: string
  gd_resource :: string
  gd_matched_policy_ids :: "string list"
  gd_policy_snapshot_hash :: string
  gd_reasons :: "string list"
  gd_enforcement_mode :: enforcement_mode
  gd_created_at :: int
  gd_expires_at :: "int option"
  gd_required_authorization :: "execution_authorization option"

record policy_evaluation_result =
  pe_decision :: decision
  pe_risk_level :: risk_level
  pe_matched_policy_ids :: "string list"
  pe_reasons :: "string list"

fun risk_name :: "risk_level \<Rightarrow> string" where
  "risk_name LOW = ''LOW''"
| "risk_name MODERATE = ''MODERATE''"
| "risk_name HIGH = ''HIGH''"
| "risk_name CRITICAL = ''CRITICAL''"

section \<open>Rollout modes\<close>

datatype governance_mode = DISABLED | SHADOW | ENFORCING_LOG_ONLY | ENFORCING_NON_CRITICAL | FULL_ENFORCING

definition modeMap :: "string \<rightharpoonup> governance_mode" where
  "modeMap = map_of
     [(''DISABLED'', DISABLED), (''SHADOW'', SHADOW), (''ENFORCING_LOG_ONLY'', ENFORCING_LOG_ONLY),
      (''ENFORCING_NON_CRITICAL'', ENFORCING_NON_CRITICAL), (''FULL_ENFORCING'', FULL_ENFORCING),
      (''ENFORCING'', FULL_ENFORCING)]"

text \<open>
  The lookup \<open>modeMap[envMode]\<close> also finds members of \<open>Object.prototype\<close>, but those names have lower
  case letters or underscores only (\<open>__proto__\<close> in upper case is no member), and \<open>envMode\<close> is in
  upper case.
\<close>

definition getGovernanceMode :: "string option \<Rightarrow> governance_mode" where
  "getGovernanceMode env =
     (case map_option to_upper env of
        None \<Rightarrow> SHADOW
      | Some envMode \<Rightarrow>
          if envMode = [] \<or> envMode = ''SHADOW'' then SHADOW
          else case modeMap envMode of Some mode \<Rightarrow> mode | None \<Rightarrow> SHADOW)"

definition isGovernanceEnforcingAny :: "string option \<Rightarrow> bool" where
  "isGovernanceEnforcingAny env = (getGovernanceMode env \<noteq> DISABLED \<and> getGovernanceMode env \<noteq> SHADOW)"

definition isGovernanceEnforcing :: "string option \<Rightarrow> bool" where
  "isGovernanceEnforcing env = (getGovernanceMode env = FULL_ENFORCING)"

definition shouldEnforceRiskLevel :: "string option \<Rightarrow> string \<Rightarrow> bool" where
  "shouldEnforceRiskLevel env riskLevel =
     (case getGovernanceMode env of
        DISABLED \<Rightarrow> False
      | SHADOW \<Rightarrow> False
      | ENFORCING_LOG_ONLY \<Rightarrow> False
      | ENFORCING_NON_CRITICAL \<Rightarrow> riskLevel = ''LOW'' \<or> riskLevel = ''MODERATE''
      | FULL_ENFORCING \<Rightarrow> True)"

definition isGovernanceActive :: "string option \<Rightarrow> bool" where
  "isGovernanceActive env = (getGovernanceMode env \<noteq> DISABLED)"

section \<open>Break-glass switch\<close>

text \<open>
  The switch is read once, when the module is loaded at time \<open>now\<close>; the counter is the only state
  that changes afterwards.
\<close>

record freeze_state =
  fz_bypass :: bool
  fz_activated_at :: "int option"
  fz_count :: nat

definition loadFreeze :: "string option \<Rightarrow> int \<Rightarrow> freeze_state" where
  "loadFreeze env now =
     (let bypass = (env = Some ''true'')
      in \<lparr>fz_bypass = bypass, fz_activated_at = (if bypass then Some now else None), fz_count = 0\<rparr>)"

definition isGovernanceBypassed :: "freeze_state \<Rightarrow> bool" where
  "isGovernanceBypassed st = fz_bypass st"

definition logBypassWarning :: "freeze_state \<Rightarrow> freeze_state" where
  "logBypassWarning st = st\<lparr>fz_count := fz_count st + 1\<rparr>"

definition getBypassStats :: "freeze_state \<Rightarrow> bool \<times> int option \<times> nat" where
  "getBypassStats st = (fz_bypass st, fz_activated_at st, fz_count st)"

definition resetBypassCounterForTesting :: "freeze_state \<Rightarrow> freeze_state" where
  "resetBypassCounterForTesting st = st\<lparr>fz_count := 0\<rparr>"

section \<open>Properties\<close>

text \<open>The order of the rollout stages: how many risk levels a mode enforces.\<close>

fun mode_rank :: "governance_mode \<Rightarrow> nat" where
  "mode_rank DISABLED = 0"
| "mode_rank SHADOW = 0"
| "mode_rank ENFORCING_LOG_ONLY = 0"
| "mode_rank ENFORCING_NON_CRITICAL = 1"
| "mode_rank FULL_ENFORCING = 2"

lemma to_upper_SHADOW_cases: "getGovernanceMode (Some s) = (case modeMap (to_upper s) of Some m \<Rightarrow> m | None \<Rightarrow> SHADOW)"
  by (auto simp: getGovernanceMode_def modeMap_def)

text \<open>
  The mode setting is total and safe to mistype: it does not depend on the case of the setting,
  every value outside the six names (and no value) means SHADOW, which evaluates without enforcing,
  and a later stage enforces every risk level that an earlier one enforces.
\<close>

theorem rollout_mode_safe:
  "getGovernanceMode (Some (to_lower s)) = getGovernanceMode (Some s) \<and>
   getGovernanceMode None = SHADOW \<and>
   (modeMap (to_upper s) = None \<longrightarrow> getGovernanceMode (Some s) = SHADOW \<and> isGovernanceActive (Some s) \<and>
      \<not> isGovernanceEnforcingAny (Some s) \<and> \<not> shouldEnforceRiskLevel (Some s) r) \<and>
   (mode_rank (getGovernanceMode e1) \<le> mode_rank (getGovernanceMode e2) \<and> shouldEnforceRiskLevel e1 r \<longrightarrow>
      shouldEnforceRiskLevel e2 r)"
proof (intro conjI impI)
  show "getGovernanceMode (Some (to_lower s)) = getGovernanceMode (Some s)"
    by (simp add: getGovernanceMode_def)
  show "getGovernanceMode None = SHADOW" by (simp add: getGovernanceMode_def)
next
  assume m: "modeMap (to_upper s) = None"
  then show g: "getGovernanceMode (Some s) = SHADOW" by (simp add: to_upper_SHADOW_cases)
  show "isGovernanceActive (Some s)" by (simp add: isGovernanceActive_def g)
  show "\<not> isGovernanceEnforcingAny (Some s)" by (simp add: isGovernanceEnforcingAny_def g)
  show "\<not> shouldEnforceRiskLevel (Some s) r" by (simp add: shouldEnforceRiskLevel_def g)
next
  assume "mode_rank (getGovernanceMode e1) \<le> mode_rank (getGovernanceMode e2) \<and> shouldEnforceRiskLevel e1 r"
  then show "shouldEnforceRiskLevel e2 r"
    by (cases "getGovernanceMode e1"; cases "getGovernanceMode e2") (simp_all add: shouldEnforceRiskLevel_def)
qed

theorem rollout_mode_safe_witness:
  "getGovernanceMode (Some ''on'') = SHADOW \<and> shouldEnforceRiskLevel (Some ''ENFORCING'') ''LOW''"
proof
  have upper: "modeMap (to_upper ''on'') = None" by (simp add: modeMap_def to_upper_def upper_char_def)
  show "getGovernanceMode (Some ''on'') = SHADOW"
    using rollout_mode_safe [of "''on''" "''LOW''" None None] upper by blast
  have m: "modeMap ''ENFORCING_NON_CRITICAL'' = Some ENFORCING_NON_CRITICAL" "modeMap ''ENFORCING'' = Some FULL_ENFORCING"
    by (simp_all add: modeMap_def)
  have u: "to_upper ''ENFORCING_NON_CRITICAL'' = ''ENFORCING_NON_CRITICAL''" "to_upper ''ENFORCING'' = ''ENFORCING''"
    by (simp_all add: to_upper_def upper_char_def)
  have g: "getGovernanceMode (Some ''ENFORCING_NON_CRITICAL'') = ENFORCING_NON_CRITICAL"
    "getGovernanceMode (Some ''ENFORCING'') = FULL_ENFORCING"
    by (simp_all add: to_upper_SHADOW_cases u m)
  have "shouldEnforceRiskLevel (Some ''ENFORCING_NON_CRITICAL'') ''LOW''" by (simp add: shouldEnforceRiskLevel_def g)
  then show "shouldEnforceRiskLevel (Some ''ENFORCING'') ''LOW''"
    using rollout_mode_safe [of "''on''" "''LOW''" "Some ''ENFORCING_NON_CRITICAL''" "Some ''ENFORCING''"] g by simp
qed

end
