(* ===== verification/Approval.thy ===== *)
theory Approval
  imports DecisionModel
begin

text \<open>
  Approval requests: the state machine of \<open>core/governance/governance-approval.ts\<close> and the in-memory
  store of \<open>governance-approval-store.ts\<close>. Every operation takes the time \<open>now\<close> at which it runs (a
  synchronous call reads the clock as one instant) and returns the store it leaves together with its
  result or the error it throws. The random id of \<open>create\<close> is an argument. A write to the database
  is recorded in \<open>as_writes\<close> when it is started and settled by \<open>settleWrite\<close>.

  \<open>getById\<close> and \<open>expire\<close> call each other. The call stack bounds that recursion: the operations take
  the number of frames that are left and throw \<open>Stack_overflow\<close> (JavaScript's \<open>RangeError\<close>) when it
  is used up.
\<close>

section \<open>Types\<close>

datatype approval_state = Pending | Approved | Denied | Revoked | Expired

record approval_record =
  approver_id :: string
  approver_type :: actor_type
  approved_at :: int
  approval_notes :: "string option"

record approval_request =
  aq_id :: string
  aq_decision_id :: string
  aq_tenant_id :: string
  aq_actor_id :: string
  aq_actor_type :: actor_type
  aq_action :: string
  aq_resource :: string
  aq_risk_level :: risk_level
  aq_state :: approval_state
  aq_required :: int
  aq_received :: "approval_record list"
  aq_justification :: "string option"
  aq_created_at :: int
  aq_expires_at :: "int option"
  aq_resolved_at :: "int option"
  aq_resolved_by :: "string option"
  aq_resolution_reason :: "string option"
  aq_metadata :: "(string \<times> string) list option"

record create_input =
  ci_decision_id :: string
  ci_tenant_id :: string
  ci_actor_id :: string
  ci_actor_type :: actor_type
  ci_action :: string
  ci_resource :: string
  ci_risk_level :: risk_level
  ci_required :: "int option"
  ci_justification :: "string option"
  ci_ttl_seconds :: "int option"
  ci_metadata :: "(string \<times> string) list option"

datatype approval_error = Invalid_transition approval_state approval_state string | Duplicate_approval string string
  | Approval_not_found string | Invalid_time | Stack_overflow

section \<open>State machine\<close>

fun ALLOWED_TRANSITIONS :: "approval_state \<Rightarrow> approval_state list" where
  "ALLOWED_TRANSITIONS Pending = [Approved, Denied, Expired]"
| "ALLOWED_TRANSITIONS Approved = [Revoked]"
| "ALLOWED_TRANSITIONS Denied = []"
| "ALLOWED_TRANSITIONS Revoked = []"
| "ALLOWED_TRANSITIONS Expired = []"

definition canTransition :: "approval_state \<Rightarrow> approval_state \<Rightarrow> bool" where
  "canTransition from to = (to \<in> set (ALLOWED_TRANSITIONS from))"

definition assertTransition :: "approval_request \<Rightarrow> approval_state \<Rightarrow> approval_error + unit" where
  "assertTransition request to =
     (if canTransition (aq_state request) to then Inr ()
      else Inl (Invalid_transition (aq_state request) to (aq_id request)))"

definition isExpired :: "int \<Rightarrow> approval_request \<Rightarrow> bool" where
  "isExpired now request =
     (if aq_state request \<noteq> Pending then False
      else case aq_expires_at request of None \<Rightarrow> False | Some t \<Rightarrow> t < now)"

fun getDefaultTtlSeconds :: "risk_level \<Rightarrow> int" where
  "getDefaultTtlSeconds CRITICAL = 4 * 60 * 60"
| "getDefaultTtlSeconds HIGH = 24 * 60 * 60"
| "getDefaultTtlSeconds MODERATE = 72 * 60 * 60"
| "getDefaultTtlSeconds LOW = 7 * 24 * 60 * 60"

definition hasReachedQuorum :: "approval_request \<Rightarrow> bool" where
  "hasReachedQuorum request = (aq_required request \<le> int (length (aq_received request)))"

definition addApproval ::
  "int \<Rightarrow> approval_request \<Rightarrow> string \<Rightarrow> actor_type \<Rightarrow> string option \<Rightarrow> approval_error + approval_record list" where
  "addApproval now request approverId approverType notes =
     (if list_ex (\<lambda>a. approver_id a = approverId) (aq_received request)
      then Inl (Duplicate_approval approverId (aq_id request))
      else Inr (aq_received request @
        [\<lparr>approver_id = approverId, approver_type = approverType, approved_at = now, approval_notes = notes\<rparr>]))"

fun getRequiredApprovals :: "risk_level \<Rightarrow> int" where
  "getRequiredApprovals CRITICAL = 2"
| "getRequiredApprovals HIGH = 1"
| "getRequiredApprovals MODERATE = 1"
| "getRequiredApprovals LOW = 1"

section \<open>Store\<close>

definition RING_BUFFER_MAX :: nat where
  "RING_BUFFER_MAX = 500"

record approval_store =
  as_buffer :: "approval_request list"
  as_writes :: "approval_request list"
  as_failures :: nat
  as_successes :: nat

fun replace_request :: "approval_request \<Rightarrow> approval_request list \<Rightarrow> approval_request list option" where
  "replace_request q [] = None"
| "replace_request q (r # rs) =
     (if aq_id r = aq_id q then Some (q # rs) else map_option ((#) r) (replace_request q rs))"

definition appendToBuffer :: "approval_request \<Rightarrow> approval_request list \<Rightarrow> approval_request list" where
  "appendToBuffer request buf =
     (case replace_request request buf of
        Some buf' \<Rightarrow> buf'
      | None \<Rightarrow> ring_push RING_BUFFER_MAX request buf)"

definition persistToDB :: "approval_request \<Rightarrow> approval_store \<Rightarrow> approval_store" where
  "persistToDB request st = st\<lparr>as_writes := as_writes st @ [request]\<rparr>"

definition settleWrite :: "bool \<Rightarrow> approval_store \<Rightarrow> approval_store" where
  "settleWrite ok st =
     (case as_writes st of
        [] \<Rightarrow> st
      | _ # ws \<Rightarrow>
          if ok then st\<lparr>as_writes := ws, as_successes := as_successes st + 1\<rparr>
          else st\<lparr>as_writes := ws, as_failures := as_failures st + 1\<rparr>)"

definition save :: "approval_request \<Rightarrow> approval_store \<Rightarrow> approval_store" where
  "save request st = persistToDB request (st\<lparr>as_buffer := appendToBuffer request (as_buffer st)\<rparr>)"

text \<open>\<open>toISOString\<close> throws when the time is outside the range of a date.\<close>

definition toISOString :: "int \<Rightarrow> approval_error + int" where
  "toISOString t = (if \<bar>t\<bar> \<le> 8640000000000000 then Inr t else Inl Invalid_time)"

definition new_request :: "int \<Rightarrow> string \<Rightarrow> create_input \<Rightarrow> int \<Rightarrow> approval_request" where
  "new_request now hex inp expiresAt =
     \<lparr>aq_id = ''approval-'' @ hex, aq_decision_id = ci_decision_id inp, aq_tenant_id = ci_tenant_id inp,
      aq_actor_id = ci_actor_id inp, aq_actor_type = ci_actor_type inp, aq_action = ci_action inp,
      aq_resource = ci_resource inp, aq_risk_level = ci_risk_level inp, aq_state = Pending,
      aq_required = (case ci_required inp of Some n \<Rightarrow> n | None \<Rightarrow> getRequiredApprovals (ci_risk_level inp)),
      aq_received = [], aq_justification = ci_justification inp, aq_created_at = now,
      aq_expires_at = Some expiresAt, aq_resolved_at = None, aq_resolved_by = None, aq_resolution_reason = None,
      aq_metadata = ci_metadata inp\<rparr>"

definition create ::
  "int \<Rightarrow> string \<Rightarrow> create_input \<Rightarrow> approval_store \<Rightarrow> approval_store \<times> (approval_error + approval_request)" where
  "create now hex inp st =
     (let ttlSeconds = (case ci_ttl_seconds inp of Some s \<Rightarrow> s | None \<Rightarrow> getDefaultTtlSeconds (ci_risk_level inp))
      in case toISOString (now + ttlSeconds * 1000) of
           Inl e \<Rightarrow> (st, Inl e)
         | Inr expiresAt \<Rightarrow> (let request = new_request now hex inp expiresAt in (save request st, Inr request)))"

fun getById :: "nat \<Rightarrow> int \<Rightarrow> string \<Rightarrow> approval_store \<Rightarrow> approval_store \<times> (approval_error + approval_request option)"
and expire :: "nat \<Rightarrow> int \<Rightarrow> string \<Rightarrow> approval_store \<Rightarrow> approval_store \<times> (approval_error + approval_request)" where
  "getById 0 now i st = (st, Inl Stack_overflow)"
| "getById (Suc frames) now i st =
     (case find (\<lambda>r. aq_id r = i) (as_buffer st) of
        None \<Rightarrow> (st, Inr None)
      | Some found \<Rightarrow>
          if isExpired now found
          then (case expire frames now (aq_id found) st of
                  (st', Inl e) \<Rightarrow> (st', Inl e)
                | (st', Inr r) \<Rightarrow> (st', Inr (Some r)))
          else (st, Inr (Some found)))"
| "expire 0 now requestId st = (st, Inl Stack_overflow)"
| "expire (Suc frames) now requestId st =
     (case getById frames now requestId st of
        (st', Inl e) \<Rightarrow> (st', Inl e)
      | (st', Inr None) \<Rightarrow> (st', Inl (Approval_not_found requestId))
      | (st', Inr (Some request)) \<Rightarrow>
          (let updated = request\<lparr>aq_state := Expired, aq_resolved_at := Some now,
                 aq_resolution_reason := Some ''Auto-expired: TTL elapsed without resolution''\<rparr>
           in (save updated st', Inr updated)))"

definition approve ::
  "nat \<Rightarrow> int \<Rightarrow> string \<Rightarrow> string \<Rightarrow> actor_type \<Rightarrow> string option \<Rightarrow> approval_store \<Rightarrow>
   approval_store \<times> (approval_error + approval_request)" where
  "approve frames now requestId approverId approverType notes st =
     (case getById frames now requestId st of
        (st', Inl e) \<Rightarrow> (st', Inl e)
      | (st', Inr None) \<Rightarrow> (st', Inl (Approval_not_found requestId))
      | (st', Inr (Some request)) \<Rightarrow>
          if isExpired now request then expire frames now requestId st'
          else case assertTransition request Approved of
            Inl e \<Rightarrow> (st', Inl e)
          | Inr _ \<Rightarrow>
              (case addApproval now request approverId approverType notes of
                 Inl e \<Rightarrow> (st', Inl e)
               | Inr updatedApprovals \<Rightarrow>
                   (let reachedQuorum = aq_required request \<le> int (length updatedApprovals);
                        updated = (if reachedQuorum
                          then request\<lparr>aq_received := updatedApprovals, aq_state := Approved, aq_resolved_at := Some now,
                                 aq_resolved_by := Some approverId,
                                 aq_resolution_reason := Some (''Approved '' @ em_dash @ '' quorum reached'')\<rparr>
                          else request\<lparr>aq_received := updatedApprovals, aq_state := Pending\<rparr>)
                    in (save updated st', Inr updated))))"

definition deny ::
  "nat \<Rightarrow> int \<Rightarrow> string \<Rightarrow> string \<Rightarrow> string \<Rightarrow> approval_store \<Rightarrow>
   approval_store \<times> (approval_error + approval_request)" where
  "deny frames now requestId deniedBy reason st =
     (case getById frames now requestId st of
        (st', Inl e) \<Rightarrow> (st', Inl e)
      | (st', Inr None) \<Rightarrow> (st', Inl (Approval_not_found requestId))
      | (st', Inr (Some request)) \<Rightarrow>
          if isExpired now request then expire frames now requestId st'
          else case assertTransition request Denied of
            Inl e \<Rightarrow> (st', Inl e)
          | Inr _ \<Rightarrow>
              (let updated = request\<lparr>aq_state := Denied, aq_resolved_at := Some now, aq_resolved_by := Some deniedBy,
                     aq_resolution_reason := Some reason\<rparr>
               in (save updated st', Inr updated)))"

definition revoke ::
  "nat \<Rightarrow> int \<Rightarrow> string \<Rightarrow> string \<Rightarrow> string \<Rightarrow> approval_store \<Rightarrow>
   approval_store \<times> (approval_error + approval_request)" where
  "revoke frames now requestId revokedBy reason st =
     (case getById frames now requestId st of
        (st', Inl e) \<Rightarrow> (st', Inl e)
      | (st', Inr None) \<Rightarrow> (st', Inl (Approval_not_found requestId))
      | (st', Inr (Some request)) \<Rightarrow>
          (case assertTransition request Revoked of
             Inl e \<Rightarrow> (st', Inl e)
           | Inr _ \<Rightarrow>
               (let updated = request\<lparr>aq_state := Revoked, aq_resolved_at := Some now, aq_resolved_by := Some revokedBy,
                      aq_resolution_reason := Some (''REVOKED: '' @ reason)\<rparr>
                in (save updated st', Inr updated))))"

text \<open>A tenant filter applies unless it is undefined or empty.\<close>

definition tenant_ok :: "string option \<Rightarrow> approval_request \<Rightarrow> bool" where
  "tenant_ok tenantId r = (case tenantId of None \<Rightarrow> True | Some t \<Rightarrow> t = [] \<or> aq_tenant_id r = t)"

fun expire_all ::
  "nat \<Rightarrow> int \<Rightarrow> approval_request list \<Rightarrow> approval_store \<Rightarrow> approval_store \<times> (approval_error + approval_request list)" where
  "expire_all frames now [] st = (st, Inr [])"
| "expire_all frames now (r # rs) st =
     (case (if isExpired now r then expire frames now (aq_id r) st else (st, Inr r)) of
        (st', Inl e) \<Rightarrow> (st', Inl e)
      | (st', Inr r') \<Rightarrow>
          (case expire_all frames now rs st' of
             (st'', Inl e) \<Rightarrow> (st'', Inl e)
           | (st'', Inr rs') \<Rightarrow> (st'', Inr (r' # rs'))))"

definition getPending ::
  "nat \<Rightarrow> int \<Rightarrow> string option \<Rightarrow> approval_store \<Rightarrow> approval_store \<times> (approval_error + approval_request list)" where
  "getPending frames now tenantId st =
     (case expire_all frames now (filter (\<lambda>r. aq_state r = Pending \<and> tenant_ok tenantId r) (as_buffer st)) st of
        (st', Inl e) \<Rightarrow> (st', Inl e)
      | (st', Inr rs) \<Rightarrow> (st', Inr (filter (\<lambda>r. aq_state r = Pending) rs)))"

definition getByActor :: "string \<Rightarrow> string option \<Rightarrow> approval_store \<Rightarrow> approval_request list" where
  "getByActor actorId tenantId st = filter (\<lambda>r. aq_actor_id r = actorId \<and> tenant_ok tenantId r) (as_buffer st)"

definition getByDecisionId :: "string \<Rightarrow> approval_store \<Rightarrow> approval_request option" where
  "getByDecisionId decisionId st = find (\<lambda>r. aq_decision_id r = decisionId) (as_buffer st)"

definition getByState :: "approval_state \<Rightarrow> string option \<Rightarrow> approval_store \<Rightarrow> approval_request list" where
  "getByState s tenantId st = filter (\<lambda>r. aq_state r = s \<and> tenant_ok tenantId r) (as_buffer st)"

definition getBufferSize :: "approval_store \<Rightarrow> nat" where
  "getBufferSize st = length (as_buffer st)"

definition clearBuffer :: "approval_store \<Rightarrow> approval_store" where
  "clearBuffer st = st\<lparr>as_buffer := [], as_failures := 0, as_successes := 0\<rparr>"

section \<open>The recursion of \<open>getById\<close> and \<open>expire\<close>\<close>

lemma find_id: "find (\<lambda>r. aq_id r = i) buf = Some r \<Longrightarrow> r \<in> set buf \<and> aq_id r = i"
  by (rule find_Some_mem)

lemma expired_loops:
  assumes "find (\<lambda>r. aq_id r = i) (as_buffer st) = Some found" and "isExpired now found"
  shows "getById n now i st = (st, Inl Stack_overflow) \<and> expire n now i st = (st, Inl Stack_overflow)"
proof (induction n)
  case 0
  then show ?case by simp
next
  case (Suc n)
  have "aq_id found = i" using find_id [OF assms(1)] by simp
  then show ?case using Suc assms by simp
qed

lemma getById_Suc:
  "getById (Suc n) now i st =
     (case find (\<lambda>r. aq_id r = i) (as_buffer st) of
        None \<Rightarrow> (st, Inr None)
      | Some found \<Rightarrow> if isExpired now found then (st, Inl Stack_overflow) else (st, Inr (Some found)))"
proof (cases "find (\<lambda>r. aq_id r = i) (as_buffer st)")
  case None
  then show ?thesis by simp
next
  case (Some found)
  show ?thesis
  proof (cases "isExpired now found")
    case True
    from expired_loops [OF Some True, of "Suc n"] Some True show ?thesis by simp
  next
    case False
    with Some show ?thesis by simp
  qed
qed

declare getById.simps(2) [simp del]

lemma getById_Some:
  assumes "getById n now i st = (st', Inr (Some r))"
  shows "st' = st \<and> r \<in> set (as_buffer st) \<and> aq_id r = i \<and> \<not> isExpired now r"
proof (cases n)
  case 0
  with assms show ?thesis by simp
next
  case (Suc m)
  with assms show ?thesis
    by (auto simp: getById_Suc dest: find_id split: option.splits if_splits)
qed

lemma getById_store: "fst (getById n now i st) = st"
  by (cases n) (simp_all add: getById_Suc split: option.split)

section \<open>How a request evolves\<close>

text \<open>The fields that no operation changes.\<close>

definition same_core :: "approval_request \<Rightarrow> approval_request \<Rightarrow> bool" where
  "same_core r q = (q = r\<lparr>aq_state := aq_state q, aq_received := aq_received q, aq_resolved_at := aq_resolved_at q,
     aq_resolved_by := aq_resolved_by q, aq_resolution_reason := aq_resolution_reason q\<rparr>)"

lemma same_core_id: "same_core r q \<Longrightarrow> aq_id q = aq_id r \<and> aq_required q = aq_required r"
  unfolding same_core_def by (metis approval_request.select_convs(1,10) approval_request.surjective
      approval_request.update_convs(9,11,15,16,17))

inductive evolves :: "approval_request \<Rightarrow> approval_request \<Rightarrow> bool" where
  one_more: "\<lbrakk>aq_state r = Pending; aq_state q = Pending; same_core r q; aq_received q = aq_received r @ [a];
     approver_id a \<notin> approver_id ` set (aq_received r); int (length (aq_received q)) < aq_required r;
     aq_resolved_at q = aq_resolved_at r\<rbrakk> \<Longrightarrow> evolves r q"
| quorum: "\<lbrakk>aq_state r = Pending; aq_state q = Approved; same_core r q; aq_received q = aq_received r @ [a];
     approver_id a \<notin> approver_id ` set (aq_received r); aq_required r \<le> int (length (aq_received q));
     aq_resolved_at q = Some now; aq_resolved_by q = Some (approver_id a)\<rbrakk> \<Longrightarrow> evolves r q"
| denial: "\<lbrakk>aq_state r = Pending; aq_state q = Denied; same_core r q; aq_received q = aq_received r;
     aq_resolved_at q = Some now\<rbrakk> \<Longrightarrow> evolves r q"
| revocation: "\<lbrakk>aq_state r = Approved; aq_state q = Revoked; same_core r q; aq_received q = aq_received r;
     aq_resolved_at q = Some now\<rbrakk> \<Longrightarrow> evolves r q"

text \<open>Every operation leaves the store as it is or saves one evolved request.\<close>

definition saves :: "int \<Rightarrow> approval_store \<Rightarrow> approval_store \<Rightarrow> bool" where
  "saves now st st' = (st' = st \<or> (\<exists>r q. r \<in> set (as_buffer st) \<and> \<not> isExpired now r \<and> evolves r q \<and> st' = save q st))"

lemma saves_refl [simp]: "saves now st st"
  by (simp add: saves_def)

lemma saves_save: "r \<in> set (as_buffer st) \<Longrightarrow> \<not> isExpired now r \<Longrightarrow> evolves r q \<Longrightarrow> saves now st (save q st)"
  by (auto simp: saves_def)

lemma addApproval_Inr:
  "addApproval now r i t notes = Inr as \<Longrightarrow>
     \<exists>a. as = aq_received r @ [a] \<and> approver_id a = i \<and> i \<notin> approver_id ` set (aq_received r)"
  by (auto simp: addApproval_def list_ex_iff split: if_splits)

lemma canTransition_simps [simp]:
  "canTransition s Approved \<longleftrightarrow> s = Pending" "canTransition s Denied \<longleftrightarrow> s = Pending"
  "canTransition s Revoked \<longleftrightarrow> s = Approved" "canTransition s Expired \<longleftrightarrow> s = Pending"
  "\<not> canTransition s Pending"
  by (cases s; simp add: canTransition_def)+

lemma assertTransition_ok [simp]: "canTransition (aq_state r) to \<Longrightarrow> assertTransition r to = Inr ()"
  by (simp add: assertTransition_def)

lemma assertTransition_InrD: "assertTransition r to = Inr u \<Longrightarrow> canTransition (aq_state r) to"
  by (simp add: assertTransition_def split: if_splits)

text \<open>The three outcomes of a lookup.\<close>

lemma getById_cases:
  obtains (err) e where "getById n now i st = (st, Inl e)" | (none) "getById n now i st = (st, Inr None)"
    | (some) r where "getById n now i st = (st, Inr (Some r))" "r \<in> set (as_buffer st)" "\<not> isExpired now r" "aq_id r = i"
proof -
  obtain x where x: "getById n now i st = (st, x)" using getById_store [of n now i st] by (metis prod.collapse)
  show thesis
  proof (cases x)
    case (Inl e)
    then show thesis using x err by simp
  next
    case (Inr o1)
    then show thesis using x none some getById_Some [of n now i st st] by (cases o1) auto
  qed
qed

lemma saves_approve: "saves now st (fst (approve n now i by t notes st))"
proof (cases rule: getById_cases [of n now i st])
  case (some r)
  show ?thesis
  proof (cases "assertTransition r Approved")
    case (Inl e)
    then show ?thesis using some by (simp add: approve_def)
  next
    case (Inr u)
    then have p: "aq_state r = Pending" using assertTransition_InrD [OF Inr] by simp
    show ?thesis
    proof (cases "addApproval now r by t notes")
      case (Inl e)
      then show ?thesis using some p by (simp add: approve_def)
    next
      case (Inr as)
      obtain a where a: "as = aq_received r @ [a]" "approver_id a = by"
        "approver_id a \<notin> approver_id ` set (aq_received r)" using addApproval_Inr [OF Inr] by auto
      show ?thesis
      proof (cases "aq_required r \<le> int (length as)")
        case True
        have "evolves r (r\<lparr>aq_received := as, aq_state := Approved, aq_resolved_at := Some now,
            aq_resolved_by := Some by, aq_resolution_reason := Some (''Approved '' @ em_dash @ '' quorum reached'')\<rparr>)"
          by (rule evolves.quorum [where a = a and now = now]) (use p a True in \<open>simp_all add: same_core_def\<close>)
        then show ?thesis using some p Inr True by (simp add: approve_def Let_def saves_save)
      next
        case False
        have "evolves r (r\<lparr>aq_received := as, aq_state := Pending\<rparr>)"
          by (rule evolves.one_more [where a = a]) (use p a False in \<open>simp_all add: same_core_def\<close>)
        then show ?thesis using some p Inr False by (simp add: approve_def Let_def saves_save)
      qed
    qed
  qed
qed (simp_all add: approve_def)

lemma saves_deny: "saves now st (fst (deny n now i by reason st))"
proof (cases rule: getById_cases [of n now i st])
  case (some r)
  show ?thesis
  proof (cases "assertTransition r Denied")
    case (Inl e)
    then show ?thesis using some by (simp add: deny_def)
  next
    case (Inr u)
    then have p: "aq_state r = Pending" using assertTransition_InrD [OF Inr] by simp
    then have "evolves r (r\<lparr>aq_state := Denied, aq_resolved_at := Some now, aq_resolved_by := Some by,
        aq_resolution_reason := Some reason\<rparr>)"
      by (intro evolves.denial [where now = now]) (simp_all add: same_core_def)
    then show ?thesis using some p by (simp add: deny_def Let_def saves_save)
  qed
qed (simp_all add: deny_def)

lemma saves_revoke: "saves now st (fst (revoke n now i by reason st))"
proof (cases rule: getById_cases [of n now i st])
  case (some r)
  show ?thesis
  proof (cases "assertTransition r Revoked")
    case (Inl e)
    then show ?thesis using some by (simp add: revoke_def)
  next
    case (Inr u)
    then have p: "aq_state r = Approved" using assertTransition_InrD [OF Inr] by simp
    then have "evolves r (r\<lparr>aq_state := Revoked, aq_resolved_at := Some now, aq_resolved_by := Some by,
        aq_resolution_reason := Some (''REVOKED: '' @ reason)\<rparr>)"
      by (intro evolves.revocation [where now = now]) (simp_all add: same_core_def)
    then show ?thesis using some p by (simp add: revoke_def Let_def saves_save)
  qed
qed (simp_all add: revoke_def)

lemma find_distinct:
  "distinct (map aq_id buf) \<Longrightarrow> r \<in> set buf \<Longrightarrow> find (\<lambda>q. aq_id q = aq_id r) buf = Some r"
proof (induction buf)
  case (Cons b buf)
  then show ?case by (auto simp: image_iff)
qed simp

lemma expire_all_eq:
  assumes "distinct (map aq_id (as_buffer st))"
  shows "set rs \<subseteq> set (as_buffer st) \<Longrightarrow>
    expire_all n now rs st = (st, if \<exists>r\<in>set rs. isExpired now r then Inl Stack_overflow else Inr rs)"
proof (induction rs)
  case (Cons r rs)
  show ?case
  proof (cases "isExpired now r")
    case True
    have "find (\<lambda>q. aq_id q = aq_id r) (as_buffer st) = Some r" using find_distinct [OF assms] Cons.prems by simp
    from expired_loops [OF this True, of n] True show ?thesis by simp
  next
    case False
    then show ?thesis using Cons by simp
  qed
qed simp

section \<open>The buffer\<close>

lemma ring_push_approvals: "bounded_buffer RING_BUFFER_MAX (ring_push RING_BUFFER_MAX)"
  by (rule ring_push_buffer) (simp add: RING_BUFFER_MAX_def)

interpretation approvals: bounded_buffer RING_BUFFER_MAX "ring_push RING_BUFFER_MAX :: approval_request \<Rightarrow> _"
  by (rule ring_push_approvals)

lemma replace_request_None: "replace_request q buf = None \<longleftrightarrow> aq_id q \<notin> aq_id ` set buf"
  by (induction buf) auto

lemma replace_request_Some:
  "distinct (map aq_id buf) \<Longrightarrow> replace_request q buf = Some buf' \<Longrightarrow>
     buf' = map (\<lambda>r. if aq_id r = aq_id q then q else r) buf"
proof (induction buf arbitrary: buf')
  case (Cons b buf)
  show ?case
  proof (cases "aq_id b = aq_id q")
    case True
    have "map (\<lambda>r. if aq_id r = aq_id q then q else r) buf = buf"
      by (rule map_idI) (use Cons.prems(1) True in \<open>auto simp: image_iff\<close>)
    then show ?thesis using Cons.prems True by simp
  next
    case False
    then show ?thesis using Cons by auto
  qed
qed simp

lemma append_old:
  "distinct (map aq_id buf) \<Longrightarrow> aq_id q \<in> aq_id ` set buf \<Longrightarrow>
     appendToBuffer q buf = map (\<lambda>r. if aq_id r = aq_id q then q else r) buf"
  using replace_request_None [of q buf] replace_request_Some [of buf q]
  by (auto simp: appendToBuffer_def split: option.split)

lemma append_new: "aq_id q \<notin> aq_id ` set buf \<Longrightarrow> appendToBuffer q buf = ring_push RING_BUFFER_MAX q buf"
  using replace_request_None [of q buf] by (simp add: appendToBuffer_def)

lemma ids_replaced: "map aq_id (map (\<lambda>r. if aq_id r = aq_id q then q else r) buf) = map aq_id buf"
  by simp

lemma append_length: "distinct (map aq_id buf) \<Longrightarrow> length buf \<le> RING_BUFFER_MAX \<Longrightarrow>
    length (appendToBuffer q buf) \<le> RING_BUFFER_MAX"
  using approvals.push_bound [of buf q]
  by (cases "aq_id q \<in> aq_id ` set buf") (simp_all add: append_old append_new)

lemma ring_push_cases: "ring_push cap x xs = xs @ [x] \<or> ring_push cap x xs = tl (xs @ [x])"
  by (simp add: ring_push_def Let_def)

lemma distinct_tl_map: "distinct (map f xs) \<Longrightarrow> distinct (map f (tl xs))"
  by (simp add: map_tl distinct_tl)

lemma append_distinct: "distinct (map aq_id buf) \<Longrightarrow> distinct (map aq_id (appendToBuffer q buf))"
proof (cases "aq_id q \<in> aq_id ` set buf")
  case True
  then show "distinct (map aq_id buf) \<Longrightarrow> ?thesis" by (simp add: append_old del: map_map) (simp only: ids_replaced)
next
  case False
  assume "distinct (map aq_id buf)"
  then have "distinct (map aq_id (buf @ [q]))" using False by simp
  then have "distinct (map aq_id (ring_push RING_BUFFER_MAX q buf))"
    using ring_push_cases [of RING_BUFFER_MAX q buf] distinct_tl_map [of aq_id "buf @ [q]"] by metis
  then show ?thesis using False by (simp add: append_new)
qed

lemma set_ring_push: "set (ring_push cap x xs) \<subseteq> insert x (set xs)"
proof -
  have "set (tl (xs @ [x])) \<subseteq> set (xs @ [x])" by (cases xs) auto
  then show ?thesis using ring_push_cases [of cap x xs] by auto
qed

lemma append_set: "distinct (map aq_id buf) \<Longrightarrow> set (appendToBuffer q buf) \<subseteq> insert q (set buf)"
  by (cases "aq_id q \<in> aq_id ` set buf") (auto simp: append_old append_new dest: set_ring_push [THEN subsetD])


section \<open>Reachable stores\<close>

inductive astep :: "approval_store \<Rightarrow> approval_store \<Rightarrow> bool" where
  create: "astep st (fst (create now hex inp st))"
| approve: "astep st (fst (approve n now i by t notes st))"
| deny: "astep st (fst (deny n now i by reason st))"
| revoke: "astep st (fst (revoke n now i by reason st))"
| lookup: "astep st (fst (getById n now i st))"
| pending: "astep st (fst (getPending n now tenantId st))"
| settle: "astep st (settleWrite ok st)"
| clear: "astep st (clearBuffer st)"

definition empty_store :: approval_store where
  "empty_store = \<lparr>as_buffer = [], as_writes = [], as_failures = 0, as_successes = 0\<rparr>"

inductive reachable :: "approval_store \<Rightarrow> bool" where
  start: "reachable empty_store"
| step: "reachable st \<Longrightarrow> astep st st' \<Longrightarrow> reachable st'"

definition request_ok :: "approval_request \<Rightarrow> bool" where
  "request_ok r =
     (distinct (map approver_id (aq_received r)) \<and>
      (aq_state r = Approved \<or> aq_state r = Revoked \<longrightarrow> aq_required r \<le> int (length (aq_received r)) \<and> aq_received r \<noteq> []) \<and>
      (aq_state r = Pending \<longrightarrow> aq_received r = [] \<or> int (length (aq_received r)) < aq_required r) \<and>
      (aq_state r = Pending \<longleftrightarrow> aq_resolved_at r = None) \<and>
      aq_state r \<noteq> Expired)"

definition store_ok :: "approval_store \<Rightarrow> bool" where
  "store_ok st = (length (as_buffer st) \<le> RING_BUFFER_MAX \<and> distinct (map aq_id (as_buffer st)) \<and>
     (\<forall>r\<in>set (as_buffer st). request_ok r))"

lemma request_ok_evolves: "evolves r q \<Longrightarrow> request_ok r \<Longrightarrow> request_ok q"
  by (induction rule: evolves.induct) (simp_all add: request_ok_def same_core_id)

lemma request_ok_new: "request_ok (new_request now hex inp t)"
  by (simp add: request_ok_def new_request_def)

lemma save_buffer [simp]: "as_buffer (save q st) = appendToBuffer q (as_buffer st)"
  by (simp add: save_def persistToDB_def)

lemma store_ok_save: "store_ok st \<Longrightarrow> request_ok q \<Longrightarrow> store_ok (save q st)"
  using append_set [of "as_buffer st" q] by (auto simp: store_ok_def append_length append_distinct)

lemma store_ok_saves: "saves now st st' \<Longrightarrow> store_ok st \<Longrightarrow> store_ok st'"
proof -
  assume "saves now st st'" and ok: "store_ok st"
  then consider "st' = st" | r q where "r \<in> set (as_buffer st)" "evolves r q" "st' = save q st"
    by (auto simp: saves_def)
  then show "store_ok st'"
  proof cases
    case 2
    then have "request_ok q" using ok request_ok_evolves by (auto simp: store_ok_def)
    then show ?thesis using ok 2 store_ok_save by simp
  qed (use ok in simp)
qed

lemma create_cases: "fst (create now hex inp st) = st \<or> (\<exists>t. fst (create now hex inp st) = save (new_request now hex inp t) st)"
  by (auto simp: create_def Let_def split: sum.split)

lemma settle_buffer [simp]: "as_buffer (settleWrite ok st) = as_buffer st"
  by (simp add: settleWrite_def split: list.split)

lemma getPending_store: "distinct (map aq_id (as_buffer st)) \<Longrightarrow> fst (getPending n now t st) = st"
  by (simp add: getPending_def expire_all_eq)

lemma store_ok_step: "astep st st' \<Longrightarrow> store_ok st \<Longrightarrow> store_ok st'"
proof (induction rule: astep.induct)
  case (create st now hex inp)
  then show ?case using create_cases [of now hex inp st] store_ok_save request_ok_new by metis
next
  case (pending st n now tenantId)
  then show ?case by (simp add: getPending_store store_ok_def)
next
  case (clear st)
  then show ?case by (simp add: store_ok_def clearBuffer_def)
next
  case (settle st ok)
  then show ?case by (simp add: store_ok_def)
qed (auto intro: store_ok_saves saves_approve saves_deny saves_revoke simp: getById_store)

lemma reachable_ok: "reachable st \<Longrightarrow> store_ok st"
proof (induction rule: reachable.induct)
  case start
  then show ?case by (simp add: store_ok_def empty_store_def)
next
  case (step st st')
  then show ?case by (blast intro: store_ok_step)
qed

section \<open>Properties\<close>

text \<open>
  C1: Quorum safety, the invariant of the approval store: in every store that any sequence of
  operations reaches, at most 500 requests are kept under distinct ids, and a request that is
  approved (or was, and is revoked) has received at least the required number of approvals, all from
  different approvers; a request is unresolved exactly while it is pending.
\<close>

theorem approval_quorum_invariant:
  assumes "reachable st"
  shows "length (as_buffer st) \<le> 500 \<and> distinct (map aq_id (as_buffer st)) \<and>
    (\<forall>r\<in>set (as_buffer st). aq_state r \<in> {Approved, Revoked} \<longrightarrow>
       aq_required r \<le> int (card (approver_id ` set (aq_received r))) \<and> aq_received r \<noteq> []) \<and>
    (\<forall>r\<in>set (as_buffer st). (aq_state r = Pending) = (aq_resolved_at r = None))"
proof -
  have ok: "store_ok st" by (rule reachable_ok [OF assms])
  have card: "card (approver_id ` set (aq_received r)) = length (aq_received r)" if "request_ok r" for r
    using that distinct_card [of "map approver_id (aq_received r)"] by (simp add: request_ok_def)
  show ?thesis using ok card by (auto simp: store_ok_def RING_BUFFER_MAX_def request_ok_def)
qed

definition critical_input :: create_input where
  "critical_input = \<lparr>ci_decision_id = ''d'', ci_tenant_id = ''t'', ci_actor_id = ''alice'', ci_actor_type = Human,
     ci_action = ''EXECUTE_REMEDIATION'', ci_resource = ''prod'', ci_risk_level = CRITICAL, ci_required = None,
     ci_justification = None, ci_ttl_seconds = None, ci_metadata = None\<rparr>"

definition created :: approval_store where
  "created = fst (create 0 ''00'' critical_input empty_store)"

definition approved_once :: approval_store where
  "approved_once = fst (approve 5 10 ''approval-00'' ''bob'' Human None created)"

definition approved_twice :: approval_store where
  "approved_twice = fst (approve 5 20 ''approval-00'' ''carol'' Human None approved_once)"

lemma reachable_created: "reachable created"
  unfolding created_def by (rule reachable.step [OF reachable.start astep.create])

lemma reachable_once: "reachable approved_once"
  unfolding approved_once_def by (rule reachable.step [OF reachable_created astep.approve])

lemma reachable_twice: "reachable approved_twice"
  unfolding approved_twice_def by (rule reachable.step [OF reachable_once astep.approve])

lemma created_eq: "as_buffer created = [new_request 0 ''00'' critical_input 14400000]"
  by (simp add: created_def create_def Let_def critical_input_def toISOString_def empty_store_def appendToBuffer_def
      ring_push_def RING_BUFFER_MAX_def)

definition sample_approval :: "string \<Rightarrow> int \<Rightarrow> approval_record" where
  "sample_approval who t = \<lparr>approver_id = who, approver_type = Human, approved_at = t, approval_notes = None\<rparr>"

definition once_request :: approval_request where
  "once_request = (new_request 0 ''00'' critical_input 14400000)\<lparr>aq_received := [sample_approval ''bob'' 10]\<rparr>"

lemma approved_once_eq: "as_buffer approved_once = [once_request]"
  using created_eq getById_Suc [of 4 10 "''approval-00''" created]
  by (simp add: approved_once_def approve_def new_request_def isExpired_def addApproval_def critical_input_def
      appendToBuffer_def Let_def once_request_def sample_approval_def)

definition twice_request :: approval_request where
  "twice_request = once_request\<lparr>aq_received := [sample_approval ''bob'' 10, sample_approval ''carol'' 20],
     aq_state := Approved, aq_resolved_at := Some 20, aq_resolved_by := Some ''carol'',
     aq_resolution_reason := Some (''Approved '' @ em_dash @ '' quorum reached'')\<rparr>"

lemma approved_twice_eq: "as_buffer approved_twice = [twice_request]"
  using approved_once_eq getById_Suc [of 4 20 "''approval-00''" approved_once]
  by (simp add: approved_twice_def approve_def new_request_def isExpired_def addApproval_def critical_input_def
      appendToBuffer_def Let_def once_request_def twice_request_def sample_approval_def)

theorem approval_quorum_invariant_witness:
  "aq_state twice_request = Approved \<and> aq_required twice_request \<le> int (card (approver_id ` set (aq_received twice_request)))"
  using approval_quorum_invariant [OF reachable_twice] by (simp add: approved_twice_eq twice_request_def)








text \<open>
  C4: Lazy expiry never happens: once the time of a pending request has passed, every read or
  decision on it recurses between \<open>getById\<close> and \<open>expire\<close> until the call stack overflows, at any
  stack size, leaving the store unchanged; listing the pending requests overflows as well. So the
  request can be neither approved nor denied, and no reachable request is ever in state expired.
\<close>

theorem expiry_overflows:
  assumes "reachable st" and "r \<in> set (as_buffer st)" and "isExpired now r"
  shows "getById frames now (aq_id r) st = (st, Inl Stack_overflow) \<and>
    approve frames now (aq_id r) b t ns st = (st, Inl Stack_overflow) \<and>
    deny frames now (aq_id r) b reason st = (st, Inl Stack_overflow) \<and>
    revoke frames now (aq_id r) b reason st = (st, Inl Stack_overflow) \<and>
    getPending frames now None st = (st, Inl Stack_overflow) \<and>
    (\<forall>q\<in>set (as_buffer st). aq_state q \<noteq> Expired)"
proof -
  have ok: "store_ok st" by (rule reachable_ok [OF assms(1)])
  have d: "distinct (map aq_id (as_buffer st))" using ok by (simp add: store_ok_def)
  have g: "getById frames now (aq_id r) st = (st, Inl Stack_overflow)"
    using expired_loops [OF find_distinct [OF d assms(2)] assms(3)] by blast
  have p: "aq_state r = Pending" using assms(3) by (simp add: isExpired_def split: if_splits)
  have "\<exists>q\<in>set (filter (\<lambda>r. aq_state r = Pending \<and> tenant_ok None r) (as_buffer st)). isExpired now q"
    using assms p by (auto simp: tenant_ok_def)
  then have gp: "getPending frames now None st = (st, Inl Stack_overflow)"
    using expire_all_eq [OF d, of "filter (\<lambda>r. aq_state r = Pending \<and> tenant_ok None r) (as_buffer st)" frames now]
    by (simp add: getPending_def)
  have "\<forall>q\<in>set (as_buffer st). aq_state q \<noteq> Expired" using ok by (simp add: store_ok_def request_ok_def)
  then show ?thesis using g gp by (simp add: approve_def deny_def revoke_def)
qed

theorem expiry_overflows_witness:
  "approve 10000 14400001 ''approval-00'' ''carol'' Human None approved_once = (approved_once, Inl Stack_overflow)"
  using expiry_overflows [OF reachable_once, of once_request 14400001 10000 "''carol''" Human None]
  by (simp add: approved_once_eq once_request_def new_request_def isExpired_def)

lemma getById_live:
  "distinct (map aq_id (as_buffer st)) \<Longrightarrow> r \<in> set (as_buffer st) \<Longrightarrow> \<not> isExpired now r \<Longrightarrow>
     getById (Suc n) now (aq_id r) st = (st, Inr (Some r))"
  by (simp add: getById_Suc find_distinct)

text \<open>
  Approvals within the time limit work, for every request and every stack: an approver that the
  request has not heard from yet is recorded, and the request is approved exactly when that reaches
  its quorum; an approver it has heard from is refused and changes nothing.
\<close>

theorem approve_counts_distinct_approvers:
  assumes "reachable st" and "r \<in> set (as_buffer st)" and "aq_state r = Pending" and "\<not> isExpired now r"
  shows "if b \<in> approver_id ` set (aq_received r)
    then approve (Suc n) now (aq_id r) b t ns st = (st, Inl (Duplicate_approval b (aq_id r)))
    else \<exists>q. approve (Suc n) now (aq_id r) b t ns st = (save q st, Inr q) \<and> same_core r q \<and>
      q \<in> set (as_buffer (save q st)) \<and>
      map approver_id (aq_received q) = map approver_id (aq_received r) @ [b] \<and>
      aq_state q = (if aq_required r \<le> int (length (aq_received r)) + 1 then Approved else Pending)"
proof -
  have d: "distinct (map aq_id (as_buffer st))" using reachable_ok [OF assms(1)] by (simp add: store_ok_def)
  have g: "getById (Suc n) now (aq_id r) st = (st, Inr (Some r))" by (rule getById_live [OF d assms(2,4)])
  show ?thesis
  proof (cases "b \<in> approver_id ` set (aq_received r)")
    case True
    then have "addApproval now r b t ns = Inl (Duplicate_approval b (aq_id r))"
      by (auto simp: addApproval_def list_ex_iff)
    then show ?thesis using True g assms by (simp add: approve_def)
  next
    case False
    let ?as = "aq_received r @ [\<lparr>approver_id = b, approver_type = t, approved_at = now, approval_notes = ns\<rparr>]"
    let ?q = "if aq_required r \<le> int (length ?as)
      then r\<lparr>aq_received := ?as, aq_state := Approved, aq_resolved_at := Some now, aq_resolved_by := Some b,
             aq_resolution_reason := Some (''Approved '' @ em_dash @ '' quorum reached'')\<rparr>
      else r\<lparr>aq_received := ?as, aq_state := Pending\<rparr>"
    have "addApproval now r b t ns = Inr ?as" using False by (auto simp: addApproval_def list_ex_iff)
    then have ap: "approve (Suc n) now (aq_id r) b t ns st = (save ?q st, Inr ?q)"
      using g assms by (simp add: approve_def Let_def)
    have "aq_id r \<in> aq_id ` set (as_buffer st)" using assms(2) by simp
    then have mem: "?q \<in> set (as_buffer (save ?q st))" using append_old [OF d, of ?q] assms(2) by (auto split: if_splits)
    have "same_core r ?q" by (simp add: same_core_def)
    then have "\<exists>q. approve (Suc n) now (aq_id r) b t ns st = (save q st, Inr q) \<and> same_core r q \<and>
      q \<in> set (as_buffer (save q st)) \<and>
      map approver_id (aq_received q) = map approver_id (aq_received r) @ [b] \<and>
      aq_state q = (if aq_required r \<le> int (length (aq_received r)) + 1 then Approved else Pending)"
      using ap mem by (intro exI [of _ ?q] conjI) simp_all
    then show ?thesis using False by simp
  qed
qed

theorem approve_counts_distinct_approvers_witness:
  "approve 5 11 ''approval-00'' ''bob'' Human None approved_once =
     (approved_once, Inl (Duplicate_approval ''bob'' ''approval-00''))"
  using approve_counts_distinct_approvers [OF reachable_once, of once_request 11 "''bob''" 4 Human None]
  by (simp add: approved_once_eq once_request_def new_request_def isExpired_def sample_approval_def)

text \<open>
  A full store forgets the oldest request: with 500 requests held, a new one under a fresh id
  removes the first, whatever its state, and from then on every lookup misses it and every decision
  on it fails as not found, although it may have been written to the database.
\<close>

theorem full_store_forgets_oldest:
  assumes "reachable st" and "length (as_buffer st) = 500"
    and "''approval-'' @ hex \<notin> aq_id ` set (as_buffer st)"
    and "create now hex inp st = (st', Inr q)"
  shows "as_buffer st' = tl (as_buffer st) @ [q] \<and>
    getById (Suc n) later (aq_id (hd (as_buffer st))) st' = (st', Inr None) \<and>
    approve (Suc n) later (aq_id (hd (as_buffer st))) b t ns st' =
      (st', Inl (Approval_not_found (aq_id (hd (as_buffer st)))))"
proof -
  have d: "distinct (map aq_id (as_buffer st))" using reachable_ok [OF assms(1)] by (simp add: store_ok_def)
  obtain e where e: "st' = save q st" "q = new_request now hex inp e"
    using assms(4) by (auto simp: create_def Let_def split: sum.splits)
  have qid: "aq_id q = ''approval-'' @ hex" by (simp add: e new_request_def)
  have "as_buffer st' = ring_push RING_BUFFER_MAX q (as_buffer st)"
    using assms(3) e qid by (simp add: append_new)
  then have buf: "as_buffer st' = tl (as_buffer st) @ [q]"
    using approvals.push_evicts [of "as_buffer st" q] assms(2) by (simp add: RING_BUFFER_MAX_def)
  obtain r rs where rs: "as_buffer st = r # rs" using assms(2) by (cases "as_buffer st") auto
  have "\<forall>x\<in>set (as_buffer st'). aq_id x \<noteq> aq_id r"
    using buf rs d qid assms(3) by (auto simp: image_iff)
  then have "find (\<lambda>x. aq_id x = aq_id r) (as_buffer st') = None" by (simp add: find_None_iff)
  then have g: "getById (Suc n) later (aq_id r) st' = (st', Inr None)" by (simp add: getById_Suc)
  then show ?thesis using buf rs by (simp add: approve_def)
qed

text \<open>A store filled by 500 creations, for the witness.\<close>

definition hex_ids :: "string list" where
  "hex_ids = map (\<lambda>n. replicate n (CHR ''a'')) [0..<500]"

definition fill :: "string list \<Rightarrow> approval_store \<Rightarrow> approval_store" where
  "fill hs st = foldl (\<lambda>s h. fst (create 0 h critical_input s)) st hs"

lemma create_critical: "create 0 h critical_input s =
    (save (new_request 0 h critical_input 14400000) s, Inr (new_request 0 h critical_input 14400000))"
  by (simp add: create_def Let_def critical_input_def toISOString_def)

lemma reachable_fill: "reachable st \<Longrightarrow> reachable (fill hs st)"
proof (induction hs arbitrary: st)
  case (Cons h hs)
  have "reachable (fst (create 0 h critical_input st))" by (rule reachable.step [OF Cons.prems astep.create])
  then show ?case using Cons.IH by (simp add: fill_def)
qed (simp add: fill_def)

lemma fill_buffer: "distinct hs \<Longrightarrow> length hs \<le> 500 \<Longrightarrow>
    as_buffer (fill hs empty_store) = map (\<lambda>h. new_request 0 h critical_input 14400000) hs"
proof (induction hs rule: rev_induct)
  case Nil
  then show ?case by (simp add: fill_def empty_store_def)
next
  case (snoc h hs)
  have "aq_id (new_request 0 h critical_input 14400000) \<notin> aq_id ` set (as_buffer (fill hs empty_store))"
    using snoc by (auto simp: new_request_def)
  then have "as_buffer (save (new_request 0 h critical_input 14400000) (fill hs empty_store)) =
      as_buffer (fill hs empty_store) @ [new_request 0 h critical_input 14400000]"
    using snoc approvals.push_keeps [of "as_buffer (fill hs empty_store)"]
    by (simp add: append_new RING_BUFFER_MAX_def)
  moreover have "fill (hs @ [h]) empty_store = save (new_request 0 h critical_input 14400000) (fill hs empty_store)"
    by (simp add: fill_def create_critical)
  ultimately show ?case using snoc by simp
qed

lemma hex_ids_distinct: "distinct hex_ids"
  by (simp add: hex_ids_def distinct_map inj_on_def)

lemma hex_ids_short: "h \<in> set hex_ids \<Longrightarrow> length h < 500"
  by (auto simp: hex_ids_def)

lemma full_buffer: "as_buffer (fill hex_ids empty_store) = map (\<lambda>h. new_request 0 h critical_input 14400000) hex_ids"
  by (rule fill_buffer) (simp_all add: hex_ids_distinct, simp add: hex_ids_def)

theorem full_store_forgets_oldest_witness:
  "getById 9 5 (aq_id (hd (as_buffer (fill hex_ids empty_store))))
      (save (new_request 0 (replicate 500 (CHR ''b'')) critical_input 14400000) (fill hex_ids empty_store)) =
    (save (new_request 0 (replicate 500 (CHR ''b'')) critical_input 14400000) (fill hex_ids empty_store), Inr None)"
proof -
  have len: "length (as_buffer (fill hex_ids empty_store)) = 500" by (simp only: full_buffer length_map) (simp add: hex_ids_def)
  have fresh: "''approval-'' @ replicate 500 (CHR ''b'') \<notin> aq_id ` set (as_buffer (fill hex_ids empty_store))"
  proof
    assume "''approval-'' @ replicate 500 (CHR ''b'') \<in> aq_id ` set (as_buffer (fill hex_ids empty_store))"
    then have "replicate 500 (CHR ''b'') \<in> set hex_ids" by (auto simp: full_buffer new_request_def)
    from hex_ids_short [OF this] show False by simp
  qed
  from full_store_forgets_oldest [OF reachable_fill [OF reachable.start] len fresh create_critical, of 8 5]
  show ?thesis by simp
qed

end
