(* ===== verification/JsValue.thy ===== *)
theory JsValue
  imports Prelude JsNumber
begin

text \<open>
  JavaScript values that the governance code handles without a static type (\<open>unknown\<close>): their
  truth value and the conversions \<open>String(v)\<close> and \<open>Number(v)\<close> of ECMAScript. Objects are plain
  records of data, with no methods; their members are looked up by own key. JSON texts are built as
  \<open>JSON.stringify\<close> builds them from strings.
\<close>

section \<open>Values\<close>

datatype js = Undefined | Null | Bool bool | Num jsnum | Str string | Arr "js list" | Obj "(string \<times> js) list"

fun js_truthy :: "js \<Rightarrow> bool" where
  "js_truthy Undefined = False"
| "js_truthy Null = False"
| "js_truthy (Bool b) = b"
| "js_truthy (Num x) = (case x of NaN \<Rightarrow> False | Fin r \<Rightarrow> r \<noteq> 0 | _ \<Rightarrow> True)"
| "js_truthy (Str s) = (s \<noteq> [])"
| "js_truthy (Arr _) = True"
| "js_truthy (Obj _) = True"

definition js_get :: "(string \<times> js) list \<Rightarrow> string \<Rightarrow> js" where
  "js_get fields k = (case map_of fields k of Some v \<Rightarrow> v | None \<Rightarrow> Undefined)"

section \<open>Numbers to strings\<close>

text \<open>
  \<open>Number::toString\<close>: the shortest decimal that rounds to the number, written without an exponent
  between \<open>1e-7\<close> and \<open>1e21\<close>. \<open>dec_exp r\<close> is the \<open>n\<close> with \<open>10^(n-1) \<le> r < 10^n\<close>; the search looks
  100 or 330 decades up and down, enough for a double, and 17 digits always suffice.
\<close>

definition pow10 :: "int \<Rightarrow> rat" where
  "pow10 n = (if 0 \<le> n then 10 ^ nat n else 1 / 10 ^ nat (- n))"

definition dec_exp :: "rat \<Rightarrow> int" where
  "dec_exp r = (case find (\<lambda>n. r < pow10 n) [-330..309] of Some n \<Rightarrow> n | None \<Rightarrow> 309)"

definition digits_at :: "rat \<Rightarrow> nat \<Rightarrow> int" where
  "digits_at r k = rne (r * pow10 (int k - dec_exp r))"

definition shortest_digits :: "rat \<Rightarrow> nat" where
  "shortest_digits r =
     (case find (\<lambda>k. rnd64 (of_int (digits_at r k) * pow10 (dec_exp r - int k)) = Fin r) [1..<18]
      of Some k \<Rightarrow> k | None \<Rightarrow> 17)"

definition pos_num_string :: "rat \<Rightarrow> string" where
  "pos_num_string r =
     (let k = shortest_digits r; m = digits_at r k; carry = (m = 10 ^ k);
          n = (if carry then dec_exp r + 1 else dec_exp r);
          ds = (if carry then ''1'' else nat_str (nat m)); k' = length ds
      in if int k' \<le> n \<and> n \<le> 21 then ds @ replicate (nat n - k') (CHR ''0'')
         else if 0 < n \<and> n \<le> 21 then take (nat n) ds @ ''.'' @ drop (nat n) ds
         else if -6 < n \<and> n \<le> 0 then ''0.'' @ replicate (nat (- n)) (CHR ''0'') @ ds
         else (let e = n - 1; es = (if 0 \<le> e then ''+'' else ''-'') @ nat_str (nat \<bar>e\<bar>)
               in take 1 ds @ (if k' = 1 then [] else ''.'' @ drop 1 ds) @ ''e'' @ es))"

definition num_string :: "jsnum \<Rightarrow> string" where
  "num_string x =
     (case x of NaN \<Rightarrow> ''NaN'' | Inf \<Rightarrow> ''Infinity'' | NegInf \<Rightarrow> ''-Infinity''
      | Fin r \<Rightarrow>
          if r = 0 then ''0''
          else if r < 0 then ''-'' @ pos_num_string (- r)
          else pos_num_string r)"

text \<open>\<open>Number.prototype.toFixed\<close>: the nearest multiple, the larger one of two.\<close>

definition to_fixed :: "nat \<Rightarrow> jsnum \<Rightarrow> string" where
  "to_fixed f x =
     (case x of
        Fin r \<Rightarrow>
          if 10 ^ 21 \<le> \<bar>r\<bar> then num_string x
          else (let ds = nat_str (nat \<lfloor>\<bar>r\<bar> * 10 ^ f + 1 / 2\<rfloor>); m = replicate (f + 1 - length ds) (CHR ''0'') @ ds; k = length m - f
                in (if r < 0 then ''-'' else []) @ take k m @ (if f = 0 then [] else ''.'' @ drop k m))
      | _ \<Rightarrow> num_string x)"

section \<open>Strings to numbers\<close>

definition is_digit :: "char \<Rightarrow> bool" where
  "is_digit c = (48 \<le> (of_char c :: nat) \<and> (of_char c :: nat) \<le> 57)"

definition digits_value :: "string \<Rightarrow> nat" where
  "digits_value s = foldl (\<lambda>n c. 10 * n + (of_char c - 48)) 0 s"

text \<open>An unsigned decimal literal: digits, an optional fraction and an optional exponent.\<close>

definition exponent_value :: "string \<Rightarrow> int option" where
  "exponent_value s =
     (case s of
        [] \<Rightarrow> Some 0
      | c # t \<Rightarrow>
          if to_lower [c] \<noteq> ''e'' then None
          else let (neg, ds) = (case t of [] \<Rightarrow> (False, []) | d # u \<Rightarrow>
                 if d = CHR ''-'' then (True, u) else if d = CHR ''+'' then (False, u) else (False, t))
               in if ds = [] \<or> \<not> list_all is_digit ds then None
                  else Some (if neg then - int (digits_value ds) else int (digits_value ds)))"

definition unsigned_value :: "string \<Rightarrow> rat option" where
  "unsigned_value s =
     (let ip = takeWhile is_digit s; r1 = dropWhile is_digit s;
          fp = (case r1 of d # t \<Rightarrow> if d = CHR ''.'' then takeWhile is_digit t else [] | [] \<Rightarrow> []);
          r2 = (case r1 of d # t \<Rightarrow> if d = CHR ''.'' then dropWhile is_digit t else r1 | [] \<Rightarrow> [])
      in if ip = [] \<and> fp = [] then None
         else case exponent_value r2 of
           None \<Rightarrow> None
         | Some e \<Rightarrow> Some (of_nat (digits_value (ip @ fp)) * pow10 (e - int (length fp))))"

definition radix_digit :: "char \<Rightarrow> nat option" where
  "radix_digit c =
     (let n = (of_char (lower_char c) :: nat)
      in if 48 \<le> n \<and> n \<le> 57 then Some (n - 48) else if 97 \<le> n \<and> n \<le> 102 then Some (n - 87) else None)"

fun radix_value :: "nat \<Rightarrow> string \<Rightarrow> nat \<Rightarrow> nat option" where
  "radix_value b [] acc = Some acc"
| "radix_value b (c # s) acc =
     (case radix_digit c of Some d \<Rightarrow> if d < b then radix_value b s (b * acc + d) else None | None \<Rightarrow> None)"

definition prefixed_value :: "string \<Rightarrow> rat option option" where
  "prefixed_value t =
     (let p = to_lower (take 2 t); s = drop 2 t;
          parse = (\<lambda>b. Some (if s = [] then None else map_option of_nat (radix_value b s 0)))
      in if p = ''0x'' then parse 16 else if p = ''0o'' then parse 8 else if p = ''0b'' then parse 2 else None)"

definition string_number :: "string \<Rightarrow> jsnum" where
  "string_number s =
     (let t = trim s
      in if t = [] then Fin 0
         else case prefixed_value t of
           Some (Some r) \<Rightarrow> rnd64 r
         | Some None \<Rightarrow> NaN
         | None \<Rightarrow>
             (let (neg, u) = (if hd t = CHR ''-'' then (True, tl t) else if hd t = CHR ''+'' then (False, tl t) else (False, t));
                  v = (if u = ''Infinity'' then Inf else case unsigned_value u of Some r \<Rightarrow> rnd64 r | None \<Rightarrow> NaN)
              in if neg then jneg v else v))"

text \<open>Decimal texts read back.\<close>

lemma digit_chars: "n < 10 \<Longrightarrow> is_digit (char_of (48 + n)) \<and> (of_char (char_of (48 + n) :: char) :: nat) = 48 + n"
  by (simp add: is_digit_def)

lemma nat_str_digits: "list_all is_digit (nat_str n) \<and> digits_value (nat_str n) = n"
proof (induction n rule: nat_str.induct)
  case (1 n)
  show ?case
  proof (cases "n < 10")
    case True
    then show ?thesis using digit_chars [of n] by (simp add: nat_str.simps [of n] digits_value_def)
  next
    case False
    then have "digits_value (nat_str n) = 10 * digits_value (nat_str (n div 10)) + n mod 10"
      using digit_chars [of "n mod 10"] by (simp add: nat_str.simps [of n] digits_value_def)
    then show ?thesis using False 1 digit_chars [of "n mod 10"] by (simp add: nat_str.simps [of n])
  qed
qed

lemma nat_str_continue: "0 < n \<Longrightarrow> d < 10 \<Longrightarrow> nat_str n @ [char_of (48 + d)] = nat_str (10 * n + d)"
  by (subst (2) nat_str.simps) simp

lemma digit_not_space: "is_digit c \<Longrightarrow> \<not> is_space c"
  by (auto simp: is_digit_def is_space_def)

lemma trim_id: "list_all is_digit s \<Longrightarrow> trim s = s"
proof -
  assume d: "list_all is_digit s"
  have "dropWhile is_space t = t" if "list_all is_digit t" for t
    using that by (cases t) (auto simp: digit_not_space)
  then show ?thesis using d by (simp add: trim_def trim_start_def list_all_iff)
qed

lemma string_number_nat: "string_number (nat_str n) = rnd64 (of_nat n)"
proof -
  let ?s = "nat_str n"
  have d: "list_all is_digit ?s" "digits_value ?s = n" using nat_str_digits by auto
  obtain c t where ct: "?s = c # t" using nat_str_ne [of n] by (cases ?s) blast
  have c: "is_digit c" "list_all is_digit t" using d(1) ct by auto
  have pm: "c \<noteq> CHR ''-''" "c \<noteq> CHR ''+''" "c \<noteq> CHR ''I''" using c(1) by (auto simp: is_digit_def)
  have pre: "prefixed_value ?s = None"
  proof (cases t)
    case Nil
    then show ?thesis using ct by (simp add: prefixed_value_def to_lower_def)
  next
    case (Cons e u)
    then have e: "is_digit e" using c by simp
    have "lower_char e = e" using e by (auto simp: lower_char_def is_digit_def)
    moreover have "e \<noteq> CHR ''x''" "e \<noteq> CHR ''o''" "e \<noteq> CHR ''b''" using e by (auto simp: is_digit_def)
    ultimately show ?thesis using ct Cons by (simp add: prefixed_value_def to_lower_def)
  qed
  have tw: "takeWhile is_digit ?s = ?s" "dropWhile is_digit ?s = []"
    using d(1) by (simp_all add: list_all_iff)
  have "unsigned_value ?s = Some (of_nat n)"
    using d(2) by (simp add: unsigned_value_def tw exponent_value_def pow10_def)
  then show ?thesis using pre d(1) ct pm by (simp add: string_number_def trim_id)
qed

section \<open>Conversions\<close>

fun js_string :: "js \<Rightarrow> string" and js_elem_string :: "js \<Rightarrow> string" where
  "js_string Undefined = ''undefined''"
| "js_string Null = ''null''"
| "js_string (Bool b) = (if b then ''true'' else ''false'')"
| "js_string (Num x) = num_string x"
| "js_string (Str s) = s"
| "js_string (Arr xs) = join '','' (map js_elem_string xs)"
| "js_string (Obj fs) = ''[object Object]''"
| "js_elem_string Undefined = []"
| "js_elem_string Null = []"
| "js_elem_string (Bool b) = (if b then ''true'' else ''false'')"
| "js_elem_string (Num x) = num_string x"
| "js_elem_string (Str s) = s"
| "js_elem_string (Arr xs) = join '','' (map js_elem_string xs)"
| "js_elem_string (Obj fs) = ''[object Object]''"

fun js_number :: "js \<Rightarrow> jsnum" where
  "js_number Undefined = NaN"
| "js_number Null = Fin 0"
| "js_number (Bool b) = (if b then Fin 1 else Fin 0)"
| "js_number (Num x) = x"
| "js_number (Str s) = string_number s"
| "js_number (Arr xs) = string_number (js_string (Arr xs))"
| "js_number (Obj fs) = NaN"

section \<open>JSON texts\<close>

definition hex_digit :: "nat \<Rightarrow> char" where
  "hex_digit n = (if n < 10 then char_of (48 + n) else char_of (87 + n))"

definition json_escape :: "char \<Rightarrow> string" where
  "json_escape c =
     (let n = (of_char c :: nat)
      in if n = 34 then [char_of (92 :: nat), char_of (34 :: nat)]
         else if n = 92 then [char_of (92 :: nat), char_of (92 :: nat)]
         else if n = 8 then [char_of (92 :: nat), CHR ''b'']
         else if n = 9 then [char_of (92 :: nat), CHR ''t'']
         else if n = 10 then [char_of (92 :: nat), CHR ''n'']
         else if n = 12 then [char_of (92 :: nat), CHR ''f'']
         else if n = 13 then [char_of (92 :: nat), CHR ''r'']
         else if n < 32 then [char_of (92 :: nat), CHR ''u'', CHR ''0'', CHR ''0'', hex_digit (n div 16), hex_digit (n mod 16)]
         else [c])"

definition dquote :: string where
  "dquote = [char_of (34 :: nat)]"

definition json_quote :: "string \<Rightarrow> string" where
  "json_quote s = dquote @ concat (map json_escape s) @ dquote"

definition json_object :: "(string \<times> string) list \<Rightarrow> string" where
  "json_object fields = ''{'' @ join '','' (map (\<lambda>(k, v). json_quote k @ '':'' @ json_quote v) fields) @ ''}''"

section \<open>JSON texts determine their strings\<close>

text \<open>Reading one character back from the text of its escape.\<close>

definition hex_value :: "char \<Rightarrow> nat" where
  "hex_value c = (if (of_char c :: nat) < 58 then of_char c - 48 else of_char c - 87)"

lemma hex_value_digit: "n < 16 \<Longrightarrow> hex_value (hex_digit n) = n"
  by (auto simp: hex_value_def hex_digit_def)

definition unescape :: "string \<Rightarrow> (char \<times> string) option" where
  "unescape s =
     (case s of
        [] \<Rightarrow> None
      | a # t \<Rightarrow>
          if a \<noteq> char_of (92 :: nat) then Some (a, t)
          else (case t of
            [] \<Rightarrow> None
          | b # u \<Rightarrow>
              if b = CHR ''b'' then Some (char_of (8 :: nat), u)
              else if b = CHR ''t'' then Some (char_of (9 :: nat), u)
              else if b = CHR ''n'' then Some (char_of (10 :: nat), u)
              else if b = CHR ''f'' then Some (char_of (12 :: nat), u)
              else if b = CHR ''r'' then Some (char_of (13 :: nat), u)
              else if b = CHR ''u'' then
                Some (char_of (16 * hex_value (u ! 2) + hex_value (u ! 3)), drop 4 u)
              else Some (b, u)))"

lemma char_of_neq:
  "char_of (34 :: nat) \<noteq> char_of (92 :: nat)" "char_of (34 :: nat) \<noteq> CHR ''b''" "char_of (34 :: nat) \<noteq> CHR ''t''"
  "char_of (34 :: nat) \<noteq> CHR ''n''" "char_of (34 :: nat) \<noteq> CHR ''f''" "char_of (34 :: nat) \<noteq> CHR ''r''"
  "char_of (34 :: nat) \<noteq> CHR ''u''" "char_of (92 :: nat) \<noteq> CHR ''b''" "char_of (92 :: nat) \<noteq> CHR ''t''"
  "char_of (92 :: nat) \<noteq> CHR ''n''" "char_of (92 :: nat) \<noteq> CHR ''f''" "char_of (92 :: nat) \<noteq> CHR ''r''"
  "char_of (92 :: nat) \<noteq> CHR ''u''" "char_of (92 :: nat) \<noteq> char_of (34 :: nat)"
  by (simp_all add: char_of_def bit_Suc_0_iff)

lemma unescape_escape: "unescape (json_escape c @ x) = Some (c, x)"
proof -
  define n where "n = (of_char c :: nat)"
  have c: "c = char_of n" and n: "(of_char c :: nat) = n" "n < 256" by (simp_all add: n_def)
  consider "n = 34" | "n = 92" | "n = 8" | "n = 9" | "n = 10" | "n = 12" | "n = 13"
    | "n < 32 \<and> n \<notin> {8, 9, 10, 12, 13}" | "32 \<le> n \<and> n \<noteq> 34 \<and> n \<noteq> 92" by fastforce
  then show ?thesis
  proof cases
    case 8
    then have "hex_value (hex_digit (n div 16)) = n div 16" "hex_value (hex_digit (n mod 16)) = n mod 16"
      by (simp_all add: hex_value_digit less_mult_imp_div_less)
    moreover have "char_of (16 * (n div 16) + n mod 16) = c" by (simp add: c)
    ultimately show ?thesis using 8 n by (simp add: json_escape_def Let_def unescape_def)
  next
    case 9
    then have "c \<noteq> char_of (92 :: nat)" using n by auto
    then show ?thesis using 9 n by (simp add: json_escape_def Let_def unescape_def)
  qed (use n c in \<open>simp_all add: json_escape_def unescape_def char_of_neq\<close>)
qed

lemma escape_head: "hd (json_escape c @ x) \<noteq> char_of (34 :: nat) \<and> json_escape c \<noteq> []"
  by (auto simp: json_escape_def Let_def char_of_neq)

lemma json_quote_inj: "json_quote s @ x = json_quote t @ y \<Longrightarrow> s = t \<and> x = y"
proof -
  have body: "concat (map json_escape s) @ dquote @ x = concat (map json_escape t) @ dquote @ y \<Longrightarrow> s = t \<and> x = y" for s t
  proof (induction s arbitrary: t)
    case Nil
    show ?case
    proof (cases t)
      case Nil
      then show ?thesis using Nil.prems by (simp add: dquote_def)
    next
      case (Cons d t')
      then have "hd (json_escape d @ concat (map json_escape t') @ dquote @ y) = char_of (34 :: nat)"
        using Nil.prems by (simp add: dquote_def) (metis list.sel(1))
      then show ?thesis using escape_head by blast
    qed
  next
    case (Cons c s)
    show ?case
    proof (cases t)
      case Nil
      then have "hd (json_escape c @ concat (map json_escape s) @ dquote @ x) = char_of (34 :: nat)"
        using Cons.prems by (simp add: dquote_def)
      then show ?thesis using escape_head by blast
    next
      case t: (Cons d t')
      have "unescape (json_escape c @ concat (map json_escape s) @ dquote @ x) =
          unescape (json_escape d @ concat (map json_escape t') @ dquote @ y)"
        using Cons.prems t by simp
      then have "c = d \<and> concat (map json_escape s) @ dquote @ x = concat (map json_escape t') @ dquote @ y"
        unfolding unescape_escape by simp
      then show ?thesis using Cons.IH [of t'] t by blast
    qed
  qed
  assume "json_quote s @ x = json_quote t @ y"
  then show ?thesis using body [of s t] by (simp add: json_quote_def dquote_def)
qed

lemma json_field_inj:
  "json_quote k @ '':'' @ json_quote v @ x = json_quote l @ '':'' @ json_quote w @ y \<Longrightarrow> k = l \<and> v = w \<and> x = y"
  using json_quote_inj [of k _ l] json_quote_inj [of v x w y] by fastforce

lemma json_fields_inj:
  "length fs = length gs \<Longrightarrow>
   join '','' (map (\<lambda>(k, v). json_quote k @ '':'' @ json_quote v) fs) @ x =
     join '','' (map (\<lambda>(k, v). json_quote k @ '':'' @ json_quote v) gs) @ y \<Longrightarrow> fs = gs"
proof (induction fs arbitrary: gs)
  case (Cons f fs)
  note prems = Cons.prems and IH = Cons.IH
  obtain g gs' where gs: "gs = g # gs'" "length fs = length gs'" using Cons.prems(1) by (cases gs) auto
  obtain k v where f: "f = (k, v)" by (rule prod.exhaust)
  obtain l w where g: "g = (l, w)" by (rule prod.exhaust)
  show ?case
  proof (cases fs)
    case Nil
    then show ?thesis using prems gs f g json_field_inj [of k v x l w y] by simp
  next
    case (Cons f' fs')
    then obtain g' gs'' where gs': "gs' = g' # gs''" using gs(2) by (cases gs') auto
    let ?j = "\<lambda>hs. join '','' (map (\<lambda>(k, v). json_quote k @ '':'' @ json_quote v) hs)"
    have "json_quote k @ '':'' @ json_quote v @ '','' @ ?j fs @ x = json_quote l @ '':'' @ json_quote w @ '','' @ ?j gs' @ y"
      using prems(2) f g gs Cons gs' by simp
    from json_field_inj [OF this] have "k = l" "v = w" "?j fs @ x = ?j gs' @ y" by simp_all
    then show ?thesis using IH [OF gs(2)] f g gs by simp
  qed
qed simp

lemma json_object_inj: "length fs = length gs \<Longrightarrow> json_object fs = json_object gs \<Longrightarrow> fs = gs"
  using json_fields_inj [of fs gs "''}''" "''}''"] by (simp add: json_object_def)

end
