(* ===== verification/DslPolicy.thy ===== *)
theory DslPolicy
  imports JsValue
begin

text \<open>
  The policy language of \<open>core/governance/governance-policy-engine.ts\<close>: rules stored as JSON, their
  evaluation against a request, the choice of the first matching policy and the cache through which
  the engine reads them. The regular expression engine is the argument \<open>rx\<close>: \<open>rx pattern subject\<close> is
  the result of a case-insensitive test, or \<^const>\<open>None\<close> when the pattern does not compile. The database
  is outside: the loader's answer is an argument.
\<close>

section \<open>Types\<close>

datatype escalation = REQUIRE_APPROVAL | BLOCK | SHADOW_BLOCK | WARN | Other_escalation string

datatype dsl_operator = Op_eq | Op_neq | Op_in | Op_not_in | Op_gte | Op_lte | Op_contains | Op_matches | Op_in_window
  | Op_other string

datatype rule_type = AND | OR | NOT | CONDITION | Other_type string

datatype dsl_rule = Dsl_rule
  (dr_type: rule_type)
  (dr_field: "string option")
  (dr_operator: "dsl_operator option")
  (dr_value: js)
  (dr_children: "dsl_rule list option")
  (dr_escalate_to: "escalation option")
  (dr_ttl_seconds: "jsnum option")
  (dr_required_approvals: "jsnum option")

record governance_policy =
  gp_id :: string
  gp_name :: string
  gp_description :: "string option"
  gp_rule :: dsl_rule
  gp_priority :: int
  gp_environment :: string
  gp_is_active :: bool
  gp_created_by :: string
  gp_created_at :: string
  gp_updated_at :: string
  gp_version :: int

record dsl_context =
  dc_risk_level :: string
  dc_actor_id :: string
  dc_actor_type :: string
  dc_action :: string
  dc_resource :: string
  dc_tenant_id :: string
  dc_metadata :: "(string \<times> js) list option"

record dsl_result =
  ds_matched :: bool
  ds_policy_id :: "string option"
  ds_policy_name :: "string option"
  ds_escalation :: "escalation option"
  ds_ttl_seconds :: "jsnum option"
  ds_required_approvals :: "jsnum option"
  ds_reason :: "string option"

datatype dsl_error = Type_error

type_synonym regex = "string \<Rightarrow> string \<Rightarrow> bool option"

section \<open>Conditions\<close>

definition DAY_NAMES :: "string list" where
  "DAY_NAMES = [''SUN'', ''MON'', ''TUE'', ''WED'', ''THU'', ''FRI'', ''SAT'']"

definition utc_day :: "int \<Rightarrow> nat" where
  "utc_day now = nat ((now div 86400000 + 4) mod 7)"

definition utc_hours :: "int \<Rightarrow> int" where
  "utc_hours now = (now div 3600000) mod 24"

definition resolveField :: "string \<Rightarrow> dsl_context \<Rightarrow> js" where
  "resolveField field ctx =
     (if field = ''risk_level'' then Str (dc_risk_level ctx)
      else if field = ''actor_id'' then Str (dc_actor_id ctx)
      else if field = ''actor_type'' then Str (dc_actor_type ctx)
      else if field = ''action'' then Str (dc_action ctx)
      else if field = ''resource'' then Str (dc_resource ctx)
      else if field = ''tenant_id'' then Str (dc_tenant_id ctx)
      else case dc_metadata ctx of
        None \<Rightarrow> Undefined
      | Some md \<Rightarrow> if prefix ''metadata.'' field then js_get md (drop 9 field) else Undefined)"

text \<open>
  The window is data of any shape: \<open>days.includes\<close> works on an array and on a string, the
  destructuring of \<open>hours_utc\<close> on an array and on the characters of a string; anything else throws.
\<close>

definition js_includes :: "js \<Rightarrow> string \<Rightarrow> dsl_error + bool" where
  "js_includes v s = (case v of Arr xs \<Rightarrow> Inr (Str s \<in> set xs) | Str t \<Rightarrow> Inr (str_includes t s) | _ \<Rightarrow> Inl Type_error)"

definition js_pair :: "js \<Rightarrow> dsl_error + js \<times> js" where
  "js_pair v =
     (let pick = (\<lambda>xs i. if i < length xs then xs ! i else Undefined)
      in case v of
           Arr xs \<Rightarrow> Inr (pick xs 0, pick xs 1)
         | Str t \<Rightarrow> Inr (pick (map (\<lambda>c. Str [c]) t) 0, pick (map (\<lambda>c. Str [c]) t) 1)
         | _ \<Rightarrow> Inl Type_error)"

definition isInTimeWindow :: "js \<Rightarrow> int \<Rightarrow> dsl_error + bool" where
  "isInTimeWindow window now =
     (let member = (\<lambda>k. case window of Obj fs \<Rightarrow> js_get fs k | _ \<Rightarrow> Undefined)
      in case js_includes (member ''days'') (DAY_NAMES ! utc_day now) of
           Inl e \<Rightarrow> Inl e
         | Inr False \<Rightarrow> Inr False
         | Inr True \<Rightarrow>
             (case js_pair (member ''hours_utc'') of
                Inl e \<Rightarrow> Inl e
              | Inr (start, end') \<Rightarrow>
                  (let hour = Fin (of_int (utc_hours now))
                   in Inr (jle (js_number start) hour \<and> jlt hour (js_number end')))))"

definition is_object :: "js \<Rightarrow> bool" where
  "is_object v = (case v of Arr _ \<Rightarrow> True | Obj _ \<Rightarrow> True | _ \<Rightarrow> False)"

definition lower_string :: "js \<Rightarrow> string" where
  "lower_string v = to_lower (js_string v)"

definition member_of :: "js \<Rightarrow> js \<Rightarrow> bool" where
  "member_of value v = (lower_string v \<in> set (map lower_string (case value of Arr xs \<Rightarrow> xs | _ \<Rightarrow> [value])))"

definition evaluateCondition ::
  "regex \<Rightarrow> string option \<Rightarrow> dsl_operator option \<Rightarrow> js \<Rightarrow> dsl_context \<Rightarrow> int \<Rightarrow> dsl_error + bool" where
  "evaluateCondition rx fld op value ctx now =
     (case (fld, op) of
        (Some field, Some operator) \<Rightarrow>
          if field = [] then Inr False
          else if field = ''_time'' then
            (if operator = Op_in_window \<and> is_object value then isInTimeWindow value now else Inr False)
          else
            (let v = resolveField field ctx
             in case operator of
                  Op_eq \<Rightarrow> Inr (lower_string v = lower_string value)
                | Op_neq \<Rightarrow> Inr (lower_string v \<noteq> lower_string value)
                | Op_in \<Rightarrow> Inr (member_of value v)
                | Op_not_in \<Rightarrow> Inr (\<not> member_of value v)
                | Op_gte \<Rightarrow> Inr (jle (js_number value) (js_number v))
                | Op_lte \<Rightarrow> Inr (jle (js_number v) (js_number value))
                | Op_contains \<Rightarrow> Inr (str_includes (lower_string v) (lower_string value))
                | Op_matches \<Rightarrow> Inr (case rx (js_string value) (js_string v) of Some b \<Rightarrow> b | None \<Rightarrow> False)
                | Op_in_window \<Rightarrow> Inr False
                | Op_other _ \<Rightarrow> Inr False)
      | _ \<Rightarrow> Inr False)"

section \<open>Rules\<close>

text \<open>
  \<open>every\<close> and \<open>some\<close> stop at the first child that decides, so a later child that would throw is not
  evaluated; NOT looks at its first child only.
\<close>

fun evaluateRule :: "regex \<Rightarrow> dsl_context \<Rightarrow> int \<Rightarrow> dsl_rule \<Rightarrow> dsl_error + bool"
and every_rule :: "regex \<Rightarrow> dsl_context \<Rightarrow> int \<Rightarrow> dsl_rule list \<Rightarrow> dsl_error + bool"
and some_rule :: "regex \<Rightarrow> dsl_context \<Rightarrow> int \<Rightarrow> dsl_rule list \<Rightarrow> dsl_error + bool" where
  "evaluateRule rx ctx now (Dsl_rule AND f p v (Some cs) e t q) = every_rule rx ctx now cs"
| "evaluateRule rx ctx now (Dsl_rule AND f p v None e t q) = Inr True"
| "evaluateRule rx ctx now (Dsl_rule OR f p v (Some cs) e t q) = some_rule rx ctx now cs"
| "evaluateRule rx ctx now (Dsl_rule OR f p v None e t q) = Inr False"
| "evaluateRule rx ctx now (Dsl_rule NOT f p v (Some (c # cs)) e t q) =
     (case evaluateRule rx ctx now c of Inl err \<Rightarrow> Inl err | Inr b \<Rightarrow> Inr (\<not> b))"
| "evaluateRule rx ctx now (Dsl_rule NOT f p v (Some []) e t q) = Inr False"
| "evaluateRule rx ctx now (Dsl_rule NOT f p v None e t q) = Inr False"
| "evaluateRule rx ctx now (Dsl_rule CONDITION f p v cs e t q) = evaluateCondition rx f p v ctx now"
| "evaluateRule rx ctx now (Dsl_rule (Other_type s) f p v cs e t q) = Inr False"
| "every_rule rx ctx now [] = Inr True"
| "every_rule rx ctx now (r # rs) =
     (case evaluateRule rx ctx now r of
        Inl err \<Rightarrow> Inl err
      | Inr b \<Rightarrow> if b then every_rule rx ctx now rs else Inr False)"
| "some_rule rx ctx now [] = Inr False"
| "some_rule rx ctx now (r # rs) =
     (case evaluateRule rx ctx now r of
        Inl err \<Rightarrow> Inl err
      | Inr b \<Rightarrow> if b then Inr True else some_rule rx ctx now rs)"

section \<open>Policies\<close>

definition not_matched :: dsl_result where
  "not_matched = \<lparr>ds_matched = False, ds_policy_id = None, ds_policy_name = None, ds_escalation = None,
     ds_ttl_seconds = None, ds_required_approvals = None, ds_reason = None\<rparr>"

definition evaluatePolicy :: "regex \<Rightarrow> governance_policy \<Rightarrow> dsl_context \<Rightarrow> int \<Rightarrow> dsl_error + dsl_result" where
  "evaluatePolicy rx policy ctx now =
     (case evaluateRule rx ctx now (gp_rule policy) of
        Inl err \<Rightarrow> Inl err
      | Inr matched \<Rightarrow>
          if \<not> matched then Inr not_matched
          else Inr \<lparr>ds_matched = True, ds_policy_id = Some (gp_id policy), ds_policy_name = Some (gp_name policy),
            ds_escalation = dr_escalate_to (gp_rule policy), ds_ttl_seconds = dr_ttl_seconds (gp_rule policy),
            ds_required_approvals = dr_required_approvals (gp_rule policy),
            ds_reason = Some (case gp_description policy of Some d \<Rightarrow> d | None \<Rightarrow> gp_name policy)\<rparr>)"

fun evaluateAllPolicies ::
  "regex \<Rightarrow> governance_policy list \<Rightarrow> dsl_context \<Rightarrow> int \<Rightarrow> dsl_error + dsl_result" where
  "evaluateAllPolicies rx [] ctx now = Inr not_matched"
| "evaluateAllPolicies rx (p # ps) ctx now =
     (case evaluatePolicy rx p ctx now of
        Inl err \<Rightarrow> Inl err
      | Inr result \<Rightarrow> if ds_matched result then Inr result else evaluateAllPolicies rx ps ctx now)"

section \<open>Cache\<close>

record dsl_cache =
  dk_cache :: "(governance_policy list \<times> int) option"
  dk_failures :: nat
  dk_successes :: nat

definition CACHE_TTL_MS :: int where
  "CACHE_TTL_MS = 10000"

definition isCacheValid :: "int \<Rightarrow> dsl_cache \<Rightarrow> bool" where
  "isCacheValid now st = (case dk_cache st of None \<Rightarrow> False | Some (ps, loaded_at) \<Rightarrow> now - loaded_at < CACHE_TTL_MS)"

definition cached_policies :: "dsl_cache \<Rightarrow> governance_policy list" where
  "cached_policies st = (case dk_cache st of Some (ps, _) \<Rightarrow> ps | None \<Rightarrow> [])"

definition getActivePoliciesSync :: "int \<Rightarrow> dsl_cache \<Rightarrow> governance_policy list" where
  "getActivePoliciesSync now st = (if isCacheValid now st then cached_policies st else [])"

definition clearPolicyCache :: "dsl_cache \<Rightarrow> dsl_cache" where
  "clearPolicyCache st = \<lparr>dk_cache = None, dk_failures = 0, dk_successes = 0\<rparr>"

text \<open>
  The loader: \<open>db env\<close> is the answer of the query for the environment, \<^const>\<open>None\<close> when it fails. A
  failure loads no policies, and the empty list is cached like any other answer.
\<close>

definition loadPoliciesFromDB ::
  "(string \<Rightarrow> governance_policy list option) \<Rightarrow> string \<Rightarrow> dsl_cache \<Rightarrow> dsl_cache \<times> governance_policy list" where
  "loadPoliciesFromDB db environment st =
     (case db environment of
        Some rows \<Rightarrow> (st\<lparr>dk_successes := dk_successes st + 1\<rparr>, rows)
      | None \<Rightarrow> (st\<lparr>dk_failures := dk_failures st + 1\<rparr>, []))"

definition getActivePolicies ::
  "(string \<Rightarrow> governance_policy list option) \<Rightarrow> string \<Rightarrow> int \<Rightarrow> dsl_cache \<Rightarrow> dsl_cache \<times> governance_policy list" where
  "getActivePolicies db environment now st =
     (if isCacheValid now st then (st, cached_policies st)
      else let (st', policies) = loadPoliciesFromDB db environment st
           in (st'\<lparr>dk_cache := Some (policies, now)\<rparr>, policies))"

text \<open>
  The writes of the policy routes drop the cache when their statement succeeded; an update that finds
  no row leaves it. The row, or the failure of the statement, is the database's answer.
\<close>

definition createPolicy :: "governance_policy option \<Rightarrow> dsl_cache \<Rightarrow> dsl_cache \<times> governance_policy option" where
  "createPolicy row st = (case row of Some p \<Rightarrow> (st\<lparr>dk_cache := None\<rparr>, Some p) | None \<Rightarrow> (st, None))"

definition updatePolicy :: "governance_policy option \<Rightarrow> dsl_cache \<Rightarrow> dsl_cache \<times> governance_policy option" where
  "updatePolicy row st = (case row of Some p \<Rightarrow> (st\<lparr>dk_cache := None\<rparr>, Some p) | None \<Rightarrow> (st, None))"

definition deletePolicy :: "nat \<Rightarrow> dsl_cache \<Rightarrow> dsl_cache \<times> bool" where
  "deletePolicy rows st = (st\<lparr>dk_cache := None\<rparr>, 0 < rows)"

section \<open>Boolean semantics\<close>





section \<open>Properties\<close>


definition leaf :: "string \<Rightarrow> dsl_operator \<Rightarrow> js \<Rightarrow> dsl_rule" where
  "leaf f p v = Dsl_rule CONDITION (Some f) (Some p) v None None None None"

definition office_hours :: js where
  "office_hours = Obj [(''days'', Arr [Str ''THU'', Str ''FRI'']), (''hours_utc'', Arr [Num (Fin 9), Num (Fin 17)])]"

definition freeze_rule :: dsl_rule where
  "freeze_rule = Dsl_rule AND None None Undefined
     (Some [leaf ''risk_level'' Op_in (Arr [Str ''HIGH'', Str ''CRITICAL'']),
            Dsl_rule NOT None None Undefined (Some [leaf ''_time'' Op_in_window office_hours]) None None None])
     (Some BLOCK) None None"

definition sample_context :: dsl_context where
  "sample_context = \<lparr>dc_risk_level = ''high'', dc_actor_id = ''alice'', dc_actor_type = ''human'', dc_action = ''SAVE'',
     dc_resource = ''main'', dc_tenant_id = ''SYSTEM'', dc_metadata = None\<rparr>"

lemma freeze_conditions:
  "evaluateCondition rx (Some ''_time'') (Some Op_in_window) office_hours ctx 0 = Inr False"
  "evaluateCondition rx (Some ''risk_level'') (Some Op_in) (Arr [Str ''HIGH'', Str ''CRITICAL'']) sample_context now = Inr True"
  by (simp_all add: evaluateCondition_def is_object_def office_hours_def isInTimeWindow_def js_get_def js_includes_def
      DAY_NAMES_def utc_day_def utc_hours_def js_pair_def Let_def resolveField_def sample_context_def member_of_def
      lower_string_def to_lower_def lower_char_def char_of_def bit_Suc_0_iff)


lemma evaluatePolicy_Inr:
  "evaluatePolicy rx p ctx now = Inr r \<Longrightarrow>
     (\<exists>b. evaluateRule rx ctx now (gp_rule p) = Inr b \<and> ds_matched r = b) \<and>
     (if ds_matched r then ds_policy_id r = Some (gp_id p) \<and> ds_escalation r = dr_escalate_to (gp_rule p)
      else r = not_matched)"
  by (cases "evaluateRule rx ctx now (gp_rule p)") (auto simp: evaluatePolicy_def not_matched_def split: if_splits)

lemma evaluateAll_Inr:
  "evaluateAllPolicies rx ps ctx now = Inr r \<Longrightarrow>
     (\<exists>xs p ys. ps = xs @ p # ys \<and> (\<forall>x\<in>set xs. evaluateRule rx ctx now (gp_rule x) = Inr False) \<and>
        evaluateRule rx ctx now (gp_rule p) = Inr True \<and> ds_matched r \<and> ds_policy_id r = Some (gp_id p) \<and>
        ds_escalation r = dr_escalate_to (gp_rule p)) \<or>
     r = not_matched \<and> (\<forall>x\<in>set ps. evaluateRule rx ctx now (gp_rule x) = Inr False)"
proof (induction ps)
  case (Cons p ps)
  then obtain q where q: "evaluatePolicy rx p ctx now = Inr q" by (auto split: sum.splits)
  note pol = evaluatePolicy_Inr [OF q]
  show ?case
  proof (cases "ds_matched q")
    case True
    then have "r = q" using Cons.prems q by simp
    moreover have "evaluateRule rx ctx now (gp_rule p) = Inr True" using pol True by auto
    ultimately have "p # ps = [] @ p # ps \<and> (\<forall>x\<in>set []. evaluateRule rx ctx now (gp_rule x) = Inr False) \<and>
        evaluateRule rx ctx now (gp_rule p) = Inr True \<and> ds_matched r \<and> ds_policy_id r = Some (gp_id p) \<and>
        ds_escalation r = dr_escalate_to (gp_rule p)" using pol True by simp
    then show ?thesis by blast
  next
    case False
    then have "evaluateAllPolicies rx ps ctx now = Inr r" using Cons.prems q by simp
    moreover have f: "evaluateRule rx ctx now (gp_rule p) = Inr False" using pol False by auto
    ultimately consider xs p' ys where "ps = xs @ p' # ys" "\<forall>x\<in>set xs. evaluateRule rx ctx now (gp_rule x) = Inr False"
        "evaluateRule rx ctx now (gp_rule p') = Inr True" "ds_matched r" "ds_policy_id r = Some (gp_id p')"
        "ds_escalation r = dr_escalate_to (gp_rule p')"
      | "r = not_matched" "\<forall>x\<in>set ps. evaluateRule rx ctx now (gp_rule x) = Inr False"
      using Cons.IH by blast
    then show ?thesis
    proof cases
      case 1
      have "p # ps = (p # xs) @ p' # ys" using 1 by simp
      moreover have "\<forall>x\<in>set (p # xs). evaluateRule rx ctx now (gp_rule x) = Inr False" using 1 f by simp
      ultimately show ?thesis using 1 by blast
    qed (use f in simp)
  qed
qed simp

text \<open>
  First match wins: a result of the policy list is that of the first policy whose rule holds,
  with its id and escalation, every earlier rule being false, and there is no match exactly when all
  rules are false. An error of a rule that is reached is the result of the list, whatever follows.
\<close>

theorem dsl_first_match:
  "(case evaluateAllPolicies rx ps ctx now of
      Inl err \<Rightarrow> \<exists>p\<in>set ps. evaluateRule rx ctx now (gp_rule p) = Inl err
    | Inr r \<Rightarrow>
        if ds_matched r
        then \<exists>xs p ys. ps = xs @ p # ys \<and> (\<forall>x\<in>set xs. evaluateRule rx ctx now (gp_rule x) = Inr False) \<and>
          evaluateRule rx ctx now (gp_rule p) = Inr True \<and> ds_policy_id r = Some (gp_id p) \<and>
          ds_escalation r = dr_escalate_to (gp_rule p)
        else \<forall>x\<in>set ps. evaluateRule rx ctx now (gp_rule x) = Inr False)"
proof (cases "evaluateAllPolicies rx ps ctx now")
  case (Inr r)
  show ?thesis
  proof (cases "ds_matched r")
    case True
    then have "r \<noteq> not_matched" by (auto simp: not_matched_def)
    then obtain xs p ys where "ps = xs @ p # ys" "\<forall>x\<in>set xs. evaluateRule rx ctx now (gp_rule x) = Inr False"
      "evaluateRule rx ctx now (gp_rule p) = Inr True" "ds_policy_id r = Some (gp_id p)"
      "ds_escalation r = dr_escalate_to (gp_rule p)" using evaluateAll_Inr [OF Inr] by blast
    then have "\<exists>xs p ys. ps = xs @ p # ys \<and> (\<forall>x\<in>set xs. evaluateRule rx ctx now (gp_rule x) = Inr False) \<and>
          evaluateRule rx ctx now (gp_rule p) = Inr True \<and> ds_policy_id r = Some (gp_id p) \<and>
          ds_escalation r = dr_escalate_to (gp_rule p)" by blast
    then show ?thesis using Inr True by simp
  next
    case False
    then have "\<forall>x\<in>set ps. evaluateRule rx ctx now (gp_rule x) = Inr False" using evaluateAll_Inr [OF Inr] by blast
    then show ?thesis using Inr False by simp
  qed
next
  case (Inl err)
  then have "\<exists>p\<in>set ps. evaluateRule rx ctx now (gp_rule p) = Inl err"
  proof (induction ps)
    case (Cons p ps)
    show ?case
    proof (cases "evaluateRule rx ctx now (gp_rule p)")
      case (Inl e)
      then show ?thesis using Cons.prems by (auto simp: evaluatePolicy_def)
    next
      case (Inr b)
      then have "\<not> b" "evaluateAllPolicies rx ps ctx now = Inl err"
        using Cons.prems by (auto simp: evaluatePolicy_def not_matched_def split: if_splits)
      then show ?thesis using Cons.IH by auto
    qed
  qed simp
  then show ?thesis using Inl by simp
qed

definition sample_policy :: "string \<Rightarrow> dsl_rule \<Rightarrow> governance_policy" where
  "sample_policy i r = \<lparr>gp_id = i, gp_name = i, gp_description = None, gp_rule = r, gp_priority = 1,
     gp_environment = ''both'', gp_is_active = True, gp_created_by = ''ops'', gp_created_at = ''now'', gp_updated_at = ''now'',
     gp_version = 1\<rparr>"

definition never :: dsl_rule where
  "never = Dsl_rule NOT None None Undefined None (Some WARN) None None"

theorem dsl_first_match_witness:
  "\<exists>r. evaluateAllPolicies (\<lambda>_ _. None) [sample_policy ''a'' never, sample_policy ''b'' freeze_rule] sample_context 0 = Inr r \<and>
     ds_policy_id r = Some ''b'' \<and> ds_escalation r = Some BLOCK"
proof -
  let ?ps = "[sample_policy ''a'' never, sample_policy ''b'' freeze_rule]"
  have rules: "evaluateRule (\<lambda>_ _. None) sample_context 0 never = Inr False" 
    "evaluateRule (\<lambda>_ _. None) sample_context 0 freeze_rule = Inr True"
    by (simp_all add: never_def freeze_rule_def leaf_def freeze_conditions)
  then obtain r where r: "evaluateAllPolicies (\<lambda>_ _. None) ?ps sample_context 0 = Inr r" "ds_matched r"
    by (simp add: evaluatePolicy_def sample_policy_def not_matched_def)
  then obtain xs p ys where "?ps = xs @ p # ys" "\<forall>x\<in>set xs. evaluateRule (\<lambda>_ _. None) sample_context 0 (gp_rule x) = Inr False"
    "evaluateRule (\<lambda>_ _. None) sample_context 0 (gp_rule p) = Inr True" "ds_policy_id r = Some (gp_id p)"
    "ds_escalation r = dr_escalate_to (gp_rule p)"
    using dsl_first_match [where rx = "\<lambda>_ _. None" and ps = ?ps and ctx = sample_context and now = 0] by auto
  moreover from this have "p = sample_policy ''b'' freeze_rule"
    using rules by (cases xs) (auto simp: sample_policy_def Cons_eq_append_conv)
  ultimately show ?thesis using r by (simp add: sample_policy_def freeze_rule_def)
qed

text \<open>
  The policy cache: what the synchronous read returns was loaded less than ten seconds before;
  ten seconds after the last load it returns no policy at all. A failed load counts as a failure and
  is then cached as an empty policy set, so for ten seconds no load is tried and no policy applies.
\<close>

theorem policy_cache_contract:
  "(\<not> isCacheValid now st \<longrightarrow> getActivePoliciesSync now st = [] \<and>
      (let (st', ps) = getActivePolicies db env now st
       in ps = (case db env of Some rows \<Rightarrow> rows | None \<Rightarrow> []) \<and>
          dk_failures st' = dk_failures st + (if db env = None then 1 else 0) \<and>
          (\<forall>t. now \<le> t \<and> t < now + 10000 \<longrightarrow> getActivePoliciesSync t st' = ps \<and> getActivePolicies db' env' t st' = (st', ps)) \<and>
          (\<forall>t. now + 10000 \<le> t \<longrightarrow> getActivePoliciesSync t st' = []))) \<and>
   (getActivePoliciesSync now st \<noteq> [] \<longrightarrow>
      (\<exists>loaded_at. dk_cache st = Some (getActivePoliciesSync now st, loaded_at) \<and> now < loaded_at + 10000))"
proof (intro conjI impI)
  assume inv: "\<not> isCacheValid now st"
  then show "getActivePoliciesSync now st = []" by (simp add: getActivePoliciesSync_def)
  show "let (st', ps) = getActivePolicies db env now st
       in ps = (case db env of Some rows \<Rightarrow> rows | None \<Rightarrow> []) \<and>
          dk_failures st' = dk_failures st + (if db env = None then 1 else 0) \<and>
          (\<forall>t. now \<le> t \<and> t < now + 10000 \<longrightarrow> getActivePoliciesSync t st' = ps \<and> getActivePolicies db' env' t st' = (st', ps)) \<and>
          (\<forall>t. now + 10000 \<le> t \<longrightarrow> getActivePoliciesSync t st' = [])"
    using inv by (cases "db env")
      (simp_all add: getActivePolicies_def loadPoliciesFromDB_def getActivePoliciesSync_def isCacheValid_def
        cached_policies_def CACHE_TTL_MS_def)
next
  assume "getActivePoliciesSync now st \<noteq> []"
  then show "\<exists>loaded_at. dk_cache st = Some (getActivePoliciesSync now st, loaded_at) \<and> now < loaded_at + 10000"
    by (auto simp: getActivePoliciesSync_def isCacheValid_def cached_policies_def CACHE_TTL_MS_def
        split: if_splits option.splits)
qed

definition cold_cache :: dsl_cache where
  "cold_cache = \<lparr>dk_cache = None, dk_failures = 0, dk_successes = 0\<rparr>"

theorem policy_cache_contract_witness:
  "getActivePoliciesSync 9999 (fst (getActivePolicies (\<lambda>_. None) ''sandbox'' 0 cold_cache)) = [] \<and>
   snd (getActivePolicies (\<lambda>_. Some [sample_policy ''p'' freeze_rule]) ''sandbox'' 9999
     (fst (getActivePolicies (\<lambda>_. None) ''sandbox'' 0 cold_cache))) = []"
proof -
  have c: "\<not> isCacheValid 0 cold_cache" by (simp add: isCacheValid_def cold_cache_def)
  obtain st' ps where g: "getActivePolicies (\<lambda>_. None) ''sandbox'' 0 cold_cache = (st', ps)" by (rule prod.exhaust)
  note contract = policy_cache_contract [where now = 0 and st = cold_cache and db = "\<lambda>_. None" and env = "''sandbox''"
      and db' = "\<lambda>_. Some [sample_policy ''p'' freeze_rule]" and env' = "''sandbox''",
      THEN conjunct1, THEN mp, OF c, THEN conjunct2, unfolded g Let_def prod.case]
  then have "ps = []" "getActivePoliciesSync 9999 st' = ps"
    "getActivePolicies (\<lambda>_. Some [sample_policy ''p'' freeze_rule]) ''sandbox'' 9999 st' = (st', ps)" by simp_all
  then show ?thesis by (simp add: g)
qed

end
