(* ===== verification/Metrics.thy ===== *)
theory Metrics
  imports Prelude JsNumber DecisionModel "HOL-Library.List_Lexorder" "HOL-Library.Char_ord" "HOL-Library.Multiset"
begin

text \<open>
  The governance metrics of \<open>core/governance/governance-metrics.ts\<close> and the health check of
  \<open>governance-integrity.ts\<close> that reads them. Counters and latency samples are kept under a key built
  from a name and its tags; latencies are whole milliseconds. Strings are compared as JavaScript's
  default sort does, by code units.
\<close>

section \<open>Keys\<close>

type_synonym tags = "(string \<times> string option) list"

definition defined_tags :: "tags \<Rightarrow> (string \<times> string) list" where
  "defined_tags tags = concat (map (\<lambda>(k, v). case v of Some x \<Rightarrow> [(k, x)] | None \<Rightarrow> []) tags)"

definition sort_tags :: "(string \<times> string) list \<Rightarrow> (string \<times> string) list" where
  "sort_tags kvs = sort_key (\<lambda>(k, v). k @ '','' @ v) kvs"

definition tag_string :: "(string \<times> string) list \<Rightarrow> string" where
  "tag_string kvs = join '','' (map (\<lambda>(k, v). k @ ''='' @ v) kvs)"

definition buildKey :: "string \<Rightarrow> tags option \<Rightarrow> string" where
  "buildKey name tags =
     (case tags of
        None \<Rightarrow> name
      | Some ts \<Rightarrow> if ts = [] then name else name @ ''|'' @ tag_string (sort_tags (defined_tags ts)))"

definition parse_pair :: "string \<Rightarrow> (string, string option) jmap \<Rightarrow> (string, string option) jmap" where
  "parse_pair pair m =
     (let parts = split_on (CHR ''='') pair
      in jm_set (hd parts) (case tl parts of v # _ \<Rightarrow> Some v | [] \<Rightarrow> None) m)"

definition parseTagsFromKey :: "string \<Rightarrow> tags" where
  "parseTagsFromKey key =
     (case tl (split_on (CHR ''|'') key) of
        [] \<Rightarrow> []
      | tagStr # _ \<Rightarrow> if tagStr = [] then [] else foldl (\<lambda>m p. parse_pair p m) [] (split_on (CHR '','') tagStr))"

section \<open>Counters and latencies\<close>

record metrics =
  mt_counters :: "(string, nat) jmap"
  mt_histograms :: "(string, int list) jmap"

definition no_metrics :: metrics where
  "no_metrics = \<lparr>mt_counters = [], mt_histograms = []\<rparr>"

definition getCounter :: "string \<Rightarrow> tags option \<Rightarrow> metrics \<Rightarrow> nat" where
  "getCounter name tags m = (case jm_get (mt_counters m) (buildKey name tags) of Some n \<Rightarrow> n | None \<Rightarrow> 0)"

definition increment :: "string \<Rightarrow> tags option \<Rightarrow> metrics \<Rightarrow> metrics" where
  "increment name tags m =
     m\<lparr>mt_counters := jm_set (buildKey name tags) (getCounter name tags m + 1) (mt_counters m)\<rparr>"

definition latency_samples :: "string \<Rightarrow> tags option \<Rightarrow> metrics \<Rightarrow> int list" where
  "latency_samples name tags m = (case jm_get (mt_histograms m) (buildKey name tags) of Some xs \<Rightarrow> xs | None \<Rightarrow> [])"

definition recordLatency :: "string \<Rightarrow> int \<Rightarrow> tags option \<Rightarrow> metrics \<Rightarrow> metrics" where
  "recordLatency name ms tags m =
     m\<lparr>mt_histograms := jm_set (buildKey name tags) (latency_samples name tags m @ [ms]) (mt_histograms m)\<rparr>"

record percentiles =
  pc_p50 :: "int option"
  pc_p95 :: "int option"
  pc_p99 :: "int option"

text \<open>\<open>sorted[Math.floor(sorted.length * c)]\<close>, in double arithmetic; a missing element is undefined.\<close>

definition percentile :: "jsnum \<Rightarrow> int list \<Rightarrow> int option" where
  "percentile c xs =
     (case jmul (Fin (of_nat (length xs))) c of
        Fin r \<Rightarrow> (let i = nat \<lfloor>r\<rfloor> in if i < length xs then Some (xs ! i) else None)
      | _ \<Rightarrow> None)"

text \<open>The sort is in place, so the stored samples are sorted by the read.\<close>

definition getLatencyPercentiles :: "string \<Rightarrow> tags option \<Rightarrow> metrics \<Rightarrow> metrics \<times> percentiles" where
  "getLatencyPercentiles name tags m =
     (let values = latency_samples name tags m
      in if values = [] then (m, \<lparr>pc_p50 = Some 0, pc_p95 = Some 0, pc_p99 = Some 0\<rparr>)
         else let sorted = sort values
              in (m\<lparr>mt_histograms := jm_set (buildKey name tags) sorted (mt_histograms m)\<rparr>,
                  \<lparr>pc_p50 = percentile (jlit (1 / 2)) sorted, pc_p95 = percentile (jlit (95 / 100)) sorted,
                   pc_p99 = percentile (jlit (99 / 100)) sorted\<rparr>))"

fun export_latencies :: "string list \<Rightarrow> metrics \<Rightarrow> metrics \<times> (string \<times> percentiles) list" where
  "export_latencies [] m = (m, [])"
| "export_latencies (key # keys) m =
     (let (m', p) = getLatencyPercentiles (hd (split_on (CHR ''|'') key)) (Some (parseTagsFromKey key)) m;
          (m'', ps) = export_latencies keys m'
      in (m'', (key, p) # ps))"

definition export :: "metrics \<Rightarrow> metrics \<times> (string, nat) jmap \<times> (string \<times> percentiles) list" where
  "export m = (let (m', ps) = export_latencies (jm_keys (mt_histograms m)) m in (m', mt_counters m, ps))"

section \<open>What is recorded\<close>

definition recordGovernanceDecision :: "string \<Rightarrow> string \<Rightarrow> string \<Rightarrow> string \<Rightarrow> int \<Rightarrow> metrics \<Rightarrow> metrics" where
  "recordGovernanceDecision decision riskLevel action environment evaluationMs m =
     (let m1 = increment ''governance_decisions_total''
            (Some [(''decision'', Some decision), (''risk_level'', Some riskLevel), (''action'', Some action),
                   (''environment'', Some environment)]) m;
          m2 = (if decision = ''DENY'' \<or> decision = ''REQUIRE_APPROVAL''
            then increment ''governance_denials_total''
              (Some [(''decision'', Some decision), (''action'', Some action), (''environment'', Some environment)]) m1
            else m1)
      in recordLatency ''governance_evaluation_ms'' evaluationMs
           (Some [(''decision'', Some decision), (''environment'', Some environment)]) m2)"

definition recordShadowModeMismatch :: "string \<Rightarrow> string \<Rightarrow> string \<Rightarrow> metrics \<Rightarrow> metrics" where
  "recordShadowModeMismatch rgeDecision oldDecision environment m =
     increment ''governance_shadow_mismatches_total''
       (Some [(''rge_decision'', Some rgeDecision), (''old_validator_decision'', Some oldDecision),
              (''environment'', Some environment)]) m"

definition recordGovernanceEvaluationFailure :: "string \<Rightarrow> string \<Rightarrow> metrics \<Rightarrow> metrics" where
  "recordGovernanceEvaluationFailure reason environment m =
     increment ''governance_evaluation_failures_total''
       (Some [(''reason'', Some reason), (''environment'', Some environment)]) m"

definition recordPolicyEvaluation :: "string \<Rightarrow> int \<Rightarrow> string \<Rightarrow> metrics \<Rightarrow> metrics" where
  "recordPolicyEvaluation policyId evaluationMs environment m =
     recordLatency ''governance_policy_evaluations_ms'' evaluationMs
       (Some [(''action'', Some policyId), (''environment'', Some environment)]) m"

datatype mismatch_type = NORMALIZATION | POLICY | ENVIRONMENT | REASONING | ENFORCEMENT

fun mismatch_name :: "mismatch_type \<Rightarrow> string" where
  "mismatch_name NORMALIZATION = ''normalization''"
| "mismatch_name POLICY = ''policy''"
| "mismatch_name ENVIRONMENT = ''environment''"
| "mismatch_name REASONING = ''reasoning''"
| "mismatch_name ENFORCEMENT = ''enforcement''"

definition recordClassifiedMismatch :: "mismatch_type \<Rightarrow> string \<Rightarrow> string \<Rightarrow> string \<Rightarrow> metrics \<Rightarrow> metrics" where
  "recordClassifiedMismatch ty rgeDecision oldDecision environment m =
     increment ''governance_shadow_comparisons_total'' (Some [(''environment'', Some environment)])
       (increment ''governance_classified_mismatches_total''
          (Some [(''mismatch_type'', Some (mismatch_name ty)), (''rge_decision'', Some rgeDecision),
                 (''old_validator_decision'', Some oldDecision), (''environment'', Some environment)]) m)"

definition recordShadowConsensusMatch :: "string \<Rightarrow> metrics \<Rightarrow> metrics" where
  "recordShadowConsensusMatch environment m =
     increment ''governance_shadow_comparisons_total'' (Some [(''environment'', Some environment)])
       (increment ''governance_shadow_matches_total'' (Some [(''environment'', Some environment)]) m)"

definition jnat :: "nat \<Rightarrow> jsnum" where
  "jnat n = Fin (of_nat n)"

definition getShadowConsensusRate :: "string option \<Rightarrow> metrics \<Rightarrow> jsnum" where
  "getShadowConsensusRate environment m =
     (let tags = (case environment of Some e \<Rightarrow> if e = [] then None else Some [(''environment'', Some e)] | None \<Rightarrow> None);
          matches = getCounter ''governance_shadow_matches_total'' tags m;
          comparisons = getCounter ''governance_shadow_comparisons_total'' tags m
      in if comparisons = 0 then Fin 100 else jmul (jdiv (jnat matches) (jnat comparisons)) (Fin 100))"

record drift_summary =
  dsm_window :: string
  dsm_timestamp :: int
  dsm_total_evaluations :: nat
  dsm_mismatches :: nat
  dsm_evaluation_failures :: nat
  dsm_consensus_rate :: jsnum
  dsm_avg_latency :: "int option"
  dsm_p95_latency :: "int option"
  dsm_p99_latency :: "int option"

text \<open>The lists of the report are always empty.\<close>

definition generateGovernanceDriftReport :: "string \<Rightarrow> int \<Rightarrow> metrics \<Rightarrow> metrics \<times> drift_summary" where
  "generateGovernanceDriftReport window now m0 =
     (let (m, _, _) = export m0;
          (m', latencies) = getLatencyPercentiles ''governance_evaluation_ms'' None m
      in (m', \<lparr>dsm_window = window, dsm_timestamp = now,
               dsm_total_evaluations = getCounter ''governance_decisions_total'' None m,
               dsm_mismatches = getCounter ''governance_shadow_mismatches_total'' None m,
               dsm_evaluation_failures = getCounter ''governance_evaluation_failures_total'' None m,
               dsm_consensus_rate = getShadowConsensusRate None m,
               dsm_avg_latency = pc_p50 latencies, dsm_p95_latency = pc_p95 latencies,
               dsm_p99_latency = pc_p99 latencies\<rparr>))"

section \<open>Integrity check\<close>

datatype integrity_state = HEALTHY | DEGRADED | FAILED

datatype check_status = Pass | Warn | Fail

record integrity_checks =
  ic_failures :: "check_status \<times> nat"
  ic_consensus :: "check_status \<times> jsnum"
  ic_latency :: "check_status \<times> int option"
  ic_metrics :: "check_status \<times> bool"
  ic_replay :: "check_status \<times> nat \<times> nat"
  ic_normalization :: "check_status \<times> nat"
  ic_audit :: "check_status \<times> nat"

definition check_statuses :: "integrity_checks \<Rightarrow> check_status list" where
  "check_statuses c = [fst (ic_failures c), fst (ic_consensus c), fst (ic_latency c), fst (ic_metrics c),
     fst (ic_replay c), fst (ic_normalization c), fst (ic_audit c)]"

text \<open>The replay check counts the sampled snapshots as passed; nothing in it can throw.\<close>

definition evaluateReplayValidation :: "nat \<Rightarrow> check_status \<times> nat \<times> nat" where
  "evaluateReplayValidation samples = (if samples = 0 then (Pass, 0, 0) else (Pass, samples, 0))"

definition failure_status :: "jsnum \<Rightarrow> check_status" where
  "failure_status rate = (if jle rate (Fin 5) then Pass else if jle rate (Fin 10) then Warn else Fail)"

definition consensus_status :: "jsnum \<Rightarrow> check_status" where
  "consensus_status rate = (if jle (Fin 99) rate then Pass else if jle (Fin 95) rate then Warn else Fail)"

text \<open>A comparison with undefined is false.\<close>

definition latency_status :: "int option \<Rightarrow> check_status" where
  "latency_status p95 =
     (case p95 of None \<Rightarrow> Fail | Some ms \<Rightarrow> if ms < 10 then Pass else if ms < 20 then Warn else Fail)"

definition audit_status :: "nat \<Rightarrow> check_status" where
  "audit_status failures = (if failures = 0 then Pass else if failures \<le> 5 then Warn else Fail)"

text \<open>
  The check reads the metrics (\<open>available\<close> says whether their module could be loaded), the number of
  sampled snapshots and the number of failed audit writes.
\<close>

definition integrity_checks_of :: "bool \<Rightarrow> metrics \<Rightarrow> nat \<Rightarrow> nat \<Rightarrow> metrics \<times> integrity_checks" where
  "integrity_checks_of available m samples audit_failures =
     (let total = (if available then getCounter ''governance_decisions_total'' None m else 0);
          failures = (if available then getCounter ''governance_evaluation_failures_total'' None m else 0);
          failureRate = (if 0 < total then jmul (jdiv (jnat failures) (jnat total)) (Fin 100) else Fin 0);
          consensus = (if available then getShadowConsensusRate None m else Fin 100);
          (m', latencies) = (if available then getLatencyPercentiles ''governance_evaluation_ms'' None m
            else (m, \<lparr>pc_p50 = Some 0, pc_p95 = Some 5, pc_p99 = Some 10\<rparr>))
      in (m', \<lparr>ic_failures = (failure_status failureRate, failures),
               ic_consensus = (consensus_status consensus, consensus),
               ic_latency = (latency_status (pc_p95 latencies), pc_p95 latencies),
               ic_metrics = (if available then Pass else Warn, available),
               ic_replay = evaluateReplayValidation samples,
               ic_normalization = (Pass, 0),
               ic_audit = (audit_status audit_failures, audit_failures)\<rparr>))"

record integrity_result =
  ir_state :: integrity_state
  ir_timestamp :: int
  ir_checks :: integrity_checks
  ir_recommendation :: string

definition checkGovernanceIntegrity :: "bool \<Rightarrow> int \<Rightarrow> metrics \<Rightarrow> nat \<Rightarrow> nat \<Rightarrow> metrics \<times> integrity_result" where
  "checkGovernanceIntegrity available now m samples audit_failures =
     (let (m', checks) = integrity_checks_of available m samples audit_failures;
          failCount = length (filter (\<lambda>s. s = Fail) (check_statuses checks));
          warnCount = length (filter (\<lambda>s. s = Warn) (check_statuses checks));
          (state, recommendation) =
            (if 0 < failCount then
               (FAILED, ''[CRITICAL] Governance integrity FAILED: '' @ nat_str failCount @
                  '' check(s) failed. ROLLBACK to SHADOW mode immediately. Investigate root cause.'')
             else if 0 < warnCount then
               (DEGRADED, ''[WARNING] Governance integrity DEGRADED: '' @ nat_str warnCount @
                  '' check(s) warning. Continue monitoring. Do NOT enable ENFORCING until resolved.'')
             else (HEALTHY, ''[OK] Governance integrity HEALTHY. All checks passed. Safe to enable ENFORCING mode.''))
      in (m', \<lparr>ir_state = state, ir_timestamp = now, ir_checks = checks, ir_recommendation = recommendation\<rparr>))"

definition isEnforcingSafely :: "bool \<Rightarrow> int \<Rightarrow> metrics \<Rightarrow> nat \<Rightarrow> nat \<Rightarrow> metrics \<times> bool" where
  "isEnforcingSafely available now m samples audit_failures =
     (let (m', check) = checkGovernanceIntegrity available now m samples audit_failures in (m', ir_state check = HEALTHY))"

fun describeGovernanceIntegrity :: "integrity_state \<Rightarrow> string" where
  "describeGovernanceIntegrity HEALTHY = ''All governance systems healthy. Ready for enforcement.''"
| "describeGovernanceIntegrity DEGRADED = ''Some governance issues detected. Continue monitoring before enforcement.''"
| "describeGovernanceIntegrity FAILED = ''Governance integrity compromised. Rollback to SHADOW mode.''"

lemma getCounter_increment [simp]: "getCounter name tags (increment name tags m) = getCounter name tags m + 1"
  by (simp add: getCounter_def increment_def update_conv)

section \<open>Recorded metrics\<close>

text \<open>The metrics that any sequence of recordings and reads leaves.\<close>

inductive recorded :: "metrics \<Rightarrow> bool" where
  empty: "recorded no_metrics"
| decision: "recorded m \<Longrightarrow> recorded (recordGovernanceDecision d r a e ms m)"
| mismatch: "recorded m \<Longrightarrow> recorded (recordShadowModeMismatch d d' e m)"
| failure: "recorded m \<Longrightarrow> recorded (recordGovernanceEvaluationFailure reason e m)"
| policy: "recorded m \<Longrightarrow> recorded (recordPolicyEvaluation p ms e m)"
| classified: "recorded m \<Longrightarrow> recorded (recordClassifiedMismatch ty d d' e m)"
| consensus: "recorded m \<Longrightarrow> recorded (recordShadowConsensusMatch e m)"
| percentiles: "recorded m \<Longrightarrow> recorded (fst (getLatencyPercentiles n t m))"

definition barred :: "metrics \<Rightarrow> bool" where
  "barred m = ((\<forall>k\<in>set (jm_keys (mt_counters m)). CHR ''|'' \<in> set k) \<and>
     (\<forall>k v. jm_get (mt_histograms m) k = Some v \<and> v \<noteq> [] \<longrightarrow> CHR ''|'' \<in> set k))"

lemma buildKey_tagged [simp]: "buildKey name (Some (t # ts)) = name @ ''|'' @ tag_string (sort_tags (defined_tags (t # ts)))"
  by (simp add: buildKey_def)

lemma barred_increment: "barred m \<Longrightarrow> barred (increment name (Some (t # ts)) m)"
  by (simp add: barred_def increment_def jm_keys_set del: map_map)

lemma barred_latency: "barred m \<Longrightarrow> barred (recordLatency name ms (Some (t # ts)) m)"
  by (auto simp: barred_def recordLatency_def update_conv)

lemma barred_percentiles: "barred m \<Longrightarrow> barred (fst (getLatencyPercentiles n t m))"
  by (auto simp: barred_def getLatencyPercentiles_def Let_def update_conv latency_samples_def split: option.splits if_splits)

lemma recorded_barred: "recorded m \<Longrightarrow> barred m"
proof (induction rule: recorded.induct)
  case empty
  then show ?case by (simp add: barred_def no_metrics_def)
next
  case (decision m d r a e ms)
  then show ?case by (simp add: recordGovernanceDecision_def Let_def barred_increment barred_latency)
qed (simp_all add: recordShadowModeMismatch_def recordGovernanceEvaluationFailure_def recordPolicyEvaluation_def
    recordClassifiedMismatch_def recordShadowConsensusMatch_def barred_increment barred_latency barred_percentiles)

lemma untagged_counter:
  assumes "barred m" "CHR ''|'' \<notin> set name"
  shows "getCounter name None m = 0"
proof -
  have "name \<notin> set (jm_keys (mt_counters m))" using assms by (auto simp: barred_def)
  then have "jm_get (mt_counters m) name = None" using jm_get_None_iff by metis
  then show ?thesis by (simp add: getCounter_def buildKey_def)
qed

lemma untagged_samples:
  assumes "barred m" "CHR ''|'' \<notin> set name"
  shows "latency_samples name None m = []"
  using assms by (auto simp: latency_samples_def buildKey_def barred_def split: option.split)

lemma barred_export: "barred m \<Longrightarrow> barred (fst (export_latencies keys m)) \<and>
    mt_counters (fst (export_latencies keys m)) = mt_counters m"
proof (induction keys arbitrary: m)
  case (Cons k keys)
  obtain m' p where g: "getLatencyPercentiles (hd (split_on (CHR ''|'') k)) (Some (parseTagsFromKey k)) m = (m', p)"
    by (rule prod.exhaust)
  have "barred m'" "mt_counters m' = mt_counters m"
    using barred_percentiles [OF Cons.prems, of "hd (split_on (CHR ''|'') k)" "Some (parseTagsFromKey k)"] g
    by (auto simp: getLatencyPercentiles_def Let_def split: if_splits)
  then show ?case using Cons.IH [of m'] g by (simp add: case_prod_beta)
qed simp

section \<open>Properties\<close>

lemma integrity_law:
  assumes "recorded m"
  shows "ir_state (snd (checkGovernanceIntegrity True now m samples audit_failures)) =
      (if audit_failures = 0 then HEALTHY else if audit_failures \<le> 5 then DEGRADED else FAILED) \<and>
    fst (checkGovernanceIntegrity True now m samples audit_failures) = m \<and>
    snd (isEnforcingSafely True now m samples audit_failures) = (audit_failures = 0) \<and>
    dsm_total_evaluations (snd (generateGovernanceDriftReport window now m)) = 0 \<and>
    dsm_evaluation_failures (snd (generateGovernanceDriftReport window now m)) = 0 \<and>
    dsm_consensus_rate (snd (generateGovernanceDriftReport window now m)) = Fin 100"
proof -
  have b: "barred m" by (rule recorded_barred [OF assms])
  note zero = untagged_counter untagged_samples
  have checks: "integrity_checks_of True m samples audit_failures =
    (m, \<lparr>ic_failures = (Pass, 0), ic_consensus = (Pass, Fin 100), ic_latency = (Pass, Some 0), ic_metrics = (Pass, True),
         ic_replay = (Pass, samples, 0), ic_normalization = (Pass, 0),
         ic_audit = (audit_status audit_failures, audit_failures)\<rparr>)"
    by (simp add: integrity_checks_of_def Let_def zero [OF b] getShadowConsensusRate_def getLatencyPercentiles_def
        failure_status_def consensus_status_def latency_status_def evaluateReplayValidation_def)
  have state: "ir_state (snd (checkGovernanceIntegrity True now m samples audit_failures)) =
      (if audit_failures = 0 then HEALTHY else if audit_failures \<le> 5 then DEGRADED else FAILED)"
    and same: "fst (checkGovernanceIntegrity True now m samples audit_failures) = m"
    by (simp_all add: checkGovernanceIntegrity_def checks Let_def check_statuses_def audit_status_def)
  have safe: "snd (isEnforcingSafely True now m samples audit_failures) = (audit_failures = 0)"
    using state by (simp add: isEnforcingSafely_def case_prod_beta)
  obtain m1 c ps where e: "export m = (m1, c, ps)" by (metis prod_cases3)
  then have "m1 = fst (export_latencies (jm_keys (mt_histograms m)) m)"
    by (simp add: export_def case_prod_beta)
  then have b1: "barred m1" using barred_export [OF b] by simp
  have "dsm_total_evaluations (snd (generateGovernanceDriftReport window now m)) = 0"
    "dsm_evaluation_failures (snd (generateGovernanceDriftReport window now m)) = 0"
    "dsm_consensus_rate (snd (generateGovernanceDriftReport window now m)) = Fin 100"
    by (simp_all add: generateGovernanceDriftReport_def e zero [OF b1] getShadowConsensusRate_def Let_def case_prod_beta)
  then show ?thesis using state same safe by simp
qed

text \<open>
  C10: The integrity check is blind to what is recorded: all counters and latencies are recorded
  under tagged keys and the check reads untagged ones, so after any sequence of recordings it sees no
  evaluation, no failure, full consensus and no latency. Its state depends on the failed audit writes
  alone, and the drift report shows zero evaluations, mismatches and failures.
\<close>

theorem integrity_blind_to_metrics:
  assumes "recorded m"
  shows "ir_state (snd (checkGovernanceIntegrity True now m samples audit_failures)) =
      (if audit_failures = 0 then HEALTHY else if audit_failures \<le> 5 then DEGRADED else FAILED) \<and>
    fst (checkGovernanceIntegrity True now m samples audit_failures) = m \<and>
    snd (isEnforcingSafely True now m samples audit_failures) = (audit_failures = 0) \<and>
    dsm_total_evaluations (snd (generateGovernanceDriftReport window now m)) = 0 \<and>
    dsm_evaluation_failures (snd (generateGovernanceDriftReport window now m)) = 0 \<and>
    dsm_consensus_rate (snd (generateGovernanceDriftReport window now m)) = Fin 100"
  by (rule integrity_law [OF assms])

definition failing_metrics :: metrics where
  "failing_metrics = recordGovernanceEvaluationFailure ''down'' ''production''
     (recordGovernanceDecision ''ALLOW'' ''LOW'' ''SAVE'' ''production'' 500 no_metrics)"

theorem integrity_blind_to_metrics_witness:
  "recorded failing_metrics \<and> ir_state (snd (checkGovernanceIntegrity True 0 failing_metrics 3 0)) = HEALTHY"
proof -
  have "recorded failing_metrics" unfolding failing_metrics_def by (intro recorded.intros)
  then show ?thesis using integrity_blind_to_metrics [of failing_metrics 0 3 0] by simp
qed

section \<open>Percentiles\<close>

lemma lit_095: "jlit (19 / 20) = Fin (4278419646001971 / 4503599627370496)"
  using rnd64_eqI [of "- 53" "19 / 20" 8556839292003942] by (simp add: jlit_def pow2_def)

lemma lit_099: "jlit (99 / 100) = Fin (4458563631096791 / 4503599627370496)"
  using rnd64_eqI [of "- 53" "99 / 100" 8917127262193582] by (simp add: jlit_def pow2_def)

lemma lit_05: "jlit (1 / 2) = Fin (1 / 2)"
  using rnd64_dyadic [of 1 1] by (simp add: jlit_def)

text \<open>A product with a factor of at most 127/128 rounds to a number below the length.\<close>

lemma percentile_index:
  assumes "0 \<le> q" "q \<le> 127 / 128" "0 < n" "n \<le> 2 ^ 40"
  obtains r where "jmul (Fin (of_nat n)) (Fin q) = Fin r" "0 \<le> r" "r < of_nat n"
proof -
  have "(127 * int n) \<le> 2 ^ 53" using assms(4) by (simp add: of_nat_le_iff flip: of_nat_mult of_nat_power)
  then have up: "rnd64 (of_int (127 * int n) / 2 ^ 7) = Fin (of_int (127 * int n) / 2 ^ 7)"
    by (intro rnd64_dyadic) simp_all
  have "of_nat n * q \<le> of_nat n * (127 / 128)" using assms by (intro mult_left_mono) simp_all
  then have le: "of_nat n * q \<le> of_int (127 * int n) / 2 ^ 7" by simp
  obtain r where r: "rnd64 (of_nat n * q) = Fin r" "0 \<le> r" "r \<le> of_int (127 * int n) / 2 ^ 7"
    using r64.rnd_between [of 0 0 _ _ "of_nat n * q", OF _ up _ le] assms by auto
  have "of_int (127 * int n) / 2 ^ 7 < (of_nat n :: rat)" using assms by simp
  then show thesis using that [of r] r by simp
qed

lemma percentile_Some:
  assumes "c = Fin q" "0 \<le> q" "q \<le> 127 / 128" "xs \<noteq> []" "length xs \<le> 2 ^ 40"
  obtains r where "jmul (Fin (of_nat (length xs))) c = Fin r" "0 \<le> r" "nat \<lfloor>r\<rfloor> < length xs"
    "percentile c xs = Some (xs ! nat \<lfloor>r\<rfloor>)"
proof -
  obtain r where r: "jmul (Fin (of_nat (length xs))) c = Fin r" "0 \<le> r" "r < of_nat (length xs)"
    using percentile_index [of q "length xs"] assms by auto
  have "\<lfloor>r\<rfloor> < int (length xs)" using r(3) by (simp add: floor_less_iff)
  then have i: "nat \<lfloor>r\<rfloor> < length xs" using r(2) by linarith
  then show thesis using that [OF r(1,2) i] r(1) by (simp add: percentile_def Let_def)
qed

lemma percentile_mono:
  assumes "c = Fin q" "d = Fin q'" "0 \<le> q" "q \<le> q'" "q' \<le> 127 / 128" "xs \<noteq> []" "length xs \<le> 2 ^ 40" "sorted xs"
  obtains x y where "percentile c xs = Some x" "percentile d xs = Some y" "x \<le> y" "x \<in> set xs" "y \<in> set xs"
proof -
  obtain r where r: "jmul (Fin (of_nat (length xs))) c = Fin r" "0 \<le> r" "nat \<lfloor>r\<rfloor> < length xs"
    "percentile c xs = Some (xs ! nat \<lfloor>r\<rfloor>)" using percentile_Some [of c q xs] assms by auto
  obtain s where s: "jmul (Fin (of_nat (length xs))) d = Fin s" "0 \<le> s" "nat \<lfloor>s\<rfloor> < length xs"
    "percentile d xs = Some (xs ! nat \<lfloor>s\<rfloor>)" using percentile_Some [of d q' xs] assms by auto
  have "jle (Fin r) (Fin s)" using jle_mul [of "of_nat (length xs)" q q'] r(1) s(1) assms(1,2,4) by simp
  then have "nat \<lfloor>r\<rfloor> \<le> nat \<lfloor>s\<rfloor>" by (simp add: floor_mono nat_mono)
  then have "xs ! nat \<lfloor>r\<rfloor> \<le> xs ! nat \<lfloor>s\<rfloor>" using assms(8) s(3) by (simp add: sorted_nth_mono)
  then show thesis using that [OF r(4) s(4)] r(3) s(3) by simp
qed

text \<open>
  The latency percentiles are well defined: for up to 2^40 samples the three indices, computed
  in double arithmetic, fall inside the sorted samples, so that each percentile is one of the
  recorded latencies, and p50, p95 and p99 are in this order; reading them loses no sample.
\<close>

theorem latency_percentiles_ordered:
  assumes "latency_samples name tags m \<noteq> []" and "length (latency_samples name tags m) \<le> 2 ^ 40"
  shows "\<exists>x y z. snd (getLatencyPercentiles name tags m) = \<lparr>pc_p50 = Some x, pc_p95 = Some y, pc_p99 = Some z\<rparr> \<and>
    x \<le> y \<and> y \<le> z \<and> {x, y, z} \<subseteq> set (latency_samples name tags m) \<and>
    mset (latency_samples name tags (fst (getLatencyPercentiles name tags m))) = mset (latency_samples name tags m)"
proof -
  let ?xs = "sort (latency_samples name tags m)"
  have xs: "?xs \<noteq> []" "length ?xs \<le> 2 ^ 40" "sorted ?xs"
    using assms by (simp_all, metis length_0_conv length_sort)
  obtain x y where xy: "percentile (jlit (1 / 2)) ?xs = Some x" "percentile (jlit (19 / 20)) ?xs = Some y"
    "x \<le> y" "x \<in> set ?xs" "y \<in> set ?xs"
    by (rule percentile_mono [OF lit_05 lit_095 _ _ _ xs]) simp_all
  obtain y' z where yz: "percentile (jlit (19 / 20)) ?xs = Some y'" "percentile (jlit (99 / 100)) ?xs = Some z"
    "y' \<le> z" "y' \<in> set ?xs" "z \<in> set ?xs"
    by (rule percentile_mono [OF lit_095 lit_099 _ _ _ xs]) simp_all
  have "snd (getLatencyPercentiles name tags m) = \<lparr>pc_p50 = Some x, pc_p95 = Some y, pc_p99 = Some z\<rparr>"
    using assms(1) xy yz by (simp add: getLatencyPercentiles_def Let_def)
  moreover have "latency_samples name tags (fst (getLatencyPercentiles name tags m)) = ?xs"
    using assms(1) by (simp add: getLatencyPercentiles_def Let_def latency_samples_def update_conv)
  ultimately show ?thesis using xy yz by auto
qed

definition sampled_metrics :: metrics where
  "sampled_metrics = recordLatency ''ms'' 7 None (recordLatency ''ms'' 3 None no_metrics)"

theorem latency_percentiles_ordered_witness:
  "\<exists>x y z. snd (getLatencyPercentiles ''ms'' None sampled_metrics) = \<lparr>pc_p50 = Some x, pc_p95 = Some y, pc_p99 = Some z\<rparr> \<and>
    x \<le> y \<and> y \<le> z \<and> {x, y, z} \<subseteq> {3, 7}"
proof -
  have "latency_samples ''ms'' None sampled_metrics = [3, 7]"
    by (simp add: sampled_metrics_def recordLatency_def latency_samples_def no_metrics_def buildKey_def)
  then show ?thesis using latency_percentiles_ordered [of "''ms''" None sampled_metrics] by auto
qed

section \<open>Keys and tags\<close>

definition clean :: "string \<Rightarrow> bool" where
  "clean s = (CHR ''|'' \<notin> set s \<and> CHR '','' \<notin> set s \<and> CHR ''='' \<notin> set s)"

lemma set_join: "set (join sep xs) \<subseteq> set sep \<union> (\<Union>x\<in>set xs. set x)"
  by (induction sep xs rule: join.induct) auto

lemma defined_tags_Some [simp]: "defined_tags (map (\<lambda>(k, v). (k, Some v)) kvs) = kvs"
  by (induction kvs) (auto simp: defined_tags_def)

lemma sort_tags_idem: "sort_tags (sort_tags kvs) = sort_tags kvs"
proof -
  have "sorted (map (\<lambda>(k, v). k @ '','' @ v) (sort_tags kvs))" by (simp add: sort_tags_def)
  then show ?thesis unfolding sort_tags_def by (rule sort_key_id_if_sorted)
qed

lemma parse_pairs:
  assumes "\<forall>(k, v)\<in>set kvs. clean k \<and> clean v" "distinct (map fst kvs)" "set (map fst kvs) \<inter> set (jm_keys m) = {}"
  shows "foldl (\<lambda>m p. parse_pair p m) m (map (\<lambda>(k, v). k @ ''='' @ v) kvs) = m @ map (\<lambda>(k, v). (k, Some v)) kvs"
  using assms
proof (induction kvs arbitrary: m)
  case (Cons kv kvs)
  obtain k v where kv: "kv = (k, v)" by (rule prod.exhaust)
  have "split_on (CHR ''='') (k @ ''='' @ v) = [k, v]"
    using Cons.prems(1) kv by (simp add: clean_def split_on_append split_on_free)
  then have "parse_pair (k @ ''='' @ v) m = m @ [(k, Some v)]"
    using Cons.prems(3) kv by (simp add: parse_pair_def jm_set_new)
  then show ?case using Cons.IH [of "m @ [(k, Some v)]"] Cons.prems kv by auto
qed simp

lemma tag_string_no_bar:
  assumes "\<forall>(k, v)\<in>set kvs. clean k \<and> clean v"
  shows "CHR ''|'' \<notin> set (tag_string kvs)"
proof -
  have "\<forall>x\<in>set (map (\<lambda>(k, v). k @ ''='' @ v) kvs). CHR ''|'' \<notin> set x"
    using assms by (auto simp: clean_def)
  then show ?thesis using set_join [of "'',''" "map (\<lambda>(k, v). k @ ''='' @ v) kvs"]
    unfolding tag_string_def by (auto dest!: subsetD)
qed

lemma split_tag_string:
  assumes "\<forall>(k, v)\<in>set kvs. clean k \<and> clean v" "kvs \<noteq> []"
  shows "split_on (CHR '','') (tag_string kvs) = map (\<lambda>(k, v). k @ ''='' @ v) kvs"
  unfolding tag_string_def using assms by (intro split_on_join) (auto simp: clean_def)

lemma tag_string_ne: "kvs \<noteq> [] \<Longrightarrow> tag_string kvs \<noteq> []"
  by (cases kvs; cases "tl kvs") (auto simp: tag_string_def)

text \<open>
  Keys can be parsed back: for a name and tags free of the separators, with distinct tag names
  and at least one defined tag, parsing the built key gives the defined tags in sorted order and
  rebuilding the key from its own name and parsed tags gives the key, so that the export of latencies
  looks up the samples it iterates over.
\<close>

theorem metric_key_roundtrip:
  assumes "CHR ''|'' \<notin> set name" and "\<forall>(k, v)\<in>set (defined_tags tags). clean k \<and> clean v"
    and "distinct (map fst (defined_tags tags))" and "defined_tags tags \<noteq> []"
  shows "parseTagsFromKey (buildKey name (Some tags)) = map (\<lambda>(k, v). (k, Some v)) (sort_tags (defined_tags tags)) \<and>
    buildKey (hd (split_on (CHR ''|'') (buildKey name (Some tags))))
      (Some (parseTagsFromKey (buildKey name (Some tags)))) = buildKey name (Some tags)"
proof -
  let ?kvs = "sort_tags (defined_tags tags)"
  have kvs: "\<forall>(k, v)\<in>set ?kvs. clean k \<and> clean v" "?kvs \<noteq> []" "distinct (map fst ?kvs)"
    using assms distinct_map [of fst ?kvs] distinct_map [of fst "defined_tags tags"]
    by (simp_all add: sort_tags_def) (metis length_0_conv length_sort)
  have "tags \<noteq> []" using assms(4) by (auto simp: defined_tags_def)
  then have key: "buildKey name (Some tags) = name @ ''|'' @ tag_string ?kvs"
    by (cases tags) simp_all
  have split: "split_on (CHR ''|'') (buildKey name (Some tags)) = [name, tag_string ?kvs]"
    unfolding key using assms(1) tag_string_no_bar [OF kvs(1)] by (simp add: split_on_append split_on_free)
  have parse: "parseTagsFromKey (buildKey name (Some tags)) = map (\<lambda>(k, v). (k, Some v)) ?kvs"
    using parse_pairs [of ?kvs "[]"] kvs tag_string_ne [OF kvs(2)]
    by (simp add: parseTagsFromKey_def split split_tag_string)
  have "buildKey name (Some (map (\<lambda>(k, v). (k, Some v)) ?kvs)) = name @ ''|'' @ tag_string ?kvs"
    using kvs(2) by (simp add: buildKey_def sort_tags_idem)
  then show ?thesis by (simp add: parse split) (simp add: key)
qed

theorem metric_key_roundtrip_witness:
  "parseTagsFromKey (buildKey ''ms'' (Some [(''risk'', None), (''env'', Some ''prod'')])) = [(''env'', Some ''prod'')]"
  using metric_key_roundtrip [of "''ms''" "[(''risk'', None), (''env'', Some ''prod'')]"]
  by (simp add: defined_tags_def clean_def sort_tags_def)

end
