(* ===== verification/Snapshot.thy ===== *)
theory Snapshot
  imports DecisionModel Metrics
begin

text \<open>
  Decision snapshots, \<open>core/governance/governance-snapshot.ts\<close>, and the buffer of recent snapshots
  that \<open>governance-replay.ts\<close> keeps for background validation. A timestamp is \<^const>\<open>None\<close> in
  \<open>created_at\<close> when its text is no valid date.
\<close>

section \<open>Snapshots\<close>

record governance_versions =
  gv_normalization :: string
  gv_policy_schema :: string
  gv_governance_schema :: string
  gv_governance_engine :: string

record governance_snapshot =
  gs_decision_id :: string
  gs_input_fingerprint :: string
  gs_policy_snapshot_hash :: string
  gs_versions :: governance_versions
  gs_enforcement_mode :: governance_mode
  gs_integrity_state :: integrity_state
  gs_actor_id :: string
  gs_actor_type :: string
  gs_environment :: string
  gs_action :: string
  gs_resource :: string
  gs_trace_id :: string
  gs_correlation_id :: string
  gs_causation_id :: string
  gs_created_at :: "int option"
  gs_replay_verified_at :: "int option option"
  gs_replay_match :: "bool option"

type_synonym ref_id = string
type_synonym hash = string

definition captureGovernanceSnapshot ::
  "ref_id \<Rightarrow> hash \<Rightarrow> hash \<Rightarrow> ref_id \<Rightarrow> string \<Rightarrow> string \<Rightarrow> string \<Rightarrow> string \<Rightarrow>
   ref_id \<Rightarrow> ref_id \<Rightarrow> ref_id \<Rightarrow> governance_mode \<Rightarrow> integrity_state \<Rightarrow> int \<Rightarrow> governance_snapshot" where
  "captureGovernanceSnapshot decision_id fingerprint policy_hash actor_id actor_type environment action resource
     trace_id correlation_id causation_id mode integrity now =
     \<lparr>gs_decision_id = decision_id, gs_input_fingerprint = fingerprint, gs_policy_snapshot_hash = policy_hash,
      gs_versions = \<lparr>gv_normalization = ''1.0'', gv_policy_schema = ''1.0'', gv_governance_schema = ''1.0'',
        gv_governance_engine = ''1.0''\<rparr>,
      gs_enforcement_mode = mode, gs_integrity_state = integrity, gs_actor_id = actor_id, gs_actor_type = actor_type,
      gs_environment = environment, gs_action = action, gs_resource = resource, gs_trace_id = trace_id,
      gs_correlation_id = correlation_id, gs_causation_id = causation_id, gs_created_at = Some now,
      gs_replay_verified_at = None, gs_replay_match = None\<rparr>"

record snapshot_metadata =
  sm_decision_id :: string
  sm_input_fingerprint :: string
  sm_created_at :: "int option"
  sm_actor_id :: string
  sm_environment :: string
  sm_enforcement_mode :: governance_mode
  sm_integrity_state :: integrity_state
  sm_replay_verified :: bool
  sm_action :: string

definition extractSnapshotMetadata :: "governance_snapshot \<Rightarrow> snapshot_metadata" where
  "extractSnapshotMetadata s =
     \<lparr>sm_decision_id = gs_decision_id s, sm_input_fingerprint = gs_input_fingerprint s,
      sm_created_at = gs_created_at s, sm_actor_id = gs_actor_id s, sm_environment = gs_environment s,
      sm_enforcement_mode = gs_enforcement_mode s, sm_integrity_state = gs_integrity_state s,
      sm_replay_verified = (gs_replay_verified_at s \<noteq> None), sm_action = gs_action s\<rparr>"

definition required :: "string \<Rightarrow> string \<Rightarrow> string list" where
  "required name v = (if v = [] then [name @ '' is required''] else [])"

definition verifySnapshotConsistency :: "governance_snapshot \<Rightarrow> bool \<times> string list" where
  "verifySnapshotConsistency s =
     (let errors =
        required ''decision_id'' (gs_decision_id s) @ required ''input_fingerprint'' (gs_input_fingerprint s) @
        required ''policy_snapshot_hash'' (gs_policy_snapshot_hash s) @ required ''actor_id'' (gs_actor_id s) @
        required ''trace_id'' (gs_trace_id s) @
        required ''normalization_version'' (gv_normalization (gs_versions s)) @
        required ''policy_schema_version'' (gv_policy_schema (gs_versions s)) @
        required ''governance_schema_version'' (gv_governance_schema (gs_versions s)) @
        required ''governance_engine_version'' (gv_governance_engine (gs_versions s)) @
        (if gs_created_at s = None then [''created_at is not a valid ISO timestamp''] else []) @
        (case gs_replay_verified_at s of
           None \<Rightarrow> []
         | Some None \<Rightarrow> [''replay_verified_at is not a valid ISO timestamp'']
         | Some (Some replayed) \<Rightarrow>
             (case gs_created_at s of
                Some created \<Rightarrow> if replayed < created then [''replay_verified_at cannot be before created_at''] else []
              | None \<Rightarrow> []))
      in (errors = [], errors))"

section \<open>Sampler\<close>

definition MAX_SAMPLE_SIZE :: nat where
  "MAX_SAMPLE_SIZE = 20"

definition addSample :: "governance_snapshot \<Rightarrow> governance_snapshot list \<Rightarrow> governance_snapshot list" where
  "addSample snapshot buf = ring_push MAX_SAMPLE_SIZE snapshot buf"

definition getSamples :: "governance_snapshot list \<Rightarrow> governance_snapshot list" where
  "getSamples buf = buf"

definition clearSamples :: "governance_snapshot list \<Rightarrow> governance_snapshot list" where
  "clearSamples buf = []"

definition sampleCount :: "governance_snapshot list \<Rightarrow> nat" where
  "sampleCount buf = length buf"

interpretation sampler: bounded_buffer MAX_SAMPLE_SIZE addSample
proof -
  have eq: "addSample = ring_push MAX_SAMPLE_SIZE" by (rule ext, rule ext) (simp add: addSample_def)
  show "bounded_buffer MAX_SAMPLE_SIZE addSample"
    unfolding eq by (rule ring_push_buffer) (simp add: MAX_SAMPLE_SIZE_def)
qed

end
