(* ===== verification/RuntimeEngine.thy ===== *)
theory RuntimeEngine
  imports DslPolicy Snapshot
begin

text \<open>
  The runtime governance engine, \<open>core/governance/engine/runtime-governance-engine.ts\<close>. Its state
  holds the environment, the break-glass switch, the policy cache, the metrics, the sampled snapshots
  and the audit entries it hands on. Outside the model and therefore arguments: \<open>sha\<close>, the SHA-256 of
  a text in hexadecimal, \<open>parse_url\<close>, the platform's URL parser, and \<open>rx\<close>, its regular expressions.
  An evaluation starts at the time \<open>now\<close> and takes \<open>ms\<close> milliseconds. Required strings of a request
  that are missing at run time behave like empty ones; the background sweep that an evaluation starts
  reports to the console only.
\<close>

section \<open>Requests and errors\<close>

record evaluation_request =
  rq_action :: string
  rq_actor_id :: string
  rq_actor_type :: string
  rq_resource :: string
  rq_trace_id :: string
  rq_correlation_id :: string
  rq_causation_id :: "string option"
  rq_policy_snapshot_hash :: string
  rq_risk_level :: "string option"
  rq_tenant_id :: "string option"
  rq_metadata :: "(string \<times> js) list option"

datatype engine_error = Invalid_environment string | Field_required string | Invalid_actor_type string | Rule_error

record url_parts =
  up_protocol :: string
  up_hostname :: string
  up_port :: string

record engine_state =
  en_environment :: string
  en_freeze :: freeze_state
  en_cache :: dsl_cache
  en_metrics :: metrics
  en_samples :: "governance_snapshot list"
  en_audit :: "(governance_decision \<times> governance_snapshot \<times> integrity_state \<times> int) list"
  en_audit_failures :: nat

text \<open>The message of a thrown error, as the failure counter is tagged with it.\<close>

fun error_message :: "engine_error \<Rightarrow> string" where
  "error_message (Invalid_environment e) = ''[GOVERNANCE_STARTUP_FAILED] Invalid environment: '' @ e"
| "error_message (Field_required f) = ''[GOVERNANCE_VALIDATION_FAILED] '' @ f @ '' is required''"
| "error_message (Invalid_actor_type t) = ''[GOVERNANCE_VALIDATION_FAILED] Invalid actor_type: '' @ t"
| "error_message Rule_error = ''TypeError''"

section \<open>Construction\<close>

definition SCHEMA_VERSION :: string where
  "SCHEMA_VERSION = ''1.0.0''"

definition new_engine :: "string option \<Rightarrow> string option \<Rightarrow> freeze_state \<Rightarrow> engine_error + engine_state" where
  "new_engine environment app_env freeze =
     (let pick = (\<lambda>x d. case x of Some e \<Rightarrow> if e = [] then d else e | None \<Rightarrow> d);
          env = pick environment (pick app_env ''sandbox'')
      in if env \<noteq> ''sandbox'' \<and> env \<noteq> ''production'' then Inl (Invalid_environment env)
         else Inr \<lparr>en_environment = env, en_freeze = freeze,
           en_cache = \<lparr>dk_cache = None, dk_failures = 0, dk_successes = 0\<rparr>, en_metrics = no_metrics,
           en_samples = [], en_audit = [], en_audit_failures = 0\<rparr>)"

definition refreshPolicyCache :: "(string \<Rightarrow> governance_policy list option) \<Rightarrow> int \<Rightarrow> engine_state \<Rightarrow> engine_state" where
  "refreshPolicyCache db now st =
     st\<lparr>en_cache := fst (getActivePolicies db (en_environment st) now (en_cache st))\<rparr>"

section \<open>Validation\<close>

fun require_fields :: "(string \<times> string) list \<Rightarrow> engine_error + unit" where
  "require_fields [] = Inr ()"
| "require_fields ((f, v) # fs) = (if trim v = [] then Inl (Field_required f) else require_fields fs)"

definition validateRequest :: "evaluation_request \<Rightarrow> engine_error + unit" where
  "validateRequest r =
     (case require_fields [(''action'', rq_action r), (''actor_id'', rq_actor_id r)] of
        Inl e \<Rightarrow> Inl e
      | Inr _ \<Rightarrow>
          if rq_actor_type r \<notin> {''human'', ''agent'', ''service''} then Inl (Invalid_actor_type (rq_actor_type r))
          else require_fields [(''resource'', rq_resource r), (''trace_id'', rq_trace_id r),
            (''correlation_id'', rq_correlation_id r), (''policy_snapshot_hash'', rq_policy_snapshot_hash r)])"

definition actor_of :: "string \<Rightarrow> actor_type" where
  "actor_of t = (if t = ''agent'' then Agent else if t = ''service'' then Service else Human)"

section \<open>Policy evaluation\<close>

definition inferRiskLevel :: "evaluation_request \<Rightarrow> risk_level" where
  "inferRiskLevel r =
     (case rq_risk_level r of
        None \<Rightarrow> MODERATE
      | Some s \<Rightarrow>
          (let rl = to_upper s
           in if rl = ''CRITICAL'' then CRITICAL else if rl = ''HIGH'' then HIGH
              else if rl = ''MODERATE'' then MODERATE else if rl = ''LOW'' then LOW else MODERATE))"

fun mapDSLEscalationToDecision :: "escalation \<Rightarrow> evaluation_request \<Rightarrow> decision \<times> risk_level" where
  "mapDSLEscalationToDecision BLOCK r = (DENY, CRITICAL)"
| "mapDSLEscalationToDecision escalation.REQUIRE_APPROVAL r = (decision.REQUIRE_APPROVAL, inferRiskLevel r)"
| "mapDSLEscalationToDecision SHADOW_BLOCK r = (SIMULATE_ONLY, inferRiskLevel r)"
| "mapDSLEscalationToDecision WARN r = (ALLOW, inferRiskLevel r)"
| "mapDSLEscalationToDecision (Other_escalation s) r = (ALLOW, LOW)"

definition productionPatterns :: "string list" where
  "productionPatterns = [''prod-'', ''-prod'', ''production'', ''splunk-prod'', ''sem'', ''.prod.'', '':prod:'']"

definition isProductionHostname :: "string \<Rightarrow> bool" where
  "isProductionHostname resource = list_ex (str_includes (to_lower resource)) productionPatterns"

definition evaluateHardcodedPolicy :: "string \<Rightarrow> evaluation_request \<Rightarrow> policy_evaluation_result" where
  "evaluateHardcodedPolicy environment r =
     (if environment = ''sandbox'' \<and> str_includes (rq_resource r) ''45.76.167.6'' then
        \<lparr>pe_decision = DENY, pe_risk_level = CRITICAL, pe_matched_policy_ids = [''policy-environment-isolation-1''],
         pe_reasons = [''Production IP (45.76.167.6) is blocked in sandbox environment'',
           ''Only approved sandbox IP (144.202.48.85) is permitted'']\<rparr>
      else if environment = ''sandbox'' \<and> isProductionHostname (rq_resource r) then
        \<lparr>pe_decision = DENY, pe_risk_level = CRITICAL, pe_matched_policy_ids = [''policy-environment-isolation-1''],
         pe_reasons = [''Production resource pattern detected in resource name'',
           ''Sandbox environment only permits sandbox hostnames'']\<rparr>
      else case inferRiskLevel r of
        CRITICAL \<Rightarrow>
          \<lparr>pe_decision = decision.REQUIRE_APPROVAL, pe_risk_level = CRITICAL,
           pe_matched_policy_ids = [''policy-require-approval-critical''],
           pe_reasons = [''CRITICAL risk level requires approval (hardcoded bootstrap rule; 2-person rule)'']\<rparr>
      | HIGH \<Rightarrow>
          \<lparr>pe_decision = decision.REQUIRE_APPROVAL, pe_risk_level = HIGH,
           pe_matched_policy_ids = [''policy-require-approval-high''],
           pe_reasons = [''HIGH risk level requires approval (hardcoded bootstrap rule)'']\<rparr>
      | _ \<Rightarrow>
          \<lparr>pe_decision = ALLOW, pe_risk_level = LOW, pe_matched_policy_ids = [],
           pe_reasons = [''No policies matched; resource approved for action'']\<rparr>)"

definition dsl_context_of :: "evaluation_request \<Rightarrow> dsl_context" where
  "dsl_context_of r =
     \<lparr>dc_risk_level = (case rq_risk_level r of Some l \<Rightarrow> l | None \<Rightarrow> ''LOW''), dc_actor_id = rq_actor_id r,
      dc_actor_type = rq_actor_type r, dc_action = rq_action r, dc_resource = rq_resource r,
      dc_tenant_id = (case rq_tenant_id r of Some t \<Rightarrow> t | None \<Rightarrow> ''SYSTEM''), dc_metadata = rq_metadata r\<rparr>"

text \<open>An escalation takes effect unless it is missing or the empty string.\<close>

definition effective_escalation :: "dsl_result \<Rightarrow> escalation option" where
  "effective_escalation res =
     (if \<not> ds_matched res then None
      else case ds_escalation res of Some (Other_escalation s) \<Rightarrow> if s = [] then None else Some (Other_escalation s)
        | e \<Rightarrow> e)"

definition evaluatePolicy ::
  "regex \<Rightarrow> string \<Rightarrow> dsl_cache \<Rightarrow> int \<Rightarrow> evaluation_request \<Rightarrow> engine_error + policy_evaluation_result" where
  "evaluatePolicy rx environment cache now r =
     (let dslPolicies = getActivePoliciesSync now cache
      in if dslPolicies = [] then Inr (evaluateHardcodedPolicy environment r)
         else case evaluateAllPolicies rx dslPolicies (dsl_context_of r) now of
           Inl _ \<Rightarrow> Inl Rule_error
         | Inr res \<Rightarrow>
             (case effective_escalation res of
                None \<Rightarrow> Inr (evaluateHardcodedPolicy environment r)
              | Some esc \<Rightarrow>
                  (let (d, l) = mapDSLEscalationToDecision esc r
                   in Inr \<lparr>pe_decision = d, pe_risk_level = l,
                     pe_matched_policy_ids = (case ds_policy_id res of Some i \<Rightarrow> if i = [] then [] else [i] | None \<Rightarrow> []),
                     pe_reasons = [case ds_reason res of Some t \<Rightarrow> t
                       | None \<Rightarrow> (case ds_policy_name res of Some n \<Rightarrow> n | None \<Rightarrow> ''DSL policy matched'')]\<rparr>)))"

section \<open>Identity\<close>

text \<open>The first match of \<open>/https?:\/\/[^\s]*/i\<close>, with the text before it.\<close>

fun url_match :: "string \<Rightarrow> (string \<times> string) option" where
  "url_match s =
     (if prefix ''http://'' (to_lower s) \<or> prefix ''https://'' (to_lower s)
      then Some ([], takeWhile (\<lambda>c. \<not> is_space c) s)
      else case s of [] \<Rightarrow> None | c # t \<Rightarrow> map_option (\<lambda>(p, u). (c # p, u)) (url_match t))"

declare url_match.simps [simp del]

text \<open>\<open>replace(/\s+/g, ' ')\<close> and \<open>replace(/\/$/, '')\<close>.\<close>

fun collapse_spaces :: "string \<Rightarrow> string" where
  "collapse_spaces [] = []"
| "collapse_spaces [c] = (if is_space c then '' '' else [c])"
| "collapse_spaces (c # d # s) =
     (if is_space c then (if is_space d then collapse_spaces (d # s) else CHR '' '' # collapse_spaces (d # s))
      else c # collapse_spaces (d # s))"

definition drop_slash :: "string \<Rightarrow> string" where
  "drop_slash s = (if s \<noteq> [] \<and> last s = CHR ''/'' then butlast s else s)"

definition normalizeResource :: "(string \<Rightarrow> url_parts option) \<Rightarrow> string \<Rightarrow> string" where
  "normalizeResource parse_url resource =
     (case url_match resource of
        Some (before, urlString) \<Rightarrow>
          (case parse_url urlString of
             None \<Rightarrow> trim (to_lower resource)
           | Some url \<Rightarrow>
               (let hostname = to_lower (up_hostname url);
                    default_port = (up_protocol url = ''https:'' \<and> up_port url = ''443'' \<or>
                      up_protocol url = ''http:'' \<and> up_port url = ''80'');
                    port = (if up_port url \<noteq> [] \<and> \<not> default_port then '':'' @ up_port url else [])
                in trim (to_lower (before @ to_lower (up_protocol url) @ ''//'' @ hostname @ port))))
      | None \<Rightarrow> drop_slash (collapse_spaces (trim (to_lower resource))))"

record normalized_input =
  ni_action :: string
  ni_actor_id :: string
  ni_resource :: string
  ni_policy_snapshot :: string
  ni_environment :: string

definition getNormalizedInput :: "(string \<Rightarrow> url_parts option) \<Rightarrow> string \<Rightarrow> evaluation_request \<Rightarrow> normalized_input" where
  "getNormalizedInput parse_url environment r =
     \<lparr>ni_action = to_upper (trim (rq_action r)), ni_actor_id = trim (rq_actor_id r),
      ni_resource = normalizeResource parse_url (rq_resource r),
      ni_policy_snapshot = trim (rq_policy_snapshot_hash r), ni_environment = environment\<rparr>"

fun decision_string :: "decision \<Rightarrow> string" where
  "decision_string ALLOW = ''ALLOW''"
| "decision_string DENY = ''DENY''"
| "decision_string decision.REQUIRE_APPROVAL = ''REQUIRE_APPROVAL''"
| "decision_string REQUIRE_ESCALATION = ''REQUIRE_ESCALATION''"
| "decision_string SIMULATE_ONLY = ''SIMULATE_ONLY''"
| "decision_string SANDBOX_ONLY = ''SANDBOX_ONLY''"
| "decision_string READ_ONLY = ''READ_ONLY''"

text \<open>The texts that are hashed: the fields in the sorted order of their names.\<close>

definition id_text :: "normalized_input \<Rightarrow> decision \<Rightarrow> string" where
  "id_text n d = json_object [(''action'', ni_action n), (''actor_id'', ni_actor_id n), (''decision'', decision_string d),
     (''environment'', ni_environment n), (''policy_snapshot'', ni_policy_snapshot n), (''resource'', ni_resource n)]"

definition fingerprint_text :: "normalized_input \<Rightarrow> string" where
  "fingerprint_text n = json_object [(''action'', ni_action n), (''actor_id'', ni_actor_id n),
     (''environment'', ni_environment n), (''policy_snapshot'', ni_policy_snapshot n), (''resource'', ni_resource n)]"

definition generateDeterministicId :: "(string \<Rightarrow> string) \<Rightarrow> normalized_input \<Rightarrow> policy_evaluation_result \<Rightarrow> string" where
  "generateDeterministicId sha n p = ''decision-'' @ take 16 (sha (id_text n (pe_decision p)))"

definition generateInputFingerprint :: "(string \<Rightarrow> string) \<Rightarrow> normalized_input \<Rightarrow> string" where
  "generateInputFingerprint sha n = ''input-'' @ take 16 (sha (fingerprint_text n))"

fun mapDecisionToEnforcement :: "decision \<Rightarrow> enforcement_mode" where
  "mapDecisionToEnforcement DENY = Hard_block"
| "mapDecisionToEnforcement decision.REQUIRE_APPROVAL = Approval_required"
| "mapDecisionToEnforcement REQUIRE_ESCALATION = Approval_required"
| "mapDecisionToEnforcement SIMULATE_ONLY = Simulation"
| "mapDecisionToEnforcement SANDBOX_ONLY = Hard_block"
| "mapDecisionToEnforcement READ_ONLY = Hard_block"
| "mapDecisionToEnforcement ALLOW = Hard_block"

section \<open>Evaluation\<close>

record platform =
  pf_sha :: "string \<Rightarrow> string"
  pf_url :: "string \<Rightarrow> url_parts option"
  pf_regex :: regex
  pf_mode :: "string option"

definition decide :: "platform \<Rightarrow> int \<Rightarrow> evaluation_request \<Rightarrow> engine_state \<Rightarrow> engine_error + governance_decision" where
  "decide pf now r st =
     (case evaluatePolicy (pf_regex pf) (en_environment st) (en_cache st) now r of
        Inl e \<Rightarrow> Inl e
      | Inr p \<Rightarrow>
          (let n = getNormalizedInput (pf_url pf) (en_environment st) r
           in Inr \<lparr>gd_decision = pe_decision p, gd_risk_level = pe_risk_level p,
             gd_decision_id = generateDeterministicId (pf_sha pf) n p,
             gd_input_fingerprint = generateInputFingerprint (pf_sha pf) n,
             gd_decision_schema_version = SCHEMA_VERSION, gd_policy_schema_version = SCHEMA_VERSION,
             gd_trace_id = rq_trace_id r, gd_correlation_id = rq_correlation_id r, gd_causation_id = rq_causation_id r,
             gd_actor_id = rq_actor_id r, gd_actor_type = actor_of (rq_actor_type r),
             gd_environment = en_environment st, gd_action = rq_action r, gd_resource = rq_resource r,
             gd_matched_policy_ids = pe_matched_policy_ids p, gd_policy_snapshot_hash = rq_policy_snapshot_hash r,
             gd_reasons = pe_reasons p, gd_enforcement_mode = mapDecisionToEnforcement (pe_decision p),
             gd_created_at = now, gd_expires_at = None, gd_required_authorization = None\<rparr>))"

text \<open>What follows a decision: metrics, integrity check, snapshot, sampler and audit entry.\<close>

definition record_decision ::
  "platform \<Rightarrow> int \<Rightarrow> int \<Rightarrow> evaluation_request \<Rightarrow> governance_decision \<Rightarrow> engine_state \<Rightarrow> engine_state" where
  "record_decision pf now ms r d st =
     (let m = recordGovernanceDecision (decision_string (gd_decision d)) (risk_name (gd_risk_level d)) (gd_action d)
            (en_environment st) ms (en_metrics st);
          (m', check) = checkGovernanceIntegrity True now m (length (en_samples st)) (en_audit_failures st);
          snapshot = captureGovernanceSnapshot (gd_decision_id d) (gd_input_fingerprint d) (gd_policy_snapshot_hash d)
            (gd_actor_id d) (rq_actor_type r) (en_environment st) (gd_action d) (gd_resource d) (gd_trace_id d)
            (gd_correlation_id d) (case gd_causation_id d of Some c \<Rightarrow> c | None \<Rightarrow> []) (getGovernanceMode (pf_mode pf))
            (ir_state check) now
      in st\<lparr>en_metrics := m', en_samples := addSample snapshot (en_samples st),
            en_audit := en_audit st @ [(d, snapshot, ir_state check, ms)]\<rparr>)"

definition record_failure :: "engine_error \<Rightarrow> engine_state \<Rightarrow> engine_state" where
  "record_failure e st =
     st\<lparr>en_metrics := recordGovernanceEvaluationFailure (error_message e) (en_environment st) (en_metrics st)\<rparr>"

definition evaluate ::
  "platform \<Rightarrow> int \<Rightarrow> int \<Rightarrow> evaluation_request \<Rightarrow> engine_state \<Rightarrow> engine_state \<times> (engine_error + governance_decision)" where
  "evaluate pf now ms r st =
     (case validateRequest r of
        Inl e \<Rightarrow> (record_failure e st, Inl e)
      | Inr _ \<Rightarrow>
          (let st1 = (if isGovernanceBypassed (en_freeze st) then st\<lparr>en_freeze := logBypassWarning (en_freeze st)\<rparr> else st)
           in case decide pf now r st1 of
                Inl e \<Rightarrow> (record_failure e st1, Inl e)
              | Inr d \<Rightarrow> (record_decision pf now ms r d st1, Inr d)))"

definition getEnvironment :: "engine_state \<Rightarrow> string" where
  "getEnvironment st = en_environment st"

definition getSchemaVersion :: "engine_state \<Rightarrow> string" where
  "getSchemaVersion st = SCHEMA_VERSION"

section \<open>Laws of the identity\<close>




section \<open>Laws of the evaluation\<close>

lemma evaluate_Inr:
  assumes "evaluate pf now ms r st = (st', Inr d)"
  obtains p where "validateRequest r = Inr ()"
    "evaluatePolicy (pf_regex pf) (en_environment st) (en_cache st) now r = Inr p"
    "gd_decision d = pe_decision p" "gd_risk_level d = pe_risk_level p"
    "gd_decision_id d = generateDeterministicId (pf_sha pf) (getNormalizedInput (pf_url pf) (en_environment st) r) p"
    "gd_input_fingerprint d = generateInputFingerprint (pf_sha pf) (getNormalizedInput (pf_url pf) (en_environment st) r)"
    "gd_enforcement_mode d = mapDecisionToEnforcement (pe_decision p)"
    "gd_policy_snapshot_hash d = rq_policy_snapshot_hash r" "gd_decision_schema_version d = SCHEMA_VERSION"
    "gd_action d = rq_action r" "gd_resource d = rq_resource r" "gd_actor_id d = rq_actor_id r"
    "gd_trace_id d = rq_trace_id r" "gd_correlation_id d = rq_correlation_id r" "gd_causation_id d = rq_causation_id r"
proof -
  have v: "validateRequest r = Inr ()"
    using assms by (cases "validateRequest r") (simp_all add: evaluate_def)
  obtain p where "evaluatePolicy (pf_regex pf) (en_environment st) (en_cache st) now r = Inr p"
    using assms v by (cases "evaluatePolicy (pf_regex pf) (en_environment st) (en_cache st) now r")
      (auto simp: evaluate_def decide_def Let_def split: if_splits)
  then show thesis using assms v that by (auto simp: evaluate_def decide_def Let_def split: if_splits)
qed

lemma evaluate_enforcement:
  "evaluate pf now ms r st = (st', Inr d) \<Longrightarrow> gd_enforcement_mode d = mapDecisionToEnforcement (gd_decision d)"
  by (erule evaluate_Inr) simp

lemma evaluatePolicy_no_dsl:
  "getActivePoliciesSync now cache = [] \<Longrightarrow> evaluatePolicy rx env cache now r = Inr (evaluateHardcodedPolicy env r)"
  by (simp add: evaluatePolicy_def)

lemma evaluate_valid:
  "validateRequest r = Inr () \<Longrightarrow> evaluatePolicy (pf_regex pf) (en_environment st) (en_cache st) now r = Inr p \<Longrightarrow>
     \<exists>st' d. evaluate pf now ms r st = (st', Inr d) \<and> gd_decision d = pe_decision p \<and> gd_risk_level d = pe_risk_level p"
  by (simp add: evaluate_def decide_def Let_def)

section \<open>Properties\<close>

definition isolated :: "string \<Rightarrow> string \<Rightarrow> bool" where
  "isolated environment resource =
     (environment = ''sandbox'' \<and> (str_includes resource ''45.76.167.6'' \<or> isProductionHostname resource))"

lemma hardcoded_decision:
  "pe_decision (evaluateHardcodedPolicy env r) =
     (if isolated env (rq_resource r) then DENY
      else if inferRiskLevel r = HIGH \<or> inferRiskLevel r = CRITICAL then decision.REQUIRE_APPROVAL else ALLOW)"
  by (simp add: evaluateHardcodedPolicy_def isolated_def split: risk_level.split)

lemma fallback_law:
  assumes "validateRequest r = Inr ()" and "getActivePoliciesSync now (en_cache st) = []"
  shows "\<exists>st' d. evaluate pf now ms r st = (st', Inr d) \<and>
    gd_decision d = (if isolated (en_environment st) (rq_resource r) then DENY
      else if inferRiskLevel r = HIGH \<or> inferRiskLevel r = CRITICAL then decision.REQUIRE_APPROVAL else ALLOW) \<and>
    (gd_decision d = ALLOW \<longrightarrow> gd_enforcement_mode d = Hard_block)"
proof -
  obtain st' d where ev: "evaluate pf now ms r st = (st', Inr d)"
    "gd_decision d = pe_decision (evaluateHardcodedPolicy (en_environment st) r)"
    using evaluate_valid [OF assms(1) evaluatePolicy_no_dsl [OF assms(2)]] by blast
  have "gd_enforcement_mode d = mapDecisionToEnforcement (gd_decision d)" by (rule evaluate_enforcement [OF ev(1)])
  then show ?thesis using ev hardcoded_decision by auto
qed

text \<open>
  The fallback rules: when no cached policy applies, every valid request gets a decision, and the
  decision is a denial for a production resource in the sandbox, an approval requirement for high and
  critical risk, and an allowance otherwise, whether or not the break-glass switch is on. The
  enforcement mode of an allowance is the hard block of a denial.
\<close>

theorem fallback_decides:
  assumes "validateRequest r = Inr ()" and "getActivePoliciesSync now (en_cache st) = []"
  shows "\<exists>st' d. evaluate pf now ms r st = (st', Inr d) \<and>
    gd_decision d = (if isolated (en_environment st) (rq_resource r) then DENY
      else if inferRiskLevel r = HIGH \<or> inferRiskLevel r = CRITICAL then decision.REQUIRE_APPROVAL else ALLOW) \<and>
    (gd_decision d = ALLOW \<longrightarrow> gd_enforcement_mode d = Hard_block)"
  by (rule fallback_law [OF assms])

definition sample_platform :: platform where
  "sample_platform = \<lparr>pf_sha = rev, pf_url = (\<lambda>_. None), pf_regex = (\<lambda>_ _. None), pf_mode = None\<rparr>"

definition sample_request :: "string \<Rightarrow> evaluation_request" where
  "sample_request resource = \<lparr>rq_action = ''save'', rq_actor_id = ''alice'', rq_actor_type = ''human'', rq_resource = resource,
     rq_trace_id = ''t'', rq_correlation_id = ''c'', rq_causation_id = None, rq_policy_snapshot_hash = ''h'',
     rq_risk_level = None, rq_tenant_id = None, rq_metadata = None\<rparr>"

definition sandbox_engine :: "(governance_policy list \<times> int) option \<Rightarrow> engine_state" where
  "sandbox_engine cache = \<lparr>en_environment = ''sandbox'', en_freeze = loadFreeze None 0,
     en_cache = \<lparr>dk_cache = cache, dk_failures = 0, dk_successes = 0\<rparr>, en_metrics = no_metrics,
     en_samples = [], en_audit = [], en_audit_failures = 0\<rparr>"

lemma sample_valid: "trim resource \<noteq> [] \<Longrightarrow> validateRequest (sample_request resource) = Inr ()"
  by (simp add: validateRequest_def sample_request_def trim_def trim_start_def is_space_def)

theorem fallback_decides_witness:
  "\<exists>st' d. evaluate sample_platform 0 1 (sample_request ''45.76.167.6'') (sandbox_engine None) = (st', Inr d) \<and>
     gd_decision d = DENY"
proof -
  have "validateRequest (sample_request ''45.76.167.6'') = Inr ()"
    by (rule sample_valid) (simp add: trim_def trim_start_def is_space_def)
  moreover have "getActivePoliciesSync 0 (en_cache (sandbox_engine None)) = []"
    by (simp add: sandbox_engine_def getActivePoliciesSync_def isCacheValid_def)
  moreover have "isolated (en_environment (sandbox_engine None)) (rq_resource (sample_request ''45.76.167.6''))"
    by (simp add: sandbox_engine_def isolated_def sample_request_def)
  ultimately show ?thesis
    using fallback_decides [of "sample_request ''45.76.167.6''" 0 "sandbox_engine None" sample_platform 1] by auto
qed

lemma evaluatePolicy_first:
  assumes "dk_cache cache = Some (p # ps, t0)" "now < t0 + 10000"
    and "evaluateRule rx (dsl_context_of r) now (gp_rule p) = Inr True" "dr_escalate_to (gp_rule p) = Some esc"
    and "esc \<noteq> Other_escalation []"
  shows "\<exists>q. RuntimeEngine.evaluatePolicy rx env cache now r = Inr q \<and>
    (pe_decision q, pe_risk_level q) = mapDSLEscalationToDecision esc r \<and>
    pe_matched_policy_ids q = (if gp_id p = [] then [] else [gp_id p])"
proof -
  have sync: "getActivePoliciesSync now cache = p # ps"
    using assms(1,2) by (simp add: getActivePoliciesSync_def isCacheValid_def cached_policies_def CACHE_TTL_MS_def)
  obtain res where res: "DslPolicy.evaluatePolicy rx p (dsl_context_of r) now = Inr res" "ds_matched res"
    "ds_escalation res = Some esc" "ds_policy_id res = Some (gp_id p)"
    using assms(3,4) by (simp add: DslPolicy.evaluatePolicy_def)
  have "effective_escalation res = Some esc"
    using res assms(5) by (cases esc) (simp_all add: effective_escalation_def)
  then show ?thesis using res
    by (simp add: RuntimeEngine.evaluatePolicy_def sync case_prod_beta)
qed

text \<open>
  Stored policies come first, and stop applying on their own: while the cache is fresh, the
  escalation of a first policy that matches decides, so that a WARN policy allows even a production
  resource in the sandbox; ten seconds after the last load the same request is decided by the fallback
  rules as if the policy did not exist, so that a BLOCK policy no longer blocks.
\<close>

theorem stored_policies_first_and_expire:
  assumes "validateRequest r = Inr ()" and "dk_cache (en_cache st) = Some (p # ps, t0)"
    and "evaluateRule (pf_regex pf) (dsl_context_of r) now (gp_rule p) = Inr True"
    and "dr_escalate_to (gp_rule p) = Some esc" and "esc \<noteq> Other_escalation []"
  shows "\<exists>st' d. evaluate pf now ms r st = (st', Inr d) \<and>
    gd_decision d = (if now < t0 + 10000 then fst (mapDSLEscalationToDecision esc r)
      else if isolated (en_environment st) (rq_resource r) then DENY
      else if inferRiskLevel r = HIGH \<or> inferRiskLevel r = CRITICAL then decision.REQUIRE_APPROVAL else ALLOW)"
proof (cases "now < t0 + 10000")
  case True
  obtain q where q: "RuntimeEngine.evaluatePolicy (pf_regex pf) (en_environment st) (en_cache st) now r = Inr q"
    "(pe_decision q, pe_risk_level q) = mapDSLEscalationToDecision esc r"
    using evaluatePolicy_first [OF assms(2) True assms(3-5)] by blast
  then show ?thesis using evaluate_valid [OF assms(1) q(1)] True by (metis fst_conv)
next
  case False
  then have "getActivePoliciesSync now (en_cache st) = []"
    using assms(2) by (simp add: getActivePoliciesSync_def isCacheValid_def CACHE_TTL_MS_def)
  then show ?thesis using fallback_law [OF assms(1), of now st pf ms] False by auto
qed

definition always :: "escalation \<Rightarrow> dsl_rule" where
  "always e = Dsl_rule AND None None Undefined None (Some e) None None"

theorem stored_policies_first_and_expire_witness:
  "\<exists>st' d. evaluate sample_platform 20000 1 (sample_request ''main'') (sandbox_engine (Some ([sample_policy ''p'' (always BLOCK)], 0))) =
     (st', Inr d) \<and> gd_decision d = ALLOW"
proof -
  have v: "validateRequest (sample_request ''main'') = Inr ()"
    by (rule sample_valid) (simp add: trim_def trim_start_def is_space_def)
  have prod: "\<not> isolated ''sandbox'' ''main''"
    by (simp add: isolated_def isProductionHostname_def productionPatterns_def to_lower_def lower_char_def)
  show ?thesis
    using stored_policies_first_and_expire [OF v, of "sandbox_engine (Some ([sample_policy ''p'' (always BLOCK)], 0))"
        "sample_policy ''p'' (always BLOCK)" "[]" 0 sample_platform 20000 BLOCK 1] prod
    by (simp add: sandbox_engine_def sample_policy_def always_def sample_request_def inferRiskLevel_def)
qed


lemma sandbox_allows:
  assumes "trim resource \<noteq> []" "\<not> isolated ''sandbox'' resource"
  obtains st' d where "evaluate sample_platform now ms (sample_request resource) (sandbox_engine None) = (st', Inr d)"
    "gd_decision d = ALLOW"
proof -
  have "getActivePoliciesSync now (en_cache (sandbox_engine None)) = []"
    by (simp add: sandbox_engine_def getActivePoliciesSync_def isCacheValid_def)
  moreover have "\<not> isolated (en_environment (sandbox_engine None)) (rq_resource (sample_request resource))"
    using assms(2) by (simp add: sandbox_engine_def sample_request_def)
  moreover have "inferRiskLevel (sample_request resource) = MODERATE"
    by (simp add: inferRiskLevel_def sample_request_def)
  ultimately show thesis
    using fallback_law [OF sample_valid [OF assms(1)], of now "sandbox_engine None" sample_platform ms] that by auto
qed

lemma sample_resources:
  "trim ''main'' \<noteq> []" "trim ''Main/'' \<noteq> []" "\<not> isolated ''sandbox'' ''main''" "\<not> isolated ''sandbox'' ''Main/''"
  by (simp_all add: trim_def trim_start_def is_space_def isolated_def isProductionHostname_def productionPatterns_def
      to_lower_def lower_char_def)



lemma record_decision_audit:
  "\<exists>snap s. en_audit (record_decision pf now ms r d st) = en_audit st @ [(d, snap, s, ms)] \<and>
     en_samples (record_decision pf now ms r d st) = addSample snap (en_samples st) \<and>
     gs_decision_id snap = gd_decision_id d \<and> gs_resource snap = gd_resource d \<and> gs_integrity_state snap = s \<and>
     en_environment (record_decision pf now ms r d st) = en_environment st \<and>
     en_cache (record_decision pf now ms r d st) = en_cache st \<and>
     en_freeze (record_decision pf now ms r d st) = en_freeze st"
  by (simp add: record_decision_def Let_def case_prod_beta captureGovernanceSnapshot_def)

lemma require_fields_iff: "require_fields fs = Inr () \<longleftrightarrow> (\<forall>(f, v)\<in>set fs. trim v \<noteq> [])"
  by (induction fs rule: require_fields.induct) auto

lemma validateRequest_iff:
  "validateRequest r = Inr () \<longleftrightarrow>
     trim (rq_action r) \<noteq> [] \<and> trim (rq_actor_id r) \<noteq> [] \<and> rq_actor_type r \<in> {''human'', ''agent'', ''service''} \<and>
     trim (rq_resource r) \<noteq> [] \<and> trim (rq_trace_id r) \<noteq> [] \<and> trim (rq_correlation_id r) \<noteq> [] \<and>
     trim (rq_policy_snapshot_hash r) \<noteq> []"
  by (cases "trim (rq_action r) = []"; cases "trim (rq_actor_id r) = []")
    (simp_all add: validateRequest_def require_fields_iff del: require_fields.simps, simp_all add: validateRequest_def require_fields_iff)

lemma evaluate_effects:
  "(case evaluate pf now ms r st of
      (st', Inr d) \<Rightarrow>
        (trim (rq_action r) \<noteq> [] \<and> trim (rq_actor_id r) \<noteq> [] \<and> rq_actor_type r \<in> {''human'', ''agent'', ''service''} \<and>
         trim (rq_resource r) \<noteq> [] \<and> trim (rq_trace_id r) \<noteq> [] \<and> trim (rq_correlation_id r) \<noteq> [] \<and>
         trim (rq_policy_snapshot_hash r) \<noteq> []) \<and> en_cache st' = en_cache st \<and>
        (\<exists>snap s. en_audit st' = en_audit st @ [(d, snap, s, ms)] \<and> en_samples st' = addSample snap (en_samples st) \<and>
           gs_decision_id snap = gd_decision_id d \<and> gs_resource snap = gd_resource d \<and> gs_integrity_state snap = s)
    | (st', Inl e) \<Rightarrow>
        en_audit st' = en_audit st \<and> en_samples st' = en_samples st \<and> en_cache st' = en_cache st \<and>
        (let tags = Some [(''reason'', Some (error_message e)), (''environment'', Some (en_environment st))]
         in getCounter ''governance_evaluation_failures_total'' tags (en_metrics st') =
              getCounter ''governance_evaluation_failures_total'' tags (en_metrics st) + 1))"
proof (cases "evaluate pf now ms r st")
  case (Pair st' res)
  show ?thesis
  proof (cases res)
    case (Inl e)
    then show ?thesis using Pair
      by (auto simp: evaluate_def Let_def record_failure_def recordGovernanceEvaluationFailure_def
          split: sum.splits if_splits)
  next
    case (Inr d)
    have v: "validateRequest r = Inr ()" by (rule evaluate_Inr) (use Pair Inr in auto)
    obtain st1 where st1: "st' = record_decision pf now ms r d st1" "en_audit st1 = en_audit st"
      "en_samples st1 = en_samples st" "en_cache st1 = en_cache st"
    proof (cases "isGovernanceBypassed (en_freeze st)")
      case True
      then show thesis using that [of "st\<lparr>en_freeze := logBypassWarning (en_freeze st)\<rparr>"] Pair Inr v
        by (auto simp: evaluate_def Let_def split: sum.splits)
    next
      case False
      then show thesis using that [of st] Pair Inr v by (auto simp: evaluate_def Let_def split: sum.splits)
    qed
    obtain snap s where rec: "en_audit st' = en_audit st @ [(d, snap, s, ms)]" "en_samples st' = addSample snap (en_samples st)"
      "gs_decision_id snap = gd_decision_id d" "gs_resource snap = gd_resource d" "gs_integrity_state snap = s"
      "en_cache st' = en_cache st"
      using record_decision_audit [of pf now ms r d st1] st1 by auto
    then have "\<exists>snap s. en_audit st' = en_audit st @ [(d, snap, s, ms)] \<and> en_samples st' = addSample snap (en_samples st) \<and>
           gs_decision_id snap = gd_decision_id d \<and> gs_resource snap = gd_resource d \<and> gs_integrity_state snap = s"
      by blast
    then show ?thesis using Pair Inr v rec(6) unfolding validateRequest_iff by simp
  qed
qed



text \<open>
  The break-glass switch never changes a decision: for any two positions of the switch, an
  evaluation returns the same result, error or decision with the same enforcement mode, and appends
  the same number of audit entries; with the switch on, each valid request is counted as a bypass.
\<close>

theorem bypass_only_logged:
  "snd (evaluate pf now ms r (st\<lparr>en_freeze := f\<rparr>)) = snd (evaluate pf now ms r st) \<and>
   length (en_audit (fst (evaluate pf now ms r (st\<lparr>en_freeze := f\<rparr>)))) = length (en_audit (fst (evaluate pf now ms r st))) \<and>
   fz_count (en_freeze (fst (evaluate pf now ms r st))) =
     fz_count (en_freeze st) + (if isGovernanceBypassed (en_freeze st) \<and> validateRequest r = Inr () then 1 else 0)"
proof (cases "validateRequest r")
  case (Inl e)
  then show ?thesis by (simp add: evaluate_def record_failure_def)
next
  case (Inr u)
  have dec: "decide pf now r (st\<lparr>en_freeze := g\<rparr>) = decide pf now r st" for g
    by (cases "RuntimeEngine.evaluatePolicy (pf_regex pf) (en_environment st) (en_cache st) now r")
      (simp_all add: decide_def Let_def)
  have rec: "length (en_audit (record_decision pf now ms r d s)) = length (en_audit s) + 1"
    "en_freeze (record_decision pf now ms r d s) = en_freeze s" for d s
    using record_decision_audit [of pf now ms r d s] by auto
  show ?thesis
  proof (cases "decide pf now r st")
    case (Inl e)
    then show ?thesis using Inr by (simp add: evaluate_def Let_def dec record_failure_def logBypassWarning_def)
  next
    case d: (Inr d)
    then show ?thesis using Inr by (simp add: evaluate_def Let_def dec rec logBypassWarning_def)
  qed
qed

definition run :: "platform \<Rightarrow> (int \<times> int \<times> evaluation_request) list \<Rightarrow> engine_state \<Rightarrow> engine_state" where
  "run pf evs st = foldl (\<lambda>s (now, ms, r). fst (evaluate pf now ms r s)) st evs"

lemma audit_extends:
  "\<exists>as. en_audit (fst (evaluate pf now ms r st)) = en_audit st @ as \<and>
     en_samples (fst (evaluate pf now ms r st)) = foldl (\<lambda>b x. addSample x b) (en_samples st) (map (\<lambda>a. fst (snd a)) as)"
proof (cases "evaluate pf now ms r st")
  case (Pair st' res)
  show ?thesis
  proof (cases res)
    case (Inl e)
    then show ?thesis using evaluate_effects [where pf = pf and now = now and ms = ms and r = r and st = st] Pair by (intro exI [of _ "[]"]) simp
  next
    case (Inr d)
    then obtain snap s where "en_audit st' = en_audit st @ [(d, snap, s, ms)]" "en_samples st' = addSample snap (en_samples st)"
      using evaluate_effects [where pf = pf and now = now and ms = ms and r = r and st = st] Pair by auto
    then show ?thesis using Pair by (intro exI [of _ "[(d, snap, s, ms)]"]) simp
  qed
qed

lemma run_samples:
  "en_samples (run pf evs st) = foldl (\<lambda>b x. addSample x b) (en_samples st) (map (\<lambda>a. fst (snd a)) (drop (length (en_audit st)) (en_audit (run pf evs st)))) \<and>
   (\<exists>as. en_audit (run pf evs st) = en_audit st @ as)"
proof (induction evs rule: rev_induct)
  case Nil
  then show ?case by (simp add: run_def)
next
  case (snoc ev evs)
  obtain now ms r where ev: "ev = (now, ms, r)" by (metis prod_cases3)
  let ?s = "run pf evs st"
  have step: "run pf (evs @ [ev]) st = fst (evaluate pf now ms r ?s)" by (simp add: run_def ev)
  obtain as where as: "en_audit (run pf (evs @ [ev]) st) = en_audit ?s @ as"
    "en_samples (run pf (evs @ [ev]) st) = foldl (\<lambda>b x. addSample x b) (en_samples ?s) (map (\<lambda>a. fst (snd a)) as)"
    using audit_extends [of pf now ms r ?s] step by auto
  obtain bs where bs: "en_audit ?s = en_audit st @ bs" using snoc by blast
  then show ?case using snoc as by simp
qed

text \<open>
  The replay sample is the tail of the audit trail: after any sequence of evaluations of a newly
  constructed engine, whatever their outcomes, the sampled snapshots are those of the last twenty audit
  entries, oldest first.
\<close>

theorem samples_are_audit_tail:
  assumes "new_engine environment app_env freeze = Inr st"
  shows "en_samples (run pf evs st) =
    drop (length (en_audit (run pf evs st)) - 20) (map (\<lambda>(d, snap, s, ms). snap) (en_audit (run pf evs st)))"
proof -
  have "en_samples st = []" "en_audit st = []" using assms by (auto simp: new_engine_def Let_def split: if_splits)
  then have "en_samples (run pf evs st) = foldl (\<lambda>b x. addSample x b) [] (map (\<lambda>a. fst (snd a)) (en_audit (run pf evs st)))"
    using run_samples [of pf evs st] by simp
  also have "\<dots> = drop (length (en_audit (run pf evs st)) - 20) (map (\<lambda>a. fst (snd a)) (en_audit (run pf evs st)))"
    using sampler.push_all_suffix [of "map (\<lambda>a. fst (snd a)) (en_audit (run pf evs st))"] by (simp add: MAX_SAMPLE_SIZE_def)
  finally show ?thesis by (simp add: case_prod_unfold)
qed

theorem samples_are_audit_tail_witness:
  "\<exists>st. new_engine None None (loadFreeze None 0) = Inr st \<and>
     en_samples (run sample_platform [(0, 1, sample_request ''main'')] st) =
       map (\<lambda>(d, snap, s, ms). snap) (en_audit (run sample_platform [(0, 1, sample_request ''main'')] st)) \<and>
     length (en_audit (run sample_platform [(0, 1, sample_request ''main'')] st)) = 1"
proof -
  have new: "new_engine None None (loadFreeze None 0) = Inr (sandbox_engine None)"
    by (simp add: new_engine_def Let_def sandbox_engine_def)
  obtain st' d where ev: "evaluate sample_platform 0 1 (sample_request ''main'') (sandbox_engine None) = (st', Inr d)"
    by (rule sandbox_allows [OF sample_resources(1,3)])
  then have "length (en_audit st') = 1"
    using evaluate_effects [where pf = sample_platform and now = 0 and ms = 1 and r = "sample_request ''main''"
        and st = "sandbox_engine None"] by (auto simp: sandbox_engine_def)
  then show ?thesis
    using samples_are_audit_tail [OF new, of sample_platform "[(0, 1, sample_request ''main'')]"] new ev
    by (simp add: run_def)
qed

end
