(* ===== verification/Replay.thy ===== *)
theory Replay
  imports RuntimeEngine
begin

text \<open>
  Replay validation, \<open>core/governance/governance-replay.ts\<close>: a snapshot is turned back into a
  request, evaluated again by the live engine, and the two decision ids are compared. The replayed
  evaluation is an evaluation like any other, so it changes the engine's metrics, samples and audit
  trail. The clock readings of a replay (its time, its evaluation time and its latency) are arguments.
\<close>

section \<open>Results\<close>

datatype drift_type = Normalization_drift | Policy_drift | Schema_drift | Serialization_drift
  | Environment_drift | Identifier_drift | Engine_drift | Unknown_drift

record replay_result =
  rv_decision_id_original :: string
  rv_input_fingerprint :: string
  rv_governance_snapshot_hash :: string
  rv_created_at :: "int option"
  rv_decision_id_replayed :: string
  rv_replay_timestamp :: int
  rv_match :: bool
  rv_normalization_version_match :: bool
  rv_policy_snapshot_hash_match :: bool
  rv_governance_schema_version_match :: bool
  rv_governance_engine_version_match :: bool
  rv_divergence_reason :: "string option"
  rv_divergence_classification :: "drift_type option"
  rv_latency_ms :: int

definition classifyReplayDivergence :: "replay_result \<Rightarrow> drift_type" where
  "classifyReplayDivergence r =
     (if \<not> rv_normalization_version_match r then Normalization_drift
      else if \<not> rv_policy_snapshot_hash_match r then Policy_drift
      else if \<not> rv_governance_schema_version_match r then Schema_drift
      else if \<not> rv_governance_engine_version_match r then Engine_drift
      else if \<not> rv_match r then Identifier_drift
      else Unknown_drift)"

section \<open>One replay\<close>

text \<open>The request has no risk level, tenant or metadata: a snapshot does not keep them.\<close>

definition replay_request :: "governance_snapshot \<Rightarrow> evaluation_request" where
  "replay_request s =
     \<lparr>rq_action = gs_action s, rq_actor_id = gs_actor_id s, rq_actor_type = gs_actor_type s, rq_resource = gs_resource s,
      rq_trace_id = gs_trace_id s, rq_correlation_id = gs_correlation_id s, rq_causation_id = Some (gs_causation_id s),
      rq_policy_snapshot_hash = gs_policy_snapshot_hash s, rq_risk_level = None, rq_tenant_id = None, rq_metadata = None\<rparr>"

record replay_clock =
  ck_now :: int
  ck_ms :: int
  ck_latency :: int

definition replayed_result :: "governance_snapshot \<Rightarrow> governance_decision \<Rightarrow> replay_clock \<Rightarrow> replay_result" where
  "replayed_result s d ck =
     (let eq = (gd_decision_id d = gs_decision_id s);
          version = (gd_decision_schema_version d = gv_governance_schema (gs_versions s));
          base = \<lparr>rv_decision_id_original = gs_decision_id s, rv_input_fingerprint = gs_input_fingerprint s,
            rv_governance_snapshot_hash = gs_decision_id s, rv_created_at = gs_created_at s,
            rv_decision_id_replayed = gd_decision_id d, rv_replay_timestamp = ck_now ck, rv_match = eq,
            rv_normalization_version_match = version,
            rv_policy_snapshot_hash_match = (gd_policy_snapshot_hash d = gs_policy_snapshot_hash s),
            rv_governance_schema_version_match = version, rv_governance_engine_version_match = True,
            rv_divergence_reason = (if eq then None
              else Some (''decision_id mismatch: '' @ gs_decision_id s @ '' (original) vs '' @ gd_decision_id d @ '' (replayed)'')),
            rv_divergence_classification = None, rv_latency_ms = ck_latency ck\<rparr>
      in base\<lparr>rv_divergence_classification := if eq then None else Some (classifyReplayDivergence base)\<rparr>)"

definition failed_result :: "governance_snapshot \<Rightarrow> engine_error \<Rightarrow> replay_clock \<Rightarrow> replay_result" where
  "failed_result s e ck =
     \<lparr>rv_decision_id_original = gs_decision_id s, rv_input_fingerprint = gs_input_fingerprint s,
      rv_governance_snapshot_hash = gs_decision_id s, rv_created_at = gs_created_at s, rv_decision_id_replayed = ''ERROR'',
      rv_replay_timestamp = ck_now ck, rv_match = False, rv_normalization_version_match = False,
      rv_policy_snapshot_hash_match = False, rv_governance_schema_version_match = False,
      rv_governance_engine_version_match = False, rv_divergence_reason = Some (''Replay failed: '' @ error_message e),
      rv_divergence_classification = Some Unknown_drift, rv_latency_ms = ck_latency ck\<rparr>"

definition validateReplayIntegrity ::
  "platform \<Rightarrow> replay_clock \<Rightarrow> governance_snapshot \<Rightarrow> engine_state \<Rightarrow> engine_state \<times> replay_result" where
  "validateReplayIntegrity pf ck s st =
     (case evaluate pf (ck_now ck) (ck_ms ck) (replay_request s) st of
        (st', Inr d) \<Rightarrow> (st', replayed_result s d ck)
      | (st', Inl e) \<Rightarrow> (st', failed_result s e ck))"

section \<open>A batch of replays\<close>

record replay_summary =
  rs_total_samples :: nat
  rs_matches :: nat
  rs_divergences :: nat
  rs_match_rate :: jsnum
  rs_avg_latency :: jsnum
  rs_p95_latency :: "int option"

record divergence =
  dv_decision_id :: string
  dv_input_fingerprint :: string
  dv_governance_snapshot_hash :: string
  dv_reason :: string
  dv_drift_type :: "drift_type option"
  dv_created_at :: "int option"
  dv_replayed_at :: int

record replay_report =
  rp_window :: string
  rp_timestamp :: int
  rp_summary :: replay_summary
  rp_divergences :: "divergence list"
  rp_distribution :: "(drift_type, nat) jmap option"

fun replay_all :: "platform \<Rightarrow> (replay_clock \<times> governance_snapshot) list \<Rightarrow> engine_state \<Rightarrow> engine_state \<times> replay_result list" where
  "replay_all pf [] st = (st, [])"
| "replay_all pf ((ck, s) # ss) st =
     (let (st', r) = validateReplayIntegrity pf ck s st; (st'', rs) = replay_all pf ss st' in (st'', r # rs))"

definition summarize :: "replay_result list \<Rightarrow> replay_summary" where
  "summarize results =
     (let matches = length (filter rv_match results); latencies = map rv_latency_ms results
      in \<lparr>rs_total_samples = length results, rs_matches = matches,
          rs_divergences = length (filter (\<lambda>r. \<not> rv_match r) results),
          rs_match_rate = (if results = [] then Fin 100 else jmul (jdiv (jnat matches) (jnat (length results))) (Fin 100)),
          rs_avg_latency = jdiv (jsum (map (\<lambda>l. Fin (of_int l)) latencies)) (jnat (length latencies)),
          rs_p95_latency = percentile (jlit (95 / 100)) (sort latencies)\<rparr>)"

definition DRIFT_TYPES :: "drift_type list" where
  "DRIFT_TYPES = [Normalization_drift, Policy_drift, Schema_drift, Serialization_drift, Environment_drift,
     Identifier_drift, Engine_drift, Unknown_drift]"

definition drift_distribution :: "replay_result list \<Rightarrow> (drift_type, nat) jmap" where
  "drift_distribution results =
     foldl (\<lambda>m r. case rv_divergence_classification r of
         Some t \<Rightarrow> jm_set t ((case jm_get m t of Some n \<Rightarrow> n | None \<Rightarrow> 0) + 1) m | None \<Rightarrow> m)
       (map (\<lambda>t. (t, 0)) DRIFT_TYPES) results"

definition divergence_of :: "replay_result \<Rightarrow> divergence" where
  "divergence_of r =
     \<lparr>dv_decision_id = rv_decision_id_original r, dv_input_fingerprint = rv_input_fingerprint r,
      dv_governance_snapshot_hash = rv_governance_snapshot_hash r,
      dv_reason = (case rv_divergence_reason r of Some t \<Rightarrow> if t = [] then ''Unknown divergence'' else t
        | None \<Rightarrow> ''Unknown divergence''),
      dv_drift_type = rv_divergence_classification r, dv_created_at = rv_created_at r,
      dv_replayed_at = rv_replay_timestamp r\<rparr>"

definition report_of :: "int \<Rightarrow> replay_result list \<Rightarrow> replay_report" where
  "report_of now results =
     \<lparr>rp_window = ''5m'', rp_timestamp = now, rp_summary = summarize results,
      rp_divergences = map divergence_of (filter (\<lambda>r. \<not> rv_match r) results),
      rp_distribution = (if 0 < rs_divergences (summarize results) then Some (drift_distribution results) else None)\<rparr>"

definition batchValidateReplayIntegrity ::
  "platform \<Rightarrow> (replay_clock \<times> governance_snapshot) list \<Rightarrow> int \<Rightarrow> engine_state \<Rightarrow> engine_state \<times> replay_report" where
  "batchValidateReplayIntegrity pf snapshots now st =
     (let (st', results) = replay_all pf snapshots st in (st', report_of now results))"

record replay_integrity =
  ri_status :: check_status
  ri_replayed_match_rate :: jsnum
  ri_reason :: string

definition deriveIntegrityFromReplay :: "replay_report \<Rightarrow> replay_integrity" where
  "deriveIntegrityFromReplay report =
     (let s = rp_summary report; rate = rs_match_rate s
      in if jeq rate (Fin 100) then
           \<lparr>ri_status = Pass, ri_replayed_match_rate = Fin 100,
            ri_reason = ''All '' @ nat_str (rs_matches s) @ '' replayed evaluations matched''\<rparr>
         else if jle (Fin 95) rate then
           \<lparr>ri_status = Warn, ri_replayed_match_rate = rate,
            ri_reason = nat_str (rs_divergences s) @ '' of '' @ nat_str (rs_total_samples s) @ '' replayed evaluations diverged''\<rparr>
         else
           \<lparr>ri_status = Fail, ri_replayed_match_rate = rate,
            ri_reason = ''Replay match rate '' @ num_string rate @ ''% below threshold (>95%)''\<rparr>)"

section \<open>Laws\<close>

lemma evaluate_snapshot:
  assumes "evaluate pf now ms r st = (st', Inr d)" and "en_audit st' = en_audit st @ [(d, s, i, ms')]"
  shows "replay_request s = r\<lparr>rq_causation_id := Some (case rq_causation_id r of Some c \<Rightarrow> c | None \<Rightarrow> []),
      rq_risk_level := None, rq_tenant_id := None, rq_metadata := None\<rparr> \<and>
    gs_decision_id s = gd_decision_id d \<and> gs_environment s = en_environment st \<and>
    gv_governance_schema (gs_versions s) = ''1.0'' \<and> gs_policy_snapshot_hash s = rq_policy_snapshot_hash r"
proof -
  have v: "validateRequest r = Inr ()" by (rule evaluate_Inr [OF assms(1)])
  obtain st1 where st1: "decide pf now r st1 = Inr d" "st' = record_decision pf now ms r d st1" "en_audit st1 = en_audit st"
    "en_environment st1 = en_environment st"
  proof (cases "isGovernanceBypassed (en_freeze st)")
    case True
    then show thesis using that [of "st\<lparr>en_freeze := logBypassWarning (en_freeze st)\<rparr>"] assms(1) v
      by (auto simp: evaluate_def Let_def split: sum.splits)
  next
    case False
    then show thesis using that [of st] assms(1) v by (auto simp: evaluate_def Let_def split: sum.splits)
  qed
  have "gd_action d = rq_action r" "gd_resource d = rq_resource r" "gd_actor_id d = rq_actor_id r"
    "gd_trace_id d = rq_trace_id r" "gd_correlation_id d = rq_correlation_id r" "gd_causation_id d = rq_causation_id r"
    "gd_policy_snapshot_hash d = rq_policy_snapshot_hash r"
    by (rule evaluate_Inr [OF assms(1)], simp)+
  then have d: "gd_action d = rq_action r" "gd_resource d = rq_resource r" "gd_actor_id d = rq_actor_id r"
    "gd_trace_id d = rq_trace_id r" "gd_correlation_id d = rq_correlation_id r" "gd_causation_id d = rq_causation_id r"
    "gd_policy_snapshot_hash d = rq_policy_snapshot_hash r" by auto
  obtain integrity where "s = captureGovernanceSnapshot (gd_decision_id d) (gd_input_fingerprint d)
      (gd_policy_snapshot_hash d) (gd_actor_id d) (rq_actor_type r) (en_environment st) (gd_action d) (gd_resource d)
      (gd_trace_id d) (gd_correlation_id d) (case gd_causation_id d of Some c \<Rightarrow> c | None \<Rightarrow> [])
      (getGovernanceMode (pf_mode pf)) integrity now"
    using assms(2) st1 by (auto simp: record_decision_def Let_def case_prod_beta)
  then show ?thesis using d by (simp add: captureGovernanceSnapshot_def replay_request_def)
qed

lemma evaluate_environment:
  "evaluate pf now ms r st = (st', res) \<Longrightarrow> en_environment st' = en_environment st"
  by (auto simp: evaluate_def Let_def record_failure_def record_decision_def case_prod_beta split: sum.splits if_splits)

lemma replay_request_valid: "validateRequest (r\<lparr>rq_causation_id := c, rq_risk_level := a, rq_tenant_id := t, rq_metadata := m\<rparr>) = validateRequest r"
  by (simp add: validateRequest_def)

lemma replay_request_normalized:
  "getNormalizedInput u e (r\<lparr>rq_causation_id := c, rq_risk_level := a, rq_tenant_id := t, rq_metadata := m\<rparr>) = getNormalizedInput u e r"
  by (simp add: getNormalizedInput_def)

text \<open>No snapshot carries the engine's schema version, so a replay that answers never agrees on it.\<close>

lemma replayed_classification:
  "gd_decision_schema_version d = SCHEMA_VERSION \<Longrightarrow> gv_governance_schema (gs_versions s) = ''1.0'' \<Longrightarrow>
     rv_divergence_classification (replayed_result s d ck) =
       (if gd_decision_id d = gs_decision_id s then None else Some Normalization_drift)"
  by (simp add: replayed_result_def Let_def classifyReplayDivergence_def SCHEMA_VERSION_def)

lemma replay_law:
  fixes pf r st
  defines "n \<equiv> getNormalizedInput (pf_url pf) (en_environment st) r"
  assumes ev: "evaluate pf now ms r st = (st1, Inr d)" "en_audit st1 = en_audit st @ [(d, s, i, ms)]"
    and cold: "getActivePoliciesSync now (en_cache st) = []" "getActivePoliciesSync (ck_now ck) (en_cache st2) = []"
    and env: "en_environment st2 = en_environment st"
    and inj: "\<And>a b. take 16 (pf_sha pf (id_text n a)) = take 16 (pf_sha pf (id_text n b)) \<Longrightarrow> a = b"
  shows "\<exists>d'. snd (validateReplayIntegrity pf ck s st2) = replayed_result s d' ck \<and>
    gd_decision d' = (if isolated (en_environment st) (rq_resource r) then DENY else ALLOW) \<and>
    rv_match (replayed_result s d' ck) = (gd_decision d \<noteq> decision.REQUIRE_APPROVAL) \<and>
    rv_divergence_classification (replayed_result s d' ck) =
      (if gd_decision d \<noteq> decision.REQUIRE_APPROVAL then None else Some Normalization_drift)"
proof -
  let ?r = "replay_request s"
  have snap: "?r = r\<lparr>rq_causation_id := Some (case rq_causation_id r of Some c \<Rightarrow> c | None \<Rightarrow> []),
      rq_risk_level := None, rq_tenant_id := None, rq_metadata := None\<rparr>"
    "gs_decision_id s = gd_decision_id d" "gv_governance_schema (gs_versions s) = ''1.0''"
    using evaluate_snapshot [OF ev] by simp_all
  have valid: "validateRequest r = Inr ()" by (rule evaluate_Inr [OF ev(1)])
  then have "validateRequest ?r = Inr ()" unfolding snap(1) replay_request_valid .
  then obtain st3 d' where d': "evaluate pf (ck_now ck) (ck_ms ck) ?r st2 = (st3, Inr d')"
    "gd_decision d' = (if isolated (en_environment st) (rq_resource r) then DENY else ALLOW)"
    using fallback_law [of ?r "ck_now ck" st2 pf "ck_ms ck"] cold(2)
    by (auto simp: env snap(1) inferRiskLevel_def)
  have id: "gd_decision_id d = ''decision-'' @ take 16 (pf_sha pf (id_text n (gd_decision d)))"
    by (rule evaluate_Inr [OF ev(1)], simp add: n_def generateDeterministicId_def)
  have id': "gd_decision_id d' = ''decision-'' @ take 16 (pf_sha pf (id_text n (gd_decision d')))"
    "gd_decision_schema_version d' = SCHEMA_VERSION"
    by (rule evaluate_Inr [OF d'(1)], simp add: n_def generateDeterministicId_def snap(1) env replay_request_normalized)+
  have "gd_decision d = (if isolated (en_environment st) (rq_resource r) then DENY
      else if inferRiskLevel r = HIGH \<or> inferRiskLevel r = CRITICAL then decision.REQUIRE_APPROVAL else ALLOW)"
    using fallback_law [OF valid cold(1), of pf ms] ev(1) by auto
  moreover have "(gd_decision_id d' = gd_decision_id d) = (gd_decision d' = gd_decision d)"
    unfolding id id' using inj by auto
  ultimately have eq: "(gd_decision_id d' = gs_decision_id s) = (gd_decision d \<noteq> decision.REQUIRE_APPROVAL)"
    using d'(2) snap(2) by (auto split: if_splits)
  then have "rv_match (replayed_result s d' ck) = (gd_decision d \<noteq> decision.REQUIRE_APPROVAL)"
    by (simp add: replayed_result_def Let_def)
  moreover have "snd (validateReplayIntegrity pf ck s st2) = replayed_result s d' ck"
    using d'(1) by (simp add: validateReplayIntegrity_def)
  ultimately show ?thesis using d'(2) replayed_classification [OF id'(2) snap(3), of ck] eq by auto
qed

section \<open>Properties\<close>

text \<open>
  What a replay shows: with no stored policy in force at either time, the snapshot of every
  evaluation is answered by an engine of the same environment, at any time and after any other
  evaluations, and the replay matches exactly when the original decision was not an approval
  requirement: the snapshot does not keep the risk level the approval depended on. Every such
  mismatch is reported as a drift of the normalisation, although the normalised inputs agree. The
  hypothesis is that the truncated hash separates the decisions on this input.
\<close>

theorem replay_loses_risk:
  fixes pf r st
  defines "n \<equiv> getNormalizedInput (pf_url pf) (en_environment st) r"
  assumes "evaluate pf now ms r st = (st1, Inr d)" "en_audit st1 = en_audit st @ [(d, s, i, ms)]"
    and "getActivePoliciesSync now (en_cache st) = []" "getActivePoliciesSync (ck_now ck) (en_cache st2) = []"
    and "en_environment st2 = en_environment st"
    and "\<And>a b. take 16 (pf_sha pf (id_text n a)) = take 16 (pf_sha pf (id_text n b)) \<Longrightarrow> a = b"
  shows "rv_match (snd (validateReplayIntegrity pf ck s st2)) = (gd_decision d \<noteq> decision.REQUIRE_APPROVAL) \<and>
    rv_divergence_classification (snd (validateReplayIntegrity pf ck s st2)) =
      (if gd_decision d = decision.REQUIRE_APPROVAL then Some Normalization_drift else None)"
  using replay_law [OF assms(2-6)] assms(7) unfolding n_def by fastforce

definition marking_platform :: platform where
  "marking_platform = sample_platform\<lparr>pf_sha := drop 48\<rparr>"

definition risky_request :: evaluation_request where
  "risky_request = sample_request ''main''\<lparr>rq_risk_level := Some ''high''\<rparr>"

definition replay_time :: replay_clock where
  "replay_time = \<lparr>ck_now = 60000, ck_ms = 1, ck_latency = 2\<rparr>"

lemma marking_text:
  "take 16 (drop 48 (id_text (getNormalizedInput u ''sandbox'' risky_request) a)) =
     take 16 (decision_string a @ dquote @ '','' @ dquote @ ''environment'')"
  by (cases a; simp add: id_text_def getNormalizedInput_def risky_request_def sample_request_def json_object_def json_quote_def
      json_escape_def dquote_def to_upper_def upper_char_def trim_def trim_start_def is_space_def char_of_def bit_Suc_0_iff)

lemma marking_separates:
  "take 16 (pf_sha marking_platform (id_text (getNormalizedInput u ''sandbox'' risky_request) a)) =
     take 16 (pf_sha marking_platform (id_text (getNormalizedInput u ''sandbox'' risky_request) b)) \<Longrightarrow> a = b"
  unfolding marking_platform_def by (cases a; cases b; simp add: marking_text dquote_def)

theorem replay_loses_risk_witness:
  "\<exists>st1 d s i. evaluate marking_platform 0 1 risky_request (sandbox_engine None) = (st1, Inr d) \<and>
     en_audit st1 = [(d, s, i, 1)] \<and> gd_decision d = decision.REQUIRE_APPROVAL \<and>
     \<not> rv_match (snd (validateReplayIntegrity marking_platform replay_time s st1)) \<and>
     rv_divergence_classification (snd (validateReplayIntegrity marking_platform replay_time s st1)) = Some Normalization_drift"
proof -
  have cold: "getActivePoliciesSync t (en_cache (sandbox_engine None)) = []" for t
    by (simp add: sandbox_engine_def getActivePoliciesSync_def isCacheValid_def)
  have valid: "validateRequest risky_request = Inr ()"
    using sample_valid [OF sample_resources(1)] unfolding validateRequest_iff by (simp add: risky_request_def)
  have "inferRiskLevel risky_request = HIGH"
    by (simp add: inferRiskLevel_def risky_request_def to_upper_def upper_char_def char_of_def bit_Suc_0_iff)
  moreover have "\<not> isolated (en_environment (sandbox_engine None)) (rq_resource risky_request)"
    using sample_resources(3) by (simp add: sandbox_engine_def risky_request_def sample_request_def)
  ultimately obtain st1 d where ev: "evaluate marking_platform 0 1 risky_request (sandbox_engine None) = (st1, Inr d)"
    "gd_decision d = decision.REQUIRE_APPROVAL"
    using fallback_law [OF valid cold, of marking_platform 0 1] by auto
  then obtain s i where audit: "en_audit st1 = en_audit (sandbox_engine None) @ [(d, s, i, 1)]" "en_cache st1 = en_cache (sandbox_engine None)"
    using evaluate_effects [where pf = marking_platform and now = 0 and ms = 1 and r = risky_request and st = "sandbox_engine None"]
    by auto
  have env: "en_environment st1 = en_environment (sandbox_engine None)" by (rule evaluate_environment [OF ev(1)])
  have "getActivePoliciesSync (ck_now replay_time) (en_cache st1) = []" unfolding audit(2) by (rule cold)
  then have "\<not> rv_match (snd (validateReplayIntegrity marking_platform replay_time s st1)) \<and>
     rv_divergence_classification (snd (validateReplayIntegrity marking_platform replay_time s st1)) = Some Normalization_drift"
    using replay_loses_risk [OF ev(1) audit(1) cold _ env] marking_separates ev(2) by (simp add: sandbox_engine_def)
  then show ?thesis using ev audit by (auto simp: sandbox_engine_def)
qed

section \<open>The verdict of a batch\<close>

text \<open>Below \<open>2 ^ 40\<close> samples the computed rate is 100 only when every replay matched.\<close>

lemma match_rate_full:
  assumes "m \<le> n" "0 < n" "n \<le> 2 ^ 40"
  shows "jeq (jmul (jdiv (jnat m) (jnat n)) (Fin 100)) (Fin 100) \<longleftrightarrow> m = n"
proof (cases "m = n")
  case True
  then show ?thesis using assms by (simp add: jnat_def)
next
  case False
  let ?q = "(2 ^ 40 - 1) / 2 ^ 40 :: rat" and ?x = "of_nat m / of_nat n :: rat"
  have "?x \<le> (of_nat n - 1) / of_nat n" using False assms by (intro divide_right_mono) (auto simp: of_nat_diff [symmetric] simp del: of_nat_diff)
  also have "\<dots> = 1 - 1 / of_nat n" using assms by (simp add: diff_divide_distrib)
  also have "1 - 1 / of_nat n \<le> (1 - 1 / 2 ^ 40 :: rat)"
  proof -
    have "(of_nat n :: rat) \<le> 2 ^ 40" using assms(3) by (metis of_nat_le_iff of_nat_numeral of_nat_power)
    then have "1 / 2 ^ 40 \<le> (1 / of_nat n :: rat)" using assms(2) by (intro divide_left_mono) auto
    then show ?thesis by simp
  qed
  also have "\<dots> = ?q" by simp
  finally have x: "?x \<le> ?q" .
  have q: "rnd64 ?q = Fin ?q" using rnd64_dyadic [of "2 ^ 40 - 1" 40] by simp
  obtain y where y: "rnd64 ?x = Fin y" "0 \<le> y"
    using r64.rnd_unit [of ?x] assms by auto
  then have "y \<le> ?q" using r64.rnd_mono [OF y(1) q x] by blast
  then have le: "y * 100 \<le> ?q * 100" by simp
  have q100: "rnd64 (?q * 100) = Fin (?q * 100)" using rnd64_dyadic [of "(2 ^ 40 - 1) * 100" 40] by simp
  obtain z where z: "rnd64 (y * 100) = Fin z" "z \<le> ?q * 100"
    using r64.rnd_between [OF _ q100 _ le, of 0 0] y(2) rnd64_of_int [of 0] by auto
  then have "z \<noteq> 100" by simp
  then show ?thesis using False y z assms(2) by (simp add: jnat_def)
qed

lemma count_up:
  "jm_get m k = Some (v :: nat) \<Longrightarrow> distinct (jm_keys m) \<Longrightarrow> sum_list (map snd (jm_set k (v + 1) m)) = sum_list (map snd m) + 1"
  by (induction m) (auto split: if_splits simp: update_triv map_of_eq_None_iff)

lemma distribution_total:
  "jm_keys (drift_distribution results) = DRIFT_TYPES \<and>
   sum_list (map snd (drift_distribution results)) = length (filter (\<lambda>r. rv_divergence_classification r \<noteq> None) results)"
proof (induction results rule: rev_induct)
  case Nil
  then show ?case by (simp add: drift_distribution_def DRIFT_TYPES_def)
next
  case (snoc r rs)
  let ?m = "drift_distribution rs"
  show ?case
  proof (cases "rv_divergence_classification r")
    case None
    then show ?thesis using snoc by (simp add: drift_distribution_def)
  next
    case (Some t)
    have "t \<in> set (jm_keys ?m)" using snoc by (cases t) (auto simp: DRIFT_TYPES_def)
    moreover then obtain v where v: "jm_get ?m t = Some v" by (metis jm_get_None_iff not_Some_eq)
    moreover have "distinct (jm_keys ?m)" using snoc by (simp add: DRIFT_TYPES_def)
    moreover have "drift_distribution (rs @ [r]) = jm_set t (v + 1) ?m"
      using Some v by (simp add: drift_distribution_def)
    ultimately show ?thesis using snoc Some count_up [OF v] by (simp add: jm_keys_set)
  qed
qed

lemma classified_iff:
  "validateReplayIntegrity pf ck s st = (st', r) \<Longrightarrow> (rv_divergence_classification r \<noteq> None) = (\<not> rv_match r)"
  by (auto simp: validateReplayIntegrity_def replayed_result_def failed_result_def Let_def split: prod.splits sum.splits)

lemma replay_all_classified:
  "replay_all pf ss st = (st', rs) \<Longrightarrow>
     length rs = length ss \<and> (\<forall>r\<in>set rs. (rv_divergence_classification r \<noteq> None) = (\<not> rv_match r))"
proof (induction ss arbitrary: st rs)
  case (Cons a ss)
  obtain ck s where a: "a = (ck, s)" by fastforce
  obtain st1 r where r: "validateReplayIntegrity pf ck s st = (st1, r)" by fastforce
  obtain st2 rs' where rs': "replay_all pf ss st1 = (st2, rs')" by fastforce
  have "rs = r # rs'" "st2 = st'" using Cons.prems by (auto simp: a r rs')
  then show ?case using Cons.IH [OF rs'[unfolded \<open>st2 = st'\<close>]] classified_iff [OF r] by simp
qed simp

text \<open>
  C11: The verdict of a batch: of up to \<open>2 ^ 40\<close> snapshots every one is replayed and counted once as a
  match or a divergence, the listed divergences are the replays that did not match, the counts by drift
  type add up to them, and the derived status passes exactly when there is none, in double arithmetic.
\<close>

theorem batch_verdict:
  assumes "batchValidateReplayIntegrity pf ss now st = (st', report)" and "length ss \<le> 2 ^ 40"
  shows "rs_total_samples (rp_summary report) = length ss \<and>
    rs_matches (rp_summary report) + rs_divergences (rp_summary report) = length ss \<and>
    length (rp_divergences report) = rs_divergences (rp_summary report) \<and>
    sum_list (map snd (case rp_distribution report of Some m \<Rightarrow> m | None \<Rightarrow> [])) = rs_divergences (rp_summary report) \<and>
    (ri_status (deriveIntegrityFromReplay report) = Pass \<longleftrightarrow> rp_divergences report = [])"
proof -
  obtain results where rs: "replay_all pf ss st = (st', results)" "report = report_of now results"
    using assms(1) by (auto simp: batchValidateReplayIntegrity_def split: prod.splits)
  have len: "length results = length ss"
    and cl: "\<And>r. r \<in> set results \<Longrightarrow> (rv_divergence_classification r \<noteq> None) = (\<not> rv_match r)"
    using replay_all_classified [OF rs(1)] by auto
  let ?m = "length (filter rv_match results)" and ?d = "length (filter (\<lambda>r. \<not> rv_match r) results)"
  have sum: "?m + ?d = length results" by (rule sum_length_filter_compl)
  have dist: "sum_list (map snd (drift_distribution results)) = ?d"
    using distribution_total [of results] cl by (simp cong: filter_cong)
  have "jeq (rs_match_rate (summarize results)) (Fin 100) \<longleftrightarrow> ?d = 0"
  proof (cases "results = []")
    case False
    have "jeq (jmul (jdiv (jnat ?m) (jnat (length results))) (Fin 100)) (Fin 100) \<longleftrightarrow> ?m = length results"
      using False assms(2) unfolding len [symmetric] by (intro match_rate_full) simp_all
    moreover have "?d = 0 \<longleftrightarrow> ?m = length results" using sum by linarith
    ultimately show ?thesis using False by (simp add: summarize_def Let_def)
  qed (simp add: summarize_def)
  then have "ri_status (deriveIntegrityFromReplay report) = Pass \<longleftrightarrow> ?d = 0"
    by (simp add: deriveIntegrityFromReplay_def Let_def rs(2) report_of_def)
  then show ?thesis using len sum dist by (simp add: rs(2) report_of_def summarize_def Let_def)
qed

definition broken_snapshot :: governance_snapshot where
  "broken_snapshot = captureGovernanceSnapshot ''decision-1'' ''input-1'' ''h'' ''alice'' ''human'' ''sandbox'' ''save'' '' ''
     ''t'' ''c'' [] SHADOW HEALTHY 0"

theorem batch_verdict_witness:
  "\<exists>report. snd (batchValidateReplayIntegrity sample_platform [(replay_time, broken_snapshot)] 0 (sandbox_engine None)) = report \<and>
     map dv_drift_type (rp_divergences report) = [Some Unknown_drift] \<and> ri_status (deriveIntegrityFromReplay report) \<noteq> Pass"
proof -
  have "validateRequest (replay_request broken_snapshot) = Inl (Field_required ''resource'')"
    by (simp add: validateRequest_def replay_request_def broken_snapshot_def captureGovernanceSnapshot_def trim_def trim_start_def is_space_def)
  then have ev: "snd (validateReplayIntegrity sample_platform replay_time broken_snapshot (sandbox_engine None)) =
      failed_result broken_snapshot (Field_required ''resource'') replay_time"
    by (simp add: validateReplayIntegrity_def evaluate_def)
  obtain st' report where r:
    "batchValidateReplayIntegrity sample_platform [(replay_time, broken_snapshot)] 0 (sandbox_engine None) = (st', report)"
    by fastforce
  then have "map dv_drift_type (rp_divergences report) = [Some Unknown_drift]"
    using ev by (auto simp: batchValidateReplayIntegrity_def report_of_def divergence_of_def failed_result_def split: prod.splits)
  then show ?thesis using batch_verdict [OF r] r by auto
qed

end
