(* ===== verification/Tenancy.thy ===== *)
theory Tenancy
  imports JsValue "HOL-Library.List_Lexorder" "HOL-Library.Char_ord"
begin

text \<open>
  Tenant isolation, \<open>apps/api/middleware/assert-tenant-isolation.ts\<close>: the check every tenant-scoped
  operation starts with, the cache keys that carry the tenant, and the request middleware. A tenant id
  arrives as a JavaScript value; a value that is neither missing nor a string has no \<open>trim\<close> method, so
  the check throws a TypeError on it.
\<close>

section \<open>The check\<close>

datatype violation_type = Missing | Invalid | System_reserved | Cross_tenant

datatype tenant_error = Isolation_violation (te_context: string) (te_type: violation_type) (te_detail: string) | Not_a_string

fun violation_name :: "violation_type \<Rightarrow> string" where
  "violation_name Missing = ''missing''"
| "violation_name Invalid = ''invalid''"
| "violation_name System_reserved = ''system_reserved''"
| "violation_name Cross_tenant = ''cross_tenant''"

definition quoted :: "string \<Rightarrow> string" where
  "quoted s = dquote @ s @ dquote"

fun violation_message :: "tenant_error \<Rightarrow> string" where
  "violation_message (Isolation_violation context t detail) =
     ''[TENANT_ISOLATION_VIOLATION] Context: '' @ quoted context @ ''. Type: '' @ violation_name t @ ''. '' @
       (if detail = [] then [] else ''Detail: '' @ detail)"
| "violation_message Not_a_string = ''TypeError''"

definition SYSTEM_RESERVED_IDS :: "string list" where
  "SYSTEM_RESERVED_IDS = [''__none__'', ''__system__'', ''undefined'', ''null'', ''nil'', ''anonymous'']"

text \<open>The pattern \<open>/^[a-zA-Z0-9_-]{2,128}$/\<close>.\<close>

definition tenant_char :: "char \<Rightarrow> bool" where
  "tenant_char c =
     (let n = (of_char c :: nat)
      in 97 \<le> n \<and> n \<le> 122 \<or> 65 \<le> n \<and> n \<le> 90 \<or> 48 \<le> n \<and> n \<le> 57 \<or> n = 95 \<or> n = 45)"

definition VALID_TENANT_PATTERN :: "string \<Rightarrow> bool" where
  "VALID_TENANT_PATTERN s = (list_all tenant_char s \<and> 2 \<le> length s \<and> length s \<le> 128)"

definition PATTERN_SOURCE :: string where
  "PATTERN_SOURCE = ''/^[a-zA-Z0-9_-]{2,128}$/''"

text \<open>A tenant id that passes is returned as it came, not trimmed.\<close>

fun assertTenantIsolation :: "js \<Rightarrow> string \<Rightarrow> tenant_error + string" where
  "assertTenantIsolation (Str tenantId) context =
     (if trim tenantId = [] then Inl (Isolation_violation context Missing (''tenant_id is '' @ tenantId))
      else if to_lower (trim tenantId) \<in> set SYSTEM_RESERVED_IDS
        then Inl (Isolation_violation context System_reserved (quoted tenantId @ '' is a reserved identifier''))
      else if \<not> VALID_TENANT_PATTERN (trim tenantId)
        then Inl (Isolation_violation context Invalid (quoted tenantId @ '' fails pattern '' @ PATTERN_SOURCE))
      else Inr tenantId)"
| "assertTenantIsolation Null context = Inl (Isolation_violation context Missing ''tenant_id is null'')"
| "assertTenantIsolation Undefined context = Inl (Isolation_violation context Missing ''tenant_id is undefined'')"
| "assertTenantIsolation _ context = Inl Not_a_string"

text \<open>The guarded operation is only run for a valid tenant; its outcome is an argument.\<close>

definition withTenantGuard :: "js \<Rightarrow> (unit \<Rightarrow> 'e + 'a) \<Rightarrow> string \<Rightarrow> (tenant_error + 'e) + 'a" where
  "withTenantGuard tenantId f context =
     (case assertTenantIsolation tenantId context of
        Inl e \<Rightarrow> Inl (Inl e)
      | Inr _ \<Rightarrow> (case f () of Inl e \<Rightarrow> Inl (Inr e) | Inr x \<Rightarrow> Inr x))"

section \<open>Cache keys\<close>

definition param_string :: "(string \<times> js) list \<Rightarrow> string" where
  "param_string ps = join '':'' (map (\<lambda>(k, v). k @ ''='' @ js_string v) (filter (\<lambda>(k, v). v \<noteq> Undefined) (sort_key fst ps)))"

definition buildTenantCacheKey :: "string \<Rightarrow> string \<Rightarrow> (string \<times> js) list option \<Rightarrow> tenant_error + string" where
  "buildTenantCacheKey tenantId namespace params =
     (case assertTenantIsolation (Str tenantId) (''buildTenantCacheKey:'' @ namespace) of
        Inl e \<Rightarrow> Inl e
      | Inr _ \<Rightarrow>
          (case params of
             None \<Rightarrow> Inr (''t:'' @ tenantId @ '':'' @ namespace)
           | Some ps \<Rightarrow>
               if ps = [] then Inr (''t:'' @ tenantId @ '':'' @ namespace)
               else Inr (''t:'' @ tenantId @ '':'' @ namespace @ '':'' @ param_string ps)))"

section \<open>Validation and middleware\<close>

record tenant_validation =
  tv_valid :: bool
  tv_tenantId :: "string option"
  tv_error :: "string option"

definition invalid_tenant :: "string \<Rightarrow> tenant_validation" where
  "invalid_tenant msg = \<lparr>tv_valid = False, tv_tenantId = None, tv_error = Some msg\<rparr>"

fun validateTenantId :: "js \<Rightarrow> tenant_error + tenant_validation" where
  "validateTenantId (Str tenantId) =
     Inr (if trim tenantId = [] then invalid_tenant ''tenant_id is missing''
          else if to_lower (trim tenantId) \<in> set SYSTEM_RESERVED_IDS
            then invalid_tenant (quoted tenantId @ '' is a system-reserved identifier'')
          else if \<not> VALID_TENANT_PATTERN (trim tenantId)
            then invalid_tenant (quoted tenantId @ '' does not match required pattern'')
          else \<lparr>tv_valid = True, tv_tenantId = Some (trim tenantId), tv_error = None\<rparr>)"
| "validateTenantId Null = Inr (invalid_tenant ''tenant_id is missing'')"
| "validateTenantId Undefined = Inr (invalid_tenant ''tenant_id is missing'')"
| "validateTenantId _ = Inl Not_a_string"

record http_request =
  hr_header :: js
  hr_body_tenant :: js
  hr_query_tenant :: js

datatype middleware_outcome = Rejected nat string | Next_with string | Thrown tenant_error

definition js_or :: "js \<Rightarrow> js \<Rightarrow> js" where
  "js_or a b = (if js_truthy a then a else b)"

definition tenantIsolationMiddleware :: "http_request \<Rightarrow> middleware_outcome" where
  "tenantIsolationMiddleware req =
     (case validateTenantId (js_or (js_or (hr_header req) (hr_body_tenant req)) (hr_query_tenant req)) of
        Inl e \<Rightarrow> Thrown e
      | Inr result \<Rightarrow>
          (case tv_tenantId result of
             Some t \<Rightarrow> Next_with t
           | None \<Rightarrow> Rejected 400 (case tv_error result of Some m \<Rightarrow> m | None \<Rightarrow> [])))"

section \<open>Laws\<close>

definition valid_tenant :: "string \<Rightarrow> bool" where
  "valid_tenant t = (VALID_TENANT_PATTERN (trim t) \<and> to_lower (trim t) \<notin> set SYSTEM_RESERVED_IDS)"

lemma assert_accepts: "assertTenantIsolation (Str t) ctx = Inr x \<longleftrightarrow> x = t \<and> valid_tenant t"
  by (auto simp: valid_tenant_def VALID_TENANT_PATTERN_def)

declare assertTenantIsolation.simps(1) [simp del]

lemma validate_accepts:
  "validateTenantId (Str t) = Inr v \<Longrightarrow> tv_valid v = valid_tenant t \<and> tv_tenantId v = (if valid_tenant t then Some (trim t) else None)"
  by (auto simp: valid_tenant_def VALID_TENANT_PATTERN_def invalid_tenant_def split: if_splits)

lemma tenant_char_colon: "tenant_char c \<Longrightarrow> c \<noteq> CHR '':''"
  by (auto simp: tenant_char_def Let_def)

lemma in_trim: "c \<in> set s \<Longrightarrow> is_space c \<or> c \<in> set (trim s)"
proof -
  have drop: "c \<in> set s \<Longrightarrow> is_space c \<or> c \<in> set (dropWhile is_space s)" for s
    by (induction s) auto
  assume "c \<in> set s"
  then have "is_space c \<or> c \<in> set (rev (trim_start s))" using drop by (simp add: trim_start_def)
  then show ?thesis using drop [of "rev (trim_start s)"] by (auto simp: trim_def trim_start_def)
qed

lemma valid_tenant_no_colon: "valid_tenant t \<Longrightarrow> CHR '':'' \<notin> set t"
proof
  assume v: "valid_tenant t" and c: "CHR '':'' \<in> set t"
  have "CHR '':'' \<in> set (trim t)" using in_trim [OF c] by (simp add: is_space_def)
  moreover have "\<forall>c\<in>set (trim t). tenant_char c" using v by (simp add: valid_tenant_def VALID_TENANT_PATTERN_def list_all_iff)
  ultimately show False using tenant_char_colon by blast
qed

lemma cut_at_colon: "c \<notin> set s \<Longrightarrow> c \<notin> set t \<Longrightarrow> s @ c # x = t @ c # y \<Longrightarrow> s = t"
  by (induction s arbitrary: t) (auto simp: Cons_eq_append_conv)

lemma key_shape: "buildTenantCacheKey t ns ps = Inr k \<Longrightarrow> valid_tenant t \<and> (\<exists>x. k = CHR ''t'' # CHR '':'' # t @ CHR '':'' # x)"
proof -
  assume "buildTenantCacheKey t ns ps = Inr k"
  then obtain x where "assertTenantIsolation (Str t) (''buildTenantCacheKey:'' @ ns) = Inr x"
    "(case ps of None \<Rightarrow> ''t:'' @ t @ '':'' @ ns
      | Some ps \<Rightarrow> if ps = [] then ''t:'' @ t @ '':'' @ ns else ''t:'' @ t @ '':'' @ ns @ '':'' @ param_string ps) = k"
    unfolding buildTenantCacheKey_def by (auto split: sum.splits option.splits if_splits)
  then show ?thesis unfolding assert_accepts by (auto split: option.splits if_splits)
qed

section \<open>Properties\<close>

text \<open>
  C12: Cache keys of different tenants never meet: if two keys are equal, whatever their namespaces and
  parameters, then they were built for the same tenant, and that tenant passes the isolation check. No
  key is built for a reserved or malformed tenant id.
\<close>

theorem tenant_keys_disjoint:
  assumes "buildTenantCacheKey t1 ns1 ps1 = Inr k" and "buildTenantCacheKey t2 ns2 ps2 = Inr k"
  shows "t1 = t2 \<and> VALID_TENANT_PATTERN (trim t1) \<and> to_lower (trim t1) \<notin> set SYSTEM_RESERVED_IDS"
proof -
  have v: "valid_tenant t1" "valid_tenant t2" using key_shape [OF assms(1)] key_shape [OF assms(2)] by auto
  obtain x y where "k = CHR ''t'' # CHR '':'' # t1 @ CHR '':'' # x" "k = CHR ''t'' # CHR '':'' # t2 @ CHR '':'' # y"
    using key_shape [OF assms(1)] key_shape [OF assms(2)] by blast
  then have "t1 @ CHR '':'' # x = t2 @ CHR '':'' # y" by simp
  then have "t1 = t2" by (rule cut_at_colon [OF valid_tenant_no_colon [OF v(1)] valid_tenant_no_colon [OF v(2)]])
  then show ?thesis using v(1) by (simp add: valid_tenant_def)
qed

lemma acme_valid: "valid_tenant ''acme''"
  by (simp add: valid_tenant_def VALID_TENANT_PATTERN_def tenant_char_def trim_def trim_start_def is_space_def
      SYSTEM_RESERVED_IDS_def to_lower_def lower_char_def char_of_def bit_Suc_0_iff)

text \<open>Within a tenant the parameters are not separated: these two parameter lists share a key.\<close>

theorem tenant_keys_disjoint_witness:
  "\<exists>k. buildTenantCacheKey ''acme'' ''kpis'' (Some [(''w'', Str ''24h''), (''z'', Str ''1'')]) = Inr k \<and>
     buildTenantCacheKey ''acme'' ''kpis'' (Some [(''w'', Str ''24h:z=1'')]) = Inr k \<and> VALID_TENANT_PATTERN (trim ''acme'')"
proof -
  have a: "assertTenantIsolation (Str ''acme'') context = Inr ''acme''" for "context"
    unfolding assert_accepts using acme_valid by simp
  have k: "buildTenantCacheKey ''acme'' ''kpis'' (Some [(''w'', Str ''24h''), (''z'', Str ''1'')]) = Inr ''t:acme:kpis:w=24h:z=1''"
    "buildTenantCacheKey ''acme'' ''kpis'' (Some [(''w'', Str ''24h:z=1'')]) = Inr ''t:acme:kpis:w=24h:z=1''"
    by (simp_all add: buildTenantCacheKey_def a param_string_def)
  then show ?thesis using tenant_keys_disjoint [OF k] by blast
qed

end
