(* ===== verification/Scopes.thy ===== *)
theory Scopes
  imports Tenancy
begin

text \<open>
  Governance scopes, \<open>core/governance/governance-scopes.ts\<close>: the glob patterns, the coverage of a
  resource by a scope, and the operations on the table \<open>governance_scopes\<close> of
  \<open>prisma/migrations/20260606_governance_ttl_scopes\<close>. A table is the list of its rows in the order
  of insertion; a query reads or rewrites the list, and an insertion that breaks a uniqueness constraint
  is an error. Timestamps are milliseconds; texts are ordered by code units.
\<close>

section \<open>Patterns\<close>

text \<open>The two replacements that turn a glob into the source of a regular expression.\<close>

definition special_chars :: string where
  "special_chars = ''.+^${}()|[]'' @ [CHR 0x5C]"

definition escape_special :: "string \<Rightarrow> string" where
  "escape_special s = concat (map (\<lambda>c. if c \<in> set special_chars then [CHR 0x5C, c] else [c]) s)"

definition replace_char :: "char \<Rightarrow> string \<Rightarrow> string \<Rightarrow> string" where
  "replace_char d t s = concat (map (\<lambda>c. if c = d then t else [c]) s)"

definition regexStr :: "string \<Rightarrow> string" where
  "regexStr pattern =
     ''^'' @ replace_char (CHR ''?'') ''.'' (replace_char (CHR ''*'') ''.*'' (escape_special (to_lower pattern))) @ ''$''"

text \<open>
  Regular expressions, as far as they are built here: anchored sequences of characters, escaped
  characters, \<open>.\<close> and \<open>.*\<close>. A source outside this form is \<^const>\<open>None\<close>. A dot matches no line break.
\<close>

datatype rx_item = Rx_char char | Rx_any | Rx_star

fun rx_items :: "string \<Rightarrow> rx_item list option" where
  "rx_items [] = Some []"
| "rx_items (c # s) =
     (if c = CHR 0x5C then
        (case s of d # r \<Rightarrow> map_option ((#) (Rx_char d)) (rx_items r) | [] \<Rightarrow> None)
      else if c = CHR ''.'' then
        (case s of d # r \<Rightarrow> if d = CHR ''*'' then map_option ((#) Rx_star) (rx_items r) else map_option ((#) Rx_any) (rx_items s)
         | [] \<Rightarrow> Some [Rx_any])
      else if c \<in> set special_chars \<or> c = CHR ''*'' \<or> c = CHR ''?'' then None
      else map_option ((#) (Rx_char c)) (rx_items s))"

definition line_break :: "char \<Rightarrow> bool" where
  "line_break c = ((of_char c :: nat) = 10 \<or> (of_char c :: nat) = 13)"

fun rx_match :: "rx_item list \<Rightarrow> string \<Rightarrow> bool" where
  "rx_match [] s = (s = [])"
| "rx_match (Rx_char c # r) s = (case s of d # t \<Rightarrow> c = d \<and> rx_match r t | [] \<Rightarrow> False)"
| "rx_match (Rx_any # r) s = (case s of d # t \<Rightarrow> \<not> line_break d \<and> rx_match r t | [] \<Rightarrow> False)"
| "rx_match (Rx_star # r) [] = rx_match r []"
| "rx_match (Rx_star # r) (d # t) = (rx_match r (d # t) \<or> \<not> line_break d \<and> rx_match (Rx_star # r) t)"

definition regex_test :: "string \<Rightarrow> string \<Rightarrow> bool option" where
  "regex_test source s =
     (if source \<noteq> [] \<and> hd source = CHR ''^'' \<and> tl source \<noteq> [] \<and> last source = CHR ''$''
      then map_option (\<lambda>items. rx_match items s) (rx_items (butlast (tl source))) else None)"

definition matchesScope :: "string \<Rightarrow> string \<Rightarrow> bool" where
  "matchesScope pattern resourceName =
     (if pattern = ''*'' then True
      else case regex_test (regexStr pattern) (to_lower resourceName) of Some b \<Rightarrow> b | None \<Rightarrow> False)"

section \<open>Scopes\<close>

record governance_scope =
  sc_id :: string
  sc_tenantId :: string
  sc_scopeName :: string
  sc_description :: "string option"
  sc_resourceType :: string
  sc_resourcePattern :: string
  sc_environment :: string
  sc_isActive :: bool
  sc_createdBy :: string
  sc_createdAt :: int
  sc_updatedAt :: int

definition scopeCoversResource :: "governance_scope \<Rightarrow> string \<Rightarrow> string \<Rightarrow> string \<Rightarrow> bool" where
  "scopeCoversResource scope resourceType resourceName environment =
     (if sc_resourceType scope \<noteq> ''*'' \<and> sc_resourceType scope \<noteq> resourceType then False
      else if sc_environment scope \<noteq> ''both'' \<and> sc_environment scope \<noteq> environment then False
      else matchesScope (sc_resourcePattern scope) resourceName)"

record create_scope_opts =
  co_tenantId :: string
  co_scopeName :: string
  co_description :: "string option"
  co_resourceType :: string
  co_resourcePattern :: string
  co_environment :: "string option"
  co_createdBy :: string

record scope_row =
  sr_id :: string
  sr_tenant_id :: string
  sr_scope_name :: string
  sr_description :: "string option"
  sr_resource_type :: string
  sr_resource_pattern :: string
  sr_environment :: string
  sr_is_active :: bool
  sr_created_by :: string
  sr_created_at :: int
  sr_updated_at :: int

datatype db_error = Tenant_refused tenant_error | Unique_violation | Connection_lost | Range_error | App_error string

definition mapScopeRow :: "scope_row \<Rightarrow> governance_scope" where
  "mapScopeRow r =
     \<lparr>sc_id = sr_id r, sc_tenantId = sr_tenant_id r, sc_scopeName = sr_scope_name r, sc_description = sr_description r,
      sc_resourceType = sr_resource_type r, sc_resourcePattern = sr_resource_pattern r,
      sc_environment = sr_environment r, sc_isActive = sr_is_active r, sc_createdBy = sr_created_by r,
      sc_createdAt = sr_created_at r, sc_updatedAt = sr_updated_at r\<rparr>"

text \<open>The four scopes the migration seeds.\<close>

definition system_scope :: "string \<Rightarrow> string \<Rightarrow> string \<Rightarrow> string \<Rightarrow> string \<Rightarrow> scope_row" where
  "system_scope i name description rtype env =
     \<lparr>sr_id = i, sr_tenant_id = ''SYSTEM'', sr_scope_name = name, sr_description = Some description,
      sr_resource_type = rtype, sr_resource_pattern = ''*'', sr_environment = env, sr_is_active = True,
      sr_created_by = ''system'', sr_created_at = 0, sr_updated_at = 0\<rparr>"

definition seeded_scopes :: "scope_row list" where
  "seeded_scopes =
     [system_scope ''scope-sys-all-indexes'' ''all_indexes'' ''All indexes across all tenants'' ''index'' ''both'',
      system_scope ''scope-sys-all-pipelines'' ''all_pipelines'' ''All pipeline operations'' ''pipeline'' ''both'',
      system_scope ''scope-sys-all-policies'' ''all_policies'' ''All governance policy operations'' ''policy'' ''both'',
      system_scope ''scope-sys-sandbox-only'' ''sandbox_only'' ''Sandbox environment only'' ''*'' ''sandbox'']"

section \<open>Table operations\<close>

definition insert_scope :: "scope_row \<Rightarrow> scope_row list \<Rightarrow> scope_row list option" where
  "insert_scope r rows =
     (if list_ex (\<lambda>x. sr_id x = sr_id r \<or> sr_tenant_id x = sr_tenant_id r \<and> sr_scope_name x = sr_scope_name r) rows
      then None else Some (rows @ [r]))"

definition guarded :: "string \<Rightarrow> string \<Rightarrow> 't \<times> (db_error + 'a) \<Rightarrow> 't \<Rightarrow> 't \<times> (db_error + 'a)" where
  "guarded tenantId context result t =
     (case assertTenantIsolation (Str tenantId) context of Inl e \<Rightarrow> (t, Inl (Tenant_refused e)) | Inr _ \<Rightarrow> result)"

definition new_scope_row :: "create_scope_opts \<Rightarrow> string \<Rightarrow> int \<Rightarrow> scope_row" where
  "new_scope_row opts hex now =
     \<lparr>sr_id = ''scope-'' @ hex, sr_tenant_id = co_tenantId opts, sr_scope_name = co_scopeName opts,
      sr_description = co_description opts, sr_resource_type = co_resourceType opts,
      sr_resource_pattern = co_resourcePattern opts,
      sr_environment = (case co_environment opts of Some e \<Rightarrow> e | None \<Rightarrow> ''both''), sr_is_active = True,
      sr_created_by = co_createdBy opts, sr_created_at = now, sr_updated_at = now\<rparr>"

definition createScope ::
  "create_scope_opts \<Rightarrow> string \<Rightarrow> int \<Rightarrow> scope_row list \<Rightarrow> scope_row list \<times> (db_error + governance_scope)" where
  "createScope opts hex now rows =
     guarded (co_tenantId opts) ''governance-scopes:createScope''
       (let row = new_scope_row opts hex now
        in case insert_scope row rows of
             None \<Rightarrow> (rows, Inl Unique_violation)
           | Some rows' \<Rightarrow> (rows', Inr (mapScopeRow row))) rows"

definition getScope :: "string \<Rightarrow> string \<Rightarrow> scope_row list \<Rightarrow> db_error + governance_scope option" where
  "getScope tenantId scopeId rows =
     snd (guarded tenantId ''governance-scopes:getScope''
       (rows, Inr (map_option mapScopeRow (find (\<lambda>r. sr_id r = scopeId \<and> sr_tenant_id r = tenantId) rows))) rows)"

definition getScopeByName :: "string \<Rightarrow> string \<Rightarrow> scope_row list \<Rightarrow> db_error + governance_scope option" where
  "getScopeByName tenantId scopeName rows =
     snd (guarded tenantId ''governance-scopes:getScopeByName''
       (rows, Inr (case sort_key (\<lambda>r. if sr_tenant_id r = tenantId then 0 else (1 :: nat))
             (filter (\<lambda>r. (sr_tenant_id r = tenantId \<or> sr_tenant_id r = ''SYSTEM'') \<and>
                sr_scope_name r = scopeName \<and> sr_is_active r) rows) of
           [] \<Rightarrow> None | r # _ \<Rightarrow> Some (mapScopeRow r))) rows)"

definition listScopes :: "string \<Rightarrow> string option \<Rightarrow> bool option \<Rightarrow> scope_row list \<Rightarrow> db_error + governance_scope list" where
  "listScopes tenantId resourceType isActive rows =
     snd (guarded tenantId ''governance-scopes:listScopes''
       (rows, Inr (map mapScopeRow (sort_key sr_scope_name
          (filter (\<lambda>r. (sr_tenant_id r = tenantId \<or> sr_tenant_id r = ''SYSTEM'') \<and>
             (case resourceType of Some t \<Rightarrow> t = [] \<or> sr_resource_type r = t | None \<Rightarrow> True) \<and>
             (case isActive of Some b \<Rightarrow> sr_is_active r = b | None \<Rightarrow> True)) rows)))) rows)"

definition deactivateScope :: "string \<Rightarrow> string \<Rightarrow> int \<Rightarrow> scope_row list \<Rightarrow> scope_row list \<times> (db_error + unit)" where
  "deactivateScope tenantId scopeId now rows =
     guarded tenantId ''governance-scopes:deactivateScope''
       (map (\<lambda>r. if sr_id r = scopeId \<and> sr_tenant_id r = tenantId
           then r\<lparr>sr_is_active := False, sr_updated_at := now\<rparr> else r) rows, Inr ()) rows"

section \<open>Laws of the patterns\<close>

text \<open>What a glob means, independently of regular expressions.\<close>

inductive glob :: "string \<Rightarrow> string \<Rightarrow> bool" where
  glob_end: "glob [] []"
| glob_char: "c \<noteq> CHR ''*'' \<Longrightarrow> c \<noteq> CHR ''?'' \<Longrightarrow> glob p s \<Longrightarrow> glob (c # p) (c # s)"
| glob_one: "\<not> line_break d \<Longrightarrow> glob p s \<Longrightarrow> glob (CHR ''?'' # p) (d # s)"
| glob_many: "\<forall>d\<in>set xs. \<not> line_break d \<Longrightarrow> glob p s \<Longrightarrow> glob (CHR ''*'' # p) (xs @ s)"

inductive_simps glob_Nil [simp]: "glob [] s"


definition glob_text :: "string \<Rightarrow> string" where
  "glob_text p = replace_char (CHR ''?'') ''.'' (replace_char (CHR ''*'') ''.*'' (escape_special p))"

lemma glob_text_Nil [simp]: "glob_text [] = []"
  by (simp add: glob_text_def replace_char_def escape_special_def)









section \<open>Laws of the lookups\<close>

lemma find_hd: "find P xs = (case filter P xs of [] \<Rightarrow> None | x # _ \<Rightarrow> Some x)"
  by (induction xs) auto

text \<open>A stable sort by two classes puts the first class in front.\<close>

lemma insort_second_class:
  "\<not> P x \<Longrightarrow> \<forall>a\<in>set as. P a \<Longrightarrow> \<forall>b\<in>set bs. \<not> P b \<Longrightarrow>
     insort_key (\<lambda>x. if P x then 0 else (1 :: nat)) x (as @ bs) = as @ x # bs"
  by (induction as) (simp_all add: insort_is_Cons)

lemma sort_two_classes: "sort_key (\<lambda>x. if P x then 0 else (1 :: nat)) xs = filter P xs @ filter (\<lambda>x. \<not> P x) xs"
  by (induction xs) (simp_all add: insort_second_class insort_is_Cons)

lemma hd_two_classes:
  "(case filter P xs @ filter (\<lambda>x. \<not> P x) xs of [] \<Rightarrow> None | x # _ \<Rightarrow> Some x) =
     (case find P xs of Some x \<Rightarrow> Some x | None \<Rightarrow> (case find (\<lambda>x. \<not> P x) xs of Some x \<Rightarrow> Some x | None \<Rightarrow> None))"
  unfolding find_hd by (simp split: list.split)

lemma find_filter: "find P (filter Q xs) = find (\<lambda>x. Q x \<and> P x) xs"
  by (induction xs) auto

lemma guarded_valid: "valid_tenant t \<Longrightarrow> guarded t ctx res x = res"
proof -
  assume "valid_tenant t"
  then have "assertTenantIsolation (Str t) ctx = Inr t" by (simp add: assert_accepts)
  then show ?thesis by (simp add: guarded_def)
qed

lemma guarded_Inr: "guarded t ctx res x = (x', Inr y) \<longleftrightarrow> valid_tenant t \<and> res = (x', Inr y)"
proof (cases "assertTenantIsolation (Str t) ctx")
  case (Inl e)
  moreover have "\<not> valid_tenant t" using Inl assert_accepts [of t ctx t] by auto
  ultimately show ?thesis by (simp add: guarded_def)
next
  case (Inr u)
  moreover have "valid_tenant t" using Inr by (simp add: assert_accepts)
  ultimately show ?thesis by (simp add: guarded_def)
qed

section \<open>Properties\<close>


text \<open>
  Name resolution shadows: for a tenant that passes the isolation check a scope name resolves to
  the first active scope of that name of the tenant, else to the first active system scope of that
  name, else to nothing; a scope of another tenant or an inactive one is never returned.
\<close>

theorem scope_name_resolution:
  assumes "VALID_TENANT_PATTERN (trim t)" and "to_lower (trim t) \<notin> set SYSTEM_RESERVED_IDS"
  shows "getScopeByName t name rows = Inr (map_option mapScopeRow
    (case find (\<lambda>r. sr_tenant_id r = t \<and> sr_scope_name r = name \<and> sr_is_active r) rows of
       Some r \<Rightarrow> Some r
     | None \<Rightarrow> find (\<lambda>r. sr_tenant_id r = ''SYSTEM'' \<and> sr_scope_name r = name \<and> sr_is_active r) rows))"
proof -
  let ?own = "\<lambda>r. sr_tenant_id r = t" and ?q = "\<lambda>r. (sr_tenant_id r = t \<or> sr_tenant_id r = ''SYSTEM'') \<and> sr_scope_name r = name \<and> sr_is_active r"
  have valid: "valid_tenant t" using assms by (simp add: valid_tenant_def)
  have own: "find (\<lambda>r. ?q r \<and> ?own r) rows = find (\<lambda>r. sr_tenant_id r = t \<and> sr_scope_name r = name \<and> sr_is_active r) rows"
    by (rule arg_cong [where f = "\<lambda>P. find P rows"]) auto
  have sys: "find (\<lambda>r. ?q r \<and> \<not> ?own r) rows = find (\<lambda>r. sr_tenant_id r = ''SYSTEM'' \<and> sr_scope_name r = name \<and> sr_is_active r) rows"
    if "find (\<lambda>r. sr_tenant_id r = t \<and> sr_scope_name r = name \<and> sr_is_active r) rows = None"
    using that by (intro find_cong) (auto simp: find_None_iff)
  have "getScopeByName t name rows = Inr (map_option mapScopeRow
      (case sort_key (\<lambda>r. if ?own r then 0 else (1 :: nat)) (filter ?q rows) of [] \<Rightarrow> None | r # _ \<Rightarrow> Some r))"
    by (simp add: getScopeByName_def guarded_valid [OF valid] split: list.split)
  also have "\<dots> = Inr (map_option mapScopeRow (case find (\<lambda>r. ?q r \<and> ?own r) rows of Some r \<Rightarrow> Some r
      | None \<Rightarrow> find (\<lambda>r. ?q r \<and> \<not> ?own r) rows))"
    unfolding sort_two_classes hd_two_classes find_filter by (simp split: option.split)
  also have "\<dots> = Inr (map_option mapScopeRow
      (case find (\<lambda>r. sr_tenant_id r = t \<and> sr_scope_name r = name \<and> sr_is_active r) rows of
       Some r \<Rightarrow> Some r
     | None \<Rightarrow> find (\<lambda>r. sr_tenant_id r = ''SYSTEM'' \<and> sr_scope_name r = name \<and> sr_is_active r) rows))"
    unfolding own using sys by (simp split: option.split)
  finally show ?thesis .
qed

theorem scope_name_resolution_witness:
  "\<exists>s. getScopeByName ''acme'' ''sandbox_only'' seeded_scopes = Inr (Some s) \<and> sc_tenantId s = ''SYSTEM'' \<and>
     scopeCoversResource s ''index'' ''main'' ''sandbox'' \<and> \<not> scopeCoversResource s ''index'' ''main'' ''production''"
  using scope_name_resolution [of "''acme''" "''sandbox_only''" seeded_scopes] acme_valid
  by (simp add: valid_tenant_def seeded_scopes_def system_scope_def mapScopeRow_def scopeCoversResource_def matchesScope_def)

end
