(* ===== verification/Grants.thy ===== *)
theory Grants
  imports Scopes
begin

text \<open>
  Time-bounded permission grants, \<open>core/governance/governance-ttl.ts\<close>, and their revocation,
  \<open>governance-revocation.ts\<close>, on the tables of \<open>prisma/migrations/20260606_governance_ttl_scopes\<close>.
  The clock of the program and of the database is one argument, in milliseconds; random ids are arguments.
  Whether a fire-and-forget write arrives is an argument as well. Rows that tie in an \<open>ORDER BY\<close> are
  taken in the order of insertion, which SQL leaves open.
\<close>

section \<open>Tables\<close>

record permission_grant =
  pg_id :: string
  pg_tenantId :: string
  pg_actorId :: string
  pg_resourceType :: string
  pg_resourceId :: string
  pg_permission :: string
  pg_scopeId :: "string option"
  pg_grantedBy :: string
  pg_grantedAt :: int
  pg_expiresAt :: int
  pg_revokedAt :: "int option"
  pg_revokedBy :: "string option"
  pg_revocationId :: "string option"
  pg_lastUsedAt :: "int option"
  pg_useCount :: nat
  pg_metadata :: "(string \<times> js) list"

record grant_row =
  gr_id :: string
  gr_tenant_id :: string
  gr_actor_id :: string
  gr_resource_type :: string
  gr_resource_id :: string
  gr_permission :: string
  gr_scope_id :: "string option"
  gr_granted_by :: string
  gr_granted_at :: int
  gr_expires_at :: int
  gr_revoked_at :: "int option"
  gr_revoked_by :: "string option"
  gr_revocation_id :: "string option"
  gr_last_used_at :: "int option"
  gr_use_count :: nat
  gr_metadata :: "(string \<times> js) list option"

definition mapRow :: "grant_row \<Rightarrow> permission_grant" where
  "mapRow r =
     \<lparr>pg_id = gr_id r, pg_tenantId = gr_tenant_id r, pg_actorId = gr_actor_id r, pg_resourceType = gr_resource_type r,
      pg_resourceId = gr_resource_id r, pg_permission = gr_permission r, pg_scopeId = gr_scope_id r,
      pg_grantedBy = gr_granted_by r, pg_grantedAt = gr_granted_at r, pg_expiresAt = gr_expires_at r,
      pg_revokedAt = gr_revoked_at r, pg_revokedBy = gr_revoked_by r, pg_revocationId = gr_revocation_id r,
      pg_lastUsedAt = gr_last_used_at r, pg_useCount = gr_use_count r,
      pg_metadata = (case gr_metadata r of Some m \<Rightarrow> m | None \<Rightarrow> [])\<rparr>"

record revocation =
  rc_id :: string
  rc_tenantId :: string
  rc_permissionId :: string
  rc_revokedBy :: string
  rc_reason :: string
  rc_effectiveAt :: int
  rc_auditEventId :: string
  rc_metadata :: "(string \<times> js) list"

record audit_event =
  ae_id :: string
  ae_tenant_id :: string
  ae_event_type :: string
  ae_actor_id :: string
  ae_resource_id :: string
  ae_revocation_id :: string
  ae_reason :: string
  ae_metadata :: "(string \<times> js) list"

record sweep_log =
  sw_id :: string
  sw_swept_at :: int
  sw_expired_count :: nat
  sw_checked_count :: nat
  sw_duration_ms :: int
  sw_environment :: string

record grants_db =
  db_grants :: "grant_row list"
  db_revocations :: "revocation list"
  db_sweeps :: "sweep_log list"
  db_audit_columns :: "string list"
  db_audit :: "audit_event list"

section \<open>Granting\<close>

record grant_opts =
  go_tenantId :: string
  go_actorId :: string
  go_resourceType :: string
  go_resourceId :: string
  go_permission :: string
  go_scopeId :: "string option"
  go_grantedBy :: string
  go_ttlSeconds :: jsnum
  go_metadata :: "(string \<times> js) list option"

definition MAX_TTL_SECONDS :: jsnum where
  "MAX_TTL_SECONDS = Fin (365 * 24 * 3600)"

definition MIN_TTL_SECONDS :: jsnum where
  "MIN_TTL_SECONDS = Fin 60"

definition clampedTtl :: "jsnum \<Rightarrow> jsnum" where
  "clampedTtl ttl = jmin (jmax ttl MIN_TTL_SECONDS) MAX_TTL_SECONDS"

definition expiry :: "jsnum \<Rightarrow> int \<Rightarrow> int option" where
  "expiry ttl now = date_value (jadd (Fin (of_int now)) (jmul (clampedTtl ttl) (Fin 1000)))"

definition insert_grant :: "grant_row \<Rightarrow> grants_db \<Rightarrow> grants_db option" where
  "insert_grant r db = (if gr_id r \<in> gr_id ` set (db_grants db) then None else Some (db\<lparr>db_grants := db_grants db @ [r]\<rparr>))"

definition new_grant_row :: "grant_opts \<Rightarrow> string \<Rightarrow> int \<Rightarrow> int \<Rightarrow> grant_row" where
  "new_grant_row opts hex expiresAt now =
     \<lparr>gr_id = ''perm-'' @ hex, gr_tenant_id = go_tenantId opts, gr_actor_id = go_actorId opts,
      gr_resource_type = go_resourceType opts, gr_resource_id = go_resourceId opts, gr_permission = go_permission opts,
      gr_scope_id = go_scopeId opts, gr_granted_by = go_grantedBy opts, gr_granted_at = now, gr_expires_at = expiresAt,
      gr_revoked_at = None, gr_revoked_by = None, gr_revocation_id = None, gr_last_used_at = None, gr_use_count = 0,
      gr_metadata = Some (case go_metadata opts of Some m \<Rightarrow> m | None \<Rightarrow> [])\<rparr>"

definition grantPermission :: "grant_opts \<Rightarrow> string \<Rightarrow> int \<Rightarrow> grants_db \<Rightarrow> grants_db \<times> (db_error + permission_grant)" where
  "grantPermission opts hex now db =
     guarded (go_tenantId opts) ''governance-ttl:grantPermission''
       (case expiry (go_ttlSeconds opts) now of
          None \<Rightarrow> (db, Inl Range_error)
        | Some expiresAt \<Rightarrow>
            (let row = new_grant_row opts hex expiresAt now
             in case insert_grant row db of
                  None \<Rightarrow> (db, Inl Unique_violation)
                | Some db' \<Rightarrow> (db', Inr (mapRow row)))) db"

section \<open>Checking\<close>

record permission_query =
  pq_tenantId :: string
  pq_actorId :: string
  pq_resourceType :: string
  pq_resourceId :: string
  pq_permission :: string

record permission_answer =
  pa_granted :: bool
  pa_grant :: "permission_grant option"
  pa_reason :: "string option"

definition active_match :: "permission_query \<Rightarrow> int \<Rightarrow> grant_row \<Rightarrow> bool" where
  "active_match q now r =
     (gr_tenant_id r = pq_tenantId q \<and> gr_actor_id r = pq_actorId q \<and> gr_resource_type r = pq_resourceType q \<and>
      gr_resource_id r = pq_resourceId q \<and> gr_permission r = pq_permission q \<and> gr_revoked_at r = None \<and>
      now < gr_expires_at r)"

definition record_usage :: "string \<Rightarrow> int \<Rightarrow> grants_db \<Rightarrow> grants_db" where
  "record_usage i now db =
     db\<lparr>db_grants := map (\<lambda>r. if gr_id r = i then r\<lparr>gr_use_count := gr_use_count r + 1, gr_last_used_at := Some now\<rparr> else r)
       (db_grants db)\<rparr>"

definition checkPermission ::
  "permission_query \<Rightarrow> int \<Rightarrow> bool \<Rightarrow> grants_db \<Rightarrow> grants_db \<times> (db_error + permission_answer)" where
  "checkPermission q now usage_arrives db =
     guarded (pq_tenantId q) ''governance-ttl:checkPermission''
       (case sort_key (\<lambda>r. - gr_expires_at r) (filter (active_match q now) (db_grants db)) of
          [] \<Rightarrow> (db, Inr \<lparr>pa_granted = False, pa_grant = None, pa_reason = Some ''no active grant found''\<rparr>)
        | r # _ \<Rightarrow>
            (if usage_arrives then record_usage (gr_id r) now db else db,
             Inr \<lparr>pa_granted = True, pa_grant = Some (mapRow r), pa_reason = None\<rparr>)) db"

definition truthy_eq :: "string option \<Rightarrow> string \<Rightarrow> bool" where
  "truthy_eq filter_value v = (case filter_value of Some w \<Rightarrow> w = [] \<or> v = w | None \<Rightarrow> True)"

definition listActivePermissions ::
  "string \<Rightarrow> string option \<Rightarrow> string option \<Rightarrow> nat option \<Rightarrow> int \<Rightarrow> grants_db \<Rightarrow> db_error + permission_grant list" where
  "listActivePermissions tenantId actorId resourceType limit now db =
     snd (guarded tenantId ''governance-ttl:listActivePermissions''
       (db, Inr (map mapRow (take (case limit of Some n \<Rightarrow> n | None \<Rightarrow> 100) (sort_key gr_expires_at
          (filter (\<lambda>r. gr_tenant_id r = tenantId \<and> gr_revoked_at r = None \<and> now < gr_expires_at r \<and>
             truthy_eq actorId (gr_actor_id r) \<and> truthy_eq resourceType (gr_resource_type r)) (db_grants db)))))) db)"

section \<open>The sweep\<close>

record sweep_result =
  sx_checkedCount :: nat
  sx_expiredCount :: nat
  sx_durationMs :: int

definition runTtlSweep ::
  "string \<Rightarrow> int \<Rightarrow> int \<Rightarrow> string option \<Rightarrow> bool \<Rightarrow> grants_db \<Rightarrow> grants_db \<times> sweep_result" where
  "runTtlSweep hex now durationMs app_env log_arrives db =
     (let checked = length (filter (\<lambda>r. gr_revoked_at r = None) (db_grants db));
          expired = length (filter (\<lambda>r. gr_revoked_at r = None \<and> gr_expires_at r \<le> now) (db_grants db));
          entry = \<lparr>sw_id = ''sweep-'' @ hex, sw_swept_at = now, sw_expired_count = expired, sw_checked_count = checked,
            sw_duration_ms = durationMs, sw_environment = (case app_env of Some e \<Rightarrow> e | None \<Rightarrow> ''sandbox'')\<rparr>
      in (if log_arrives \<and> sw_id entry \<notin> sw_id ` set (db_sweeps db) then db\<lparr>db_sweeps := db_sweeps db @ [entry]\<rparr> else db,
          \<lparr>sx_checkedCount = checked, sx_expiredCount = expired, sx_durationMs = durationMs\<rparr>))"

section \<open>Revoking\<close>

record revoke_opts =
  ro_permissionId :: string
  ro_tenantId :: string
  ro_revokedBy :: string
  ro_reason :: string
  ro_metadata :: "(string \<times> js) list option"

text \<open>The columns the audit insert names; the table must have them all.\<close>

definition AUDIT_INSERT_COLUMNS :: "string list" where
  "AUDIT_INSERT_COLUMNS = [''id'', ''tenant_id'', ''event_type'', ''actor_id'', ''resource_type'', ''resource_id'',
     ''decision'', ''payload'', ''created_at'']"

definition insert_audit :: "audit_event \<Rightarrow> grants_db \<Rightarrow> grants_db" where
  "insert_audit e db =
     (if set AUDIT_INSERT_COLUMNS \<subseteq> set (db_audit_columns db) \<and> ae_id e \<notin> ae_id ` set (db_audit db)
      then db\<lparr>db_audit := db_audit db @ [e]\<rparr> else db)"

text \<open>
  \<open>lost\<close> is the number of the query, from one, at which the connection is lost, if any. The three
  queries are not in a transaction, so what was written before stays.
\<close>

record revoke_env =
  re_revocationHex :: string
  re_auditHex :: string
  re_now :: int
  re_lost :: "nat option"
  re_audit_arrives :: bool

definition new_revocation :: "revoke_opts \<Rightarrow> revoke_env \<Rightarrow> revocation" where
  "new_revocation opts env =
     \<lparr>rc_id = ''rev-'' @ re_revocationHex env, rc_tenantId = ro_tenantId opts, rc_permissionId = ro_permissionId opts,
      rc_revokedBy = ro_revokedBy opts, rc_reason = ro_reason opts, rc_effectiveAt = re_now env,
      rc_auditEventId = ''aud-rev-'' @ re_auditHex env,
      rc_metadata = (case ro_metadata opts of Some m \<Rightarrow> m | None \<Rightarrow> [])\<rparr>"

definition mark_revoked :: "revoke_opts \<Rightarrow> revocation \<Rightarrow> grants_db \<Rightarrow> grants_db" where
  "mark_revoked opts rvk db =
     db\<lparr>db_grants := map (\<lambda>r. if gr_id r = ro_permissionId opts \<and> gr_tenant_id r = ro_tenantId opts
         then r\<lparr>gr_revoked_at := Some (rc_effectiveAt rvk), gr_revoked_by := Some (ro_revokedBy opts),
                 gr_revocation_id := Some (rc_id rvk)\<rparr> else r) (db_grants db)\<rparr>"

definition audit_of :: "revocation \<Rightarrow> audit_event" where
  "audit_of rvk =
     \<lparr>ae_id = rc_auditEventId rvk, ae_tenant_id = rc_tenantId rvk, ae_event_type = ''permission_revoked'',
      ae_actor_id = rc_revokedBy rvk, ae_resource_id = rc_permissionId rvk, ae_revocation_id = rc_id rvk,
      ae_reason = rc_reason rvk, ae_metadata = rc_metadata rvk\<rparr>"

definition revokePermission :: "revoke_opts \<Rightarrow> revoke_env \<Rightarrow> grants_db \<Rightarrow> grants_db \<times> (db_error + revocation)" where
  "revokePermission opts env db =
     guarded (ro_tenantId opts) ''governance-revocation:revokePermission''
       (if re_lost env = Some 1 then (db, Inl Connection_lost)
        else case find (\<lambda>r. gr_id r = ro_permissionId opts \<and> gr_tenant_id r = ro_tenantId opts) (db_grants db) of
          None \<Rightarrow> (db, Inl (App_error (''Permission not found: '' @ ro_permissionId opts @ '' for tenant '' @ ro_tenantId opts)))
        | Some grant \<Rightarrow>
            if gr_revoked_at grant \<noteq> None
              then (db, Inl (App_error (''Permission '' @ ro_permissionId opts @ '' is already revoked'')))
            else if gr_expires_at grant \<le> re_now env
              then (db, Inl (App_error (''Permission '' @ ro_permissionId opts @ '' has already expired '' @ em_dash @ '' revocation not needed'')))
            else if re_lost env = Some 2 then (db, Inl Connection_lost)
            else (let rvk = new_revocation opts env
                  in if rc_id rvk \<in> rc_id ` set (db_revocations db) then (db, Inl Unique_violation)
                     else (let db1 = db\<lparr>db_revocations := db_revocations db @ [rvk]\<rparr>
                           in if re_lost env = Some 3 then (db1, Inl Connection_lost)
                              else (let db2 = mark_revoked opts rvk db1
                                    in (if re_audit_arrives env then insert_audit (audit_of rvk) db2 else db2, Inr rvk))))) db"

definition listRevocations :: "string \<Rightarrow> nat option \<Rightarrow> int option \<Rightarrow> grants_db \<Rightarrow> db_error + revocation list" where
  "listRevocations tenantId limit since db =
     snd (guarded tenantId ''governance-revocation:listRevocations''
       (db, Inr (take (case limit of Some n \<Rightarrow> n | None \<Rightarrow> 50) (sort_key (\<lambda>r. - rc_effectiveAt r)
          (filter (\<lambda>r. rc_tenantId r = tenantId \<and> (case since of Some t \<Rightarrow> t \<le> rc_effectiveAt r | None \<Rightarrow> True))
             (db_revocations db))))) db)"

definition getRevocation :: "string \<Rightarrow> string \<Rightarrow> grants_db \<Rightarrow> db_error + revocation option" where
  "getRevocation tenantId revocationId db =
     snd (guarded tenantId ''governance-revocation:getRevocation''
       (db, Inr (find (\<lambda>r. rc_id r = revocationId \<and> rc_tenantId r = tenantId) (db_revocations db))) db)"

section \<open>The shipped audit tables\<close>

definition PRISMA_AUDIT_COLUMNS :: "string list" where
  "PRISMA_AUDIT_COLUMNS = [''id'', ''decisionId'', ''decision'', ''riskLevel'', ''actor'', ''actorId'', ''actorType'', ''action'',
     ''resource'', ''environment'', ''traceId'', ''correlationId'', ''causationId'', ''integrityState'', ''governanceMode'',
     ''policySnapshotHash'', ''matchedPolicies'', ''reasons'', ''evaluationMs'', ''createdAt'', ''metadata'']"

definition API_AUDIT_COLUMNS :: "string list" where
  "API_AUDIT_COLUMNS = [''audit_id'', ''tenant_id'', ''snapshot_id'', ''sourcetype'', ''index_name'', ''composite_score'',
     ''utilization_score'', ''detection_score'', ''quality_score'', ''tier'', ''recommendation'', ''decision_source'',
     ''reasoning'', ''created_at'']"

definition INFRA_AUDIT_COLUMNS :: "string list" where
  "INFRA_AUDIT_COLUMNS = PRISMA_AUDIT_COLUMNS @ [''tenant_id'']"

definition SHIPPED_AUDIT_TABLES :: "string list list" where
  "SHIPPED_AUDIT_TABLES = [PRISMA_AUDIT_COLUMNS, API_AUDIT_COLUMNS, INFRA_AUDIT_COLUMNS,
     API_AUDIT_COLUMNS @ [''archived_at''], INFRA_AUDIT_COLUMNS @ [''archived_at'']]"

section \<open>Runs\<close>

text \<open>The clock and the database; the clock never goes back.\<close>

inductive grants_step :: "int \<times> grants_db \<Rightarrow> int \<times> grants_db \<Rightarrow> bool" where
  step_tick: "t \<le> t' \<Longrightarrow> grants_step (t, db) (t', db)"
| step_grant: "grants_step (t, db) (t, fst (grantPermission opts hex t db))"
| step_check: "grants_step (t, db) (t, fst (checkPermission q t u db))"
| step_revoke: "re_now env = t \<Longrightarrow> grants_step (t, db) (t, fst (revokePermission opts env db))"
| step_sweep: "grants_step (t, db) (t, fst (runTtlSweep hex t ms env u db))"

inductive_cases grants_stepE: "grants_step (t, db) s"

definition empty_db :: "string list \<Rightarrow> grants_db" where
  "empty_db columns = \<lparr>db_grants = [], db_revocations = [], db_sweeps = [], db_audit_columns = columns, db_audit = []\<rparr>"

abbreviation later :: "int \<times> grants_db \<Rightarrow> int \<times> grants_db \<Rightarrow> bool" where
  "later \<equiv> grants_step\<^sup>*\<^sup>*"

section \<open>Expiry times\<close>

lemma clamped_range: "ttl \<noteq> NaN \<Longrightarrow> in_range 60 31536000 (clampedTtl ttl)"
  by (cases ttl) (auto simp: clampedTtl_def jmin_def jmax_def MIN_TTL_SECONDS_def MAX_TTL_SECONDS_def)

lemma expiry_bounds:
  assumes "expiry ttl now = Some e" and "0 \<le> now"
  shows "now + 60000 \<le> e \<and> e \<le> now + 31536000000"
proof -
  have "ttl \<noteq> NaN" using assms(1) by (auto simp: expiry_def clampedTtl_def jmin_def jmax_def date_value_def)
  then obtain c where c: "clampedTtl ttl = Fin c" "60 \<le> c" "c \<le> 31536000"
    using clamped_range by (auto simp: in_range_iff)
  obtain y where y: "rnd64 (c * 1000) = Fin y" "60000 \<le> y" "y \<le> 31536000000"
    using r64.rnd_between_int [of 60000 "c * 1000" 31536000000] c by auto
  obtain z where z: "rnd64 (of_int now + y) = Fin z" "\<bar>z\<bar> \<le> 8640000000000000" "0 \<le> z \<Longrightarrow> e = \<lfloor>z\<rfloor>"
    using assms(1) date_value_Some by (auto simp: expiry_def c(1) y(1))
  have small: "now \<le> 8640000000000000"
  proof (rule ccontr)
    assume "\<not> now \<le> 8640000000000000"
    then have "of_int 8640000000000001 \<le> (of_int now + y :: rat)" using y(2) by linarith
    moreover have "rnd64 (of_int 8640000000000001) = Fin (of_int 8640000000000001)" by (rule rnd64_of_int) simp
    ultimately have "of_int 8640000000000001 \<le> z" using r64.rnd_mono z(1) by blast
    then show False using z(2) by simp
  qed
  have "\<exists>x'. rnd64 (of_int now + y) = Fin x' \<and> of_int (now + 60000) \<le> x' \<and> x' \<le> of_int (now + 31536000000)"
    using y small assms(2) by (intro r64.rnd_between_int) auto
  then have "of_int (now + 60000) \<le> z" "z \<le> of_int (now + 31536000000)" using z(1) by auto
  moreover from this have "e = \<lfloor>z\<rfloor>" using z(3) assms(2) by simp
  ultimately show ?thesis by (metis floor_mono floor_of_int)
qed

section \<open>How the tables change\<close>

text \<open>Rows are appended and never lost; a row keeps its identity and lifetime, and stays revoked.\<close>

definition row_kept :: "grant_row \<Rightarrow> grant_row \<Rightarrow> bool" where
  "row_kept r r' \<longleftrightarrow> gr_id r' = gr_id r \<and> gr_tenant_id r' = gr_tenant_id r \<and> gr_granted_at r' = gr_granted_at r \<and>
     gr_expires_at r' = gr_expires_at r \<and> (gr_revoked_at r \<noteq> None \<longrightarrow> gr_revoked_at r' \<noteq> None)"

definition grows :: "grants_db \<Rightarrow> grants_db \<Rightarrow> bool" where
  "grows db db' \<longleftrightarrow> (\<exists>as bs. db_grants db' = as @ bs \<and> list_all2 row_kept (db_grants db) as) \<and>
     prefix (db_revocations db) (db_revocations db') \<and> db_audit_columns db' = db_audit_columns db"

lemma row_kept_refl [simp]: "row_kept r r"
  by (simp add: row_kept_def)

lemma row_kept_trans: "row_kept a b \<Longrightarrow> row_kept b c \<Longrightarrow> row_kept a c"
  by (simp add: row_kept_def)

lemma rows_kept_refl [simp]: "list_all2 row_kept rs rs"
  by (rule list.rel_refl) simp

lemma growsI:
  "db_grants db' = as @ bs \<Longrightarrow> list_all2 row_kept (db_grants db) as \<Longrightarrow> prefix (db_revocations db) (db_revocations db') \<Longrightarrow>
     db_audit_columns db' = db_audit_columns db \<Longrightarrow> grows db db'"
  unfolding grows_def by blast

lemma grows_refl [simp]: "grows db db"
  by (simp add: grows_def exI [of _ "db_grants db"])

lemma grows_trans: "grows a b \<Longrightarrow> grows b c \<Longrightarrow> grows a c"
proof -
  assume ab: "grows a b" and bc: "grows b c"
  obtain as bs where a: "db_grants b = as @ bs" "list_all2 row_kept (db_grants a) as" using ab by (auto simp: grows_def)
  obtain cs ds where b: "db_grants c = cs @ ds" "list_all2 row_kept (as @ bs) cs" using bc a(1) by (auto simp: grows_def)
  obtain us vs where u: "cs = us @ vs" "list_all2 row_kept as us" using b(2) by (auto simp: list_all2_append1)
  show ?thesis
  proof (rule growsI)
    show "db_grants c = us @ (vs @ ds)" using b(1) u(1) by simp
    show "list_all2 row_kept (db_grants a) us" by (rule list_all2_trans [OF row_kept_trans a(2) u(2)])
  qed (use ab bc in \<open>auto simp: grows_def\<close>)
qed

lemma grows_map:
  "(\<And>r. row_kept r (f r)) \<Longrightarrow> db_grants db' = map f (db_grants db) \<Longrightarrow> db_revocations db' = db_revocations db \<Longrightarrow>
     db_audit_columns db' = db_audit_columns db \<Longrightarrow> grows db db'"
  by (rule growsI [where as = "map f (db_grants db)" and bs = "[]"]) (simp_all add: list_all2_conv_all_nth)

lemma guarded_db: "P db \<Longrightarrow> P (fst res) \<Longrightarrow> P (fst (guarded t ctx res db))"
  by (simp add: guarded_def split: sum.split)

lemma grows_grant: "grows db (fst (grantPermission opts hex t db))"
proof -
  have "grows db (db\<lparr>db_grants := db_grants db @ [r]\<rparr>)" for r
    by (rule growsI [where as = "db_grants db" and bs = "[r]"]) simp_all
  then show ?thesis unfolding grantPermission_def
    by (intro guarded_db [where P = "grows db"]) (simp_all add: insert_grant_def Let_def split: option.split)
qed

lemma grows_usage: "grows db (record_usage i t db)"
  by (rule grows_map [where f = "\<lambda>r. if gr_id r = i then r\<lparr>gr_use_count := gr_use_count r + 1, gr_last_used_at := Some t\<rparr> else r"])
    (simp_all add: record_usage_def row_kept_def)

lemma grows_check: "grows db (fst (checkPermission q t u db))"
  unfolding checkPermission_def
  by (rule guarded_db [where P = "grows db"]) (simp_all add: grows_usage split: list.split)

lemma mark_revoked_fields [simp]:
  "db_revocations (mark_revoked opts rvk db) = db_revocations db" "db_audit_columns (mark_revoked opts rvk db) = db_audit_columns db"
  "db_audit (mark_revoked opts rvk db) = db_audit db"
  by (simp_all add: mark_revoked_def)

lemma grows_mark: "grows db (mark_revoked opts rvk db)"
  by (rule grows_map [where f = "\<lambda>r. if gr_id r = ro_permissionId opts \<and> gr_tenant_id r = ro_tenantId opts
         then r\<lparr>gr_revoked_at := Some (rc_effectiveAt rvk), gr_revoked_by := Some (ro_revokedBy opts),
                 gr_revocation_id := Some (rc_id rvk)\<rparr> else r"])
    (simp_all add: mark_revoked_def row_kept_def)

lemma insert_audit_fields [simp]:
  "db_grants (insert_audit e db) = db_grants db" "db_revocations (insert_audit e db) = db_revocations db"
  "db_audit_columns (insert_audit e db) = db_audit_columns db"
  by (simp_all add: insert_audit_def)

lemma grows_audit: "grows db db' \<Longrightarrow> grows db (insert_audit e db')"
  by (simp add: grows_def)

text \<open>What a revocation does to the database, in its five outcomes.\<close>

lemma revoke_cases:
  obtains (refused) "fst (revokePermission opts env db) = db" "isl (snd (revokePermission opts env db))"
  | (half) "revokePermission opts env db = (db\<lparr>db_revocations := db_revocations db @ [new_revocation opts env]\<rparr>, Inl Connection_lost)"
      "rc_id (new_revocation opts env) \<notin> rc_id ` set (db_revocations db)"
  | (revoked) r where "find (\<lambda>r. gr_id r = ro_permissionId opts \<and> gr_tenant_id r = ro_tenantId opts) (db_grants db) = Some r"
      "gr_revoked_at r = None" "re_now env < gr_expires_at r" "re_lost env \<noteq> Some 3"
      "rc_id (new_revocation opts env) \<notin> rc_id ` set (db_revocations db)"
      "revokePermission opts env db =
        (let rvk = new_revocation opts env; db2 = mark_revoked opts rvk (db\<lparr>db_revocations := db_revocations db @ [rvk]\<rparr>)
         in (if re_audit_arrives env then insert_audit (audit_of rvk) db2 else db2, Inr rvk))"
proof (cases "assertTenantIsolation (Str (ro_tenantId opts)) ''governance-revocation:revokePermission''")
  case (Inl e)
  then show thesis by (intro refused) (simp_all add: revokePermission_def guarded_def)
next
  case ok: (Inr u)
  show thesis
  proof (cases "find (\<lambda>r. gr_id r = ro_permissionId opts \<and> gr_tenant_id r = ro_tenantId opts) (db_grants db)")
    case None
    then show thesis using ok by (intro refused) (simp_all add: revokePermission_def guarded_def)
  next
    case (Some r)
    note unf = revokePermission_def guarded_def Let_def
    consider "re_lost env = Some 1 \<or> gr_revoked_at r \<noteq> None \<or> gr_expires_at r \<le> re_now env \<or> re_lost env = Some 2 \<or>
        rc_id (new_revocation opts env) \<in> rc_id ` set (db_revocations db)"
      | "re_lost env = Some 3" "\<not> (re_lost env = Some 1 \<or> gr_revoked_at r \<noteq> None \<or> gr_expires_at r \<le> re_now env \<or>
          rc_id (new_revocation opts env) \<in> rc_id ` set (db_revocations db))"
      | "re_lost env \<noteq> Some 3" "\<not> (re_lost env = Some 1 \<or> gr_revoked_at r \<noteq> None \<or> gr_expires_at r \<le> re_now env \<or>
          re_lost env = Some 2 \<or> rc_id (new_revocation opts env) \<in> rc_id ` set (db_revocations db))"
      by blast
    then show thesis
    proof cases
      case 1
      then have "fst (revokePermission opts env db) = db \<and> isl (snd (revokePermission opts env db))"
        using ok Some by (elim disjE; simp add: unf)
      then show thesis using refused by blast
    next
      case 2
      then show thesis using ok Some by (intro half) (simp_all add: unf)
    next
      case 3
      then have "revokePermission opts env db =
        (let rvk = new_revocation opts env; db2 = mark_revoked opts rvk (db\<lparr>db_revocations := db_revocations db @ [rvk]\<rparr>)
         in (if re_audit_arrives env then insert_audit (audit_of rvk) db2 else db2, Inr rvk))"
        using ok Some by (simp add: unf)
      then show thesis using 3 Some by (intro revoked) auto
    qed
  qed
qed

lemma grows_revocation: "grows db (db\<lparr>db_revocations := db_revocations db @ [x]\<rparr>)"
  by (rule growsI [where as = "db_grants db" and bs = "[]"]) simp_all

lemma grows_revoke: "grows db (fst (revokePermission opts env db))"
  by (rule revoke_cases [where opts = opts and env = env and db = db])
    (auto simp: Let_def intro: grows_revocation grows_audit grows_trans [OF grows_revocation grows_mark])

lemma grows_step: "grants_step (t, db) (t', db') \<Longrightarrow> t \<le> t' \<and> grows db db'"
proof (erule grants_stepE)
  fix hex ms env u
  assume "(t', db') = (t, fst (runTtlSweep hex t ms env u db))"
  moreover have "grows db (fst (runTtlSweep hex t ms env u db))"
    by (rule grows_map [where f = id]) (auto simp: runTtlSweep_def Let_def)
  ultimately show ?thesis by simp
qed (auto simp: grows_grant grows_check grows_revoke)

lemma grows_later: "later (t, db) (t', db') \<Longrightarrow> t \<le> t' \<and> grows db db'"
proof (induction "(t', db')" arbitrary: t' db' rule: rtranclp_induct)
  case (step s)
  then show ?case using grows_step grows_trans by (cases s) (metis order_trans)
qed simp

section \<open>The invariant of the tables\<close>

definition row_ok :: "int \<Rightarrow> revocation list \<Rightarrow> grant_row \<Rightarrow> bool" where
  "row_ok t rvs r \<longleftrightarrow> gr_granted_at r \<le> t \<and> gr_granted_at r + 60000 \<le> gr_expires_at r \<and>
     gr_expires_at r \<le> gr_granted_at r + 31536000000 \<and>
     (\<forall>u. gr_revoked_at r = Some u \<longrightarrow> u < gr_expires_at r \<and>
        (\<exists>v\<in>set rvs. gr_revocation_id r = Some (rc_id v) \<and> rc_permissionId v = gr_id r \<and>
           rc_tenantId v = gr_tenant_id r \<and> rc_effectiveAt v = u))"

definition grants_ok :: "int \<times> grants_db \<Rightarrow> bool" where
  "grants_ok s \<longleftrightarrow> 0 \<le> fst s \<and> distinct (map gr_id (db_grants (snd s))) \<and>
     distinct (map rc_id (db_revocations (snd s))) \<and>
     (\<forall>r\<in>set (db_grants (snd s)). row_ok (fst s) (db_revocations (snd s)) r)"

lemma grants_okI:
  "0 \<le> t \<Longrightarrow> distinct (map gr_id (db_grants db)) \<Longrightarrow> distinct (map rc_id (db_revocations db)) \<Longrightarrow>
     (\<And>r. r \<in> set (db_grants db) \<Longrightarrow> row_ok t (db_revocations db) r) \<Longrightarrow> grants_ok (t, db)"
  by (simp add: grants_ok_def)

lemma row_ok_later: "row_ok t rvs r \<Longrightarrow> t \<le> t' \<Longrightarrow> set rvs \<subseteq> set rvs' \<Longrightarrow> row_ok t' rvs' r"
  unfolding row_ok_def by (meson order_trans subsetD)

lemma grants_ok_empty: "0 \<le> t \<Longrightarrow> grants_ok (t, empty_db columns)"
  by (simp add: grants_ok_def empty_db_def)

lemma ok_grant:
  assumes "grants_ok (t, db)"
  shows "grants_ok (t, fst (grantPermission opts hex t db))"
proof -
  have new: "row_ok t rvs (new_grant_row opts hex e t)" if "expiry (go_ttlSeconds opts) t = Some e" for e rvs
    using expiry_bounds [OF that] assms by (simp add: row_ok_def new_grant_row_def grants_ok_def)
  have "grants_ok (t, db\<lparr>db_grants := db_grants db @ [new_grant_row opts hex e t]\<rparr>)"
    if "expiry (go_ttlSeconds opts) t = Some e" "gr_id (new_grant_row opts hex e t) \<notin> gr_id ` set (db_grants db)" for e
    using assms new [OF that(1)] that(2) by (auto simp: grants_ok_def)
  then show ?thesis using assms unfolding grantPermission_def
    by (intro guarded_db [where P = "\<lambda>d. grants_ok (t, d)"])
      (simp_all add: insert_grant_def Let_def split: option.split)
qed

lemma ok_map:
  assumes "grants_ok (t, db)" and "\<And>r. r \<in> set (db_grants db) \<Longrightarrow> gr_id (f r) = gr_id r \<and> row_ok t (db_revocations db) (f r)"
  shows "grants_ok (t, db\<lparr>db_grants := map f (db_grants db)\<rparr>)"
proof (rule grants_okI)
  have "map gr_id (map f (db_grants db)) = map gr_id (db_grants db)" using assms(2) by simp
  then show "distinct (map gr_id (db_grants (db\<lparr>db_grants := map f (db_grants db)\<rparr>)))"
    using assms(1) by (simp add: grants_ok_def del: map_map)
qed (use assms in \<open>auto simp: grants_ok_def\<close>)

lemma ok_usage: "grants_ok (t, db) \<Longrightarrow> grants_ok (t, record_usage i t db)"
  unfolding record_usage_def by (rule ok_map) (auto simp: grants_ok_def row_ok_def)

lemma ok_check: "grants_ok (t, db) \<Longrightarrow> grants_ok (t, fst (checkPermission q t u db))"
  unfolding checkPermission_def
  by (rule guarded_db [where P = "\<lambda>d. grants_ok (t, d)"]) (simp_all add: ok_usage split: list.split)

lemma ok_revocation:
  "grants_ok (t, db) \<Longrightarrow> rc_id v \<notin> rc_id ` set (db_revocations db) \<Longrightarrow>
     grants_ok (t, db\<lparr>db_revocations := db_revocations db @ [v]\<rparr>)"
  unfolding grants_ok_def by (auto intro: row_ok_later)

lemma ok_fields:
  "grants_ok (t, db) \<Longrightarrow> db_grants db' = db_grants db \<Longrightarrow> db_revocations db' = db_revocations db \<Longrightarrow> grants_ok (t, db')"
  by (simp add: grants_ok_def)

lemma found_row:
  "grants_ok (t, db) \<Longrightarrow> find (\<lambda>r. gr_id r = i \<and> gr_tenant_id r = n) (db_grants db) = Some r \<Longrightarrow>
     r \<in> set (db_grants db) \<and> gr_id r = i \<and> gr_tenant_id r = n \<and>
     (\<forall>r'\<in>set (db_grants db). gr_id r' = i \<longrightarrow> r' = r)"
proof -
  assume ok: "grants_ok (t, db)" and f: "find (\<lambda>r. gr_id r = i \<and> gr_tenant_id r = n) (db_grants db) = Some r"
  have r: "r \<in> set (db_grants db) \<and> gr_id r = i \<and> gr_tenant_id r = n" using find_Some_mem [OF f] .
  moreover have "inj_on gr_id (set (db_grants db))" using ok by (simp add: grants_ok_def distinct_map)
  ultimately show ?thesis by (auto dest: inj_onD)
qed

lemma ok_mark:
  assumes "grants_ok (t, db)" "find (\<lambda>r. gr_id r = ro_permissionId opts \<and> gr_tenant_id r = ro_tenantId opts) (db_grants db) = Some r"
    and "v \<in> set (db_revocations db)" "rc_effectiveAt v < gr_expires_at r" "rc_permissionId v = ro_permissionId opts"
    and "rc_tenantId v = ro_tenantId opts"
  shows "grants_ok (t, mark_revoked opts v db)"
  unfolding mark_revoked_def
proof (rule ok_map [OF assms(1)])
  fix x
  assume x: "x \<in> set (db_grants db)"
  then have "row_ok t (db_revocations db) x" using assms(1) by (simp add: grants_ok_def)
  moreover have "gr_id x = ro_permissionId opts \<Longrightarrow> x = r" using found_row [OF assms(1,2)] x by blast
  ultimately show "gr_id (if gr_id x = ro_permissionId opts \<and> gr_tenant_id x = ro_tenantId opts
       then x\<lparr>gr_revoked_at := Some (rc_effectiveAt v), gr_revoked_by := Some (ro_revokedBy opts), gr_revocation_id := Some (rc_id v)\<rparr>
       else x) = gr_id x \<and>
     row_ok t (db_revocations db) (if gr_id x = ro_permissionId opts \<and> gr_tenant_id x = ro_tenantId opts
       then x\<lparr>gr_revoked_at := Some (rc_effectiveAt v), gr_revoked_by := Some (ro_revokedBy opts), gr_revocation_id := Some (rc_id v)\<rparr>
       else x)"
    using assms(3-6) by (auto simp: row_ok_def)
qed

lemma new_revocation_fields [simp]:
  "rc_permissionId (new_revocation opts env) = ro_permissionId opts" "rc_tenantId (new_revocation opts env) = ro_tenantId opts"
  "rc_effectiveAt (new_revocation opts env) = re_now env"
  by (simp_all add: new_revocation_def)

lemma ok_revoke:
  assumes "grants_ok (t, db)" "re_now env = t"
  shows "grants_ok (t, fst (revokePermission opts env db))"
proof (rule revoke_cases [where opts = opts and env = env and db = db])
  assume "fst (revokePermission opts env db) = db"
  then show ?thesis using assms by simp
next
  assume "revokePermission opts env db = (db\<lparr>db_revocations := db_revocations db @ [new_revocation opts env]\<rparr>, Inl Connection_lost)"
    and "rc_id (new_revocation opts env) \<notin> rc_id ` set (db_revocations db)"
  then show ?thesis using ok_revocation [OF assms(1)] by simp
next
  fix r
  let ?v = "new_revocation opts env"
  assume r: "find (\<lambda>r. gr_id r = ro_permissionId opts \<and> gr_tenant_id r = ro_tenantId opts) (db_grants db) = Some r"
    "re_now env < gr_expires_at r" "rc_id ?v \<notin> rc_id ` set (db_revocations db)"
    and eq: "revokePermission opts env db =
        (let rvk = ?v; db2 = mark_revoked opts rvk (db\<lparr>db_revocations := db_revocations db @ [rvk]\<rparr>)
         in (if re_audit_arrives env then insert_audit (audit_of rvk) db2 else db2, Inr rvk))"
  have "grants_ok (t, mark_revoked opts ?v (db\<lparr>db_revocations := db_revocations db @ [?v]\<rparr>))"
    by (rule ok_mark [OF ok_revocation [OF assms(1) r(3)]]) (use r in simp_all)
  then show ?thesis unfolding eq Let_def by (auto intro: ok_fields)
qed

lemma ok_step: "grants_step s s' \<Longrightarrow> grants_ok s \<Longrightarrow> grants_ok s'"
proof (induction rule: grants_step.induct)
  case (step_tick t t' db)
  then show ?case unfolding grants_ok_def by (auto intro: row_ok_later)
next
  case (step_sweep t hex ms env u db)
  then show ?case by (rule ok_fields) (simp_all add: runTtlSweep_def Let_def)
qed (simp_all add: ok_grant ok_check ok_revoke)

lemma ok_later: "later s s' \<Longrightarrow> grants_ok s \<Longrightarrow> grants_ok s'"
  by (induction rule: rtranclp_induct) (auto intro: ok_step)

lemma later_ok: "0 \<le> t0 \<Longrightarrow> later (t0, empty_db columns) s \<Longrightarrow> grants_ok s"
  using ok_later grants_ok_empty by blast

lemma kept_row: "grows db db' \<Longrightarrow> r \<in> set (db_grants db) \<Longrightarrow> \<exists>r'\<in>set (db_grants db'). row_kept r r'"
  by (fastforce simp: grows_def list_all2_conv_all_nth in_set_conv_nth nth_append)

lemma same_row:
  assumes "grants_ok (t', db')" "grows db db'" "r \<in> set (db_grants db)" "r' \<in> set (db_grants db')" "gr_id r' = gr_id r"
  shows "row_kept r r'"
proof -
  obtain x where x: "x \<in> set (db_grants db')" "row_kept r x" using kept_row [OF assms(2,3)] by blast
  then have "gr_id x = gr_id r'" using assms(5) by (simp add: row_kept_def)
  moreover have "inj_on gr_id (set (db_grants db'))" using assms(1) by (simp add: grants_ok_def distinct_map)
  ultimately have "x = r'" using x(1) assms(4) by (auto dest: inj_onD)
  then show ?thesis using x(2) by simp
qed

lemma answered:
  assumes "checkPermission q t u db = (db', Inr a)" and "pa_grant a = Some g"
  obtains r where "r \<in> set (db_grants db)" "active_match q t r" "g = mapRow r"
proof -
  let ?f = "filter (active_match q t) (db_grants db)"
  obtain r rs where rs: "sort_key (\<lambda>r. - gr_expires_at r) ?f = r # rs" "g = mapRow r"
    using assms by (auto simp: checkPermission_def guarded_Inr split: list.splits)
  then have "r \<in> set ?f" by (metis list.set_intros(1) set_sort)
  then show thesis using that [of r] rs(2) by simp
qed

section \<open>Properties\<close>

text \<open>
  C14: No permission is permanent: starting from empty tables, after any run of grants, checks,
  revocations and sweeps, a grant that is in the table at one time is no longer honoured a year of 365
  days later, whatever happens in between; and any grant that is honoured lasts between a minute and a
  year and belongs to the tenant, actor, resource and permission asked for.
\<close>

theorem no_permanent_grant:
  assumes "0 \<le> t0" "later (t0, empty_db columns) (t, db)" "later (t, db) (t', db')"
    and "checkPermission q t' u db' = (db'', Inr a)" "pa_grant a = Some g"
  shows "(t + 31536000000 \<le> t' \<longrightarrow> pg_id g \<notin> gr_id ` set (db_grants db)) \<and>
    pg_grantedAt g + 60000 \<le> pg_expiresAt g \<and> pg_expiresAt g \<le> pg_grantedAt g + 31536000000 \<and>
    t' < pg_expiresAt g \<and> pg_revokedAt g = None \<and> pg_tenantId g = pq_tenantId q \<and> pg_actorId g = pq_actorId q \<and>
    pg_resourceType g = pq_resourceType q \<and> pg_resourceId g = pq_resourceId q \<and> pg_permission g = pq_permission q"
proof -
  have ok: "grants_ok (t, db)" "grants_ok (t', db')" using later_ok assms(1-3) rtranclp_trans [OF assms(2,3)] by blast+
  obtain r where r: "r \<in> set (db_grants db')" "active_match q t' r" "g = mapRow r" by (rule answered [OF assms(4,5)])
  have bound: "row_ok t' (db_revocations db') r" using ok(2) r(1) by (simp add: grants_ok_def)
  have "pg_id g \<notin> gr_id ` set (db_grants db)" if year: "t + 31536000000 \<le> t'"
  proof
    assume "pg_id g \<in> gr_id ` set (db_grants db)"
    then obtain r0 where r0: "r0 \<in> set (db_grants db)" "gr_id r = gr_id r0" by (auto simp: r(3) mapRow_def)
    have "row_kept r0 r" by (rule same_row [OF ok(2) _ r0(1) r(1) r0(2)]) (use grows_later [OF assms(3)] in blast)
    moreover have "gr_granted_at r0 \<le> t" "gr_expires_at r0 \<le> gr_granted_at r0 + 31536000000"
      using ok(1) r0(1) by (auto simp: grants_ok_def row_ok_def)
    ultimately show False using r(2) year by (simp add: row_kept_def active_match_def)
  qed
  then show ?thesis using bound r by (simp add: row_ok_def active_match_def mapRow_def)
qed

definition sample_grant :: "jsnum \<Rightarrow> string option \<Rightarrow> grant_opts" where
  "sample_grant ttl scope = \<lparr>go_tenantId = ''acme'', go_actorId = ''alice'', go_resourceType = ''index'', go_resourceId = ''main'',
     go_permission = ''decommission'', go_scopeId = scope, go_grantedBy = ''bob'', go_ttlSeconds = ttl, go_metadata = None\<rparr>"

definition sample_query :: permission_query where
  "sample_query = \<lparr>pq_tenantId = ''acme'', pq_actorId = ''alice'', pq_resourceType = ''index'', pq_resourceId = ''main'',
     pq_permission = ''decommission''\<rparr>"

lemma sample_expiry: "expiry (Fin 3600) 0 = Some 3600000" "expiry Inf 0 = Some 31536000000" "expiry NaN 0 = None"
  by (simp_all add: expiry_def clampedTtl_def jmin_def jmax_def MIN_TTL_SECONDS_def MAX_TTL_SECONDS_def date_value_def)

lemma sample_granted:
  "fst (grantPermission (sample_grant (Fin 3600) scope) ''1'' 0 (empty_db columns)) =
     empty_db columns\<lparr>db_grants := [new_grant_row (sample_grant (Fin 3600) scope) ''1'' 3600000 0]\<rparr>"
proof -
  have "go_tenantId (sample_grant (Fin 3600) scope) = ''acme''" "go_ttlSeconds (sample_grant (Fin 3600) scope) = Fin 3600"
    by (simp_all add: sample_grant_def)
  then show ?thesis
    by (simp add: grantPermission_def guarded_valid [OF acme_valid] sample_expiry insert_grant_def empty_db_def Let_def)
qed

lemma sample_checked:
  "checkPermission sample_query 1000 False
     (empty_db columns\<lparr>db_grants := [new_grant_row (sample_grant (Fin 3600) scope) ''1'' 3600000 0]\<rparr>) =
   (empty_db columns\<lparr>db_grants := [new_grant_row (sample_grant (Fin 3600) scope) ''1'' 3600000 0]\<rparr>,
    Inr \<lparr>pa_granted = True, pa_grant = Some (mapRow (new_grant_row (sample_grant (Fin 3600) scope) ''1'' 3600000 0)), pa_reason = None\<rparr>)"
proof -
  have "pq_tenantId sample_query = ''acme''" by (simp add: sample_query_def)
  moreover have "active_match sample_query 1000 (new_grant_row (sample_grant (Fin 3600) scope) ''1'' 3600000 0)"
    by (simp add: active_match_def sample_query_def new_grant_row_def sample_grant_def)
  ultimately show ?thesis by (simp add: checkPermission_def guarded_valid [OF acme_valid])
qed

theorem no_permanent_grant_witness:
  "\<exists>db g. later (0, empty_db PRISMA_AUDIT_COLUMNS) (1000, db) \<and>
     snd (checkPermission sample_query 1000 False db) = Inr \<lparr>pa_granted = True, pa_grant = Some g, pa_reason = None\<rparr> \<and>
     pg_expiresAt g \<le> pg_grantedAt g + 31536000000"
proof -
  let ?db = "fst (grantPermission (sample_grant (Fin 3600) None) ''1'' 0 (empty_db PRISMA_AUDIT_COLUMNS))"
  have "grants_step (0, empty_db PRISMA_AUDIT_COLUMNS) (0, ?db)" by (rule step_grant)
  moreover have "grants_step (0, ?db) (1000, ?db)" by (rule step_tick) simp
  ultimately have run: "later (0, empty_db PRISMA_AUDIT_COLUMNS) (1000, ?db)" by simp
  obtain g where g: "checkPermission sample_query 1000 False ?db = (?db, Inr \<lparr>pa_granted = True, pa_grant = Some g, pa_reason = None\<rparr>)"
    unfolding sample_granted sample_checked by blast
  have "pg_expiresAt g \<le> pg_grantedAt g + 31536000000"
    using no_permanent_grant [OF _ run rtranclp.rtrancl_refl g] by simp
  then show ?thesis using run g by auto
qed

lemma shipped_tables_reject_audit: "columns \<in> set SHIPPED_AUDIT_TABLES \<Longrightarrow> \<not> set AUDIT_INSERT_COLUMNS \<subseteq> set columns"
  by (auto simp: SHIPPED_AUDIT_TABLES_def AUDIT_INSERT_COLUMNS_def PRISMA_AUDIT_COLUMNS_def API_AUDIT_COLUMNS_def INFRA_AUDIT_COLUMNS_def)

lemma revoked_in_place:
  "r \<in> set (db_grants (mark_revoked opts v db)) \<Longrightarrow> gr_id r = ro_permissionId opts \<Longrightarrow> gr_tenant_id r = ro_tenantId opts \<Longrightarrow>
     gr_revoked_at r = Some (rc_effectiveAt v)"
  by (auto simp: mark_revoked_def split: if_splits)

lemma revoke_Inr:
  assumes "revokePermission opts env db = (db1, Inr v)"
  obtains r where "find (\<lambda>r. gr_id r = ro_permissionId opts \<and> gr_tenant_id r = ro_tenantId opts) (db_grants db) = Some r"
    "v = new_revocation opts env" "db_revocations db1 = db_revocations db @ [v]"
    "db_grants db1 = db_grants (mark_revoked opts v db)"
    "db_audit db1 = db_audit db \<or> set AUDIT_INSERT_COLUMNS \<subseteq> set (db_audit_columns db)"
proof (rule revoke_cases [where opts = opts and env = env and db = db])
  assume "isl (snd (revokePermission opts env db))"
  then show thesis using assms by simp
next
  assume "revokePermission opts env db = (db\<lparr>db_revocations := db_revocations db @ [new_revocation opts env]\<rparr>, Inl Connection_lost)"
  then show thesis using assms by simp
next
  fix r
  let ?v = "new_revocation opts env"
  let ?db2 = "mark_revoked opts ?v (db\<lparr>db_revocations := db_revocations db @ [?v]\<rparr>)"
  assume r: "find (\<lambda>r. gr_id r = ro_permissionId opts \<and> gr_tenant_id r = ro_tenantId opts) (db_grants db) = Some r"
    and "revokePermission opts env db =
        (let rvk = ?v; db2 = mark_revoked opts rvk (db\<lparr>db_revocations := db_revocations db @ [rvk]\<rparr>)
         in (if re_audit_arrives env then insert_audit (audit_of rvk) db2 else db2, Inr rvk))"
  then have eq: "db1 = (if re_audit_arrives env then insert_audit (audit_of ?v) ?db2 else ?db2)" "v = ?v"
    using assms by (simp_all add: Let_def)
  have "db_audit db1 = db_audit db \<or> set AUDIT_INSERT_COLUMNS \<subseteq> set (db_audit_columns db)"
    unfolding eq(1) by (simp add: insert_audit_def)
  moreover have "db_revocations db1 = db_revocations db @ [v]" "db_grants db1 = db_grants (mark_revoked opts v db)"
    unfolding eq by (simp_all add: mark_revoked_def)
  ultimately show thesis by (intro that [OF r eq(2)])
qed

text \<open>
  C15: A revocation is final and unaudited: once a revocation has been answered with success, its record
  is in the table for ever, the grant is never honoured again, and every further attempt to revoke it
  fails without changing anything. But with any of the audit tables that the repository's migrations
  create, the audit event of the revocation is not written: the insertion names columns these tables
  do not have, and its failure is ignored.
\<close>

theorem revocation_final_unaudited:
  assumes "0 \<le> t0" "later (t0, empty_db columns) (t, db)"
    and "revokePermission opts env db = (db1, Inr v)" "re_now env = t" "later (t, db1) (t', db')"
  shows "v \<in> set (db_revocations db') \<and> rc_permissionId v = ro_permissionId opts \<and>
    (\<forall>q u db'' a g. checkPermission q t' u db' = (db'', Inr a) \<and> pa_grant a = Some g \<longrightarrow> pg_id g \<noteq> ro_permissionId opts) \<and>
    fst (revokePermission opts env' db') = db' \<and> isl (snd (revokePermission opts env' db')) \<and>
    (columns \<in> set SHIPPED_AUDIT_TABLES \<longrightarrow> db_audit db1 = db_audit db)"
proof -
  obtain r where r: "find (\<lambda>r. gr_id r = ro_permissionId opts \<and> gr_tenant_id r = ro_tenantId opts) (db_grants db) = Some r"
    "v = new_revocation opts env" "db_revocations db1 = db_revocations db @ [v]"
    "db_grants db1 = db_grants (mark_revoked opts v db)"
    "db_audit db1 = db_audit db \<or> set AUDIT_INSERT_COLUMNS \<subseteq> set (db_audit_columns db)"
    by (rule revoke_Inr [OF assms(3)])
  have ok: "grants_ok (t, db)" using later_ok assms(1,2) by blast
  have ok1: "grants_ok (t, db1)" using ok_revoke [OF ok assms(4), of opts] assms(3) by simp
  have ok': "grants_ok (t', db')" by (rule ok_later [OF assms(5) ok1])
  have g': "grows db1 db'" using grows_later [OF assms(5)] by blast
  have rev: "v \<in> set (db_revocations db')" using g' r(3) by (auto simp: grows_def dest: set_mono_prefix)
  obtain r1 where r1: "r1 \<in> set (db_grants db1)" "gr_id r1 = ro_permissionId opts" "gr_tenant_id r1 = ro_tenantId opts"
    using find_Some_mem [OF r(1)] unfolding r(4) mark_revoked_def by force
  have "gr_revoked_at r1 = Some (re_now env)" using revoked_in_place [of r1 opts v db] r1 r(2,4) by simp
  then have gone: "gr_revoked_at x \<noteq> None" if "x \<in> set (db_grants db')" "gr_id x = ro_permissionId opts" for x
    using same_row [OF ok' g' r1(1) that(1)] that(2) r1(2) by (simp add: row_kept_def)
  have "\<forall>q u db'' a g. checkPermission q t' u db' = (db'', Inr a) \<and> pa_grant a = Some g \<longrightarrow> pg_id g \<noteq> ro_permissionId opts"
    using gone by (metis active_match_def answered mapRow_def permission_grant.select_convs(1))
  moreover have "fst (revokePermission opts env' db') = db' \<and> isl (snd (revokePermission opts env' db'))"
  proof (cases "assertTenantIsolation (Str (ro_tenantId opts)) ''governance-revocation:revokePermission''")
    case (Inl e)
    then show ?thesis by (simp add: revokePermission_def guarded_def)
  next
    case (Inr u)
    obtain x where "find (\<lambda>r. gr_id r = ro_permissionId opts \<and> gr_tenant_id r = ro_tenantId opts) (db_grants db') = Some x"
      "gr_revoked_at x \<noteq> None"
      using kept_row [OF g' r1(1)] r1 gone find_Some_mem
      by (metis (mono_tags, lifting) find_None_iff not_None_eq row_kept_def)
    then show ?thesis using Inr by (simp add: revokePermission_def guarded_def)
  qed
  moreover have "db_audit_columns db = columns" using grows_later [OF assms(2)] by (simp add: grows_def empty_db_def)
  ultimately show ?thesis using rev r(2,5) shipped_tables_reject_audit by auto
qed

definition sample_revoke :: revoke_opts where
  "sample_revoke = \<lparr>ro_permissionId = ''perm-1'', ro_tenantId = ''acme'', ro_revokedBy = ''bob'', ro_reason = ''left'', ro_metadata = None\<rparr>"

definition sample_env :: "nat option \<Rightarrow> revoke_env" where
  "sample_env lost = \<lparr>re_revocationHex = ''r'', re_auditHex = ''a'', re_now = 1000, re_lost = lost, re_audit_arrives = True\<rparr>"

abbreviation sample_row :: "string option \<Rightarrow> grant_row" where
  "sample_row scope \<equiv> new_grant_row (sample_grant (Fin 3600) scope) ''1'' 3600000 0"

lemma sample_env_fields [simp]:
  "re_lost (sample_env lost) = lost" "re_now (sample_env lost) = 1000" "re_audit_arrives (sample_env lost)"
  by (simp_all add: sample_env_def)

lemma sample_revoked:
  "revokePermission sample_revoke (sample_env lost) (empty_db columns\<lparr>db_grants := [sample_row scope]\<rparr>) =
     (if lost = Some 1 \<or> lost = Some 2 then (empty_db columns\<lparr>db_grants := [sample_row scope]\<rparr>, Inl Connection_lost)
      else let rvk = new_revocation sample_revoke (sample_env lost);
               db1 = empty_db columns\<lparr>db_grants := [sample_row scope], db_revocations := [rvk]\<rparr>
           in if lost = Some 3 then (db1, Inl Connection_lost)
              else (insert_audit (audit_of rvk) (mark_revoked sample_revoke rvk db1), Inr rvk))"
proof -
  have "ro_tenantId sample_revoke = ''acme''" by (simp add: sample_revoke_def)
  moreover have "gr_id (sample_row scope) = ro_permissionId sample_revoke" "gr_tenant_id (sample_row scope) = ''acme''"
    "gr_revoked_at (sample_row scope) = None" "gr_expires_at (sample_row scope) = 3600000"
    by (simp_all add: new_grant_row_def sample_grant_def sample_revoke_def)
  ultimately show ?thesis
    by (simp add: revokePermission_def guarded_valid [OF acme_valid] empty_db_def Let_def)
qed

theorem revocation_final_unaudited_witness:
  "\<exists>db v. revokePermission sample_revoke (sample_env None)
       (empty_db PRISMA_AUDIT_COLUMNS\<lparr>db_grants := [sample_row None]\<rparr>) = (db, Inr v) \<and>
     db_audit db = [] \<and> isl (snd (revokePermission sample_revoke (sample_env None) db))"
proof -
  let ?db0 = "fst (grantPermission (sample_grant (Fin 3600) None) ''1'' 0 (empty_db PRISMA_AUDIT_COLUMNS))"
  have "grants_step (0, empty_db PRISMA_AUDIT_COLUMNS) (0, ?db0)" by (rule step_grant)
  moreover have "grants_step (0, ?db0) (1000, ?db0)" by (rule step_tick) simp
  ultimately have run: "later (0, empty_db PRISMA_AUDIT_COLUMNS) (1000, ?db0)" by simp
  obtain db v where rv: "revokePermission sample_revoke (sample_env None) ?db0 = (db, Inr v)"
    unfolding sample_granted sample_revoked by (simp add: Let_def)
  have "PRISMA_AUDIT_COLUMNS \<in> set SHIPPED_AUDIT_TABLES" by (simp add: SHIPPED_AUDIT_TABLES_def)
  then have "db_audit db = db_audit ?db0" "isl (snd (revokePermission sample_revoke (sample_env None) db))"
    using revocation_final_unaudited [OF _ run rv _ rtranclp.rtrancl_refl, of "sample_env None"]
    by (simp_all add: sample_env_def)
  moreover have "db_audit ?db0 = []" unfolding sample_granted by (simp add: empty_db_def)
  ultimately show ?thesis using rv unfolding sample_granted by auto
qed

text \<open>
  The two writes of a revocation are not atomic: when the connection is lost between them, the record of
  the revocation exists and the permission is still honoured.
\<close>

lemma revocation_not_atomic:
  "\<exists>db v. revokePermission sample_revoke (sample_env (Some 3)) (empty_db columns\<lparr>db_grants := [sample_row scope]\<rparr>) =
       (db, Inl Connection_lost) \<and> db_revocations db = [v] \<and> rc_permissionId v = ''perm-1'' \<and>
     (\<exists>a. snd (checkPermission sample_query 1000 False db) = Inr a \<and> pa_granted a)"
proof -
  let ?v = "new_revocation sample_revoke (sample_env (Some 3))"
  let ?db = "empty_db columns\<lparr>db_grants := [sample_row scope], db_revocations := [?v]\<rparr>"
  have "revokePermission sample_revoke (sample_env (Some 3)) (empty_db columns\<lparr>db_grants := [sample_row scope]\<rparr>) = (?db, Inl Connection_lost)"
    unfolding sample_revoked by (simp add: Let_def)
  moreover have "rc_permissionId ?v = ''perm-1''" by (simp add: sample_revoke_def)
  moreover have "active_match sample_query 1000 (sample_row scope)" "pq_tenantId sample_query = ''acme''"
    by (simp_all add: active_match_def sample_query_def new_grant_row_def sample_grant_def)
  then have "\<exists>a. snd (checkPermission sample_query 1000 False ?db) = Inr a \<and> pa_granted a"
    by (simp add: checkPermission_def guarded_valid [OF acme_valid])
  ultimately show ?thesis by simp
qed

text \<open>
  The scope of a grant is never consulted: whatever scope a grant names, existing or not, covering the
  resource or not, the check honours it alike.
\<close>

lemma scope_never_consulted:
  "\<exists>a. snd (checkPermission sample_query 1000 False (empty_db columns\<lparr>db_grants := [sample_row scope]\<rparr>)) = Inr a \<and> pa_granted a"
  unfolding sample_checked by simp

end
