(* ===== verification/AuditStore.thy ===== *)
theory AuditStore
  imports RuntimeEngine
begin

text \<open>
  The audit trail, \<open>core/governance/governance-audit-store.ts\<close>: a buffer of the last 500 events, the
  write to the table \<open>governance_audit_events\<close> with its counters, the queries of buffer and table, and
  the composition with the runtime engine, which logs every decision. Whether the database accepts a
  write or answers a query is an argument; timestamps are milliseconds, and a bound of a query that is
  no valid date is \<open>Some None\<close>. Rows that tie in an \<open>ORDER BY\<close> are taken in the order of insertion.
\<close>

section \<open>Events\<close>

record governance_audit_event =
  ev_id :: string
  ev_decisionId :: string
  ev_decision :: decision
  ev_riskLevel :: risk_level
  ev_actor :: string
  ev_actorId :: string
  ev_actorType :: actor_type
  ev_action :: string
  ev_resource :: string
  ev_environment :: string
  ev_traceId :: string
  ev_correlationId :: string
  ev_causationId :: "string option"
  ev_integrityState :: "integrity_state option"
  ev_governanceMode :: governance_mode
  ev_policySnapshotHash :: "string option"
  ev_matchedPolicies :: "string option"
  ev_reasons :: "string list option"
  ev_evaluationMs :: "int option"
  ev_createdAt :: int
  ev_metadata :: "(string \<times> js) list option"

record audit_options =
  ao_from :: "int option option"
  ao_to :: "int option option"
  ao_actor :: "string option"
  ao_actorId :: "string option"
  ao_action :: "string option"
  ao_decision :: "decision option"
  ao_riskLevel :: "risk_level option"
  ao_environment :: "string option"
  ao_limit :: "nat option"
  ao_offset :: "nat option"

record audit_result =
  ar_events :: "governance_audit_event list"
  ar_total :: nat
  ar_from_cache :: bool

record audit_store =
  au_buffer :: "governance_audit_event list"
  au_failures :: nat
  au_successes :: nat
  au_rows :: "governance_audit_event list"

definition AUDIT_BUFFER_MAX :: nat where
  "AUDIT_BUFFER_MAX = 500"

definition appendEvent :: "governance_audit_event \<Rightarrow> audit_store \<Rightarrow> audit_store" where
  "appendEvent e st = st\<lparr>au_buffer := ring_push AUDIT_BUFFER_MAX e (au_buffer st)\<rparr>"

interpretation audit_ring: bounded_buffer AUDIT_BUFFER_MAX "ring_push AUDIT_BUFFER_MAX"
  by (rule ring_push_buffer) (simp add: AUDIT_BUFFER_MAX_def)

definition resetAuditWriteCounters :: "audit_store \<Rightarrow> audit_store" where
  "resetAuditWriteCounters st = st\<lparr>au_failures := 0, au_successes := 0\<rparr>"

section \<open>Writing\<close>

text \<open>An event with a known id is not inserted again; that counts as success.\<close>

definition persistEvent :: "bool \<Rightarrow> governance_audit_event \<Rightarrow> audit_store \<Rightarrow> audit_store" where
  "persistEvent db_up e st =
     (if db_up then
        st\<lparr>au_rows := (if ev_id e \<in> ev_id ` set (au_rows st) then au_rows st else au_rows st @ [e]),
           au_successes := au_successes st + 1\<rparr>
      else st\<lparr>au_failures := au_failures st + 1\<rparr>)"

definition event_of ::
  "string \<Rightarrow> governance_decision \<Rightarrow> governance_snapshot \<Rightarrow> integrity_state \<Rightarrow> int \<Rightarrow> (string \<times> js) list option \<Rightarrow> governance_audit_event" where
  "event_of uuid d snapshot integrity ms metadata =
     \<lparr>ev_id = uuid, ev_decisionId = gd_decision_id d, ev_decision = gd_decision d, ev_riskLevel = gd_risk_level d,
      ev_actor = gd_actor_id d, ev_actorId = gd_actor_id d, ev_actorType = gd_actor_type d, ev_action = gd_action d,
      ev_resource = gd_resource d, ev_environment = gd_environment d, ev_traceId = gd_trace_id d,
      ev_correlationId = gd_correlation_id d, ev_causationId = gd_causation_id d, ev_integrityState = Some integrity,
      ev_governanceMode = gs_enforcement_mode snapshot, ev_policySnapshotHash = Some (gd_policy_snapshot_hash d),
      ev_matchedPolicies = Some (join '','' (gd_matched_policy_ids d)), ev_reasons = Some (gd_reasons d),
      ev_evaluationMs = Some ms, ev_createdAt = gd_created_at d, ev_metadata = metadata\<rparr>"

definition logDecision ::
  "string \<Rightarrow> bool \<Rightarrow> governance_decision \<Rightarrow> governance_snapshot \<Rightarrow> integrity_state \<Rightarrow> int \<Rightarrow> (string \<times> js) list option \<Rightarrow>
   audit_store \<Rightarrow> audit_store" where
  "logDecision uuid db_up d snapshot integrity ms metadata st =
     (let e = event_of uuid d snapshot integrity ms metadata in persistEvent db_up e (appendEvent e st))"

definition logRawEvent :: "string \<Rightarrow> int \<Rightarrow> bool \<Rightarrow> governance_audit_event \<Rightarrow> audit_store \<Rightarrow> audit_store" where
  "logRawEvent uuid now db_up event st =
     (let full = event\<lparr>ev_id := uuid, ev_createdAt := now\<rparr> in persistEvent db_up full (appendEvent full st))"

section \<open>Queries of the buffer\<close>

definition text_filter :: "string option \<Rightarrow> (string \<Rightarrow> bool) \<Rightarrow> bool" where
  "text_filter opt P = (case opt of Some s \<Rightarrow> s = [] \<or> P s | None \<Rightarrow> True)"

definition date_filter :: "int option option \<Rightarrow> (int \<Rightarrow> bool) \<Rightarrow> bool" where
  "date_filter opt P = (case opt of Some (Some t) \<Rightarrow> P t | Some None \<Rightarrow> False | None \<Rightarrow> True)"

definition buffer_match :: "audit_options \<Rightarrow> governance_audit_event \<Rightarrow> bool" where
  "buffer_match opts e =
     (date_filter (ao_from opts) (\<lambda>t. t \<le> ev_createdAt e) \<and> date_filter (ao_to opts) (\<lambda>t. ev_createdAt e \<le> t) \<and>
      text_filter (ao_actor opts) (\<lambda>s. ev_actor e = s \<or> str_includes (ev_actor e) s) \<and>
      text_filter (ao_actorId opts) (\<lambda>s. ev_actorId e = s) \<and>
      text_filter (ao_action opts) (\<lambda>s. ev_action e = s \<or> str_includes (ev_action e) s) \<and>
      (case ao_decision opts of Some d \<Rightarrow> ev_decision e = d | None \<Rightarrow> True) \<and>
      (case ao_riskLevel opts of Some l \<Rightarrow> ev_riskLevel e = l | None \<Rightarrow> True) \<and>
      text_filter (ao_environment opts) (\<lambda>s. ev_environment e = s))"

definition newest_first :: "governance_audit_event list \<Rightarrow> governance_audit_event list" where
  "newest_first es = sort_key (\<lambda>e. - ev_createdAt e) es"

definition page :: "audit_options \<Rightarrow> 'a list \<Rightarrow> 'a list" where
  "page opts xs = take (case ao_limit opts of Some n \<Rightarrow> n | None \<Rightarrow> 100) (drop (case ao_offset opts of Some n \<Rightarrow> n | None \<Rightarrow> 0) xs)"

definition queryAuditEvents :: "audit_options \<Rightarrow> audit_store \<Rightarrow> audit_result" where
  "queryAuditEvents opts st =
     (let filtered = newest_first (filter (buffer_match opts) (au_buffer st))
      in \<lparr>ar_events = page opts filtered, ar_total = length filtered, ar_from_cache = True\<rparr>)"

definition no_options :: audit_options where
  "no_options = \<lparr>ao_from = None, ao_to = None, ao_actor = None, ao_actorId = None, ao_action = None, ao_decision = None,
     ao_riskLevel = None, ao_environment = None, ao_limit = None, ao_offset = None\<rparr>"

definition events_by_actor :: "string \<Rightarrow> nat option \<Rightarrow> audit_store \<Rightarrow> governance_audit_event list" where
  "events_by_actor actorId limit st =
     ar_events (queryAuditEvents (no_options\<lparr>ao_actorId := Some actorId, ao_limit := Some (case limit of Some n \<Rightarrow> n | None \<Rightarrow> 50)\<rparr>) st)"

definition events_by_action :: "string \<Rightarrow> nat option \<Rightarrow> audit_store \<Rightarrow> governance_audit_event list" where
  "events_by_action action limit st =
     ar_events (queryAuditEvents (no_options\<lparr>ao_action := Some action, ao_limit := Some (case limit of Some n \<Rightarrow> n | None \<Rightarrow> 50)\<rparr>) st)"

definition events_by_decision_id :: "string \<Rightarrow> audit_store \<Rightarrow> governance_audit_event list" where
  "events_by_decision_id decisionId st = filter (\<lambda>e. ev_decisionId e = decisionId) (au_buffer st)"

definition getByTimeRange :: "int option option \<Rightarrow> int option option \<Rightarrow> nat option \<Rightarrow> audit_store \<Rightarrow> governance_audit_event list" where
  "getByTimeRange from to limit st =
     ar_events (queryAuditEvents
       (no_options\<lparr>ao_from := from, ao_to := to, ao_limit := Some (case limit of Some n \<Rightarrow> n | None \<Rightarrow> 200)\<rparr>) st)"

definition getDenyDecisions :: "nat option \<Rightarrow> audit_store \<Rightarrow> governance_audit_event list" where
  "getDenyDecisions limit st =
     ar_events (queryAuditEvents
       (no_options\<lparr>ao_decision := Some DENY, ao_limit := Some (case limit of Some n \<Rightarrow> n | None \<Rightarrow> 100)\<rparr>) st)"

definition getRecent :: "nat option \<Rightarrow> audit_store \<Rightarrow> governance_audit_event list" where
  "getRecent n st = take (case n of Some k \<Rightarrow> k | None \<Rightarrow> 20) (newest_first (au_buffer st))"

definition audit_buffer_size :: "audit_store \<Rightarrow> nat" where
  "audit_buffer_size st = length (au_buffer st)"

definition clearAuditBuffer :: "audit_store \<Rightarrow> audit_store" where
  "clearAuditBuffer st = st\<lparr>au_buffer := [], au_failures := 0, au_successes := 0\<rparr>"

section \<open>Queries of the table\<close>





section \<open>Health\<close>

record audit_health =
  ah_buffer_size :: nat
  ah_write_failures :: nat
  ah_write_successes :: nat
  ah_write_failure_rate :: jsnum
  ah_oldest_event :: "int option"
  ah_newest_event :: "int option"

definition getAuditHealthSummary :: "audit_store \<Rightarrow> audit_health" where
  "getAuditHealthSummary st =
     (let total = au_failures st + au_successes st; sorted = sort_key ev_createdAt (au_buffer st)
      in \<lparr>ah_buffer_size = length (au_buffer st), ah_write_failures = au_failures st, ah_write_successes = au_successes st,
          ah_write_failure_rate = (if 0 < total then jmul (jdiv (jnat (au_failures st)) (jnat total)) (Fin 100) else Fin 0),
          ah_oldest_event = (if sorted = [] then None else Some (ev_createdAt (hd sorted))),
          ah_newest_event = (if sorted = [] then None else Some (ev_createdAt (last sorted)))\<rparr>)"

section \<open>The engine with its store\<close>

text \<open>
  One evaluation with the audit store behind it: the engine's integrity check reads the store's failure
  count, and the entry of a decision is logged.
\<close>

definition evaluate_logged ::
  "platform \<Rightarrow> int \<Rightarrow> int \<Rightarrow> evaluation_request \<Rightarrow> string \<Rightarrow> bool \<Rightarrow> engine_state \<times> audit_store \<Rightarrow>
   (engine_state \<times> audit_store) \<times> (engine_error + governance_decision)" where
  "evaluate_logged pf now ms r uuid db_up s =
     (let (st, au) = s; (st', res) = evaluate pf now ms r (st\<lparr>en_audit_failures := au_failures au\<rparr>)
      in case res of
           Inl e \<Rightarrow> ((st', au), Inl e)
         | Inr d \<Rightarrow>
             (let (d', snapshot, integrity, ms') = last (en_audit st')
              in ((st', logDecision uuid db_up d' snapshot integrity ms' None au), Inr d)))"

section \<open>Laws\<close>

lemma recorded_check: "recorded m \<Longrightarrow> fst (checkGovernanceIntegrity True now m samples k) = m"
  using integrity_law [of m now samples k] by blast

lemma evaluate_recorded: "recorded (en_metrics st) \<Longrightarrow> recorded (en_metrics (fst (evaluate pf now ms r st)))"
  by (simp add: evaluate_def Let_def record_failure_def record_decision_def case_prod_beta recorded_check
      recorded.decision recorded.failure split: sum.split)

lemma decide_failures: "decide pf now r (st\<lparr>en_audit_failures := k\<rparr>) = decide pf now r st"
  by (simp add: decide_def split: sum.split)

text \<open>What a decision leaves behind, with the integrity state its metrics and failure count give.\<close>

lemma evaluate_entry:
  assumes "evaluate pf now ms r st = (st', Inr d)" "recorded (en_metrics st)"
  obtains snap where "en_audit st' = en_audit st @ [(d, snap,
      if en_audit_failures st = 0 then HEALTHY else if en_audit_failures st \<le> 5 then DEGRADED else FAILED, ms)]"
    "gs_enforcement_mode snap = getGovernanceMode (pf_mode pf)"
proof -
  let ?st1 = "if isGovernanceBypassed (en_freeze st) then st\<lparr>en_freeze := logBypassWarning (en_freeze st)\<rparr> else st"
  have v: "validateRequest r = Inr ()" by (rule evaluate_Inr [OF assms(1)])
  have st': "st' = record_decision pf now ms r d ?st1"
    using assms(1) v by (auto simp: evaluate_def Let_def split: sum.splits if_splits)
  have "recorded (recordGovernanceDecision a b c e ms (en_metrics st))" for a b c e
    by (rule recorded.decision [OF assms(2)])
  then have "ir_state (snd (checkGovernanceIntegrity True now (recordGovernanceDecision a b c e ms (en_metrics st)) n k)) =
      (if k = 0 then HEALTHY else if k \<le> 5 then DEGRADED else FAILED)" for a b c e n k
    using integrity_law by blast
  then have "\<exists>snap. en_audit st' = en_audit st @ [(d, snap,
      if en_audit_failures st = 0 then HEALTHY else if en_audit_failures st \<le> 5 then DEGRADED else FAILED, ms)] \<and>
    gs_enforcement_mode snap = getGovernanceMode (pf_mode pf)"
    unfolding st' by (simp add: record_decision_def Let_def case_prod_beta captureGovernanceSnapshot_def)
  then show thesis using that by blast
qed

lemma logged_Inl: "evaluate_logged pf now ms r uuid up (st, au) = (s', Inl e) \<Longrightarrow> snd s' = au"
  by (auto simp: evaluate_logged_def Let_def split: prod.splits sum.splits)

lemma log_fields:
  "au_buffer (logDecision uuid up d snap s ms md au) = ring_push AUDIT_BUFFER_MAX (event_of uuid d snap s ms md) (au_buffer au)"
  "au_failures (logDecision uuid up d snap s ms md au) = au_failures au + (if up then 0 else 1)"
  by (simp_all add: logDecision_def Let_def persistEvent_def appendEvent_def)

lemma logged_law:
  assumes "evaluate_logged pf now ms r uuid up (st, au) = ((st', au'), res)" "recorded (en_metrics st)"
  shows "recorded (en_metrics st') \<and> snd (evaluate pf now ms r st) = res \<and>
    (case res of
       Inl e \<Rightarrow> au' = au
     | Inr d \<Rightarrow> \<exists>snap s. s = (if au_failures au = 0 then HEALTHY else if au_failures au \<le> 5 then DEGRADED else FAILED) \<and>
         en_audit st' = en_audit st @ [(d, snap, s, ms)] \<and> au' = logDecision uuid up d snap s ms None au)"
proof -
  let ?st = "st\<lparr>en_audit_failures := au_failures au\<rparr>"
  obtain st1 res1 where ev: "evaluate pf now ms r ?st = (st1, res1)" by fastforce
  have same: "res1 = snd (evaluate pf now ms r st)"
  proof -
    have freeze: "(?st\<lparr>en_freeze := f\<rparr>) = (st\<lparr>en_freeze := f\<rparr>)\<lparr>en_audit_failures := au_failures au\<rparr>" for f by simp
    have "snd (evaluate pf now ms r ?st) = snd (evaluate pf now ms r st)"
      by (simp add: evaluate_def Let_def decide_failures freeze del: engine_state.update_convs split: sum.split)
    then show ?thesis using ev by simp
  qed
  have rec: "recorded (en_metrics st1)" using evaluate_recorded [of ?st pf now ms r] ev assms(2) by simp
  show ?thesis
  proof (cases res1)
    case (Inl e)
    then have "st' = st1" "res = Inl e" "au' = au" using assms(1) ev by (simp_all add: evaluate_logged_def)
    then show ?thesis using same [symmetric] rec Inl by simp
  next
    case (Inr d)
    obtain snap where e: "en_audit st1 = en_audit st @ [(d, snap,
        if au_failures au = 0 then HEALTHY else if au_failures au \<le> 5 then DEGRADED else FAILED, ms)]"
      by (rule evaluate_entry [OF ev [unfolded Inr]]) (use assms(2) in simp_all)
    then have "st' = st1" "res = Inr d"
      "au' = logDecision uuid up d snap (if au_failures au = 0 then HEALTHY else if au_failures au \<le> 5 then DEGRADED else FAILED) ms None au"
      using assms(1) ev Inr by (simp_all add: evaluate_logged_def Let_def)
    then show ?thesis using e same [symmetric] rec Inr by auto
  qed
qed

section \<open>Properties\<close>

text \<open>
  Audit trouble is visible but never blocks: an evaluation returns the same decision or error with
  the audit store behind it, whatever that store holds and whether or not the database accepts the
  write, as the engine alone. Every decision is stamped with the integrity state that the failed writes
  so far imply (none, at most five, more), enters the buffer as its newest event, of which the oldest
  beyond 500 is dropped, and counts one failure when the database is down. A failed evaluation logs
  nothing.
\<close>

theorem audit_never_blocks:
  assumes "evaluate_logged pf now ms r uuid up (st, au) = ((st', au'), res)" and "recorded (en_metrics st)"
  shows "snd (evaluate pf now ms r st) = res \<and>
    (case res of
       Inl e \<Rightarrow> au' = au
     | Inr d \<Rightarrow> \<exists>snap s. s = (if au_failures au = 0 then HEALTHY else if au_failures au \<le> 5 then DEGRADED else FAILED) \<and>
         en_audit st' = en_audit st @ [(d, snap, s, ms)] \<and>
         au_failures au' = au_failures au + (if up then 0 else 1) \<and>
         (length (au_buffer au) < 500 \<longrightarrow> au_buffer au' = au_buffer au @ [event_of uuid d snap s ms None]) \<and>
         (length (au_buffer au) = 500 \<longrightarrow> au_buffer au' = tl (au_buffer au) @ [event_of uuid d snap s ms None]))"
proof -
  note law = logged_law [OF assms]
  show ?thesis
  proof (cases res)
    case (Inl e)
    then show ?thesis using law by simp
  next
    case (Inr d)
    then obtain snap s where s: "s = (if au_failures au = 0 then HEALTHY else if au_failures au \<le> 5 then DEGRADED else FAILED)"
      "en_audit st' = en_audit st @ [(d, snap, s, ms)]" "au' = logDecision uuid up d snap s ms None au"
      using law by auto
    have "length (au_buffer au) < 500 \<longrightarrow> au_buffer au' = au_buffer au @ [event_of uuid d snap s ms None]"
      "length (au_buffer au) = 500 \<longrightarrow> au_buffer au' = tl (au_buffer au) @ [event_of uuid d snap s ms None]"
      using audit_ring.push_keeps [of "au_buffer au"] audit_ring.push_evicts [of "au_buffer au"] by (simp_all add: s(3) log_fields AUDIT_BUFFER_MAX_def)
    then show ?thesis using law Inr s by (auto simp: log_fields)
  qed
qed

definition empty_audit :: "nat \<Rightarrow> audit_store" where
  "empty_audit failures = \<lparr>au_buffer = [], au_failures = failures, au_successes = 0, au_rows = []\<rparr>"

theorem audit_never_blocks_witness:
  "\<exists>st' au' d snap. evaluate_logged sample_platform 0 1 (sample_request ''main'') ''u'' False (sandbox_engine None, empty_audit 6) =
       ((st', au'), Inr d) \<and> en_audit st' = [(d, snap, FAILED, 1)] \<and> au_failures au' = 7"
proof -
  obtain st d where d: "evaluate sample_platform 0 1 (sample_request ''main'') (sandbox_engine None) = (st, Inr d)"
    by (rule sandbox_allows [OF sample_resources(1,3)])
  obtain st' au' res where ev: "evaluate_logged sample_platform 0 1 (sample_request ''main'') ''u'' False (sandbox_engine None, empty_audit 6) =
       ((st', au'), res)" by (metis prod.exhaust)
  have "recorded (en_metrics (sandbox_engine None))" by (simp add: sandbox_engine_def recorded.empty)
  then show ?thesis using audit_never_blocks [OF ev] ev d by (auto simp: empty_audit_def sandbox_engine_def)
qed





end
