(* ===== verification/Observer.thy ===== *)
theory Observer
  imports JsValue Snapshot
begin

text \<open>
  The observer of the rollout, \<open>core/governance/governance-observer.ts\<close>: every five minutes it checks the
  integrity, writes a drift report and decides whether the next rollout stage may start. The metrics, the
  sampler and the audit store it reads belong to other components and are arguments; reading the
  latencies sorts them in place, so the metrics are returned. The comparison of ISO timestamps as texts
  is the comparison of the times.
\<close>

section \<open>State\<close>

record observation_state =
  ob_mode :: governance_mode
  ob_window_start :: int
  ob_drift :: "drift_summary option"
  ob_integrity :: "integrity_result option"
  ob_evaluations :: nat
  ob_mismatches :: nat
  ob_failures :: nat
  ob_replay_samples :: nat
  ob_ready :: bool
  ob_reason :: "string option"

record observer =
  os_state :: observation_state
  os_running :: bool

definition new_observer :: "int \<Rightarrow> observer" where
  "new_observer now =
     \<lparr>os_state = \<lparr>ob_mode = SHADOW, ob_window_start = now, ob_drift = None, ob_integrity = None, ob_evaluations = 0,
        ob_mismatches = 0, ob_failures = 0, ob_replay_samples = 0, ob_ready = False, ob_reason = None\<rparr>,
      os_running = False\<rparr>"

definition WEEK_MS :: int where
  "WEEK_MS = 7 * 24 * 60 * 60 * 1000"

section \<open>Stage gates\<close>

definition shadow_gate :: "integrity_result \<Rightarrow> drift_summary \<Rightarrow> bool" where
  "shadow_gate integrity s =
     (100 \<le> dsm_total_evaluations s \<and> dsm_mismatches s = 0 \<and> dsm_evaluation_failures s = 0 \<and>
      jeq (dsm_consensus_rate s) (Fin 100) \<and> (case dsm_p95_latency s of Some ms \<Rightarrow> ms < 5 | None \<Rightarrow> False) \<and>
      ir_state integrity = HEALTHY)"

definition stage_gate ::
  "governance_mode \<Rightarrow> integrity_result \<Rightarrow> drift_summary \<Rightarrow> int \<Rightarrow> int \<Rightarrow> bool \<times> string" where
  "stage_gate mode integrity s window_start now =
     (let weekOld = (window_start < now - WEEK_MS); healthy = (ir_state integrity = HEALTHY)
      in case mode of
           SHADOW \<Rightarrow>
             (let ready = shadow_gate integrity s
              in (ready, if ready then ''SHADOW gates met: 100+ evals, 0 mismatches, 0 failures, 100% consensus''
                   else ''SHADOW gates not met: '' @ nat_str (dsm_total_evaluations s) @ '' evals, '' @
                     nat_str (dsm_mismatches s) @ '' mismatches, '' @ nat_str (dsm_evaluation_failures s) @ '' failures, '' @
                     num_string (dsm_consensus_rate s) @ ''% consensus''))
         | ENFORCING_LOG_ONLY \<Rightarrow>
             (let ready = weekOld \<and> healthy
              in (ready, if ready then ''ENFORCING_LOG_ONLY gates met: 1+ week stable, integrity healthy''
                   else ''ENFORCING_LOG_ONLY gates not met: '' @ (if weekOld then [] else ''not yet '') @ ''1+ week stable''))
         | ENFORCING_NON_CRITICAL \<Rightarrow>
             (let ready = weekOld \<and> dsm_mismatches s = 0 \<and> healthy
              in (ready, if ready then ''ENFORCING_NON_CRITICAL gates met: 1+ week stable, 0 unexpected blocks''
                   else ''ENFORCING_NON_CRITICAL gates not met''))
         | FULL_ENFORCING \<Rightarrow>
             (healthy, if healthy then ''FULL_ENFORCING gates met: integrity healthy''
                else ''FULL_ENFORCING gates not met: integrity degraded'')
         | DISABLED \<Rightarrow> (False, ''Unknown mode''))"

definition updateStageTransitionReadiness ::
  "governance_mode \<Rightarrow> integrity_result \<Rightarrow> drift_summary \<Rightarrow> int \<Rightarrow> observation_state \<Rightarrow> observation_state" where
  "updateStageTransitionReadiness mode integrity s now st =
     (let (ready, reason) = stage_gate mode integrity s (ob_window_start st) now
      in st\<lparr>ob_ready := ready, ob_reason := Some reason\<rparr>)"

section \<open>Ticks\<close>

text \<open>What the observer reads of the other components.\<close>

record observed =
  od_mode :: "string option"
  od_samples :: "governance_snapshot list"
  od_audit_failures :: nat

definition validateReplaySamples :: "governance_snapshot list \<Rightarrow> observation_state \<Rightarrow> observation_state" where
  "validateReplaySamples buf st = st\<lparr>ob_replay_samples := sampleCount (getSamples buf)\<rparr>"

text \<open>The check and the report are made twice, once to keep and once to log.\<close>

definition tick :: "observed \<Rightarrow> int \<Rightarrow> metrics \<Rightarrow> observer \<Rightarrow> metrics \<times> observer" where
  "tick obs now m0 ob =
     (let mode = getGovernanceMode (od_mode obs);
          samples = sampleCount (od_samples obs);
          (m1, integrity) = checkGovernanceIntegrity True now m0 samples (od_audit_failures obs);
          (m2, _) = checkGovernanceIntegrity True now m1 samples (od_audit_failures obs);
          (m3, drift) = generateGovernanceDriftReport ''5m'' now m2;
          (m4, _) = generateGovernanceDriftReport ''5m'' now m3;
          st = (os_state ob)\<lparr>ob_mode := mode, ob_integrity := Some integrity, ob_drift := Some drift,
            ob_evaluations := dsm_total_evaluations drift, ob_mismatches := dsm_mismatches drift,
            ob_failures := dsm_evaluation_failures drift\<rparr>
      in (m4, ob\<lparr>os_state := updateStageTransitionReadiness mode integrity drift now
            (validateReplaySamples (od_samples obs) st)\<rparr>))"

definition start :: "observed \<Rightarrow> int \<Rightarrow> metrics \<Rightarrow> observer \<Rightarrow> metrics \<times> observer" where
  "start obs now m ob = (if os_running ob then (m, ob) else tick obs now m (ob\<lparr>os_running := True\<rparr>))"

definition stop :: "observer \<Rightarrow> observer" where
  "stop ob = (if os_running ob then ob\<lparr>os_running := False\<rparr> else ob)"

definition getState :: "observer \<Rightarrow> observation_state" where
  "getState ob = os_state ob"

definition getLatestDriftReport :: "observer \<Rightarrow> drift_summary option" where
  "getLatestDriftReport ob = ob_drift (os_state ob)"

definition getLatestIntegrityCheck :: "observer \<Rightarrow> integrity_result option" where
  "getLatestIntegrityCheck ob = ob_integrity (os_state ob)"

definition isStageTransitionReady :: "observer \<Rightarrow> bool" where
  "isStageTransitionReady ob = ob_ready (os_state ob)"

definition getTransitionReason :: "observer \<Rightarrow> string" where
  "getTransitionReason ob = (case ob_reason (os_state ob) of Some r \<Rightarrow> if r = [] then ''Not ready'' else r | None \<Rightarrow> ''Not ready'')"

definition resetObservationWindow :: "int \<Rightarrow> observer \<Rightarrow> observer" where
  "resetObservationWindow now ob = ob\<lparr>os_state := (os_state ob)\<lparr>ob_window_start := now\<rparr>\<rparr>"

section \<open>Laws\<close>

lemma recorded_export: "recorded m \<Longrightarrow> recorded (fst (export_latencies keys m))"
proof (induction keys arbitrary: m)
  case (Cons k keys)
  then show ?case
    using recorded.percentiles [OF Cons.prems, of "hd (split_on (CHR ''|'') k)" "Some (parseTagsFromKey k)"]
    by (simp add: case_prod_beta)
qed simp

lemma drift_law:
  assumes "recorded m"
  shows "recorded (fst (generateGovernanceDriftReport window now m)) \<and>
    dsm_total_evaluations (snd (generateGovernanceDriftReport window now m)) = 0 \<and>
    dsm_mismatches (snd (generateGovernanceDriftReport window now m)) = 0"
proof -
  let ?m1 = "fst (export_latencies (jm_keys (mt_histograms m)) m)"
  have r: "recorded ?m1" by (rule recorded_export [OF assms])
  then have "recorded (fst (getLatencyPercentiles ''governance_evaluation_ms'' None ?m1))" by (rule recorded.percentiles)
  then show ?thesis
    by (simp add: generateGovernanceDriftReport_def export_def case_prod_beta Let_def untagged_counter [OF recorded_barred [OF r]])
qed

lemma tick_law:
  assumes "recorded m" and "tick obs now m ob = (m', ob')"
  shows "recorded m' \<and> ob_mode (os_state ob') = getGovernanceMode (od_mode obs) \<and>
    ob_window_start (os_state ob') = ob_window_start (os_state ob) \<and> ob_evaluations (os_state ob') = 0 \<and>
    ob_ready (os_state ob') =
     (case getGovernanceMode (od_mode obs) of
        SHADOW \<Rightarrow> False
      | DISABLED \<Rightarrow> False
      | FULL_ENFORCING \<Rightarrow> od_audit_failures obs = 0
      | _ \<Rightarrow> ob_window_start (os_state ob) < now - WEEK_MS \<and> od_audit_failures obs = 0)"
proof -
  let ?n = "sampleCount (od_samples obs)" and ?k = "od_audit_failures obs"
  let ?drift = "generateGovernanceDriftReport ''5m'' now m"
  have same: "fst (checkGovernanceIntegrity True now m ?n ?k) = m" using integrity_law [OF assms(1)] by blast
  have healthy: "ir_state (snd (checkGovernanceIntegrity True now m ?n ?k)) = HEALTHY \<longleftrightarrow> ?k = 0"
    using integrity_law [OF assms(1), of now ?n ?k] by simp
  note d = drift_law [OF assms(1), of "''5m''" now]
  have "recorded (fst (generateGovernanceDriftReport ''5m'' now (fst ?drift)))" using drift_law d by blast
  moreover have "m' = fst (generateGovernanceDriftReport ''5m'' now (fst ?drift))"
    using assms(2) by (simp add: tick_def Let_def case_prod_beta same)
  ultimately have "recorded m'" by simp
  moreover have "os_state ob' = updateStageTransitionReadiness (getGovernanceMode (od_mode obs))
      (snd (checkGovernanceIntegrity True now m ?n ?k)) (snd ?drift) now
      (validateReplaySamples (od_samples obs) ((os_state ob)\<lparr>ob_mode := getGovernanceMode (od_mode obs),
         ob_integrity := Some (snd (checkGovernanceIntegrity True now m ?n ?k)), ob_drift := Some (snd ?drift),
         ob_evaluations := dsm_total_evaluations (snd ?drift), ob_mismatches := dsm_mismatches (snd ?drift),
         ob_failures := dsm_evaluation_failures (snd ?drift)\<rparr>))"
    using assms(2) by (auto simp: tick_def Let_def case_prod_beta same)
  ultimately show ?thesis using d healthy
    by (simp add: updateStageTransitionReadiness_def validateReplaySamples_def stage_gate_def shadow_gate_def Let_def
        split: governance_mode.split)
qed

section \<open>Properties\<close>

text \<open>
  The rollout gates see no traffic: with metrics left by any recordings, a tick in SHADOW mode never
  reports the transition as ready, however many evaluations were made, and counts none of them; in the
  enforcing modes readiness depends on the age of the window (not for the last stage) and on the audit
  writes alone, whatever mismatches and failures were recorded.
\<close>

theorem rollout_gates_blind:
  assumes "recorded m" and "tick obs now m ob = (m', ob')"
  shows "ob_evaluations (getState ob') = 0 \<and> isStageTransitionReady ob' =
     (case getGovernanceMode (od_mode obs) of
        SHADOW \<Rightarrow> False
      | DISABLED \<Rightarrow> False
      | FULL_ENFORCING \<Rightarrow> od_audit_failures obs = 0
      | _ \<Rightarrow> ob_window_start (os_state ob) < now - WEEK_MS \<and> od_audit_failures obs = 0)"
  using tick_law [OF assms] by (simp add: isStageTransitionReady_def getState_def)

text \<open>A failed evaluation with a latency of half a second opens the gate of the last stage.\<close>

theorem rollout_gates_blind_witness:
  "\<exists>m' ob'. tick \<lparr>od_mode = Some ''FULL_ENFORCING'', od_samples = [], od_audit_failures = 0\<rparr> 0 failing_metrics (new_observer 0) = (m', ob') \<and>
     isStageTransitionReady ob' \<and> recorded failing_metrics"
proof -
  have rec: "recorded failing_metrics" unfolding failing_metrics_def by (intro recorded.intros)
  obtain m' ob' where t: "tick \<lparr>od_mode = Some ''FULL_ENFORCING'', od_samples = [], od_audit_failures = 0\<rparr> 0 failing_metrics
      (new_observer 0) = (m', ob')" by fastforce
  have "getGovernanceMode (Some ''FULL_ENFORCING'') = FULL_ENFORCING"
    by (simp add: getGovernanceMode_def modeMap_def to_upper_def upper_char_def)
  then have "isStageTransitionReady ob'" using rollout_gates_blind [OF rec t] by simp
  then show ?thesis using rec t by blast
qed

end
