(* ===== verification/OperatorBinding.thy ===== *)
theory OperatorBinding
  imports JsValue
begin

text \<open>
  Operator trace bindings, \<open>apps/api/types/operator-trace-binding.ts\<close>: the signed record of what an
  operator did, its verification, the intent read back from a trace and the check of authority. SHA-256,
  \<open>JSON.stringify\<close> and the ISO text of a time are arguments; times are milliseconds.
\<close>

section \<open>Data\<close>

datatype operator_action = TRACE_READ | DECISION_APPROVE | DECISION_REJECT | REPLAY_AUTHORIZE | REMEDIATION_APPROVE
  | ESCALATION_OVERRIDE | CONFIG_UPDATE | AUDIT_ACCESS

fun action_name :: "operator_action \<Rightarrow> string" where
  "action_name TRACE_READ = ''TRACE_READ''"
| "action_name DECISION_APPROVE = ''DECISION_APPROVE''"
| "action_name DECISION_REJECT = ''DECISION_REJECT''"
| "action_name REPLAY_AUTHORIZE = ''REPLAY_AUTHORIZE''"
| "action_name REMEDIATION_APPROVE = ''REMEDIATION_APPROVE''"
| "action_name ESCALATION_OVERRIDE = ''ESCALATION_OVERRIDE''"
| "action_name CONFIG_UPDATE = ''CONFIG_UPDATE''"
| "action_name AUDIT_ACCESS = ''AUDIT_ACCESS''"

record session_snapshot =
  ss_sessionId :: string
  ss_operatorHash :: string
  ss_userId :: string
  ss_tenantId :: string
  ss_email :: string
  ss_name :: string
  ss_role :: string
  ss_loginAt :: int
  ss_ipAddress :: "string option"
  ss_userAgent :: "string option"

text \<open>The scope is kept as the text it is, since routes store texts outside the declared union.\<close>

record authorization_context =
  ac_contextId :: string
  ac_operatorSessionId :: string
  ac_scope :: string
  ac_grantedScopes :: "string list"
  ac_expiresAt :: int
  ac_createdAt :: int

record operator_binding =
  ob_bindingId :: string
  ob_traceId :: string
  ob_spanId :: string
  ob_session :: session_snapshot
  ob_authorization :: authorization_context
  ob_action :: operator_action
  ob_payload :: js
  ob_description :: string
  ob_signedAt :: string
  ob_signedBy :: string
  ob_signature :: "string option"
  ob_writtenAt :: string
  ob_persisted :: bool

section \<open>Signatures\<close>

record signer =
  sg_sha :: "string \<Rightarrow> string"
  sg_stringify :: "js \<Rightarrow> string"
  sg_iso :: "int \<Rightarrow> string"

definition signature_data :: "signer \<Rightarrow> string \<Rightarrow> operator_action \<Rightarrow> js \<Rightarrow> string \<Rightarrow> string" where
  "signature_data sg operatorHash action payload signedAt =
     operatorHash @ '':'' @ action_name action @ '':'' @ sg_stringify sg payload @ '':'' @ signedAt"

definition createOperatorTraceBinding ::
  "signer \<Rightarrow> string \<Rightarrow> int \<Rightarrow> string \<times> string \<Rightarrow> session_snapshot \<Rightarrow> authorization_context \<Rightarrow> operator_action \<Rightarrow> js \<Rightarrow>
   string \<Rightarrow> operator_binding" where
  "createOperatorTraceBinding sg bindingId now ids session authz action payload description =
     (let signedAt = sg_iso sg now; (traceId, spanId) = ids
      in \<lparr>ob_bindingId = bindingId, ob_traceId = traceId, ob_spanId = spanId, ob_session = session,
          ob_authorization = authz, ob_action = action, ob_payload = payload, ob_description = description,
          ob_signedAt = signedAt, ob_signedBy = ''governance-causality-engine'',
          ob_signature = Some (sg_sha sg (signature_data sg (ss_operatorHash session) action payload signedAt)),
          ob_writtenAt = sg_iso sg now, ob_persisted = False\<rparr>)"

definition verifyOperatorTraceBinding :: "signer \<Rightarrow> operator_binding \<Rightarrow> bool" where
  "verifyOperatorTraceBinding sg b =
     (case ob_signature b of
        None \<Rightarrow> False
      | Some h \<Rightarrow>
          if h = [] then False
          else sg_sha sg (signature_data sg (ss_operatorHash (ob_session b)) (ob_action b) (ob_payload b) (ob_signedAt b)) = h)"

section \<open>Intent\<close>

record operator_intent =
  oi_primary :: "operator_binding option"
  oi_approvals :: "operator_binding list"
  oi_rejections :: "operator_binding list"
  oi_overrides :: "operator_binding list"
  oi_escalations :: "operator_binding list"
  oi_timeline :: "operator_binding list"

definition no_intent :: operator_intent where
  "no_intent = \<lparr>oi_primary = None, oi_approvals = [], oi_rejections = [], oi_overrides = [], oi_escalations = [], oi_timeline = []\<rparr>"

definition add_binding :: "operator_intent \<Rightarrow> operator_binding \<Rightarrow> operator_intent" where
  "add_binding i0 b =
     (let i = i0\<lparr>oi_timeline := oi_timeline i0 @ [b]\<rparr>
      in case ob_action b of
           DECISION_APPROVE \<Rightarrow>
             i\<lparr>oi_approvals := oi_approvals i @ [b],
               oi_primary := (case oi_primary i of None \<Rightarrow> Some b | Some p \<Rightarrow> Some p)\<rparr>
         | DECISION_REJECT \<Rightarrow> i\<lparr>oi_rejections := oi_rejections i @ [b]\<rparr>
         | ESCALATION_OVERRIDE \<Rightarrow> i\<lparr>oi_overrides := oi_overrides i @ [b]\<rparr>
         | REMEDIATION_APPROVE \<Rightarrow> i\<lparr>oi_escalations := oi_escalations i @ [b]\<rparr>
         | _ \<Rightarrow> i)"

definition reconstructOperatorIntent :: "operator_binding list \<Rightarrow> operator_intent" where
  "reconstructOperatorIntent bindings = foldl add_binding no_intent bindings"

section \<open>Authority\<close>

definition scopeHierarchy :: "string list" where
  "scopeHierarchy = [''LOCAL'', ''CROSS_TENANT'', ''REPLAY'', ''ESCALATION'']"

text \<open>\<open>Array.prototype.indexOf\<close>.\<close>

fun index_of :: "'a list \<Rightarrow> 'a \<Rightarrow> int" where
  "index_of [] x = -1"
| "index_of (y # ys) x = (if y = x then 0 else let i = index_of ys x in if i < 0 then -1 else i + 1)"

definition hasOperatorAuthority :: "int \<Rightarrow> operator_binding \<Rightarrow> string \<Rightarrow> bool" where
  "hasOperatorAuthority now b required =
     (index_of scopeHierarchy required \<le> index_of scopeHierarchy (ac_scope (ob_authorization b)) \<and>
      now < ac_expiresAt (ob_authorization b))"

text \<open>The local format of a time is an argument.\<close>

definition or_unknown :: "js \<Rightarrow> string" where
  "or_unknown v = (if js_truthy v then js_string v else ''unknown'')"

definition js_member :: "js \<Rightarrow> string \<Rightarrow> js" where
  "js_member v k = (case v of Obj fs \<Rightarrow> js_get fs k | _ \<Rightarrow> Undefined)"

definition action_summary :: "operator_action \<Rightarrow> js \<Rightarrow> string" where
  "action_summary a p =
     (case a of
        TRACE_READ \<Rightarrow> ''viewed trace context''
      | DECISION_APPROVE \<Rightarrow> ''approved decision: '' @ or_unknown (js_member p ''decisionId'')
      | DECISION_REJECT \<Rightarrow> ''rejected decision: '' @ or_unknown (js_member p ''decisionId'')
      | REPLAY_AUTHORIZE \<Rightarrow> ''authorized replay of span '' @ or_unknown (js_member p ''replaySpanId'')
      | REMEDIATION_APPROVE \<Rightarrow> ''approved remediation: '' @ or_unknown (js_member p ''remediationId'')
      | ESCALATION_OVERRIDE \<Rightarrow> ''escalated and overrode automation decision''
      | CONFIG_UPDATE \<Rightarrow> ''updated configuration: '' @ or_unknown (js_member p ''configKey'')
      | AUDIT_ACCESS \<Rightarrow> ''accessed audit logs'')"

definition summarizeOperatorAction :: "(string \<Rightarrow> string) \<Rightarrow> operator_binding \<Rightarrow> string" where
  "summarizeOperatorAction local_time b =
     ss_email (ob_session b) @ '' ('' @ ss_role (ob_session b) @ '') '' @ action_summary (ob_action b) (ob_payload b) @
     '' at '' @ local_time (ob_signedAt b)"

section \<open>Laws\<close>

lemma index_of_bounds: "index_of xs x = (if x \<in> set xs then int (length (takeWhile (\<lambda>y. y \<noteq> x) xs)) else - 1)"
  by (induction xs) (auto simp: Let_def)

lemma intent_fields:
  "oi_timeline (foldl add_binding i bs) = oi_timeline i @ bs"
  "oi_approvals (foldl add_binding i bs) = oi_approvals i @ filter (\<lambda>b. ob_action b = DECISION_APPROVE) bs"
  "oi_rejections (foldl add_binding i bs) = oi_rejections i @ filter (\<lambda>b. ob_action b = DECISION_REJECT) bs"
  "oi_overrides (foldl add_binding i bs) = oi_overrides i @ filter (\<lambda>b. ob_action b = ESCALATION_OVERRIDE) bs"
  "oi_escalations (foldl add_binding i bs) = oi_escalations i @ filter (\<lambda>b. ob_action b = REMEDIATION_APPROVE) bs"
  by (induction bs arbitrary: i) (auto simp: add_binding_def Let_def split: operator_action.splits)

lemma intent_primary:
  "oi_primary (foldl add_binding i bs) =
     (case oi_primary i of Some p \<Rightarrow> Some p | None \<Rightarrow> find (\<lambda>b. ob_action b = DECISION_APPROVE) bs)"
  by (induction bs arbitrary: i) (auto simp: add_binding_def Let_def split: operator_action.splits option.splits)

lemma created_verifies_law:
  assumes "sg_sha sg (signature_data sg (ss_operatorHash session) action payload (sg_iso sg now)) \<noteq> []"
  shows "verifyOperatorTraceBinding sg (createOperatorTraceBinding sg bid now ids session authz action payload desc)"
  using assms by (simp add: verifyOperatorTraceBinding_def createOperatorTraceBinding_def Let_def case_prod_beta)

end
