(* ===== verification/AuditChain.thy ===== *)
theory AuditChain
  imports OperatorBinding
begin

text \<open>
  The hash-chained ledger of operator actions: \<open>apps/api/services/audit-chain-service.ts\<close> and
  \<open>apps/api/services/audit-chain-fork-detection.ts\<close> over the table \<open>operator_trace_bindings\<close> of the
  migrations. SHA-256, the canonical JSON package, the ISO text of a time and the value a \<open>BIGINT\<close> column
  is read as (the driver delivers its decimal text) are arguments; queries are operations on the rows.
\<close>

section \<open>Data\<close>

record chain_env =
  ch_sha :: "string \<Rightarrow> string"
  ch_canon :: "js \<Rightarrow> string option"
  ch_iso :: "int \<Rightarrow> string"
  ch_bigint :: "nat \<Rightarrow> js"
  ch_secret_setting :: "string option"

definition SYSTEM_CHAIN_SECRET :: "chain_env \<Rightarrow> string" where
  "SYSTEM_CHAIN_SECRET env =
     (case ch_secret_setting env of Some s \<Rightarrow> if s = [] then ''FALLBACK_GOVERNANCE_SECRET_2026'' else s
      | None \<Rightarrow> ''FALLBACK_GOVERNANCE_SECRET_2026'')"

definition HASH_ALGORITHM_VERSION :: string where
  "HASH_ALGORITHM_VERSION = ''SHA256_JCS_V1''"

record binding_payload =
  bp_tenantId :: string
  bp_operatorHash :: string
  bp_traceId :: string
  bp_spanId :: string
  bp_actionType :: string
  bp_authContext :: js
  bp_actionPayload :: js

record chain_hashes =
  cx_current :: string
  cx_previous :: "string option"
  cx_root :: "string option"

text \<open>A row of the table, a column that is NULL being \<^const>\<open>None\<close> or \<^const>\<open>Null\<close>.\<close>

record binding_row =
  br_id :: string
  br_binding_id :: string
  br_tenant :: "string option"
  br_trace :: string
  br_span :: "string option"
  br_operator :: "string option"
  br_action :: string
  br_auth :: js
  br_payload :: js
  br_previous :: "string option"
  br_signature :: "string option"
  br_root :: "string option"
  br_signed :: int
  br_position :: nat
  br_session :: js
  br_authorization :: js

type_synonym ledger = "binding_row list"

definition tenant_chain :: "string \<Rightarrow> ledger \<Rightarrow> ledger" where
  "tenant_chain tenant rows = sort_key br_position (filter (\<lambda>r. br_tenant r = Some tenant) rows)"

definition chain_tip :: "string \<Rightarrow> ledger \<Rightarrow> binding_row option" where
  "chain_tip tenant rows = (case rev (tenant_chain tenant rows) of [] \<Rightarrow> None | r # _ \<Rightarrow> Some r)"

section \<open>Hashes\<close>

definition truthy_text :: "string option \<Rightarrow> bool" where
  "truthy_text x = (case x of Some s \<Rightarrow> s \<noteq> [] | None \<Rightarrow> False)"

definition col_text :: "string option \<Rightarrow> string" where
  "col_text x = (case x of Some s \<Rightarrow> s | None \<Rightarrow> [])"

definition chain_block :: "string option \<Rightarrow> string list \<Rightarrow> string" where
  "chain_block previous parts =
     join ''|'' ((if truthy_text previous then col_text previous else ''GENESIS_BLOCK_ROOT_INVARIANT'') # parts)"

definition root_anchor :: "chain_env \<Rightarrow> string \<Rightarrow> string \<Rightarrow> string \<Rightarrow> string" where
  "root_anchor env tenant trace current =
     ch_sha env (join ''|'' [HASH_ALGORITHM_VERSION, tenant, trace, current, SYSTEM_CHAIN_SECRET env])"

definition computeChainHash :: "chain_env \<Rightarrow> ledger \<Rightarrow> binding_payload \<Rightarrow> string \<Rightarrow> string + chain_hashes" where
  "computeChainHash env rows p signedAt =
     (let tip = chain_tip (bp_tenantId p) rows;
          previousHash = (case tip of Some r \<Rightarrow> br_signature r | None \<Rightarrow> None);
          rootHash = (case tip of Some r \<Rightarrow> br_root r | None \<Rightarrow> None);
          canonicalAuth = ch_canon env (bp_authContext p);
          canonicalPayload = ch_canon env (bp_actionPayload p)
      in if \<not> truthy_text canonicalAuth \<or> \<not> truthy_text canonicalPayload
         then Inl ''CANONICALIZATION_FAILED: Auth or payload serialization produced invalid output''
         else (let currentHash = ch_sha env (chain_block previousHash
                     [bp_operatorHash p, bp_traceId p, bp_spanId p, bp_actionType p, col_text canonicalAuth,
                      col_text canonicalPayload, signedAt])
               in Inr \<lparr>cx_current = currentHash, cx_previous = previousHash,
                       cx_root = (if truthy_text previousHash then rootHash
                                  else Some (root_anchor env (bp_tenantId p) (bp_traceId p) currentHash))\<rparr>))"

section \<open>Verification\<close>

datatype verdict = Chain_valid | Chain_broken "string option" string

text \<open>The operator \<open><=\<close>: two texts by their code units, otherwise numbers.\<close>

fun text_le :: "string \<Rightarrow> string \<Rightarrow> bool" where
  "text_le [] t = True"
| "text_le (c # s) [] = False"
| "text_le (c # s) (d # t) =
     (if c = d then text_le s t else (of_char c :: nat) < of_char d)"

definition js_less_eq :: "js \<Rightarrow> js \<Rightarrow> bool" where
  "js_less_eq a b = (case (a, b) of (Str s, Str t) \<Rightarrow> text_le s t | _ \<Rightarrow> jle (js_number a) (js_number b))"

definition or_null :: "string option \<Rightarrow> string" where
  "or_null x = (case x of Some s \<Rightarrow> s | None \<Rightarrow> ''null'')"

definition row_hash :: "chain_env \<Rightarrow> binding_row \<Rightarrow> string option" where
  "row_hash env r =
     (let canonicalAuth = ch_canon env (br_auth r); canonicalPayload = ch_canon env (br_payload r)
      in if \<not> truthy_text canonicalAuth \<or> \<not> truthy_text canonicalPayload then None
         else Some (ch_sha env (chain_block (br_previous r)
           [col_text (br_operator r), br_trace r, col_text (br_span r), br_action r, col_text canonicalAuth,
            col_text canonicalPayload, ch_iso env (br_signed r)])))"

definition expected_root :: "chain_env \<Rightarrow> string \<Rightarrow> string option \<Rightarrow> binding_row \<Rightarrow> string option" where
  "expected_root env tenant anchor r =
     (if truthy_text (br_previous r) then anchor
      else Some (root_anchor env tenant (br_trace r) (col_text (br_signature r))))"

definition row_fault ::
  "chain_env \<Rightarrow> string \<Rightarrow> js option \<Rightarrow> string option \<Rightarrow> string option \<Rightarrow> binding_row \<Rightarrow> string option" where
  "row_fault env tenant lastPos expectedPrevious anchor r =
     (let position = ch_bigint env (br_position r)
      in if (case lastPos of Some l \<Rightarrow> js_less_eq position l | None \<Rightarrow> False)
         then Some (''Chain position not strictly monotonic: previous='' @ js_string (the lastPos) @ '', current='' @ js_string position)
         else if br_previous r \<noteq> expectedPrevious
         then Some (''Previous binding hash mismatch: expected='' @ or_null expectedPrevious @ '', found='' @ or_null (br_previous r))
         else case row_hash env r of
           None \<Rightarrow> Some ''Failed to canonicalize auth context or action payload during verification''
         | Some recomputed \<Rightarrow>
             if br_signature r \<noteq> Some recomputed
             then Some (''Binding hash mismatch: expected='' @ recomputed @ '', found='' @ or_null (br_signature r))
             else if br_root r \<noteq> expected_root env tenant anchor r
             then Some (''Root chain hash mismatch: expected='' @ or_null (expected_root env tenant anchor r) @ '', found='' @
               or_null (br_root r))
             else None)"

fun verify_rows ::
  "chain_env \<Rightarrow> string \<Rightarrow> js option \<Rightarrow> string option \<Rightarrow> string option \<Rightarrow> ledger \<Rightarrow> verdict" where
  "verify_rows env tenant lastPos previous anchor [] = Chain_valid"
| "verify_rows env tenant lastPos previous anchor (r # rs) =
     (case row_fault env tenant lastPos previous anchor r of
        Some reason \<Rightarrow> Chain_broken (Some (br_id r)) reason
      | None \<Rightarrow>
          verify_rows env tenant (Some (ch_bigint env (br_position r))) (br_signature r) (expected_root env tenant anchor r) rs)"

text \<open>
  Forks of a trace: bindings of one trace with the same predecessor. The query takes one group of
  several; which one is left open by it, here it is the first. A failed query counts as no fork.
\<close>

record fork_result =
  fr_hasFork :: bool
  fr_point :: "string option"
  fr_count :: nat
  fr_branches :: "string list"
  fr_reason :: "string option"

definition successors :: "ledger \<Rightarrow> string \<Rightarrow> string option \<Rightarrow> ledger" where
  "successors rows trace previous = filter (\<lambda>r. br_trace r = trace \<and> br_previous r = previous) rows"

definition fork_points :: "ledger \<Rightarrow> string \<Rightarrow> string option list" where
  "fork_points rows trace =
     filter (\<lambda>p. p \<noteq> None \<and> 1 < length (successors rows trace p))
       (remdups (map br_previous (filter (\<lambda>r. br_trace r = trace) rows)))"

definition detectTraceFork :: "bool \<Rightarrow> ledger \<Rightarrow> string \<Rightarrow> fork_result" where
  "detectTraceFork query_ok rows trace =
     (case (if query_ok then fork_points rows trace else []) of
        [] \<Rightarrow> \<lparr>fr_hasFork = False, fr_point = None, fr_count = 0, fr_branches = [],
               fr_reason = (if query_ok then None else Some ''Fork detection query failed'')\<rparr>
      | p # _ \<Rightarrow> \<lparr>fr_hasFork = True, fr_point = p, fr_count = length (successors rows trace p),
                 fr_branches = map br_id (successors rows trace p), fr_reason = None\<rparr>)"

text \<open>
  The whole check. The query names its columns; when the table lacks one it fails, and the failure is
  passed on. The fork check needs the service to be initialised and a trace to look at.
\<close>

definition VERIFY_COLUMNS :: "string list" where
  "VERIFY_COLUMNS = [''id'', ''previous_binding_hash'', ''signature_hash'', ''root_chain_hash'', ''operator_hash'', ''trace_id'',
     ''span_id'', ''action_type'', ''auth_context'', ''action_payload'', ''signed_at'', ''chain_position'', ''tenant_id'']"

definition verifyChainIntegrity ::
  "chain_env \<Rightarrow> bool option \<Rightarrow> string set \<Rightarrow> ledger \<Rightarrow> string \<Rightarrow> string option \<Rightarrow> string + verdict" where
  "verifyChainIntegrity env fork_service columns rows tenant trace =
     (let fork = (case (fork_service, trace) of
                    (Some query_ok, Some t) \<Rightarrow> if t = [] then None else Some (detectTraceFork query_ok rows t)
                  | _ \<Rightarrow> None)
      in case fork of
           Some f \<Rightarrow>
             if fr_hasFork f
             then Inr (Chain_broken (fr_point f) (''AUDIT_CHAIN_FORK_DETECTED: Multiple successors ('' @ nat_str (fr_count f) @
               '') from binding '' @ or_null (fr_point f)))
             else if \<not> set VERIFY_COLUMNS \<subseteq> columns then Inl ''column does not exist''
             else Inr (verify_rows env tenant None None None (tenant_chain tenant rows))
         | None \<Rightarrow>
             if \<not> set VERIFY_COLUMNS \<subseteq> columns then Inl ''column does not exist''
             else Inr (verify_rows env tenant None None None (tenant_chain tenant rows)))"

definition verifySingleBinding :: "chain_env \<Rightarrow> binding_payload \<Rightarrow> string option \<Rightarrow> string \<Rightarrow> string \<Rightarrow> bool" where
  "verifySingleBinding env p previous signedAt signature =
     (let canonicalAuth = ch_canon env (bp_authContext p); canonicalPayload = ch_canon env (bp_actionPayload p)
      in if \<not> truthy_text canonicalAuth \<or> \<not> truthy_text canonicalPayload then False
         else signature = ch_sha env (chain_block previous
           [bp_operatorHash p, bp_traceId p, bp_spanId p, bp_actionType p, col_text canonicalAuth,
            col_text canonicalPayload, signedAt]))"

section \<open>Appending with fork prevention\<close>

text \<open>
  The stored procedure inserts the row unless a unique index refuses it: one successor of a binding
  within a trace, one genesis binding of a trace, and distinct binding ids. It writes neither the
  anchor hash nor a span. The position is the next value of the identity column.
\<close>

definition ledger_unique :: "ledger \<Rightarrow> binding_row \<Rightarrow> bool" where
  "ledger_unique rows r =
     (\<forall>x\<in>set rows. br_binding_id x \<noteq> br_binding_id r \<and> \<not> (br_trace x = br_trace r \<and> br_previous x = br_previous r))"

definition appended_row ::
  "string \<times> string \<Rightarrow> nat \<Rightarrow> binding_payload \<Rightarrow> string option \<Rightarrow> string \<Rightarrow> int \<Rightarrow> binding_row" where
  "appended_row ids position p previous signature signedAt =
     (let (uuid, bindingId) = ids
      in \<lparr>br_id = uuid, br_binding_id = bindingId, br_tenant = Some (bp_tenantId p), br_trace = bp_traceId p, br_span = None,
          br_operator = Some (bp_operatorHash p), br_action = bp_actionType p, br_auth = bp_authContext p,
          br_payload = bp_actionPayload p, br_previous = previous, br_signature = Some signature, br_root = None,
          br_signed = signedAt, br_position = position, br_session = Obj [], br_authorization = Null\<rparr>)"

datatype append_result = Appended string nat | Append_refused string

definition appendBindingWithForkPrevention ::
  "string \<times> string \<Rightarrow> nat \<Rightarrow> binding_payload \<Rightarrow> string option \<Rightarrow> string \<Rightarrow> int \<Rightarrow> bool \<times> bool \<Rightarrow> ledger \<times> string list \<Rightarrow>
   (ledger \<times> string list) \<times> append_result" where
  "appendBindingWithForkPrevention ids position p previous signature signedAt outcomes s =
     (let (rows, fork_log) = s; (db_up, log_ok) = outcomes; row = appended_row ids position p previous signature signedAt
      in if \<not> db_up then (s, Append_refused ''Error appending binding'')
         else if ledger_unique rows row then ((rows @ [row], fork_log), Appended (br_id row) position)
         else ((rows, if log_ok then fork_log @ [bp_traceId p] else fork_log),
               Append_refused ''FORK_PREVENTION_TRIGGERED: Duplicate successor detected for this previous_binding_hash''))"

text \<open>The check of one trace.\<close>

fun trace_fault :: "chain_env \<Rightarrow> js option \<Rightarrow> string option \<Rightarrow> ledger \<Rightarrow> string option" where
  "trace_fault env lastPosition lastHash [] = None"
| "trace_fault env lastPosition lastHash (r # rs) =
     (let position = ch_bigint env (br_position r)
      in if (case lastPosition of Some l \<Rightarrow> js_less_eq position l | None \<Rightarrow> False)
         then Some (''Chain position not strictly monotonic: '' @ js_string (the lastPosition) @ '' >= '' @ js_string position)
         else if lastHash \<noteq> None \<and> br_previous r \<noteq> lastHash
         then Some (''Previous hash pointer broken at position '' @ js_string position)
         else trace_fault env (Some position) (br_signature r) rs)"

record chain_integrity =
  ci_valid :: bool
  ci_reason :: string
  ci_forkedAt :: "string option"
  ci_affected :: "string list"

definition verifyTraceIntegrity :: "chain_env \<Rightarrow> bool \<Rightarrow> ledger \<Rightarrow> string \<Rightarrow> string \<Rightarrow> chain_integrity" where
  "verifyTraceIntegrity env db_up rows tenant trace =
     (let own = filter (\<lambda>r. br_trace r = trace) (tenant_chain tenant rows);
          forks = length (fork_points own trace);
          details = detectTraceFork True rows trace
      in if \<not> db_up then \<lparr>ci_valid = False, ci_reason = ''Verification error'', ci_forkedAt = None, ci_affected = []\<rparr>
         else if 0 < forks
         then \<lparr>ci_valid = False, ci_reason = ''CHAIN_FORK_DETECTED: '' @ nat_str forks @ '' fork points found'',
               ci_forkedAt = fr_point details, ci_affected = fr_branches details\<rparr>
         else case trace_fault env None None own of
           Some reason \<Rightarrow> \<lparr>ci_valid = False, ci_reason = reason, ci_forkedAt = None, ci_affected = []\<rparr>
         | None \<Rightarrow> \<lparr>ci_valid = True, ci_reason = ''Chain integrity verified: no forks, monotonic ordering maintained'',
                   ci_forkedAt = None, ci_affected = []\<rparr>)"

section \<open>Accepted ledgers\<close>

text \<open>What an accepted ledger is: every row linked to its predecessor, and positions that ascend as read.\<close>

definition link_ok :: "chain_env \<Rightarrow> string \<Rightarrow> string option \<Rightarrow> string option \<Rightarrow> binding_row \<Rightarrow> bool" where
  "link_ok env tenant previous anchor r =
     (br_previous r = previous \<and> row_hash env r \<noteq> None \<and> br_signature r = row_hash env r \<and>
      br_root r = expected_root env tenant anchor r)"

fun linked :: "chain_env \<Rightarrow> string \<Rightarrow> string option \<Rightarrow> string option \<Rightarrow> ledger \<Rightarrow> bool" where
  "linked env tenant previous anchor [] = True"
| "linked env tenant previous anchor (r # rs) =
     (link_ok env tenant previous anchor r \<and> linked env tenant (br_signature r) (br_root r) rs)"

fun ascending :: "js option \<Rightarrow> js list \<Rightarrow> bool" where
  "ascending lastPos [] = True"
| "ascending lastPos (p # ps) = ((case lastPos of Some l \<Rightarrow> \<not> js_less_eq p l | None \<Rightarrow> True) \<and> ascending (Some p) ps)"

lemma row_fault_None:
  "row_fault env tenant lastPos previous anchor r = None \<longleftrightarrow>
     (case lastPos of Some l \<Rightarrow> \<not> js_less_eq (ch_bigint env (br_position r)) l | None \<Rightarrow> True) \<and> link_ok env tenant previous anchor r"
  by (auto simp: row_fault_def link_ok_def Let_def split: option.splits)

lemma verify_rows_valid:
  "verify_rows env tenant lastPos previous anchor rows = Chain_valid \<longleftrightarrow>
     ascending lastPos (map (\<lambda>r. ch_bigint env (br_position r)) rows) \<and> linked env tenant previous anchor rows"
proof (induction rows arbitrary: lastPos previous anchor)
  case (Cons r rs)
  show ?case
  proof (cases "row_fault env tenant lastPos previous anchor r")
    case None
    then have ok: "link_ok env tenant previous anchor r" by (simp add: row_fault_None)
    then have "expected_root env tenant anchor r = br_root r" by (simp add: link_ok_def)
    then show ?thesis using None Cons.IH row_fault_None [of env tenant lastPos previous anchor r] by auto
  next
    case (Some reason)
    then show ?thesis using row_fault_None [of env tenant lastPos previous anchor r] by auto
  qed
qed simp

lemma linked_append:
  "linked env tenant previous anchor (xs @ ys) \<longleftrightarrow>
     linked env tenant previous anchor xs \<and>
     linked env tenant (if xs = [] then previous else br_signature (last xs)) (if xs = [] then anchor else br_root (last xs)) ys"
  by (induction xs arbitrary: previous anchor) auto

lemma ascending_append: "ascending l (xs @ ys) \<Longrightarrow> ascending l xs"
  by (induction xs arbitrary: l) auto

lemma ascending_prefix: "ascending l xs \<Longrightarrow> ascending l (take n xs)"
  using ascending_append [of l "take n xs" "drop n xs"] by simp

section \<open>Ledgers written as the verification expects\<close>

text \<open>
  The write that the verification assumes, with every column filled and the next position: the hashes
  of \<^const>\<open>computeChainHash\<close> stored beside the payload. No caller makes this write.
\<close>

definition sealed_row :: "string \<Rightarrow> nat \<Rightarrow> binding_payload \<Rightarrow> chain_hashes \<Rightarrow> int \<Rightarrow> binding_row" where
  "sealed_row uuid position p h signedAt =
     \<lparr>br_id = uuid, br_binding_id = uuid, br_tenant = Some (bp_tenantId p), br_trace = bp_traceId p, br_span = Some (bp_spanId p),
      br_operator = Some (bp_operatorHash p), br_action = bp_actionType p, br_auth = bp_authContext p,
      br_payload = bp_actionPayload p, br_previous = cx_previous h, br_signature = Some (cx_current h),
      br_root = cx_root h, br_signed = signedAt, br_position = position, br_session = Obj [], br_authorization = Null\<rparr>"

definition extend_chain :: "chain_env \<Rightarrow> ledger \<Rightarrow> string \<times> binding_payload \<times> int \<Rightarrow> ledger" where
  "extend_chain env rows op =
     (let (uuid, p, t) = op
      in case computeChainHash env rows p (ch_iso env t) of
           Inl _ \<Rightarrow> rows
         | Inr h \<Rightarrow> rows @ [sealed_row uuid (length rows + 1) p h t])"

definition canonical :: "chain_env \<Rightarrow> binding_payload \<Rightarrow> bool" where
  "canonical env p = (truthy_text (ch_canon env (bp_authContext p)) \<and> truthy_text (ch_canon env (bp_actionPayload p)))"

text \<open>A hexadecimal SHA-256 digest.\<close>

definition hex64 :: "string \<Rightarrow> bool" where
  "hex64 s = (length s = 64 \<and> list_all (\<lambda>c. c \<in> set ''0123456789abcdef'') s)"

lemma hex64_ne: "hex64 s \<Longrightarrow> s \<noteq> []"
  by (auto simp: hex64_def)

lemma hex64_no_bar:
  assumes "hex64 s"
  shows "CHR ''|'' \<notin> set s"
proof
  assume "CHR ''|'' \<in> set s"
  then have "CHR ''|'' \<in> set ''0123456789abcdef''" using assms unfolding hex64_def list_all_iff by blast
  then show False by simp
qed

lemma hex64_not_genesis: "hex64 s \<Longrightarrow> s \<noteq> ''GENESIS_BLOCK_ROOT_INVARIANT''"
  by (auto simp: hex64_def)

lemma link_sealed:
  assumes "computeChainHash env rows p (ch_iso env t) = Inr h" and "hex64 (cx_current h)"
    and "case chain_tip (bp_tenantId p) rows of Some r \<Rightarrow> br_signature r = prev \<and> br_root r = anchor | None \<Rightarrow> prev = None"
  shows "link_ok env (bp_tenantId p) prev anchor (sealed_row uuid k p h t)"
proof -
  let ?p = "case chain_tip (bp_tenantId p) rows of Some r \<Rightarrow> br_signature r | None \<Rightarrow> None"
  let ?a = "case chain_tip (bp_tenantId p) rows of Some r \<Rightarrow> br_root r | None \<Rightarrow> None"
  have prev: "?p = prev" and root: "truthy_text prev \<Longrightarrow> ?a = anchor"
    using assms(3) by (auto simp: truthy_text_def split: option.splits)
  note c = assms(1) [unfolded computeChainHash_def Let_def prev]
  then show ?thesis using root
    by (auto simp: link_ok_def sealed_row_def row_hash_def expected_root_def Let_def col_text_def [of "Some s" for s] split: if_splits)
qed

lemma tenant_chain_all:
  assumes "\<forall>r\<in>set rows. br_tenant r = Some tenant" "sorted (map br_position rows)"
  shows "tenant_chain tenant rows = rows"
  using assms by (simp add: tenant_chain_def sort_key_id_if_sorted)

lemma extend_chain_law:
  assumes "\<forall>(u, p, t)\<in>set ops. bp_tenantId p = tenant \<and> canonical env p" and "\<forall>s. hex64 (ch_sha env s)"
  shows "linked env tenant None None (foldl (extend_chain env) [] ops) \<and>
    map br_position (foldl (extend_chain env) [] ops) = [1..<Suc (length ops)] \<and>
    (\<forall>r\<in>set (foldl (extend_chain env) [] ops). br_tenant r = Some tenant \<and> truthy_text (br_signature r))"
  using assms
proof (induction ops rule: rev_induct)
  case (snoc op ops)
  obtain uuid p t where op: "op = (uuid, p, t)" by (cases op)
  let ?rows = "foldl (extend_chain env) [] ops"
  have IH: "linked env tenant None None ?rows" "map br_position ?rows = [1..<Suc (length ops)]"
    "\<forall>r\<in>set ?rows. br_tenant r = Some tenant \<and> truthy_text (br_signature r)" using snoc by auto
  have p: "bp_tenantId p = tenant" "canonical env p" using snoc.prems op by auto
  have len: "length ?rows = length ops" using IH(2) by (metis diff_Suc_1 length_map length_upt)
  have chain: "tenant_chain tenant ?rows = ?rows" using IH by (intro tenant_chain_all) (auto simp del: upt_Suc)
  have tip: "chain_tip tenant ?rows = (if ?rows = [] then None else Some (last ?rows))"
    unfolding chain_tip_def chain by (cases ?rows rule: rev_cases) auto
  obtain h where h: "computeChainHash env ?rows p (ch_iso env t) = Inr h"
    using p by (auto simp: computeChainHash_def canonical_def Let_def)
  have hex: "hex64 (cx_current h)" using h snoc.prems(2)
    by (auto simp: computeChainHash_def Let_def split: if_splits)
  have "link_ok env (bp_tenantId p) (if ?rows = [] then None else br_signature (last ?rows))
      (if ?rows = [] then None else br_root (last ?rows)) (sealed_row uuid (length ?rows + 1) p h t)"
    using IH(3) by (intro link_sealed [OF h hex]) (auto simp: p tip)
  then have "linked env tenant None None (?rows @ [sealed_row uuid (length ?rows + 1) p h t])"
    using IH(1) by (simp add: linked_append p)
  moreover have "foldl (extend_chain env) [] (ops @ [op]) = ?rows @ [sealed_row uuid (length ?rows + 1) p h t]"
    by (simp add: op extend_chain_def h)
  moreover have "truthy_text (br_signature (sealed_row uuid (length ?rows + 1) p h t))"
    using hex64_ne [OF hex] by (simp add: sealed_row_def truthy_text_def)
  ultimately show ?case using IH p len by (simp add: sealed_row_def)
qed simp

lemma positions_up_to_nine: "ascending None (map (\<lambda>k. Str (nat_str k)) [1..<Suc n]) \<longleftrightarrow> n \<le> 9"
proof
  assume a: "ascending None (map (\<lambda>k. Str (nat_str k)) [1..<Suc n])"
  show "n \<le> 9"
  proof (rule ccontr)
    assume "\<not> n \<le> 9"
    then have "take 10 [1..<Suc n] = [1..<11]" by (simp add: take_upt del: upt_Suc)
    then have "ascending None (map (\<lambda>k. Str (nat_str k)) [1..<11])"
      using ascending_prefix [OF a, of 10] by (simp add: take_map del: upt_Suc)
    then show False by code_simp
  qed
next
  assume "n \<le> 9"
  moreover have "ascending None (map (\<lambda>k. Str (nat_str k)) [1..<10])" by code_simp
  then have "ascending None (take n (map (\<lambda>k. Str (nat_str k)) [1..<10]))" by (rule ascending_prefix)
  ultimately show "ascending None (map (\<lambda>k. Str (nat_str k)) [1..<Suc n])"
    by (simp add: take_map take_upt del: upt_Suc)
qed

section \<open>Tampering\<close>

text \<open>What the hash of a row covers, as texts.\<close>

definition row_parts :: "chain_env \<Rightarrow> binding_row \<Rightarrow> string list" where
  "row_parts env r =
     [col_text (br_operator r), br_trace r, col_text (br_span r), br_action r, col_text (ch_canon env (br_auth r)),
      col_text (ch_canon env (br_payload r)), ch_iso env (br_signed r)]"

definition bar_free :: "chain_env \<Rightarrow> binding_row \<Rightarrow> bool" where
  "bar_free env r = (\<forall>s\<in>set (row_parts env r). CHR ''|'' \<notin> set s)"

definition payload_parts :: "chain_env \<Rightarrow> binding_payload \<Rightarrow> int \<Rightarrow> string list" where
  "payload_parts env p t = [bp_operatorHash p, bp_traceId p, bp_spanId p, bp_actionType p,
     col_text (ch_canon env (bp_authContext p)), col_text (ch_canon env (bp_actionPayload p)), ch_iso env t]"

lemma extend_chain_parts:
  "\<forall>(u, p, t)\<in>set ops. canonical env p \<Longrightarrow>
   map (row_parts env) (foldl (extend_chain env) rows ops) = map (row_parts env) rows @ map (\<lambda>(u, p, t). payload_parts env p t) ops \<and>
   map br_trace (foldl (extend_chain env) rows ops) = map br_trace rows @ map (\<lambda>(u, p, t). bp_traceId p) ops"
proof (induction ops arbitrary: rows)
  case (Cons op ops)
  obtain u p t where op: "op = (u, p, t)" by (cases op) blast
  then obtain h where h: "computeChainHash env rows p (ch_iso env t) = Inr h"
    using Cons.prems by (auto simp: computeChainHash_def canonical_def Let_def)
  have "row_parts env (sealed_row u k p h t) = payload_parts env p t" "br_trace (sealed_row u k p h t) = bp_traceId p" for k
    by (simp_all add: row_parts_def payload_parts_def sealed_row_def col_text_def [of "Some s" for s])
  then show ?case using Cons.IH [of "extend_chain env rows op"] Cons.prems by (simp add: op extend_chain_def h)
qed simp

lemma row_hash_Some: "row_hash env r = Some h \<Longrightarrow> h = ch_sha env (chain_block (br_previous r) (row_parts env r))"
  by (auto simp: row_hash_def row_parts_def Let_def split: if_splits)

lemma genesis_no_bar: "CHR ''|'' \<notin> set ''GENESIS_BLOCK_ROOT_INVARIANT''"
  by simp

definition hash_link :: "string option \<Rightarrow> bool" where
  "hash_link x = (case x of None \<Rightarrow> True | Some s \<Rightarrow> hex64 s)"

lemma chain_block_eq:
  assumes "chain_block x ps = chain_block y qs" "hash_link x" "hash_link y"
    and "\<forall>s\<in>set ps. CHR ''|'' \<notin> set s" "\<forall>s\<in>set qs. CHR ''|'' \<notin> set s"
  shows "x = y \<and> ps = qs"
proof -
  let ?h = "\<lambda>x. if truthy_text x then col_text x else ''GENESIS_BLOCK_ROOT_INVARIANT''"
  have free: "CHR ''|'' \<notin> set (?h z)" if "hash_link z" for z
    using that genesis_no_bar by (cases z) (auto simp: hash_link_def truthy_text_def col_text_def hex64_no_bar simp del: set_simps)
  have "split_on (CHR ''|'') (join ''|'' (?h x # ps)) = split_on (CHR ''|'') (join ''|'' (?h y # qs))"
    using assms(1) by (simp add: chain_block_def)
  then have eq: "?h x # ps = ?h y # qs"
    using split_on_join [of "?h x # ps" "CHR ''|''"] split_on_join [of "?h y # qs" "CHR ''|''"] free [OF assms(2)] free [OF assms(3)] assms(4,5)
    by auto
  have "x = y"
    using eq assms(2,3) hex64_ne hex64_not_genesis
    by (cases x; cases y) (auto simp: hash_link_def truthy_text_def col_text_def split: if_splits)
  then show ?thesis using eq by simp
qed

lemma tamper_law:
  assumes "linked env tenant None None xs" "linked env tenant None None ys" "xs \<noteq> []" "ys \<noteq> []"
    and "br_signature (last xs) = br_signature (last ys)"
    and "\<forall>s. hex64 (ch_sha env s)"
    and "inj_on (ch_sha env) ((\<lambda>r. chain_block (br_previous r) (row_parts env r)) ` (set xs \<union> set ys))"
    and "\<forall>r\<in>set xs \<union> set ys. bar_free env r"
  shows "map (row_parts env) xs = map (row_parts env) ys"
  using assms
proof (induction xs arbitrary: ys rule: rev_induct)
  case (snoc x xs)
  obtain ys' y where ys: "ys = ys' @ [y]" using snoc.prems(4) by (cases ys rule: rev_cases) auto
  have lx: "linked env tenant None None xs"
    "link_ok env tenant (if xs = [] then None else br_signature (last xs)) (if xs = [] then None else br_root (last xs)) x"
    using snoc.prems(1) by (simp_all add: linked_append)
  have ly: "linked env tenant None None ys'"
    "link_ok env tenant (if ys' = [] then None else br_signature (last ys')) (if ys' = [] then None else br_root (last ys')) y"
    using snoc.prems(2) by (simp_all add: ys linked_append)
  have sig: "\<exists>s. br_signature r = Some (ch_sha env s)" if "linked env tenant p a rs" "r \<in> set rs" for p a rs r
    using that
  proof (induction rs arbitrary: p a)
    case (Cons q rs)
    show ?case
    proof (cases "r = q")
      case True
      then obtain h where "row_hash env q = Some h" "br_signature q = Some h" using Cons.prems(1) by (auto simp: link_ok_def)
      then show ?thesis using row_hash_Some True by blast
    next
      case False
      then show ?thesis using Cons by auto
    qed
  qed simp
  obtain hx where hx: "row_hash env x = Some hx" "br_signature x = Some hx" using lx(2) by (auto simp: link_ok_def)
  obtain hy where hy: "row_hash env y = Some hy" "br_signature y = Some hy" using ly(2) by (auto simp: link_ok_def)
  have "ch_sha env (chain_block (br_previous x) (row_parts env x)) = ch_sha env (chain_block (br_previous y) (row_parts env y))"
    using snoc.prems(5) row_hash_Some [OF hx(1)] row_hash_Some [OF hy(1)] hx(2) hy(2) by (simp add: ys)
  then have block: "chain_block (br_previous x) (row_parts env x) = chain_block (br_previous y) (row_parts env y)"
    by (rule inj_onD [OF snoc.prems(7)]) (simp_all add: ys)
  have px: "br_previous x = (if xs = [] then None else br_signature (last xs))" using lx(2) by (simp add: link_ok_def)
  have py: "br_previous y = (if ys' = [] then None else br_signature (last ys'))" using ly(2) by (simp add: link_ok_def)
  have hl: "hash_link (br_signature r)" if "linked env tenant p a rs" "r \<in> set rs" for p a rs r
    using sig [OF that] snoc.prems(6) by (auto simp: hash_link_def)
  have "hash_link (br_previous x)" using hl [OF lx(1), of "last xs"] by (auto simp: px hash_link_def)
  moreover have "hash_link (br_previous y)" using hl [OF ly(1), of "last ys'"] by (auto simp: py hash_link_def)
  moreover have "bar_free env x" "bar_free env y" using snoc.prems(8) by (auto simp: ys)
  ultimately have same: "br_previous x = br_previous y" "row_parts env x = row_parts env y"
    using chain_block_eq [OF block] by (auto simp: bar_free_def)
  have ne: "xs \<noteq> [] \<Longrightarrow> br_signature (last xs) \<noteq> None" "ys' \<noteq> [] \<Longrightarrow> br_signature (last ys') \<noteq> None"
    using sig [OF lx(1), of "last xs"] sig [OF ly(1), of "last ys'"] by auto
  have "map (row_parts env) xs = map (row_parts env) ys'"
  proof (cases "xs = []")
    case True
    then have "ys' = []" using same(1) px py ne(2) by (auto split: if_splits)
    then show ?thesis using True by simp
  next
    case False
    then have ne': "ys' \<noteq> []" using same(1) px py ne(1) by (auto split: if_splits)
    have "inj_on (ch_sha env) ((\<lambda>r. chain_block (br_previous r) (row_parts env r)) ` (set xs \<union> set ys'))"
      by (rule inj_on_subset [OF snoc.prems(7)]) (auto simp: ys)
    then show ?thesis using False ne' lx(1) ly(1) snoc.prems(6,8) same(1) px py by (intro snoc.IH) (auto simp: ys)
  qed
  then show ?case using same(2) by (simp add: ys)
qed simp

text \<open>Recomputing the hashes after the first row takes the hash function alone.\<close>

fun reseal :: "chain_env \<Rightarrow> string option \<Rightarrow> string option \<Rightarrow> ledger \<Rightarrow> ledger" where
  "reseal env previous anchor [] = []"
| "reseal env previous anchor (r # rs) =
     (let r' = r\<lparr>br_previous := previous, br_root := anchor\<rparr>;
          r'' = r'\<lparr>br_signature := row_hash env r'\<rparr>
      in r'' # reseal env (br_signature r'') anchor rs)"

lemma row_hash_cong [simp]: "row_hash env (r\<lparr>br_signature := x\<rparr>) = row_hash env r"
  by (simp add: row_hash_def Let_def)

lemma row_hash_canonical:
  "row_hash env r \<noteq> None \<longleftrightarrow> truthy_text (ch_canon env (br_auth r)) \<and> truthy_text (ch_canon env (br_payload r))"
  by (simp add: row_hash_def Let_def)

lemma reseal_linked:
  assumes "\<forall>r\<in>set rs. truthy_text (ch_canon env (br_auth r)) \<and> truthy_text (ch_canon env (br_payload r))"
    and "truthy_text previous" "\<forall>s. hex64 (ch_sha env s)"
  shows "linked env tenant previous anchor (reseal env previous anchor rs)"
  using assms
proof (induction rs arbitrary: previous)
  case (Cons r rs)
  let ?r = "r\<lparr>br_previous := previous, br_root := anchor\<rparr>"
  have "row_hash env ?r \<noteq> None" unfolding row_hash_canonical using Cons.prems(1) by simp
  then obtain h where h: "row_hash env ?r = Some h" by blast
  then have "hex64 h" using Cons.prems(3) row_hash_Some [OF h] by simp
  then have "truthy_text (Some h)" by (auto simp: truthy_text_def hex64_def)
  then show ?case using Cons.IH [of "Some h"] Cons.prems h by (simp add: Let_def link_ok_def expected_root_def)
qed simp

lemma reseal_positions: "map br_position (reseal env previous anchor rs) = map br_position rs"
  by (induction rs arbitrary: previous) (simp_all add: Let_def)

lemma reseal_secret_free: "reseal (env\<lparr>ch_secret_setting := x\<rparr>) previous anchor rs = reseal env previous anchor rs"
proof -
  have "row_hash (env\<lparr>ch_secret_setting := x\<rparr>) r = row_hash env r" for r by (simp add: row_hash_def Let_def)
  then show ?thesis by (induction rs arbitrary: previous) (simp_all add: Let_def)
qed

lemma integrity_valid:
  "verifyChainIntegrity env fs columns rows tenant None = Inr Chain_valid \<longleftrightarrow>
     set VERIFY_COLUMNS \<subseteq> columns \<and> verify_rows env tenant None None None (tenant_chain tenant rows) = Chain_valid"
  by (simp add: verifyChainIntegrity_def Let_def split: option.split)

lemma integrity_validD:
  "verifyChainIntegrity env fs columns rows tenant trace = Inr Chain_valid \<Longrightarrow>
     set VERIFY_COLUMNS \<subseteq> columns \<and> verify_rows env tenant None None None (tenant_chain tenant rows) = Chain_valid"
  by (auto simp: verifyChainIntegrity_def Let_def split: option.splits if_splits)

lemma tenant_chain_sorted: "sorted (map br_position (tenant_chain tenant rows))"
  by (simp add: tenant_chain_def)

lemma tenant_chain_tenant: "r \<in> set (tenant_chain tenant rows) \<Longrightarrow> br_tenant r = Some tenant"
  by (simp add: tenant_chain_def)

text \<open>A run of appends through the stored procedure.\<close>

definition append_run :: "ledger \<times> string list \<Rightarrow>
  ((string \<times> string) \<times> nat \<times> binding_payload \<times> string option \<times> string \<times> int \<times> (bool \<times> bool)) list \<Rightarrow> ledger \<times> string list" where
  "append_run s ops =
     foldl (\<lambda>s (ids, position, p, previous, signature, t, outcomes).
              fst (appendBindingWithForkPrevention ids position p previous signature t outcomes s)) s ops"

lemma append_keeps_rootless:
  "\<forall>r\<in>set (fst s). br_root r = None \<Longrightarrow>
   \<forall>r\<in>set (fst (fst (appendBindingWithForkPrevention ids k p prev sig t out s))). br_root r = None"
  by (auto simp: appendBindingWithForkPrevention_def Let_def appended_row_def case_prod_beta split: if_splits)

lemma append_run_rootless: "\<forall>r\<in>set (fst s). br_root r = None \<Longrightarrow> \<forall>r\<in>set (fst (append_run s ops)). br_root r = None"
proof (induction ops arbitrary: s)
  case (Cons op ops)
  obtain ids k p prev sig t out where op: "op = (ids, k, p, prev, sig, t, out)" by (cases op) blast
  show ?case using Cons.IH [OF append_keeps_rootless [OF Cons.prems, of ids k p prev sig t out]] by (simp add: op append_run_def)
qed (simp add: append_run_def)

lemma rootless_head_invalid:
  assumes "tenant_chain tenant rows = r # rs" "br_root r = None"
  shows "verify_rows env tenant None None None (tenant_chain tenant rows) \<noteq> Chain_valid"
  unfolding verify_rows_valid using assms by (auto simp: link_ok_def expected_root_def truthy_text_def)

lemma trace_fault_broken:
  assumes "br_signature x \<noteq> None" "br_previous y \<noteq> br_signature x"
  shows "trace_fault env p h (as @ x # y # bs) \<noteq> None"
proof (induction as arbitrary: p h)
  case Nil
  then show ?case using assms by (simp add: Let_def)
next
  case (Cons a as)
  then show ?case by (simp add: Let_def)
qed

lemma chain_nine_law:
  assumes "\<forall>(u, p, t)\<in>set ops. bp_tenantId p = tenant \<and> canonical env p"
    and "\<forall>s. hex64 (ch_sha env s)" and "\<forall>n. ch_bigint env n = Str (nat_str n)" and "set VERIFY_COLUMNS \<subseteq> columns"
  shows "verifyChainIntegrity env fs columns (foldl (extend_chain env) [] ops) tenant None = Inr Chain_valid \<longleftrightarrow> length ops \<le> 9"
proof -
  let ?rows = "foldl (extend_chain env) [] ops"
  have law: "linked env tenant None None ?rows" "map br_position ?rows = [1..<Suc (length ops)]"
    "\<forall>r\<in>set ?rows. br_tenant r = Some tenant"
    using extend_chain_law [OF assms(1,2)] by blast+
  have "tenant_chain tenant ?rows = ?rows" using law by (intro tenant_chain_all) (simp_all del: upt_Suc)
  moreover have "map (\<lambda>r. ch_bigint env (br_position r)) ?rows = map (\<lambda>k. Str (nat_str k)) [1..<Suc (length ops)]"
    using assms(3) law(2) by (metis (no_types, lifting) list.map_comp map_eq_conv comp_apply)
  ultimately show ?thesis
    using assms(4) law(1) positions_up_to_nine [of "length ops"] by (simp add: integrity_valid verify_rows_valid del: upt_Suc)
qed

lemma signature_hex: "link_ok env tenant p a r \<Longrightarrow> \<forall>s. hex64 (ch_sha env s) \<Longrightarrow> truthy_text (br_signature r)"
proof -
  assume ok: "link_ok env tenant p a r" and hex: "\<forall>s. hex64 (ch_sha env s)"
  then obtain h where h: "row_hash env r = Some h" "br_signature r = Some h" by (auto simp: link_ok_def)
  then have "hex64 h" using hex row_hash_Some by blast
  then show "truthy_text (br_signature r)" using hex64_ne h(2) by (auto simp: truthy_text_def)
qed

section \<open>Properties\<close>

text \<open>
  A ledger written as the verification expects, one binding after the other with every column filled
  and positions 1, 2, 3, ..., is accepted exactly when it has at most nine bindings: the driver delivers
  the position as decimal text, and the comparison of texts puts 10 before 9. Every longer correct ledger
  is reported as broken.
\<close>

theorem chain_verifies_up_to_nine:
  assumes "\<forall>(u, p, t)\<in>set ops. bp_tenantId p = tenant \<and> canonical env p"
    and "\<forall>s. hex64 (ch_sha env s)" and "\<forall>n. ch_bigint env n = Str (nat_str n)" and "set VERIFY_COLUMNS \<subseteq> columns"
  shows "verifyChainIntegrity env fs columns (foldl (extend_chain env) [] ops) tenant None = Inr Chain_valid \<longleftrightarrow> length ops \<le> 9"
  by (rule chain_nine_law [OF assms])

definition sample_chain :: chain_env where
  "sample_chain = \<lparr>ch_sha = (\<lambda>_. replicate 64 (CHR ''0'')), ch_canon = (\<lambda>_. Some ''{}''), ch_iso = (\<lambda>_. ''2026-01-01T00:00:00.000Z''),
     ch_bigint = (\<lambda>n. Str (nat_str n)), ch_secret_setting = None\<rparr>"

definition sample_payload :: "string \<Rightarrow> binding_payload" where
  "sample_payload trace = \<lparr>bp_tenantId = ''acme'', bp_operatorHash = ''op'', bp_traceId = trace, bp_spanId = ''span'',
     bp_actionType = ''DECISION_APPROVE'', bp_authContext = Obj [], bp_actionPayload = Obj []\<rparr>"

lemma sample_chain_simps [simp]:
  "hex64 (ch_sha sample_chain s)" "ch_bigint sample_chain n = Str (nat_str n)" "canonical sample_chain p"
  "ch_canon sample_chain j = Some ''{}''" "ch_iso sample_chain t = ''2026-01-01T00:00:00.000Z''"
  by (simp_all add: sample_chain_def hex64_def canonical_def truthy_text_def list_all_iff)

text \<open>The tenth approval makes the ledger invalid.\<close>

theorem chain_verifies_up_to_nine_witness:
  "verifyChainIntegrity sample_chain None (set VERIFY_COLUMNS)
     (foldl (extend_chain sample_chain) [] (map (\<lambda>k. (nat_str k, sample_payload ''t'', int k)) [0..<10])) ''acme'' None \<noteq> Inr Chain_valid"
  using chain_verifies_up_to_nine [of "map (\<lambda>k. (nat_str k, sample_payload ''t'', int k)) [0..<10]" "''acme''" sample_chain "set VERIFY_COLUMNS" None]
  by (auto simp: sample_payload_def)

text \<open>
  C17: An accepted ledger is tamper evident up to its last hash: two ledgers of a tenant that are accepted
  and end in the same hash record the same operators, traces, spans, actions, contexts, payloads and times
  in the same order, when no hashed text contains the separator and the digests of the blocks at hand do
  not collide.
\<close>

theorem accepted_ledgers_agree:
  assumes "verifyChainIntegrity env fs columns xs tenant t1 = Inr Chain_valid"
    and "verifyChainIntegrity env fs columns ys tenant t2 = Inr Chain_valid"
    and "tenant_chain tenant xs \<noteq> []" "tenant_chain tenant ys \<noteq> []"
    and "br_signature (last (tenant_chain tenant xs)) = br_signature (last (tenant_chain tenant ys))"
    and "\<forall>s. hex64 (ch_sha env s)"
    and "inj_on (ch_sha env) ((\<lambda>r. chain_block (br_previous r) (row_parts env r)) ` (set (tenant_chain tenant xs) \<union> set (tenant_chain tenant ys)))"
    and "\<forall>r\<in>set (tenant_chain tenant xs) \<union> set (tenant_chain tenant ys). bar_free env r"
  shows "map (row_parts env) (tenant_chain tenant xs) = map (row_parts env) (tenant_chain tenant ys)"
proof (rule tamper_law [OF _ _ assms(3-8)])
  show "linked env tenant None None (tenant_chain tenant xs)" "linked env tenant None None (tenant_chain tenant ys)"
    using integrity_validD [OF assms(1)] integrity_validD [OF assms(2)] by (simp_all add: verify_rows_valid)
qed

definition sample_ledger :: "string \<Rightarrow> ledger" where
  "sample_ledger uuid = foldl (extend_chain sample_chain) [] [(uuid, sample_payload ''t'', 0)]"

lemma sample_ledger_eq:
  "sample_ledger uuid = [sealed_row uuid 1 (sample_payload ''t'')
     \<lparr>cx_current = replicate 64 (CHR ''0''), cx_previous = None, cx_root = Some (replicate 64 (CHR ''0''))\<rparr> 0]"
  by (simp add: sample_ledger_def extend_chain_def computeChainHash_def Let_def truthy_text_def chain_tip_def tenant_chain_def
      root_anchor_def sample_chain_def)

lemma sample_ledger_chain: "tenant_chain ''acme'' (sample_ledger uuid) = sample_ledger uuid"
  by (simp add: sample_ledger_eq tenant_chain_def sealed_row_def sample_payload_def)

lemma sample_ledger_valid: "verifyChainIntegrity sample_chain None (set VERIFY_COLUMNS) (sample_ledger uuid) ''acme'' None = Inr Chain_valid"
proof -
  have "linked sample_chain ''acme'' None None (sample_ledger uuid)"
    using extend_chain_law [of "[(uuid, sample_payload ''t'', 0)]" "''acme''" sample_chain]
    by (simp add: sample_ledger_def sample_payload_def)
  then show ?thesis unfolding integrity_valid sample_ledger_chain verify_rows_valid by (simp add: sample_ledger_eq)
qed

theorem accepted_ledgers_agree_witness:
  "map (row_parts sample_chain) (tenant_chain ''acme'' (sample_ledger ''u1'')) = map (row_parts sample_chain) (tenant_chain ''acme'' (sample_ledger ''u2''))"
proof (rule accepted_ledgers_agree [OF sample_ledger_valid sample_ledger_valid])
  show "inj_on (ch_sha sample_chain) ((\<lambda>r. chain_block (br_previous r) (row_parts sample_chain r)) `
      (set (tenant_chain ''acme'' (sample_ledger ''u1'')) \<union> set (tenant_chain ''acme'' (sample_ledger ''u2''))))"
    unfolding sample_ledger_chain by (simp add: sample_ledger_eq sealed_row_def row_parts_def inj_on_def)
  show "\<forall>r\<in>set (tenant_chain ''acme'' (sample_ledger ''u1'')) \<union> set (tenant_chain ''acme'' (sample_ledger ''u2'')). bar_free sample_chain r"
    unfolding sample_ledger_chain by (simp add: sample_ledger_eq sealed_row_def row_parts_def bar_free_def sample_payload_def col_text_def)
qed (simp_all only: sample_ledger_chain, simp_all add: sample_ledger_eq sealed_row_def)

text \<open>
  The root hash anchors the first binding only: of any accepted ledger, everything after the first
  row can be cut off or replaced by other contents whose hashes are recomputed without the chain secret,
  and the result is accepted again.
\<close>

theorem history_rewritable:
  assumes "verifyChainIntegrity env fs columns rows tenant t = Inr Chain_valid"
    and "tenant_chain tenant rows = first # rest" and "map br_position rest' = take n (map br_position rest)"
    and "\<forall>r\<in>set rest'. truthy_text (ch_canon env (br_auth r)) \<and> truthy_text (ch_canon env (br_payload r))"
    and "\<forall>r\<in>set rest'. br_tenant r = Some tenant" and "\<forall>s. hex64 (ch_sha env s)"
  shows "verifyChainIntegrity env fs columns
    (first # reseal (env\<lparr>ch_secret_setting := None\<rparr>) (br_signature first) (br_root first) rest') tenant None = Inr Chain_valid"
proof -
  let ?forged = "reseal env (br_signature first) (br_root first) rest'"
  have cols: "set VERIFY_COLUMNS \<subseteq> columns" and ok: "verify_rows env tenant None None None (first # rest) = Chain_valid"
    using integrity_validD [OF assms(1)] assms(2) by auto
  have pos: "map br_position (first # ?forged) = take (Suc n) (map br_position (first # rest))"
    using assms(3) by (simp add: reseal_positions)
  have "map (\<lambda>r. ch_bigint env (br_position r)) (first # ?forged) =
      take (Suc n) (map (\<lambda>r. ch_bigint env (br_position r)) (first # rest))"
    using arg_cong [OF pos, of "map (ch_bigint env)"] by (simp add: take_map comp_def)
  then have asc: "ascending None (map (\<lambda>r. ch_bigint env (br_position r)) (first # ?forged))"
    using ok ascending_prefix unfolding verify_rows_valid by metis
  have first: "link_ok env tenant None None first" using ok by (simp add: verify_rows_valid del: verify_rows.simps)
  then have "truthy_text (br_signature first)"
    using assms(6) by (rule signature_hex)
  then have "linked env tenant None None (first # ?forged)"
    using first reseal_linked [OF assms(4) _ assms(6)] by simp
  then have "verify_rows env tenant None None None (first # ?forged) = Chain_valid" using asc by (simp only: verify_rows_valid simp_thms)
  moreover have tenants: "\<forall>r\<in>set (reseal env p a rs). br_tenant r = Some tenant" if "\<forall>r\<in>set rs. br_tenant r = Some tenant" for p a rs
    using that by (induction rs arbitrary: p) (simp_all add: Let_def)
  have "sorted (map br_position (first # rest))" using tenant_chain_sorted [of tenant rows] assms(2) by simp
  then have "sorted (map br_position (first # ?forged))" unfolding pos by (rule sorted_wrt_take)
  moreover have "br_tenant first = Some tenant" using tenant_chain_tenant [of first tenant rows] assms(2) by simp
  ultimately have "tenant_chain tenant (first # ?forged) = first # ?forged"
    using tenants [OF assms(5)] by (intro tenant_chain_all) auto
  then show ?thesis
    using cols \<open>verify_rows env tenant None None None (first # ?forged) = Chain_valid\<close>
    by (simp only: integrity_valid reseal_secret_free simp_thms)
qed

text \<open>The second of two approvals is replaced.\<close>

definition two_approvals :: ledger where
  "two_approvals = foldl (extend_chain sample_chain) [] [(''u1'', sample_payload ''t'', 0), (''u2'', sample_payload ''t'', 1)]"

theorem history_rewritable_witness:
  "\<exists>first rest. two_approvals = [first, rest] \<and>
     verifyChainIntegrity sample_chain None (set VERIFY_COLUMNS)
       (first # reseal (sample_chain\<lparr>ch_secret_setting := None\<rparr>) (br_signature first) (br_root first) [rest\<lparr>br_action := ''DECISION_REJECT''\<rparr>])
       ''acme'' None = Inr Chain_valid"
proof -
  let ?ops = "[(''u1'', sample_payload ''t'', 0), (''u2'', sample_payload ''t'', 1 :: int)]"
  have pos: "map br_position two_approvals = [1, 2]" and ten: "\<forall>r\<in>set two_approvals. br_tenant r = Some ''acme''"
    using extend_chain_law [of ?ops "''acme''" sample_chain] by (simp_all add: two_approvals_def sample_payload_def upt_rec)
  have chain: "tenant_chain ''acme'' two_approvals = two_approvals" using pos ten by (intro tenant_chain_all) auto
  have valid: "verifyChainIntegrity sample_chain None (set VERIFY_COLUMNS) two_approvals ''acme'' None = Inr Chain_valid"
    unfolding two_approvals_def by (subst chain_nine_law [where tenant = "''acme''"]) (simp_all add: sample_payload_def)
  obtain first rest where fr: "two_approvals = [first, rest]" using pos by (auto simp: map_eq_Cons_conv)
  then have c: "tenant_chain ''acme'' two_approvals = first # [rest]" by (simp add: chain)
  have t: "br_tenant rest = Some ''acme''" using ten by (simp add: fr)
  have p: "map br_position [rest\<lparr>br_action := ''DECISION_REJECT''\<rparr>] = take 1 (map br_position [rest])" by simp
  have "verifyChainIntegrity sample_chain None (set VERIFY_COLUMNS)
       (first # reseal (sample_chain\<lparr>ch_secret_setting := None\<rparr>) (br_signature first) (br_root first) [rest\<lparr>br_action := ''DECISION_REJECT''\<rparr>])
       ''acme'' None = Inr Chain_valid"
    using history_rewritable [OF valid c p] t by (simp add: truthy_text_def)
  then show ?thesis using fr by blast
qed

text \<open>
  No ledger written through the append procedure is ever accepted: it leaves the root hash empty, so
  after any run of appends, refused and failed ones included, the verification of a tenant with at
  least one binding does not report a valid chain.
\<close>

theorem appended_ledger_never_verifies:
  assumes "append_run ([], []) ops = (rows, fork_log)" and "\<exists>r\<in>set rows. br_tenant r = Some tenant"
  shows "verifyChainIntegrity env fs columns rows tenant t \<noteq> Inr Chain_valid"
proof -
  obtain r where "r \<in> set (tenant_chain tenant rows)" using assms(2) by (auto simp: tenant_chain_def)
  then obtain r rs where r: "tenant_chain tenant rows = r # rs" by (cases "tenant_chain tenant rows") simp_all
  then have "r \<in> set (tenant_chain tenant rows)" by simp
  then have "r \<in> set rows" by (simp add: tenant_chain_def)
  then have "br_root r = None" using append_run_rootless [of "([], [])" ops] assms(1) by simp
  then show ?thesis using rootless_head_invalid [OF r] integrity_validD by blast
qed

theorem appended_ledger_never_verifies_witness:
  "verifyChainIntegrity sample_chain None (set VERIFY_COLUMNS)
     (fst (append_run ([], []) [((''u'', ''b''), 1, sample_payload ''t'', None, replicate 64 (CHR ''0''), 0, (True, True))])) ''acme'' None
   \<noteq> Inr Chain_valid"
proof -
  let ?ops = "[((''u'', ''b''), 1, sample_payload ''t'', None, replicate 64 (CHR ''0''), 0, (True, True))]"
  have "append_run ([], []) ?ops = (fst (append_run ([], []) ?ops), snd (append_run ([], []) ?ops))" by simp
  moreover have "\<exists>r\<in>set (fst (append_run ([], []) ?ops)). br_tenant r = Some ''acme''"
    by (simp add: append_run_def appendBindingWithForkPrevention_def Let_def ledger_unique_def appended_row_def sample_payload_def)
  ultimately show ?thesis by (rule appended_ledger_never_verifies)
qed

text \<open>
  The two checks disagree about interleaved traces: the hashes link the bindings of a tenant, the
  trace check expects them to link the bindings of a trace. When an accepted ledger holds two consecutive
  bindings of a trace with a binding of another trace between them, and its hashes are distinct, the
  trace check reports a broken pointer.
\<close>

theorem trace_check_rejects_interleaved:
  assumes "verifyChainIntegrity env fs columns rows tenant t = Inr Chain_valid" and "\<forall>s. hex64 (ch_sha env s)"
    and "tenant_chain tenant rows = as @ x # bs @ y # cs" and "bs \<noteq> []"
    and "br_trace x = trace" "br_trace y = trace" "\<forall>r\<in>set bs. br_trace r \<noteq> trace"
    and "distinct (map br_signature (tenant_chain tenant rows))"
  shows "\<not> ci_valid (verifyTraceIntegrity env True rows tenant trace)"
proof -
  let ?own = "filter (\<lambda>r. br_trace r = trace) (tenant_chain tenant rows)"
  have lk: "linked env tenant None None (as @ x # bs @ y # cs)"
    using integrity_validD [OF assms(1)] by (simp add: verify_rows_valid assms(3))
  have own: "?own = filter (\<lambda>r. br_trace r = trace) as @ x # y # filter (\<lambda>r. br_trace r = trace) cs"
    using assms(5-7) by (simp add: assms(3) filter_empty_conv)
  have "\<exists>p a. linked env tenant p a (x # bs @ y # cs)" using lk unfolding linked_append by blast
  then obtain p a where l: "link_ok env tenant p a x" "linked env tenant (br_signature x) (br_root x) (bs @ y # cs)"
    unfolding linked.simps by blast
  have "br_previous y = br_signature (last bs)" using l(2) assms(4) by (simp add: linked_append link_ok_def)
  moreover have "br_signature (last bs) \<noteq> br_signature x"
    using assms(8) imageI [OF last_in_set [OF assms(4)], of br_signature] by (auto simp: assms(3))
  moreover have "br_signature x \<noteq> None" using l(1) by (auto simp: link_ok_def)
  ultimately have "trace_fault env None None ?own \<noteq> None" unfolding own by (intro trace_fault_broken) auto
  then show ?thesis by (auto simp: verifyTraceIntegrity_def Let_def)
qed

text \<open>A digest that only depends on the length of its text tells the three bindings apart.\<close>

definition length_chain :: chain_env where
  "length_chain = sample_chain\<lparr>ch_sha := (\<lambda>s. replicate 64 (''0123456789abcdef'' ! (length s mod 16)))\<rparr>"

lemma hex64_replicate: "c \<in> set ''0123456789abcdef'' \<Longrightarrow> hex64 (replicate 64 c)"
  unfolding hex64_def list_all_iff by (metis in_set_replicate length_replicate)

lemma length_chain_simps: "hex64 (ch_sha length_chain s)" "ch_bigint length_chain n = Str (nat_str n)" "canonical length_chain p"
proof -
  have "''0123456789abcdef'' ! (length s mod 16) \<in> set ''0123456789abcdef''" by (rule nth_mem) simp
  moreover have "ch_sha length_chain s = replicate 64 (''0123456789abcdef'' ! (length s mod 16))" by (simp add: length_chain_def)
  ultimately show "hex64 (ch_sha length_chain s)" using hex64_replicate by metis
qed (simp_all add: length_chain_def sample_chain_def canonical_def truthy_text_def)

definition interleaved :: ledger where
  "interleaved = foldl (extend_chain length_chain) []
     [(''u1'', sample_payload ''t'', 0), (''u2'', sample_payload ''other'', 1), (''u3'', sample_payload ''t'', 2)]"

theorem trace_check_rejects_interleaved_witness:
  "verifyChainIntegrity length_chain None (set VERIFY_COLUMNS) interleaved ''acme'' None = Inr Chain_valid \<and>
   \<not> ci_valid (verifyTraceIntegrity length_chain True interleaved ''acme'' ''t'')"
proof -
  let ?ops = "[(''u1'', sample_payload ''t'', 0), (''u2'', sample_payload ''other'', 1), (''u3'', sample_payload ''t'', 2 :: int)]"
  have a: "\<forall>(u, p, t)\<in>set ?ops. bp_tenantId p = ''acme'' \<and> canonical length_chain p"
    by (simp add: sample_payload_def length_chain_simps)
  have b: "\<forall>s. hex64 (ch_sha length_chain s)" using length_chain_simps(1) by blast
  have c: "length ?ops = 3" and e: "length ?ops \<le> 9" by simp_all
  have d: "\<forall>n. ch_bigint length_chain n = Str (nat_str n)" using length_chain_simps(2) by blast
  have "map br_position interleaved = [1..<Suc 3]" and ten: "\<forall>r\<in>set interleaved. br_tenant r = Some ''acme''"
    using extend_chain_law [OF a b] unfolding interleaved_def c by blast+
  then have pos: "map br_position interleaved = [1, 2, 3]" by (simp add: upt_rec)
  have chain: "tenant_chain ''acme'' interleaved = interleaved" using pos ten by (intro tenant_chain_all) auto
  have valid: "verifyChainIntegrity length_chain None (set VERIFY_COLUMNS) interleaved ''acme'' None = Inr Chain_valid"
    unfolding interleaved_def using chain_nine_law [OF a b d order.refl] e by blast
  have "\<forall>(u, p, t)\<in>set ?ops. canonical length_chain p" using a by blast
  note parts = extend_chain_parts [OF this, of "[]", folded interleaved_def]
  have traces: "map br_trace interleaved = [''t'', ''other'', ''t'']" using parts by (simp add: sample_payload_def)
  obtain x z y where xs: "interleaved = [x, z, y]" using pos by (auto simp: map_eq_Cons_conv)
  have "linked length_chain ''acme'' None None interleaved" using extend_chain_law [OF a b] unfolding interleaved_def by blast
  then have links: "br_previous x = None" "br_previous z = br_signature x" "br_previous y = br_signature z"
    "br_signature x = row_hash length_chain x" "br_signature z = row_hash length_chain z" "br_signature y = row_hash length_chain y"
    "row_hash length_chain x \<noteq> None" "row_hash length_chain z \<noteq> None" "row_hash length_chain y \<noteq> None"
    by (simp_all add: xs link_ok_def)
  then obtain hx hz hy where h: "row_hash length_chain x = Some hx" "row_hash length_chain z = Some hz" "row_hash length_chain y = Some hy" by blast
  let ?hex = "\<lambda>n. replicate 64 (''0123456789abcdef'' ! (n mod 16))"
  have sha: "ch_sha length_chain s = ?hex (length s)" for s by (simp add: length_chain_def)
  have "row_parts length_chain x = payload_parts length_chain (sample_payload ''t'') 0"
    "row_parts length_chain z = payload_parts length_chain (sample_payload ''other'') 1"
    "row_parts length_chain y = payload_parts length_chain (sample_payload ''t'') 2" using parts by (simp_all add: xs)
  note rp = this [unfolded payload_parts_def]
  have blocks: "length (chain_block None (row_parts length_chain x)) = 86"
    "length (chain_block (Some (?hex n)) (row_parts length_chain z)) = 126"
    "length (chain_block (Some (?hex n)) (row_parts length_chain y)) = 122" for n
    unfolding rp by (simp_all add: chain_block_def truthy_text_def col_text_def sample_payload_def length_chain_def sample_chain_def)
  have hx: "hx = ?hex 86" using row_hash_Some [OF h(1)] links(1) blocks(1) by (simp only: sha)
  have hz: "hz = ?hex 126" using row_hash_Some [OF h(2)] links(2,4) h(1) hx blocks(2) by (simp only: sha)
  have hy: "hy = ?hex 122" using row_hash_Some [OF h(3)] links(3,5) h(2) hz blocks(3) by (simp only: sha)
  have "distinct [hx, hz, hy]" unfolding hx hz hy by simp
  then have distinct: "distinct (map br_signature (tenant_chain ''acme'' interleaved))" unfolding chain unfolding xs using links(4-6) h by simp
  have "tenant_chain ''acme'' interleaved = [] @ x # [z] @ y # []" unfolding chain unfolding xs by simp
  from trace_check_rejects_interleaved [OF valid _ this _ _ _ _ distinct, of "''t''"] show ?thesis
    using traces valid by (simp add: length_chain_simps xs)
qed

end
