(* ===== verification/AuditRoutes.thy ===== *)
theory AuditRoutes
  imports AuditChain
begin

text \<open>
  The audit endpoints, \<open>apps/api/routes/immutable-audit-routes.ts\<close>, and their rate limiter,
  \<open>apps/api/services/audit-rate-limiter.ts\<close>. The router records an operator action by computing the
  chain hashes and inserting a row; which rows the indexes of the table accept is an argument.
\<close>

section \<open>Rate limiter\<close>

record rate_limit_config =
  rl_requestsPerMinute :: jsnum
  rl_burstSize :: jsnum

record token_bucket =
  tb_tokens :: jsnum
  tb_lastRefillAt :: int

type_synonym buckets = "string \<Rightarrow> token_bucket option"

record limit_answer =
  la_allowed :: bool
  la_remaining :: jsnum
  la_resetAt :: "int option"

definition maxTokens :: "rate_limit_config \<Rightarrow> jsnum" where
  "maxTokens cfg = jmin (rl_burstSize cfg) (rl_requestsPerMinute cfg)"

definition refill :: "rate_limit_config \<Rightarrow> int \<Rightarrow> token_bucket \<Rightarrow> jsnum" where
  "refill cfg now b =
     (let timeSinceRefill = jdiv (jdiv (Fin (of_int (now - tb_lastRefillAt b))) (Fin 1000)) (Fin 60);
          tokensToAdd = jmul timeSinceRefill (rl_requestsPerMinute cfg)
      in jmin (maxTokens cfg) (jadd (tb_tokens b) tokensToAdd))"

definition checkLimit :: "rate_limit_config \<Rightarrow> int \<Rightarrow> string \<Rightarrow> buckets \<Rightarrow> buckets \<times> limit_answer" where
  "checkLimit cfg now tenantId st =
     (let b = (case st tenantId of Some b \<Rightarrow> b | None \<Rightarrow> \<lparr>tb_tokens = maxTokens cfg, tb_lastRefillAt = now\<rparr>);
          tokens = refill cfg now b;
          allowed = jle (Fin 1) tokens;
          left = (if allowed then jsub tokens (Fin 1) else tokens);
          minutes = jdiv (jsub (maxTokens cfg) left) (rl_requestsPerMinute cfg)
      in (st(tenantId \<mapsto> \<lparr>tb_tokens = left, tb_lastRefillAt = now\<rparr>),
          \<lparr>la_allowed = allowed, la_remaining = jfloor left,
           la_resetAt = date_value (jadd (Fin (of_int now)) (jmul (jmul minutes (Fin 60)) (Fin 1000)))\<rparr>))"

definition reset :: "string \<Rightarrow> buckets \<Rightarrow> buckets" where
  "reset tenantId st = st(tenantId := None)"

definition bucket_state :: "string \<Rightarrow> buckets \<Rightarrow> token_bucket option" where
  "bucket_state tenantId st = st tenantId"

section \<open>Scopes of replays\<close>

text \<open>Reading a member of a payload that is no object gives undefined.\<close>

definition is_replay :: "string \<Rightarrow> js \<Rightarrow> bool" where
  "is_replay actionType payload =
     (actionType = ''REPLAY_AUTHORIZE'' \<or> js_member payload ''isReplay'' = Bool True \<or> js_member payload ''replayOf'' \<noteq> Undefined)"

definition validateReplayScope :: "string \<Rightarrow> js \<Rightarrow> string \<Rightarrow> string + string" where
  "validateReplayScope actionType payload requestedScope =
     (if is_replay actionType payload \<and> requestedScope = ''FULL_AUTOMATION''
      then Inl (''REPLAY_SCOPE_VIOLATION: Replayed actions cannot use FULL_AUTOMATION scope. '' @
             ''Scope must be ESCALATION_ONLY to require human approval on replay execution.'')
      else Inr (if is_replay actionType payload \<and> requestedScope = ''SUGGEST_ONLY'' then ''ESCALATION_ONLY'' else requestedScope))"

section \<open>Recording an action\<close>

record audit_user =
  us_user_id :: string
  us_tenant_id :: "string option"
  us_email :: string
  us_name :: "string option"
  us_role :: string
  us_forwarded_for :: "string option"
  us_user_agent :: "string option"

record action_body =
  ab_traceId :: "string option"
  ab_spanId :: "string option"
  ab_actionType :: "string option"
  ab_payload :: js
  ab_scope :: "string option"

record fresh_ids =
  fi_session :: string
  fi_context :: string
  fi_binding :: string
  fi_row :: string

datatype audit_response =
    Unauthenticated
  | Too_many "int option"
  | Bad_request string
  | Forbidden string
  | Not_found
  | Server_error
  | Created string string nat
  | Verified string bool

definition validActionTypes :: "operator_action list" where
  "validActionTypes = [TRACE_READ, DECISION_APPROVE, DECISION_REJECT, REPLAY_AUTHORIZE, REMEDIATION_APPROVE,
     ESCALATION_OVERRIDE, CONFIG_UPDATE, AUDIT_ACCESS]"

definition opt_member :: "string \<Rightarrow> string option \<Rightarrow> (string \<times> js) list" where
  "opt_member k x = (case x of Some s \<Rightarrow> [(k, Str s)] | None \<Rightarrow> [])"

definition session_json :: "chain_env \<Rightarrow> fresh_ids \<Rightarrow> int \<Rightarrow> audit_user \<Rightarrow> string \<Rightarrow> js" where
  "session_json env ids now u operatorHash =
     Obj ([(''sessionId'', Str (fi_session ids)), (''operatorHash'', Str operatorHash), (''userId'', Str (us_user_id u)),
           (''tenantId'', Str (col_text (us_tenant_id u))), (''email'', Str (us_email u)),
           (''name'', Str (if truthy_text (us_name u) then col_text (us_name u) else ''Unknown'')), (''role'', Str (us_role u)),
           (''loginAt'', Str (ch_iso env now))] @ opt_member ''ipAddress'' (us_forwarded_for u) @ opt_member ''userAgent'' (us_user_agent u))"

definition authorization_json :: "chain_env \<Rightarrow> fresh_ids \<Rightarrow> int \<Rightarrow> string \<Rightarrow> js" where
  "authorization_json env ids now scope =
     Obj [(''contextId'', Str (fi_context ids)), (''operatorSessionId'', Str (fi_session ids)), (''authorizationScope'', Str scope),
          (''grantedScopes'', Arr [Str ''traces:read'', Str ''decisions:approve'']),
          (''expiresAt'', Str (ch_iso env (now + 24 * 60 * 60 * 1000))), (''createdAt'', Str (ch_iso env now))]"

text \<open>The insert names twelve columns; the tenant, the operator hash, the span and the context stay NULL.\<close>

definition action_row ::
  "fresh_ids \<Rightarrow> nat \<Rightarrow> int \<Rightarrow> binding_payload \<Rightarrow> chain_hashes \<Rightarrow> js \<Rightarrow> binding_row" where
  "action_row ids position now p h session =
     \<lparr>br_id = fi_row ids, br_binding_id = fi_binding ids, br_tenant = None, br_trace = bp_traceId p, br_span = None,
      br_operator = None, br_action = bp_actionType p, br_auth = Null, br_payload = bp_actionPayload p,
      br_previous = cx_previous h, br_signature = Some (cx_current h), br_root = cx_root h, br_signed = now,
      br_position = position, br_session = session, br_authorization = bp_authContext p\<rparr>"

definition validate_action :: "action_body \<Rightarrow> audit_response + string" where
  "validate_action body =
     (if \<not> truthy_text (ab_traceId body) \<or> \<not> truthy_text (ab_spanId body) \<or> \<not> truthy_text (ab_actionType body) \<or>
         \<not> js_truthy (ab_payload body)
      then Inl (Bad_request ''traceId, spanId, actionType, and actionPayload are required'')
      else if col_text (ab_actionType body) \<notin> set (map action_name validActionTypes)
      then Inl (Bad_request (''Invalid actionType. Must be one of: '' @ join '', '' (map action_name validActionTypes)))
      else case validateReplayScope (col_text (ab_actionType body)) (ab_payload body)
                  (if truthy_text (ab_scope body) then col_text (ab_scope body) else ''LOCAL'') of
        Inl e \<Rightarrow> Inl (Forbidden e)
      | Inr scope \<Rightarrow> Inr scope)"

definition action_payload :: "chain_env \<Rightarrow> fresh_ids \<Rightarrow> int \<Rightarrow> audit_user \<Rightarrow> action_body \<Rightarrow> string \<Rightarrow> binding_payload" where
  "action_payload env ids now u body scope =
     \<lparr>bp_tenantId = col_text (us_tenant_id u), bp_operatorHash = ch_sha env (us_user_id u @ '':'' @ nat_str (nat now)),
      bp_traceId = col_text (ab_traceId body), bp_spanId = col_text (ab_spanId body), bp_actionType = col_text (ab_actionType body),
      bp_authContext = authorization_json env ids now scope, bp_actionPayload = ab_payload body\<rparr>"

definition recordOperatorAction ::
  "chain_env \<Rightarrow> (ledger \<Rightarrow> binding_row \<Rightarrow> bool) \<Rightarrow> fresh_ids \<Rightarrow> nat \<Rightarrow> int \<Rightarrow> audit_user \<Rightarrow> action_body \<Rightarrow> ledger \<Rightarrow>
   ledger \<times> audit_response" where
  "recordOperatorAction env accepts ids position now u body rows =
     (case validate_action body of
        Inl refused \<Rightarrow> (rows, refused)
      | Inr scope \<Rightarrow>
          (let p = action_payload env ids now u body scope
           in case computeChainHash env rows p (ch_iso env now) of
                Inl _ \<Rightarrow> (rows, Server_error)
              | Inr h \<Rightarrow>
                  (let row = action_row ids position now p h (session_json env ids now u (bp_operatorHash p))
                   in if accepts rows row then (rows @ [row], Created (fi_binding ids) (cx_current h) position)
                      else (rows, Server_error))))"

text \<open>The middleware before it; an invalid reset time throws when it is written to the header.\<close>

definition audit_middleware ::
  "rate_limit_config \<Rightarrow> int \<Rightarrow> audit_user option \<Rightarrow> buckets \<Rightarrow> buckets \<times> audit_response option" where
  "audit_middleware cfg now user st =
     (case user of
        None \<Rightarrow> (st, Some Unauthenticated)
      | Some u \<Rightarrow>
          if \<not> truthy_text (us_tenant_id u) then (st, Some Unauthenticated)
          else (let (st', limit) = checkLimit cfg now (col_text (us_tenant_id u)) st
                in (st', if la_resetAt limit = None then Some Server_error
                         else if \<not> la_allowed limit then Some (Too_many (la_resetAt limit)) else None)))"

section \<open>Verifying a binding\<close>

text \<open>
  The columns of type \<open>JSONB\<close> arrive as values, and \<open>JSON.parse\<close>, an argument, is given their text. The
  time of the row is interpolated as the text of a date.
\<close>

definition parse_column :: "(string \<Rightarrow> js option) \<Rightarrow> js \<Rightarrow> js option" where
  "parse_column json_parse v = json_parse (js_string v)"

definition verifyBinding ::
  "signer \<Rightarrow> (string \<Rightarrow> js option) \<Rightarrow> (int \<Rightarrow> string) \<Rightarrow> string \<Rightarrow> ledger \<Rightarrow> audit_response" where
  "verifyBinding sg json_parse date_text bindingId rows =
     (case find (\<lambda>r. br_binding_id r = bindingId) rows of
        None \<Rightarrow> Not_found
      | Some r \<Rightarrow>
          (case (parse_column json_parse (br_session r), parse_column json_parse (br_authorization r),
                 parse_column json_parse (br_payload r)) of
             (Some session, Some _, Some payload) \<Rightarrow>
               if session = Null then Server_error
               else (let text = js_string (js_member session ''operatorHash'') @ '':'' @ br_action r @ '':'' @ sg_stringify sg payload @
                           '':'' @ date_text (br_signed r)
                     in Verified bindingId (truthy_text (br_signature r) \<and> br_signature r = Some (sg_sha sg text)))
           | _ \<Rightarrow> Server_error))"

section \<open>Columns\<close>

text \<open>The columns that the migrations give the table.\<close>

definition LEDGER_COLUMNS :: "string list" where
  "LEDGER_COLUMNS = [''id'', ''binding_id'', ''trace_id'', ''originating_span_id'', ''operator_session_snapshot'',
     ''authorization_context'', ''action_type'', ''action_payload'', ''signature_hash'', ''signed_at'', ''signed_by'', ''created_at'',
     ''updated_at'', ''chain_position'', ''root_chain_hash'', ''hash_algorithm_version'', ''previous_binding_hash'', ''auth_context'',
     ''operator_hash'', ''tenant_id'', ''trace_status'']"

section \<open>Laws\<close>

text \<open>Ledgers that the endpoint can leave behind.\<close>

inductive route_ledger :: "chain_env \<Rightarrow> (ledger \<Rightarrow> binding_row \<Rightarrow> bool) \<Rightarrow> ledger \<Rightarrow> bool" for env accepts where
  empty: "route_ledger env accepts []"
| action: "route_ledger env accepts rows \<Longrightarrow>
    route_ledger env accepts (fst (recordOperatorAction env accepts ids position now u body rows))"

lemma no_tenant_tip: "\<forall>r\<in>set rows. br_tenant r = None \<Longrightarrow> chain_tip tenant rows = None \<and> tenant_chain tenant rows = []"
  by (auto simp: chain_tip_def tenant_chain_def filter_empty_conv)

lemma validate_refused: "validate_action body = Inl r \<Longrightarrow> r \<noteq> Created b h k"
  by (auto simp: validate_action_def split: if_splits sum.splits)

lemma record_cases:
  assumes "recordOperatorAction env accepts ids position now u body rows = (rows', resp)"
  obtains (same) "rows' = rows" "\<forall>b h k. resp \<noteq> Created b h k"
  | (new) scope h where "validate_action body = Inr scope"
      "computeChainHash env rows (action_payload env ids now u body scope) (ch_iso env now) = Inr h"
      "rows' = rows @ [action_row ids position now (action_payload env ids now u body scope) h
          (session_json env ids now u (bp_operatorHash (action_payload env ids now u body scope)))]"
      "resp = Created (fi_binding ids) (cx_current h) position"
      "accepts rows (action_row ids position now (action_payload env ids now u body scope) h
          (session_json env ids now u (bp_operatorHash (action_payload env ids now u body scope))))"
proof (cases "validate_action body")
  case (Inl r)
  then show ?thesis using assms validate_refused by (intro same) (auto simp: recordOperatorAction_def)
next
  case (Inr scope)
  show ?thesis
  proof (cases "computeChainHash env rows (action_payload env ids now u body scope) (ch_iso env now)")
    case (Inl e)
    then show ?thesis using assms Inr by (intro same) (simp_all add: recordOperatorAction_def Let_def)
  next
    case (Inr h)
    show ?thesis
    proof (cases "accepts rows (action_row ids position now (action_payload env ids now u body scope) h
          (session_json env ids now u (bp_operatorHash (action_payload env ids now u body scope))))")
      case True
      then show ?thesis using assms Inr \<open>validate_action body = Inr scope\<close> by (intro new) (simp_all add: recordOperatorAction_def Let_def)
    next
      case False
      then show ?thesis using assms Inr \<open>validate_action body = Inr scope\<close> by (intro same) (simp_all add: recordOperatorAction_def Let_def)
    qed
  qed
qed

definition lone_row :: "binding_row \<Rightarrow> bool" where
  "lone_row r = (br_tenant r = None \<and> br_previous r = None \<and> (\<exists>fs. br_session r = Obj fs))"

lemma route_ledger_law:
  assumes "route_ledger env accepts rows"
  shows "\<forall>r\<in>set rows. lone_row r"
  using assms
proof induction
  case (action rows ids position now u body)
  obtain rows' resp where r: "recordOperatorAction env accepts ids position now u body rows = (rows', resp)" by fastforce
  then show ?case
  proof (cases rule: record_cases)
    case same
    then show ?thesis using action.IH r by simp
  next
    case (new scope h)
    have "\<forall>r\<in>set rows. br_tenant r = None" using action.IH by (simp add: lone_row_def)
    then have "chain_tip t rows = None" for t using no_tenant_tip by blast
    then have "cx_previous h = None" using new(2) by (auto simp: computeChainHash_def Let_def split: if_splits)
    then have "lone_row (action_row ids position now (action_payload env ids now u body scope) h
          (session_json env ids now u (bp_operatorHash (action_payload env ids now u body scope))))"
      by (simp add: lone_row_def action_row_def session_json_def)
    then show ?thesis using action.IH new(3) r by simp
  qed
qed simp

lemma integrity_untraced:
  "verifyChainIntegrity env fs columns rows tenant None =
     (if set VERIFY_COLUMNS \<subseteq> columns then Inr (verify_rows env tenant None None None (tenant_chain tenant rows))
      else Inl ''column does not exist'')"
  by (simp add: verifyChainIntegrity_def Let_def split: option.split)

text \<open>A run of requests of one tenant at one reading of the clock.\<close>

fun limit_run :: "rate_limit_config \<Rightarrow> int \<Rightarrow> string \<Rightarrow> nat \<Rightarrow> buckets \<Rightarrow> buckets \<times> bool list" where
  "limit_run cfg now tenantId 0 st = (st, [])"
| "limit_run cfg now tenantId (Suc n) st =
     (let (st1, a) = checkLimit cfg now tenantId st; (st2, as) = limit_run cfg now tenantId n st1
      in (st2, la_allowed a # as))"

lemma same_instant:
  assumes "rl_requestsPerMinute cfg = Fin r" "maxTokens cfg = Fin (of_nat m)" "m \<le> 2 ^ 53" "k \<le> m"
    and "tb_tokens b = Fin (of_nat k)" "tb_lastRefillAt b = now"
  shows "refill cfg now b = Fin (of_nat k)"
proof -
  have "rnd64 (of_nat k) = Fin (of_nat k)" using rnd64_of_int [of "int k"] assms(3,4) by simp
  then show ?thesis using assms by (simp add: refill_def Let_def jmin_def)
qed

lemma limit_run_law:
  assumes "rl_requestsPerMinute cfg = Fin r" "maxTokens cfg = Fin (of_nat m)" "m \<le> 2 ^ 53"
    and "case st t of None \<Rightarrow> k = m | Some b \<Rightarrow> tb_tokens b = Fin (of_nat k) \<and> tb_lastRefillAt b = now" "k \<le> m"
  shows "length (filter id (snd (limit_run cfg now t n st))) = min n k \<and> (\<forall>u. u \<noteq> t \<longrightarrow> fst (limit_run cfg now t n st) u = st u)"
  using assms(4,5)
proof (induction n arbitrary: st k)
  case (Suc n)
  let ?b = "case st t of Some b \<Rightarrow> b | None \<Rightarrow> \<lparr>tb_tokens = maxTokens cfg, tb_lastRefillAt = now\<rparr>"
  have "tb_tokens ?b = Fin (of_nat k)" "tb_lastRefillAt ?b = now" using Suc.prems assms(2) by (auto split: option.splits)
  then have fill: "refill cfg now ?b = Fin (of_nat k)" using same_instant [OF assms(1-3) Suc.prems(2)] by simp
  have minus: "0 < k \<Longrightarrow> jsub (Fin (of_nat k)) (Fin 1) = Fin (of_nat (k - 1))"
    using rnd64_of_int [of "int (k - 1)"] Suc.prems(2) assms(3) by (simp add: jsub_def of_nat_diff)
  obtain st1 a where c: "checkLimit cfg now t st = (st1, a)" by fastforce
  have a: "la_allowed a = (0 < k)" using c by (auto simp: checkLimit_def Let_def fill)
  have st1: "st1 t = Some \<lparr>tb_tokens = Fin (of_nat (k - 1)), tb_lastRefillAt = now\<rparr>" "\<forall>u. u \<noteq> t \<longrightarrow> st1 u = st u"
    using c minus by (auto simp: checkLimit_def Let_def fill)
  then show ?case using Suc.IH [where st = st1 and k = "k - 1"] Suc.prems(2) a by (auto simp: c case_prod_beta Let_def)
qed simp

section \<open>Properties\<close>

text \<open>
  Actions recorded through the endpoint are never linked: in every ledger it leaves behind, whatever
  the table's indexes accept, each binding is a genesis binding without a tenant. The verification of any
  tenant then has nothing to check and reports a valid chain, and with the columns that the migrations
  create it fails on the missing span column.
\<close>

theorem route_actions_never_link:
  assumes "route_ledger env accepts rows"
  shows "(\<forall>r\<in>set rows. br_previous r = None \<and> br_tenant r = None) \<and>
    (set VERIFY_COLUMNS \<subseteq> columns \<longrightarrow> verifyChainIntegrity env fs columns rows tenant None = Inr Chain_valid) \<and>
    verifyChainIntegrity env fs (set LEDGER_COLUMNS) rows tenant None = Inl ''column does not exist''"
proof -
  have lone: "\<forall>r\<in>set rows. br_previous r = None \<and> br_tenant r = None"
    using route_ledger_law [OF assms] by (simp add: lone_row_def)
  then have "tenant_chain tenant rows = []" using no_tenant_tip by blast
  moreover have "\<not> set VERIFY_COLUMNS \<subseteq> set LEDGER_COLUMNS" by (simp add: VERIFY_COLUMNS_def LEDGER_COLUMNS_def)
  ultimately show ?thesis using lone by (simp add: integrity_untraced)
qed

definition sample_user :: audit_user where
  "sample_user = \<lparr>us_user_id = ''u1'', us_tenant_id = Some ''acme'', us_email = ''a@acme'', us_name = None, us_role = ''admin'',
     us_forwarded_for = None, us_user_agent = None\<rparr>"

definition sample_body :: action_body where
  "sample_body = \<lparr>ab_traceId = Some ''t'', ab_spanId = Some ''s'', ab_actionType = Some ''DECISION_APPROVE'', ab_payload = Obj [], ab_scope = None\<rparr>"

definition sample_ids :: "string \<Rightarrow> fresh_ids" where
  "sample_ids b = \<lparr>fi_session = ''s'', fi_context = ''c'', fi_binding = b, fi_row = b\<rparr>"

lemma sample_action_valid: "validate_action sample_body = Inr ''LOCAL''"
  by (simp add: validate_action_def sample_body_def truthy_text_def validActionTypes_def validateReplayScope_def col_text_def is_replay_def
      js_member_def js_get_def)

lemma sample_hash: "\<exists>h. computeChainHash sample_chain rows p t = Inr h"
  by (simp add: computeChainHash_def Let_def truthy_text_def)

lemma sample_recorded:
  "accepts rows = (\<lambda>_. True) \<Longrightarrow> \<exists>r h. recordOperatorAction sample_chain accepts ids k now u sample_body rows = (rows @ [r], Created (fi_binding ids) h k)"
  using sample_hash [of rows "action_payload sample_chain ids now u sample_body ''LOCAL''" "ch_iso sample_chain now"]
  by (auto simp: recordOperatorAction_def sample_action_valid Let_def)

theorem route_actions_never_link_witness:
  "\<exists>rows. length rows = 2 \<and> (\<forall>r\<in>set rows. br_previous r = None) \<and>
     verifyChainIntegrity sample_chain None (set VERIFY_COLUMNS) rows ''acme'' None = Inr Chain_valid"
proof -
  let ?do = "\<lambda>b k rows. fst (recordOperatorAction sample_chain (\<lambda>_ _. True) (sample_ids b) k 0 sample_user sample_body rows)"
  have ok: "route_ledger sample_chain (\<lambda>_ _. True) (?do ''b2'' 2 (?do ''b1'' 1 []))" by (intro route_ledger.intros)
  obtain r1 where r1: "?do ''b1'' 1 [] = [r1]" using sample_recorded [of "\<lambda>_ _. True" "[]" "sample_ids ''b1''" 1 0 sample_user] by auto
  obtain r2 where "?do ''b2'' 2 [r1] = [r1, r2]" using sample_recorded [of "\<lambda>_ _. True" "[r1]" "sample_ids ''b2''" 2 0 sample_user] by auto
  then have "length (?do ''b2'' 2 (?do ''b1'' 1 [])) = 2" by (simp only: r1) simp
  then show ?thesis using route_actions_never_link [OF ok, of "set VERIFY_COLUMNS" None "''acme''"] by blast
qed

text \<open>
  With the index that allows one genesis binding per trace, a trace takes a single action: once an
  action on a trace is recorded, every later one on it is answered with a server error and leaves the
  ledger as it is.
\<close>

theorem second_action_refused:
  assumes "route_ledger env ledger_unique rows" and "r \<in> set rows" and "br_trace r = col_text (ab_traceId body)"
    and "validate_action body = Inr scope"
  shows "recordOperatorAction env ledger_unique ids position now u body rows = (rows, Server_error)"
proof -
  obtain rows' resp where rec: "recordOperatorAction env ledger_unique ids position now u body rows = (rows', resp)" by fastforce
  have lone: "\<forall>r\<in>set rows. lone_row r" by (rule route_ledger_law [OF assms(1)])
  then have tip: "chain_tip t rows = None" for t using no_tenant_tip by (simp add: lone_row_def)
  let ?p = "action_payload env ids now u body scope"
  have refused: "\<not> ledger_unique rows (action_row ids position now ?p h session)" if "cx_previous h = None" for h session
    using that assms(2,3) lone by (auto simp: ledger_unique_def action_row_def action_payload_def lone_row_def)
  show ?thesis
  proof (cases "computeChainHash env rows ?p (ch_iso env now)")
    case (Inl e)
    then show ?thesis by (simp add: recordOperatorAction_def assms(4) Let_def)
  next
    case (Inr h)
    then have "cx_previous h = None" using tip by (auto simp: computeChainHash_def Let_def split: if_splits)
    then show ?thesis using Inr refused by (simp add: recordOperatorAction_def assms(4) Let_def)
  qed
qed

theorem second_action_refused_witness:
  "\<exists>r. fst (recordOperatorAction sample_chain ledger_unique (sample_ids ''b1'') 1 0 sample_user sample_body []) = [r] \<and>
     recordOperatorAction sample_chain ledger_unique (sample_ids ''b2'') 2 1 sample_user sample_body [r] = ([r], Server_error)"
proof -
  have "ledger_unique [] = (\<lambda>_. True)" by (simp add: ledger_unique_def fun_eq_iff)
  then obtain r h where r: "recordOperatorAction sample_chain ledger_unique (sample_ids ''b1'') 1 0 sample_user sample_body [] =
      ([r], Created ''b1'' h 1)"
    using sample_recorded [of ledger_unique "[]" "sample_ids ''b1''" 1 0 sample_user] by (auto simp: sample_ids_def)
  then have "route_ledger sample_chain ledger_unique [r]"
    using route_ledger.action [OF route_ledger.empty, of sample_chain ledger_unique "sample_ids ''b1''" 1 0 sample_user sample_body] by simp
  moreover have "br_trace r = col_text (ab_traceId sample_body)"
    using r by (cases rule: record_cases) (auto simp: action_row_def action_payload_def)
  ultimately show ?thesis using second_action_refused [OF _ _ _ sample_action_valid, of sample_chain "[r]" r] r by auto
qed

text \<open>
  No recorded action can be verified: the endpoint parses the session column a second time, and the
  text of a value that is an object is no JSON text, so the verification of every binding it recorded ends
  in a server error.
\<close>

theorem recorded_action_unverifiable:
  assumes "route_ledger env accepts rows" and "json_parse ''[object Object]'' = None" and "r \<in> set rows" and "br_binding_id r = b"
  shows "verifyBinding sg json_parse date_text b rows = Server_error"
proof -
  obtain q where q: "find (\<lambda>r. br_binding_id r = b) rows = Some q" "q \<in> set rows"
    using assms(3,4) by (metis (mono_tags, lifting) find_None_iff find_Some_iff not_None_eq nth_mem)
  then obtain fs where "br_session q = Obj fs" using route_ledger_law [OF assms(1)] by (auto simp: lone_row_def)
  then show ?thesis using q(1) assms(2) by (simp add: verifyBinding_def parse_column_def)
qed

theorem recorded_action_unverifiable_witness:
  "verifyBinding \<lparr>sg_sha = id, sg_stringify = js_string, sg_iso = (\<lambda>_. [])\<rparr> (\<lambda>s. if s = ''{}'' then Some (Obj []) else None) (\<lambda>_. []) ''b1''
     (fst (recordOperatorAction sample_chain (\<lambda>_ _. True) (sample_ids ''b1'') 1 0 sample_user sample_body [])) = Server_error"
proof -
  have ok: "route_ledger sample_chain (\<lambda>_ _. True) (fst (recordOperatorAction sample_chain (\<lambda>_ _. True) (sample_ids ''b1'') 1 0 sample_user sample_body []))"
    by (intro route_ledger.intros)
  obtain r h where r: "recordOperatorAction sample_chain (\<lambda>_ _. True) (sample_ids ''b1'') 1 0 sample_user sample_body [] = ([r], Created ''b1'' h 1)"
    using sample_recorded [of "\<lambda>_ _. True" "[]" "sample_ids ''b1''" 1 0 sample_user] by (auto simp: sample_ids_def)
  then have "br_binding_id r = ''b1''" by (cases rule: record_cases) (auto simp: action_row_def sample_ids_def)
  then show ?thesis using r by (intro recorded_action_unverifiable [OF ok]) auto
qed

text \<open>
  The rate limiter bounds bursts: of any number of requests that a tenant without a bucket makes at one
  instant, exactly as many pass as the smaller of the burst size and the rate, and the buckets of other
  tenants are untouched.
\<close>

theorem rate_limit_burst:
  assumes "rl_requestsPerMinute cfg = Fin (of_nat r)" "rl_burstSize cfg = Fin (of_nat b)" "min b r \<le> 2 ^ 53" "st t = None"
  shows "length (filter id (snd (limit_run cfg now t n st))) = min n (min b r) \<and>
    (\<forall>u. u \<noteq> t \<longrightarrow> fst (limit_run cfg now t n st) u = st u)"
proof -
  have "maxTokens cfg = Fin (of_nat (min b r))" using assms(1,2) by (auto simp: maxTokens_def jmin_def min_def)
  then show ?thesis using limit_run_law [OF assms(1) _ assms(3), where k = "min b r" and st = st and t = t] assms(4) by simp
qed

theorem rate_limit_burst_witness:
  "length (filter id (snd (limit_run \<lparr>rl_requestsPerMinute = Fin 60, rl_burstSize = Fin 10\<rparr> 0 ''acme'' 25 (\<lambda>_. None)))) = 10"
  using rate_limit_burst [of "\<lparr>rl_requestsPerMinute = Fin 60, rl_burstSize = Fin 10\<rparr>" 60 10 "\<lambda>_. None" "''acme''" 0 25] by simp

end
