(* ===== verification/Breaker.thy ===== *)
theory Breaker
  imports JsValue
begin

text \<open>
  The circuit breaker around calls of Splunk, \<open>apps/api/services/mcp-circuit-breaker.ts\<close>. An execution
  is a beginning, which may fail fast, and the settling of each of its attempts; executions of one
  breaker overlap, so that other steps come between these. A reading of the clock holds for a stretch of
  code without an await. Times and delays are milliseconds.
\<close>

section \<open>State\<close>

datatype circuit_state = HEALTHY | DEGRADED | TIMEOUT | PARTIAL_RESULTS | UNAVAILABLE

record breaker_config =
  bc_maxRetries :: nat
  bc_baseDelayMs :: int
  bc_maxDelayMs :: int
  bc_timeoutMs :: int
  bc_errorThresholdPct :: jsnum
  bc_openThresholdPct :: jsnum
  bc_windowSizeMs :: int
  bc_staleCacheTtlMs :: int

definition DEFAULT_CONFIG :: breaker_config where
  "DEFAULT_CONFIG = \<lparr>bc_maxRetries = 3, bc_baseDelayMs = 1000, bc_maxDelayMs = 30000, bc_timeoutMs = 30000,
     bc_errorThresholdPct = Fin 20, bc_openThresholdPct = Fin 50, bc_windowSizeMs = 60000, bc_staleCacheTtlMs = 5 * 60000\<rparr>"

record call_result =
  cr_data :: js
  cr_state :: circuit_state
  cr_from_cache :: bool
  cr_retry_count :: nat
  cr_latency_ms :: int
  cr_error :: "string option"

record window_entry =
  we_timestamp :: int
  we_success :: bool
  we_latency_ms :: int

type_synonym stale_cache = "string \<Rightarrow> (js \<times> int) option"

record breaker =
  bk_state :: circuit_state
  bk_config :: breaker_config
  bk_name :: string
  bk_window :: "window_entry list"
  bk_changedAt :: int
  bk_cache :: stale_cache

definition new_breaker :: "string \<Rightarrow> breaker_config \<Rightarrow> int \<Rightarrow> breaker" where
  "new_breaker name config now = \<lparr>bk_state = HEALTHY, bk_config = config, bk_name = name, bk_window = [], bk_changedAt = now,
     bk_cache = (\<lambda>_. None)\<rparr>"

section \<open>Window and state\<close>

definition pruneWindow :: "int \<Rightarrow> breaker \<Rightarrow> breaker" where
  "pruneWindow now b = b\<lparr>bk_window := filter (\<lambda>e. now - bc_windowSizeMs (bk_config b) < we_timestamp e) (bk_window b)\<rparr>"

definition transitionTo :: "int \<Rightarrow> circuit_state \<Rightarrow> breaker \<Rightarrow> breaker" where
  "transitionTo now s b = (if s = bk_state b then b else b\<lparr>bk_state := s, bk_changedAt := now\<rparr>)"

definition recordSuccess :: "int \<Rightarrow> int \<Rightarrow> breaker \<Rightarrow> breaker" where
  "recordSuccess now latency b0 =
     (let b = pruneWindow now b0
      in b\<lparr>bk_window := bk_window b @ [\<lparr>we_timestamp = now, we_success = True, we_latency_ms = latency\<rparr>]\<rparr>)"

definition recordFailure :: "int \<Rightarrow> int \<Rightarrow> bool \<Rightarrow> breaker \<Rightarrow> breaker" where
  "recordFailure now latency isTimeout b0 =
     (let b1 = pruneWindow now b0;
          b = b1\<lparr>bk_window := bk_window b1 @ [\<lparr>we_timestamp = now, we_success = False, we_latency_ms = latency\<rparr>]\<rparr>
      in if isTimeout \<and> bk_state b \<noteq> UNAVAILABLE then transitionTo now TIMEOUT b else b)"

definition error_count :: "breaker \<Rightarrow> nat" where
  "error_count b = length (filter (\<lambda>e. \<not> we_success e) (bk_window b))"

definition error_rate :: "breaker \<Rightarrow> jsnum" where
  "error_rate b = jmul (jdiv (Fin (of_nat (error_count b))) (Fin (of_nat (length (bk_window b))))) (Fin 100)"

definition updateState :: "int \<Rightarrow> breaker \<Rightarrow> breaker" where
  "updateState now b0 =
     (let b = pruneWindow now b0
      in if length (bk_window b) < 5 then b
         else if jle (bc_openThresholdPct (bk_config b)) (error_rate b) then transitionTo now UNAVAILABLE b
         else if jle (bc_errorThresholdPct (bk_config b)) (error_rate b) then transitionTo now DEGRADED b
         else if bk_state b \<noteq> HEALTHY then transitionTo now HEALTHY b
         else b)"

definition computeBackoff :: "breaker_config \<Rightarrow> nat \<Rightarrow> jsnum \<Rightarrow> jsnum" where
  "computeBackoff config attempt random =
     (let base = Fin (of_int (min (bc_baseDelayMs config * 2 ^ (attempt - 1)) (bc_maxDelayMs config)));
          jitter = jmul (jmul base (jlit (2 / 10))) (jsub (jmul random (Fin 2)) (Fin 1))
      in jround (jadd base jitter))"

section \<open>Stale cache\<close>

text \<open>A stored value that is falsy counts as none for the callers.\<close>

definition getStaleCache :: "int \<Rightarrow> string \<Rightarrow> breaker \<Rightarrow> breaker \<times> js" where
  "getStaleCache now key b =
     (case bk_cache b key of
        None \<Rightarrow> (b, Null)
      | Some (data, stored_at) \<Rightarrow>
          if bc_staleCacheTtlMs (bk_config b) < now - stored_at then (b\<lparr>bk_cache := (bk_cache b)(key := None)\<rparr>, Null)
          else (b, data))"

definition setStaleCache :: "int \<Rightarrow> string \<Rightarrow> js \<Rightarrow> breaker \<Rightarrow> breaker" where
  "setStaleCache now key data b = b\<lparr>bk_cache := (bk_cache b)(key \<mapsto> (data, now))\<rparr>"

definition use_key :: "string option \<Rightarrow> string option" where
  "use_key k = (case k of Some s \<Rightarrow> if s = [] then None else Some s | None \<Rightarrow> None)"

definition stale_for :: "int \<Rightarrow> string option \<Rightarrow> breaker \<Rightarrow> breaker \<times> js" where
  "stale_for now key b = (case use_key key of Some k \<Rightarrow> getStaleCache now k b | None \<Rightarrow> (b, Null))"

section \<open>Executions\<close>

datatype outcome = Returned js | Raised string

record call =
  ca_start :: int
  ca_key :: "string option"
  ca_attempt :: nat

definition begin_call :: "int \<Rightarrow> string option \<Rightarrow> breaker \<Rightarrow> breaker \<times> (call_result + call)" where
  "begin_call now key b =
     (if bk_state b = UNAVAILABLE then
        (let (b', stale) = stale_for now key b
         in (b', Inl (if js_truthy stale
               then \<lparr>cr_data = stale, cr_state = UNAVAILABLE, cr_from_cache = True, cr_retry_count = 0, cr_latency_ms = 0, cr_error = None\<rparr>
               else \<lparr>cr_data = Null, cr_state = UNAVAILABLE, cr_from_cache = False, cr_retry_count = 0, cr_latency_ms = 0,
                     cr_error = Some (''Circuit breaker open for '' @ bk_name b)\<rparr>)))
      else (b, Inr \<lparr>ca_start = now, ca_key = key, ca_attempt = 0\<rparr>))"

definition is_timeout :: "string \<Rightarrow> bool" where
  "is_timeout message = (str_includes message ''timeout'' \<or> str_includes message ''TIMEOUT'')"

text \<open>An attempt settles: the execution returns, or it goes on to the next attempt after the delay.\<close>

definition settle :: "int \<Rightarrow> call \<Rightarrow> outcome \<Rightarrow> breaker \<Rightarrow> breaker \<times> (call_result + call)" where
  "settle now c result b =
     (case result of
        Returned data \<Rightarrow>
          (let latency = now - ca_start c;
               b1 = recordSuccess now latency b;
               b2 = (case use_key (ca_key c) of Some k \<Rightarrow> setStaleCache now k data b1 | None \<Rightarrow> b1);
               b3 = updateState now b2
           in (b3, Inl \<lparr>cr_data = data, cr_state = bk_state b3, cr_from_cache = False, cr_retry_count = ca_attempt c,
                       cr_latency_ms = latency, cr_error = None\<rparr>))
      | Raised message \<Rightarrow>
          (let latency = now - ca_start c;
               b1 = updateState now (recordFailure now latency (is_timeout message) b)
           in if ca_attempt c < bc_maxRetries (bk_config b) then (b1, Inr (c\<lparr>ca_attempt := ca_attempt c + 1\<rparr>))
              else (let (b2, stale) = stale_for now (ca_key c) b1
                    in (b2, Inl \<lparr>cr_data = (if js_truthy stale then stale else Null), cr_state = bk_state b2,
                                 cr_from_cache = js_truthy stale, cr_retry_count = ca_attempt c, cr_latency_ms = latency,
                                 cr_error = Some message\<rparr>))))"

text \<open>An execution with nothing between its steps; it has no result while an attempt is pending.\<close>

fun finish :: "call \<Rightarrow> (int \<times> outcome) list \<Rightarrow> breaker \<Rightarrow> breaker \<times> call_result option" where
  "finish c [] b = (b, None)"
| "finish c ((now, result) # rest) b =
     (case settle now c result b of
        (b', Inl r) \<Rightarrow> (b', Some r)
      | (b', Inr c') \<Rightarrow> finish c' rest b')"

definition execute :: "int \<Rightarrow> string option \<Rightarrow> (int \<times> outcome) list \<Rightarrow> breaker \<Rightarrow> breaker \<times> call_result option" where
  "execute now key results b =
     (case begin_call now key b of
        (b', Inl r) \<Rightarrow> (b', Some r)
      | (b', Inr c) \<Rightarrow> finish c results b')"

section \<open>Statistics and registry\<close>

record breaker_stats =
  bs_state :: circuit_state
  bs_state_age_ms :: int
  bs_window_size :: nat
  bs_error_rate_pct :: jsnum
  bs_avg_latency_ms :: jsnum

definition getStats :: "int \<Rightarrow> breaker \<Rightarrow> breaker \<times> breaker_stats" where
  "getStats now b0 =
     (let b = pruneWindow now b0; total = length (bk_window b);
          avgLatency = (if 0 < total
                        then jdiv (foldl (\<lambda>s e. jadd s (Fin (of_int (we_latency_ms e)))) (Fin 0) (bk_window b)) (Fin (of_nat total))
                        else Fin 0)
      in (b, \<lparr>bs_state = bk_state b, bs_state_age_ms = now - bk_changedAt b, bs_window_size = total,
              bs_error_rate_pct = (if 0 < total then error_rate b else Fin 0), bs_avg_latency_ms = jround avgLatency\<rparr>))"

type_synonym registry = "(string \<times> breaker) list"

definition getCircuitBreaker :: "int \<Rightarrow> string \<Rightarrow> breaker_config \<Rightarrow> registry \<Rightarrow> registry \<times> breaker" where
  "getCircuitBreaker now name config reg =
     (case map_of reg name of
        Some b \<Rightarrow> (reg, b)
      | None \<Rightarrow> (let b = new_breaker name config now in (reg @ [(name, b)], b)))"

definition getAllCircuitBreakerStats :: "int \<Rightarrow> registry \<Rightarrow> registry \<times> (string \<times> breaker_stats) list" where
  "getAllCircuitBreakerStats now reg =
     (map (\<lambda>(n, b). (n, fst (getStats now b))) reg, map (\<lambda>(n, b). (n, snd (getStats now b))) reg)"

section \<open>Overlapping executions\<close>

inductive bstep :: "breaker \<times> call list \<Rightarrow> breaker \<times> call list \<Rightarrow> bool" where
  begins: "begin_call now key b = (b', r) \<Longrightarrow> bstep (b, cs) (b', (case r of Inl _ \<Rightarrow> cs | Inr c \<Rightarrow> c # cs))"
| settles: "c \<in> set cs \<Longrightarrow> settle now c result b = (b', r) \<Longrightarrow>
    bstep (b, cs) (b', (case r of Inl _ \<Rightarrow> remove1 c cs | Inr c' \<Rightarrow> c' # remove1 c cs))"
| stats: "bstep (b, cs) (fst (getStats now b), cs)"

inductive_cases bstepE: "bstep (b, cs) s"

section \<open>Laws\<close>

lemma prune_fields [simp]:
  "bk_state (pruneWindow now b) = bk_state b" "bk_cache (pruneWindow now b) = bk_cache b" "bk_config (pruneWindow now b) = bk_config b"
  "bk_state (fst (getStats now b)) = bk_state b" "bk_cache (fst (getStats now b)) = bk_cache b" "bk_config (fst (getStats now b)) = bk_config b"
  by (simp_all add: pruneWindow_def getStats_def Let_def)

text \<open>With nothing in flight an open circuit only loses cached values.\<close>

definition stuck_open :: "breaker \<Rightarrow> breaker \<times> call list \<Rightarrow> bool" where
  "stuck_open b0 s =
     (snd s = [] \<and> bk_state (fst s) = UNAVAILABLE \<and> bk_config (fst s) = bk_config b0 \<and> bk_cache (fst s) \<subseteq>\<^sub>m bk_cache b0)"

lemma stale_le: "bk_cache (fst (stale_for now key b)) \<subseteq>\<^sub>m bk_cache b" "bk_state (fst (stale_for now key b)) = bk_state b"
    "bk_config (fst (stale_for now key b)) = bk_config b"
  by (auto simp: stale_for_def getStaleCache_def map_le_def split: option.splits)

lemma begin_open:
  assumes "bk_state b = UNAVAILABLE" "begin_call now key b = (b', r)"
  shows "b' = fst (stale_for now key b) \<and> (\<exists>res. r = Inl res \<and> (cr_data res \<noteq> Null \<longrightarrow> cr_data res = snd (stale_for now key b)))"
  using assms by (auto simp: begin_call_def Let_def split: prod.splits if_splits)

lemma stale_fresh: "snd (stale_for now key b) \<noteq> Null \<Longrightarrow>
    \<exists>k t. key = Some k \<and> bk_cache b k = Some (snd (stale_for now key b), t) \<and> now - t \<le> bc_staleCacheTtlMs (bk_config b)"
  by (auto simp: stale_for_def getStaleCache_def use_key_def split: option.splits if_splits)

lemma stuck_step:
  assumes "bstep s s'" "stuck_open b0 s"
  shows "stuck_open b0 s'"
  using assms
proof (cases rule: bstep.cases)
  case (begins now key b b' r cs)
  then obtain res where "r = Inl res" "b' = fst (stale_for now key b)"
    using begin_open assms(2) unfolding stuck_open_def by force
  moreover have "bk_cache (fst (stale_for now key b)) \<subseteq>\<^sub>m bk_cache b0"
    using assms(2) begins(1) by (intro map_le_trans [OF stale_le(1)]) (simp add: stuck_open_def)
  ultimately show ?thesis using assms(2) begins stale_le(2,3) by (auto simp: stuck_open_def)
qed (use assms(2) in \<open>auto simp: stuck_open_def\<close>)

lemma stuck_run: "bstep\<^sup>*\<^sup>* s s' \<Longrightarrow> stuck_open b0 s \<Longrightarrow> stuck_open b0 s'"
  by (induction rule: rtranclp_induct) (auto intro: stuck_step)

text \<open>Percentages in double arithmetic stay on the right side of the thresholds.\<close>

lemma percent_below:
  assumes "0 \<le> x" "x \<le> of_int k / 2 ^ 44" "\<bar>100 * k\<bar> \<le> 2 ^ 53"
  shows "\<exists>z. jmul (rnd64 x) (Fin 100) = Fin z \<and> z \<le> of_int (100 * k) / 2 ^ 44"
proof -
  have k: "rnd64 (of_int k / 2 ^ 44) = Fin (of_int k / 2 ^ 44)" using rnd64_dyadic [of k 44] assms(3) by linarith
  obtain y where y: "rnd64 x = Fin y" "0 \<le> y" "y \<le> of_int k / 2 ^ 44"
    using r64.rnd_between [of 0 0 _ _ x, OF _ k] assms(1,2) by auto
  have k100: "rnd64 (of_int (100 * k) / 2 ^ 44) = Fin (of_int (100 * k) / 2 ^ 44)" by (rule rnd64_dyadic [OF assms(3)]) simp
  have "y * 100 \<le> of_int (100 * k) / 2 ^ 44" using y(3) by simp
  then obtain z where "rnd64 (y * 100) = Fin z" "z \<le> of_int (100 * k) / 2 ^ 44"
    using r64.rnd_between [of 0 0 _ _ "y * 100", OF _ k100] y(2) by auto
  then show ?thesis by (simp add: y(1))
qed

lemma percent_above:
  assumes "a \<le> x" "x \<le> 1" "rnd64 a = Fin a'" "rnd64 (a' * 100) = Fin z" "0 \<le> a"
  shows "\<exists>y. jmul (rnd64 x) (Fin 100) = Fin y \<and> z \<le> y"
proof -
  obtain x' where x: "rnd64 x = Fin x'" "a' \<le> x'" "x' \<le> 1"
    using r64.rnd_between [OF assms(3) _ assms(1,2), of 1] by auto
  obtain y where "rnd64 (x' * 100) = Fin y" "z \<le> y"
    using r64.rnd_between [OF assms(4), of 100 100 "x' * 100"] x by auto
  then show ?thesis by (simp add: x(1))
qed

lemma fifth: "rnd64 (1 / 5) = Fin (3602879701896397 / 2 ^ 54)" "rnd64 (3602879701896397 / 2 ^ 54 * 100) = Fin 20"
  by code_simp+

lemma tenth_two: "jmul (Fin 1000) (jlit (2 / 10)) = Fin 200" "jmul (Fin 2000) (jlit (2 / 10)) = Fin 400" "jmul (Fin 4000) (jlit (2 / 10)) = Fin 800"
  by code_simp+

lemma rate_threshold:
  assumes "0 < n" "n \<le> 2 ^ 40" "e \<le> n" "0 < d" "d \<le> 5"
    and "rnd64 (1 / of_nat d) = Fin a'" "rnd64 (a' * 100) = Fin z"
    and "(1 / of_nat d - 1 / (of_nat d * 2 ^ 40) :: rat) \<le> of_int k / 2 ^ 44" "of_int (100 * k) / 2 ^ 44 < z" "\<bar>100 * k\<bar> \<le> 2 ^ 53"
  shows "jle (Fin z) (jmul (jdiv (Fin (of_nat e)) (Fin (of_nat n))) (Fin 100)) \<longleftrightarrow> n \<le> d * e"
proof -
  let ?x = "of_nat e / of_nat n :: rat"
  have div: "jdiv (Fin (of_nat e)) (Fin (of_nat n)) = rnd64 ?x" using assms(1) by simp
  have x: "0 \<le> ?x" "?x \<le> 1" using assms(1,3) by simp_all
  show ?thesis
  proof (cases "n \<le> d * e")
    case True
    then have "(of_nat n :: rat) \<le> of_nat d * of_nat e" by (metis of_nat_le_iff of_nat_mult)
    then have "1 / of_nat d \<le> ?x" using assms(1,4) by (simp add: divide_simps mult.commute)
    then obtain y where "jmul (rnd64 ?x) (Fin 100) = Fin y" "z \<le> y" using percent_above [OF _ x(2) assms(6,7)] by auto
    then show ?thesis using True unfolding div by (auto simp: jle_def)
  next
    case False
    then have "d * e + 1 \<le> n" by simp
    then have "(of_nat d * of_nat e + 1 :: rat) \<le> of_nat n" by (metis of_nat_1 of_nat_add of_nat_le_iff of_nat_mult)
    then have "?x \<le> 1 / of_nat d - 1 / (of_nat d * of_nat n)" using assms(1,4) by (simp add: field_simps)
    moreover have "(of_nat n :: rat) \<le> 2 ^ 40" using assms(2) by (metis of_nat_le_iff of_nat_numeral of_nat_power)
    then have "1 / (of_nat d * 2 ^ 40) \<le> (1 / (of_nat d * of_nat n) :: rat)"
      using assms(1,4) by (intro divide_left_mono mult_left_mono) auto
    ultimately have "?x \<le> of_int k / 2 ^ 44" using assms(8) by linarith
    from percent_below [OF x(1) this assms(10)] obtain y where "jmul (rnd64 ?x) (Fin 100) = Fin y" "y \<le> of_int (100 * k) / 2 ^ 44" by blast
    then show ?thesis using False assms(9) unfolding div by (auto simp: jle_def)
  qed
qed

lemma half_threshold:
  assumes "0 < n" "n \<le> 2 ^ 40" "e \<le> n"
  shows "jle (Fin 50) (jmul (jdiv (Fin (of_nat e)) (Fin (of_nat n))) (Fin 100)) \<longleftrightarrow> n \<le> 2 * e"
proof -
  have "rnd64 (1 / 2) = Fin (1 / 2)" using rnd64_dyadic [of 1 1] by simp
  moreover have "rnd64 (1 / 2 * 100) = Fin 50" by simp
  ultimately show ?thesis using rate_threshold [OF assms, of 2 "1 / 2" 50 "2 ^ 43 - 8"] by simp
qed

lemma fifth_threshold:
  assumes "0 < n" "n \<le> 2 ^ 40" "e \<le> n"
  shows "jle (Fin 20) (jmul (jdiv (Fin (of_nat e)) (Fin (of_nat n))) (Fin 100)) \<longleftrightarrow> n \<le> 5 * e"
  using rate_threshold [OF assms, of 5, unfolded of_nat_numeral, OF _ _ fifth, of 3518437208883] by simp

lemma settle_Raised:
  assumes "settle now c (Raised m) b = (b', r)"
  shows "(if ca_attempt c < bc_maxRetries (bk_config b) then r = Inr (c\<lparr>ca_attempt := ca_attempt c + 1\<rparr>)
     else \<exists>res. r = Inl res \<and> cr_retry_count res = ca_attempt c \<and> cr_error res = Some m \<and> (cr_data res \<noteq> Null \<longrightarrow> cr_from_cache res))"
  using assms by (auto simp: settle_def Let_def split: if_splits prod.splits)

lemma transition_config [simp]: "bk_config (transitionTo now s b) = bk_config b"
  by (simp add: transitionTo_def)

lemma update_config [simp]: "bk_config (updateState now b) = bk_config b"
  by (simp add: updateState_def Let_def)

lemma settle_config: "bk_config (fst (settle now c r b)) = bk_config b"
  by (cases r) (simp_all add: settle_def Let_def recordSuccess_def recordFailure_def setStaleCache_def stale_le case_prod_beta split: option.split)

text \<open>The position of the first attempt that returned.\<close>

fun first_return :: "(int \<times> outcome) list \<Rightarrow> (nat \<times> js) option" where
  "first_return [] = None"
| "first_return ((t, Returned v) # rs) = Some (0, v)"
| "first_return ((t, Raised m) # rs) = map_option (\<lambda>(i, v). (Suc i, v)) (first_return rs)"

definition settled_as :: "nat \<Rightarrow> nat \<Rightarrow> (int \<times> outcome) list \<Rightarrow> call_result \<Rightarrow> bool" where
  "settled_as maxRetries attempt results res =
     (case first_return results of
        Some (i, v) \<Rightarrow> cr_data res = v \<and> cr_retry_count res = attempt + i \<and> \<not> cr_from_cache res \<and> cr_error res = None
      | None \<Rightarrow> cr_retry_count res = maxRetries \<and> (\<exists>t m. last results = (t, Raised m) \<and> cr_error res = Some m) \<and>
          (cr_data res \<noteq> Null \<longrightarrow> cr_from_cache res))"

lemma settled_step: "xs \<noteq> [] \<Longrightarrow> settled_as n (Suc k) xs res \<Longrightarrow> settled_as n k ((t, Raised m) # xs) res"
  by (auto simp: settled_as_def split: option.splits)

lemma finish_law:
  assumes "length results = Suc (bc_maxRetries (bk_config b) - ca_attempt c)" "ca_attempt c \<le> bc_maxRetries (bk_config b)"
  shows "\<exists>res. snd (finish c results b) = Some res \<and> settled_as (bc_maxRetries (bk_config b)) (ca_attempt c) results res"
  using assms
proof (induction results arbitrary: c b)
  case (Cons x xs)
  obtain t o' where x: "x = (t, o')" by fastforce
  show ?case
  proof (cases o')
    case (Returned v)
    then show ?thesis by (simp add: x settle_def settled_as_def Let_def)
  next
    case (Raised m)
    obtain b' r where s: "settle t c (Raised m) b = (b', r)" by fastforce
    have cfg: "bk_config b' = bk_config b" using settle_config [of t c "Raised m" b] s by simp
    show ?thesis
    proof (cases "ca_attempt c < bc_maxRetries (bk_config b)")
      case True
      let ?c = "c\<lparr>ca_attempt := ca_attempt c + 1\<rparr>"
      have r: "r = Inr ?c" using settle_Raised [OF s] True by simp
      have "length xs = Suc (bc_maxRetries (bk_config b') - ca_attempt ?c)" "ca_attempt ?c \<le> bc_maxRetries (bk_config b')"
        using Cons.prems True by (simp_all add: cfg)
      from Cons.IH [OF this] obtain res where "snd (finish ?c xs b') = Some res"
        "settled_as (bc_maxRetries (bk_config b)) (Suc (ca_attempt c)) xs res" by (auto simp: cfg)
      moreover have "xs \<noteq> []" using Cons.prems True by auto
      ultimately show ?thesis using settled_step by (auto simp: x Raised s r)
    next
      case False
      then obtain res where "r = Inl res" "cr_retry_count res = ca_attempt c" "cr_error res = Some m" "cr_data res \<noteq> Null \<longrightarrow> cr_from_cache res"
        using settle_Raised [OF s] by auto
      moreover have "xs = []" using Cons.prems False by simp
      ultimately show ?thesis using Cons.prems False by (simp add: x Raised s settled_as_def)
    qed
  qed
qed simp

section \<open>Properties\<close>

text \<open>
  An open circuit never closes: once the state is UNAVAILABLE and no execution is under way, no
  sequence of executions and reads of statistics leaves that state or reaches the service again, and every
  answer is either empty or a cached value from before that has not expired.
\<close>

theorem open_circuit_never_closes:
  assumes "bk_state b0 = UNAVAILABLE" and "bstep\<^sup>*\<^sup>* (b0, []) (b, cs)" and "begin_call now key b = (b', r)"
  shows "bk_state b = UNAVAILABLE \<and> cs = [] \<and>
    (\<exists>res. r = Inl res \<and>
       (cr_data res \<noteq> Null \<longrightarrow> (\<exists>k t. key = Some k \<and> bk_cache b0 k = Some (cr_data res, t) \<and> now - t \<le> bc_staleCacheTtlMs (bk_config b0))))"
proof -
  have "stuck_open b0 (b0, [])" using assms(1) by (simp add: stuck_open_def)
  then have stuck: "stuck_open b0 (b, cs)" by (rule stuck_run [OF assms(2)])
  then have open': "bk_state b = UNAVAILABLE" by (simp add: stuck_open_def)
  then obtain res where res: "r = Inl res" "cr_data res \<noteq> Null \<longrightarrow> cr_data res = snd (stale_for now key b)"
    using begin_open [OF _ assms(3)] by blast
  have "\<exists>k t. key = Some k \<and> bk_cache b0 k = Some (cr_data res, t) \<and> now - t \<le> bc_staleCacheTtlMs (bk_config b0)" if ne: "cr_data res \<noteq> Null"
  proof -
    have eq: "cr_data res = snd (stale_for now key b)" using ne res(2) by blast
    obtain k t where "key = Some k" "bk_cache b k = Some (cr_data res, t)" "now - t \<le> bc_staleCacheTtlMs (bk_config b)"
      using stale_fresh [of now key b] ne unfolding eq [symmetric] by blast
    moreover have "bk_cache b k = bk_cache b0 k" using stuck calculation(2) by (auto simp: stuck_open_def map_le_def dom_def)
    ultimately show ?thesis using stuck by (auto simp: stuck_open_def)
  qed
  then show ?thesis using stuck res(1) by (auto simp: stuck_open_def)
qed

definition failing :: "(int \<times> outcome) list" where
  "failing = map (\<lambda>t. (int t, Raised ''refused'')) [0..<4]"

definition opened :: breaker where
  "opened = fst (execute 10 (Some ''k'') failing (fst (execute 0 (Some ''k'') failing (new_breaker ''splunk'' DEFAULT_CONFIG 0))))"

lemma opened_state: "bk_state opened = UNAVAILABLE" "bk_cache opened ''k'' = None"
  by code_simp+

text \<open>Two failed executions open the circuit; after a day a call still gets nothing.\<close>

theorem open_circuit_never_closes_witness:
  "\<exists>res. snd (begin_call 86400000 (Some ''k'') opened) = Inl res \<and> cr_data res = Null"
proof -
  obtain b' r where c: "begin_call 86400000 (Some ''k'') opened = (b', r)" by fastforce
  show ?thesis using open_circuit_never_closes [OF opened_state(1) rtranclp.rtrancl_refl c] opened_state(2) by (auto simp: c)
qed

text \<open>
  The circuit's state follows the error rate: with at least five recorded calls in the window, all
  recent, and the default thresholds, an update opens the circuit exactly when half of them failed,
  degrades it exactly when a fifth but less than half failed, and otherwise makes it healthy, in double
  arithmetic for up to \<open>2 ^ 40\<close> calls; with fewer calls it leaves the state alone.
\<close>

theorem state_follows_error_rate:
  assumes "bk_config b = DEFAULT_CONFIG" and "\<forall>e\<in>set (bk_window b). now - 60000 < we_timestamp e" and "length (bk_window b) \<le> 2 ^ 40"
  shows "bk_state (updateState now b) =
    (if length (bk_window b) < 5 then bk_state b
     else if length (bk_window b) \<le> 2 * error_count b then UNAVAILABLE
     else if length (bk_window b) \<le> 5 * error_count b then DEGRADED else HEALTHY)"
proof -
  have "bk_window (pruneWindow now b) = bk_window b" using assms(1,2) by (simp add: pruneWindow_def DEFAULT_CONFIG_def)
  then have same: "pruneWindow now b = b" by (simp add: pruneWindow_def)
  have e: "error_count b \<le> length (bk_window b)" by (simp add: error_count_def)
  show ?thesis
  proof (cases "length (bk_window b) < 5")
    case False
    then have n: "0 < length (bk_window b)" by linarith
    show ?thesis
      using half_threshold [OF n assms(3) e] fifth_threshold [OF n assms(3) e] False
      unfolding updateState_def Let_def same error_rate_def assms(1) by (simp add: DEFAULT_CONFIG_def transitionTo_def)
  qed (simp add: updateState_def same)
qed

theorem state_follows_error_rate_witness:
  "bk_state (updateState 10 ((new_breaker ''splunk'' DEFAULT_CONFIG 0)\<lparr>bk_window :=
     map (\<lambda>k. \<lparr>we_timestamp = 5, we_success = (k \<noteq> 0), we_latency_ms = 1\<rparr>) [0..<5]\<rparr>)) = DEGRADED"
  by (subst state_follows_error_rate) (simp_all add: new_breaker_def error_count_def upt_rec)

text \<open>
  An execution that is let through always returns: it makes at most one attempt more than the retries,
  returns the first value that arrives with the number of retries it took, and when every attempt fails it
  returns the last error, with a cached value or without any.
\<close>

theorem execute_returns:
  assumes "bk_state b \<noteq> UNAVAILABLE" and "length results = Suc (bc_maxRetries (bk_config b))"
  shows "\<exists>res. snd (execute now key results b) = Some res \<and>
    (case first_return results of
       Some (i, v) \<Rightarrow> cr_data res = v \<and> cr_retry_count res = i \<and> \<not> cr_from_cache res \<and> cr_error res = None
     | None \<Rightarrow> cr_retry_count res = bc_maxRetries (bk_config b) \<and> (\<exists>t m. last results = (t, Raised m) \<and> cr_error res = Some m) \<and>
         (cr_data res \<noteq> Null \<longrightarrow> cr_from_cache res))"
proof -
  have "begin_call now key b = (b, Inr \<lparr>ca_start = now, ca_key = key, ca_attempt = 0\<rparr>)" using assms(1) by (simp add: begin_call_def)
  then show ?thesis using finish_law [of results b "\<lparr>ca_start = now, ca_key = key, ca_attempt = 0\<rparr>"] assms(2)
    by (simp add: execute_def settled_as_def cong: option.case_cong)
qed

theorem execute_returns_witness:
  "\<exists>res. snd (execute 0 None [(1, Raised ''refused''), (2, Returned (Bool True)), (3, Raised ''x''), (4, Raised ''y'')]
       (new_breaker ''splunk'' DEFAULT_CONFIG 0)) = Some res \<and> cr_retry_count res = 1 \<and> cr_data res = Bool True"
  using execute_returns [of "new_breaker ''splunk'' DEFAULT_CONFIG 0"
      "[(1, Raised ''refused''), (2, Returned (Bool True)), (3, Raised ''x''), (4, Raised ''y'')]" 0 None]
  by (auto simp: new_breaker_def DEFAULT_CONFIG_def)

text \<open>
  The delay before a retry stays within twenty percent of one, two and four seconds for the default
  configuration, whatever the random number, in double arithmetic.
\<close>

theorem backoff_bounds:
  assumes "attempt \<in> {1, 2, 3}" and "0 \<le> r" "r \<le> 1"
  shows "in_range (800 * 2 ^ (attempt - 1)) (1200 * 2 ^ (attempt - 1)) (computeBackoff DEFAULT_CONFIG attempt (Fin r))"
proof -
  obtain x where x: "jsub (jmul (Fin r) (Fin 2)) (Fin 1) = Fin x" "- 1 \<le> x" "x \<le> 1"
  proof -
    have "in_range 0 2 (jmul (Fin r) (Fin 2))" using assms(2,3) by (intro in_range_mul [of 0 1 _ 2 2]) simp_all
    then have "in_range (- 1) 1 (jsub (jmul (Fin r) (Fin 2)) (Fin 1))" by (intro in_range_sub [of 0 2 _ 1 1]) simp_all
    then show thesis using that by (auto simp: in_range_iff)
  qed
  have jit: "in_range (- of_int n) (of_int n) (jmul (Fin (of_int n)) (Fin x))" if "0 \<le> n" "n \<le> 2 ^ 53" for n
    using that x(2,3) in_range_rnd [of "- of_int n" "of_int n * x" "of_int n" "- of_int n" "of_int n"]
      rnd64_of_int [of n] rnd64_of_int [of "- n"] mult_left_mono [of "-1" x "of_int n"] mult_left_mono [of x 1 "of_int n"] by auto
  have "computeBackoff DEFAULT_CONFIG attempt (Fin r) = jround (jadd (Fin (1000 * 2 ^ (attempt - 1))) (jmul (Fin (of_int (200 * 2 ^ (attempt - 1)))) (Fin x)))"
    using assms(1) tenth_two x(1) unfolding computeBackoff_def Let_def by (auto simp: DEFAULT_CONFIG_def)
  moreover have "in_range (of_int (800 * 2 ^ (attempt - 1))) (of_int (1200 * 2 ^ (attempt - 1)))
      (jround (jadd (Fin (1000 * 2 ^ (attempt - 1))) (jmul (Fin (of_int (200 * 2 ^ (attempt - 1)))) (Fin x))))"
    by (intro in_range_round in_range_add [OF _ jit, of "1000 * 2 ^ (attempt - 1)" "1000 * 2 ^ (attempt - 1)"]) (use assms(1) in auto)
  ultimately show ?thesis by simp
qed

theorem backoff_bounds_witness: "in_range 3200 4800 (computeBackoff DEFAULT_CONFIG 3 (Fin (1 / 2)))"
  using backoff_bounds [of 3 "1 / 2"] by simp

end
