(* ===== verification/Provider.thy ===== *)
theory Provider
  imports JsValue
begin

text \<open>
  Choosing a language model: \<open>apps/api/services/ai-provider-state-machine.ts\<close>, and the router that
  makes the calls, \<open>agents/reasoning/llm-router.ts\<close>. What the two services answer is an argument, and
  the calls made are returned with the answer. A mode is the text of the setting.
\<close>

section \<open>State machine\<close>

datatype provider_state = READY | RUNNING | PARTIAL | FAILED

datatype provider = Ollama | Anthropic

record provider_config =
  pv_mode :: string
  pv_localUrl :: string
  pv_localModel :: string
  pv_anthropicApiKey :: "string option"
  pv_anthropicModel :: string

record provider_decision =
  pd_state :: provider_state
  pd_provider :: "provider option"
  pd_canProceed :: bool
  pd_reason :: "string option"
  pd_fallbackReason :: "string option"

definition ready :: "provider \<Rightarrow> string option \<Rightarrow> provider_decision" where
  "ready p fallback = \<lparr>pd_state = READY, pd_provider = Some p, pd_canProceed = True, pd_reason = None, pd_fallbackReason = fallback\<rparr>"

definition decideProvider :: "provider_config \<Rightarrow> bool \<Rightarrow> bool \<Rightarrow> provider_decision" where
  "decideProvider cfg ollamaHealthy anthropicKeyExists =
     (if pv_mode cfg = ''local_only'' then
        (if ollamaHealthy then ready Ollama None
         else \<lparr>pd_state = FAILED, pd_provider = None, pd_canProceed = False,
               pd_reason = Some ''Local model unavailable and fallback not configured'',
               pd_fallbackReason = Some ''LOCAL_MODEL_DOWN__NO_FALLBACK''\<rparr>)
      else if pv_mode cfg = ''local_then_anthropic'' then
        (if ollamaHealthy then ready Ollama None
         else if anthropicKeyExists then ready Anthropic (Some ''OLLAMA_DOWN__USING_ANTHROPIC'')
         else \<lparr>pd_state = PARTIAL, pd_provider = None, pd_canProceed = True,
               pd_reason = Some ''Ollama is down and Anthropic fallback not configured'',
               pd_fallbackReason = Some ''OLLAMA_DOWN__NO_ANTHROPIC_KEY''\<rparr>)
      else if pv_mode cfg = ''anthropic_only'' then
        (if \<not> anthropicKeyExists
         then \<lparr>pd_state = FAILED, pd_provider = None, pd_canProceed = False,
               pd_reason = Some ''Anthropic mode selected but no API key configured'',
               pd_fallbackReason = Some ''ANTHROPIC_MODE__NO_KEY''\<rparr>
         else ready Anthropic None)
      else \<lparr>pd_state = FAILED, pd_provider = None, pd_canProceed = False, pd_reason = Some (''Unknown mode: '' @ pv_mode cfg),
            pd_fallbackReason = None\<rparr>)"

definition newline :: string where
  "newline = [CHR 0x0A]"

text \<open>The arrow of the messages, as its UTF-8 bytes.\<close>

definition arrow :: string where
  "arrow = [CHR 0xE2, CHR 0x86, CHR 0x92]"

definition getCustomerMessage :: "provider_decision \<Rightarrow> string" where
  "getCustomerMessage d =
     (if pd_canProceed d \<and> pd_provider d \<noteq> None
      then ''Using '' @ (if pd_provider d = Some Ollama then ''local model'' else ''Anthropic'') @ '' for recommendations.''
      else if pd_state d = PARTIAL
      then join newline [''AI Recommendations Unavailable'', [], ''Data refresh completed successfully.'',
             ''Recommendation generation could not run because'', ''the configured AI provider is unavailable.'', [],
             ''Action: Open Settings '' @ arrow @ '' AI'']
      else join newline [''AI Pipeline Failed'', [], ''Local model unavailable and fallback not configured.'', [], ''Action:'',
             ''1. Start Ollama, OR'', ''2. Open Settings '' @ arrow @ '' AI and configure Anthropic''])"

definition present :: "string option \<Rightarrow> bool" where
  "present x = (case x of Some s \<Rightarrow> s \<noteq> [] | None \<Rightarrow> False)"

definition validate_provider :: "provider_config \<Rightarrow> string list" where
  "validate_provider cfg =
     (if pv_localUrl cfg = [] then [''Local model URL not configured''] else []) @
     (if pv_localModel cfg = [] then [''Local model name not configured''] else []) @
     (if (pv_mode cfg = ''anthropic_only'' \<or> pv_mode cfg = ''local_then_anthropic'') \<and> \<not> present (pv_anthropicApiKey cfg) \<and>
         pv_mode cfg = ''anthropic_only''
      then [''Anthropic-only mode selected but no API key provided''] else [])"

text \<open>The environment variables the module and the router read.\<close>

record ai_environment =
  ae_mode :: "string option"
  ae_ollama_url :: "string option"
  ae_llm_model :: "string option"
  ae_anthropic_key :: "string option"
  ae_anthropic_model :: "string option"
  ae_enable_fallback :: "string option"

definition or_default :: "string option \<Rightarrow> string \<Rightarrow> string" where
  "or_default x d = (case x of Some s \<Rightarrow> if s = [] then d else s | None \<Rightarrow> d)"

definition createAIProviderStateMachine :: "ai_environment \<Rightarrow> provider_config" where
  "createAIProviderStateMachine env =
     \<lparr>pv_mode = or_default (ae_mode env) ''local_only'', pv_localUrl = or_default (ae_ollama_url env) ''http://localhost:11434'',
      pv_localModel = or_default (ae_llm_model env) ''gemma2:9b'', pv_anthropicApiKey = ae_anthropic_key env,
      pv_anthropicModel = or_default (ae_anthropic_model env) ''claude-3-5-sonnet-20241022''\<rparr>"

section \<open>Router\<close>

text \<open>
  Whether the router has a client for the paid service; making one needs the key, so it cannot fail
  where it is tried.
\<close>

definition anthropicEnabled :: "ai_environment \<Rightarrow> bool" where
  "anthropicEnabled env = (ae_enable_fallback env = Some ''true'' \<and> present (ae_anthropic_key env))"

text \<open>What the services answer: a text, or the message of an error.\<close>

record llm_services =
  ls_ollama :: "string + string"
  ls_anthropic :: "string + string"
  ls_ollama_healthy :: bool
  ls_anthropic_healthy :: bool

definition generate :: "ai_environment \<Rightarrow> llm_services \<Rightarrow> provider list \<times> (string + (string \<times> provider))" where
  "generate env sv =
     (case ls_ollama sv of
        Inr response \<Rightarrow> ([Ollama], Inr (response, Ollama))
      | Inl e \<Rightarrow>
          if anthropicEnabled env
          then (case ls_anthropic sv of
                  Inr response \<Rightarrow> ([Ollama, Anthropic], Inr (response, Anthropic))
                | Inl e' \<Rightarrow> ([Ollama, Anthropic], Inl (''All LLM providers failed: Ollama=['' @ e @ ''], Anthropic=['' @ e' @ '']'')))
          else ([Ollama], Inl (''Inference unavailable: local Ollama failed and Anthropic fallback is disabled. Error: '' @ e)))"

definition isHealthy :: "ai_environment \<Rightarrow> llm_services \<Rightarrow> provider list \<times> bool" where
  "isHealthy env sv =
     (if ls_ollama_healthy sv then ([Ollama], True)
      else if anthropicEnabled env then ([Ollama, Anthropic], ls_anthropic_healthy sv)
      else ([Ollama], False))"

section \<open>Properties\<close>

text \<open>The documented table of decisions, row by row; a dash is both values.\<close>

definition decision_table :: "(string \<times> bool list \<times> bool list \<times> provider_state \<times> provider option) list" where
  "decision_table =
     [(''local_only'', [True], [True, False], READY, Some Ollama),
      (''local_only'', [False], [True, False], FAILED, None),
      (''local_then_anthropic'', [True], [True], READY, Some Ollama),
      (''local_then_anthropic'', [False], [True], READY, Some Anthropic),
      (''local_then_anthropic'', [False], [False], PARTIAL, None),
      (''anthropic_only'', [True, False], [True], READY, Some Anthropic),
      (''anthropic_only'', [True, False], [False], FAILED, None)]"

lemma decision_table_law:
  "\<forall>(mode, ups, keys, state, prov)\<in>set decision_table. \<forall>up\<in>set ups. \<forall>key\<in>set keys. \<forall>cfg. pv_mode cfg = mode \<longrightarrow>
     pd_state (decideProvider cfg up key) = state \<and> pd_provider (decideProvider cfg up key) = prov"
  by (simp add: decision_table_def decideProvider_def ready_def)

text \<open>
  The router does not follow the state machine: with the fallback enabled and a key set, in every mode
  a generation first calls the local model and after its failure the paid service, so that in the mode
  that promises never to call the paid service a local model that is down is reported as ready whenever
  the paid one is healthy, and the prompt is answered by it.
\<close>

theorem local_only_reaches_anthropic:
  assumes "pv_mode cfg = ''local_only''" and "anthropicEnabled env" and "\<not> ls_ollama_healthy sv" and "ls_anthropic_healthy sv"
    and "ls_ollama sv = Inl e" and "ls_anthropic sv = Inr text"
  shows "pd_provider (decideProvider cfg (snd (isHealthy env sv)) key) = Some Ollama \<and>
    generate env sv = ([Ollama, Anthropic], Inr (text, Anthropic))"
  using assms by (simp add: isHealthy_def decideProvider_def ready_def generate_def)

definition fallback_environment :: ai_environment where
  "fallback_environment = \<lparr>ae_mode = None, ae_ollama_url = None, ae_llm_model = None, ae_anthropic_key = Some ''sk'',
     ae_anthropic_model = None, ae_enable_fallback = Some ''true''\<rparr>"

definition ollama_down :: llm_services where
  "ollama_down = \<lparr>ls_ollama = Inl ''refused'', ls_anthropic = Inr ''{}'', ls_ollama_healthy = False, ls_anthropic_healthy = True\<rparr>"

theorem local_only_reaches_anthropic_witness:
  "snd (generate fallback_environment ollama_down) = Inr (''{}'', Anthropic) \<and>
   pv_mode (createAIProviderStateMachine fallback_environment) = ''local_only''"
proof -
  have "pv_mode (createAIProviderStateMachine fallback_environment) = ''local_only''"
    by (simp add: createAIProviderStateMachine_def fallback_environment_def or_default_def)
  then show ?thesis
    using local_only_reaches_anthropic [of "createAIProviderStateMachine fallback_environment" fallback_environment ollama_down]
    by (simp add: anthropicEnabled_def fallback_environment_def ollama_down_def present_def)
qed

end
