(* ===== verification/LlmAgent.thy ===== *)
theory LlmAgent
  imports Provider Scoring
begin

text \<open>
  The agent that asks a language model for decisions, \<open>apps/api/agents/llm-decision-agent.ts\<close>, and the
  guardrails on its answers, \<open>apps/api/services/llm-output-guardrails.ts\<close>. The model's replies,
  \<open>JSON.parse\<close> and \<open>JSON.stringify\<close> are arguments; prompts, metric callbacks and console lines are left out.
\<close>

section \<open>Data\<close>

record precomputed =
  ps_utilization :: jsnum
  ps_detection :: jsnum
  ps_quality :: jsnum
  ps_composite :: jsnum
  ps_tier :: string
  ps_detectionGap :: bool
  ps_operationalGap :: bool

record telemetry_input =
  ti_index :: string
  ti_sourcetype :: "string option"
  ti_dailyAvgGb :: jsnum
  ti_scores :: "precomputed option"

text \<open>A decision as it leaves the agent: what the model wrote, with null where a number is missing.\<close>

record llm_decision =
  ld_index :: js
  ld_sourcetype :: js
  ld_tier :: js
  ld_action :: js
  ld_composite :: "jsnum option"
  ld_utilization :: "jsnum option"
  ld_detection :: "jsnum option"
  ld_quality :: "jsnum option"
  ld_risk :: "jsnum option"
  ld_annualCost :: jsnum
  ld_estimatedSavings :: "jsnum option"
  ld_confidence :: js
  ld_confidenceScore :: "jsnum option"
  ld_recommendation :: js
  ld_reasoning :: js
  ld_evidence :: "js list"
  ld_quickWin :: bool
  ld_s3Candidate :: bool
  ld_detectionGap :: bool

section \<open>Reading a reply\<close>

text \<open>The greedy match of \<open>\{[\s\S]*\}\<close>: from the first opening to the last closing brace.\<close>

definition brace_match :: "string \<Rightarrow> string option" where
  "brace_match raw =
     (let t = rev (dropWhile (\<lambda>c. c \<noteq> CHR ''}'') (rev (dropWhile (\<lambda>c. c \<noteq> CHR ''{'') raw)))
      in if t = [] \<or> hd t \<noteq> CHR ''{'' then None else Some t)"

text \<open>
  The greedy match of \<open>\[\s*\{[\s\S]*\}\s*\]\<close>: from the first bracket before a brace to the last
  bracket after one.
\<close>

fun list_start :: "string \<Rightarrow> string option" where
  "list_start [] = None"
| "list_start (c # s) =
     (if c = CHR ''['' \<and> (case dropWhile is_space s of d # _ \<Rightarrow> d = CHR ''{'' | [] \<Rightarrow> False) then Some (c # s) else list_start s)"

fun list_end :: "string \<Rightarrow> string option" where
  "list_end [] = None"
| "list_end (c # s) =
     (if c = CHR '']'' \<and> (case dropWhile is_space s of d # _ \<Rightarrow> d = CHR ''}'' | [] \<Rightarrow> False) then Some (c # s) else list_end s)"

definition list_match :: "string \<Rightarrow> string option" where
  "list_match raw = (case list_start raw of None \<Rightarrow> None | Some t \<Rightarrow> map_option rev (list_end (rev t)))"

text \<open>The text that is found is parsed again by the caller, so the value is returned.\<close>

definition extractJson :: "(string \<Rightarrow> js option) \<Rightarrow> string \<Rightarrow> js option" where
  "extractJson json_parse raw =
     (case json_parse raw of
        Some v \<Rightarrow> Some v
      | None \<Rightarrow>
          (case Option.bind (brace_match raw) json_parse of
             Some v \<Rightarrow> Some v
           | None \<Rightarrow>
               (case Option.bind (list_match raw) json_parse of
                  Some (Arr (x # xs)) \<Rightarrow> Some (Obj [(''decisions'', Arr (x # xs))])
                | _ \<Rightarrow> None)))"

section \<open>Validation\<close>

definition VALID_TIERS :: "string list" where
  "VALID_TIERS = [''Critical'', ''Important'', ''Nice-to-Have'', ''Low-Value'']"

definition VALID_ACTIONS :: "string list" where
  "VALID_ACTIONS = [''KEEP'', ''OPTIMIZE'', ''ARCHIVE'', ''ELIMINATE'', ''S3_CANDIDATE'']"

definition numericFields :: "(string \<times> jsnum \<times> jsnum) list" where
  "numericFields = [(''compositeScore'', Fin 0, Fin 100), (''utilizationScore'', Fin 0, Fin 100), (''detectionScore'', Fin 0, Fin 100),
     (''qualityScore'', Fin 0, Fin 100), (''riskScore'', Fin 0, Fin 100), (''annualLicenseCost'', NegInf, Inf),
     (''estimatedSavings'', NegInf, Inf)]"

definition member :: "js \<Rightarrow> string \<Rightarrow> js" where
  "member v k = (case v of Obj fs \<Rightarrow> js_get fs k | _ \<Rightarrow> Undefined)"

definition in_set :: "string list \<Rightarrow> js \<Rightarrow> bool" where
  "in_set xs v = (case v of Str s \<Rightarrow> s \<in> set xs | _ \<Rightarrow> False)"

definition bad_number :: "jsnum \<Rightarrow> jsnum \<Rightarrow> js \<Rightarrow> bool" where
  "bad_number lo hi v = (case v of Num x \<Rightarrow> jlt x lo \<or> jlt hi x | _ \<Rightarrow> True)"

definition validateDecision :: "(js \<Rightarrow> string) \<Rightarrow> js \<Rightarrow> string option" where
  "validateDecision stringify d =
     (if (case d of Obj _ \<Rightarrow> False | Arr _ \<Rightarrow> False | _ \<Rightarrow> True) then Some ''not an object''
      else if (case member d ''index'' of Str s \<Rightarrow> trim s = [] | _ \<Rightarrow> True) then Some ''missing index''
      else if \<not> in_set VALID_TIERS (member d ''tier'') then Some (''invalid tier: '' @ js_string (member d ''tier''))
      else if \<not> in_set VALID_ACTIONS (member d ''action'') then Some (''invalid action: '' @ js_string (member d ''action''))
      else case find (\<lambda>(k, lo, hi). bad_number lo hi (member d k)) numericFields of
        Some (k, lo, hi) \<Rightarrow> Some (''invalid '' @ k @ '': got '' @ stringify (member d k) @ '' (expected number '' @
            num_string lo @ ''-'' @ num_string hi @ '')'')
      | None \<Rightarrow>
          if member d ''confidenceScore'' \<noteq> Undefined \<and> bad_number (Fin 0) (Fin 1) (member d ''confidenceScore'')
          then Some (''invalid confidenceScore: got '' @ stringify (member d ''confidenceScore'') @ '' (expected 0-1)'') else None)"

definition num_or_null :: "js \<Rightarrow> jsnum option" where
  "num_or_null v = (case v of Num x \<Rightarrow> Some x | _ \<Rightarrow> None)"

definition or_null :: "js \<Rightarrow> js" where
  "or_null v = (if js_truthy v then v else Null)"

definition annual_cost :: "jsnum \<Rightarrow> jsnum \<Rightarrow> jsnum" where
  "annual_cost daily rate = jround2 (jmul (jmul daily (Fin 365)) rate)"

definition input_for :: "telemetry_input list \<Rightarrow> nat \<Rightarrow> js \<Rightarrow> telemetry_input option" where
  "input_for inputs i index =
     (case find (\<lambda>inp. Str (ti_index inp) = index) inputs of
        Some inp \<Rightarrow> Some inp
      | None \<Rightarrow> if i < length inputs then Some (inputs ! i) else None)"

definition opt_str :: "string option \<Rightarrow> js" where
  "opt_str x = (case x of Some s \<Rightarrow> Str s | None \<Rightarrow> Undefined)"

definition default_decision :: "telemetry_input list \<Rightarrow> jsnum \<Rightarrow> nat \<Rightarrow> js \<Rightarrow> llm_decision" where
  "default_decision inputs rate i d =
     (let input = input_for inputs i (member d ''index'');
          annualCost = (case input of Some inp \<Rightarrow> annual_cost (ti_dailyAvgGb inp) rate | None \<Rightarrow> Fin 0)
      in \<lparr>ld_index = (if js_truthy (member d ''index'') then member d ''index''
                      else case input of Some inp \<Rightarrow> Str (ti_index inp) | None \<Rightarrow> Str (''unknown_'' @ nat_str i)),
          ld_sourcetype = (if js_truthy (member d ''sourcetype'') then member d ''sourcetype''
                           else case input of Some inp \<Rightarrow> opt_str (ti_sourcetype inp) | None \<Rightarrow> Undefined),
          ld_tier = or_null (member d ''tier''), ld_action = or_null (member d ''action''),
          ld_composite = num_or_null (member d ''compositeScore''), ld_utilization = num_or_null (member d ''utilizationScore''),
          ld_detection = num_or_null (member d ''detectionScore''), ld_quality = num_or_null (member d ''qualityScore''),
          ld_risk = num_or_null (member d ''riskScore''),
          ld_annualCost = (case num_or_null (member d ''annualLicenseCost'') of Some x \<Rightarrow> x | None \<Rightarrow> annualCost),
          ld_estimatedSavings = num_or_null (member d ''estimatedSavings''), ld_confidence = or_null (member d ''confidence''),
          ld_confidenceScore = num_or_null (member d ''confidenceScore''), ld_recommendation = or_null (member d ''recommendation''),
          ld_reasoning = or_null (member d ''reasoning''),
          ld_evidence = (case member d ''evidence'' of Arr xs \<Rightarrow> xs | _ \<Rightarrow> []),
          ld_quickWin = js_truthy (member d ''isQuickWin''), ld_s3Candidate = js_truthy (member d ''isS3Candidate''),
          ld_detectionGap = js_truthy (member d ''detectionGap'')\<rparr>)"

text \<open>Reading a member of null or undefined throws.\<close>

definition applyDefaults :: "js list \<Rightarrow> telemetry_input list \<Rightarrow> jsnum \<Rightarrow> llm_decision list option" where
  "applyDefaults decisions inputs rate =
     (if list_ex (\<lambda>d. d = Null \<or> d = Undefined) decisions then None
      else Some (map (\<lambda>(i, d). default_decision inputs rate i d) (enumerate 0 decisions)))"

section \<open>Summaries\<close>

record tier_counts =
  tc_critical :: nat
  tc_important :: nat
  tc_niceToHave :: nat
  tc_lowValue :: nat

text \<open>Values the model's reply may supply are JavaScript values.\<close>

record agent_summary =
  as_decisions :: "llm_decision list"
  as_roiScore :: jsnum
  as_gainScope :: jsnum
  as_totalLicenseSpend :: jsnum
  as_lowValueSpend :: js
  as_storageSavings :: jsnum
  as_totalDailyGb :: jsnum
  as_totalSourcetypes :: nat
  as_tierCounts :: tier_counts
  as_securityGaps :: js
  as_operationalGaps :: js
  as_avgUtilization :: jsnum
  as_avgDetection :: jsnum
  as_avgQuality :: jsnum
  as_avgConfidence :: jsnum
  as_quickWins :: js
  as_savingsStaircase :: js
  as_agentReasoning :: js

definition null_zero :: "jsnum option \<Rightarrow> jsnum" where
  "null_zero x = (case x of Some v \<Rightarrow> v | None \<Rightarrow> Fin 0)"

definition total :: "('a \<Rightarrow> jsnum) \<Rightarrow> 'a list \<Rightarrow> jsnum" where
  "total f xs = foldl (\<lambda>s x. jadd s (f x)) (Fin 0) xs"

definition num_of :: "nat \<Rightarrow> jsnum" where
  "num_of n = Fin (of_nat n)"

section \<open>Without a model\<close>

definition default_scores :: precomputed where
  "default_scores = \<lparr>ps_utilization = Fin 0, ps_detection = Fin 0, ps_quality = Fin 100, ps_composite = Fin 0, ps_tier = ''Low-Value'',
     ps_detectionGap = False, ps_operationalGap = False\<rparr>"

definition default_action :: "jsnum \<Rightarrow> string" where
  "default_action composite =
     (if jle (Fin 65) composite then ''KEEP'' else if jle (Fin 40) composite then ''KEEP''
      else if jle (Fin 20) composite then ''OPTIMIZE'' else ''ELIMINATE'')"

definition partial_decision :: "jsnum \<Rightarrow> telemetry_input \<Rightarrow> llm_decision" where
  "partial_decision rate inp =
     (let scores = (case ti_scores inp of Some s \<Rightarrow> s | None \<Rightarrow> default_scores)
      in \<lparr>ld_index = Str (ti_index inp), ld_sourcetype = opt_str (ti_sourcetype inp),
          ld_tier = Str (if ps_tier scores = [] then ''Low-Value'' else ps_tier scores), ld_action = Str (default_action (ps_composite scores)),
          ld_composite = Some (ps_composite scores), ld_utilization = Some (ps_utilization scores), ld_detection = Some (ps_detection scores),
          ld_quality = Some (ps_quality scores), ld_risk = Some (jsub (Fin 100) (ps_composite scores)),
          ld_annualCost = annual_cost (ti_dailyAvgGb inp) rate, ld_estimatedSavings = Some (Fin 0), ld_confidence = Str ''LOW'',
          ld_confidenceScore = Some (Fin (1 / 2)), ld_recommendation = Str ''Data available but AI reasoning unavailable.'',
          ld_reasoning = Str ''Scores are pre-computed deterministically. LLM reasoning is temporarily unavailable.'', ld_evidence = [],
          ld_quickWin = False, ld_s3Candidate = False, ld_detectionGap = ps_detectionGap scores\<rparr>)"

definition buildPartialResponseFromPrecomputedScores :: "telemetry_input list \<Rightarrow> jsnum \<Rightarrow> agent_summary" where
  "buildPartialResponseFromPrecomputedScores inputs rate =
     (let decisions = map (partial_decision rate) inputs;
          lowValueSpend = total ld_annualCost (filter (\<lambda>d. ld_tier d = Str ''Low-Value'') decisions);
          number = (\<lambda>t. length (filter (\<lambda>d. ld_tier d = Str t) decisions));
          counts = \<lparr>tc_critical = number ''Critical'', tc_important = number ''Important'', tc_niceToHave = number ''Nice-to-Have'',
                    tc_lowValue = number ''Low-Value''\<rparr>;
          n = num_of (if decisions = [] then 1 else length decisions);
          avgUtil = jdiv (total (\<lambda>d. null_zero (ld_utilization d)) decisions) n
      in \<lparr>as_decisions = decisions, as_roiScore = avgUtil,
          as_gainScope = jmul (jdiv (num_of (tc_critical counts + tc_important counts)) n) (Fin 100),
          as_totalLicenseSpend = total ld_annualCost decisions, as_lowValueSpend = Num lowValueSpend,
          as_storageSavings = jmul lowValueSpend (Fin (1 / 2)), as_totalDailyGb = total ti_dailyAvgGb inputs,
          as_totalSourcetypes = length inputs, as_tierCounts = counts, as_securityGaps = Num (Fin 0), as_operationalGaps = Num (Fin 0),
          as_avgUtilization = avgUtil, as_avgDetection = jdiv (total (\<lambda>d. null_zero (ld_detection d)) decisions) n,
          as_avgQuality = jdiv (total (\<lambda>d. null_zero (ld_quality d)) decisions) n, as_avgConfidence = Fin (1 / 2),
          as_quickWins = Arr [], as_savingsStaircase = Arr [],
          as_agentReasoning =
            Str ''AI recommendation engine is temporarily unavailable. Displaying pre-computed deterministic scores only.''\<rparr>)"

section \<open>Batches\<close>

record model_reply =
  mr_generated :: "string + (string \<times> provider)"
  mr_aborted :: bool

record json_library =
  jl_parse :: "string \<Rightarrow> js option"
  jl_stringify :: "js \<Rightarrow> string"

definition MAX_ATTEMPTS :: nat where
  "MAX_ATTEMPTS = 2"

datatype attempt_result = Retry string | Stop string | Done "llm_decision list" js

definition attempt_batch ::
  "json_library \<Rightarrow> jsnum \<Rightarrow> nat \<Rightarrow> nat \<Rightarrow> telemetry_input list \<Rightarrow> model_reply \<Rightarrow> attempt_result" where
  "attempt_batch lib rate batchIdx attempt batch reply =
     (case mr_generated reply of
        Inl e \<Rightarrow>
          (if mr_aborted reply then Stop (''LLM batch '' @ nat_str (batchIdx + 1) @ '' aborted'')
           else Stop (''LLM call failed (batch '' @ nat_str (batchIdx + 1) @ '', attempt '' @ nat_str attempt @ ''): '' @ e))
      | Inr (raw, _) \<Rightarrow>
          (case extractJson (jl_parse lib) raw of
             None \<Rightarrow> Retry (''Invalid JSON (attempt '' @ nat_str attempt @ ''). Raw: '' @ take 200 raw)
           | Some parsed \<Rightarrow>
               if parsed = Null then Stop ''Cannot read properties of null''
               else (case member parsed ''decisions'' of
                  Arr ds \<Rightarrow>
                    (let valid = filter (\<lambda>d. validateDecision (jl_stringify lib) d = None) ds
                     in if valid = [] \<and> attempt < MAX_ATTEMPTS
                        then Retry (''All decisions failed validation (attempt '' @ nat_str attempt @ '')'')
                        else (case applyDefaults (if valid \<noteq> [] then valid else ds) batch rate of
                                Some decisions \<Rightarrow> Done decisions parsed
                              | None \<Rightarrow> Stop ''Cannot read properties of null''))
                | _ \<Rightarrow> Retry (''Missing '' @ dquote @ ''decisions'' @ dquote @ '' array (attempt '' @ nat_str attempt @ '')''))))"

fun processBatch ::
  "json_library \<Rightarrow> jsnum \<Rightarrow> nat \<Rightarrow> telemetry_input list \<Rightarrow> (nat \<Rightarrow> model_reply) \<Rightarrow> nat list \<Rightarrow> string \<Rightarrow>
   string + (llm_decision list \<times> js)" where
  "processBatch lib rate batchIdx batch replies [] lastErr =
     Inl (''Batch '' @ nat_str (batchIdx + 1) @ '' failed after '' @ nat_str MAX_ATTEMPTS @ '' attempts: '' @ lastErr)"
| "processBatch lib rate batchIdx batch replies (attempt # later) lastErr =
     (case attempt_batch lib rate batchIdx attempt batch (replies attempt) of
        Retry e \<Rightarrow> processBatch lib rate batchIdx batch replies later e
      | Stop e \<Rightarrow> Inl e
      | Done ds parsed \<Rightarrow> Inr (ds, parsed))"

text \<open>Batches of one input, one after the other; the first failure ends the run.\<close>

fun run_batches ::
  "json_library \<Rightarrow> jsnum \<Rightarrow> (nat \<Rightarrow> nat \<Rightarrow> model_reply) \<Rightarrow> nat \<Rightarrow> telemetry_input list \<Rightarrow> string + (llm_decision list \<times> js) list" where
  "run_batches lib rate replies i [] = Inr []"
| "run_batches lib rate replies i (inp # rest) =
     (case processBatch lib rate i [inp] (replies i) [1..<Suc MAX_ATTEMPTS] [] of
        Inl e \<Rightarrow> Inl e
      | Inr r \<Rightarrow>
          (case run_batches lib rate replies (i + 1) rest of
             Inl e \<Rightarrow> Inl e
           | Inr rs \<Rightarrow> Inr (r # rs)))"

section \<open>The run\<close>

definition summary_of :: "telemetry_input list \<Rightarrow> llm_decision list \<Rightarrow> js \<Rightarrow> agent_summary" where
  "summary_of inputs ds p =
     (let n = num_of (length ds);
          is = (\<lambda>t d. ld_tier d = Str t);
          lowValueSpend = total ld_annualCost
            (filter (\<lambda>d. is ''Low-Value'' d \<or> ld_action d = Str ''ELIMINATE'' \<or> ld_action d = Str ''ARCHIVE'') ds);
          counts = \<lparr>tc_critical = length (filter (is ''Critical'') ds), tc_important = length (filter (is ''Important'') ds),
                    tc_niceToHave = length (filter (is ''Nice-to-Have'') ds),
                    tc_lowValue = length (filter (\<lambda>d. \<not> is ''Critical'' d \<and> \<not> is ''Important'' d \<and> \<not> is ''Nice-to-Have'' d) ds)\<rparr>;
          avg = (\<lambda>f. jdiv (total f ds) n);
          ownSavings = total (\<lambda>d. if js_truthy (Num (null_zero (ld_estimatedSavings d))) then null_zero (ld_estimatedSavings d) else Fin 0)
            (filter (\<lambda>d. ld_action d = Str ''ELIMINATE'' \<or> ld_action d = Str ''ARCHIVE'' \<or> ld_action d = Str ''OPTIMIZE'') ds)
      in \<lparr>as_decisions = ds, as_roiScore = Fin 0, as_gainScope = Fin 0,
          as_totalLicenseSpend = (case member p ''totalLicenseSpend'' of Num x \<Rightarrow> x | _ \<Rightarrow> total ld_annualCost ds),
          as_lowValueSpend = (if js_truthy (member p ''licenseSpendLowValue'') then member p ''licenseSpendLowValue'' else Num lowValueSpend),
          as_storageSavings = (case member p ''storageSavingsPotential'' of Num x \<Rightarrow> if jle (Fin 0) x then x else ownSavings | _ \<Rightarrow> ownSavings),
          as_totalDailyGb = total ti_dailyAvgGb inputs, as_totalSourcetypes = length inputs, as_tierCounts = counts,
          as_securityGaps = (case member p ''securityGaps'' of Undefined \<Rightarrow> Num (Fin 0) | Null \<Rightarrow> Num (Fin 0) | v \<Rightarrow> v),
          as_operationalGaps = (case member p ''operationalGaps'' of Undefined \<Rightarrow> Num (Fin 0) | Null \<Rightarrow> Num (Fin 0) | v \<Rightarrow> v),
          as_avgUtilization = jround (avg (\<lambda>d. null_zero (ld_utilization d))), as_avgDetection = jround (avg (\<lambda>d. null_zero (ld_detection d))),
          as_avgQuality = jround (avg (\<lambda>d. null_zero (ld_quality d))),
          as_avgConfidence = jround (jmul (avg (\<lambda>d. null_zero (ld_confidenceScore d))) (Fin 100)),
          as_quickWins = (if js_truthy (member p ''quickWins'') then member p ''quickWins'' else Arr []),
          as_savingsStaircase = member p ''savingsStaircase'',
          as_agentReasoning = or_null (member p ''agentReasoning'')\<rparr>)"

definition runLLMDecisionAgent ::
  "json_library \<Rightarrow> ai_environment \<Rightarrow> llm_services \<Rightarrow> jsnum \<Rightarrow> (nat \<Rightarrow> nat \<Rightarrow> model_reply) \<Rightarrow> telemetry_input list \<Rightarrow> string + agent_summary" where
  "runLLMDecisionAgent lib env sv rate replies inputs =
     (if inputs = [] then Inl ''No telemetry inputs provided to LLM decision agent''
      else (let decision = decideProvider (createAIProviderStateMachine env) (snd (isHealthy env sv)) (present (ae_anthropic_key env))
            in case pd_state decision of
                 FAILED \<Rightarrow> Inl (getCustomerMessage decision)
               | PARTIAL \<Rightarrow> Inr (buildPartialResponseFromPrecomputedScores inputs rate)
               | RUNNING \<Rightarrow> Inl ''Unexpected provider state: running''
               | READY \<Rightarrow>
                   (case run_batches lib rate replies 0 inputs of
                      Inl e \<Rightarrow> Inl e
                    | Inr results \<Rightarrow> Inr (summary_of inputs (concat (map fst results)) (snd (hd results))))))"

section \<open>Guardrails\<close>

definition tier_efficiency :: "tier \<Rightarrow> jsnum" where
  "tier_efficiency t = (case t of Low_Value \<Rightarrow> jlit (90 / 100) | Nice_to_Have \<Rightarrow> jlit (60 / 100) | Important \<Rightarrow> jlit (25 / 100)
     | Critical \<Rightarrow> jlit (5 / 100))"

definition computeMaxSavings :: "jsnum \<Rightarrow> jsnum \<Rightarrow> tier \<Rightarrow> jsnum \<Rightarrow> jsnum" where
  "computeMaxSavings dailyGb annualCostUsd t rate =
     (let annualCostEstimate = (if jlt (Fin 0) annualCostUsd then annualCostUsd else jmul (jmul dailyGb (Fin 365)) rate)
      in jround2 (jmul annualCostEstimate (tier_efficiency t)))"

definition isQuickWinAllowed :: "tier \<Rightarrow> jsnum \<Rightarrow> jsnum \<Rightarrow> bool" where
  "isQuickWinAllowed t composite dailyGb =
     ((t = Low_Value \<or> t = Nice_to_Have) \<and> jlt composite (Fin 40) \<and> jle (Fin (1 / 2)) dailyGb)"

definition clampConfidence :: "jsnum \<Rightarrow> jsnum \<Rightarrow> jsnum" where
  "clampConfidence llmConfidence composite =
     (let clamped = jmax (Fin 0) (jmin (Fin 1) llmConfidence);
          isAmbiguous = (jle (Fin 20) composite \<and> jlt composite (Fin 65))
      in if isAmbiguous \<and> jlt (jlit (85 / 100)) clamped then jlit (85 / 100) else jround2 clamped)"

record scored_bounds =
  sb_tier :: tier
  sb_composite :: jsnum
  sb_dailyGb :: jsnum
  sb_annualCostUsd :: jsnum

record guardrail_result =
  gr_decision :: llm_decision
  gr_savingsClamped :: bool
  gr_quickWinRevoked :: bool
  gr_confidenceClamped :: bool

definition applyGuardrails :: "llm_decision \<Rightarrow> scored_bounds option \<Rightarrow> jsnum \<Rightarrow> guardrail_result" where
  "applyGuardrails d scored rate =
     (case scored of
        None \<Rightarrow> \<lparr>gr_decision = d, gr_savingsClamped = False, gr_quickWinRevoked = False, gr_confidenceClamped = False\<rparr>
      | Some s \<Rightarrow>
          (let savings = null_zero (ld_estimatedSavings d); confidence = null_zero (ld_confidenceScore d);
               clampedSavings = jmin savings (computeMaxSavings (sb_dailyGb s) (sb_annualCostUsd s) (sb_tier s) rate);
               allowed = isQuickWinAllowed (sb_tier s) (sb_composite s) (sb_dailyGb s);
               clampedConfidence = clampConfidence confidence (sb_composite s)
           in \<lparr>gr_decision = d\<lparr>ld_estimatedSavings := Some clampedSavings, ld_quickWin := ld_quickWin d \<and> allowed,
                               ld_confidenceScore := Some clampedConfidence\<rparr>,
               gr_savingsClamped = jlt clampedSavings savings, gr_quickWinRevoked = (ld_quickWin d \<and> \<not> allowed),
               gr_confidenceClamped = jlt clampedConfidence confidence\<rparr>))"

definition scored_key :: "llm_decision \<Rightarrow> string" where
  "scored_key d = js_string (ld_index d) @ ''::'' @ (if js_truthy (ld_sourcetype d) then js_string (ld_sourcetype d) else ''_'')"

definition applyGuardrailsToBatch ::
  "llm_decision list \<Rightarrow> (string \<Rightarrow> scored_bounds option) \<Rightarrow> jsnum \<Rightarrow> llm_decision list \<times> nat \<times> nat \<times> nat" where
  "applyGuardrailsToBatch ds scoredMap rate =
     (let rs = map (\<lambda>d. applyGuardrails d (scoredMap (scored_key d)) rate) ds
      in (map gr_decision rs, length (filter gr_savingsClamped rs), length (filter gr_quickWinRevoked rs),
          length (filter gr_confidenceClamped rs)))"

section \<open>Laws\<close>

lemma lit85: "jlit (85 / 100) = Fin (7656119366529843 / 2 ^ 53)"
  by code_simp

lemma jround2_fixed: "jround2 (Fin 0) = Fin 0" "jround2 (Fin 1) = Fin 1" "jround2 (jlit (85 / 100)) = jlit (85 / 100)"
  by code_simp+

lemma in_range_jle: "jle (Fin a) x \<Longrightarrow> jle x (Fin b) \<Longrightarrow> in_range a b x"
  by (cases x) auto

lemma clampConfidence_law:
  assumes "c \<noteq> NaN"
  shows "in_range 0 1 (clampConfidence c composite)"
    and "jle (Fin 20) composite \<and> jlt composite (Fin 65) \<longrightarrow> jle (clampConfidence c composite) (jlit (85 / 100))"
proof -
  let ?k = "jmax (Fin 0) (jmin (Fin 1) c)"
  have k: "in_range 0 1 ?k" using assms by (cases c) (auto simp: jmin_def jmax_def)
  then have b: "jle (Fin 0) ?k" "jle ?k (Fin 1)" by (auto simp: in_range_iff)
  have r: "in_range 0 1 (jround2 ?k)"
    using jle_round2 [OF b(1)] jle_round2 [OF b(2)] unfolding jround2_fixed by (rule in_range_jle)
  have l: "in_range 0 1 (jlit (85 / 100))" unfolding lit85 by simp
  show "in_range 0 1 (clampConfidence c composite)"
    using r l by (simp add: clampConfidence_def Let_def)
  have "jle (jround2 ?k) (jlit (85 / 100))" if "\<not> jlt (jlit (85 / 100)) ?k"
  proof -
    have "?k \<noteq> NaN" using k by (auto simp: in_range_iff)
    moreover have "jlit (85 / 100) \<noteq> NaN" unfolding lit85 by simp
    ultimately have "jle ?k (jlit (85 / 100))" using that jle_not_jlt by blast
    from jle_round2 [OF this] show ?thesis unfolding jround2_fixed .
  qed
  moreover have "jle (jlit (85 / 100)) (jlit (85 / 100))" unfolding lit85 by simp
  ultimately show "jle (Fin 20) composite \<and> jlt composite (Fin 65) \<longrightarrow>
      jle (clampConfidence c composite) (jlit (85 / 100))"
    by (auto simp: clampConfidence_def Let_def)
qed

lemma jmin_le: "x \<noteq> NaN \<Longrightarrow> y \<noteq> NaN \<Longrightarrow> jle (jmin x y) x \<and> jle (jmin x y) y"
  by (cases x; cases y) (auto simp: jmin_def)

lemma attempt_all_invalid:
  assumes "mr_generated reply = Inr (raw, pr)" "extractJson (jl_parse lib) raw = Some v" "member v ''decisions'' = Arr ds"
    "\<forall>d \<in> set ds. validateDecision (jl_stringify lib) d \<noteq> None" "MAX_ATTEMPTS \<le> attempt"
    "applyDefaults ds batch rate = Some out"
  shows "attempt_batch lib rate b attempt batch reply = Done out v"
proof -
  have "v \<noteq> Null" using assms(3) by (auto simp: member_def)
  moreover have "filter (\<lambda>d. validateDecision (jl_stringify lib) d = None) ds = []"
    using assms(4) by (simp add: filter_empty_conv)
  ultimately show ?thesis using assms by (simp add: attempt_batch_def Let_def)
qed

definition spend_of :: "js \<Rightarrow> jsnum option" where
  "spend_of reply = num_or_null (member reply ''totalLicenseSpend'')"

lemma run_batches_first:
  "run_batches lib rate replies i (inp # rest) = Inr rs \<Longrightarrow>
   \<exists>ds v. processBatch lib rate i [inp] (replies i) [1..<Suc MAX_ATTEMPTS] [] = Inr (ds, v) \<and> snd (hd rs) = v"
  by (auto split: sum.splits simp del: upt_Suc)

lemma attempts: "[1..<Suc MAX_ATTEMPTS] = [1, 2]"
  by code_simp

lemma invalid_law:
  assumes "extractJson (jl_parse lib) raw = Some v" "member v ''decisions'' = Arr ds" "extractJson (jl_parse lib) raw0 = Some v0"
    "member v0 ''decisions'' = Arr ds0"
    "\<forall>d \<in> set ds. validateDecision (jl_stringify lib) d \<noteq> None" "\<forall>d \<in> set ds0. validateDecision (jl_stringify lib) d \<noteq> None"
    "\<forall>d \<in> set ds. d \<noteq> Null \<and> d \<noteq> Undefined"
    "mr_generated (replies 1) = Inr (raw0, p0)" "mr_generated (replies 2) = Inr (raw, p)"
  shows "processBatch lib rate b batch replies [1..<Suc MAX_ATTEMPTS] [] =
    Inr (map (\<lambda>(i, d). default_decision batch rate i d) (enumerate 0 ds), v)"
proof -
  have "v0 \<noteq> Null" using assms(4) by (auto simp: member_def)
  moreover have "filter (\<lambda>d. validateDecision (jl_stringify lib) d = None) ds0 = []"
    using assms(6) by (simp add: filter_empty_conv)
  ultimately have first: "\<exists>e. attempt_batch lib rate b 1 batch (replies 1) = Retry e"
    using assms(3,4,8) by (simp add: attempt_batch_def Let_def MAX_ATTEMPTS_def)
  have "\<not> list_ex (\<lambda>d. d = Null \<or> d = Undefined) ds" using assms(7) by (auto simp: list_ex_iff)
  then have "applyDefaults ds batch rate = Some (map (\<lambda>(i, d). default_decision batch rate i d) (enumerate 0 ds))"
    by (simp add: applyDefaults_def)
  from attempt_all_invalid [OF assms(9,1,2,5) _ this, where b = b] first show ?thesis
    unfolding attempts by (auto simp: MAX_ATTEMPTS_def)
qed

section \<open>Properties\<close>

text \<open>
  C18: after the guardrails a scored decision's savings are at most the model's own figure and at most the
  deterministic maximum, it is a quick win only where the rules allow it, and its confidence is a number
  between 0 and 1 that is at most 0.85 for composites in the ambiguous band.
\<close>
theorem guardrails_bound:
  assumes "null_zero (ld_estimatedSavings d) \<noteq> NaN" "null_zero (ld_confidenceScore d) \<noteq> NaN"
    "computeMaxSavings (sb_dailyGb s) (sb_annualCostUsd s) (sb_tier s) rate \<noteq> NaN"
  shows "\<exists>savings confidence.
    ld_estimatedSavings (gr_decision (applyGuardrails d (Some s) rate)) = Some savings \<and>
    ld_confidenceScore (gr_decision (applyGuardrails d (Some s) rate)) = Some confidence \<and>
    jle savings (computeMaxSavings (sb_dailyGb s) (sb_annualCostUsd s) (sb_tier s) rate) \<and>
    jle savings (null_zero (ld_estimatedSavings d)) \<and>
    in_range 0 1 confidence \<and>
    (jle (Fin 20) (sb_composite s) \<and> jlt (sb_composite s) (Fin 65) \<longrightarrow> jle confidence (jlit (85 / 100))) \<and>
    (ld_quickWin (gr_decision (applyGuardrails d (Some s) rate)) \<longrightarrow>
       isQuickWinAllowed (sb_tier s) (sb_composite s) (sb_dailyGb s))"
  using jmin_le [OF assms(1) assms(3)] clampConfidence_law [OF assms(2), of "sb_composite s"]
  by (simp add: applyGuardrails_def Let_def)

definition sample_decision :: llm_decision where
  "sample_decision = \<lparr>ld_index = Str ''web'', ld_sourcetype = Undefined, ld_tier = Str ''Critical'', ld_action = Str ''KEEP'',
     ld_composite = Some (Fin 50), ld_utilization = Some (Fin 50), ld_detection = Some (Fin 50), ld_quality = Some (Fin 50),
     ld_risk = Some (Fin 50), ld_annualCost = Fin 1000, ld_estimatedSavings = Some (Fin 5000), ld_confidence = Null,
     ld_confidenceScore = Some (Fin 2), ld_recommendation = Null, ld_reasoning = Null, ld_evidence = [], ld_quickWin = True,
     ld_s3Candidate = False, ld_detectionGap = False\<rparr>"

definition sample_bounds :: scored_bounds where
  "sample_bounds = \<lparr>sb_tier = Low_Value, sb_composite = Fin 30, sb_dailyGb = Fin 1, sb_annualCostUsd = Fin 1000\<rparr>"

lemma sample_max: "computeMaxSavings (Fin 1) (Fin 1000) Low_Value (Fin 1) = Fin 900"
  by code_simp

lemma guardrails_bound_witness:
  "ld_estimatedSavings (gr_decision (applyGuardrails sample_decision (Some sample_bounds) (Fin 1))) = Some (Fin 900) \<and>
   (\<exists>confidence. ld_confidenceScore (gr_decision (applyGuardrails sample_decision (Some sample_bounds) (Fin 1))) = Some confidence \<and>
      jle confidence (jlit (85 / 100)))"
  using guardrails_bound [of sample_decision sample_bounds "Fin 1"]
  by (auto simp: sample_decision_def sample_bounds_def sample_max null_zero_def applyGuardrails_def Let_def jmin_def)

text \<open>
  a batch whose two replies hold only invalid decisions is not rejected: its invalid decisions are
  returned, with defaults filled in.
\<close>
theorem invalid_decisions_kept:
  assumes "extractJson (jl_parse lib) raw = Some v" "member v ''decisions'' = Arr ds" "extractJson (jl_parse lib) raw0 = Some v0"
    "member v0 ''decisions'' = Arr ds0"
    "\<forall>d \<in> set ds. validateDecision (jl_stringify lib) d \<noteq> None" "\<forall>d \<in> set ds0. validateDecision (jl_stringify lib) d \<noteq> None"
    "\<forall>d \<in> set ds. d \<noteq> Null \<and> d \<noteq> Undefined"
    "mr_generated (replies 1) = Inr (raw0, p0)" "mr_generated (replies 2) = Inr (raw, p)"
  shows "processBatch lib rate b batch replies [1..<Suc MAX_ATTEMPTS] [] =
    Inr (map (\<lambda>(i, d). default_decision batch rate i d) (enumerate 0 ds), v)"
  by (rule invalid_law [OF assms])

text \<open>A library that reads one fixed text as a reply with one decision, an empty object.\<close>

definition sample_library :: json_library where
  "sample_library = \<lparr>jl_parse = (\<lambda>t. if t = ''r'' then Some (Obj [(''decisions'', Arr [Obj []])])
       else if t = ''s'' then Some (Obj [(''decisions'', Arr [Obj []]), (''totalLicenseSpend'', Num (Fin 7))]) else None),
     jl_stringify = (\<lambda>v. ''?'')\<rparr>"

definition sample_reply :: "string \<Rightarrow> model_reply" where
  "sample_reply t = \<lparr>mr_generated = Inr (t, Ollama), mr_aborted = False\<rparr>"

lemma sample_invalid: "validateDecision (jl_stringify sample_library) (Obj []) \<noteq> None"
  by code_simp

lemma sample_decisions:
  "member (Obj [(''decisions'', Arr [Obj []])]) ''decisions'' = Arr [Obj []]"
  "member (Obj [(''decisions'', Arr [Obj []]), (''totalLicenseSpend'', Num (Fin 7))]) ''decisions'' = Arr [Obj []]"
  "spend_of (Obj [(''decisions'', Arr [Obj []]), (''totalLicenseSpend'', Num (Fin 7))]) = Some (Fin 7)"
  by code_simp+

lemma sample_replies:
  "extractJson (jl_parse sample_library) ''r'' = Some (Obj [(''decisions'', Arr [Obj []])])"
  "extractJson (jl_parse sample_library) ''s'' = Some (Obj [(''decisions'', Arr [Obj []]), (''totalLicenseSpend'', Num (Fin 7))])"
  by (simp_all add: sample_library_def extractJson_def)

lemma invalid_decisions_kept_witness:
  "processBatch sample_library (Fin 1) 0 [] (\<lambda>_. sample_reply ''r'') [1..<Suc MAX_ATTEMPTS] [] =
   Inr (map (\<lambda>(i, d). default_decision [] (Fin 1) i d) (enumerate 0 [Obj []]), Obj [(''decisions'', Arr [Obj []])])"
  by (rule invalid_decisions_kept [OF sample_replies(1) sample_decisions(1) sample_replies(1) sample_decisions(1)])
    (simp_all add: sample_invalid sample_reply_def)

text \<open>
  the inputs are sent one at a time, but a spend total in the first reply becomes the total of the
  whole run, whatever the other inputs cost.
\<close>
theorem first_reply_sets_total:
  assumes "runLLMDecisionAgent lib env sv rate replies (inp # rest) = Inr s"
    "pd_state (decideProvider (createAIProviderStateMachine env) (snd (isHealthy env sv)) (present (ae_anthropic_key env))) = READY"
    "processBatch lib rate 0 [inp] (replies 0) [1..<Suc MAX_ATTEMPTS] [] = Inr (ds, reply)" "spend_of reply = Some x"
  shows "as_totalLicenseSpend s = x"
proof -
  obtain rs where rs: "run_batches lib rate replies 0 (inp # rest) = Inr rs"
    and s: "s = summary_of (inp # rest) (concat (map fst rs)) (snd (hd rs))"
    using assms(1,2) by (auto simp: runLLMDecisionAgent_def Let_def split: sum.splits)
  have "snd (hd rs) = reply" using run_batches_first [OF rs] assms(3) by auto
  then show ?thesis using s assms(4)
    by (auto simp: summary_of_def Let_def spend_of_def num_or_null_def split: js.splits)
qed

definition ollama_up :: llm_services where
  "ollama_up = ollama_down\<lparr>ls_ollama_healthy := True\<rparr>"

definition sample_input :: "string \<Rightarrow> telemetry_input" where
  "sample_input name = \<lparr>ti_index = name, ti_sourcetype = None, ti_dailyAvgGb = Fin 1, ti_scores = None\<rparr>"

lemma sample_batch:
  "processBatch sample_library (Fin 1) b [inp] (\<lambda>_. sample_reply ''s'') [1..<Suc MAX_ATTEMPTS] [] =
   Inr (map (\<lambda>(i, d). default_decision [inp] (Fin 1) i d) (enumerate 0 [Obj []]),
     Obj [(''decisions'', Arr [Obj []]), (''totalLicenseSpend'', Num (Fin 7))])"
  by (rule invalid_law [OF sample_replies(2) sample_decisions(2) sample_replies(2) sample_decisions(2)])
    (simp_all add: sample_invalid sample_reply_def)

lemma sample_ready:
  "pd_state (decideProvider (createAIProviderStateMachine fallback_environment) (snd (isHealthy fallback_environment ollama_up))
     (present (ae_anthropic_key fallback_environment))) = READY"
  by code_simp

lemma first_reply_sets_total_witness:
  "\<exists>s. runLLMDecisionAgent sample_library fallback_environment ollama_up (Fin 1) (\<lambda>_ _. sample_reply ''s'')
     [sample_input ''a'', sample_input ''b''] = Inr s \<and> as_totalLicenseSpend s = Fin 7"
proof -
  have "\<exists>s. runLLMDecisionAgent sample_library fallback_environment ollama_up (Fin 1) (\<lambda>_ _. sample_reply ''s'')
     [sample_input ''a'', sample_input ''b''] = Inr s"
    by (simp add: runLLMDecisionAgent_def Let_def sample_ready sample_batch [unfolded One_nat_def] del: upt_Suc)
  then show ?thesis
    using first_reply_sets_total [OF _ sample_ready sample_batch sample_decisions(3)] by blast
qed

end
