(* ===== verification/Medallion.thy ===== *)
theory Medallion
  imports Tenancy Scoring
begin

text \<open>
  The three layers of the data pipeline, \<open>apps/api/services/bronze-extractor.ts\<close>,
  \<open>silver-normalizer.ts\<close> and \<open>gold-scorer.ts\<close>, over the tables of the migration
  \<open>20260603_medallion_layers\<close>. SHA-256, \<open>JSON.parse\<close>, \<open>JSON.stringify\<close>, \<open>Math.log10\<close> and what a column
  makes of a number are arguments; a query fails or not by an argument, and fails by itself where the
  table refuses the row. Times are milliseconds. Console lines are left out.
\<close>

section \<open>What the layers call\<close>

text \<open>
  \<open>md_real\<close> is a \<open>REAL\<close> column written and read (none when the number is out of its range),
  \<open>md_bigint\<close> the value a \<open>BIGINT\<close> column is read as, and \<open>md_weights\<close> the check of the table on the
  weights, which is done in single precision.
\<close>

record md_env =
  md_sha :: "string \<Rightarrow> string"
  md_parse :: "string \<Rightarrow> js option"
  md_stringify :: "js \<Rightarrow> string"
  md_real :: "jsnum \<Rightarrow> jsnum option"
  md_bigint :: "int \<Rightarrow> js"
  md_log10 :: "jsnum \<Rightarrow> jsnum"
  md_weights :: "scoring_weights \<Rightarrow> bool"

section \<open>Rows\<close>

record bronze_row =
  bz_id :: string
  bz_tenant_id :: string
  bz_sid :: "string option"
  bz_index_name :: string
  bz_sourcetype :: "string option"
  bz_raw_payload :: js
  bz_extracted_at :: int
  bz_extraction_version :: string
  bz_pipeline_run_id :: "string option"

record bronze_input =
  bi_tenant_id :: string
  bi_sid :: "string option"
  bi_index_name :: string
  bi_sourcetype :: "string option"
  bi_raw_payload :: js
  bi_pipeline_run_id :: "string option"

record silver_row =
  sv_id :: string
  sv_tenant_id :: string
  sv_bronze_id :: string
  sv_index_name :: string
  sv_sourcetype :: "string option"
  sv_event_count :: js
  sv_distinct_hosts :: js
  sv_parsing_error_rate :: "jsnum option"
  sv_field_coverage_pct :: "jsnum option"
  sv_time_span_days :: "jsnum option"
  sv_normalized_fields :: js
  sv_parser_version :: string
  sv_normalization_version :: string
  sv_normalized_at :: int
  sv_pipeline_run_id :: "string option"

record gold_row =
  gd_id :: string
  gd_tenant_id :: string
  gd_silver_id :: string
  gd_index_name :: string
  gd_utilization :: jsnum
  gd_detection :: jsnum
  gd_quality :: jsnum
  gd_composite :: jsnum
  gd_tier :: string
  gd_gated :: bool
  gd_scoring_version :: string
  gd_scoring_profile :: string
  gd_weights :: scoring_weights
  gd_snapshot_hash :: string
  gd_previous_hash :: "string option"
  gd_scored_at :: int
  gd_closed_at :: "int option"
  gd_pipeline_run_id :: "string option"

record layers =
  ly_bronze :: "bronze_row list"
  ly_silver :: "silver_row list"
  ly_gold :: "gold_row list"

definition or_else :: "'a option \<Rightarrow> 'a \<Rightarrow> 'a" where
  "or_else x d = (case x of Some v \<Rightarrow> v | None \<Rightarrow> d)"

section \<open>Bronze\<close>

definition EXTRACTION_VERSION :: string where
  "EXTRACTION_VERSION = ''1.0''"

definition generateBronzeId :: "md_env \<Rightarrow> bronze_input \<Rightarrow> string" where
  "generateBronzeId env inp =
     (let payloadHash = take 16 (md_sha env (md_stringify env (bi_raw_payload inp)))
      in ''bronze-'' @ take 24 (md_sha env (join '':''
           [bi_tenant_id inp, bi_index_name inp, or_else (bi_sourcetype inp) ''unknown'', payloadHash])))"

definition extractBronzeRow ::
  "md_env \<Rightarrow> bool \<Rightarrow> int \<Rightarrow> bronze_input \<Rightarrow> layers \<Rightarrow> layers \<times> (string + bronze_row option)" where
  "extractBronzeRow env db_ok now inp s =
     (case assertTenantIsolation (Str (bi_tenant_id inp)) ''bronze-extractor:extractBronzeRow'' of
        Inl e \<Rightarrow> (s, Inl (violation_message e))
      | Inr _ \<Rightarrow>
          (let row = \<lparr>bz_id = generateBronzeId env inp, bz_tenant_id = bi_tenant_id inp, bz_sid = bi_sid inp,
                      bz_index_name = bi_index_name inp, bz_sourcetype = bi_sourcetype inp, bz_raw_payload = bi_raw_payload inp,
                      bz_extracted_at = now, bz_extraction_version = EXTRACTION_VERSION, bz_pipeline_run_id = bi_pipeline_run_id inp\<rparr>
           in if \<not> db_ok then (s, Inl ''insert failed'')
              else if bz_id row \<in> bz_id ` set (ly_bronze s) then (s, Inr None)
              else (s\<lparr>ly_bronze := ly_bronze s @ [row]\<rparr>, Inr (Some row))))"

text \<open>
  The inserts of a batch run in the order they were sent, each with its outcome and time; a failure is
  logged and counts as skipped. \<open>fresh\<close> is the run id made up when none is given.
\<close>

record 'row batch_result =
  bt_inserted :: nat
  bt_skipped :: nat
  bt_rows :: "'row list"
  bt_run :: string
  bt_version :: string

definition batch_of :: "(string + 'row option) list \<Rightarrow> string \<Rightarrow> string \<Rightarrow> 'row batch_result" where
  "batch_of results run version =
     (let rows = List.map_filter (\<lambda>r. case r of Inr x \<Rightarrow> x | Inl _ \<Rightarrow> None) results
      in \<lparr>bt_inserted = length rows, bt_skipped = length results - length rows, bt_rows = rows, bt_run = run, bt_version = version\<rparr>)"

fun thread :: "('a \<Rightarrow> 's \<Rightarrow> 's \<times> 'r) \<Rightarrow> 'a list \<Rightarrow> 's \<Rightarrow> 's \<times> 'r list" where
  "thread f [] s = (s, [])"
| "thread f (x # xs) s = (let (s1, r) = f x s; (s2, rs) = thread f xs s1 in (s2, r # rs))"

definition extractBronzeBatch ::
  "md_env \<Rightarrow> string option \<Rightarrow> string \<Rightarrow> (bronze_input \<times> bool \<times> int) list \<Rightarrow> layers \<Rightarrow> layers \<times> bronze_row batch_result" where
  "extractBronzeBatch env pipelineRunId fresh inputs s =
     (if inputs = [] then (s, batch_of [] (or_else pipelineRunId []) EXTRACTION_VERSION)
      else (let runId = or_else pipelineRunId (''bronze-run-'' @ fresh);
                (s', results) = thread (\<lambda>(inp, db_ok, now). extractBronzeRow env db_ok now (inp\<lparr>bi_pipeline_run_id := Some runId\<rparr>)) inputs s
            in (s', batch_of results runId EXTRACTION_VERSION)))"

record row_filter =
  rf_version :: "string option"
  rf_other :: "string option"
  rf_limit :: "nat option"
  rf_since :: "int option"

definition after :: "int option \<Rightarrow> int \<Rightarrow> bool" where
  "after since t = (case since of Some x \<Rightarrow> x < t | None \<Rightarrow> True)"

text \<open>An option that is an empty text is not applied.\<close>

definition same_text :: "string option \<Rightarrow> string option \<Rightarrow> bool" where
  "same_text wanted v = (case wanted of Some w \<Rightarrow> w = [] \<or> v = Some w | None \<Rightarrow> True)"

definition guarded :: "string \<Rightarrow> string \<Rightarrow> 'a \<Rightarrow> string + 'a" where
  "guarded tenantId context result =
     (case assertTenantIsolation (Str tenantId) context of Inl e \<Rightarrow> Inl (violation_message e) | Inr _ \<Rightarrow> Inr result)"

definition getUnprocessedBronzeRows :: "string \<Rightarrow> row_filter \<Rightarrow> layers \<Rightarrow> string + bronze_row list" where
  "getUnprocessedBronzeRows tenantId opts s =
     guarded tenantId ''bronze-extractor:getUnprocessedBronzeRows''
       (take (or_else (rf_limit opts) 500) (sort_key bz_extracted_at (filter
          (\<lambda>b. bz_tenant_id b = tenantId \<and> after (rf_since opts) (bz_extracted_at b) \<and>
               same_text (rf_other opts) (bz_pipeline_run_id b) \<and>
               \<not> (\<exists>v\<in>set (ly_silver s). sv_bronze_id v = bz_id b \<and> sv_parser_version v = or_else (rf_version opts) ''1.0''))
          (ly_bronze s))))"

definition getBronzeRowsBySid :: "string \<Rightarrow> string \<Rightarrow> layers \<Rightarrow> string + bronze_row list" where
  "getBronzeRowsBySid tenantId sid s =
     guarded tenantId ''bronze-extractor:getBronzeRowsBySid''
       (sort_key bz_extracted_at (filter (\<lambda>b. bz_tenant_id b = tenantId \<and> bz_sid b = Some sid) (ly_bronze s)))"

definition getBronzeRowCount :: "string \<Rightarrow> layers \<Rightarrow> string + nat" where
  "getBronzeRowCount tenantId s =
     guarded tenantId ''bronze-extractor:getBronzeRowCount'' (length (filter (\<lambda>b. bz_tenant_id b = tenantId) (ly_bronze s)))"

section \<open>Silver\<close>

definition PARSER_VERSION :: string where
  "PARSER_VERSION = ''1.0''"

definition NORMALIZATION_VERSION :: string where
  "NORMALIZATION_VERSION = ''1.0''"

fun extractNumeric :: "(string \<times> js) list \<Rightarrow> string list \<Rightarrow> jsnum option" where
  "extractNumeric raw [] = None"
| "extractNumeric raw (key # keys) =
     (let val = js_get raw key
      in if val \<noteq> Undefined \<and> val \<noteq> Null \<and> js_number val \<noteq> NaN then Some (js_number val) else extractNumeric raw keys)"

definition clamp100 :: "jsnum \<Rightarrow> jsnum" where
  "clamp100 x = jmax (Fin 0) (jmin (Fin 100) x)"

definition EXCLUDED_KEYS :: "string list" where
  "EXCLUDED_KEYS = [''_raw'', ''results'', ''_serial'', ''_cd'', ''splunk_server'']"

definition is_scalar :: "js \<Rightarrow> bool" where
  "is_scalar v = (case v of Str _ \<Rightarrow> True | Num _ \<Rightarrow> True | Bool _ \<Rightarrow> True | _ \<Rightarrow> False)"

record extracted_fields =
  ex_event_count :: "jsnum option"
  ex_distinct_hosts :: "jsnum option"
  ex_parsing_error_rate :: "jsnum option"
  ex_field_coverage_pct :: "jsnum option"
  ex_time_span_days :: "jsnum option"
  ex_normalized_fields :: js

definition extractNormalizedFields :: "(string \<times> js) list \<Rightarrow> extracted_fields" where
  "extractNormalizedFields raw =
     \<lparr>ex_event_count = extractNumeric raw [''event_count'', ''total_event_count'', ''count'', ''eventCount'', ''totalCount''],
      ex_distinct_hosts = extractNumeric raw [''distinct_hosts'', ''distinctHosts'', ''host_count'', ''hostCount''],
      ex_parsing_error_rate = map_option clamp100
        (extractNumeric raw [''parsing_error_rate'', ''parsingErrorRate'', ''error_rate'', ''errorRate'']),
      ex_field_coverage_pct = map_option clamp100
        (extractNumeric raw [''field_coverage_pct'', ''fieldCoveragePct'', ''coverage_pct'', ''coveragePct'']),
      ex_time_span_days = extractNumeric raw [''time_span_days'', ''timeSpanDays'', ''span_days'', ''spanDays''],
      ex_normalized_fields = Obj (filter (\<lambda>(k, v). k \<notin> set EXCLUDED_KEYS \<and> is_scalar v) raw)\<rparr>"

text \<open>
  The members of a payload as \<open>Object.entries\<close> lists them. A text is parsed first; null has no members
  to read, and reading one throws.
\<close>

definition entries :: "js \<Rightarrow> (string \<times> js) list option" where
  "entries v =
     (case v of
        Obj fs \<Rightarrow> Some fs
      | Arr xs \<Rightarrow> Some (map (\<lambda>(i, x). (nat_str i, x)) (enumerate 0 xs))
      | Str t \<Rightarrow> Some (map (\<lambda>(i, c). (nat_str i, Str [c])) (enumerate 0 t))
      | Null \<Rightarrow> None
      | Undefined \<Rightarrow> None
      | _ \<Rightarrow> Some [])"

definition payload_entries :: "md_env \<Rightarrow> js \<Rightarrow> (string \<times> js) list option" where
  "payload_entries env v = (case v of Str t \<Rightarrow> Option.bind (md_parse env t) entries | _ \<Rightarrow> entries v)"

definition generateSilverId :: "md_env \<Rightarrow> string \<Rightarrow> string \<Rightarrow> string" where
  "generateSilverId env bronzeId parserVersion = ''silver-'' @ take 24 (md_sha env (bronzeId @ '':'' @ parserVersion))"

text \<open>
  A number as an integer column takes it: the text of the number has to be an integer within the
  range of the column.
\<close>

definition integer_column :: "int \<Rightarrow> jsnum \<Rightarrow> int option" where
  "integer_column bits x =
     (let t = num_string x; neg = (take 1 t = ''-''); ds = (if neg then drop 1 t else t);
          n = (if neg then - int (digits_value ds) else int (digits_value ds))
      in if ds \<noteq> [] \<and> list_all is_digit ds \<and> - (2 ^ nat (bits - 1)) \<le> n \<and> n < 2 ^ nat (bits - 1) then Some n else None)"

definition nullable :: "('a \<Rightarrow> 'b option) \<Rightarrow> 'a option \<Rightarrow> 'b option option" where
  "nullable f x = (case x of None \<Rightarrow> Some None | Some v \<Rightarrow> map_option Some (f v))"

record normalize_options =
  no_parserVersion :: "string option"
  no_normalizationVersion :: "string option"
  no_pipelineRunId :: "string option"

definition silver_values ::
  "md_env \<Rightarrow> extracted_fields \<Rightarrow> (int option \<times> int option \<times> jsnum option \<times> jsnum option \<times> jsnum option) option" where
  "silver_values env ex =
     (case (nullable (integer_column 64) (ex_event_count ex), nullable (integer_column 32) (ex_distinct_hosts ex),
            nullable (md_real env) (ex_parsing_error_rate ex), nullable (md_real env) (ex_field_coverage_pct ex),
            nullable (md_real env) (ex_time_span_days ex)) of
        (Some ec, Some dh, Some er, Some fc, Some ts) \<Rightarrow> Some (ec, dh, er, fc, ts)
      | _ \<Rightarrow> None)"

definition percent :: "jsnum option \<Rightarrow> bool" where
  "percent x = (case x of None \<Rightarrow> True | Some v \<Rightarrow> jle (Fin 0) v \<and> jle v (Fin 100))"

definition silver_of ::
  "md_env \<Rightarrow> int \<Rightarrow> normalize_options \<Rightarrow> bronze_row \<Rightarrow> extracted_fields \<Rightarrow> silver_row option" where
  "silver_of env now opts b ex =
     (let parserVersion = or_else (no_parserVersion opts) PARSER_VERSION
      in map_option (\<lambda>(ec, dh, er, fc, ts).
           \<lparr>sv_id = generateSilverId env (bz_id b) parserVersion, sv_tenant_id = bz_tenant_id b, sv_bronze_id = bz_id b,
            sv_index_name = bz_index_name b, sv_sourcetype = bz_sourcetype b,
            sv_event_count = (case ec of Some n \<Rightarrow> md_bigint env n | None \<Rightarrow> Null),
            sv_distinct_hosts = (case dh of Some n \<Rightarrow> Num (Fin (of_int n)) | None \<Rightarrow> Null),
            sv_parsing_error_rate = er, sv_field_coverage_pct = fc, sv_time_span_days = ts,
            sv_normalized_fields = ex_normalized_fields ex, sv_parser_version = parserVersion,
            sv_normalization_version = or_else (no_normalizationVersion opts) NORMALIZATION_VERSION,
            sv_normalized_at = now, sv_pipeline_run_id = no_pipelineRunId opts\<rparr>)
           (silver_values env ex))"

definition normalizeBronzeRow ::
  "md_env \<Rightarrow> bool \<Rightarrow> int \<Rightarrow> normalize_options \<Rightarrow> bronze_row \<Rightarrow> layers \<Rightarrow> layers \<times> (string + silver_row option)" where
  "normalizeBronzeRow env db_ok now opts b s =
     (case assertTenantIsolation (Str (bz_tenant_id b)) ''silver-normalizer:normalizeBronzeRow'' of
        Inl e \<Rightarrow> (s, Inl (violation_message e))
      | Inr _ \<Rightarrow>
          (case payload_entries env (bz_raw_payload b) of
             None \<Rightarrow> (s, Inl ''payload unreadable'')
           | Some raw \<Rightarrow>
               (case silver_of env now opts b (extractNormalizedFields raw) of
                  None \<Rightarrow> (s, Inl ''value out of range'')
                | Some row \<Rightarrow>
                    if \<not> db_ok then (s, Inl ''insert failed'')
                    else if \<not> percent (sv_parsing_error_rate row) \<or> \<not> percent (sv_field_coverage_pct row)
                    then (s, Inl ''check constraint violated'')
                    else if sv_id row \<in> sv_id ` set (ly_silver s) then (s, Inr None)
                    else if bz_id b \<notin> bz_id ` set (ly_bronze s) then (s, Inl ''foreign key violated'')
                    else (s\<lparr>ly_silver := ly_silver s @ [row]\<rparr>, Inr (Some row)))))"

definition normalizeBatch ::
  "md_env \<Rightarrow> normalize_options \<Rightarrow> string \<Rightarrow> (bronze_row \<times> bool \<times> int) list \<Rightarrow> layers \<Rightarrow> layers \<times> silver_row batch_result" where
  "normalizeBatch env opts fresh rows s =
     (let version = or_else (no_parserVersion opts) PARSER_VERSION
      in if rows = [] then (s, batch_of [] (or_else (no_pipelineRunId opts) []) version)
         else (let runId = or_else (no_pipelineRunId opts) (''silver-run-'' @ fresh);
                   (s', results) = thread (\<lambda>(b, db_ok, now). normalizeBronzeRow env db_ok now (opts\<lparr>no_pipelineRunId := Some runId\<rparr>) b) rows s
               in (s', batch_of results runId version)))"

definition getUnscoredSilverRows :: "string \<Rightarrow> row_filter \<Rightarrow> layers \<Rightarrow> string + silver_row list" where
  "getUnscoredSilverRows tenantId opts s =
     guarded tenantId ''silver-normalizer:getUnscoredSilverRows''
       (take (or_else (rf_limit opts) 500) (sort_key sv_normalized_at (filter
          (\<lambda>v. sv_tenant_id v = tenantId \<and> sv_parser_version v = or_else (rf_other opts) PARSER_VERSION \<and>
               after (rf_since opts) (sv_normalized_at v) \<and>
               \<not> (\<exists>g\<in>set (ly_gold s). gd_silver_id g = sv_id v \<and> gd_scoring_version g = or_else (rf_version opts) ''1.0''))
          (ly_silver s))))"

definition getSilverRowByBronzeId :: "string \<Rightarrow> string \<Rightarrow> string \<Rightarrow> layers \<Rightarrow> string + silver_row option" where
  "getSilverRowByBronzeId tenantId bronzeId parserVersion s =
     guarded tenantId ''silver-normalizer:getSilverRowByBronzeId''
       (find (\<lambda>v. sv_tenant_id v = tenantId \<and> sv_bronze_id v = bronzeId \<and> sv_parser_version v = parserVersion) (ly_silver s))"

section \<open>Gold\<close>

definition classifyTier :: "jsnum \<Rightarrow> string" where
  "classifyTier composite =
     (if jle (Fin 80) composite then ''critical'' else if jle (Fin 60) composite then ''high-value''
      else if jle (Fin 40) composite then ''medium-value'' else if jle (Fin 20) composite then ''low-value'' else ''inactive'')"

definition TIERS :: "string list" where
  "TIERS = [''critical'', ''high-value'', ''medium-value'', ''low-value'', ''inactive'']"

text \<open>The operator \<open>+\<close> between a value and the number one: a text is continued.\<close>

definition plus_one :: "js \<Rightarrow> js" where
  "plus_one v = (case v of Str t \<Rightarrow> Str (t @ ''1'') | _ \<Rightarrow> Num (jadd (js_number v) (Fin 1)))"

definition events_per_day :: "silver_row \<Rightarrow> js" where
  "events_per_day v =
     (case sv_time_span_days v of
        Some d \<Rightarrow> if js_truthy (Num d) then Num (jdiv (js_number (sv_event_count v)) (jmax d (Fin 1))) else sv_event_count v
      | None \<Rightarrow> sv_event_count v)"

definition silver_utilization :: "md_env \<Rightarrow> silver_row \<Rightarrow> jsnum" where
  "silver_utilization env v =
     (if sv_event_count v \<noteq> Null \<and> jlt (Fin 0) (js_number (sv_event_count v))
      then jmin (Fin 100) (jround (jmul (md_log10 env (js_number (plus_one (events_per_day v)))) (jlit (333 / 10))))
      else Fin 0)"

definition securitySourcetypes :: "string list" where
  "securitySourcetypes = [''WinEventLog'', ''XmlWinEventLog'', ''syslog'', ''pan:traffic'', ''pan:threat'', ''cisco:asa'',
     ''aws:cloudtrail'', ''okta:im2'', ''crowdstrike'', ''defendpoint'', ''o365:management:activity'', ''stream:http'',
     ''suricata'', ''zeek'']"

definition silver_detection :: "(string \<times> js) list \<Rightarrow> string option \<Rightarrow> jsnum" where
  "silver_detection fs sourcetype =
     (case (js_get fs ''detection_score'', js_get fs ''detection_coverage'') of
        (Num x, _) \<Rightarrow> clamp100 x
      | (_, Num x) \<Rightarrow> clamp100 x
      | _ \<Rightarrow> if list_ex (\<lambda>t. str_includes (to_lower (or_else sourcetype [])) (to_lower t)) securitySourcetypes then Fin 50 else Fin 10)"

definition silver_quality :: "jsnum option \<Rightarrow> jsnum option \<Rightarrow> jsnum" where
  "silver_quality errorRate coverage =
     (case (errorRate, coverage) of
        (Some e, Some c) \<Rightarrow> clamp100 (jadd (jsub (Fin 50) (jmul e (Fin (1 / 2)))) (jmul c (Fin (1 / 2))))
      | (Some e, None) \<Rightarrow> clamp100 (jsub (Fin 100) e)
      | (None, Some c) \<Rightarrow> c
      | (None, None) \<Rightarrow> Fin 50)"

text \<open>The members of the normalized fields; a text is parsed, null has none.\<close>

definition silver_fields :: "md_env \<Rightarrow> js \<Rightarrow> (string \<times> js) list option" where
  "silver_fields env v =
     (case v of
        Str t \<Rightarrow> map_option (\<lambda>w. case w of Obj fs \<Rightarrow> fs | _ \<Rightarrow> []) (md_parse env t)
      | Obj fs \<Rightarrow> Some fs
      | _ \<Rightarrow> Some [])"

record raw_scores =
  rs_utilization :: jsnum
  rs_detection :: jsnum
  rs_quality :: jsnum

definition deriveScoresFromSilver :: "md_env \<Rightarrow> silver_row \<Rightarrow> raw_scores option" where
  "deriveScoresFromSilver env v =
     map_option (\<lambda>fs. \<lparr>rs_utilization = jround (silver_utilization env v), rs_detection = jround (silver_detection fs (sv_sourcetype v)),
                      rs_quality = jround (silver_quality (sv_parsing_error_rate v) (sv_field_coverage_pct v))\<rparr>)
       (silver_fields env (sv_normalized_fields v))"

definition json_number :: "jsnum \<Rightarrow> string" where
  "json_number x = (if isFinite x then num_string x else ''null'')"

text \<open>The keys are sorted by the replacer list of \<open>JSON.stringify\<close>.\<close>

definition computeGoldSnapshotHash ::
  "md_env \<Rightarrow> silver_row \<Rightarrow> raw_scores \<Rightarrow> jsnum \<Rightarrow> string \<Rightarrow> string \<Rightarrow> string" where
  "computeGoldSnapshotHash env v raw composite version profile =
     (let text_field = (\<lambda>(k, t). json_quote k @ '':'' @ json_quote t); num_field = (\<lambda>(k, x). json_quote k @ '':'' @ json_number x)
      in md_sha env (''{'' @ join '',''
           [num_field (''composite_score'', composite), num_field (''detection_score'', rs_detection raw),
            text_field (''index_name'', sv_index_name v), num_field (''quality_score'', rs_quality raw),
            text_field (''scoring_profile'', profile), text_field (''scoring_version'', version),
            text_field (''silver_id'', sv_id v), text_field (''tenant_id'', sv_tenant_id v),
            num_field (''utilization_score'', rs_utilization raw)] @ ''}''))"

text \<open>Open rows, the newest first; of two at one time, the one inserted last.\<close>

definition newest :: "gold_row list \<Rightarrow> gold_row list" where
  "newest rows = rev (sort_key gd_scored_at rows)"

definition open_row :: "string \<Rightarrow> string \<Rightarrow> gold_row \<Rightarrow> bool" where
  "open_row tenantId indexName g = (gd_tenant_id g = tenantId \<and> gd_index_name g = indexName \<and> gd_closed_at g = None)"

definition getPreviousGoldHash :: "string \<Rightarrow> string \<Rightarrow> layers \<Rightarrow> string option" where
  "getPreviousGoldHash tenantId indexName s =
     (case newest (filter (open_row tenantId indexName) (ly_gold s)) of [] \<Rightarrow> None | g # _ \<Rightarrow> Some (gd_snapshot_hash g))"

record score_options =
  so_scoringVersion :: "string option"
  so_scoringProfile :: "string option"
  so_weights :: "scoring_weights option"
  so_pipelineRunId :: "string option"

definition close_current :: "int \<Rightarrow> silver_row \<Rightarrow> string \<Rightarrow> layers \<Rightarrow> layers" where
  "close_current now v version s =
     s\<lparr>ly_gold := map (\<lambda>g. if open_row (sv_tenant_id v) (sv_index_name v) g \<and> gd_scoring_version g = version
                           then g\<lparr>gd_closed_at := Some now\<rparr> else g) (ly_gold s)\<rparr>"

definition real_weights :: "md_env \<Rightarrow> scoring_weights \<Rightarrow> scoring_weights option" where
  "real_weights env w =
     (case (md_real env (w_utilization w), md_real env (w_detection w), md_real env (w_quality w)) of
        (Some u, Some d, Some q) \<Rightarrow> Some \<lparr>w_utilization = u, w_detection = d, w_quality = q\<rparr>
      | _ \<Rightarrow> None)"

definition real_scores :: "md_env \<Rightarrow> raw_scores \<Rightarrow> jsnum \<Rightarrow> (raw_scores \<times> jsnum) option" where
  "real_scores env raw composite =
     (case (md_real env (rs_utilization raw), md_real env (rs_detection raw), md_real env (rs_quality raw), md_real env composite) of
        (Some u, Some d, Some q, Some c) \<Rightarrow> Some (\<lparr>rs_utilization = u, rs_detection = d, rs_quality = q\<rparr>, c)
      | _ \<Rightarrow> None)"

text \<open>The insert: the row as it is read back, unless a column or a constraint refuses it.\<close>

definition gold_insert ::
  "md_env \<Rightarrow> silver_row \<Rightarrow> string \<times> int \<Rightarrow> raw_scores \<Rightarrow> gated_composite \<Rightarrow> scoring_weights \<Rightarrow> string \<Rightarrow> string \<Rightarrow>
   string \<Rightarrow> string option \<Rightarrow> string option \<Rightarrow> layers \<Rightarrow> layers \<times> (string + gold_row)" where
  "gold_insert env v fresh raw gated weights version profile hash previous run s =
     (let (random, now) = fresh; composite = gc_composite gated; rowId = ''gold-'' @ random
      in case (real_scores env raw composite, real_weights env weights) of
           (Some (r, c), Some w) \<Rightarrow>
             (let g = \<lparr>gd_id = rowId, gd_tenant_id = sv_tenant_id v, gd_silver_id = sv_id v, gd_index_name = sv_index_name v,
                       gd_utilization = rs_utilization r, gd_detection = rs_detection r, gd_quality = rs_quality r, gd_composite = c,
                       gd_tier = classifyTier composite, gd_gated = minimum_activity_gated gated, gd_scoring_version = version,
                       gd_scoring_profile = profile, gd_weights = w, gd_snapshot_hash = hash, gd_previous_hash = previous,
                       gd_scored_at = now, gd_closed_at = None, gd_pipeline_run_id = run\<rparr>
              in if \<not> list_all (\<lambda>x. percent (Some x)) [rs_utilization r, rs_detection r, rs_quality r, c] \<or> \<not> md_weights env w
                 then (s, Inl ''check constraint violated'')
                 else if rowId \<in> gd_id ` set (ly_gold s) then (s, Inl ''duplicate key'')
                 else if sv_id v \<notin> sv_id ` set (ly_silver s) then (s, Inl ''foreign key violated'')
                 else (s\<lparr>ly_gold := ly_gold s @ [g]\<rparr>, Inr g))
         | _ \<Rightarrow> (s, Inl ''value out of range''))"

text \<open>The outcome of each of the three queries: of the lookup, of the update and of the insert.\<close>

record query_outcomes =
  qo_previous :: bool
  qo_close :: bool
  qo_insert :: bool

definition score_error_text :: "score_error \<Rightarrow> string" where
  "score_error_text e =
     (case e of WeightsSum x \<Rightarrow> ''Scoring weights must sum to 1.0. Got: '' @ num_string x
      | NotFinite name x \<Rightarrow> name @ '' score is not finite: '' @ num_string x)"

definition scoreSilverRow ::
  "md_env \<Rightarrow> query_outcomes \<Rightarrow> string \<times> int \<Rightarrow> score_options \<Rightarrow> silver_row \<Rightarrow> layers \<Rightarrow> layers \<times> (string + gold_row option)" where
  "scoreSilverRow env q fresh opts v s =
     (case assertTenantIsolation (Str (sv_tenant_id v)) ''gold-scorer:scoreSilverRow'' of
        Inl e \<Rightarrow> (s, Inl (violation_message e))
      | Inr _ \<Rightarrow>
          (let version = or_else (so_scoringVersion opts) SCORING_VERSION; profile = or_else (so_scoringProfile opts) ''balanced'';
               weights = or_else (so_weights opts) DEFAULT_WEIGHTS
           in case deriveScoresFromSilver env v of
                None \<Rightarrow> (s, Inl ''fields unreadable'')
              | Some raw \<Rightarrow>
                  (case computeGatedCompositeScore (rs_utilization raw) (rs_detection raw) (rs_quality raw) weights of
                     Inl e \<Rightarrow> (s, Inl (score_error_text e))
                   | Inr gated \<Rightarrow>
                       if \<not> qo_previous q then (s, Inl ''query failed'')
                       else (let previous = getPreviousGoldHash (sv_tenant_id v) (sv_index_name v) s;
                                 hash = computeGoldSnapshotHash env v raw (gc_composite gated) version profile
                             in if \<not> qo_close q then (s, Inl ''query failed'')
                                else (let s1 = close_current (snd fresh) v version s
                                      in if \<not> qo_insert q then (s1, Inl ''query failed'')
                                         else (case gold_insert env v fresh raw gated weights version profile hash previous
                                                 (so_pipelineRunId opts) s1 of
                                                 (s2, Inl e) \<Rightarrow> (s2, Inl e)
                                               | (s2, Inr g) \<Rightarrow> (s2, Inr (Some g))))))))"

definition scoreBatch ::
  "md_env \<Rightarrow> score_options \<Rightarrow> string \<Rightarrow> (silver_row \<times> query_outcomes \<times> string \<times> int) list \<Rightarrow> layers \<Rightarrow> layers \<times> gold_row batch_result" where
  "scoreBatch env opts fresh rows s =
     (let version = or_else (so_scoringVersion opts) SCORING_VERSION
      in if rows = [] then (s, batch_of [] (or_else (so_pipelineRunId opts) []) version)
         else (let runId = or_else (so_pipelineRunId opts) (''gold-run-'' @ fresh);
                   (s', results) = thread (\<lambda>(v, q, f). scoreSilverRow env q f (opts\<lparr>so_pipelineRunId := Some runId\<rparr>) v) rows s
               in (s', batch_of results runId version)))"

definition getCurrentGoldSnapshot :: "string \<Rightarrow> string \<Rightarrow> string \<Rightarrow> layers \<Rightarrow> string + gold_row option" where
  "getCurrentGoldSnapshot tenantId indexName version s =
     guarded tenantId ''gold-scorer:getCurrentGoldSnapshot''
       (case newest (filter (\<lambda>g. open_row tenantId indexName g \<and> gd_scoring_version g = version) (ly_gold s)) of
          [] \<Rightarrow> None | g # _ \<Rightarrow> Some g)"

text \<open>Ordered by the composite, the highest first, then by the name of the index.\<close>

definition higher_first :: "gold_row \<Rightarrow> gold_row \<Rightarrow> bool" where
  "higher_first a b = (jlt (gd_composite b) (gd_composite a) \<or> jeq (gd_composite a) (gd_composite b) \<and> gd_index_name a < gd_index_name b)"

definition getAllCurrentGoldSnapshots :: "string \<Rightarrow> row_filter \<Rightarrow> layers \<Rightarrow> string + gold_row list" where
  "getAllCurrentGoldSnapshots tenantId opts s =
     guarded tenantId ''gold-scorer:getAllCurrentGoldSnapshots''
       (take (or_else (rf_limit opts) 1000) (sort_by higher_first (filter
          (\<lambda>g. gd_tenant_id g = tenantId \<and> gd_scoring_version g = or_else (rf_version opts) SCORING_VERSION \<and>
               gd_closed_at g = None \<and> same_text (rf_other opts) (Some (gd_tier g))) (ly_gold s))))"

definition getGoldHistory :: "string \<Rightarrow> string \<Rightarrow> row_filter \<Rightarrow> layers \<Rightarrow> string + gold_row list" where
  "getGoldHistory tenantId indexName opts s =
     guarded tenantId ''gold-scorer:getGoldHistory''
       (take (or_else (rf_limit opts) 100) (newest (filter
          (\<lambda>g. gd_tenant_id g = tenantId \<and> gd_index_name g = indexName \<and> after (rf_since opts) (gd_scored_at g)) (ly_gold s))))"

section \<open>Runs of the pipeline\<close>

text \<open>One write of any layer, with any inputs and outcomes.\<close>

inductive layer_step :: "md_env \<Rightarrow> layers \<Rightarrow> layers \<Rightarrow> bool" for env where
  bronze: "layer_step env s (fst (extractBronzeRow env db_ok now inp s))"
| silver: "layer_step env s (fst (normalizeBronzeRow env db_ok now nopts b s))"
| gold: "layer_step env s (fst (scoreSilverRow env q fresh sopts v s))"

definition no_layers :: layers where
  "no_layers = \<lparr>ly_bronze = [], ly_silver = [], ly_gold = []\<rparr>"

definition versioned :: "string \<Rightarrow> string \<Rightarrow> string \<Rightarrow> gold_row \<Rightarrow> bool" where
  "versioned tenantId indexName version g = (open_row tenantId indexName g \<and> gd_scoring_version g = version)"

definition scores_valid :: "gold_row \<Rightarrow> bool" where
  "scores_valid g = list_all (\<lambda>x. percent (Some x)) [gd_utilization g, gd_detection g, gd_quality g, gd_composite g]"

definition layers_ok :: "layers \<Rightarrow> bool" where
  "layers_ok s =
     (distinct (map bz_id (ly_bronze s)) \<and> distinct (map sv_id (ly_silver s)) \<and> distinct (map gd_id (ly_gold s)) \<and>
      sv_bronze_id ` set (ly_silver s) \<subseteq> bz_id ` set (ly_bronze s) \<and> gd_silver_id ` set (ly_gold s) \<subseteq> sv_id ` set (ly_silver s) \<and>
      (\<forall>g\<in>set (ly_gold s). scores_valid g \<and> gd_tier g \<in> set TIERS) \<and>
      (\<forall>t i ver. length (filter (versioned t i ver) (ly_gold s)) \<le> 1))"

text \<open>Nothing is removed and nothing changes but an open row that is closed.\<close>

definition closed_later :: "gold_row \<Rightarrow> gold_row \<Rightarrow> bool" where
  "closed_later g h = (h = g \<or> gd_closed_at g = None \<and> (\<exists>t. h = g\<lparr>gd_closed_at := Some t\<rparr>))"

definition extends :: "layers \<Rightarrow> layers \<Rightarrow> bool" where
  "extends s s' =
     ((\<exists>xs. ly_bronze s' = ly_bronze s @ xs) \<and> (\<exists>ys. ly_silver s' = ly_silver s @ ys) \<and>
      (\<exists>hs zs. ly_gold s' = hs @ zs \<and> list_all2 closed_later (ly_gold s) hs))"

lemma closed_later_refl [simp]: "closed_later g g"
  by (simp add: closed_later_def)

lemma list_all2_closed_refl [simp]: "list_all2 closed_later gs gs"
  by (simp add: list.rel_refl)

lemma extends_refl [simp]: "extends s s"
  by (simp add: extends_def) (rule exI [of _ "ly_gold s"], simp)

lemma close_current_gold:
  "ly_gold (close_current now v version s) =
     map (\<lambda>g. if versioned (sv_tenant_id v) (sv_index_name v) version g then g\<lparr>gd_closed_at := Some now\<rparr> else g) (ly_gold s)"
  by (simp add: close_current_def versioned_def)

lemma close_current_other [simp]:
  "ly_bronze (close_current now v version s) = ly_bronze s" "ly_silver (close_current now v version s) = ly_silver s"
  by (simp_all add: close_current_def)

lemma closed_when:
  "list_all2 closed_later gs (map (\<lambda>g. if versioned t i ver g then g\<lparr>gd_closed_at := Some now\<rparr> else g) gs)"
  by (induction gs) (auto simp: closed_later_def versioned_def open_row_def)

lemma versioned_update [simp]: "\<not> versioned t i ver (g\<lparr>gd_closed_at := Some now\<rparr>)"
  by (simp add: versioned_def open_row_def)

lemma versioned_closed:
  "versioned t' i' ver' (if versioned t i ver g then g\<lparr>gd_closed_at := Some now\<rparr> else g) \<longleftrightarrow>
     versioned t' i' ver' g \<and> \<not> versioned t i ver g"
  by simp

lemma close_leaves_none:
  "filter (versioned (sv_tenant_id v) (sv_index_name v) version) (ly_gold (close_current now v version s)) = []"
  unfolding close_current_gold by (auto simp: filter_empty_conv)

lemma close_shrinks:
  "length (filter (versioned t i ver) (ly_gold (close_current now v version s))) \<le> length (filter (versioned t i ver) (ly_gold s))"
proof -
  have "length (filter (\<lambda>g. versioned t i ver g \<and> Q g) gs) \<le> length (filter (versioned t i ver) gs)" for Q gs
    by (induction gs) auto
  then show ?thesis unfolding close_current_gold filter_map by (simp add: comp_def versioned_closed del: if_split)
qed

lemma bronze_cases:
  assumes "extractBronzeRow env db_ok now inp s = (s', r)"
  shows "s' = s \<or> (\<exists>row. s' = s\<lparr>ly_bronze := ly_bronze s @ [row]\<rparr> \<and> bz_id row \<notin> bz_id ` set (ly_bronze s))"
  using assms by (auto simp: extractBronzeRow_def Let_def split: sum.splits if_splits)

lemma silver_of_ids:
  "silver_of env now opts b ex = Some row \<Longrightarrow> sv_bronze_id row = bz_id b \<and> sv_parser_version row = or_else (no_parserVersion opts) PARSER_VERSION \<and>
     sv_id row = generateSilverId env (bz_id b) (or_else (no_parserVersion opts) PARSER_VERSION)"
  by (auto simp: silver_of_def Let_def)

lemma silver_cases:
  assumes "normalizeBronzeRow env db_ok now opts b s = (s', r)"
  shows "s' = s \<and> (\<forall>row. r \<noteq> Inr (Some row)) \<or>
    (\<exists>row. s' = s\<lparr>ly_silver := ly_silver s @ [row]\<rparr> \<and> r = Inr (Some row) \<and> sv_id row \<notin> sv_id ` set (ly_silver s) \<and>
       sv_bronze_id row \<in> bz_id ` set (ly_bronze s) \<and>
       sv_id row = generateSilverId env (bz_id b) (or_else (no_parserVersion opts) PARSER_VERSION))"
  using assms by (auto simp: normalizeBronzeRow_def dest!: silver_of_ids split: sum.splits option.splits if_splits)

lemma classifyTier_TIERS: "classifyTier x \<in> set TIERS"
  by (simp add: classifyTier_def TIERS_def)

lemma gold_insert_cases:
  assumes "gold_insert env v fresh raw gated weights version profile hash previous run s = (s', r)"
  shows "s' = s \<and> (\<exists>e. r = Inl e) \<or>
    (\<exists>g. r = Inr g \<and> s' = s\<lparr>ly_gold := ly_gold s @ [g]\<rparr> \<and> gd_id g \<notin> gd_id ` set (ly_gold s) \<and> sv_id v \<in> sv_id ` set (ly_silver s) \<and>
       scores_valid g \<and> gd_tier g \<in> set TIERS \<and> gd_silver_id g = sv_id v \<and> versioned (sv_tenant_id v) (sv_index_name v) version g \<and>
       gd_scored_at g = snd fresh \<and> gd_previous_hash g = previous)"
  using assms classifyTier_TIERS [of "gc_composite gated"]
  by (auto simp: gold_insert_def Let_def scores_valid_def versioned_def open_row_def split: prod.splits option.splits if_splits)

lemma score_cases:
  assumes "scoreSilverRow env q fresh opts v s = (s', r)"
  defines "ver \<equiv> or_else (so_scoringVersion opts) SCORING_VERSION"
  defines "s1 \<equiv> close_current (snd fresh) v ver s"
  shows "s' = s \<and> (\<exists>e. r = Inl e) \<or> s' = s1 \<and> (\<exists>e. r = Inl e) \<or>
    (\<exists>g. r = Inr (Some g) \<and> s' = s1\<lparr>ly_gold := ly_gold s1 @ [g]\<rparr> \<and> gd_id g \<notin> gd_id ` set (ly_gold s1) \<and>
       sv_id v \<in> sv_id ` set (ly_silver s1) \<and> scores_valid g \<and> gd_tier g \<in> set TIERS \<and> gd_silver_id g = sv_id v \<and>
       versioned (sv_tenant_id v) (sv_index_name v) ver g \<and> gd_scored_at g = snd fresh \<and>
       gd_previous_hash g = getPreviousGoldHash (sv_tenant_id v) (sv_index_name v) s \<and> valid_tenant (sv_tenant_id v))"
proof (cases "assertTenantIsolation (Str (sv_tenant_id v)) ''gold-scorer:scoreSilverRow''")
  case (Inr t)
  have vt: "valid_tenant (sv_tenant_id v)" using Inr assert_accepts by blast
  show ?thesis
  proof (cases "\<exists>raw gated. deriveScoresFromSilver env v = Some raw \<and>
      computeGatedCompositeScore (rs_utilization raw) (rs_detection raw) (rs_quality raw) (or_else (so_weights opts) DEFAULT_WEIGHTS) = Inr gated \<and>
      qo_previous q \<and> qo_close q \<and> qo_insert q")
    case False
    then show ?thesis using assms(1) Inr
      by (auto simp: scoreSilverRow_def Let_def s1_def ver_def split: option.splits sum.splits if_splits)
  next
    case True
    then obtain raw gated where rg: "deriveScoresFromSilver env v = Some raw" and
      g: "computeGatedCompositeScore (rs_utilization raw) (rs_detection raw) (rs_quality raw) (or_else (so_weights opts) DEFAULT_WEIGHTS) = Inr gated"
      and ok: "qo_previous q" "qo_close q" "qo_insert q" by blast
    obtain s2 r2 where ins: "gold_insert env v fresh raw gated (or_else (so_weights opts) DEFAULT_WEIGHTS) ver
      (or_else (so_scoringProfile opts) ''balanced'')
      (computeGoldSnapshotHash env v raw (gc_composite gated) ver (or_else (so_scoringProfile opts) ''balanced''))
      (getPreviousGoldHash (sv_tenant_id v) (sv_index_name v) s) (so_pipelineRunId opts) s1 = (s2, r2)"
      by (meson surj_pair)
    have eq: "(s', r) = (case (s2, r2) of (s2, Inl e) \<Rightarrow> (s2, Inl e) | (s2, Inr g) \<Rightarrow> (s2, Inr (Some g)))"
      using assms(1) Inr rg g ok ins by (simp add: scoreSilverRow_def Let_def ver_def s1_def)
    show ?thesis using gold_insert_cases [OF ins] eq vt by auto
  qed
qed (use assms(1) in \<open>auto simp: scoreSilverRow_def\<close>)

lemma score_detection:
  assumes "scoreSilverRow env q fresh opts v s = (s', Inr (Some g))"
  shows "\<exists>raw. deriveScoresFromSilver env v = Some raw \<and> md_real env (rs_detection raw) = Some (gd_detection g)"
  using assms
  by (auto simp: scoreSilverRow_def Let_def gold_insert_def real_scores_def split: sum.splits option.splits if_splits prod.splits)

lemma closed_ids: "list_all2 closed_later gs hs \<Longrightarrow> map gd_id hs = map gd_id gs \<and> map gd_silver_id hs = map gd_silver_id gs"
  by (induction rule: list_all2_induct) (auto simp: closed_later_def)

lemma close_current_facts:
  "map gd_id (ly_gold (close_current now v version s)) = map gd_id (ly_gold s)"
  "map gd_silver_id (ly_gold (close_current now v version s)) = map gd_silver_id (ly_gold s)"
  using closed_ids [OF closed_when] unfolding close_current_gold by blast+

lemma scores_valid_update [simp]: "scores_valid (g\<lparr>gd_closed_at := x\<rparr>) = scores_valid g"
  by (simp add: scores_valid_def)

lemma close_current_scores:
  assumes "\<forall>g\<in>set (ly_gold s). scores_valid g \<and> gd_tier g \<in> set TIERS"
  shows "\<forall>g\<in>set (ly_gold (close_current now v version s)). scores_valid g \<and> gd_tier g \<in> set TIERS"
proof
  fix h assume "h \<in> set (ly_gold (close_current now v version s))"
  then obtain g where g: "g \<in> set (ly_gold s)" and
    "h = (if versioned (sv_tenant_id v) (sv_index_name v) version g then g\<lparr>gd_closed_at := Some now\<rparr> else g)"
    unfolding close_current_gold set_map by (elim imageE)
  then have "scores_valid h = scores_valid g" "gd_tier h = gd_tier g" by simp_all
  then show "scores_valid h \<and> gd_tier h \<in> set TIERS" using bspec [OF assms g] by argo
qed

lemma extends_close: "extends s (close_current now v version s)"
  unfolding extends_def close_current_gold close_current_other
  by (intro conjI exI [of _ "[]"] exI) (rule append_Nil2 [symmetric] closed_when)+

lemma ok_close: "layers_ok s \<Longrightarrow> layers_ok (close_current now v version s)"
proof -
  assume ok: "layers_ok s"
  then have "length (filter (versioned t i ver) (ly_gold (close_current now v version s))) \<le> 1" for t i ver
    using close_shrinks [of t i ver now v version s] by (simp add: layers_ok_def) (meson le_trans)
  moreover have "gd_silver_id ` set (ly_gold (close_current now v version s)) = gd_silver_id ` set (ly_gold s)"
    using arg_cong [OF close_current_facts(2), of set] by simp
  ultimately show ?thesis
    using ok close_current_scores [of s] by (simp add: layers_ok_def close_current_facts)
qed

lemma extends_append:
  "extends s (s\<lparr>ly_bronze := ly_bronze s @ xs\<rparr>)" "extends s (s\<lparr>ly_silver := ly_silver s @ ys\<rparr>)"
  by (simp_all add: extends_def) (rule exI [of _ "ly_gold s"], simp)+

lemma extends_gold: "extends s s1 \<Longrightarrow> extends s (s1\<lparr>ly_gold := ly_gold s1 @ zs\<rparr>)"
  unfolding extends_def by (metis (no_types, lifting) append_assoc layers.select_convs layers.surjective layers.update_convs(3))

lemma ok_gold:
  assumes "layers_ok s1" "gd_id g \<notin> gd_id ` set (ly_gold s1)" "gd_silver_id g \<in> sv_id ` set (ly_silver s1)"
    "scores_valid g" "gd_tier g \<in> set TIERS" "versioned t i ver g" "filter (versioned t i ver) (ly_gold s1) = []"
  shows "layers_ok (s1\<lparr>ly_gold := ly_gold s1 @ [g]\<rparr>)"
proof -
  have "length (filter (versioned t' i' ver') (ly_gold s1 @ [g])) \<le> 1" for t' i' ver'
  proof (cases "versioned t' i' ver' g")
    case True
    then have "t' = t" "i' = i" "ver' = ver" using assms(6) by (auto simp: versioned_def open_row_def)
    then show ?thesis using assms(7) by simp
  next
    case False
    then show ?thesis using assms(1) by (simp add: layers_ok_def)
  qed
  then show ?thesis using assms(1-5) by (auto simp: layers_ok_def)
qed

lemma ok_bronze: "layers_ok s \<Longrightarrow> bz_id row \<notin> bz_id ` set (ly_bronze s) \<Longrightarrow> layers_ok (s\<lparr>ly_bronze := ly_bronze s @ [row]\<rparr>)"
  by (simp add: layers_ok_def) blast

lemma ok_silver:
  "layers_ok s \<Longrightarrow> sv_id row \<notin> sv_id ` set (ly_silver s) \<Longrightarrow> sv_bronze_id row \<in> bz_id ` set (ly_bronze s) \<Longrightarrow>
   layers_ok (s\<lparr>ly_silver := ly_silver s @ [row]\<rparr>)"
  by (simp add: layers_ok_def) blast

lemma step_preserves:
  assumes "layer_step env s s'" "layers_ok s"
  shows "layers_ok s' \<and> extends s s'"
  using assms(1)
proof cases
  case (bronze db_ok now inp)
  show ?thesis
    using bronze_cases [OF prod.collapse [symmetric], of env db_ok now inp s] assms(2) ok_bronze extends_append(1) [of s]
    unfolding bronze by (elim disjE exE conjE) simp_all
next
  case (silver db_ok now nopts b)
  show ?thesis
    using silver_cases [OF prod.collapse [symmetric], of env db_ok now nopts b s] assms(2) ok_silver extends_append(2) [of s]
    unfolding silver by (elim disjE exE conjE) simp_all
next
  case (gold q fresh sopts v)
  let ?s1 = "close_current (snd fresh) v (or_else (so_scoringVersion sopts) SCORING_VERSION) s"
  have s1: "layers_ok ?s1" "extends s ?s1" using ok_close [OF assms(2)] extends_close by blast+
  have "layers_ok (?s1\<lparr>ly_gold := ly_gold ?s1 @ [g]\<rparr>)"
    if "gd_id g \<notin> gd_id ` set (ly_gold ?s1)" "gd_silver_id g \<in> sv_id ` set (ly_silver ?s1)" "scores_valid g" "gd_tier g \<in> set TIERS"
      "versioned (sv_tenant_id v) (sv_index_name v) (or_else (so_scoringVersion sopts) SCORING_VERSION) g" for g
    using ok_gold [OF s1(1) that(1-5) close_leaves_none] .
  then show ?thesis
    using score_cases [OF prod.collapse [symmetric], of env q fresh sopts v s] assms(2) s1 extends_gold [OF s1(2)]
    unfolding gold by (elim disjE exE conjE) simp_all
qed

lemma closed_later_trans: "closed_later g h \<Longrightarrow> closed_later h k \<Longrightarrow> closed_later g k"
  by (auto simp: closed_later_def)

lemma extends_trans:
  assumes "extends s s'" "extends s' s''"
  shows "extends s s''"
proof -
  obtain hs zs where a: "ly_gold s' = hs @ zs" "list_all2 closed_later (ly_gold s) hs" using assms(1) by (auto simp: extends_def)
  obtain ks ys where b: "ly_gold s'' = ks @ ys" "list_all2 closed_later (ly_gold s') ks" using assms(2) by (auto simp: extends_def)
  obtain us ws where c: "ks = us @ ws" "list_all2 closed_later hs us" "list_all2 closed_later zs ws"
    using b(2) unfolding a(1) list_all2_append1 by auto
  have "list_all2 closed_later (ly_gold s) us" by (rule list_all2_trans [OF closed_later_trans a(2) c(2)])
  then have "\<exists>hs zs. ly_gold s'' = hs @ zs \<and> list_all2 closed_later (ly_gold s) hs" using b(1) c(1) by auto
  moreover have "\<exists>xs. ly_bronze s'' = ly_bronze s @ xs" "\<exists>ys. ly_silver s'' = ly_silver s @ ys"
    using assms by (auto simp: extends_def)
  ultimately show ?thesis by (simp add: extends_def)
qed

lemma run_preserves:
  assumes "(layer_step env)\<^sup>*\<^sup>* s s'" "layers_ok s"
  shows "layers_ok s' \<and> extends s s'"
  using assms
proof (induction rule: rtranclp_induct)
  case (step t u)
  then show ?case using step_preserves extends_trans by blast
qed simp


text \<open>A batch is a run of single writes.\<close>

lemma thread_run:
  assumes "\<And>x s. R s (fst (f x s))"
  shows "R\<^sup>*\<^sup>* s (fst (thread f xs s))"
proof (induction xs arbitrary: s)
  case (Cons x xs)
  have "R s (fst (f x s))" by (rule assms)
  moreover have "R\<^sup>*\<^sup>* (fst (f x s)) (fst (thread f xs (fst (f x s))))" by (rule Cons.IH)
  ultimately show ?case by (simp add: case_prod_beta Let_def)
qed simp

lemma batches_are_runs:
  "(layer_step env)\<^sup>*\<^sup>* s (fst (extractBronzeBatch env run fresh inputs s))"
  "(layer_step env)\<^sup>*\<^sup>* s (fst (normalizeBatch env nopts fresh rows s))"
  "(layer_step env)\<^sup>*\<^sup>* s (fst (scoreBatch env sopts fresh silvers s))"
proof -
  show "(layer_step env)\<^sup>*\<^sup>* s (fst (extractBronzeBatch env run fresh inputs s))"
    using thread_run [where R = "layer_step env" and xs = inputs and s = s and
        f = "\<lambda>(inp, db_ok, now). extractBronzeRow env db_ok now (inp\<lparr>bi_pipeline_run_id := Some (or_else run (''bronze-run-'' @ fresh))\<rparr>)"]
    by (simp add: extractBronzeBatch_def Let_def case_prod_beta layer_step.bronze)
  show "(layer_step env)\<^sup>*\<^sup>* s (fst (normalizeBatch env nopts fresh rows s))"
    using thread_run [where R = "layer_step env" and xs = rows and s = s and
        f = "\<lambda>(b, db_ok, now). normalizeBronzeRow env db_ok now
          (nopts\<lparr>no_pipelineRunId := Some (or_else (no_pipelineRunId nopts) (''silver-run-'' @ fresh))\<rparr>) b"]
    by (simp add: normalizeBatch_def Let_def case_prod_beta layer_step.silver)
  show "(layer_step env)\<^sup>*\<^sup>* s (fst (scoreBatch env sopts fresh silvers s))"
    using thread_run [where R = "layer_step env" and xs = silvers and s = s and
        f = "\<lambda>(v, q, f). scoreSilverRow env q f
          (sopts\<lparr>so_pipelineRunId := Some (or_else (so_pipelineRunId sopts) (''gold-run-'' @ fresh))\<rparr>) v"]
    by (simp add: scoreBatch_def Let_def case_prod_beta layer_step.gold)
qed

text \<open>The row a scoring leaves open is the current one.\<close>

lemma newest_single: "filter P gs = [] \<Longrightarrow> P g \<Longrightarrow> newest (filter P (gs @ [g])) = [g]"
  by (simp add: newest_def)

lemma guarded_accepts: "valid_tenant t \<Longrightarrow> guarded t ctx r = Inr r"
proof -
  assume "valid_tenant t"
  then have "assertTenantIsolation (Str t) ctx = Inr t" using assert_accepts by blast
  then show ?thesis by (simp add: guarded_def)
qed

lemma current_none:
  assumes "valid_tenant t" "filter (versioned t i ver) (ly_gold s) = []"
  shows "getCurrentGoldSnapshot t i ver s = Inr None"
proof -
  have "filter (\<lambda>g. open_row t i g \<and> gd_scoring_version g = ver) (ly_gold s) = []"
    using assms(2) by (simp add: versioned_def filter_empty_conv)
  then show ?thesis using assms(1) by (simp add: getCurrentGoldSnapshot_def guarded_accepts newest_def)
qed

lemma current_single:
  assumes "valid_tenant t" "filter (versioned t i ver) gs = []" "versioned t i ver g" "ly_gold s = gs @ [g]"
  shows "getCurrentGoldSnapshot t i ver s = Inr (Some g)"
proof -
  have e: "versioned t i ver = (\<lambda>g. open_row t i g \<and> gd_scoring_version g = ver)" by (rule ext) (simp add: versioned_def)
  have "newest (filter (\<lambda>g. open_row t i g \<and> gd_scoring_version g = ver) (ly_gold s)) = [g]"
    using newest_single [OF assms(2,3)] unfolding assms(4) e .
  then show ?thesis using assms(1) by (simp add: getCurrentGoldSnapshot_def guarded_accepts)
qed

lemma current_eq:
  assumes "filter (versioned t i ver) (ly_gold s) = filter (versioned t i ver) (ly_gold s')"
  shows "getCurrentGoldSnapshot t i ver s = getCurrentGoldSnapshot t i ver s'"
proof -
  have e: "(\<lambda>g. open_row t i g \<and> gd_scoring_version g = ver) = versioned t i ver" by (rule ext) (simp add: versioned_def)
  show ?thesis unfolding getCurrentGoldSnapshot_def e assms by (rule refl)
qed

lemma close_keeps_versions:
  assumes "ver' \<noteq> ver"
  shows "filter (versioned t i ver') (ly_gold (close_current now v ver s)) = filter (versioned t i ver') (ly_gold s)"
proof -
  have v: "\<not> versioned a b ver g" if "versioned t i ver' g" for a b g using that assms by (auto simp: versioned_def)
  have "filter (versioned t i ver') (map (\<lambda>g. if versioned a b ver g then g\<lparr>gd_closed_at := Some now\<rparr> else g) gs) =
      filter (versioned t i ver') gs" for a b gs
  proof (induction gs)
    case (Cons g gs)
    then show ?case using v [of g a b] by simp
  qed simp
  then show ?thesis unfolding close_current_gold by blast
qed

lemma score_success_law:
  assumes "scoreSilverRow env q fresh opts v s = (s', Inr (Some g))"
  defines "ver \<equiv> or_else (so_scoringVersion opts) SCORING_VERSION"
  shows "getCurrentGoldSnapshot (sv_tenant_id v) (sv_index_name v) ver s' = Inr (Some g) \<and>
    gd_previous_hash g = getPreviousGoldHash (sv_tenant_id v) (sv_index_name v) s \<and>
    (\<forall>ver'. ver' \<noteq> ver \<longrightarrow> getCurrentGoldSnapshot (sv_tenant_id v) (sv_index_name v) ver' s' =
       getCurrentGoldSnapshot (sv_tenant_id v) (sv_index_name v) ver' s)"
proof -
  let ?s1 = "close_current (snd fresh) v ver s"
  have g: "s' = ?s1\<lparr>ly_gold := ly_gold ?s1 @ [g]\<rparr>" "versioned (sv_tenant_id v) (sv_index_name v) ver g"
    "gd_previous_hash g = getPreviousGoldHash (sv_tenant_id v) (sv_index_name v) s" "valid_tenant (sv_tenant_id v)"
    using score_cases [OF assms(1)] unfolding ver_def by blast+
  have "getCurrentGoldSnapshot (sv_tenant_id v) (sv_index_name v) ver s' = Inr (Some g)"
    by (rule current_single [OF g(4) close_leaves_none g(2)]) (simp add: g(1))
  moreover have "getCurrentGoldSnapshot (sv_tenant_id v) (sv_index_name v) ver' s' =
      getCurrentGoldSnapshot (sv_tenant_id v) (sv_index_name v) ver' s" if "ver' \<noteq> ver" for ver'
  proof (rule current_eq)
    have "\<not> versioned (sv_tenant_id v) (sv_index_name v) ver' g" using g(2) that by (simp add: versioned_def)
    then show "filter (versioned (sv_tenant_id v) (sv_index_name v) ver') (ly_gold s') =
      filter (versioned (sv_tenant_id v) (sv_index_name v) ver') (ly_gold s)"
      using close_keeps_versions [OF that] by (simp add: g(1))
  qed
  ultimately show ?thesis using g(3) by blast
qed

lemma clamp100_range: "x \<noteq> NaN \<Longrightarrow> in_range 0 100 (clamp100 x)"
  by (cases x) (auto simp: clamp100_def jmin_def jmax_def)

lemma percent_range: "percent (Some x) \<Longrightarrow> in_range 0 100 x"
  by (cases x) (auto simp: percent_def)

lemma silver_quality_range: "percent e \<Longrightarrow> percent c \<Longrightarrow> in_range 0 100 (silver_quality e c)"
proof -
  assume p: "percent e" "percent c"
  have sub: "jsub (Fin a) (Fin b) \<noteq> NaN" for a b by (simp add: jsub_def)
  show ?thesis
  proof (cases e)
    case None
    then show ?thesis using p(2) percent_range by (cases c) (auto simp: silver_quality_def)
  next
    case (Some x)
    then obtain r where r: "x = Fin r" "0 \<le> r" "r \<le> 100" using p(1) percent_range by (auto elim: in_rangeE)
    show ?thesis
    proof (cases c)
      case None
      then show ?thesis using Some r sub clamp100_range by (simp add: silver_quality_def)
    next
      case (Some y)
      then obtain t where t: "y = Fin t" "0 \<le> t" "t \<le> 100" using p(2) percent_range by (auto elim: in_rangeE)
      have half: "in_range 0 100 (jmul (Fin k) (Fin (1 / 2)))" if "0 \<le> k" "k \<le> 100" for k
        using that by (intro in_range_mul [where a = 0 and b = 100 and c = 0 and d = 1]) simp_all
      obtain a where a: "jmul x (Fin (1 / 2)) = Fin a" "0 \<le> a" "a \<le> 100" using half [OF r(2,3)] r(1) by (auto elim: in_rangeE)
      obtain b where b: "jmul y (Fin (1 / 2)) = Fin b" using half [OF t(2,3)] t(1) by (auto elim: in_rangeE)
      have "in_range (- 50) 50 (jsub (Fin 50) (Fin a))"
        using a by (intro in_range_sub [where a = 50 and b = 50 and c = 0 and d = 100]) simp_all
      then obtain d where "jsub (Fin 50) (Fin a) = Fin d" by (auto elim: in_rangeE)
      then have "silver_quality e c = clamp100 (rnd64 (d + b))" using \<open>e = Some x\<close> Some a(1) b by (simp add: silver_quality_def)
      then show ?thesis by (simp add: clamp100_range)
    qed
  qed
qed

text \<open>What \<open>Math.log10\<close> promises on numbers from one on.\<close>

definition log10_ok :: "(jsnum \<Rightarrow> jsnum) \<Rightarrow> bool" where
  "log10_ok f = (\<forall>x. jle (Fin 1) x \<longrightarrow> jle (Fin 0) (f x))"

lemma jle_rnd_nat: "jle (Fin (of_nat k)) (rnd64 (of_nat n))" if "k \<le> n" "k \<le> 2 ^ 53"
proof -
  have "jle (rnd64 (of_nat k)) (rnd64 (of_nat n))" using that(1) by (intro jle_rnd) simp
  moreover have "rnd64 (of_nat k) = Fin (of_nat k)" using rnd64_of_int [of "int k"] that(2) by simp
  ultimately show ?thesis by simp
qed

lemma positive_text: "jlt (Fin 0) (string_number (nat_str n)) \<longleftrightarrow> 0 < n"
proof (cases "n = 0")
  case True
  then show ?thesis using rnd64_of_int [of 0] by (simp add: string_number_nat)
next
  case False
  then have "jle (Fin 1) (rnd64 (of_nat n))" using jle_rnd_nat [of 1 n] by simp
  then show ?thesis using False by (cases "rnd64 (of_nat n)") (auto simp: string_number_nat)
qed

lemma text_plus_one: "0 < n \<Longrightarrow> string_number (nat_str n @ ''1'') = rnd64 (of_nat (10 * n + 1))"
proof -
  assume n: "0 < n"
  have e: "[char_of (48 + 1 :: nat)] = ''1''" by code_simp
  have "nat_str n @ [char_of (48 + 1 :: nat)] = nat_str (10 * n + 1)" by (rule nat_str_continue [OF n]) simp
  then have "nat_str n @ ''1'' = nat_str (10 * n + 1)" unfolding e .
  then show ?thesis by (simp only: string_number_nat)
qed

lemma jadd_one: "jle (Fin 0) x \<Longrightarrow> jle (Fin 1) (jadd x (Fin 1))"
proof (cases x)
  case (Fin r)
  moreover assume "jle (Fin 0) x"
  moreover have "rnd64 1 = Fin 1" using rnd64_of_int [of 1] by simp
  ultimately show ?thesis using jle_rnd [of 1 "r + 1"] by simp
qed simp_all

lemma jdiv_nonneg: "jle (Fin 0) x \<Longrightarrow> jle (Fin 1) y \<Longrightarrow> x \<noteq> Inf \<Longrightarrow> jle (Fin 0) (jdiv x y)"
proof -
  assume a: "jle (Fin 0) x" "jle (Fin 1) y" "x \<noteq> Inf"
  then obtain r where r: "x = Fin r" "0 \<le> r" by (cases x) auto
  have z: "rnd64 0 = Fin 0" using rnd64_of_int [of 0] by simp
  show ?thesis
  proof (cases y)
    case (Fin w)
    then show ?thesis using a r jle_rnd [of 0 "r / w"] z by simp
  qed (use a r z in simp_all)
qed

text \<open>The count of a row as the driver delivers it: null, or the text of a number below \<open>2 ^ 63\<close>.\<close>

definition count_text :: "js \<Rightarrow> bool" where
  "count_text v = (v = Null \<or> (\<exists>n. n < 2 ^ 63 \<and> v = Str (nat_str n)))"

lemma rnd64_bigint: "n < 2 ^ 63 \<Longrightarrow> rnd64 (of_nat n) \<noteq> Inf"
proof -
  assume "n < 2 ^ 63"
  then have "jle (rnd64 (of_nat n)) (rnd64 (2 ^ 63))" by (intro jle_rnd) (metis less_imp_le of_nat_le_iff of_nat_numeral of_nat_power)
  moreover have "rnd64 (2 ^ 63) = Fin (2 ^ 63)" using rnd64_exact [of 1 63] by (simp add: pow2_powi)
  ultimately show ?thesis by auto
qed

lemma lit333: "jlit (333 / 10) = Fin (2343279181116211 / 2 ^ 46)"
  by code_simp

lemma utilization_range:
  assumes "log10_ok (md_log10 env)" "count_text (sv_event_count v)"
  shows "in_range 0 100 (silver_utilization env v)"
proof (cases "sv_event_count v \<noteq> Null \<and> jlt (Fin 0) (js_number (sv_event_count v))")
  case True
  then obtain n where n: "sv_event_count v = Str (nat_str n)" "n < 2 ^ 63" using assms(2) by (auto simp: count_text_def)
  then have pos: "0 < n" using True positive_text [of n] by simp
  have num: "jle (Fin 0) (rnd64 (of_nat n))" "rnd64 (of_nat n) \<noteq> Inf"
    using jle_rnd_nat [of 0 n] rnd64_bigint [OF n(2)] by simp_all
  have one: "jle (Fin 1) (js_number (plus_one (events_per_day v)))"
  proof (cases "\<exists>d. sv_time_span_days v = Some d \<and> js_truthy (Num d)")
    case False
    then have "js_number (plus_one (events_per_day v)) = string_number (nat_str n @ ''1'')"
      using n(1) by (auto simp: events_per_day_def plus_one_def split: option.splits)
    also have "\<dots> = rnd64 (of_nat (10 * n + 1))"
      by (rule text_plus_one [OF pos])
    finally show ?thesis using jle_rnd_nat [of 1 "10 * n + 1"] by simp
  next
    case True
    then obtain d where d: "sv_time_span_days v = Some d" "js_truthy (Num d)" by blast
    have "jle (Fin 1) (jmax d (Fin 1))" using d(2) by (cases d) (auto simp: jmax_def)
    then have "jle (Fin 0) (jdiv (rnd64 (of_nat n)) (jmax d (Fin 1)))" using num by (intro jdiv_nonneg)
    then show ?thesis using d n(1) by (simp add: events_per_day_def plus_one_def string_number_nat jadd_one)
  qed
  let ?l = "md_log10 env (js_number (plus_one (events_per_day v)))"
  have "jle (Fin 0) ?l" using assms(1) one by (simp add: log10_ok_def)
  moreover obtain w where w: "jlit (333 / 10) = Fin w" "0 < w" by (rule that [OF lit333]) simp
  ultimately have "jle (jround (jmul (Fin 0) (Fin w))) (jround (jmul ?l (Fin w)))" by (intro jle_round jle_scale)
  moreover have "jround (jmul (Fin 0) (Fin w)) = Fin 0" using rnd64_of_int [of 0] by (simp add: floor_eq_iff)
  ultimately have "jle (Fin 0) (jround (jmul ?l (Fin w)))" by simp
  then have "in_range 0 100 (jmin (Fin 100) (jround (jmul ?l (Fin w))))"
    by (cases "jround (jmul ?l (Fin w))") (auto simp: jmin_def)
  then show ?thesis using True w(1) by (simp add: silver_utilization_def)
qed (auto simp: silver_utilization_def)

section \<open>Properties\<close>


text \<open>
  The scores derived from a normalized row are between 0 and 100, for every content of its fields,
  when its rates are percentages or missing and its count is missing or a number as the driver delivers it.
\<close>

theorem derived_scores_bounded:
  assumes "deriveScoresFromSilver env v = Some raw" "log10_ok (md_log10 env)" "count_text (sv_event_count v)"
    "percent (sv_parsing_error_rate v)" "percent (sv_field_coverage_pct v)"
    "\<forall>fs x. silver_fields env (sv_normalized_fields v) = Some fs \<and> (js_get fs ''detection_score'' = Num x \<or> js_get fs ''detection_coverage'' = Num x) \<longrightarrow> x \<noteq> NaN"
  shows "in_range 0 100 (rs_utilization raw) \<and> in_range 0 100 (rs_detection raw) \<and> in_range 0 100 (rs_quality raw)"
proof -
  obtain fs where fs: "silver_fields env (sv_normalized_fields v) = Some fs"
    and raw: "rs_utilization raw = jround (silver_utilization env v)" "rs_detection raw = jround (silver_detection fs (sv_sourcetype v))"
      "rs_quality raw = jround (silver_quality (sv_parsing_error_rate v) (sv_field_coverage_pct v))"
    using assms(1) by (auto simp: deriveScoresFromSilver_def)
  have "in_range 0 100 (silver_detection fs (sv_sourcetype v))"
    using assms(6) fs clamp100_range by (auto simp: silver_detection_def split: js.splits)
  then show ?thesis
    using raw utilization_range [OF assms(2,3)] silver_quality_range [OF assms(4,5)] in_range_round [of 0 100] by simp
qed

text \<open>
  A count without a time span is scored as if it were ten times as large: the driver delivers it as a
  text, and the one that is added for the logarithm is written behind it. Only the same count as a number
  would be scored as documented.
\<close>

theorem text_count_inflates:
  assumes "sv_event_count v = md_bigint env (int n)" "md_bigint env (int n) = Str (nat_str n)" "sv_time_span_days v = None" "0 < n"
  shows "silver_utilization env v = jmin (Fin 100) (jround (jmul (md_log10 env (rnd64 (of_nat (10 * n + 1)))) (jlit (333 / 10)))) \<and>
    silver_utilization env (v\<lparr>sv_event_count := Num (Fin (of_nat n))\<rparr>) =
      jmin (Fin 100) (jround (jmul (md_log10 env (rnd64 (of_nat (n + 1)))) (jlit (333 / 10))))"
  using assms positive_text [of n] text_plus_one [of n]
  by (simp add: silver_utilization_def events_per_day_def plus_one_def add.commute)

text \<open>
  C20: A scoring that succeeds makes its row the current one of its version, links it to the hash of the
  newest open row of the index, of whatever version, and leaves what is current in the other versions as
  it was.
\<close>

theorem score_becomes_current:
  assumes "scoreSilverRow env q fresh opts v s = (s', Inr (Some g))" "ver = or_else (so_scoringVersion opts) SCORING_VERSION"
  shows "getCurrentGoldSnapshot (sv_tenant_id v) (sv_index_name v) ver s' = Inr (Some g) \<and>
    gd_previous_hash g = getPreviousGoldHash (sv_tenant_id v) (sv_index_name v) s \<and>
    (\<forall>ver'. ver' \<noteq> ver \<longrightarrow> getCurrentGoldSnapshot (sv_tenant_id v) (sv_index_name v) ver' s' =
       getCurrentGoldSnapshot (sv_tenant_id v) (sv_index_name v) ver' s)"
  using score_success_law [OF assms(1)] unfolding assms(2) .

text \<open>
  The old row is closed before the new one is inserted and not in one transaction, so when the insert
  fails the scoring reports an error and the index is left without a current score.
\<close>

theorem failed_insert_loses_current:
  assumes "valid_tenant (sv_tenant_id v)" "deriveScoresFromSilver env v = Some raw"
    "computeGatedCompositeScore (rs_utilization raw) (rs_detection raw) (rs_quality raw) (or_else (so_weights opts) DEFAULT_WEIGHTS) = Inr gated"
    "qo_previous q" "qo_close q" "\<not> qo_insert q" "ver = or_else (so_scoringVersion opts) SCORING_VERSION"
  shows "(\<exists>e. snd (scoreSilverRow env q fresh opts v s) = Inl e) \<and>
    getCurrentGoldSnapshot (sv_tenant_id v) (sv_index_name v) ver (fst (scoreSilverRow env q fresh opts v s)) = Inr None"
proof -
  have "assertTenantIsolation (Str (sv_tenant_id v)) ''gold-scorer:scoreSilverRow'' = Inr (sv_tenant_id v)"
    using assms(1) assert_accepts by blast
  then have "scoreSilverRow env q fresh opts v s = (close_current (snd fresh) v ver s, Inl ''query failed'')"
    using assms(2-7) by (simp add: scoreSilverRow_def Let_def)
  then show ?thesis using current_none [OF assms(1) close_leaves_none] by simp
qed

text \<open>
  A payload is normalized once per parser version: after a row was written for it, normalizing it again
  with the same parser version changes nothing, whatever normalization version is asked for.
\<close>

theorem normalized_once:
  assumes "normalizeBronzeRow env db_ok now opts b s = (s1, Inr (Some row))" "(layer_step env)\<^sup>*\<^sup>* s1 s2" "layers_ok s1"
    "or_else (no_parserVersion opts') PARSER_VERSION = or_else (no_parserVersion opts) PARSER_VERSION"
  shows "fst (normalizeBronzeRow env db_ok' now' opts' b s2) = s2 \<and>
    (\<forall>row'. snd (normalizeBronzeRow env db_ok' now' opts' b s2) \<noteq> Inr (Some row'))"
proof -
  have r: "s1 = s\<lparr>ly_silver := ly_silver s @ [row]\<rparr>" "sv_id row = generateSilverId env (bz_id b) (or_else (no_parserVersion opts) PARSER_VERSION)"
    using silver_cases [OF assms(1)] by auto
  have "extends s1 s2" using run_preserves [OF assms(2,3)] by blast
  then have "sv_id row \<in> sv_id ` set (ly_silver s2)" using r(1) by (auto simp: extends_def)
  then show ?thesis
    using silver_cases [OF prod.collapse [symmetric], of env db_ok' now' opts' b s2] assms(4) r(2) by auto
qed

section \<open>Concrete rows\<close>

definition sample_md :: md_env where
  "sample_md = \<lparr>md_sha = (\<lambda>_. ''h''), md_parse = (\<lambda>_. None), md_stringify = (\<lambda>_. ''j''), md_real = Some,
     md_bigint = (\<lambda>n. Str (nat_str (nat n))), md_log10 = (\<lambda>_. Fin 1), md_weights = (\<lambda>_. True)\<rparr>"


definition sample_bronze :: bronze_row where
  "sample_bronze = \<lparr>bz_id = ''b'', bz_tenant_id = ''acme'', bz_sid = None, bz_index_name = ''web'', bz_sourcetype = None,
     bz_raw_payload = Obj [], bz_extracted_at = 0, bz_extraction_version = ''1.0'', bz_pipeline_run_id = None\<rparr>"

definition sample_silver :: silver_row where
  "sample_silver = \<lparr>sv_id = ''s'', sv_tenant_id = ''acme'', sv_bronze_id = ''b'', sv_index_name = ''web'', sv_sourcetype = None,
     sv_event_count = Str (nat_str 9), sv_distinct_hosts = Null, sv_parsing_error_rate = None, sv_field_coverage_pct = None,
     sv_time_span_days = None, sv_normalized_fields = Obj [], sv_parser_version = ''1.0'', sv_normalization_version = ''1.0'',
     sv_normalized_at = 0, sv_pipeline_run_id = None\<rparr>"

definition plain_score :: score_options where
  "plain_score = \<lparr>so_scoringVersion = None, so_scoringProfile = None, so_weights = None, so_pipelineRunId = None\<rparr>"

definition plain_normalize :: normalize_options where
  "plain_normalize = \<lparr>no_parserVersion = None, no_normalizationVersion = None, no_pipelineRunId = None\<rparr>"

definition all_well :: query_outcomes where
  "all_well = \<lparr>qo_previous = True, qo_close = True, qo_insert = True\<rparr>"

lemma acme: "valid_tenant ''acme''"
  by code_simp

lemma sample_accepted: "assertTenantIsolation (Str ''acme'') ctx = Inr ''acme''"
  using acme assert_accepts by blast

lemma sample_scores:
  "deriveScoresFromSilver sample_md sample_silver = Some \<lparr>rs_utilization = Fin 33, rs_detection = Fin 10, rs_quality = Fin 50\<rparr>"
  by code_simp

lemma sample_gated:
  "\<exists>c. computeGatedCompositeScore (Fin 33) (Fin 10) (Fin 50) DEFAULT_WEIGHTS = Inr c \<and> in_range 0 100 (gc_composite c)"
proof -
  have "case computeGatedCompositeScore (Fin 33) (Fin 10) (Fin 50) DEFAULT_WEIGHTS of
    Inr c \<Rightarrow> in_range 0 100 (gc_composite c) | Inl _ \<Rightarrow> False"
    by code_simp
  then show ?thesis by (auto split: sum.splits)
qed


lemma derived_scores_bounded_witness:
  "in_range 0 100 (rs_utilization (the (deriveScoresFromSilver sample_md sample_silver)))"
proof -
  have "log10_ok (md_log10 sample_md)" by (simp add: sample_md_def log10_ok_def)
  moreover have "count_text (sv_event_count sample_silver)"
    by (auto simp: sample_silver_def count_text_def intro!: exI [of _ 9])
  moreover have "percent (sv_parsing_error_rate sample_silver)" "percent (sv_field_coverage_pct sample_silver)"
    "silver_fields sample_md (sv_normalized_fields sample_silver) = Some []"
    by (simp_all add: sample_silver_def percent_def silver_fields_def)
  ultimately show ?thesis
    using derived_scores_bounded [OF sample_scores] by (simp add: sample_scores js_get_def)
qed

lemma text_count_inflates_witness:
  "silver_utilization sample_md sample_silver = jmin (Fin 100) (jround (jmul (md_log10 sample_md (rnd64 91)) (jlit (333 / 10))))"
  using text_count_inflates [of sample_silver sample_md 9] by (simp add: sample_silver_def sample_md_def)

definition sample_layers :: layers where
  "sample_layers = \<lparr>ly_bronze = [sample_bronze], ly_silver = [sample_silver], ly_gold = []\<rparr>"

lemma score_runs:
  assumes "valid_tenant (sv_tenant_id v)" "deriveScoresFromSilver env v = Some raw"
    "computeGatedCompositeScore (rs_utilization raw) (rs_detection raw) (rs_quality raw) (or_else (so_weights opts) DEFAULT_WEIGHTS) = Inr gated"
    "qo_previous q" "qo_close q" "qo_insert q" "real_scores env raw (gc_composite gated) = Some (r, c)"
    "real_weights env (or_else (so_weights opts) DEFAULT_WEIGHTS) = Some w" "md_weights env w"
    "list_all (\<lambda>x. percent (Some x)) [rs_utilization r, rs_detection r, rs_quality r, c]"
    "''gold-'' @ fst fresh \<notin> gd_id ` set (ly_gold s)" "sv_id v \<in> sv_id ` set (ly_silver s)"
  shows "\<exists>s' g. scoreSilverRow env q fresh opts v s = (s', Inr (Some g))"
proof -
  let ?s1 = "close_current (snd fresh) v (or_else (so_scoringVersion opts) SCORING_VERSION) s"
  have t: "assertTenantIsolation (Str (sv_tenant_id v)) ''gold-scorer:scoreSilverRow'' = Inr (sv_tenant_id v)"
    using assms(1) assert_accepts by blast
  have "gd_id ` set (ly_gold ?s1) = gd_id ` set (ly_gold s)" using arg_cong [OF close_current_facts(1), of set] by simp
  then have "''gold-'' @ fst fresh \<notin> gd_id ` set (ly_gold ?s1)" using assms(11) by simp
  then have ins: "\<exists>s2 g. gold_insert env v fresh raw gated (or_else (so_weights opts) DEFAULT_WEIGHTS) ver profile hash prev run ?s1 = (s2, Inr g)"
    for ver profile hash prev run
    using assms(7-10,12) by (cases fresh) (simp add: gold_insert_def Let_def)
  show ?thesis
    using ins [of "or_else (so_scoringVersion opts) SCORING_VERSION" "or_else (so_scoringProfile opts) ''balanced''"
        "computeGoldSnapshotHash env v raw (gc_composite gated) (or_else (so_scoringVersion opts) SCORING_VERSION)
          (or_else (so_scoringProfile opts) ''balanced'')"
        "getPreviousGoldHash (sv_tenant_id v) (sv_index_name v) s" "so_pipelineRunId opts"]
      t assms(2-6)
    by (elim exE) (simp add: scoreSilverRow_def Let_def)
qed

lemma sample_success:
  "\<exists>s' g. scoreSilverRow sample_md all_well (''1'', 5) plain_score sample_silver sample_layers = (s', Inr (Some g))"
proof -
  obtain c where c: "computeGatedCompositeScore (Fin 33) (Fin 10) (Fin 50) DEFAULT_WEIGHTS = Inr c" "in_range 0 100 (gc_composite c)"
    using sample_gated by blast
  have real: "md_real sample_md = Some" "md_weights sample_md w" for w by (simp_all add: sample_md_def)
  have p: "percent (Some (gc_composite c))" using c(2) by (auto simp: percent_def in_range_iff)
  have t: "valid_tenant (sv_tenant_id sample_silver)" using acme by (simp add: sample_silver_def)
  show ?thesis
    by (rule score_runs [OF t sample_scores, of plain_score c all_well "\<lparr>rs_utilization = Fin 33, rs_detection = Fin 10, rs_quality = Fin 50\<rparr>"
          "gc_composite c" DEFAULT_WEIGHTS])
      (use c(1) p in \<open>simp_all add: plain_score_def or_else_def all_well_def real_scores_def real_weights_def real sample_layers_def percent_def\<close>)
qed

lemma score_becomes_current_witness:
  "\<exists>g. getCurrentGoldSnapshot ''acme'' ''web'' ''1.0''
     (fst (scoreSilverRow sample_md all_well (''1'', 5) plain_score sample_silver sample_layers)) = Inr (Some g)"
proof -
  obtain s' g where e: "scoreSilverRow sample_md all_well (''1'', 5) plain_score sample_silver sample_layers = (s', Inr (Some g))"
    using sample_success by blast
  show ?thesis using score_becomes_current [OF e refl] e
    by (auto simp: plain_score_def or_else_def SCORING_VERSION_def sample_silver_def)
qed

lemma failed_insert_loses_current_witness:
  "\<exists>s g. getCurrentGoldSnapshot ''acme'' ''web'' ''1.0'' s = Inr (Some g) \<and>
     getCurrentGoldSnapshot ''acme'' ''web'' ''1.0''
       (fst (scoreSilverRow sample_md (all_well\<lparr>qo_insert := False\<rparr>) (''2'', 6) plain_score sample_silver s)) = Inr None"
proof -
  obtain s' g where e: "scoreSilverRow sample_md all_well (''1'', 5) plain_score sample_silver sample_layers = (s', Inr (Some g))"
    using sample_success by blast
  obtain c where c: "computeGatedCompositeScore (Fin 33) (Fin 10) (Fin 50) DEFAULT_WEIGHTS = Inr c" using sample_gated by blast
  have t: "valid_tenant (sv_tenant_id sample_silver)" using acme by (simp add: sample_silver_def)
  have "getCurrentGoldSnapshot ''acme'' ''web'' ''1.0'' s' = Inr (Some g)"
    using score_success_law [OF e] by (auto simp: plain_score_def or_else_def SCORING_VERSION_def sample_silver_def)
  moreover have "getCurrentGoldSnapshot ''acme'' ''web'' ''1.0''
      (fst (scoreSilverRow sample_md (all_well\<lparr>qo_insert := False\<rparr>) (''2'', 6) plain_score sample_silver s')) = Inr None"
    using failed_insert_loses_current [OF t sample_scores, of plain_score c "all_well\<lparr>qo_insert := False\<rparr>" "''1.0''" "(''2'', 6)" s'] c
    by (simp add: plain_score_def or_else_def SCORING_VERSION_def all_well_def) (simp add: sample_silver_def)
  ultimately show ?thesis by blast
qed

lemma normalized_once_witness:
  "\<exists>s1 row. normalizeBronzeRow sample_md True 0 plain_normalize sample_bronze (no_layers\<lparr>ly_bronze := [sample_bronze]\<rparr>) = (s1, Inr (Some row)) \<and>
     fst (normalizeBronzeRow sample_md True 9 (plain_normalize\<lparr>no_normalizationVersion := Some ''2.0''\<rparr>) sample_bronze s1) = s1"
proof -
  let ?s = "no_layers\<lparr>ly_bronze := [sample_bronze]\<rparr>"
  have "\<exists>s1 row. normalizeBronzeRow sample_md True 0 plain_normalize sample_bronze ?s = (s1, Inr (Some row))"
    by (simp add: normalizeBronzeRow_def sample_bronze_def sample_accepted payload_entries_def entries_def silver_of_def silver_values_def
        extractNormalizedFields_def js_get_def nullable_def percent_def no_layers_def Let_def)
  then obtain s1 row where e: "normalizeBronzeRow sample_md True 0 plain_normalize sample_bronze ?s = (s1, Inr (Some row))" by blast
  have "layers_ok ?s" by (simp add: layers_ok_def no_layers_def)
  then have ok: "layers_ok s1" using step_preserves [OF layer_step.silver] e by (metis fst_conv)
  show ?thesis
    using normalized_once [OF e rtranclp.rtrancl_refl ok, of "plain_normalize\<lparr>no_normalizationVersion := Some ''2.0''\<rparr>" True 9] e
    by (auto simp: plain_normalize_def)
qed

end
