(* ===== verification/Recommend.thy ===== *)
theory Recommend
  imports Medallion "HOL-Library.Product_Lexorder"
begin

text \<open>
  The recommendations drawn from the scores, \<open>apps/api/services/deterministic-recommendation-engine.ts\<close>,
  and the table that keeps them, \<open>recommendation-store.ts\<close>. The engine has no state; the store is the
  table and the flag that it was created. A template text is built as the code builds it.
\<close>

section \<open>Candidates\<close>

datatype recommendation_type = Reduce_retention | Optimize_searches | Decommission | Upgrade_sourcetype | Consolidate_index
  | Increase_detection | Archive_cold

datatype priority = Critical_priority | High_priority | Medium_priority | Low_priority

fun type_name :: "recommendation_type \<Rightarrow> string" where
  "type_name Reduce_retention = ''reduce_retention''"
| "type_name Optimize_searches = ''optimize_searches''"
| "type_name Decommission = ''decommission''"
| "type_name Upgrade_sourcetype = ''upgrade_sourcetype''"
| "type_name Consolidate_index = ''consolidate_index''"
| "type_name Increase_detection = ''increase_detection''"
| "type_name Archive_cold = ''archive_cold''"

fun priorityOrder :: "priority \<Rightarrow> nat" where
  "priorityOrder Critical_priority = 0"
| "priorityOrder High_priority = 1"
| "priorityOrder Medium_priority = 2"
| "priorityOrder Low_priority = 3"

record evidence =
  ev_field :: string
  ev_value :: js
  ev_threshold :: "js option"
  ev_interpretation :: string

record candidate =
  cd_type :: recommendation_type
  cd_index_name :: string
  cd_tenant_id :: string
  cd_priority :: priority
  cd_savings :: jsnum
  cd_reason :: string
  cd_evidence :: "evidence list"
  cd_gold_id :: string
  cd_version :: string
  cd_composite :: jsnum
  cd_tier :: string

definition DECOMMISSION_COMPOSITE_MAX :: jsnum where "DECOMMISSION_COMPOSITE_MAX = Fin 20"
definition UPGRADE_SOURCETYPE_ERROR_RATE :: jsnum where "UPGRADE_SOURCETYPE_ERROR_RATE = Fin 15"
definition LOW_UTILIZATION :: jsnum where "LOW_UTILIZATION = Fin 5"
definition LOW_DETECTION :: jsnum where "LOW_DETECTION = Fin 30"
definition REDUCE_RETENTION_MIN_COMPOSITE :: jsnum where "REDUCE_RETENTION_MIN_COMPOSITE = Fin 40"
definition OPTIMIZE_SEARCHES_MAX_UTILIZATION :: jsnum where "OPTIMIZE_SEARCHES_MAX_UTILIZATION = Fin 30"

definition SECURITY_SOURCETYPES :: "string list" where
  "SECURITY_SOURCETYPES = [''wineventlog'', ''xmlwineventlog'', ''syslog'', ''pan:traffic'', ''pan:threat'', ''cisco:asa'',
     ''aws:cloudtrail'', ''okta:im2'', ''crowdstrike'', ''defendpoint'', ''o365:management:activity'', ''stream:http'',
     ''suricata'', ''zeek'', ''aws:elb:accesslogs'', ''azure:audit'', ''gsuite:reports:activity'', ''duo'', ''sentinelone'',
     ''cylance'', ''carbonblack'']"

definition estimateSavings :: "gold_row \<Rightarrow> recommendation_type \<Rightarrow> jsnum" where
  "estimateSavings g t =
     (case t of
        Decommission \<Rightarrow> jround (jmul (jsub (Fin 100) (gd_composite g)) (Fin (3 / 2)))
      | Archive_cold \<Rightarrow> jround (jmul (jsub (Fin 100) (gd_composite g)) (Fin 1))
      | Reduce_retention \<Rightarrow> jround (jmul (gd_utilization g) (Fin (1 / 2)))
      | Upgrade_sourcetype \<Rightarrow> jround (jmul (jsub (Fin 100) (gd_quality g)) (jlit (3 / 10)))
      | Consolidate_index \<Rightarrow> jround (jmul (jsub LOW_UTILIZATION (gd_utilization g)) (Fin 2))
      | Optimize_searches \<Rightarrow> jround (jmul (jsub OPTIMIZE_SEARCHES_MAX_UTILIZATION (gd_utilization g)) (Fin 1))
      | Increase_detection \<Rightarrow> Fin 0)"

definition candidate_of ::
  "gold_row \<Rightarrow> recommendation_type \<Rightarrow> priority \<Rightarrow> jsnum \<Rightarrow> string \<Rightarrow> evidence list \<Rightarrow> candidate" where
  "candidate_of g t p savings reason evidence =
     \<lparr>cd_type = t, cd_index_name = gd_index_name g, cd_tenant_id = gd_tenant_id g, cd_priority = p, cd_savings = savings,
      cd_reason = reason, cd_evidence = evidence, cd_gold_id = gd_id g, cd_version = gd_scoring_version g,
      cd_composite = gd_composite g, cd_tier = gd_tier g\<rparr>"

definition found :: "string \<Rightarrow> js \<Rightarrow> js option \<Rightarrow> string \<Rightarrow> evidence" where
  "found f v t i = \<lparr>ev_field = f, ev_value = v, ev_threshold = t, ev_interpretation = i\<rparr>"

definition named_index :: "gold_row \<Rightarrow> string" where
  "named_index g = ''Index '' @ dquote @ gd_index_name g @ dquote"

section \<open>Names of indexes\<close>

definition word_char :: "char \<Rightarrow> bool" where
  "word_char c = (let n = (of_char c :: nat) in 97 \<le> n \<and> n \<le> 122 \<or> 65 \<le> n \<and> n \<le> 90 \<or> 48 \<le> n \<and> n \<le> 57 \<or> n = 95)"

definition security_words :: "string list" where
  "security_words = [''security'', ''soc'', ''siem'', ''endpoint'', ''auth'', ''waf'', ''vpn'', ''ids'', ''ips'']"

text \<open>One of the words between word boundaries; the first argument says whether a word character precedes.\<close>

fun has_security_word :: "bool \<Rightarrow> string \<Rightarrow> bool" where
  "has_security_word inside [] = False"
| "has_security_word inside (c # s) =
     (\<not> inside \<and> list_ex (\<lambda>w. take (length w) (c # s) = w \<and>
          (case drop (length w) (c # s) of [] \<Rightarrow> True | d # _ \<Rightarrow> \<not> word_char d)) security_words \<or>
      has_security_word (word_char c) s)"

definition isSecuritySourcetype :: "string \<Rightarrow> bool" where
  "isSecuritySourcetype indexName =
     (let lower = to_lower indexName
      in list_ex (str_includes lower) SECURITY_SOURCETYPES \<or> has_security_word False lower)"

text \<open>The suffix of a variant and the name before it.\<close>

definition variant_suffix :: "string \<Rightarrow> bool" where
  "variant_suffix s =
     (let t = to_lower s
      in t \<in> set [''dev'', ''test'', ''qa'', ''staging'', ''old'', ''backup'', ''copy''] \<or>
         (2 \<le> length t \<and> hd t = CHR ''v'' \<and> list_all is_digit (tl t)) \<or> (length t = 4 \<and> list_all is_digit t))"

fun baseName :: "string \<Rightarrow> string" where
  "baseName [] = []"
| "baseName (c # s) = (if (c = CHR ''-'' \<or> c = CHR ''_'') \<and> variant_suffix s then [] else c # baseName s)"

section \<open>Checks\<close>

definition checkArchiveCold :: "gold_row \<Rightarrow> candidate option" where
  "checkArchiveCold g =
     (if jlt (Fin 2) (gd_utilization g) \<or> jlt (Fin 10) (gd_composite g) then None
      else Some (candidate_of g Archive_cold High_priority (estimateSavings g Archive_cold)
        (named_index g @ '' has composite score '' @ to_fixed 1 (gd_composite g) @ '' and utilization score '' @
         to_fixed 1 (gd_utilization g) @ '', indicating no meaningful activity. Archive to cold storage or decommission.'')
        [found ''composite_score'' (Num (gd_composite g)) (Some (Num (Fin 10))) ''Composite score below cold-archive threshold of 10'',
         found ''utilization_score'' (Num (gd_utilization g)) (Some (Num (Fin 2)))
           ''Near-zero utilization; no queries or dashboards consuming this data'']))"

definition checkDecommission :: "gold_row \<Rightarrow> candidate option" where
  "checkDecommission g =
     (if jle DECOMMISSION_COMPOSITE_MAX (gd_composite g) then None
      else if gd_tier g \<noteq> ''inactive'' \<and> gd_tier g \<noteq> ''low-value'' then None
      else if \<not> (jlt (gd_utilization g) (Fin 1) \<and> jlt (gd_detection g) (Fin 5)) then None
      else Some (candidate_of g Decommission Critical_priority (estimateSavings g Decommission)
        (named_index g @ '' has composite score '' @ to_fixed 1 (gd_composite g) @ '' (threshold: '' @
         num_string DECOMMISSION_COMPOSITE_MAX @ ''), utilization '' @ to_fixed 1 (gd_utilization g) @ '', and detection '' @
         to_fixed 1 (gd_detection g) @ ''. This index provides no measurable value. Recommend decommissioning.'')
        [found ''composite_score'' (Num (gd_composite g)) (Some (Num DECOMMISSION_COMPOSITE_MAX))
           (''Composite below decommission threshold of '' @ num_string DECOMMISSION_COMPOSITE_MAX),
         found ''utilization_score'' (Num (gd_utilization g)) (Some (Num (Fin 1))) ''Effectively zero utilization'',
         found ''detection_score'' (Num (gd_detection g)) (Some (Num (Fin 5))) ''No meaningful detection contribution'',
         found ''minimum_activity_gated'' (Bool (gd_gated g)) None
           (if gd_gated g then ''Score was gated by minimum activity rule'' else ''Not gated '' @ em_dash @ '' scores are authentic'')]))"

definition checkUpgradeSourcetype :: "gold_row \<Rightarrow> candidate option" where
  "checkUpgradeSourcetype g =
     (let impliedErrorRate = jmax (Fin 0) (jsub (Fin 100) (jmul (gd_quality g) (Fin 2)))
      in if jle (Fin 50) (gd_quality g) then None
         else if jlt (gd_utilization g) (Fin 10) then None
         else if jlt impliedErrorRate UPGRADE_SOURCETYPE_ERROR_RATE then None
         else Some (candidate_of g Upgrade_sourcetype High_priority (estimateSavings g Upgrade_sourcetype)
           (named_index g @ '' has quality score '' @ to_fixed 1 (gd_quality g) @ '', implying ~'' @ to_fixed 0 impliedErrorRate @
            ''% parsing error rate. Upgrading the sourcetype configuration or parser will improve field extraction and data reliability.'')
           [found ''quality_score'' (Num (gd_quality g)) (Some (Num (Fin 50)))
              ''Quality below 50 indicates high parsing errors or poor field coverage'',
            found ''implied_parsing_error_rate'' (Num impliedErrorRate) (Some (Num UPGRADE_SOURCETYPE_ERROR_RATE))
              (''Implied error rate exceeds '' @ num_string UPGRADE_SOURCETYPE_ERROR_RATE @ ''% threshold'')]))"

definition checkIncreaseDetection :: "gold_row \<Rightarrow> candidate option" where
  "checkIncreaseDetection g =
     (if jle LOW_DETECTION (gd_detection g) then None
      else if jlt (gd_utilization g) (Fin 15) then None
      else if \<not> isSecuritySourcetype (gd_index_name g) then None
      else Some (candidate_of g Increase_detection (if jlt (gd_detection g) (Fin 10) then Critical_priority else High_priority) (Fin 0)
        (named_index g @ '' has detection score '' @ to_fixed 1 (gd_detection g) @ '' (threshold: '' @ num_string LOW_DETECTION @
         '') despite being a security-relevant data source. Adding correlation searches, alerts, or detection rules '' @
         ''would improve the security value of this index.'')
        [found ''detection_score'' (Num (gd_detection g)) (Some (Num LOW_DETECTION))
           (''Detection below minimum recommended threshold of '' @ num_string LOW_DETECTION @ '' for security data''),
         found ''security_relevant'' (Bool True) None ''Index name matches known security data source patterns'',
         found ''utilization_score'' (Num (gd_utilization g)) (Some (Num (Fin 15)))
           (''Index is actively used '' @ em_dash @ '' detection improvement would have high ROI'')]))"

definition checkReduceRetention :: "gold_row \<Rightarrow> candidate option" where
  "checkReduceRetention g =
     (if jlt (gd_composite g) REDUCE_RETENTION_MIN_COMPOSITE then None
      else if gd_tier g \<noteq> ''medium-value'' \<and> gd_tier g \<noteq> ''high-value'' then None
      else if \<not> (jlt (Fin 40) (gd_utilization g) \<and> jlt (gd_detection g) (Fin 30)) then None
      else Some (candidate_of g Reduce_retention Medium_priority (estimateSavings g Reduce_retention)
        (named_index g @ '' has utilization score '' @ to_fixed 1 (gd_utilization g) @ '' but detection score '' @
         to_fixed 1 (gd_detection g) @ '', suggesting data is being accessed frequently but not used for detection. '' @
         ''Reducing the retention window would cut storage costs without impacting detection coverage.'')
        [found ''utilization_score'' (Num (gd_utilization g)) None ''High query volume indicates active use but not detection-focused'',
         found ''detection_score'' (Num (gd_detection g)) (Some (Num (Fin 30)))
           (''Low detection score relative to utilization '' @ em_dash @ '' operational data pattern''),
         found ''composite_score'' (Num (gd_composite g)) None
           ''Index is valuable; reducing retention preserves value while cutting cost'']))"

definition checkConsolidateIndex :: "gold_row \<Rightarrow> string set \<Rightarrow> candidate option" where
  "checkConsolidateIndex g allIndexNames =
     (let base = baseName (gd_index_name g)
      in if jle LOW_UTILIZATION (gd_utilization g) then None
         else if \<not> (base \<noteq> gd_index_name g \<and> base \<in> allIndexNames) then None
         else Some (candidate_of g Consolidate_index Medium_priority (estimateSavings g Consolidate_index)
           (named_index g @ '' has utilization score '' @ to_fixed 1 (gd_utilization g) @ '' and a similar base-named index '' @
            dquote @ base @ dquote @ '' exists. Consolidating these indexes would reduce management overhead and storage fragmentation.'')
           [found ''utilization_score'' (Num (gd_utilization g)) (Some (Num LOW_UTILIZATION))
              (''Utilization below '' @ num_string LOW_UTILIZATION @ '' '' @ em_dash @ '' index is rarely queried''),
            found ''similar_index'' (Str base) None
              (''Base index '' @ dquote @ base @ dquote @ '' exists '' @ em_dash @ '' likely a duplicate or variant'')]))"

definition checkOptimizeSearches :: "gold_row \<Rightarrow> candidate option" where
  "checkOptimizeSearches g =
     (if jle OPTIMIZE_SEARCHES_MAX_UTILIZATION (gd_utilization g) then None
      else if jlt (gd_composite g) (Fin 25) then None
      else if jlt (gd_quality g) (Fin 60) then None
      else Some (candidate_of g Optimize_searches Low_priority (estimateSavings g Optimize_searches)
        (named_index g @ '' has low utilization score '' @ to_fixed 1 (gd_utilization g) @ '' despite reasonable quality ('' @
         to_fixed 1 (gd_quality g) @ ''). Review scheduled searches and alerts referencing this index for optimization opportunities.'')
        [found ''utilization_score'' (Num (gd_utilization g)) (Some (Num OPTIMIZE_SEARCHES_MAX_UTILIZATION))
           ''Low utilization with good data quality suggests search inefficiency'',
         found ''quality_score'' (Num (gd_quality g)) None
           (''Data quality is acceptable '' @ em_dash @ '' the bottleneck is search usage'')]))"

definition checks :: "string set \<Rightarrow> gold_row \<Rightarrow> candidate list" where
  "checks indexNames g = List.map_filter id [checkArchiveCold g, checkDecommission g, checkUpgradeSourcetype g,
     checkIncreaseDetection g, checkReduceRetention g, checkConsolidateIndex g indexNames, checkOptimizeSearches g]"

definition candidate_before :: "candidate \<Rightarrow> candidate \<Rightarrow> bool" where
  "candidate_before a b =
     (if priorityOrder (cd_priority a) \<noteq> priorityOrder (cd_priority b) then priorityOrder (cd_priority a) < priorityOrder (cd_priority b)
      else jlt (jsub (cd_savings b) (cd_savings a)) (Fin 0))"

definition generateCandidates :: "gold_row list \<Rightarrow> candidate list" where
  "generateCandidates snapshots =
     (if snapshots = [] then []
      else sort_by candidate_before (concat (map (checks (gd_index_name ` set snapshots)) snapshots)))"

section \<open>The store\<close>

datatype candidate_state = Pending | Dismissed | Approved | Executed

record persisted =
  pc_id :: string
  pc_candidate :: candidate
  pc_enriched :: bool
  pc_explanation :: "string option"
  pc_enriched_at :: "int option"
  pc_state :: candidate_state
  pc_created_at :: int

record rec_store =
  st_ensured :: bool
  st_rows :: "persisted list"

definition ensureTable :: "bool \<Rightarrow> rec_store \<Rightarrow> string + rec_store" where
  "ensureTable ddl_ok s =
     (if st_ensured s then Inr s else if ddl_ok then Inr (s\<lparr>st_ensured := True\<rparr>) else Inl ''create table failed'')"

definition generateCandidateId :: "md_env \<Rightarrow> candidate \<Rightarrow> string" where
  "generateCandidateId env c = ''rec-'' @ take 24 (md_sha env (cd_gold_id c @ '':'' @ type_name (cd_type c)))"

text \<open>
  The candidate as its columns keep it; numbers out of the range of a column make the insert fail, which
  is logged and counts as skipped.
\<close>

definition stored_candidate :: "md_env \<Rightarrow> candidate \<Rightarrow> candidate option" where
  "stored_candidate env c =
     (case (md_real env (cd_savings c), md_real env (cd_composite c)) of
        (Some x, Some y) \<Rightarrow> Some (c\<lparr>cd_savings := x, cd_composite := y\<rparr>)
      | _ \<Rightarrow> None)"

definition insert_candidate :: "md_env \<Rightarrow> bool \<times> int \<Rightarrow> candidate \<Rightarrow> rec_store \<Rightarrow> rec_store \<times> string option" where
  "insert_candidate env outcome c s =
     (let i = generateCandidateId env c
      in case stored_candidate env c of
           None \<Rightarrow> (s, None)
         | Some c' \<Rightarrow>
             if \<not> fst outcome \<or> i \<in> pc_id ` set (st_rows s) then (s, None)
             else (s\<lparr>st_rows := st_rows s @ [\<lparr>pc_id = i, pc_candidate = c', pc_enriched = False, pc_explanation = None,
                      pc_enriched_at = None, pc_state = Pending, pc_created_at = snd outcome\<rparr>]\<rparr>, Some i))"

text \<open>A tenant that is refused ends the loop; what was inserted before stays.\<close>

fun store_loop :: "md_env \<Rightarrow> (candidate \<times> bool \<times> int) list \<Rightarrow> rec_store \<Rightarrow> rec_store \<times> (string + string list \<times> nat)" where
  "store_loop env [] s = (s, Inr ([], 0))"
| "store_loop env ((c, outcome) # later) s =
     (case assertTenantIsolation (Str (cd_tenant_id c)) ''recommendation-store:storeCandidates'' of
        Inl e \<Rightarrow> (s, Inl (violation_message e))
      | Inr _ \<Rightarrow>
          (let (s1, inserted) = insert_candidate env outcome c s
           in case store_loop env later s1 of
                (s2, Inl e) \<Rightarrow> (s2, Inl e)
              | (s2, Inr (ids, skipped)) \<Rightarrow>
                  (s2, Inr (case inserted of Some i \<Rightarrow> (i # ids, skipped) | None \<Rightarrow> (ids, skipped + 1)))))"

record store_result =
  sr_inserted :: nat
  sr_skipped :: nat
  sr_ids :: "string list"

definition storeCandidates ::
  "md_env \<Rightarrow> bool \<Rightarrow> (candidate \<times> bool \<times> int) list \<Rightarrow> rec_store \<Rightarrow> rec_store \<times> (string + store_result)" where
  "storeCandidates env ddl_ok cs s =
     (if cs = [] then (s, Inr \<lparr>sr_inserted = 0, sr_skipped = 0, sr_ids = []\<rparr>)
      else case ensureTable ddl_ok s of
        Inl e \<Rightarrow> (s, Inl e)
      | Inr s1 \<Rightarrow>
          (case store_loop env cs s1 of
             (s2, Inl e) \<Rightarrow> (s2, Inl e)
           | (s2, Inr (ids, skipped)) \<Rightarrow> (s2, Inr \<lparr>sr_inserted = length ids, sr_skipped = skipped, sr_ids = ids\<rparr>)))"

definition update_rows :: "(persisted \<Rightarrow> bool) \<Rightarrow> (persisted \<Rightarrow> persisted) \<Rightarrow> rec_store \<Rightarrow> rec_store" where
  "update_rows P f s = s\<lparr>st_rows := map (\<lambda>r. if P r then f r else r) (st_rows s)\<rparr>"

definition run_update :: "bool \<times> bool \<Rightarrow> (rec_store \<Rightarrow> rec_store) \<Rightarrow> rec_store \<Rightarrow> rec_store \<times> (string + unit)" where
  "run_update outcome f s =
     (case ensureTable (fst outcome) s of
        Inl e \<Rightarrow> (s, Inl e)
      | Inr s1 \<Rightarrow> if snd outcome then (f s1, Inr ()) else (s1, Inl ''query failed''))"

definition enrichCandidate :: "bool \<times> bool \<Rightarrow> int \<Rightarrow> string \<Rightarrow> string \<Rightarrow> rec_store \<Rightarrow> rec_store \<times> (string + unit)" where
  "enrichCandidate outcome now candidateId explanation =
     run_update outcome (update_rows (\<lambda>r. pc_id r = candidateId)
       (\<lambda>r. r\<lparr>pc_enriched := True, pc_explanation := Some explanation, pc_enriched_at := Some now\<rparr>))"

definition updateCandidateState ::
  "bool \<times> bool \<Rightarrow> string \<Rightarrow> candidate_state \<Rightarrow> string \<Rightarrow> rec_store \<Rightarrow> rec_store \<times> (string + unit)" where
  "updateCandidateState outcome candidateId st tenantId s =
     (case assertTenantIsolation (Str tenantId) ''recommendation-store:updateCandidateState'' of
        Inl e \<Rightarrow> (s, Inl (violation_message e))
      | Inr _ \<Rightarrow> run_update outcome (update_rows (\<lambda>r. pc_id r = candidateId \<and> cd_tenant_id (pc_candidate r) = tenantId)
            (\<lambda>r. r\<lparr>pc_state := st\<rparr>)) s)"

record pending_filter =
  pf_type :: "recommendation_type option"
  pf_priority :: "priority option"
  pf_limit :: "nat option"
  pf_enriched :: "bool option"

definition matches_option :: "'a option \<Rightarrow> 'a \<Rightarrow> bool" where
  "matches_option wanted x = (case wanted of Some w \<Rightarrow> x = w | None \<Rightarrow> True)"

definition pending_before :: "persisted \<Rightarrow> persisted \<Rightarrow> bool" where
  "pending_before a b =
     (let p = priorityOrder (cd_priority (pc_candidate a)); q = priorityOrder (cd_priority (pc_candidate b))
      in p < q \<or> p = q \<and> jlt (cd_savings (pc_candidate b)) (cd_savings (pc_candidate a)))"

definition pending_rows :: "string \<Rightarrow> rec_store \<Rightarrow> persisted list" where
  "pending_rows tenantId s = filter (\<lambda>r. cd_tenant_id (pc_candidate r) = tenantId \<and> pc_state r = Pending) (st_rows s)"

definition getPendingCandidates :: "bool \<Rightarrow> string \<Rightarrow> pending_filter \<Rightarrow> rec_store \<Rightarrow> string + persisted list" where
  "getPendingCandidates ddl_ok tenantId opts s =
     (case assertTenantIsolation (Str tenantId) ''recommendation-store:getPendingCandidates'' of
        Inl e \<Rightarrow> Inl (violation_message e)
      | Inr _ \<Rightarrow>
          (case ensureTable ddl_ok s of
             Inl e \<Rightarrow> Inl e
           | Inr _ \<Rightarrow> Inr (take (or_else (pf_limit opts) 100) (sort_by pending_before (filter
               (\<lambda>r. matches_option (pf_type opts) (cd_type (pc_candidate r)) \<and> matches_option (pf_priority opts) (cd_priority (pc_candidate r)) \<and>
                    matches_option (pf_enriched opts) (pc_enriched r)) (pending_rows tenantId s))))))"

definition getUnenrichedCandidates :: "bool \<Rightarrow> string \<Rightarrow> nat option \<Rightarrow> rec_store \<Rightarrow> string + persisted list" where
  "getUnenrichedCandidates ddl_ok tenantId limit =
     getPendingCandidates ddl_ok tenantId \<lparr>pf_type = None, pf_priority = None, pf_limit = Some (or_else limit 20), pf_enriched = Some False\<rparr>"

text \<open>One row per priority and type, with the number of candidates and the sum the database makes.\<close>

record candidate_summary =
  cs_total :: nat
  cs_by_priority :: "priority \<Rightarrow> nat"
  cs_by_type :: "recommendation_type \<Rightarrow> nat"
  cs_total_savings :: jsnum

definition getCandidateSummary :: "(jsnum list \<Rightarrow> jsnum) \<Rightarrow> bool \<Rightarrow> string \<Rightarrow> rec_store \<Rightarrow> string + candidate_summary" where
  "getCandidateSummary sum_real ddl_ok tenantId s =
     (case assertTenantIsolation (Str tenantId) ''recommendation-store:getCandidateSummary'' of
        Inl e \<Rightarrow> Inl (violation_message e)
      | Inr _ \<Rightarrow>
          (case ensureTable ddl_ok s of
             Inl e \<Rightarrow> Inl e
           | Inr _ \<Rightarrow>
               (let cs = map pc_candidate (pending_rows tenantId s);
                    groups = remdups (map (\<lambda>c. (cd_priority c, cd_type c)) cs);
                    members = (\<lambda>k. filter (\<lambda>c. (cd_priority c, cd_type c) = k) cs);
                    number = (\<lambda>P. sum_list (map (\<lambda>k. length (members k)) (filter P groups)))
                in Inr \<lparr>cs_total = number (\<lambda>_. True), cs_by_priority = (\<lambda>p. number (\<lambda>k. fst k = p)),
                        cs_by_type = (\<lambda>t. number (\<lambda>k. snd k = t)),
                        cs_total_savings = jround (jsum (map (\<lambda>k. sum_real (map cd_savings (members k))) groups))\<rparr>)))"

section \<open>Laws\<close>

definition savings_int :: "candidate \<Rightarrow> int" where
  "savings_int c = (case cd_savings c of Fin r \<Rightarrow> \<lfloor>r\<rfloor> | _ \<Rightarrow> 0)"

definition whole :: "jsnum \<Rightarrow> bool" where
  "whole x = (\<exists>n. x = Fin (of_int n) \<and> 0 \<le> n \<and> n \<le> 150)"

lemma whole_round: "in_range 0 150 x \<Longrightarrow> whole (jround x)"
proof -
  assume a: "in_range 0 150 x"
  then obtain r where r: "x = Fin r" by (auto elim: in_rangeE)
  have "in_range 0 150 (jround x)" using in_range_round [of 0 150 x] a by simp
  then show ?thesis using r by (auto simp: whole_def)
qed

lemma scale_range: "in_range 0 100 x \<Longrightarrow> 0 \<le> w \<Longrightarrow> w \<le> 3 / 2 \<Longrightarrow> in_range 0 150 (jmul x (Fin w))"
  using in_range_mul [of 0 100 x 0 "3 / 2" "Fin w" 0 150] by simp

lemma complement_range:
  assumes "in_range 0 100 x" "jle x (Fin (of_int k))" "0 \<le> k" "k \<le> 100"
  shows "in_range 0 (of_int k) (jsub (Fin (of_int k)) x)"
proof -
  have "in_range 0 (of_int k) x" using assms by (auto simp: in_range_iff)
  then show ?thesis
    using in_range_sub [of "of_int k" "of_int k" "Fin (of_int k)" 0 "of_int k" x 0 "of_int k"] assms(3,4)
      rnd64_of_int [of k] rnd64_of_int [of 0] by simp
qed

lemma lit03: "\<exists>w. jlit (3 / 10) = Fin w \<and> 0 \<le> w \<and> w \<le> 3 / 2"
proof -
  have "jlit (3 / 10) = Fin (5404319552844595 / 2 ^ 54)" by code_simp
  then show ?thesis by (intro exI [of _ "5404319552844595 / 2 ^ 54"] conjI) simp_all
qed

definition valid_range :: "gold_row \<Rightarrow> bool" where
  "valid_range g = (in_range 0 100 (gd_utilization g) \<and> in_range 0 100 (gd_detection g) \<and> in_range 0 100 (gd_quality g) \<and>
     in_range 0 100 (gd_composite g))"

lemma valid_rangeI: "scores_valid g \<Longrightarrow> valid_range g"
  by (simp add: scores_valid_def valid_range_def percent_range)

lemma range_top: "in_range a b x \<Longrightarrow> jle x (Fin b)"
  by (cases x) simp_all

lemma below_100: "in_range 0 100 x \<Longrightarrow> in_range 0 100 (jsub (Fin 100) x)"
proof -
  assume x: "in_range 0 100 x"
  then have "jle x (Fin 100)" by (rule range_top)
  with x have "in_range 0 (of_int 100) (jsub (Fin (of_int 100)) x)" by (intro complement_range) simp_all
  then show ?thesis by (simp only: of_int_numeral)
qed

lemma whole_scaled: "in_range 0 100 x \<Longrightarrow> 0 \<le> w \<Longrightarrow> w \<le> 3 / 2 \<Longrightarrow> whole (jround (jmul x (Fin w)))"
  by (rule whole_round) (rule scale_range)

lemma whole_doubled: "in_range 0 5 x \<Longrightarrow> whole (jround (jmul x (Fin 2)))"
proof (rule whole_round)
  assume "in_range 0 5 x"
  then have "in_range 0 10 (jmul x (Fin 2))" using in_range_mul [of 0 5 x 0 2 "Fin 2" 0 10] by simp
  then show "in_range 0 150 (jmul x (Fin 2))" by (rule in_range_weaken) simp_all
qed

text \<open>The saving of a candidate is a whole number when the scores are percentages.\<close>

lemma savings_whole:
  assumes "valid_range g"
  shows "whole (estimateSavings g Archive_cold)" "whole (estimateSavings g Decommission)" "whole (estimateSavings g Upgrade_sourcetype)"
    "whole (estimateSavings g Reduce_retention)"
    "jle (gd_utilization g) (Fin 5) \<Longrightarrow> whole (estimateSavings g Consolidate_index)"
    "jle (gd_utilization g) (Fin 30) \<Longrightarrow> whole (estimateSavings g Optimize_searches)"
proof -
  have r: "in_range 0 100 (gd_utilization g)" "in_range 0 100 (gd_quality g)" "in_range 0 100 (gd_composite g)"
    using assms by (simp_all add: valid_range_def)
  note c = below_100 [OF r(3)] and q = below_100 [OF r(2)]
  show "whole (estimateSavings g Archive_cold)" using whole_scaled [OF c, of 1] by (simp add: estimateSavings_def del: jmul.simps)
  show "whole (estimateSavings g Decommission)" using whole_scaled [OF c, of "3 / 2"] by (simp add: estimateSavings_def del: jmul.simps)
  show "whole (estimateSavings g Reduce_retention)"
    using whole_scaled [OF r(1), of "1 / 2"] by (simp add: estimateSavings_def del: jmul.simps)
  obtain w where w: "jlit (3 / 10) = Fin w" "0 \<le> w" "w \<le> 3 / 2" using lit03 by (elim exE conjE)
  show "whole (estimateSavings g Upgrade_sourcetype)"
    using whole_scaled [OF q w(2,3)] by (simp add: estimateSavings_def w(1) del: jmul.simps)
  show "whole (estimateSavings g Consolidate_index)" if le: "jle (gd_utilization g) (Fin 5)"
  proof -
    have "in_range 0 5 (jsub (Fin 5) (gd_utilization g))" using complement_range [OF r(1), of 5] le by simp
    then show ?thesis using whole_doubled by (simp add: estimateSavings_def LOW_UTILIZATION_def del: jmul.simps)
  qed
  show "whole (estimateSavings g Optimize_searches)" if le: "jle (gd_utilization g) (Fin 30)"
  proof -
    have "in_range 0 30 (jsub (Fin 30) (gd_utilization g))" using complement_range [OF r(1), of 30] le by simp
    then have "in_range 0 100 (jsub (Fin 30) (gd_utilization g))" by (rule in_range_weaken) simp_all
    from whole_scaled [OF this, of 1] show ?thesis
      by (simp add: estimateSavings_def OPTIMIZE_SEARCHES_MAX_UTILIZATION_def del: jmul.simps)
  qed
qed

lemma not_jle: "in_range a b x \<Longrightarrow> \<not> jle (Fin k) x \<Longrightarrow> jle x (Fin k)"
  by (auto simp: in_range_iff)

lemma checks_cases:
  assumes "c \<in> set (checks names g)"
  shows "c \<in> set_option (checkArchiveCold g) \<union> set_option (checkDecommission g) \<union> set_option (checkUpgradeSourcetype g) \<union>
    set_option (checkIncreaseDetection g) \<union> set_option (checkReduceRetention g) \<union> set_option (checkConsolidateIndex g names) \<union>
    set_option (checkOptimizeSearches g)"
  using assms by (auto simp: checks_def List.map_filter_def split: if_splits)

lemmas check_defs = checkArchiveCold_def checkDecommission_def checkUpgradeSourcetype_def checkIncreaseDetection_def
  checkReduceRetention_def checkConsolidateIndex_def checkOptimizeSearches_def

lemma candidate_of_fields:
  "cd_savings (candidate_of g t p savings r es) = savings" "cd_type (candidate_of g t p savings r es) = t"
  "cd_gold_id (candidate_of g t p savings r es) = gd_id g" "cd_priority (candidate_of g t p savings r es) = p"
  by (simp_all add: candidate_of_def)

text \<open>What a check that fires puts in its candidate.\<close>

lemma check_savings:
  "checkArchiveCold g = Some c \<Longrightarrow> cd_savings c = estimateSavings g Archive_cold"
  "checkDecommission g = Some c \<Longrightarrow> cd_savings c = estimateSavings g Decommission"
  "checkUpgradeSourcetype g = Some c \<Longrightarrow> cd_savings c = estimateSavings g Upgrade_sourcetype"
  "checkIncreaseDetection g = Some c \<Longrightarrow> cd_savings c = Fin 0"
  "checkReduceRetention g = Some c \<Longrightarrow> cd_savings c = estimateSavings g Reduce_retention"
  "checkConsolidateIndex g names = Some c \<Longrightarrow>
    cd_savings c = estimateSavings g Consolidate_index \<and> \<not> jle LOW_UTILIZATION (gd_utilization g)"
  "checkOptimizeSearches g = Some c \<Longrightarrow>
    cd_savings c = estimateSavings g Optimize_searches \<and> \<not> jle OPTIMIZE_SEARCHES_MAX_UTILIZATION (gd_utilization g)"
  by (auto simp: check_defs candidate_of_fields Let_def split: if_splits)

lemma checks_whole:
  assumes "valid_range g" "c \<in> set (checks names g)"
  shows "whole (cd_savings c)"
proof -
  have z: "whole (Fin 0)" by (simp add: whole_def)
  have u: "jle (gd_utilization g) (Fin k)" if "\<not> jle (Fin k) (gd_utilization g)" for k
    using not_jle [of 0 100 "gd_utilization g" k] assms(1) that by (simp add: valid_range_def)
  note s = savings_whole [OF assms(1)]
  consider "checkArchiveCold g = Some c" | "checkDecommission g = Some c" | "checkUpgradeSourcetype g = Some c"
    | "checkIncreaseDetection g = Some c" | "checkReduceRetention g = Some c" | "checkConsolidateIndex g names = Some c"
    | "checkOptimizeSearches g = Some c"
    using checks_cases [OF assms(2)] by (simp add: elem_set) argo
  then show ?thesis
  proof cases
    case 6
    then show ?thesis using check_savings(6) s(5) u [of 5] by (simp add: LOW_UTILIZATION_def)
  next
    case 7
    then show ?thesis using check_savings(7) s(6) u [of 30] by (simp add: OPTIMIZE_SEARCHES_MAX_UTILIZATION_def)
  qed (simp_all add: check_savings s(1-4) z)
qed

lemma candidate_before_key:
  assumes "whole (cd_savings a)" "whole (cd_savings b)"
  shows "candidate_before a b \<longleftrightarrow> (priorityOrder (cd_priority a), - savings_int a) < (priorityOrder (cd_priority b), - savings_int b)"
proof -
  obtain m n where m: "cd_savings a = Fin (of_int m)" "\<bar>m\<bar> \<le> 150" and n: "cd_savings b = Fin (of_int n)" "\<bar>n\<bar> \<le> 150"
    using assms by (auto simp: whole_def)
  have "jsub (cd_savings b) (cd_savings a) = Fin (of_int (n - m))"
    using rnd64_of_int [of "n - m"] m n by (simp add: jsub_def)
  then show ?thesis using m n by (auto simp: candidate_before_def savings_int_def)
qed

text \<open>The order by priority and saving, on the snapshots of an index each check decides alone.\<close>

definition rank :: "candidate \<Rightarrow> nat \<times> int" where
  "rank c = (priorityOrder (cd_priority c), - savings_int c)"

lemma all_whole:
  assumes "\<forall>g\<in>set gs. valid_range g" "c \<in> set (concat (map (checks names) gs))"
  shows "whole (cd_savings c)"
proof -
  obtain g where "g \<in> set gs" "c \<in> set (checks names g)" using assms(2) by auto
  then show ?thesis using checks_whole assms(1) by blast
qed

lemma sort_nothing: "sort_by before [] = []"
  by (simp add: sort_by_def)

text \<open>
  C21: For scores that are percentages the candidates are exactly those the seven checks find on each
  snapshot, and the comparison of the code puts them in the stable order by priority and then by the
  saving, the largest first; each saving is a whole number between 0 and 150.
\<close>

theorem candidates_ranked:
  assumes "\<forall>g\<in>set gs. scores_valid g"
  shows "generateCandidates gs = sort_key rank (concat (map (checks (gd_index_name ` set gs)) gs)) \<and>
    (\<forall>c\<in>set (generateCandidates gs). whole (cd_savings c))"
proof -
  let ?cs = "concat (map (checks (gd_index_name ` set gs)) gs)"
  have valid: "\<forall>g\<in>set gs. valid_range g"
    by (rule ballI, rule valid_rangeI, rule bspec [OF assms])
  note w = all_whole [OF valid]
  have "\<forall>a\<in>set ?cs. \<forall>b\<in>set ?cs. candidate_before a b \<longleftrightarrow> rank a < rank b"
    unfolding rank_def by (intro ballI candidate_before_key w)
  then have "sort_by candidate_before ?cs = sort_key rank ?cs" by (rule sort_by_key)
  then have e: "generateCandidates gs = sort_key rank ?cs"
    by (cases gs) (simp_all add: generateCandidates_def)
  have "\<forall>c\<in>set (sort_key rank ?cs). whole (cd_savings c)" unfolding set_sort by (rule ballI, rule w)
  then show ?thesis by (simp only: e simp_thms)
qed

lemma no_figure_detection:
  assumes "\<forall>x. js_get fs ''detection_score'' \<noteq> Num x" "\<forall>x. js_get fs ''detection_coverage'' \<noteq> Num x"
  shows "silver_detection fs st \<in> {Fin 50, Fin 10}"
  using assms by (auto simp: silver_detection_def split: js.splits)

text \<open>
  An index whose normalized row carries no detection figure of its own is scored 50 or 10 for
  detection, so the check that recommends to decommission never fires for it, however unused it is.
\<close>

theorem decommission_needs_detection:
  assumes "scoreSilverRow env q fresh opts v s = (s', Inr (Some g))" "silver_fields env (sv_normalized_fields v) = Some fs"
    "\<forall>x. js_get fs ''detection_score'' \<noteq> Num x" "\<forall>x. js_get fs ''detection_coverage'' \<noteq> Num x"
    "md_real env (Fin 10) = Some (Fin 10)" "md_real env (Fin 50) = Some (Fin 50)"
  shows "checkDecommission g = None"
proof -
  obtain raw where raw: "deriveScoresFromSilver env v = Some raw" "md_real env (rs_detection raw) = Some (gd_detection g)"
    using score_detection [OF assms(1)] by blast
  have "rs_detection raw = jround (silver_detection fs (sv_sourcetype v))"
    using raw(1) assms(2) by (auto simp: deriveScoresFromSilver_def)
  then have "rs_detection raw \<in> {Fin 50, Fin 10}"
    using no_figure_detection [OF assms(3,4), of "sv_sourcetype v"] by (auto simp del: jround.simps)
  then have "gd_detection g \<in> {Fin 50, Fin 10}" using raw(2) assms(5,6) by auto
  then have "\<not> jlt (gd_detection g) (Fin 5)" by auto
  then show ?thesis by (simp add: checkDecommission_def)
qed

text \<open>An insert that could be done leaves the id of the candidate in the table, or the columns refuse it.\<close>

lemma insert_covers:
  assumes "insert_candidate env (True, now) c s = (s1, i)"
  shows "(stored_candidate env c = None \<or> generateCandidateId env c \<in> pc_id ` set (st_rows s1)) \<and>
    set (st_rows s) \<subseteq> set (st_rows s1)"
  using assms by (auto simp: insert_candidate_def Let_def split: option.splits if_splits)

lemma insert_grows: "insert_candidate env outcome c s = (s1, i) \<Longrightarrow> set (st_rows s) \<subseteq> set (st_rows s1)"
  by (auto simp: insert_candidate_def Let_def split: option.splits if_splits)

definition covered :: "md_env \<Rightarrow> rec_store \<Rightarrow> candidate \<Rightarrow> bool" where
  "covered env s c = (stored_candidate env c = None \<or> generateCandidateId env c \<in> pc_id ` set (st_rows s))"

lemma store_loop_covers:
  assumes "store_loop env cs s = (s1, Inr r)" "list_all (fst \<circ> snd) cs"
  shows "set (st_rows s) \<subseteq> set (st_rows s1) \<and> (\<forall>c\<in>fst ` set cs. covered env s1 c \<and>
    assertTenantIsolation (Str (cd_tenant_id c)) ''recommendation-store:storeCandidates'' = Inr (cd_tenant_id c))"
  using assms
proof (induction env cs s arbitrary: s1 r rule: store_loop.induct)
  case (2 env c outcome later s)
  obtain now where now: "outcome = (True, now)" using 2(3) by (cases outcome) simp
  obtain t where t: "assertTenantIsolation (Str (cd_tenant_id c)) ''recommendation-store:storeCandidates'' = Inr t"
    using 2(2) by (auto split: sum.splits)
  obtain m i where m: "insert_candidate env outcome c s = (m, i)" by fastforce
  obtain r' where r': "store_loop env later m = (s1, Inr r')" using 2(2) t m by (auto split: prod.splits sum.splits)
  have ih: "set (st_rows m) \<subseteq> set (st_rows s1) \<and> (\<forall>c\<in>fst ` set later. covered env s1 c \<and>
    assertTenantIsolation (Str (cd_tenant_id c)) ''recommendation-store:storeCandidates'' = Inr (cd_tenant_id c))"
    using 2(1) [OF t m [symmetric] _ r'] 2(3) by simp
  have "covered env s1 c" "set (st_rows s) \<subseteq> set (st_rows s1)"
    using insert_covers [OF m [unfolded now]] ih by (auto simp: covered_def)
  moreover have "t = cd_tenant_id c" using t unfolding assert_accepts by blast
  ultimately show ?case using t ih by auto
qed simp

lemma store_loop_skips:
  assumes "\<forall>c\<in>fst ` set cs. covered env s c \<and>
    assertTenantIsolation (Str (cd_tenant_id c)) ''recommendation-store:storeCandidates'' = Inr (cd_tenant_id c)"
  shows "store_loop env cs s = (s, Inr ([], length cs))"
  using assms
proof (induction cs)
  case (Cons x cs)
  obtain c outcome where x: "x = (c, outcome)" by (cases x)
  have "insert_candidate env outcome c s = (s, None)"
    using Cons.prems x by (auto simp: insert_candidate_def covered_def Let_def split: option.splits)
  then show ?case using Cons x by simp
qed simp

text \<open>
  Storing candidates again, after all of them were stored, inserts nothing and counts every one as
  skipped, whatever states and explanations the rows were given in between: a dismissed candidate does
  not come back.
\<close>

theorem store_idempotent:
  assumes "storeCandidates env ddl_ok cs s = (s1, Inr r)" "list_all (fst \<circ> snd) cs" "map fst cs' = map fst cs"
    "pc_id ` set (st_rows s1) \<subseteq> pc_id ` set (st_rows s2)" "st_ensured s2"
  shows "storeCandidates env ddl_ok' cs' s2 = (s2, Inr \<lparr>sr_inserted = 0, sr_skipped = length cs, sr_ids = []\<rparr>)"
proof (cases "cs = []")
  case False
  then have ne: "cs' \<noteq> []" and len: "length cs' = length cs" using assms(3) map_eq_imp_length_eq by auto
  obtain m r' where "store_loop env cs m = (s1, Inr r')"
    using assms(1) False by (auto simp: storeCandidates_def split: sum.splits prod.splits)
  from store_loop_covers [OF this assms(2)]
  have "\<forall>c\<in>fst ` set cs. covered env s1 c \<and>
    assertTenantIsolation (Str (cd_tenant_id c)) ''recommendation-store:storeCandidates'' = Inr (cd_tenant_id c)" by blast
  moreover have "covered env s1 c \<Longrightarrow> covered env s2 c" for c using assms(4) by (auto simp: covered_def)
  moreover have "fst ` set cs' = fst ` set cs" using arg_cong [OF assms(3), of set] by simp
  ultimately have "store_loop env cs' s2 = (s2, Inr ([], length cs'))" by (intro store_loop_skips) auto
  then show ?thesis using ne len assms(5) by (simp add: storeCandidates_def ensureTable_def)
qed (use assms in \<open>simp add: storeCandidates_def\<close>)

section \<open>Concrete candidates\<close>

definition unused_index :: gold_row where
  "unused_index = \<lparr>gd_id = ''g'', gd_tenant_id = ''acme'', gd_silver_id = ''s'', gd_index_name = ''web'', gd_utilization = Fin 0,
     gd_detection = Fin 0, gd_quality = Fin 50, gd_composite = Fin 5, gd_tier = ''inactive'', gd_gated = True,
     gd_scoring_version = ''v'', gd_scoring_profile = ''balanced'', gd_weights = DEFAULT_WEIGHTS, gd_snapshot_hash = [],
     gd_previous_hash = None, gd_scored_at = 0, gd_closed_at = None, gd_pipeline_run_id = None\<rparr>"

lemma unused_fields:
  "gd_utilization unused_index = Fin 0" "gd_detection unused_index = Fin 0" "gd_quality unused_index = Fin 50"
  "gd_composite unused_index = Fin 5" "gd_tier unused_index = ''inactive''" "gd_index_name unused_index = ''web''"
  by (simp_all add: unused_index_def)

lemma unused_checks:
  "checkUpgradeSourcetype unused_index = None" "checkIncreaseDetection unused_index = None" "checkReduceRetention unused_index = None"
  "checkConsolidateIndex unused_index names = None" "checkOptimizeSearches unused_index = None"
  "map_option (\<lambda>c. (cd_type c, cd_priority c)) (checkArchiveCold unused_index) = Some (Archive_cold, High_priority)"
  "map_option (\<lambda>c. (cd_type c, cd_priority c)) (checkDecommission unused_index) = Some (Decommission, Critical_priority)"
  by (simp_all add: check_defs unused_fields candidate_of_fields Let_def DECOMMISSION_COMPOSITE_MAX_def LOW_DETECTION_def
      REDUCE_RETENTION_MIN_COMPOSITE_def OPTIMIZE_SEARCHES_MAX_UTILIZATION_def LOW_UTILIZATION_def)

lemma unused_valid: "scores_valid unused_index"
  by (simp add: scores_valid_def unused_index_def percent_def)

lemma unused_types: "map cd_type (generateCandidates [unused_index]) = [Decommission, Archive_cold]"
proof -
  obtain a d where "checkArchiveCold unused_index = Some a" "cd_type a = Archive_cold" "cd_priority a = High_priority"
    "checkDecommission unused_index = Some d" "cd_type d = Decommission" "cd_priority d = Critical_priority"
    using unused_checks(6,7) by (elim map_option_eq_Some [THEN iffD1, elim_format] exE conjE) simp
  then show ?thesis
    by (simp add: generateCandidates_def checks_def unused_checks(1-5) List.map_filter_simps sort_by_def candidate_before_def)
qed

lemma candidates_ranked_witness:
  "generateCandidates [unused_index] = sort_key rank (checks {''web''} unused_index) \<and>
   map cd_type (generateCandidates [unused_index]) = [Decommission, Archive_cold]"
proof -
  have "\<forall>g\<in>set [unused_index]. scores_valid g" by (intro ballI) (simp only: list.set insert_iff empty_iff simp_thms unused_valid)
  from conjunct1 [OF candidates_ranked [OF this]]
  have "generateCandidates [unused_index] = sort_key rank (checks {''web''} unused_index)"
    by (simp only: list.simps concat.simps append_Nil2 image_insert image_empty unused_fields)
  from this unused_types show ?thesis ..
qed

lemma decommission_needs_detection_witness:
  "\<exists>s' g. scoreSilverRow sample_md all_well (''1'', 5) plain_score sample_silver sample_layers = (s', Inr (Some g)) \<and>
     checkDecommission g = None"
proof -
  obtain s' g where sc: "scoreSilverRow sample_md all_well (''1'', 5) plain_score sample_silver sample_layers = (s', Inr (Some g))"
    using sample_success by blast
  have "silver_fields sample_md (sv_normalized_fields sample_silver) = Some []"
    by (simp add: sample_silver_def silver_fields_def)
  then have "checkDecommission g = None"
    by (rule decommission_needs_detection [OF sc]) (simp_all add: js_get_def sample_md_def)
  then show ?thesis using sc by blast
qed

definition cold :: candidate where
  "cold = candidate_of unused_index Archive_cold High_priority (Fin 95) [] []"

definition dismissed_store :: rec_store where
  "dismissed_store = fst (updateCandidateState (True, True) ''rec-h'' Dismissed ''acme''
     (fst (storeCandidates sample_md True [(cold, True, 0)] \<lparr>st_ensured = False, st_rows = []\<rparr>)))"

lemma store_idempotent_witness:
  "storeCandidates sample_md False [(cold, False, 9)] dismissed_store = (dismissed_store, Inr \<lparr>sr_inserted = 0, sr_skipped = 1, sr_ids = []\<rparr>) \<and>
   map pc_state (st_rows dismissed_store) = [Dismissed]"
proof -
  let ?s = "fst (storeCandidates sample_md True [(cold, True, 0)] \<lparr>st_ensured = False, st_rows = []\<rparr>)"
  have "snd (storeCandidates sample_md True [(cold, True, 0)] \<lparr>st_ensured = False, st_rows = []\<rparr>) =
    Inr \<lparr>sr_inserted = 1, sr_skipped = 0, sr_ids = [''rec-h'']\<rparr>" by code_simp
  then have "storeCandidates sample_md True [(cold, True, 0)] \<lparr>st_ensured = False, st_rows = []\<rparr> =
    (?s, Inr \<lparr>sr_inserted = 1, sr_skipped = 0, sr_ids = [''rec-h'']\<rparr>)" by (simp add: prod_eq_iff)
  moreover have "map pc_id (st_rows ?s) = [''rec-h'']" by code_simp
  moreover have "map pc_id (st_rows dismissed_store) = [''rec-h'']" by code_simp
  ultimately have "storeCandidates sample_md False [(cold, False, 9)] dismissed_store =
    (dismissed_store, Inr \<lparr>sr_inserted = 0, sr_skipped = length [(cold, True, 0 :: int)], sr_ids = []\<rparr>)"
    by (intro store_idempotent [of _ _ "[(cold, True, 0)]" _ ?s]) (simp_all flip: set_map, code_simp)
  moreover have "map pc_state (st_rows dismissed_store) = [Dismissed]" by code_simp
  ultimately show ?thesis by simp
qed

end
