(* ===== verification/Portfolio.thy ===== *)
theory Portfolio
  imports Scoring JsValue
begin

text \<open>
  What is computed from the scored sources of \<open>packages/core/engine\<close>: the storage savings
  (\<open>savings/*.ts\<close>), the portfolio indicators (\<open>kpi/index.ts\<close>) and the check of the attribution of
  searches to sources (\<open>attribution/validation.ts\<close>). Parameters with a default are arguments; a
  configuration is a record of the keys that are present.
\<close>

section \<open>Savings\<close>

record retention_input =
  rt_dailyAvgGb :: jsnum
  rt_retentionDays :: jsnum

record field_savings_input =
  fi_dailyAvgGb :: jsnum
  fi_fieldsIndexed :: jsnum
  fi_fieldsUsed :: jsnum

record compression_input =
  co_dailyAvgGb :: jsnum
  co_utilizationPct :: jsnum

definition DEFAULT_MAX_RETENTION :: jsnum where "DEFAULT_MAX_RETENTION = Fin 365"
definition DEFAULT_COMPRESSION_FACTOR :: jsnum where "DEFAULT_COMPRESSION_FACTOR = jlit (3 / 10)"

definition computeRetentionExcessGb :: "retention_input \<Rightarrow> jsnum \<Rightarrow> jsnum" where
  "computeRetentionExcessGb inp maxRecommendedRetention =
     (if jle (rt_dailyAvgGb inp) (Fin 0) \<or> jle (rt_retentionDays inp) (Fin 0) then Fin 0
      else (let excessDays = jmax (Fin 0) (jsub (rt_retentionDays inp) maxRecommendedRetention)
            in if excessDays = Fin 0 then Fin 0
               else jround2 (jmul (rt_dailyAvgGb inp) (jdiv excessDays (rt_retentionDays inp)))))"

definition months_cost :: "jsnum \<Rightarrow> jsnum \<Rightarrow> jsnum \<Rightarrow> jsnum" where
  "months_cost gb costPerGbPerDay months = jround2 (jmul (jmul gb (jmul costPerGbPerDay (Fin 30))) months)"

definition computeRetentionSavings :: "retention_input \<Rightarrow> jsnum \<Rightarrow> jsnum \<Rightarrow> jsnum \<Rightarrow> jsnum" where
  "computeRetentionSavings inp months costPerGbPerDay maxRecommendedRetention =
     (let excessGb = computeRetentionExcessGb inp maxRecommendedRetention
      in if excessGb = Fin 0 then Fin 0 else months_cost excessGb costPerGbPerDay months)"

definition computeUnusedFieldGb :: "field_savings_input \<Rightarrow> jsnum" where
  "computeUnusedFieldGb inp =
     (if jle (fi_dailyAvgGb inp) (Fin 0) \<or> jle (fi_fieldsIndexed inp) (Fin 0) then Fin 0
      else (let unusedFields = jmax (Fin 0) (jsub (fi_fieldsIndexed inp) (fi_fieldsUsed inp))
            in if unusedFields = Fin 0 then Fin 0
               else jround2 (jmul (fi_dailyAvgGb inp) (jdiv unusedFields (fi_fieldsIndexed inp)))))"

definition computeFieldSavings :: "field_savings_input \<Rightarrow> jsnum \<Rightarrow> jsnum \<Rightarrow> jsnum" where
  "computeFieldSavings inp months costPerGbPerDay =
     (let unusedGb = computeUnusedFieldGb inp
      in if unusedGb = Fin 0 then Fin 0 else months_cost unusedGb costPerGbPerDay months)"

definition computeCompressionOpportunityGb :: "compression_input \<Rightarrow> jsnum \<Rightarrow> jsnum" where
  "computeCompressionOpportunityGb inp compressionFactor =
     (if jle (co_dailyAvgGb inp) (Fin 0) \<or> jlt (co_utilizationPct inp) (Fin 0) then Fin 0
      else (let lowUtilPct = jmax (Fin 0) (jsub (Fin 1) (jdiv (co_utilizationPct inp) (Fin 100)))
            in jround2 (jmul (jmul (co_dailyAvgGb inp) lowUtilPct) compressionFactor)))"

definition computeCompressionSavings :: "compression_input \<Rightarrow> jsnum \<Rightarrow> jsnum \<Rightarrow> jsnum \<Rightarrow> jsnum" where
  "computeCompressionSavings inp months costPerGbPerDay compressionFactor =
     (let compressionGb = computeCompressionOpportunityGb inp compressionFactor
      in if compressionGb = Fin 0 then Fin 0 else months_cost compressionGb costPerGbPerDay months)"

record savings =
  sa_retention :: jsnum
  sa_field :: jsnum
  sa_compression :: jsnum
  sa_total :: jsnum
  sa_confidence :: jsnum

record savings_config =
  sc_months :: jsnum
  sc_costPerGbPerDay :: jsnum
  sc_maxRecommendedRetention :: jsnum
  sc_compressionFactor :: jsnum

definition DEFAULT_SAVINGS :: savings_config where
  "DEFAULT_SAVINGS = \<lparr>sc_months = Fin 12, sc_costPerGbPerDay = Fin (1 / 2), sc_maxRecommendedRetention = Fin 365,
     sc_compressionFactor = jlit (3 / 10)\<rparr>"

record savings_overrides =
  so_months :: "jsnum option"
  so_costPerGbPerDay :: "jsnum option"
  so_maxRecommendedRetention :: "jsnum option"
  so_compressionFactor :: "jsnum option"

definition given :: "'a option \<Rightarrow> 'a \<Rightarrow> 'a" where
  "given x d = (case x of Some v \<Rightarrow> v | None \<Rightarrow> d)"

definition savings_config_of :: "savings_overrides \<Rightarrow> savings_config" where
  "savings_config_of c =
     \<lparr>sc_months = given (so_months c) (sc_months DEFAULT_SAVINGS),
      sc_costPerGbPerDay = given (so_costPerGbPerDay c) (sc_costPerGbPerDay DEFAULT_SAVINGS),
      sc_maxRecommendedRetention = given (so_maxRecommendedRetention c) (sc_maxRecommendedRetention DEFAULT_SAVINGS),
      sc_compressionFactor = given (so_compressionFactor c) (sc_compressionFactor DEFAULT_SAVINGS)\<rparr>"

definition savings_confidence :: "retention_input \<Rightarrow> field_savings_input option \<Rightarrow> compression_input \<Rightarrow> jsnum" where
  "savings_confidence r f c =
     (if f \<noteq> None \<and> jlt (Fin 0) (rt_dailyAvgGb r) \<and> jle (Fin 0) (co_utilizationPct c) then jlit (95 / 100)
      else if jlt (Fin 0) (rt_dailyAvgGb r) \<and> jle (Fin 0) (co_utilizationPct c) then jlit (80 / 100)
      else if jlt (Fin 0) (rt_dailyAvgGb r) then jlit (60 / 100)
      else Fin 0)"

definition computeDeterministicSavings ::
  "retention_input \<Rightarrow> field_savings_input option \<Rightarrow> compression_input \<Rightarrow> savings_overrides \<Rightarrow> savings" where
  "computeDeterministicSavings r f c overrides =
     (let cfg = savings_config_of overrides;
          retentionExcessGb = computeRetentionExcessGb r (sc_maxRecommendedRetention cfg);
          unusedFieldGb = (case f of Some inp \<Rightarrow> computeUnusedFieldGb inp | None \<Rightarrow> Fin 0);
          compressionGb = computeCompressionOpportunityGb c (sc_compressionFactor cfg);
          totalGb = jadd (jadd retentionExcessGb unusedFieldGb) compressionGb;
          cost = (\<lambda>gb. months_cost gb (sc_costPerGbPerDay cfg) (sc_months cfg))
      in \<lparr>sa_retention = cost retentionExcessGb, sa_field = cost unusedFieldGb, sa_compression = cost compressionGb,
          sa_total = cost totalGb, sa_confidence = savings_confidence r f c\<rparr>)"

section \<open>Portfolio indicators\<close>

record scored_source =
  ss_index :: string
  ss_sourcetype :: "string option"
  ss_utilization :: jsnum
  ss_detection :: jsnum
  ss_quality :: jsnum
  ss_composite :: jsnum
  ss_tier :: tier
  ss_dailyGb :: jsnum
  ss_annualCostUsd :: jsnum
  ss_detectionGap :: bool
  ss_operationalGap :: bool

record portfolio_kpis =
  kp_roiScore :: jsnum
  kp_gainScope :: jsnum
  kp_lowValueSpend :: jsnum
  kp_securityGaps :: nat
  kp_operationalGaps :: nat

definition computeROIScore :: "scored_source list \<Rightarrow> jsnum" where
  "computeROIScore scored =
     (if scored = [] then Fin 0
      else jround1 (jdiv (jsum (map ss_composite scored)) (Fin (of_nat (length scored)))))"

definition computeGainScope :: "scored_source list \<Rightarrow> jsnum" where
  "computeGainScope scored =
     (let totalGb = jsum (map ss_dailyGb scored)
      in if totalGb = Fin 0 then Fin 0
         else (let tier12Gb = jsum (map ss_dailyGb (filter (\<lambda>s. ss_tier s = Critical \<or> ss_tier s = Important) scored))
               in jround1 (jmul (jdiv tier12Gb totalGb) (Fin 100))))"

definition computeLowValueSpend :: "scored_source list \<Rightarrow> jsnum" where
  "computeLowValueSpend scored =
     jsum (map ss_annualCostUsd (filter (\<lambda>s. ss_tier s = Nice_to_Have \<or> ss_tier s = Low_Value) scored))"

definition computePortfolioKPIs :: "scored_source list \<Rightarrow> portfolio_kpis" where
  "computePortfolioKPIs scored =
     \<lparr>kp_roiScore = computeROIScore scored, kp_gainScope = computeGainScope scored, kp_lowValueSpend = computeLowValueSpend scored,
      kp_securityGaps = length (filter ss_detectionGap scored), kp_operationalGaps = length (filter ss_operationalGap scored)\<rparr>"

section \<open>Attribution\<close>

datatype validation_state = Pass | Warn | Fail

definition INFLATION_THRESHOLD :: jsnum where "INFLATION_THRESHOLD = Fin 3"

definition times_sign :: string where "times_sign = [CHR 0xC3, CHR 0x97]"

definition inflation_reason :: "string \<Rightarrow> jsnum \<Rightarrow> jsnum \<Rightarrow> jsnum \<Rightarrow> string" where
  "inflation_reason label amount ratio inventory =
     label @ '' count '' @ to_fixed 1 amount @ '' is '' @ to_fixed 1 ratio @ times_sign @ '' inventory total '' @ num_string inventory @
     '' '' @ em_dash @ '' double-counting likely''"

text \<open>One of the three comparisons with the inventory, on the worst ratio and the reasons so far.\<close>

definition check_inflation :: "string \<Rightarrow> jsnum \<Rightarrow> jsnum \<Rightarrow> jsnum \<times> string list \<Rightarrow> jsnum \<times> string list" where
  "check_inflation label amount inventory acc =
     (if jlt (Fin 0) inventory
      then (let ratio = jdiv amount inventory
            in (jmax (fst acc) ratio,
                snd acc @ (if jlt INFLATION_THRESHOLD ratio then [inflation_reason label amount ratio inventory] else [])))
      else acc)"

text \<open>The counts per index of the sources with a source type.\<close>

definition index_counts :: "(utilization_input \<Rightarrow> jsnum) \<Rightarrow> utilization_input list \<Rightarrow> (string, jsnum \<times> nat) jmap" where
  "index_counts cnt inputs =
     foldl (\<lambda>m inp. if or_default (ui_sourcetype inp) [] = [] then m
        else (let (c, n) = (case jm_get m (ui_index inp) of Some e \<Rightarrow> e | None \<Rightarrow> (Fin 0, 0))
              in jm_set (ui_index inp) (jadd c (cnt inp), n + 1) m)) [] inputs"

definition shared_reason :: "string \<times> jsnum \<times> nat \<Rightarrow> string list" where
  "shared_reason entry =
     (case entry of (idx, c, n) \<Rightarrow>
        if 1 < n \<and> jlt (Fin 0) c
        then (let avgPerSourcetype = jround1 (jdiv c (Fin (of_nat n)))
              in if jlt (Fin 3) avgPerSourcetype
                 then [''Index '' @ dquote @ idx @ dquote @ '' has '' @ nat_str n @ '' sourcetypes sharing avg '' @
                       num_string avgPerSourcetype @ '' alert count '' @ em_dash @ '' verify 1/N attribution'']
                 else [])
        else [])"

definition incomplete_reason :: "utilization_input list \<Rightarrow> string list" where
  "incomplete_reason inputs =
     (if list_all (\<lambda>inp. adHocSearchCount inp = Fin 0) inputs \<and> list_all (\<lambda>inp. distinctUserCount inp = Fin 0) inputs
      then [''Ad-hoc search and distinct user counts are all 0 '' @ em_dash @ '' attribution data incomplete''] else [])"

definition validateAttribution ::
  "utilization_input list \<Rightarrow> jsnum \<Rightarrow> jsnum \<Rightarrow> jsnum \<Rightarrow> validation_state \<times> string list" where
  "validateAttribution inputs koAlertTotal koScheduledTotal koDashboardTotal =
     (if inputs = [] then (Warn, [''No utilization inputs to validate''])
      else (let summed = (\<lambda>cnt. jsum (map cnt inputs));
                (worstRatio, inflated) =
                  check_inflation ''Dashboard panel'' (summed dashboardPanelCount) koDashboardTotal
                   (check_inflation ''Scheduled search'' (summed scheduledSearchCount) koScheduledTotal
                     (check_inflation ''Alert'' (summed alertCount) koAlertTotal (Fin 0, [])));
                reasons = inflated @ incomplete_reason inputs @ concat (map shared_reason (index_counts alertCount inputs))
            in if reasons = [] then (Pass, [])
               else if jlt INFLATION_THRESHOLD worstRatio then (Fail, reasons) else (Warn, reasons)))"

section \<open>Laws of the savings\<close>

lemma months_cost_zero:
  assumes "jmul c (Fin 30) = Fin x" "months = Fin y"
  shows "months_cost (Fin 0) c months = Fin 0"
  using assms by (simp add: months_cost_def jround2_def del: jround.simps)

text \<open>
  The combined calculation gives each part the value of its own function, which leaves out the
  multiplication when there is nothing to save, for every input and every finite price and duration.
\<close>

theorem savings_parts_agree:
  assumes "isFinite (jmul (sc_costPerGbPerDay cfg) (Fin 30))" "isFinite (sc_months cfg)" "cfg = savings_config_of overrides"
  shows "sa_retention (computeDeterministicSavings r f c overrides) =
      computeRetentionSavings r (sc_months cfg) (sc_costPerGbPerDay cfg) (sc_maxRecommendedRetention cfg) \<and>
    sa_field (computeDeterministicSavings r f c overrides) =
      (case f of None \<Rightarrow> Fin 0 | Some inp \<Rightarrow> computeFieldSavings inp (sc_months cfg) (sc_costPerGbPerDay cfg)) \<and>
    sa_compression (computeDeterministicSavings r f c overrides) =
      computeCompressionSavings c (sc_months cfg) (sc_costPerGbPerDay cfg) (sc_compressionFactor cfg)"
proof -
  obtain x y where "jmul (sc_costPerGbPerDay cfg) (Fin 30) = Fin x" "sc_months cfg = Fin y"
    using assms(1,2) by (auto simp: isFinite_iff)
  then have z: "months_cost (Fin 0) (sc_costPerGbPerDay cfg) (sc_months cfg) = Fin 0" by (rule months_cost_zero)
  show ?thesis
    unfolding computeDeterministicSavings_def computeRetentionSavings_def computeFieldSavings_def computeCompressionSavings_def
      assms(3) [symmetric] Let_def
    using z by (simp split: option.split)
qed

lemma savings_parts_agree_witness:
  "sa_retention (computeDeterministicSavings \<lparr>rt_dailyAvgGb = Fin 100, rt_retentionDays = Fin 730\<rparr> None
     \<lparr>co_dailyAvgGb = Fin 100, co_utilizationPct = Fin 50\<rparr>
     \<lparr>so_months = None, so_costPerGbPerDay = None, so_maxRecommendedRetention = None, so_compressionFactor = None\<rparr>) = Fin 9000"
proof -
  let ?o = "\<lparr>so_months = None, so_costPerGbPerDay = None, so_maxRecommendedRetention = None, so_compressionFactor = None\<rparr>"
  have "isFinite (jmul (sc_costPerGbPerDay (savings_config_of ?o)) (Fin 30))" "isFinite (sc_months (savings_config_of ?o))"
    by (simp_all add: savings_config_of_def given_def DEFAULT_SAVINGS_def)
  from savings_parts_agree [OF this refl, of "\<lparr>rt_dailyAvgGb = Fin 100, rt_retentionDays = Fin 730\<rparr>" None]
  have "sa_retention (computeDeterministicSavings \<lparr>rt_dailyAvgGb = Fin 100, rt_retentionDays = Fin 730\<rparr> None
     \<lparr>co_dailyAvgGb = Fin 100, co_utilizationPct = Fin 50\<rparr> ?o) =
    computeRetentionSavings \<lparr>rt_dailyAvgGb = Fin 100, rt_retentionDays = Fin 730\<rparr> (Fin 12) (Fin (1 / 2)) (Fin 365)"
    by (simp add: savings_config_of_def given_def DEFAULT_SAVINGS_def)
  also have "\<dots> = Fin 9000" by code_simp
  finally show ?thesis .
qed

text \<open>A share of a volume, as the three calculations take it.\<close>

lemma share_le:
  assumes "is_double (Fin d)" "0 \<le> d" "in_range 0 1 q"
  obtains x where "jmul (Fin d) q = Fin x" "is_double (Fin x)" "0 \<le> x" "x \<le> d"
proof -
  obtain w where w: "q = Fin w" "0 \<le> w" "w \<le> 1" using assms(3) by (auto elim: in_rangeE)
  have lo: "jle (Fin 0) (jmul (Fin d) q)" and hi: "jle (jmul (Fin d) q) (Fin d)"
    using jle_rnd [of 0 "d * w"] jle_rnd [of "d * w" d] w assms(1,2) by (simp_all add: is_double_def mult_left_le)
  then obtain x where "jmul (Fin d) q = Fin x" by (cases "jmul (Fin d) q") simp_all
  then show thesis using that [of x] lo hi w is_double_rnd [of "d * w"] by simp
qed

lemma rounded_range:
  assumes "0 \<le> x" "x \<le> d" "jround2 (Fin d) = Fin m"
  shows "in_range 0 m (jround2 (Fin x))"
proof -
  have "jle (jround2 (Fin 0)) (jround2 (Fin x))" "jle (jround2 (Fin x)) (Fin m)"
    using jle_round2 [of "Fin 0" "Fin x"] jle_round2 [of "Fin x" "Fin d"] assms by simp_all
  moreover have "jround2 (Fin 0) = Fin 0" by (simp add: jround2_def del: jround.simps)
  ultimately show ?thesis by (cases "jround2 (Fin x)") simp_all
qed

lemma share_range:
  assumes "is_double (Fin d)" "0 \<le> d" "in_range 0 1 q" "jround2 (Fin d) = Fin m"
  shows "in_range 0 m (jround2 (jmul (Fin d) q))"
  by (rule share_le [OF assms(1-3)]) (simp add: rounded_range assms(4))

lemma excess_share:
  assumes "is_double (Fin n)" "0 < n" "0 \<le> k"
  shows "in_range 0 1 (jdiv (jmax (Fin 0) (jsub (Fin n) (Fin k))) (Fin n))"
proof -
  have "jle (jsub (Fin n) (Fin k)) (rnd64 n)" using jle_rnd [of "n - k" n] assms(3) by (simp add: jsub_def)
  then have "jle (jsub (Fin n) (Fin k)) (Fin n)" using assms(1) by (simp add: is_double_def)
  then have "\<exists>x. jmax (Fin 0) (jsub (Fin n) (Fin k)) = Fin x \<and> 0 \<le> x \<and> x \<le> n"
    using assms(2) by (cases "jsub (Fin n) (Fin k)") (auto simp: jmax_def)
  then show ?thesis using in_range_div_unit [of _ n] assms(2) by (elim exE conjE) simp
qed

lemma idle_share:
  assumes "0 \<le> u"
  shows "in_range 0 1 (jmax (Fin 0) (jsub (Fin 1) (jdiv (Fin u) (Fin 100))))"
proof (rule in_range_max0)
  have "jle (Fin 0) (jdiv (Fin u) (Fin 100))" using jle_rnd [of 0 "u / 100"] assms by simp
  then have "jle (jsub (Fin 1) (jdiv (Fin u) (Fin 100))) (jsub (Fin 1) (Fin 0))" by (rule jle_minus)
  then show "jle (jsub (Fin 1) (jdiv (Fin u) (Fin 100))) (Fin 1)" by (simp add: jsub_def)
qed simp

text \<open>
  Each of the three volumes is between nothing and the daily volume, rounded to cents, for positive
  and negative inputs alike, as long as the retention limit and the used fields are not negative and
  the compression factor is at most one.
\<close>

theorem savings_parts_bounded:
  assumes "is_double (Fin d)" "jround2 (Fin d) = Fin m" "0 \<le> m" "is_double (Fin n)" "0 \<le> k" "in_range 0 1 factor"
  shows "in_range 0 m (computeRetentionExcessGb \<lparr>rt_dailyAvgGb = Fin d, rt_retentionDays = Fin n\<rparr> (Fin k)) \<and>
    in_range 0 m (computeUnusedFieldGb \<lparr>fi_dailyAvgGb = Fin d, fi_fieldsIndexed = Fin n, fi_fieldsUsed = Fin k\<rparr>) \<and>
    in_range 0 m (computeCompressionOpportunityGb \<lparr>co_dailyAvgGb = Fin d, co_utilizationPct = Fin u\<rparr> factor)"
proof (cases "0 < d")
  case True
  have part: "in_range 0 m (jround2 (jmul (Fin d) (jdiv (jmax (Fin 0) (jsub (Fin n) (Fin k))) (Fin n))))" if "0 < n"
    using share_range [OF assms(1) _ excess_share [OF assms(4) that assms(5)] assms(2)] True by simp
  have "in_range 0 m (jround2 (jmul (jmul (Fin d) (jmax (Fin 0) (jsub (Fin 1) (jdiv (Fin u) (Fin 100))))) factor))" if u: "0 \<le> u"
  proof -
    obtain x where x: "jmul (Fin d) (jmax (Fin 0) (jsub (Fin 1) (jdiv (Fin u) (Fin 100)))) = Fin x" "is_double (Fin x)" "0 \<le> x" "x \<le> d"
      using share_le [OF assms(1) _ idle_share [OF u]] True by auto
    obtain y where y: "jmul (Fin x) factor = Fin y" "0 \<le> y" "y \<le> x" using share_le [OF x(2,3) assms(6)] by auto
    have "y \<le> d" using y x by simp
    then show ?thesis unfolding x(1) y(1) by (rule rounded_range [OF y(2) _ assms(2)])
  qed
  then show ?thesis
    using part assms(3) by (simp add: computeRetentionExcessGb_def computeUnusedFieldGb_def computeCompressionOpportunityGb_def Let_def
        not_le not_less del: jmul.simps jdiv.simps)
qed (use assms(3) in \<open>simp add: computeRetentionExcessGb_def computeUnusedFieldGb_def computeCompressionOpportunityGb_def\<close>)

lemma savings_parts_bounded_witness:
  "in_range 0 100 (computeRetentionExcessGb \<lparr>rt_dailyAvgGb = Fin 100, rt_retentionDays = Fin 730\<rparr> (Fin 365))"
proof -
  have "is_double (Fin 100)" "jround2 (Fin 100) = Fin 100" "is_double (Fin 730)"
    by (simp_all add: is_double_def jround2_def del: jround.simps)
  then show ?thesis using savings_parts_bounded [of 100 100 730 365 "Fin 1" 0] by simp
qed

text \<open>The three volumes are added, so together they can claim more than everything there is.\<close>

theorem savings_overclaim:
  "sa_total (computeDeterministicSavings \<lparr>rt_dailyAvgGb = Fin 100, rt_retentionDays = Fin 36500\<rparr>
     (Some \<lparr>fi_dailyAvgGb = Fin 100, fi_fieldsIndexed = Fin 50, fi_fieldsUsed = Fin 0\<rparr>)
     \<lparr>co_dailyAvgGb = Fin 100, co_utilizationPct = Fin 0\<rparr>
     \<lparr>so_months = None, so_costPerGbPerDay = None, so_maxRecommendedRetention = None, so_compressionFactor = None\<rparr>) = Fin 41220 \<and>
   months_cost (Fin 100) (Fin (1 / 2)) (Fin 12) = Fin 18000"
  by code_simp

section \<open>Laws of the indicators\<close>

lemma jle_refl: "x \<noteq> NaN \<Longrightarrow> jle x x"
  by (cases x) (simp_all add: jle_def)

lemma jle_0_cases: "jle (Fin 0) x \<longleftrightarrow> x = Inf \<or> (\<exists>r. x = Fin r \<and> 0 \<le> r)"
  by (cases x) (auto simp: jle_def)

lemma jadd_grows:
  assumes "is_double b" "jle (Fin 0) b" "jle (Fin 0) x"
  shows "jle b (jadd b x)"
proof -
  have "jle (Fin r) (rnd64 (r + q))" if "rnd64 r = Fin r" "0 \<le> q" for r q
    using jle_rnd [of r "r + q"] that by simp
  then show ?thesis using assms by (auto simp: jle_0_cases is_double_def)
qed

lemma jle_top: "x \<noteq> NaN \<Longrightarrow> jle x Inf"
  by (cases x) (simp_all add: jle_def)

lemma jadd_mono_left:
  assumes "jle a b" "jle (Fin 0) a" "jle (Fin 0) x"
  shows "jle (jadd a x) (jadd b x)"
  using assms by (cases a; cases b; cases x) (simp_all add: jle_rnd jle_top)

lemma jadd_double: "jle (Fin 0) a \<Longrightarrow> jle (Fin 0) x \<Longrightarrow> is_double (jadd a x) \<and> jle (Fin 0) (jadd a x)"
  using jle_rnd [of 0] by (cases a; cases x) (simp_all, simp_all add: is_double_def jle_top)

definition volume_ok :: "jsnum \<Rightarrow> bool" where
  "volume_ok x = (is_double x \<and> jle (Fin 0) x)"

lemma sum_of_part:
  assumes "list_all (volume_ok \<circ> f) xs" "jle a b" "volume_ok a" "volume_ok b"
  shows "jle (foldl jadd a (map f (filter P xs))) (foldl jadd b (map f xs))"
  using assms
proof (induction xs arbitrary: a b)
  case (Cons x xs)
  have x: "jle (Fin 0) (f x)" using Cons.prems(1) by (simp add: volume_ok_def)
  have b': "volume_ok (jadd b (f x))" "jle b (jadd b (f x))"
    using Cons.prems(4) x jadd_double jadd_grows by (simp_all add: volume_ok_def)
  show ?case
  proof (cases "P x")
    case True
    have "volume_ok (jadd a (f x))" "jle (jadd a (f x)) (jadd b (f x))"
      using Cons.prems(2,3) x jadd_double jadd_mono_left by (simp_all add: volume_ok_def)
    then show ?thesis using Cons.IH [of "jadd a (f x)" "jadd b (f x)"] Cons.prems(1) b'(1) True by simp
  next
    case False
    have "jle a (jadd b (f x))" by (rule jle_trans [OF Cons.prems(2) b'(2)])
    then show ?thesis using Cons.IH [of a "jadd b (f x)"] Cons.prems(1,3) b'(1) False by simp
  qed
qed simp

text \<open>
  The share of well used volume is a percentage between 0 and 100 for every portfolio of volumes
  that are not negative, rounding of the sums included.
\<close>

theorem gain_scope_bounded:
  assumes "list_all (volume_ok \<circ> ss_dailyGb) scored" "isFinite (jsum (map ss_dailyGb scored))"
  shows "in_range 0 100 (computeGainScope scored)"
proof -
  define P where "P = (\<lambda>s :: scored_source. ss_tier s = Critical \<or> ss_tier s = Important)"
  have z: "volume_ok (Fin 0)" "jle (Fin 0) (Fin 0)" by (simp_all add: volume_ok_def is_double_def)
  obtain t where t: "jsum (map ss_dailyGb scored) = Fin t" using assms(2) by (auto simp: isFinite_iff)
  have le: "jle (jsum (map ss_dailyGb (filter P scored))) (Fin t)"
    using sum_of_part [OF assms(1) z(2) z(1) z(1), of P] t by (simp add: jsum_def)
  have "jle (Fin 0) (jsum (map ss_dailyGb (filter P scored)))"
    using sum_of_part [of ss_dailyGb "filter P scored" "Fin 0" "Fin 0" "\<lambda>_. False"] z assms(1)
    by (simp add: jsum_def list_all_iff)
  then obtain x where x: "jsum (map ss_dailyGb (filter P scored)) = Fin x" "0 \<le> x" "x \<le> t"
    using le by (cases "jsum (map ss_dailyGb (filter P scored))") simp_all
  show ?thesis
  proof (cases "t = 0")
    case False
    then have "in_range 0 1 (jdiv (Fin x) (Fin t))" using x by (intro in_range_div_unit) simp_all
    then have "in_range 0 (of_int 100) (jmul (jdiv (Fin x) (Fin t)) (Fin 100))"
      using in_range_mul [of 0 1 _ 100 100 "Fin 100" 0 100] by (simp del: jdiv.simps)
    then have "in_range 0 100 (jround1 (jmul (jdiv (Fin x) (Fin t)) (Fin 100)))"
      using in_range_round1 [of 100] by (simp del: jdiv.simps)
    then show ?thesis using t x(1) False unfolding computeGainScope_def P_def Let_def by (simp del: jdiv.simps)
  qed (use t in \<open>simp add: computeGainScope_def\<close>)
qed

lemma gain_scope_bounded_witness:
  "in_range 0 100 (computeGainScope [\<lparr>ss_index = ''web'', ss_sourcetype = None, ss_utilization = Fin 50, ss_detection = Fin 50,
     ss_quality = Fin 50, ss_composite = Fin 50, ss_tier = Important, ss_dailyGb = Fin 3, ss_annualCostUsd = Fin 1,
     ss_detectionGap = False, ss_operationalGap = False\<rparr>])"
  by (rule gain_scope_bounded) (simp_all add: volume_ok_def is_double_def jsum_def)

section \<open>Laws of the attribution check\<close>

definition members :: "string \<Rightarrow> utilization_input list \<Rightarrow> utilization_input list" where
  "members idx inputs = filter (\<lambda>inp. or_default (ui_sourcetype inp) [] \<noteq> [] \<and> ui_index inp = idx) inputs"

lemma index_counts_snoc:
  "index_counts cnt (inputs @ [inp]) =
     (if or_default (ui_sourcetype inp) [] = [] then index_counts cnt inputs
      else (let (c, n) = (case jm_get (index_counts cnt inputs) (ui_index inp) of Some e \<Rightarrow> e | None \<Rightarrow> (Fin 0, 0))
            in jm_set (ui_index inp) (jadd c (cnt inp), n + 1) (index_counts cnt inputs)))"
  by (simp add: index_counts_def)

text \<open>What the map holds of an index: the sum and the number of its sources with a source type.\<close>

lemma index_counts_get:
  "jm_get (index_counts cnt inputs) idx =
     (if members idx inputs = [] then None else Some (jsum (map cnt (members idx inputs)), length (members idx inputs)))"
proof (induction inputs arbitrary: idx rule: rev_induct)
  case (snoc inp inputs)
  show ?case
    using snoc [of idx] snoc [of "ui_index inp"]
    by (auto simp: index_counts_snoc members_def jsum_def update_conv' split: option.splits)
qed (simp add: index_counts_def members_def)

lemma index_counts_distinct: "distinct (map fst (index_counts cnt inputs))"
  by (induction inputs rule: rev_induct) (auto simp: index_counts_snoc index_counts_def distinct_update split: prod.splits)

definition shares_counts :: "utilization_input list \<Rightarrow> string \<Rightarrow> bool" where
  "shares_counts inputs idx =
     (let xs = members idx inputs; c = jsum (map alertCount xs)
      in 1 < length xs \<and> jlt (Fin 0) c \<and> jlt (Fin 3) (jround1 (jdiv c (Fin (of_nat (length xs))))))"

lemma shared_reasons_empty:
  "concat (map shared_reason (index_counts alertCount inputs)) = [] \<longleftrightarrow> (\<forall>idx. \<not> shares_counts inputs idx)"
proof -
  have "shared_reason (idx, c, n) = [] \<longleftrightarrow> \<not> shares_counts inputs idx" if "(idx, c, n) \<in> set (index_counts alertCount inputs)" for idx c n
  proof -
    have "jm_get (index_counts alertCount inputs) idx = Some (c, n)"
      using that index_counts_distinct by (simp add: map_of_eq_Some_iff)
    then show ?thesis by (auto simp: index_counts_get shared_reason_def shares_counts_def Let_def split: if_splits)
  qed
  moreover have "\<not> shares_counts inputs idx" if "\<forall>c n. (idx, c, n) \<notin> set (index_counts alertCount inputs)" for idx
  proof -
    have "jm_get (index_counts alertCount inputs) idx = None"
      using that index_counts_distinct [of alertCount inputs] map_of_SomeD [of "index_counts alertCount inputs" idx]
      by (cases "jm_get (index_counts alertCount inputs) idx") auto
    then show ?thesis by (simp add: index_counts_get shares_counts_def split: if_splits)
  qed
  ultimately show ?thesis unfolding concat_eq_Nil_conv by fastforce
qed

definition attribution_ratios :: "(jsnum \<times> jsnum) list \<Rightarrow> jsnum list" where
  "attribution_ratios ps = map (\<lambda>(t, k). jdiv t k) (filter (\<lambda>(t, k). jlt (Fin 0) k) ps)"

definition inventory_pairs :: "utilization_input list \<Rightarrow> jsnum \<Rightarrow> jsnum \<Rightarrow> jsnum \<Rightarrow> (jsnum \<times> jsnum) list" where
  "inventory_pairs inputs a s d = [(jsum (map alertCount inputs), a), (jsum (map scheduledSearchCount inputs), s),
     (jsum (map dashboardPanelCount inputs), d)]"

lemma jlt_max: "jlt (Fin k) (jmax x y) \<longleftrightarrow> x \<noteq> NaN \<and> y \<noteq> NaN \<and> (jlt (Fin k) x \<or> jlt (Fin k) y)"
  by (cases x; cases y) (auto simp: jmax_def)

lemma jmax_NaN: "jmax x y = NaN \<longleftrightarrow> x = NaN \<or> y = NaN"
  by (auto simp: jmax_def)

text \<open>
  The verdict on a batch: failed when a total is more than three times a positive inventory total and
  no ratio is NaN, passed when no total is, the metadata is there and no index with several source types
  has more than three alerts on average, a warning otherwise; one NaN ratio turns a failure into a warning.
\<close>

theorem attribution_verdict:
  assumes "inputs \<noteq> []" "rs = attribution_ratios (inventory_pairs inputs a s d)"
  shows "fst (validateAttribution inputs a s d) =
    (if (\<exists>r\<in>set rs. jlt (Fin 3) r) \<and> NaN \<notin> set rs then Fail
     else if \<not> (\<exists>r\<in>set rs. jlt (Fin 3) r) \<and> incomplete_reason inputs = [] \<and> (\<forall>idx. \<not> shares_counts inputs idx) then Pass
     else Warn)"
proof -
  define other where "other = incomplete_reason inputs @ concat (map shared_reason (index_counts alertCount inputs))"
  have o: "other = [] \<longleftrightarrow> incomplete_reason inputs = [] \<and> (\<forall>idx. \<not> shares_counts inputs idx)"
    by (simp only: other_def append_is_Nil_conv shared_reasons_empty)
  show ?thesis
    unfolding o [symmetric] using assms
    by (auto simp: validateAttribution_def Let_def check_inflation_def attribution_ratios_def inventory_pairs_def
        INFLATION_THRESHOLD_def jlt_max jmax_NaN other_def [symmetric] split del: if_split split: if_splits)
qed

definition doubled :: utilization_input where
  "doubled = \<lparr>ui_index = ''web'', ui_sourcetype = None, alertCount = Fin 8, scheduledSearchCount = Fin 0, dashboardPanelCount = Fin 0,
     distinctUserCount = Fin 1, adHocSearchCount = Fin 1\<rparr>"

lemma attribution_verdict_witness:
  "fst (validateAttribution [doubled] (Fin 2) (Fin 1) (Fin 0)) = Fail \<and>
   fst (validateAttribution [doubled\<lparr>scheduledSearchCount := NaN\<rparr>] (Fin 2) (Fin 1) (Fin 0)) = Warn"
proof -
  have r: "attribution_ratios (inventory_pairs [doubled] (Fin 2) (Fin 1) (Fin 0)) = [Fin 4, Fin 0]"
    "attribution_ratios (inventory_pairs [doubled\<lparr>scheduledSearchCount := NaN\<rparr>] (Fin 2) (Fin 1) (Fin 0)) = [Fin 4, NaN]"
    by code_simp+
  show ?thesis
    using attribution_verdict [OF _ r(1) [symmetric]] attribution_verdict [OF _ r(2) [symmetric]] by simp
qed

end
