(* ===== verification/Normalizer.thy ===== *)
theory Normalizer
  imports Portfolio
begin

text \<open>
  The normalization of raw source types, \<open>packages/core/normalization\<close>: the Windows, syslog, cloud and
  generic normalizers, their routing, and the contract of what they produce. A table is a JavaScript
  object: a look-up also finds what every object inherits, and of the inherited names only those in small
  letters can be asked for.
\<close>

section \<open>Canonical entries\<close>

datatype category = Security | Endpoint | Infra | Network | Cloud | Application | Generic

datatype confidence = High_confidence | Medium_confidence | Low_confidence

text \<open>An entry of a table; what is inherited has none of the three members.\<close>

record source_mapping =
  sm_category :: "category option"
  sm_canonical :: "string option"
  sm_channel :: "string option"

definition mapped :: "category \<Rightarrow> string \<Rightarrow> string \<Rightarrow> source_mapping" where
  "mapped c n ch = \<lparr>sm_category = Some c, sm_canonical = Some n, sm_channel = Some ch\<rparr>"

definition inherited_names :: "string list" where
  "inherited_names = [''constructor'', ''__proto__'']"

definition object_get :: "(string \<times> source_mapping) list \<Rightarrow> string \<Rightarrow> source_mapping option" where
  "object_get m k =
     (case map_of m k of
        Some e \<Rightarrow> Some e
      | None \<Rightarrow> if k \<in> set inherited_names then Some \<lparr>sm_category = None, sm_canonical = None, sm_channel = None\<rparr> else None)"

record precomputed_counts =
  pr_alertCount :: "jsnum option"
  pr_scheduledSearchCount :: "jsnum option"
  pr_dashboardPanelCount :: "jsnum option"
  pr_distinctUserCount :: "jsnum option"
  pr_adHocSearchCount :: "jsnum option"
  pr_mitreTechniqueCount :: "jsnum option"
  pr_lanternUsecaseCount :: "jsnum option"
  pr_activeAlertCount :: "jsnum option"
  pr_weightedIssues :: "jsnum option"

record raw_entry =
  re_index :: string
  re_sourcetype :: "string option"
  re_dailyAvgGb :: jsnum
  re_totalEvents :: jsnum
  re_retentionDays :: jsnum
  re_costPerGbPerDay :: jsnum
  re_precomputed :: "precomputed_counts option"

record canonical_telemetry =
  ct_sourceType :: "string option"
  ct_category :: "category option"
  ct_channel :: "string option"
  ct_events :: jsnum
  ct_volumeGb :: jsnum
  ct_utilization :: utilization_input
  ct_detection :: detection_input
  ct_quality :: quality_input
  ct_raw :: "string \<times> string \<times> jsnum \<times> jsnum \<times> jsnum"
  ct_confidence :: confidence

definition known :: "raw_entry \<Rightarrow> (precomputed_counts \<Rightarrow> jsnum option) \<Rightarrow> jsnum" where
  "known e f = (case re_precomputed e of Some p \<Rightarrow> given (f p) (Fin 0) | None \<Rightarrow> Fin 0)"

text \<open>The entry that all normalizers build, for the source type they settled on.\<close>

definition buildCanonical :: "source_mapping \<Rightarrow> raw_entry \<Rightarrow> string \<Rightarrow> confidence \<Rightarrow> canonical_telemetry" where
  "buildCanonical mapping e sourcetype conf =
     \<lparr>ct_sourceType = sm_canonical mapping, ct_category = sm_category mapping, ct_channel = sm_channel mapping,
      ct_events = re_totalEvents e, ct_volumeGb = re_dailyAvgGb e,
      ct_utilization =
        \<lparr>ui_index = re_index e, ui_sourcetype = Some sourcetype, alertCount = known e pr_alertCount,
         scheduledSearchCount = known e pr_scheduledSearchCount, dashboardPanelCount = known e pr_dashboardPanelCount,
         distinctUserCount = known e pr_distinctUserCount, adHocSearchCount = known e pr_adHocSearchCount\<rparr>,
      ct_detection =
        \<lparr>di_index = re_index e, di_sourcetype = Some sourcetype, mitreTechniqueCount = known e pr_mitreTechniqueCount,
         lanternUsecaseCount = known e pr_lanternUsecaseCount, activeAlertCount = known e pr_activeAlertCount\<rparr>,
      ct_quality =
        \<lparr>qi_index = re_index e, qi_sourcetype = Some sourcetype, weightedIssues = known e pr_weightedIssues,
         qi_dailyGb = re_dailyAvgGb e, eventsPerGbFactor = None\<rparr>,
      ct_raw = (re_index e, sourcetype, re_dailyAvgGb e, re_totalEvents e, re_retentionDays e),
      ct_confidence = conf\<rparr>"

text \<open>A source type that is missing or empty is not looked at.\<close>

definition named_sourcetype :: "raw_entry \<Rightarrow> string" where
  "named_sourcetype e = or_default (re_sourcetype e) []"

section \<open>Windows\<close>

definition CHANNEL_MAP :: "(string \<times> source_mapping) list" where
  "CHANNEL_MAP = [
     (''security'', mapped Security ''windows_security'' ''security''),
     (''system'', mapped Endpoint ''windows_system'' ''system''),
     (''application'', mapped Application ''windows_application'' ''application''),
     (''powershell'', mapped Security ''windows_powershell'' ''powershell''),
     (''sysmon'', mapped Security ''windows_sysmon'' ''sysmon''),
     (''task scheduler'', mapped Infra ''windows_task_scheduler'' ''infra''),
     (''dns'', mapped Infra ''windows_dns'' ''dns''),
     (''dhcp'', mapped Infra ''windows_dhcp'' ''dhcp'')]"

text \<open>\<open>/^WinEventLog:(.+)$/i\<close>: the dot matches no line terminator.\<close>

definition windows_channel :: "string \<Rightarrow> string option" where
  "windows_channel s =
     (let rest = drop 12 s
      in if to_lower (take 12 s) = ''wineventlog:'' \<and> rest \<noteq> [] \<and> list_all (\<lambda>c. c \<noteq> CHR 0x0A \<and> c \<noteq> CHR 0x0D) rest
         then Some rest else None)"

definition normalizeWindows :: "raw_entry \<Rightarrow> canonical_telemetry option" where
  "normalizeWindows e =
     (let sourcetype = named_sourcetype e
      in if sourcetype = [] then None
         else (case windows_channel sourcetype of
                 None \<Rightarrow> None
               | Some m \<Rightarrow>
                   (let channel = to_lower m
                    in case object_get CHANNEL_MAP channel of
                         None \<Rightarrow> Some (buildCanonical (mapped Endpoint (''windows_'' @ channel) channel) e sourcetype Low_confidence)
                       | Some mapping \<Rightarrow> Some (buildCanonical mapping e sourcetype High_confidence))))"

section \<open>Syslog and network devices\<close>

definition SYSMAP :: "(string \<times> source_mapping) list" where
  "SYSMAP = [
     (''cisco:asa'', mapped Network ''cisco_asa'' ''firewall''),
     (''cisco:ios'', mapped Network ''cisco_ios'' ''router''),
     (''cisco:nexus'', mapped Network ''cisco_nexus'' ''switch''),
     (''cisco:wireless'', mapped Network ''cisco_wireless'' ''wireless''),
     (''fortigate'', mapped Network ''fortigate'' ''firewall''),
     (''fortinet'', mapped Network ''fortinet'' ''firewall''),
     (''pan:traffic'', mapped Network ''pan_traffic'' ''firewall''),
     (''pan:threat'', mapped Security ''pan_threat'' ''ids''),
     (''pan:system'', mapped Infra ''pan_system'' ''infra''),
     (''paloalto:traffic'', mapped Network ''paloalto_traffic'' ''firewall''),
     (''paloalto:threat'', mapped Security ''paloalto_threat'' ''ids''),
     (''checkpoint'', mapped Network ''checkpoint'' ''firewall''),
     (''sonicwall'', mapped Network ''sonicwall'' ''firewall''),
     (''juniper:fw'', mapped Network ''juniper_fw'' ''firewall''),
     (''juniper:idp'', mapped Security ''juniper_idp'' ''ids''),
     (''linux_secure'', mapped Infra ''linux_secure'' ''auth''),
     (''linux_auth'', mapped Infra ''linux_auth'' ''auth''),
     (''linux_messages'', mapped Infra ''linux_messages'' ''system''),
     (''linux_syslog'', mapped Infra ''linux_syslog'' ''system''),
     (''authlog'', mapped Infra ''authlog'' ''auth''),
     (''secure'', mapped Infra ''secure'' ''auth''),
     (''messages'', mapped Infra ''messages'' ''system''),
     (''syslog'', mapped Generic ''syslog'' ''syslog'')]"

definition PREFIX_MAP :: "(string \<times> source_mapping) list" where
  "PREFIX_MAP = [
     (''cisco:'', mapped Network ''cisco_generic'' ''network''),
     (''pan:'', mapped Network ''pan_generic'' ''firewall''),
     (''paloalto:'', mapped Network ''paloalto_generic'' ''firewall''),
     (''juniper:'', mapped Network ''juniper_generic'' ''network''),
     (''linux_'', mapped Infra ''linux_generic'' ''system''),
     (''ssh'', mapped Infra ''ssh'' ''auth''),
     (''sudo'', mapped Infra ''sudo'' ''auth''),
     (''dhcpd'', mapped Infra ''dhcpd'' ''dhcp''),
     (''named'', mapped Infra ''named'' ''dns''),
     (''dns'', mapped Infra ''dns'' ''dns''),
     (''ntp'', mapped Infra ''ntp'' ''ntp''),
     (''httpd'', mapped Application ''httpd'' ''web''),
     (''apache'', mapped Application ''apache'' ''web''),
     (''nginx'', mapped Application ''nginx'' ''web''),
     (''iis'', mapped Application ''iis'' ''web''),
     (''mysql'', mapped Application ''mysql'' ''database''),
     (''postgres'', mapped Application ''postgres'' ''database''),
     (''mongo'', mapped Application ''mongodb'' ''database''),
     (''redis'', mapped Application ''redis'' ''cache'')]"

definition starts_with :: "string \<Rightarrow> string \<Rightarrow> bool" where
  "starts_with p s = (take (length p) s = p)"

definition normalizeSyslog :: "raw_entry \<Rightarrow> canonical_telemetry option" where
  "normalizeSyslog e =
     (let sourcetype = named_sourcetype e; key = to_lower sourcetype
      in if sourcetype = [] then None
         else (case object_get SYSMAP key of
                 Some exact \<Rightarrow> Some (buildCanonical exact e sourcetype High_confidence)
               | None \<Rightarrow>
                   (case find (\<lambda>(p, m). starts_with p key) PREFIX_MAP of
                      Some (p, mapping) \<Rightarrow> Some (buildCanonical mapping e sourcetype Medium_confidence)
                    | None \<Rightarrow> None)))"

section \<open>Cloud platforms\<close>

definition CLOUD_MAP :: "(string \<times> source_mapping) list" where
  "CLOUD_MAP = [
     (''aws:cloudtrail'', mapped Cloud ''aws_cloudtrail'' ''audit''),
     (''aws:config'', mapped Cloud ''aws_config'' ''config''),
     (''aws:guardduty'', mapped Security ''aws_guardduty'' ''threat_detection''),
     (''aws:vpc'', mapped Network ''aws_vpc'' ''network''),
     (''aws:s3'', mapped Application ''aws_s3'' ''storage''),
     (''aws:lambda'', mapped Application ''aws_lambda'' ''serverless''),
     (''aws:ec2'', mapped Infra ''aws_ec2'' ''compute''),
     (''aws:rds'', mapped Application ''aws_rds'' ''database''),
     (''aws:elb'', mapped Network ''aws_elb'' ''load_balancer''),
     (''aws:waf'', mapped Security ''aws_waf'' ''waf''),
     (''azure:audit'', mapped Cloud ''azure_audit'' ''audit''),
     (''azure:signin'', mapped Cloud ''azure_signin'' ''identity''),
     (''azure:activity'', mapped Cloud ''azure_activity'' ''audit''),
     (''azure:security'', mapped Security ''azure_security'' ''threat_detection''),
     (''azure:network'', mapped Network ''azure_network'' ''network''),
     (''azure:storage'', mapped Application ''azure_storage'' ''storage''),
     (''azure:vm'', mapped Infra ''azure_vm'' ''compute''),
     (''azure:sql'', mapped Application ''azure_sql'' ''database''),
     (''gcp:pubsub'', mapped Application ''gcp_pubsub'' ''pubsub''),
     (''gcp:audit'', mapped Cloud ''gcp_audit'' ''audit''),
     (''gcp:vpc'', mapped Network ''gcp_vpc'' ''network''),
     (''gcp:storage'', mapped Application ''gcp_storage'' ''storage''),
     (''gcp:compute'', mapped Infra ''gcp_compute'' ''compute''),
     (''o365:management'', mapped Cloud ''o365_management'' ''identity''),
     (''o365:audit'', mapped Cloud ''o365_audit'' ''audit''),
     (''o365:exchange'', mapped Application ''o365_exchange'' ''email''),
     (''o365:sharepoint'', mapped Application ''o365_sharepoint'' ''collaboration''),
     (''o365:teams'', mapped Application ''o365_teams'' ''messaging'')]"

definition normalizeCloud :: "raw_entry \<Rightarrow> canonical_telemetry option" where
  "normalizeCloud e =
     (let sourcetype = named_sourcetype e
      in if sourcetype = [] then None
         else map_option (\<lambda>mapping. buildCanonical mapping e sourcetype High_confidence) (object_get CLOUD_MAP (to_lower sourcetype)))"

section \<open>The generic fallback\<close>

definition key_char :: "char \<Rightarrow> bool" where
  "key_char c = (let n = (of_char c :: nat) in 97 \<le> n \<and> n \<le> 122 \<or> 48 \<le> n \<and> n \<le> 57 \<or> n = 95)"

fun squeeze :: "string \<Rightarrow> string" where
  "squeeze (a # b # s) = (if a = CHR ''_'' \<and> b = CHR ''_'' then squeeze (b # s) else a # squeeze (b # s))"
| "squeeze s = s"

definition strip_ends :: "string \<Rightarrow> string" where
  "strip_ends s =
     (let t = (if take 1 s = ''_'' then drop 1 s else s)
      in if t \<noteq> [] \<and> last t = CHR ''_'' then butlast t else t)"

definition safe_key :: "string \<Rightarrow> string" where
  "safe_key s =
     (let k = strip_ends (squeeze (map (\<lambda>c. if key_char c then c else CHR ''_'') (to_lower s)))
      in if k = [] then ''unknown'' else k)"

definition mentions_any :: "string \<Rightarrow> string list \<Rightarrow> bool" where
  "mentions_any s ws = list_ex (str_includes (to_lower s)) ws"

definition generic_category :: "string \<Rightarrow> category" where
  "generic_category s =
     (if mentions_any s [''kube'', ''container'', ''docker'', ''pod''] then Infra
      else if mentions_any s [''custom'', ''app'', ''service'', ''api''] then Application
      else if mentions_any s [''sensor'', ''iot'', ''edge''] then Infra
      else if mentions_any s [''db'', ''database'', ''sql''] then Application
      else if mentions_any s [''firewall'', ''vpn'', ''proxy'', ''gateway''] then Network
      else if mentions_any s [''audit'', ''compliance''] then Security
      else Generic)"

definition normalizeGeneric :: "raw_entry \<Rightarrow> canonical_telemetry" where
  "normalizeGeneric e =
     (let safeSourcetype = (if named_sourcetype e = [] then re_index e @ ''_unknown'' else named_sourcetype e);
          safeKey = safe_key safeSourcetype
      in buildCanonical (mapped (generic_category safeSourcetype) (''generic_'' @ safeKey) safeKey) e safeSourcetype Low_confidence)"

section \<open>Routing\<close>

record normalization_result =
  nr_canonical :: "canonical_telemetry list"
  nr_errors :: "(string \<times> string \<times> string) list"

text \<open>Nothing throws on entries of the declared type, so the catch branch has no counterpart.\<close>

definition normalize_entry :: "raw_entry \<Rightarrow> canonical_telemetry" where
  "normalize_entry e =
     (case normalizeWindows e of Some c \<Rightarrow> c
      | None \<Rightarrow> (case normalizeSyslog e of Some c \<Rightarrow> c
        | None \<Rightarrow> (case normalizeCloud e of Some c \<Rightarrow> c | None \<Rightarrow> normalizeGeneric e)))"

definition normalizeBatch :: "raw_entry list \<Rightarrow> normalization_result" where
  "normalizeBatch entries = \<lparr>nr_canonical = map normalize_entry entries, nr_errors = []\<rparr>"

section \<open>The contract\<close>

definition invalid_number :: "jsnum \<Rightarrow> bool" where
  "invalid_number x = (jlt x (Fin 0) \<or> \<not> isFinite x)"

definition number_error :: "string \<Rightarrow> jsnum \<Rightarrow> string list" where
  "number_error label x = (if invalid_number x then [''Invalid '' @ label @ '': '' @ num_string x] else [])"

text \<open>The category and the confidence have one of their values unless they are missing.\<close>

definition validateCanonical :: "canonical_telemetry \<Rightarrow> string list" where
  "validateCanonical item =
     (if or_default (ct_sourceType item) [] = [] then [''Missing or invalid sourceType''] else []) @
     (if ct_category item = None then [''Invalid category: undefined''] else []) @
     number_error ''volumeGb'' (ct_volumeGb item) @
     number_error ''events count'' (ct_events item) @
     number_error ''alertCount'' (alertCount (ct_utilization item)) @
     number_error ''scheduledSearchCount'' (scheduledSearchCount (ct_utilization item)) @
     number_error ''dashboardPanelCount'' (dashboardPanelCount (ct_utilization item)) @
     number_error ''mitreTechniqueCount'' (mitreTechniqueCount (ct_detection item)) @
     number_error ''lanternUsecaseCount'' (lanternUsecaseCount (ct_detection item)) @
     number_error ''activeAlertCount'' (activeAlertCount (ct_detection item)) @
     number_error ''weightedIssues'' (weightedIssues (ct_quality item)) @
     number_error ''dailyGb in qualityInputs'' (qi_dailyGb (ct_quality item))"

record kpi_summary =
  ks_roiScore :: jsnum
  ks_gainScope :: jsnum
  ks_tierCounts :: "tier \<Rightarrow> jsnum"

record normalization_delta =
  nd_old :: kpi_summary
  nd_new :: kpi_summary
  nd_roiVariance :: jsnum
  nd_gainScopeVariance :: jsnum
  nd_counts :: "jsnum \<times> jsnum \<times> jsnum"

definition variance :: "jsnum \<Rightarrow> jsnum \<Rightarrow> jsnum" where
  "variance old new = (if old = Fin 0 then Fin 0 else jmul (jabs (jdiv (jsub new old) old)) (Fin 100))"

definition computeNormalizationDelta ::
  "kpi_summary \<Rightarrow> kpi_summary \<Rightarrow> jsnum \<Rightarrow> jsnum \<Rightarrow> jsnum \<Rightarrow> normalization_delta" where
  "computeNormalizationDelta old new normalizedCount genericCount errorCount =
     \<lparr>nd_old = old, nd_new = new, nd_roiVariance = jround2 (variance (ks_roiScore old) (ks_roiScore new)),
      nd_gainScopeVariance = jround2 (variance (ks_gainScope old) (ks_gainScope new)),
      nd_counts = (normalizedCount, genericCount, errorCount)\<rparr>"

section \<open>Laws of the tables\<close>

lemma to_lower_id: "list_all (\<lambda>c. lower_char c = c) s \<Longrightarrow> to_lower s = s"
  by (induction s) (simp_all add: to_lower_def)

lemma starts_with_prefix: "starts_with p s \<longleftrightarrow> prefix p s"
  by (auto simp: starts_with_def prefix_def) (metis append_take_drop_id)

text \<open>No key of the syslog tables is in the domain of the cloud table, and no cloud key starts like a device.\<close>

lemma cloud_keys_apart:
  "list_all (\<lambda>k. k \<notin> fst ` set SYSMAP \<and> \<not> list_ex (\<lambda>(p, m). starts_with p k) PREFIX_MAP) (map fst CLOUD_MAP)"
  by code_simp

lemma windows_key_apart:
  "list_all (\<lambda>k. \<not> starts_with ''wineventlog:'' k) (map fst SYSMAP @ map fst CLOUD_MAP @ inherited_names)"
  "list_all (\<lambda>(p, m). \<not> starts_with p ''wineventlog:'' \<and> length p < 12) PREFIX_MAP"
  by code_simp+

lemma windows_channel_lower:
  assumes "windows_channel s = Some r"
  shows "starts_with ''wineventlog:'' (to_lower s)"
proof -
  have "to_lower (take 12 s) = ''wineventlog:''" using assms by (auto simp: windows_channel_def Let_def split: if_splits)
  then have "take 12 (to_lower s) = ''wineventlog:''" by (simp add: to_lower_def take_map)
  moreover have "length ''wineventlog:'' = 12" by simp
  ultimately show ?thesis unfolding starts_with_def by argo
qed

lemma starts_with_shorter: "starts_with p s \<Longrightarrow> starts_with q s \<Longrightarrow> length p \<le> length q \<Longrightarrow> starts_with p q"
  by (simp add: starts_with_prefix) (metis prefix_length_prefix)

lemma windows_not_syslog:
  assumes "starts_with ''wineventlog:'' key"
  shows "object_get SYSMAP key = None" "find (\<lambda>(p, m). starts_with p key) PREFIX_MAP = None" "object_get CLOUD_MAP key = None"
proof -
  have n: "key \<notin> set (map fst SYSMAP @ map fst CLOUD_MAP @ inherited_names)"
    using windows_key_apart(1) assms by (auto simp: list_all_iff)
  then show "object_get SYSMAP key = None" "object_get CLOUD_MAP key = None"
    by (auto simp: object_get_def map_of_eq_None_iff split: option.splits)
  have "\<not> starts_with p key" if "(p, m) \<in> set PREFIX_MAP" for p m
  proof
    assume "starts_with p key"
    moreover have "\<not> starts_with p ''wineventlog:'' \<and> length p < 12"
      using bspec [OF windows_key_apart(2) [unfolded list_all_iff] that] unfolding prod.case .
    moreover have "length ''wineventlog:'' = 12" by simp
    ultimately show False using starts_with_shorter [OF _ assms, of p] by linarith
  qed
  then show "find (\<lambda>(p, m). starts_with p key) PREFIX_MAP = None" unfolding find_None_iff by (auto simp only: prod.case split: prod.split)
qed

text \<open>
  At most one of the three specific normalizers accepts an entry, unless its source type is an
  inherited name, so the order in which they are asked does not matter.
\<close>

theorem normalizers_disjoint:
  assumes "to_lower (named_sourcetype e) \<notin> set inherited_names"
  shows "length (filter (\<lambda>f. f e \<noteq> None) [normalizeWindows, normalizeSyslog, normalizeCloud]) \<le> 1"
proof (cases "normalizeWindows e = None")
  case True
  show ?thesis
  proof (cases "normalizeCloud e = None")
    case False
    then obtain m where "object_get CLOUD_MAP (to_lower (named_sourcetype e)) = Some m" by (auto simp: normalizeCloud_def Let_def split: if_splits)
    then have "to_lower (named_sourcetype e) \<in> set (map fst CLOUD_MAP)"
      using assms by (auto simp: object_get_def split: option.splits dest: map_of_SomeD intro: rev_image_eqI)
    from bspec [OF cloud_keys_apart [unfolded list_all_iff] this]
    have "to_lower (named_sourcetype e) \<notin> fst ` set SYSMAP"
      "\<not> list_ex (\<lambda>(p, m). starts_with p (to_lower (named_sourcetype e))) PREFIX_MAP" by blast+
    moreover have "jm_get SYSMAP (to_lower (named_sourcetype e)) = None"
      using map_of_eq_None_iff [of SYSMAP] calculation(1) by blast
    then have "object_get SYSMAP (to_lower (named_sourcetype e)) = None"
      using assms by (simp add: object_get_def)
    moreover have "find (\<lambda>(p, m). starts_with p (to_lower (named_sourcetype e))) PREFIX_MAP = None"
      using calculation(2) by (auto simp: find_None_iff list_ex_iff)
    ultimately have "normalizeSyslog e = None" by (simp add: normalizeSyslog_def Let_def)
    then show ?thesis using True by simp
  qed (use True in \<open>simp\<close>)
next
  case False
  then obtain r where "windows_channel (named_sourcetype e) = Some r"
    by (auto simp: normalizeWindows_def Let_def split: if_splits option.splits)
  from windows_not_syslog [OF windows_channel_lower [OF this]]
  show ?thesis by (simp add: normalizeSyslog_def normalizeCloud_def Let_def)
qed

lemma normalizers_disjoint_witness:
  "length (filter (\<lambda>f. f \<lparr>re_index = ''main'', re_sourcetype = Some ''WinEventLog:Security'', re_dailyAvgGb = Fin 1, re_totalEvents = Fin 9,
     re_retentionDays = Fin 30, re_costPerGbPerDay = Fin 1, re_precomputed = None\<rparr> \<noteq> None)
     [normalizeWindows, normalizeSyslog, normalizeCloud]) \<le> 1"
  by (rule normalizers_disjoint) (simp add: named_sourcetype_def or_default_def inherited_names_def to_lower_def lower_char_def)

section \<open>The contract holds\<close>

definition entry_numbers :: "raw_entry \<Rightarrow> jsnum list" where
  "entry_numbers e = [re_dailyAvgGb e, re_totalEvents e, known e pr_alertCount, known e pr_scheduledSearchCount,
     known e pr_dashboardPanelCount, known e pr_mitreTechniqueCount, known e pr_lanternUsecaseCount, known e pr_activeAlertCount,
     known e pr_weightedIssues]"

definition sound_mapping :: "source_mapping \<Rightarrow> bool" where
  "sound_mapping m = (or_default (sm_canonical m) [] \<noteq> [] \<and> sm_category m \<noteq> None)"

text \<open>The source types whose look-up finds what objects inherit.\<close>

definition inherits :: "raw_entry \<Rightarrow> bool" where
  "inherits e =
     (to_lower (named_sourcetype e) \<in> set inherited_names \<or>
      (case windows_channel (named_sourcetype e) of Some r \<Rightarrow> to_lower r \<in> set inherited_names | None \<Rightarrow> False))"

lemma validate_build:
  "validateCanonical (buildCanonical m e st conf) = [] \<longleftrightarrow>
     sound_mapping m \<and> list_all (\<lambda>x. \<not> invalid_number x) (entry_numbers e)"
  by (auto simp: validateCanonical_def buildCanonical_def sound_mapping_def entry_numbers_def number_error_def)

lemma tables_sound: "list_all (\<lambda>(k, m). sound_mapping m) (CHANNEL_MAP @ SYSMAP @ PREFIX_MAP @ CLOUD_MAP)"
  by code_simp

lemma tables_no_inherited: "list_all (\<lambda>k. k \<notin> set (map fst CHANNEL_MAP @ map fst SYSMAP @ map fst CLOUD_MAP)) inherited_names"
  by code_simp

lemma object_get_sound:
  assumes "object_get t k = Some m" "t \<in> {CHANNEL_MAP, SYSMAP, CLOUD_MAP}"
  shows "sound_mapping m \<longleftrightarrow> k \<notin> set inherited_names"
proof (cases "map_of t k")
  case None
  then show ?thesis using assms(1) by (auto simp: object_get_def sound_mapping_def or_default_def split: if_splits)
next
  case (Some m')
  then have m: "m' = m" "(k, m) \<in> set t" using assms(1) map_of_SomeD [OF Some] by (simp_all add: object_get_def)
  then have "(k, m) \<in> set (CHANNEL_MAP @ SYSMAP @ PREFIX_MAP @ CLOUD_MAP)" using assms(2) by auto
  from bspec [OF tables_sound [unfolded list_all_iff] this] have "sound_mapping m" unfolding prod.case .
  moreover have "k \<notin> set inherited_names"
  proof
    assume "k \<in> set inherited_names"
    from bspec [OF tables_no_inherited [unfolded list_all_iff] this]
    have "k \<notin> fst ` set t" using assms(2) by auto
    then show False using m(2) by force
  qed
  ultimately show ?thesis by simp
qed

lemma mapped_sound: "n \<noteq> [] \<Longrightarrow> sound_mapping (mapped c n ch)"
  by (simp add: sound_mapping_def mapped_def or_default_def)

lemma inherited_not_found:
  "k \<in> set inherited_names \<Longrightarrow> object_get t k \<noteq> None"
  by (simp add: object_get_def split: option.split)

lemma inherited_not_windows: "to_lower s \<in> set inherited_names \<Longrightarrow> windows_channel s = None"
proof (rule ccontr)
  assume k: "to_lower s \<in> set inherited_names" and "windows_channel s \<noteq> None"
  then obtain r where "windows_channel s = Some r" by blast
  from windows_channel_lower [OF this] have "starts_with ''wineventlog:'' (to_lower s)" .
  moreover have "to_lower s \<in> set (map fst SYSMAP @ map fst CLOUD_MAP @ inherited_names)" using k by simp
  ultimately show False using bspec [OF windows_key_apart(1) [unfolded list_all_iff]] by blast
qed

text \<open>Every entry is built from one mapping, which is sound unless the look-up found an inherited name.\<close>

lemma entry_built:
  "\<exists>m st conf. normalize_entry e = buildCanonical m e st conf \<and> (sound_mapping m \<longleftrightarrow> \<not> inherits e)"
proof (cases "normalizeWindows e")
  case (Some c)
  then obtain r where r: "windows_channel (named_sourcetype e) = Some r"
    by (auto simp: normalizeWindows_def Let_def split: if_splits option.splits)
  have ne: "to_lower (named_sourcetype e) \<notin> set inherited_names" using inherited_not_windows [of "named_sourcetype e"] r by auto
  then have i: "inherits e \<longleftrightarrow> to_lower r \<in> set inherited_names" by (simp add: inherits_def r)
  show ?thesis
  proof (cases "object_get CHANNEL_MAP (to_lower r)")
    case None
    then have "to_lower r \<notin> set inherited_names" using inherited_not_found by blast
    then show ?thesis using Some r None i mapped_sound [of "''windows_'' @ to_lower r"]
      by (auto simp: normalize_entry_def normalizeWindows_def Let_def split: if_splits)
  next
    case (Some m)
    then show ?thesis using \<open>normalizeWindows e = Some c\<close> r i object_get_sound [OF Some]
      by (auto simp: normalize_entry_def normalizeWindows_def Let_def split: if_splits)
  qed
next
  case None
  have nw: "windows_channel (named_sourcetype e) = None \<or> named_sourcetype e = []"
    using None by (auto simp: normalizeWindows_def Let_def split: if_splits option.splits)
  then have i: "inherits e \<longleftrightarrow> to_lower (named_sourcetype e) \<in> set inherited_names"
    by (auto simp: inherits_def windows_channel_def)
  have empty: "to_lower [] \<notin> set inherited_names" by (simp add: inherited_names_def to_lower_def)
  show ?thesis
  proof (cases "normalizeSyslog e")
    case (Some c)
    show ?thesis
    proof (cases "object_get SYSMAP (to_lower (named_sourcetype e))")
      case s: (Some m)
      then show ?thesis using Some None i object_get_sound [OF s]
        by (auto simp: normalize_entry_def normalizeSyslog_def Let_def split: if_splits)
    next
      case n: None
      then obtain p m where f: "find (\<lambda>(p, m). starts_with p (to_lower (named_sourcetype e))) PREFIX_MAP = Some (p, m)"
        using Some by (auto simp: normalizeSyslog_def Let_def split: if_splits option.splits)
      then have "(p, m) \<in> set (CHANNEL_MAP @ SYSMAP @ PREFIX_MAP @ CLOUD_MAP)" using find_Some_mem by fastforce
      from bspec [OF tables_sound [unfolded list_all_iff] this] have "sound_mapping m" unfolding prod.case .
      moreover have "\<not> inherits e" using n i inherited_not_found by blast
      ultimately show ?thesis using Some None n f by (auto simp: normalize_entry_def normalizeSyslog_def Let_def split: if_splits)
    qed
  next
    case sn: None
    then have ni: "\<not> inherits e" using i empty inherited_not_found [of "to_lower (named_sourcetype e)" SYSMAP]
      by (auto simp: normalizeSyslog_def Let_def split: if_splits option.splits)
    show ?thesis
    proof (cases "normalizeCloud e")
      case (Some c)
      then obtain m where "object_get CLOUD_MAP (to_lower (named_sourcetype e)) = Some m"
        "c = buildCanonical m e (named_sourcetype e) High_confidence"
        by (auto simp: normalizeCloud_def Let_def split: if_splits)
      then show ?thesis using Some None sn ni i object_get_sound by (auto simp: normalize_entry_def)
    next
      case cn: None
      show ?thesis using None sn cn ni mapped_sound [of "''generic_'' @ x" for x]
        by (auto simp: normalize_entry_def normalizeGeneric_def Let_def)
    qed
  qed
qed

text \<open>
  C22: What an entry normalizes to satisfies the contract exactly when the numbers the contract looks at
  are finite and not negative and no look-up found an inherited name; the counts of users and of ad-hoc
  searches, which the contract leaves out, do not matter.
\<close>

theorem canonical_contract:
  "validateCanonical (normalize_entry e) = [] \<longleftrightarrow> \<not> inherits e \<and> list_all (\<lambda>x. \<not> invalid_number x) (entry_numbers e)"
proof -
  obtain m st conf where "normalize_entry e = buildCanonical m e st conf" "sound_mapping m \<longleftrightarrow> \<not> inherits e"
    using entry_built by blast
  then show ?thesis by (simp add: validate_build)
qed

lemma constructor_breaks_contract:
  "validateCanonical (normalize_entry \<lparr>re_index = ''main'', re_sourcetype = Some ''constructor'', re_dailyAvgGb = Fin 1, re_totalEvents = Fin 9,
     re_retentionDays = Fin 30, re_costPerGbPerDay = Fin 1, re_precomputed = None\<rparr>) =
   [''Missing or invalid sourceType'', ''Invalid category: undefined'']"
  by code_simp

section \<open>Generic keys\<close>

abbreviation apart :: "char \<Rightarrow> char \<Rightarrow> bool" where
  "apart a b \<equiv> \<not> (a = CHR ''_'' \<and> b = CHR ''_'')"

text \<open>Small letters, digits and single underscores between them.\<close>

definition clean_key :: "string \<Rightarrow> bool" where
  "clean_key s = (s \<noteq> [] \<and> list_all key_char s \<and> successively apart s \<and> hd s \<noteq> CHR ''_'' \<and> last s \<noteq> CHR ''_'')"

lemma squeeze_hd: "squeeze s \<noteq> [] \<longleftrightarrow> s \<noteq> []" "s \<noteq> [] \<Longrightarrow> hd (squeeze s) = hd s"
  by (induction s rule: squeeze.induct) auto

lemma squeeze_apart: "successively apart (squeeze s)"
proof (induction s rule: squeeze.induct)
  case (1 a b s)
  then show ?case using squeeze_hd [of "b # s"] by (auto simp: successively_Cons)
qed simp_all

lemma squeeze_all: "list_all P s \<Longrightarrow> list_all P (squeeze s)"
  by (induction s rule: squeeze.induct) auto

lemma squeeze_id: "successively apart s \<Longrightarrow> squeeze s = s"
  by (induction s rule: squeeze.induct) auto

lemma successively_butlast: "successively P s \<Longrightarrow> successively P (butlast s)"
  by (induction P s rule: successively.induct) auto

lemma successively_last: "successively P (s @ [a]) \<Longrightarrow> s \<noteq> [] \<Longrightarrow> P (last s) a"
  by (simp add: successively_append_iff)

lemma strip_clean:
  assumes "successively apart s" "list_all key_char s" "strip_ends s \<noteq> []"
  shows "clean_key (strip_ends s)"
proof -
  define t where "t = (if take 1 s = ''_'' then drop 1 s else s)"
  have t: "successively apart t" "list_all key_char t" "t \<noteq> [] \<Longrightarrow> hd t \<noteq> CHR ''_''"
    using assms(1,2) unfolding t_def by (cases s; cases "tl s"; auto)+
  show ?thesis
  proof (cases "t \<noteq> [] \<and> last t = CHR ''_''")
    case True
    then have u: "strip_ends s = butlast t" by (simp add: strip_ends_def t_def Let_def)
    then have ne: "butlast t \<noteq> []" using assms(3) by simp
    have "butlast t @ [last t] = t" using append_butlast_last_id True by blast
    then have "apart (last (butlast t)) (last t)" using successively_last [of apart "butlast t" "last t"] t(1) ne by metis
    moreover have "hd (butlast t) = hd t" using ne by (cases t) auto
    moreover have "list_all key_char (butlast t)" using t(2) by (auto simp: list_all_iff dest: in_set_butlastD)
    ultimately show ?thesis using True t ne u by (auto simp: clean_key_def successively_butlast)
  next
    case False
    then have "strip_ends s = t" by (auto simp: strip_ends_def t_def Let_def)
    then show ?thesis using False t assms(3) by (auto simp: clean_key_def)
  qed
qed

lemma strip_id: "clean_key s \<Longrightarrow> strip_ends s = s"
  by (cases s) (auto simp: clean_key_def strip_ends_def)

lemma key_char_lower: "key_char c \<Longrightarrow> lower_char c = c"
  by (auto simp: key_char_def lower_char_def Let_def)

lemma key_char_underscore: "key_char (CHR ''_'')"
  by (simp add: key_char_def)

text \<open>
  The key of a generic entry always consists of small letters, digits and single underscores between
  them, and normalizing a key again does not change it.
\<close>

theorem safe_key_canonical: "clean_key (safe_key s) \<and> safe_key (safe_key s) = safe_key s"
proof -
  define q where "q = squeeze (map (\<lambda>c. if key_char c then c else CHR ''_'') (to_lower s))"
  have q: "successively apart q" "list_all key_char q"
    unfolding q_def by (rule squeeze_apart, rule squeeze_all) (auto simp: list_all_iff key_char_underscore)
  have unknown: "clean_key ''unknown''" by (simp add: clean_key_def key_char_def)
  have c: "clean_key (safe_key s)"
    using strip_clean [OF q] unknown by (auto simp: safe_key_def Let_def q_def)
  have "safe_key k = k" if "clean_key k" for k
  proof -
    have k: "list_all key_char k" "successively apart k" "k \<noteq> []" using that by (simp_all add: clean_key_def)
    then have "to_lower k = k" by (intro to_lower_id) (auto simp: list_all_iff key_char_lower)
    moreover have "map (\<lambda>c. if key_char c then c else CHR ''_'') k = k" using k(1) by (auto simp: list_all_iff intro: map_idI)
    ultimately show ?thesis using squeeze_id [OF k(2)] strip_id [OF that] k(3) by (simp add: safe_key_def Let_def)
  qed
  with c show ?thesis by blast
qed

end
