(* ===== verification/Inventory.thy ===== *)
theory Inventory
  imports Portfolio
begin

text \<open>
  The gold layer of \<open>packages/core/gold\<close>: saved searches, dashboards, detection coverage, quality signals
  and volumes as the engine consumes them. The regular expressions are written out as scanners that take
  the first match, continue behind it, and are greedy or not as the patterns are. What \<open>new Date\<close> makes of
  a text is an argument, as are the time and the calendar.
\<close>

section \<open>Scanning\<close>

text \<open>
  \<open>/word\s*=\s*"?([class]+)"?/\<close> at the head of a text: the captured word and what follows the match.
\<close>

definition skip_quote :: "string \<Rightarrow> string" where
  "skip_quote s = (if take 1 s = dquote then drop 1 s else s)"

definition assigned :: "string \<Rightarrow> (char \<Rightarrow> bool) \<Rightarrow> string \<Rightarrow> (string \<times> string) option" where
  "assigned word cls s =
     (if \<not> prefix word s then None
      else (case dropWhile is_space (drop (length word) s) of
              [] \<Rightarrow> None
            | c # r \<Rightarrow>
                (let t = skip_quote (dropWhile is_space r)
                 in if c \<noteq> CHR ''='' \<or> takeWhile cls t = [] then None
                    else Some (takeWhile cls t, skip_quote (dropWhile cls t)))))"

lemma length_skip_quote: "length (skip_quote s) \<le> length s"
  by (simp add: skip_quote_def)

lemma assigned_shorter: "assigned word cls s = Some (w, rest) \<Longrightarrow> length rest < length s"
proof -
  assume "assigned word cls s = Some (w, rest)"
  then obtain c r where r: "dropWhile is_space (drop (length word) s) = c # r"
    and rest: "rest = skip_quote (dropWhile cls (skip_quote (dropWhile is_space r)))"
    by (auto simp: assigned_def Let_def split: if_splits list.splits)
  have "length (c # r) \<le> length s" using r length_dropWhile_le [of is_space "drop (length word) s"] by simp
  moreover have "length rest \<le> length r"
    unfolding rest using length_skip_quote length_dropWhile_le by (meson le_trans)
  ultimately show ?thesis by simp
qed

function all_assigned :: "string \<Rightarrow> (char \<Rightarrow> bool) \<Rightarrow> string \<Rightarrow> string list" where
  "all_assigned word cls s =
     (case s of
        [] \<Rightarrow> []
      | c # t \<Rightarrow> (case assigned word cls s of Some (w, rest) \<Rightarrow> w # all_assigned word cls rest | None \<Rightarrow> all_assigned word cls t))"
  by pat_completeness auto
termination
  by (relation "measure (\<lambda>(_, _, s). length s)") (auto dest: assigned_shorter)

declare all_assigned.simps [simp del]

definition alnum :: "char \<Rightarrow> bool" where
  "alnum c = (let n = (of_char c :: nat) in 97 \<le> n \<and> n \<le> 122 \<or> 65 \<le> n \<and> n \<le> 90 \<or> 48 \<le> n \<and> n \<le> 57)"

definition index_char :: "char \<Rightarrow> bool" where
  "index_char c = (alnum c \<or> c \<in> set ''_-*'')"

definition sourcetype_char :: "char \<Rightarrow> bool" where
  "sourcetype_char c = (alnum c \<or> c \<in> set ''_-:'')"

definition extractIndexes :: "string \<Rightarrow> string list" where
  "extractIndexes searchString = filter (\<lambda>idx. idx \<noteq> ''*'') (uniq (all_assigned ''index'' index_char searchString))"

definition extractSourcetypes :: "string \<Rightarrow> string list" where
  "extractSourcetypes searchString = uniq (all_assigned ''sourcetype'' sourcetype_char searchString)"

section \<open>Saved searches\<close>

record inventory_env =
  ie_date :: "string \<Rightarrow> jsnum"
  ie_now :: jsnum
  ie_days_back :: "jsnum \<Rightarrow> jsnum \<Rightarrow> jsnum"

definition date_if :: "inventory_env \<Rightarrow> string option \<Rightarrow> jsnum option" where
  "date_if env s = (if or_default s [] = [] then None else Some (ie_date env (or_default s [])))"

record raw_search =
  rs_id :: string
  rs_title :: string
  rs_search :: string
  rs_updated :: "string option"
  rs_is_scheduled :: bool
  rs_is_alert :: bool
  rs_earliest :: "string option"

record saved_search =
  se_id :: string
  se_name :: string
  se_app :: string
  se_isScheduled :: bool
  se_isAlert :: bool
  se_schedule :: "string option"
  se_lastRun :: "jsnum option"
  se_indexes :: "string list"
  se_sourcetypes :: "string list"
  se_description :: string
  se_weight :: jsnum
  se_class :: string

definition classifySearch :: "raw_search \<Rightarrow> string" where
  "classifySearch s = (if rs_is_alert s then ''alert'' else if rs_is_scheduled s then ''dashboard'' else ''adhoc'')"

definition one_over :: "nat \<Rightarrow> jsnum" where
  "one_over n = jdiv (Fin 1) (Fin (of_nat (max n 1)))"

definition normalize_search :: "inventory_env \<Rightarrow> raw_search \<Rightarrow> saved_search" where
  "normalize_search env s =
     (let indexes = extractIndexes (rs_search s)
      in \<lparr>se_id = rs_id s, se_name = rs_title s, se_app = ''splunk'', se_isScheduled = rs_is_scheduled s, se_isAlert = rs_is_alert s,
          se_schedule = rs_earliest s, se_lastRun = date_if env (rs_updated s), se_indexes = indexes,
          se_sourcetypes = extractSourcetypes (rs_search s), se_description = classifySearch s @ '' - '' @ take 100 (rs_search s),
          se_weight = one_over (length indexes), se_class = classifySearch s\<rparr>)"

definition normalizeSavedSearches :: "inventory_env \<Rightarrow> raw_search list \<Rightarrow> saved_search list" where
  "normalizeSavedSearches env raw = map (normalize_search env) raw"

text \<open>The number and the weight that a list of items gives to each of the indexes they name.\<close>

definition add_share :: "nat \<Rightarrow> jsnum \<Rightarrow> (string, nat \<times> jsnum) jmap \<Rightarrow> string \<Rightarrow> (string, nat \<times> jsnum) jmap" where
  "add_share n w counts idx =
     (let (c, v) = (case jm_get counts idx of Some e \<Rightarrow> e | None \<Rightarrow> (0, Fin 0)) in jm_set idx (c + n, jadd v w) counts)"

definition aggregate_by :: "('a \<Rightarrow> string list) \<Rightarrow> ('a \<Rightarrow> nat) \<Rightarrow> ('a \<Rightarrow> jsnum) \<Rightarrow> 'a list \<Rightarrow> (string, nat \<times> jsnum) jmap" where
  "aggregate_by indexes number weight xs =
     foldl (\<lambda>counts x. foldl (add_share (number x) (weight x)) counts (indexes x)) [] xs"

definition aggregateSearchCountsByIndex :: "saved_search list \<Rightarrow> (string, nat \<times> jsnum) jmap" where
  "aggregateSearchCountsByIndex normalized = aggregate_by se_indexes (\<lambda>_. 1) se_weight normalized"

section \<open>Dashboards\<close>

record raw_dashboard =
  rd_id :: string
  rd_title :: string
  rd_app :: string
  rd_owner :: string
  rd_xml :: string
  rd_updated :: "string option"

record panel =
  pn_title :: string
  pn_indexes :: "string list"
  pn_sourcetypes :: "string list"

record dashboard =
  da_id :: string
  da_title :: string
  da_app :: string
  da_owner :: string
  da_panelCount :: nat
  da_lastModified :: jsnum
  da_indexes :: "string list"
  da_sourcetypes :: "string list"
  da_panels :: "panel list"
  da_weight :: jsnum

text \<open>The text before the first occurrence of a mark, and what follows it.\<close>

fun cut :: "string \<Rightarrow> string \<Rightarrow> (string \<times> string) option" where
  "cut mark [] = (if mark = [] then Some ([], []) else None)"
| "cut mark (c # s) =
     (if prefix mark (c # s) then Some ([], drop (length mark) (c # s))
      else map_option (\<lambda>(a, b). (c # a, b)) (cut mark s))"

lemma cut_shorter: "cut mark s = Some (a, b) \<Longrightarrow> length b \<le> length s"
  by (induction mark s arbitrary: a b rule: cut.induct) (fastforce split: if_splits)+

text \<open>All matches of \<open>/<tag>.*?<\/tag>/gs\<close>.\<close>

function elements :: "string \<Rightarrow> string \<Rightarrow> string \<Rightarrow> string list" where
  "elements opening closing s =
     (case s of
        [] \<Rightarrow> []
      | c # t \<Rightarrow>
          if opening \<noteq> [] \<and> prefix opening s
          then (case cut closing (drop (length opening) s) of
                  Some (body, rest) \<Rightarrow> (opening @ body @ closing) # elements opening closing rest
                | None \<Rightarrow> elements opening closing t)
          else elements opening closing t)"
  by pat_completeness auto
termination
  by (relation "measure (\<lambda>(_, _, s). length s)") (auto dest!: cut_shorter simp: neq_Nil_conv)

declare elements.simps [simp del]

text \<open>The first match of \<open>/<title>([^<]+)<\/title>/\<close>.\<close>

fun title_text :: "string \<Rightarrow> string option" where
  "title_text [] = None"
| "title_text (c # s) =
     (let r = drop 7 (c # s); w = takeWhile (\<lambda>d. d \<noteq> CHR ''<'') r
      in if prefix ''<title>'' (c # s) \<and> w \<noteq> [] \<and> prefix ''</title>'' (dropWhile (\<lambda>d. d \<noteq> CHR ''<'') r) then Some w
         else title_text s)"

definition extractPanelReferences :: "string \<Rightarrow> panel" where
  "extractPanelReferences panelXml =
     \<lparr>pn_title = (case title_text panelXml of Some t \<Rightarrow> t | None \<Rightarrow> ''Unnamed''), pn_indexes = extractIndexes panelXml,
      pn_sourcetypes = extractSourcetypes panelXml\<rparr>"

definition extractPanels :: "string \<Rightarrow> panel list" where
  "extractPanels dashboardXml =
     concat (map (\<lambda>row. map extractPanelReferences (elements ''<panel>'' ''</panel>'' row)) (elements ''<row>'' ''</row>'' dashboardXml))"

definition normalize_dashboard :: "inventory_env \<Rightarrow> raw_dashboard \<Rightarrow> dashboard" where
  "normalize_dashboard env d =
     (let panels = extractPanels (rd_xml d); allIndexes = uniq (concat (map pn_indexes panels))
      in \<lparr>da_id = rd_id d, da_title = rd_title d, da_app = rd_app d, da_owner = rd_owner d, da_panelCount = length panels,
          da_lastModified = given (date_if env (rd_updated d)) (ie_now env), da_indexes = allIndexes,
          da_sourcetypes = uniq (concat (map pn_sourcetypes panels)), da_panels = panels, da_weight = one_over (length allIndexes)\<rparr>)"

definition normalizeDashboards :: "inventory_env \<Rightarrow> raw_dashboard list \<Rightarrow> dashboard list" where
  "normalizeDashboards env raw = map (normalize_dashboard env) raw"

definition aggregatePanelCountsByIndex :: "dashboard list \<Rightarrow> (string, nat \<times> jsnum) jmap" where
  "aggregatePanelCountsByIndex normalized = aggregate_by da_indexes da_panelCount da_weight normalized"

section \<open>Detection coverage\<close>

record raw_mitre =
  rm_sourcetype :: string
  rm_techniques :: "string list"
  rm_activeAlerts :: jsnum

record raw_lantern =
  rl_sourcetype :: string
  rl_usecases :: "string list"

record detection_coverage =
  dc_index :: string
  dc_sourcetype :: "string option"
  dc_mitreTechniques :: "string list"
  dc_lanternUsecases :: "string list"
  dc_activeAlerts :: jsnum
  dc_coverage :: jsnum
  dc_source :: string

definition covered_share :: "nat \<Rightarrow> nat \<Rightarrow> jsnum" where
  "covered_share n most = jmul (jdiv (Fin (of_nat n)) (Fin (of_nat most))) (Fin 100)"

definition mapMitreCoverage :: "raw_mitre list \<Rightarrow> detection_coverage list" where
  "mapMitreCoverage raw = map (\<lambda>item.
     \<lparr>dc_index = rm_sourcetype item, dc_sourcetype = Some (rm_sourcetype item), dc_mitreTechniques = rm_techniques item,
      dc_lanternUsecases = [], dc_activeAlerts = rm_activeAlerts item, dc_coverage = covered_share (length (rm_techniques item)) 50,
      dc_source = ''mitre''\<rparr>) raw"

definition mapLanternCoverage :: "raw_lantern list \<Rightarrow> detection_coverage list" where
  "mapLanternCoverage raw = map (\<lambda>item.
     \<lparr>dc_index = rl_sourcetype item, dc_sourcetype = Some (rl_sourcetype item), dc_mitreTechniques = [],
      dc_lanternUsecases = rl_usecases item, dc_activeAlerts = Fin 0, dc_coverage = covered_share (length (rl_usecases item)) 10,
      dc_source = ''lantern''\<rparr>) raw"

definition coverage_key :: "detection_coverage \<Rightarrow> string" where
  "coverage_key c = or_default (dc_sourcetype c) []"

definition merge_one :: "(string, detection_coverage) jmap \<Rightarrow> detection_coverage \<Rightarrow> (string, detection_coverage) jmap" where
  "merge_one merged c =
     (case jm_get merged (coverage_key c) of
        Some e \<Rightarrow> jm_set (coverage_key c)
          (e\<lparr>dc_lanternUsecases := dc_lanternUsecases c, dc_coverage := jmax (dc_coverage e) (dc_coverage c)\<rparr>) merged
      | None \<Rightarrow> jm_set (coverage_key c) c merged)"

definition mergeDetectionCoverage :: "detection_coverage list \<Rightarrow> detection_coverage list \<Rightarrow> (string, detection_coverage) jmap" where
  "mergeDetectionCoverage mitre lantern =
     foldl merge_one (foldl (\<lambda>m c. jm_set (coverage_key c) c m) [] mitre) lantern"

definition has_gap :: "detection_coverage \<Rightarrow> bool" where
  "has_gap item =
     (let n = length (dc_mitreTechniques item)
      in 15 \<le> n \<and> jlt (dc_activeAlerts item) (jmax (jmul (Fin (of_nat n)) (Fin (1 / 4))) (Fin 1)))"

definition calculateDetectionGaps :: "detection_coverage list \<Rightarrow> (string, bool) jmap" where
  "calculateDetectionGaps coverage = foldl (\<lambda>m c. jm_set (coverage_key c) (has_gap c) m) [] coverage"

section \<open>Quality signals\<close>

record parsing_event =
  pe_sourcetype :: string
  pe_component :: string
  pe_count :: jsnum
  pe_timestamp :: "string option"

record quality_signals =
  qs_index :: string
  qs_sourcetype :: "string option"
  qs_parseErrorRate :: jsnum
  qs_weightedIssues :: jsnum
  qs_qualityScore :: jsnum
  qs_lastAssessment :: jsnum
  qs_rawComponents :: nat

definition PARSING_COMPONENT_WEIGHTS :: "(string \<times> jsnum) list" where
  "PARSING_COMPONENT_WEIGHTS = [(''DateParserVerbose'', Fin (1 / 2)), (''DateParser'', Fin 1), (''XMLParser'', Fin 1),
     (''JSONParser'', Fin 1), (''CSVParser'', Fin 1), (''SyslogParser'', Fin 1)]"

text \<open>The names that every object inherits; what they hold is not a number, as a factor it is NaN.\<close>

definition object_members :: "string list" where
  "object_members = [''constructor'', ''toString'', ''toLocaleString'', ''valueOf'', ''hasOwnProperty'', ''isPrototypeOf'',
     ''propertyIsEnumerable'', ''__proto__'', ''__defineGetter__'', ''__defineSetter__'', ''__lookupGetter__'', ''__lookupSetter__'']"

definition getComponentWeight :: "string \<Rightarrow> jsnum" where
  "getComponentWeight component =
     (case map_of PARSING_COMPONENT_WEIGHTS component of
        Some w \<Rightarrow> w
      | None \<Rightarrow> if component \<in> set object_members then NaN else Fin 1)"

definition add_event :: "inventory_env \<Rightarrow> (string, jsnum \<times> jsnum) jmap \<Rightarrow> parsing_event \<Rightarrow> (string, jsnum \<times> jsnum) jmap" where
  "add_event env m e =
     (let (weighted, assessed) = (case jm_get m (pe_sourcetype e) of Some c \<Rightarrow> c | None \<Rightarrow> (Fin 0, ie_now env))
      in jm_set (pe_sourcetype e)
           (jadd weighted (jmul (pe_count e) (getComponentWeight (pe_component e))), given (date_if env (pe_timestamp e)) assessed) m)"

definition mapQualitySignals :: "inventory_env \<Rightarrow> parsing_event list \<Rightarrow> quality_signals list" where
  "mapQualitySignals env raw =
     map (\<lambda>(sourcetype, weighted, assessed).
       \<lparr>qs_index = sourcetype, qs_sourcetype = Some sourcetype, qs_parseErrorRate = weighted, qs_weightedIssues = weighted,
        qs_qualityScore = Fin 0, qs_lastAssessment = assessed,
        qs_rawComponents = length (filter (\<lambda>e. pe_sourcetype e = sourcetype) raw)\<rparr>)
       (foldl (add_event env) [] raw)"

definition worse_first :: "quality_signals \<Rightarrow> quality_signals \<Rightarrow> bool" where
  "worse_first a b = jlt (jsub (qs_qualityScore a) (qs_qualityScore b)) (Fin 0)"

record quality_metrics =
  qm_totalWeightedIssues :: jsnum
  qm_avgQualityScore :: jsnum
  qm_problematic :: "string list"

definition aggregateQualityMetrics :: "quality_signals list \<Rightarrow> quality_metrics" where
  "aggregateQualityMetrics signals =
     \<lparr>qm_totalWeightedIssues = jsum (map qs_weightedIssues signals),
      qm_avgQualityScore = (if signals \<noteq> [] then jdiv (jsum (map qs_qualityScore signals)) (Fin (of_nat (length signals))) else Fin 100),
      qm_problematic = take 10 (map (\<lambda>s. or_default (qs_sourcetype s) ''unknown'')
        (sort_by worse_first (filter (\<lambda>s. jlt (qs_qualityScore s) (Fin 70)) signals)))\<rparr>"

definition identifyQualityHotspots :: "quality_signals list \<Rightarrow> quality_signals list" where
  "identifyQualityHotspots signals =
     sort_by worse_first (filter (\<lambda>s. jlt (qs_qualityScore s) (Fin 70) \<or> jlt (Fin 100) (qs_weightedIssues s)) signals)"

section \<open>Volumes\<close>

record index_metrics =
  im_index :: string
  im_sourcetype :: "string option"
  im_dailyAvgGb :: jsnum
  im_totalEvents :: jsnum
  im_retentionDays :: jsnum
  im_firstEvent :: "string option"
  im_lastEvent :: "string option"

record volume_snapshot =
  vs_snapshotId :: string
  vs_snapshotDate :: jsnum
  vs_index :: string
  vs_sourcetype :: "string option"
  vs_dailyAvgGb :: jsnum
  vs_totalEvents :: jsnum
  vs_retentionDays :: jsnum
  vs_firstEvent :: "jsnum option"
  vs_lastEvent :: "jsnum option"
  vs_costPerGbPerDay :: jsnum
  vs_annualCostUsd :: jsnum
  vs_isActive :: bool
  vs_daysOfHistory :: jsnum

definition calculateDaysOfHistory :: "inventory_env \<Rightarrow> index_metrics \<Rightarrow> jsnum" where
  "calculateDaysOfHistory env raw =
     (case (date_if env (im_firstEvent raw), date_if env (im_lastEvent raw)) of
        (Some t0, Some t1) \<Rightarrow> jmin (jmax (jdiv (jsub t1 t0) (Fin 86400000)) (Fin 0)) (im_retentionDays raw)
      | _ \<Rightarrow> im_retentionDays raw)"

definition buildTelemetrySnapshot :: "inventory_env \<Rightarrow> index_metrics \<Rightarrow> string \<Rightarrow> jsnum \<Rightarrow> jsnum \<Rightarrow> volume_snapshot" where
  "buildTelemetrySnapshot env raw snapshotId snapshotDate costPerGbPerDay =
     (let dailyGb = jmax (im_dailyAvgGb raw) (Fin 0)
      in \<lparr>vs_snapshotId = snapshotId, vs_snapshotDate = snapshotDate, vs_index = im_index raw, vs_sourcetype = im_sourcetype raw,
          vs_dailyAvgGb = dailyGb, vs_totalEvents = jmax (im_totalEvents raw) (Fin 0),
          vs_retentionDays = jmax (im_retentionDays raw) (Fin 0), vs_firstEvent = date_if env (im_firstEvent raw),
          vs_lastEvent = date_if env (im_lastEvent raw), vs_costPerGbPerDay = costPerGbPerDay,
          vs_annualCostUsd = jmul (jmul dailyGb (Fin 365)) costPerGbPerDay,
          vs_isActive = (case date_if env (im_lastEvent raw) of
              Some t \<Rightarrow> jlt (jsub (ie_now env) (Fin 2592000000)) t
            | None \<Rightarrow> False),
          vs_daysOfHistory = calculateDaysOfHistory env raw\<rparr>)"

definition buildTelemetrySnapshots :: "inventory_env \<Rightarrow> index_metrics list \<Rightarrow> string \<Rightarrow> jsnum \<Rightarrow> jsnum \<Rightarrow> volume_snapshot list" where
  "buildTelemetrySnapshots env raw snapshotId snapshotDate costPerGbPerDay =
     map (\<lambda>m. buildTelemetrySnapshot env m snapshotId snapshotDate costPerGbPerDay) raw"

record portfolio_metrics =
  pm_totalDailyGb :: jsnum
  pm_totalAnnualCostUsd :: jsnum
  pm_avgRetentionDays :: jsnum
  pm_activeIndexCount :: nat
  pm_totalEvents :: jsnum

definition calculatePortfolioMetrics :: "volume_snapshot list \<Rightarrow> portfolio_metrics" where
  "calculatePortfolioMetrics snapshots =
     \<lparr>pm_totalDailyGb = jsum (map vs_dailyAvgGb snapshots), pm_totalAnnualCostUsd = jsum (map vs_annualCostUsd snapshots),
      pm_avgRetentionDays =
        (if snapshots \<noteq> [] then jdiv (jsum (map vs_retentionDays snapshots)) (Fin (of_nat (length snapshots))) else Fin 0),
      pm_activeIndexCount = length (filter vs_isActive snapshots), pm_totalEvents = jsum (map vs_totalEvents snapshots)\<rparr>"

definition dearer_first :: "volume_snapshot \<Rightarrow> volume_snapshot \<Rightarrow> bool" where
  "dearer_first a b = jlt (jsub (vs_annualCostUsd b) (vs_annualCostUsd a)) (Fin 0)"

text \<open>The list of the caller is sorted in place: it is the second result.\<close>

definition identifyHighCostIndexes :: "volume_snapshot list \<Rightarrow> nat \<Rightarrow> volume_snapshot list \<times> volume_snapshot list" where
  "identifyHighCostIndexes snapshots topN = (let sorted = sort_by dearer_first snapshots in (take topN sorted, sorted))"

definition identifyStaleIndexes :: "inventory_env \<Rightarrow> volume_snapshot list \<Rightarrow> jsnum \<Rightarrow> volume_snapshot list" where
  "identifyStaleIndexes env snapshots daysSinceLastEvent =
     (let cutoff = ie_days_back env (ie_now env) daysSinceLastEvent
      in filter (\<lambda>s. case vs_lastEvent s of Some t \<Rightarrow> jlt t cutoff | None \<Rightarrow> False) snapshots)"

section \<open>Laws of the attribution\<close>

lemma add_share_get:
  "jm_get (add_share n w counts idx) k =
     (if k = idx then (case jm_get counts idx of Some (c, v) \<Rightarrow> Some (c + n, jadd v w) | None \<Rightarrow> Some (n, jadd (Fin 0) w))
      else jm_get counts k)"
  by (auto simp: add_share_def update_conv' split: option.split)

lemma add_shares_get:
  assumes "distinct idxs"
  shows "jm_get (foldl (add_share n w) counts idxs) k =
    (if k \<in> set idxs then (case jm_get counts k of Some (c, v) \<Rightarrow> Some (c + n, jadd v w) | None \<Rightarrow> Some (n, jadd (Fin 0) w))
     else jm_get counts k)"
  using assms
proof (induction idxs arbitrary: counts)
  case (Cons i idxs)
  then show ?case by (auto simp: add_share_get)
qed simp

text \<open>For items that name each index once: how many and how much an index gets.\<close>

lemma aggregate_get:
  assumes "list_all (distinct \<circ> indexes) xs"
  shows "jm_get (aggregate_by indexes number weight xs) k =
    (let ys = filter (\<lambda>x. k \<in> set (indexes x)) xs
     in if ys = [] then None else Some (sum_list (map number ys), jsum (map weight ys)))"
  using assms
proof (induction xs rule: rev_induct)
  case (snoc x xs)
  then have ih: "jm_get (aggregate_by indexes number weight xs) k =
    (let ys = filter (\<lambda>x. k \<in> set (indexes x)) xs
     in if ys = [] then None else Some (sum_list (map number ys), jsum (map weight ys)))" and d: "distinct (indexes x)" by simp_all
  have "aggregate_by indexes number weight (xs @ [x]) = foldl (add_share (number x) (weight x)) (aggregate_by indexes number weight xs) (indexes x)"
    by (simp add: aggregate_by_def)
  then show ?case using ih add_shares_get [OF d] by (auto simp: Let_def jsum_def)
qed (simp add: aggregate_by_def)

lemma one_over_range: "in_range 0 1 (one_over n)"
  unfolding one_over_def by (rule in_range_div_unit) auto

definition referencing :: "string \<Rightarrow> raw_search list \<Rightarrow> raw_search list" where
  "referencing idx raw = filter (\<lambda>s. idx \<in> set (extractIndexes (rs_search s))) raw"

lemma search_attribution_law:
  "jm_get (aggregateSearchCountsByIndex (normalizeSavedSearches env raw)) idx =
     (let ss = referencing idx raw
      in if ss = [] then None
         else Some (length ss, jsum (map (\<lambda>s. one_over (length (extractIndexes (rs_search s)))) ss)))"
proof -
  have "list_all (distinct \<circ> se_indexes) (normalizeSavedSearches env raw)"
    by (simp add: normalizeSavedSearches_def normalize_search_def list_all_iff extractIndexes_def Let_def)
  from aggregate_get [OF this, of "\<lambda>_. 1" se_weight idx] show ?thesis
    unfolding aggregateSearchCountsByIndex_def
    by (simp add: normalizeSavedSearches_def filter_map comp_def normalize_search_def referencing_def Let_def sum_list_triv)
qed

text \<open>
  An index is counted once for every saved search that names it, however often, and each of those
  searches gives it one over the number of indexes it names; an index no search names has no entry.
\<close>

theorem search_attribution:
  "jm_get (aggregateSearchCountsByIndex (normalizeSavedSearches env raw)) idx =
     (let ss = referencing idx raw
      in if ss = [] then None
         else Some (length ss, jsum (map (\<lambda>s. one_over (length (extractIndexes (rs_search s)))) ss)))"
  by (rule search_attribution_law)

section \<open>Laws of the scanners\<close>

text \<open>A word that a search assigns: it stands behind the keyword, an equals sign and perhaps a quote.\<close>

definition assigns :: "string \<Rightarrow> (char \<Rightarrow> bool) \<Rightarrow> string \<Rightarrow> string \<Rightarrow> bool" where
  "assigns word cls s w =
     (w \<noteq> [] \<and> list_all cls w \<and>
      (\<exists>pre ws1 ws2 q post. s = pre @ word @ ws1 @ ''='' @ ws2 @ q @ w @ post \<and> list_all is_space ws1 \<and> list_all is_space ws2 \<and>
         q \<in> {[], dquote}))"

lemma assigns_prefix: "assigns word cls s w \<Longrightarrow> assigns word cls (a @ s) w"
  by (simp add: assigns_def) (metis append.assoc)

lemma skip_quote_cases: "\<exists>q. q \<in> {[], dquote} \<and> s = q @ skip_quote s"
  by (auto simp: skip_quote_def) (metis append_take_drop_id)

lemma assigned_sound:
  assumes "assigned word cls s = Some (w, rest)"
  shows "assigns word cls s w \<and> (\<exists>a. s = a @ rest)"
proof -
  obtain c r where r: "dropWhile is_space (drop (length word) s) = c # r" and c: "c = CHR ''=''" and p: "prefix word s"
    and w: "w = takeWhile cls (skip_quote (dropWhile is_space r))" "w \<noteq> []"
    and rest: "rest = skip_quote (dropWhile cls (skip_quote (dropWhile is_space r)))"
    using assms by (auto simp: assigned_def Let_def split: if_splits list.splits)
  define ws1 where "ws1 = takeWhile is_space (drop (length word) s)"
  define ws2 where "ws2 = takeWhile is_space r"
  have s: "s = word @ ws1 @ ''='' @ r"
    using p r c takeWhile_dropWhile_id [of is_space "drop (length word) s"] by (auto simp: ws1_def prefix_def)
  have r2: "r = ws2 @ dropWhile is_space r" by (simp add: ws2_def)
  obtain q where q: "q \<in> {[], dquote}" "dropWhile is_space r = q @ skip_quote (dropWhile is_space r)"
    using skip_quote_cases by blast
  obtain q' where q': "dropWhile cls (skip_quote (dropWhile is_space r)) = q' @ rest"
    using skip_quote_cases [of "dropWhile cls (skip_quote (dropWhile is_space r))"] rest by blast
  have t: "skip_quote (dropWhile is_space r) = w @ q' @ rest"
    using takeWhile_dropWhile_id [of cls "skip_quote (dropWhile is_space r)"] w(1) q' by simp
  have all: "s = word @ ws1 @ ''='' @ ws2 @ q @ w @ q' @ rest" using s r2 q(2) t by simp
  have "list_all is_space ws1" "list_all is_space ws2" "list_all cls w"
    by (auto simp: ws1_def ws2_def w(1) list_all_iff dest: set_takeWhileD)
  then have "assigns word cls s w"
    using all q(1) w(2) unfolding assigns_def
    by (intro conjI exI [of _ "[]"] exI [of _ ws1] exI [of _ ws2] exI [of _ q] exI [of _ "q' @ rest"]) simp_all
  moreover have "s = (word @ ws1 @ ''='' @ ws2 @ q @ w @ q') @ rest" using all by simp
  ultimately show ?thesis by blast
qed

lemma all_assigned_sound: "w \<in> set (all_assigned word cls s) \<Longrightarrow> assigns word cls s w"
proof (induction word cls s rule: all_assigned.induct)
  case (1 word cls s)
  show ?case
  proof (cases s)
    case Nil
    then show ?thesis using 1(3) by (simp add: all_assigned.simps)
  next
    case (Cons c t)
    show ?thesis
    proof (cases "assigned word cls s")
      case None
      then have "all_assigned word cls s = all_assigned word cls t" by (subst all_assigned.simps) (simp add: Cons)
      then have "w \<in> set (all_assigned word cls t)" using 1(3) by simp
      then have "assigns word cls t w" by (rule 1(1) [OF Cons None])
      then show ?thesis using assigns_prefix [of word cls t w "[c]"] Cons by simp
    next
      case (Some x)
      obtain v rest where x: "x = (v, rest)" by (cases x)
      have "all_assigned word cls s = v # all_assigned word cls rest" using Some by (subst all_assigned.simps) (simp add: Cons x)
      then have "w = v \<or> w \<in> set (all_assigned word cls rest)" using 1(3) by simp
      moreover have "assigns word cls s w" if "w \<in> set (all_assigned word cls rest)"
      proof -
        have "assigns word cls rest w" by (rule 1(2) [OF Cons Some x [symmetric] that])
        moreover obtain a where "s = a @ rest" using assigned_sound [OF Some [unfolded x]] by blast
        ultimately show ?thesis by (simp only: assigns_prefix)
      qed
      ultimately show ?thesis using assigned_sound [OF Some [unfolded x]] by blast
    qed
  qed
qed

text \<open>
  Every index drawn from a search stands in it behind \<open>index =\<close>, is a word of the allowed letters,
  is not the bare wildcard, and is listed once.
\<close>

theorem extracted_indexes_occur:
  assumes "w \<in> set (extractIndexes s)"
  shows "assigns ''index'' index_char s w \<and> w \<noteq> ''*'' \<and> distinct (extractIndexes s)"
  using assms all_assigned_sound by (auto simp: extractIndexes_def)

lemma extracted_indexes_occur_witness:
  "extractIndexes ''index=web OR index = main | stats index=*'' = [''web'', ''main''] \<and>
   assigns ''index'' index_char ''index=web OR index = main | stats index=*'' ''main''"
proof -
  have e: "extractIndexes ''index=web OR index = main | stats index=*'' = [''web'', ''main'']" by code_simp
  then have "''main'' \<in> set (extractIndexes ''index=web OR index = main | stats index=*'')" by simp
  from conjunct1 [OF extracted_indexes_occur [OF this]] e show ?thesis by blast
qed

section \<open>Laws of the coverage and the quality signals\<close>

definition add_lantern :: "detection_coverage \<Rightarrow> detection_coverage \<Rightarrow> detection_coverage" where
  "add_lantern e c = e\<lparr>dc_lanternUsecases := dc_lanternUsecases c, dc_coverage := jmax (dc_coverage e) (dc_coverage c)\<rparr>"

definition keyed :: "string \<Rightarrow> detection_coverage list \<Rightarrow> detection_coverage list" where
  "keyed k cs = filter (\<lambda>c. coverage_key c = k) cs"

lemma mitre_get: "jm_get (foldl (\<lambda>m c. jm_set (coverage_key c) c m) [] cs) k = (if keyed k cs = [] then None else Some (last (keyed k cs)))"
  by (induction cs rule: rev_induct) (auto simp: keyed_def update_conv')

lemma merge_one_get:
  "jm_get (merge_one m c) k =
     (if k = coverage_key c then Some (case jm_get m k of Some e \<Rightarrow> add_lantern e c | None \<Rightarrow> c) else jm_get m k)"
  by (auto simp: merge_one_def add_lantern_def update_conv' split: option.split)

lemma lantern_get:
  "jm_get (foldl merge_one m cs) k =
     (case jm_get m k of
        Some e \<Rightarrow> Some (foldl add_lantern e (keyed k cs))
      | None \<Rightarrow> (case keyed k cs of [] \<Rightarrow> None | c # rest \<Rightarrow> Some (foldl add_lantern c rest)))"
  by (induction cs arbitrary: m) (auto simp: keyed_def merge_one_get split: option.split list.split)

lemma add_lantern_keeps:
  "dc_mitreTechniques (foldl add_lantern e cs) = dc_mitreTechniques e \<and> dc_activeAlerts (foldl add_lantern e cs) = dc_activeAlerts e"
  by (induction cs arbitrary: e) (simp_all add: add_lantern_def)

text \<open>
  The merged coverage of a source type is its last MITRE entry with the use cases of its last Lantern
  entry and the largest of the percentages, or its first Lantern entry when MITRE has none; the techniques
  and alerts of MITRE are never overwritten.
\<close>

theorem merged_coverage:
  "jm_get (mergeDetectionCoverage mitre lantern) k =
     (case (keyed k mitre, keyed k lantern) of
        ([], []) \<Rightarrow> None
      | ([], c # rest) \<Rightarrow> Some (foldl add_lantern c rest)
      | (m # ms, ls) \<Rightarrow> Some (foldl add_lantern (last (m # ms)) ls))"
  by (auto simp: mergeDetectionCoverage_def lantern_get mitre_get split: list.split)

lemma sort_by_none: "\<forall>x\<in>set xs. \<forall>y\<in>set xs. \<not> before x y \<Longrightarrow> sort_by before xs = xs"
proof (induction xs)
  case (Cons x xs)
  then have "sort_by before xs = xs" by simp
  then show ?case using Cons.prems by (cases xs) auto
qed simp

text \<open>
  The mapper leaves every quality score at zero, so what is read from its signals is the same for all
  of them: each is a hot spot, in the order found, and the average score is zero.
\<close>

theorem every_source_is_hotspot:
  "identifyQualityHotspots (mapQualitySignals env raw) = mapQualitySignals env raw \<and>
   length (qm_problematic (aggregateQualityMetrics (mapQualitySignals env raw))) = min 10 (length (mapQualitySignals env raw)) \<and>
   qm_avgQualityScore (aggregateQualityMetrics (mapQualitySignals env raw)) = (if mapQualitySignals env raw = [] then Fin 100 else Fin 0)"
proof -
  define ss where "ss = mapQualitySignals env raw"
  have z: "qs_qualityScore q = Fin 0" if "q \<in> set ss" for q
    using that by (auto simp: ss_def mapQualitySignals_def split: prod.splits)
  have f: "filter (\<lambda>q. jlt (qs_qualityScore q) (Fin 70)) ss = ss"
    "filter (\<lambda>q. jlt (qs_qualityScore q) (Fin 70) \<or> jlt (Fin 100) (qs_weightedIssues q)) ss = ss"
    using z by (simp_all add: filter_id_conv)
  have "sort_by worse_first ss = ss" using z by (intro sort_by_none) (simp add: worse_first_def jsub_def)
  moreover have "jsum (map qs_qualityScore ss) = Fin 0"
  proof -
    have "jsum (map qs_qualityScore xs) = Fin 0" if "set xs \<subseteq> set ss" for xs
      using that z by (induction xs rule: rev_induct) (simp_all add: jsum_def)
    then show ?thesis by blast
  qed
  ultimately show ?thesis
    unfolding ss_def [symmetric] identifyQualityHotspots_def aggregateQualityMetrics_def using f by (simp add: min.commute)
qed

end
