(* ===== verification/Tokens.thy ===== *)
theory Tokens
  imports JsValue
begin

text \<open>
  Sessions, \<open>apps/api/services/token-service.ts\<close>, over the tables \<open>refresh_tokens\<close>,
  \<open>refresh_token_audit_log\<close> and \<open>users\<close>. Signing and verifying a token is a library and the secrets are
  configuration; both are arguments, as are the time, the random texts and the outcome of every query.
  Times are milliseconds.
\<close>

section \<open>Tokens and tables\<close>

type_synonym claims = "(string \<times> js) list"

record token_env =
  te_sign :: "string \<Rightarrow> claims \<Rightarrow> int \<Rightarrow> int \<Rightarrow> string"
  te_verify :: "string \<Rightarrow> int \<Rightarrow> string \<Rightarrow> string + claims"
  te_access_secret :: string
  te_refresh_secret :: string

definition ACCESS_TOKEN_SECONDS :: int where "ACCESS_TOKEN_SECONDS = 15 * 60"
definition REFRESH_TOKEN_EXPIRY :: int where "REFRESH_TOKEN_EXPIRY = 7 * 24 * 60 * 60"
definition MAX_SESSION_LIFETIME :: int where "MAX_SESSION_LIFETIME = 30 * 24 * 60 * 60 * 1000"

record token_row =
  tr_id :: string
  tr_user :: string
  tr_tenant :: string
  tr_family :: string
  tr_nonce :: string
  tr_expires :: int
  tr_revoked :: bool
  tr_reuse :: bool
  tr_rotations :: nat
  tr_family_created :: int
  tr_created :: int

record token_audit =
  ta_user :: string
  ta_tenant :: string
  ta_action :: string
  ta_token_id :: string
  ta_reason :: string

record user_row =
  ur_id :: string
  ur_tenant :: string
  ur_email :: string
  ur_role :: string

record token_state =
  ts_tokens :: "token_row list"
  ts_audit :: "token_audit list"
  ts_users :: "user_row list"

record token_pair =
  tp_access :: string
  tp_refresh :: string
  tp_accessExpires :: int
  tp_refreshExpires :: int

record token_info =
  ti_access :: string
  ti_accessExpires :: int

definition access_claims :: "string \<Rightarrow> string \<Rightarrow> string \<Rightarrow> string \<Rightarrow> claims" where
  "access_claims userId tenantId email role =
     [(''user_id'', Str userId), (''tenant_id'', Str tenantId), (''email'', Str email), (''role'', Str role)]"

definition refresh_claims :: "string \<Rightarrow> string \<Rightarrow> string \<Rightarrow> string \<Rightarrow> claims" where
  "refresh_claims refreshTokenId userId tenantId nonce =
     [(''refreshTokenId'', Str refreshTokenId), (''userId'', Str userId), (''tenantId'', Str tenantId), (''nonce'', Str nonce)]"

text \<open>The random id and nonce of a token, and the family the table makes up for the row.\<close>

record token_fresh =
  tf_id :: string
  tf_nonce :: string
  tf_family :: string

definition issueTokenPair ::
  "token_env \<Rightarrow> bool \<Rightarrow> int \<Rightarrow> token_fresh \<Rightarrow> user_row \<Rightarrow> token_state \<Rightarrow> token_state \<times> (string + token_pair)" where
  "issueTokenPair env db_ok now fresh user s =
     (let accessToken = te_sign env (te_access_secret env)
            (access_claims (ur_id user) (ur_tenant user) (ur_email user) (ur_role user)) now ACCESS_TOKEN_SECONDS;
          refreshToken = te_sign env (te_refresh_secret env)
            (refresh_claims (tf_id fresh) (ur_id user) (ur_tenant user) (tf_nonce fresh)) now REFRESH_TOKEN_EXPIRY;
          refreshExpiresAt = now + REFRESH_TOKEN_EXPIRY * 1000;
          row = \<lparr>tr_id = tf_id fresh, tr_user = ur_id user, tr_tenant = ur_tenant user, tr_family = tf_family fresh,
                 tr_nonce = tf_nonce fresh, tr_expires = refreshExpiresAt, tr_revoked = False, tr_reuse = False, tr_rotations = 0,
                 tr_family_created = now, tr_created = now\<rparr>
      in if \<not> db_ok \<or> tf_id fresh \<in> tr_id ` set (ts_tokens s) then (s, Inl ''insert failed'')
         else (s\<lparr>ts_tokens := ts_tokens s @ [row]\<rparr>,
               Inr \<lparr>tp_access = accessToken, tp_refresh = refreshToken, tp_accessExpires = now + 15 * 60 * 1000,
                    tp_refreshExpires = refreshExpiresAt\<rparr>))"

section \<open>Refreshing\<close>

record refresh_queries =
  rq_select :: bool
  rq_audit :: bool
  rq_revoke :: bool
  rq_user :: bool

definition refresh_failed :: "string \<Rightarrow> string" where
  "refresh_failed m = ''TOKEN_REFRESH_FAILED: '' @ m"

definition REUSE_MESSAGE :: string where
  "REUSE_MESSAGE = ''TOKEN_REUSE_DETECTED: Refresh token has already been rotated. Entire session family has been revoked for security. Please log in again.''"

definition SESSION_MESSAGE :: string where
  "SESSION_MESSAGE = ''SESSION_MAX_LIFETIME_EXCEEDED: Session is too old, re-authentication required''"

definition names_row :: "claims \<Rightarrow> token_row \<Rightarrow> bool" where
  "names_row decoded r =
     (js_get decoded ''refreshTokenId'' = Str (tr_id r) \<and> js_get decoded ''userId'' = Str (tr_user r) \<and>
      js_get decoded ''tenantId'' = Str (tr_tenant r))"

definition log_action :: "token_row \<Rightarrow> string \<Rightarrow> string \<Rightarrow> token_state \<Rightarrow> token_state" where
  "log_action r action reason s =
     s\<lparr>ts_audit := ts_audit s @ [\<lparr>ta_user = tr_user r, ta_tenant = tr_tenant r, ta_action = action, ta_token_id = tr_id r, ta_reason = reason\<rparr>]\<rparr>"

definition revoke_family :: "string \<Rightarrow> token_state \<Rightarrow> token_state" where
  "revoke_family family s =
     s\<lparr>ts_tokens := map (\<lambda>r. if tr_family r = family \<and> \<not> tr_revoked r then r\<lparr>tr_revoked := True, tr_reuse := True\<rparr> else r) (ts_tokens s)\<rparr>"

text \<open>A stored token that is in order, then the user, the new access token and the log entry.\<close>

definition accept_refresh ::
  "token_env \<Rightarrow> refresh_queries \<Rightarrow> int \<Rightarrow> token_row \<Rightarrow> token_state \<Rightarrow> token_state \<times> (string + token_info)" where
  "accept_refresh env q now stored s =
     (if \<not> rq_user q then (s, Inl ''query failed'')
      else (case find (\<lambda>u. ur_id u = tr_user stored \<and> ur_tenant u = tr_tenant stored) (ts_users s) of
              None \<Rightarrow> (s, Inl ''USER_NOT_FOUND: User no longer exists'')
            | Some user \<Rightarrow>
                (let newAccessToken = te_sign env (te_access_secret env)
                       (access_claims (tr_user stored) (tr_tenant stored) (ur_email user) (ur_role user)) now ACCESS_TOKEN_SECONDS
                 in if \<not> rq_audit q then (s, Inl ''query failed'')
                    else (log_action stored ''ROTATED'' ''Token refresh accepted'' s,
                          Inr \<lparr>ti_access = newAccessToken, ti_accessExpires = now + 15 * 60 * 1000\<rparr>))))"

definition refresh_body ::
  "token_env \<Rightarrow> refresh_queries \<Rightarrow> int \<Rightarrow> string \<Rightarrow> token_state \<Rightarrow> token_state \<times> (string + token_info)" where
  "refresh_body env q now refreshToken s =
     (case te_verify env (te_refresh_secret env) now refreshToken of
        Inl e \<Rightarrow> (s, Inl e)
      | Inr decoded \<Rightarrow>
          if \<not> rq_select q then (s, Inl ''query failed'')
          else (case find (names_row decoded) (ts_tokens s) of
                  None \<Rightarrow> (s, Inl ''TOKEN_NOT_FOUND: Refresh token does not exist in database'')
                | Some stored \<Rightarrow>
                    if Str (tr_nonce stored) \<noteq> js_get decoded ''nonce''
                    then (if \<not> rq_audit q then (s, Inl ''query failed'')
                          else (let s1 = log_action stored ''REUSE_DETECTED'' ''Nonce mismatch: token appears to have been rotated already'' s
                                in if \<not> rq_revoke q then (s1, Inl ''query failed'') else (revoke_family (tr_family stored) s1, Inl REUSE_MESSAGE)))
                    else if tr_revoked stored \<or> tr_reuse stored
                    then (s, Inl ''TOKEN_REVOKED_OR_COMPROMISED: This token family has been revoked'')
                    else if MAX_SESSION_LIFETIME < now - tr_family_created stored then (s, Inl SESSION_MESSAGE)
                    else if tr_expires stored \<le> now then (s, Inl ''TOKEN_EXPIRED: Refresh token has expired'')
                    else accept_refresh env q now stored s))"

definition refreshAccessToken ::
  "token_env \<Rightarrow> refresh_queries \<Rightarrow> int \<Rightarrow> string \<Rightarrow> token_state \<Rightarrow> token_state \<times> (string + token_info)" where
  "refreshAccessToken env q now refreshToken s =
     (case refresh_body env q now refreshToken s of
        (s', Inl e) \<Rightarrow> (s', Inl (refresh_failed e))
      | (s', Inr i) \<Rightarrow> (s', Inr i))"

section \<open>Access and revocation\<close>

definition verifyAccessToken :: "token_env \<Rightarrow> int \<Rightarrow> string \<Rightarrow> string + claims" where
  "verifyAccessToken env now accessToken =
     (case te_verify env (te_access_secret env) now accessToken of
        Inl e \<Rightarrow> Inl (''Access token verification failed: '' @ e)
      | Inr decoded \<Rightarrow> Inr decoded)"

definition revoke_where :: "(token_row \<Rightarrow> bool) \<Rightarrow> token_state \<Rightarrow> token_state" where
  "revoke_where P s = s\<lparr>ts_tokens := map (\<lambda>r. if P r then r\<lparr>tr_revoked := True\<rparr> else r) (ts_tokens s)\<rparr>"

text \<open>A token that does not verify and a failed query are only reported on the console.\<close>

definition revokeRefreshToken :: "token_env \<Rightarrow> bool \<Rightarrow> int \<Rightarrow> string \<Rightarrow> token_state \<Rightarrow> token_state" where
  "revokeRefreshToken env db_ok now refreshToken s =
     (case te_verify env (te_refresh_secret env) now refreshToken of
        Inl e \<Rightarrow> s
      | Inr decoded \<Rightarrow> if db_ok then revoke_where (names_row decoded) s else s)"

definition revokeAllUserTokens :: "bool \<Rightarrow> string \<Rightarrow> string \<Rightarrow> token_state \<Rightarrow> token_state \<times> (string + unit)" where
  "revokeAllUserTokens db_ok userId tenantId s =
     (if db_ok then (revoke_where (\<lambda>r. tr_user r = userId \<and> tr_tenant r = tenantId \<and> \<not> tr_revoked r) s, Inr ())
      else (s, Inl ''query failed''))"

definition cleanupExpiredTokens :: "bool \<Rightarrow> int \<Rightarrow> token_state \<Rightarrow> token_state \<times> (string + nat)" where
  "cleanupExpiredTokens db_ok now s =
     (if db_ok then (s\<lparr>ts_tokens := filter (\<lambda>r. \<not> tr_expires r < now) (ts_tokens s)\<rparr>,
                     Inr (length (filter (\<lambda>r. tr_expires r < now) (ts_tokens s))))
      else (s, Inl ''query failed''))"

definition getUserTokens :: "bool \<Rightarrow> string \<Rightarrow> string \<Rightarrow> token_state \<Rightarrow> string + token_row list" where
  "getUserTokens db_ok userId tenantId s =
     (if db_ok then Inr (sort_by (\<lambda>a b. tr_created b < tr_created a) (filter (\<lambda>r. tr_user r = userId \<and> tr_tenant r = tenantId) (ts_tokens s)))
      else Inl ''query failed'')"

section \<open>Runs\<close>

text \<open>
  The service over time, with the tokens it has issued: clients present issued tokens, ids are never drawn
  twice, and users come and go.
\<close>

record token_world =
  tw_now :: int
  tw_state :: token_state
  tw_issued :: "(string \<times> int \<times> string \<times> string) list"

definition issued_ids :: "token_world \<Rightarrow> string set" where
  "issued_ids w = (\<lambda>(token, issuedAt, i, n). i) ` set (tw_issued w)"

inductive token_step :: "token_env \<Rightarrow> token_world \<Rightarrow> token_world \<Rightarrow> bool" for env where
  later: "tw_now w \<le> t \<Longrightarrow> token_step env w (w\<lparr>tw_now := t\<rparr>)"
| users: "token_step env w (w\<lparr>tw_state := (tw_state w)\<lparr>ts_users := us\<rparr>\<rparr>)"
| issue: "tf_id fresh \<notin> issued_ids w \<Longrightarrow>
    issueTokenPair env True (tw_now w) fresh user (tw_state w) = (s', Inr pair) \<Longrightarrow>
    token_step env w (w\<lparr>tw_state := s', tw_issued := (tp_refresh pair, tw_now w, tf_id fresh, tf_nonce fresh) # tw_issued w\<rparr>)"
| refresh: "token \<in> fst ` set (tw_issued w) \<Longrightarrow>
    token_step env w (w\<lparr>tw_state := fst (refreshAccessToken env q (tw_now w) token (tw_state w))\<rparr>)"
| revoke: "token_step env w (w\<lparr>tw_state := revokeRefreshToken env db_ok (tw_now w) token (tw_state w)\<rparr>)"
| revoke_all: "token_step env w (w\<lparr>tw_state := fst (revokeAllUserTokens db_ok userId tenantId (tw_state w))\<rparr>)"
| cleanup: "token_step env w (w\<lparr>tw_state := fst (cleanupExpiredTokens db_ok (tw_now w) (tw_state w))\<rparr>)"

definition no_sessions :: "int \<Rightarrow> token_world" where
  "no_sessions now = \<lparr>tw_now = now, tw_state = \<lparr>ts_tokens = [], ts_audit = [], ts_users = []\<rparr>, tw_issued = []\<rparr>"

text \<open>
  What the library documents of signed tokens, for the refresh tokens: with the secret it was signed with a
  token verifies to its claims and two times, until the second it expires in.
\<close>

definition jwt_ok :: "token_env \<Rightarrow> bool" where
  "jwt_ok env =
     (\<forall>i u t n t0 m.
        te_verify env (te_refresh_secret env) m (te_sign env (te_refresh_secret env) (refresh_claims i u t n) t0 REFRESH_TOKEN_EXPIRY) =
          (if m div 1000 < t0 div 1000 + REFRESH_TOKEN_EXPIRY
           then Inr (refresh_claims i u t n @
             [(''iat'', Num (Fin (of_int (t0 div 1000)))), (''exp'', Num (Fin (of_int (t0 div 1000 + REFRESH_TOKEN_EXPIRY))))])
           else Inl ''jwt expired''))"

section \<open>Laws\<close>

definition issued_ok :: "token_env \<Rightarrow> token_world \<Rightarrow> bool" where
  "issued_ok env w =
     (distinct (map (\<lambda>(token, t0, i, n). i) (tw_issued w)) \<and>
      (\<forall>(token, t0, i, n)\<in>set (tw_issued w). t0 \<le> tw_now w \<and>
         (\<exists>u t. token = te_sign env (te_refresh_secret env) (refresh_claims i u t n) t0 REFRESH_TOKEN_EXPIRY)))"

definition row_ok :: "token_world \<Rightarrow> token_row \<Rightarrow> bool" where
  "row_ok w r = (\<not> tr_reuse r \<and> (\<exists>token. (token, tr_family_created r, tr_id r, tr_nonce r) \<in> set (tw_issued w)) \<and>
     tr_expires r = tr_family_created r + REFRESH_TOKEN_EXPIRY * 1000)"

definition sessions_ok :: "token_env \<Rightarrow> token_world \<Rightarrow> bool" where
  "sessions_ok env w =
     (issued_ok env w \<and> (\<forall>r\<in>set (ts_tokens (tw_state w)). row_ok w r) \<and>
      (\<forall>a\<in>set (ts_audit (tw_state w)). ta_action a \<noteq> ''REUSE_DETECTED''))"

lemma refresh_claims_get:
  "js_get (refresh_claims i u t n @ x) ''refreshTokenId'' = Str i" "js_get (refresh_claims i u t n @ x) ''userId'' = Str u"
  "js_get (refresh_claims i u t n @ x) ''tenantId'' = Str t" "js_get (refresh_claims i u t n @ x) ''nonce'' = Str n"
  by (simp_all add: refresh_claims_def js_get_def)

lemma issued_once:
  assumes "issued_ok env w" "(a, t, i, n) \<in> set (tw_issued w)" "(b, t', i, n') \<in> set (tw_issued w)"
  shows "b = a \<and> t' = t \<and> n' = n"
proof -
  have "inj_on (\<lambda>(token, t0, i, n). i) (set (tw_issued w))" using assms(1) by (simp add: issued_ok_def distinct_map)
  from inj_onD [OF this _ assms(2,3)] show ?thesis by simp
qed

abbreviation refresh_token :: "token_env \<Rightarrow> string \<Rightarrow> string \<Rightarrow> string \<Rightarrow> string \<Rightarrow> int \<Rightarrow> string" where
  "refresh_token env i u t n t0 \<equiv> te_sign env (te_refresh_secret env) (refresh_claims i u t n) t0 REFRESH_TOKEN_EXPIRY"

lemma jwt_verifies:
  assumes "jwt_ok env" "m div 1000 < t0 div 1000 + REFRESH_TOKEN_EXPIRY"
  shows "\<exists>x. te_verify env (te_refresh_secret env) m (refresh_token env i u t n t0) = Inr (refresh_claims i u t n @ x)"
  using assms unfolding jwt_ok_def by (intro exI) (simp split: if_splits)

lemma jwt_expires:
  assumes "jwt_ok env" "\<not> m div 1000 < t0 div 1000 + REFRESH_TOKEN_EXPIRY"
  shows "te_verify env (te_refresh_secret env) m (refresh_token env i u t n t0) = Inl ''jwt expired''"
  using assms unfolding jwt_ok_def by (simp split: if_splits)

text \<open>What becomes of a token that was issued: it has expired, or it verifies to its claims and is younger than eight days.\<close>

lemma issued_verifies:
  assumes "jwt_ok env" "issued_ok env w" "token \<in> fst ` set (tw_issued w)"
  obtains (expired) "te_verify env (te_refresh_secret env) now token = Inl ''jwt expired''"
    | (claims) t0 i n u t x where "(token, t0, i, n) \<in> set (tw_issued w)"
        "te_verify env (te_refresh_secret env) now token = Inr (refresh_claims i u t n @ x)" "now - t0 < 691200000"
proof -
  obtain t0 i n where i: "(token, t0, i, n) \<in> set (tw_issued w)" using assms(3) by auto
  then obtain u t where token: "token = te_sign env (te_refresh_secret env) (refresh_claims i u t n) t0 REFRESH_TOKEN_EXPIRY"
    using assms(2) by (auto simp: issued_ok_def)
  show thesis
  proof (cases "now div 1000 < t0 div 1000 + REFRESH_TOKEN_EXPIRY")
    case True
    then have "now - t0 < 691200000" unfolding REFRESH_TOKEN_EXPIRY_def by linarith
    moreover obtain x where "te_verify env (te_refresh_secret env) now token = Inr (refresh_claims i u t n @ x)"
      using jwt_verifies [OF assms(1) True] unfolding token by blast
    ultimately show ?thesis using claims [OF i] by blast
  next
    case False
    then show ?thesis using expired jwt_expires [OF assms(1) False] unfolding token by blast
  qed
qed

text \<open>The stored row that the claims of an issued token name has the nonce of the claims.\<close>

lemma named_nonce:
  assumes "sessions_ok env w" "(token, t0, i, n) \<in> set (tw_issued w)"
    "find (names_row (refresh_claims i u t n @ x)) (ts_tokens (tw_state w)) = Some r"
  shows "tr_nonce r = n \<and> tr_family_created r = t0 \<and> \<not> tr_reuse r \<and> tr_id r = i \<and> tr_user r = u \<and> tr_tenant r = t"
proof -
  have r: "r \<in> set (ts_tokens (tw_state w))" "names_row (refresh_claims i u t n @ x) r" using find_Some_mem [OF assms(3)] by auto
  then have "tr_id r = i" "tr_user r = u" "tr_tenant r = t" by (auto simp: names_row_def refresh_claims_get)
  moreover obtain b where "(b, tr_family_created r, tr_id r, tr_nonce r) \<in> set (tw_issued w)" "\<not> tr_reuse r"
    using assms(1) r(1) by (auto simp: sessions_ok_def row_ok_def)
  ultimately show ?thesis using issued_once [OF _ assms(2)] assms(1) by (auto simp: sessions_ok_def)
qed

lemma accept_refresh_tokens: "ts_tokens (fst (accept_refresh env q now r s)) = ts_tokens s"
  by (simp add: accept_refresh_def log_action_def Let_def split: option.split)

text \<open>Refreshing an issued token: the tokens stay as they are and the guards against reuse and old sessions do not fire.\<close>

lemma refresh_issued:
  fixes q
  assumes "jwt_ok env" "sessions_ok env w" "token \<in> fst ` set (tw_issued w)" "tw_now w \<le> now"
  defines "res \<equiv> refresh_body env q now token (tw_state w)"
  shows "ts_tokens (fst res) = ts_tokens (tw_state w) \<and> snd res \<noteq> Inl REUSE_MESSAGE \<and> snd res \<noteq> Inl SESSION_MESSAGE \<and>
    (\<forall>a\<in>set (ts_audit (fst res)). ta_action a \<noteq> ''REUSE_DETECTED'')"
proof -
  have audit: "\<forall>a\<in>set (ts_audit (tw_state w)). ta_action a \<noteq> ''REUSE_DETECTED''" and iss: "issued_ok env w"
    using assms(2) by (simp_all add: sessions_ok_def)
  have m: "REUSE_MESSAGE \<noteq> ''jwt expired''" "SESSION_MESSAGE \<noteq> ''jwt expired''" by (simp_all add: REUSE_MESSAGE_def SESSION_MESSAGE_def)
  show ?thesis
  proof (rule issued_verifies [OF assms(1) iss assms(3), of now])
    assume "te_verify env (te_refresh_secret env) now token = Inl ''jwt expired''"
    then show ?thesis using audit m by (simp add: res_def refresh_body_def)
  next
    fix t0 i n u t x
    assume i: "(token, t0, i, n) \<in> set (tw_issued w)"
      and v: "te_verify env (te_refresh_secret env) now token = Inr (refresh_claims i u t n @ x)" and young: "now - t0 < 691200000"
    show ?thesis
    proof (cases "find (names_row (refresh_claims i u t n @ x)) (ts_tokens (tw_state w))")
      case None
      then show ?thesis using audit v by (simp add: res_def refresh_body_def REUSE_MESSAGE_def SESSION_MESSAGE_def)
    next
      case (Some r)
      from named_nonce [OF assms(2) i Some]
      have r: "tr_nonce r = n" "tr_family_created r = t0" "\<not> tr_reuse r" by simp_all
      have "\<not> MAX_SESSION_LIFETIME < now - t0" using young by (simp add: MAX_SESSION_LIFETIME_def)
      then show ?thesis
        using Some r audit v accept_refresh_tokens
        by (auto simp: res_def refresh_body_def refresh_claims_get REUSE_MESSAGE_def SESSION_MESSAGE_def accept_refresh_def log_action_def Let_def
            split: option.splits)
    qed
  qed
qed

lemma refresh_state: "fst (refreshAccessToken env q now token s) = fst (refresh_body env q now token s)"
  and refresh_answer: "snd (refreshAccessToken env q now token s) =
    (case snd (refresh_body env q now token s) of Inl e \<Rightarrow> Inl (refresh_failed e) | Inr i \<Rightarrow> Inr i)"
  by (auto simp: refreshAccessToken_def split: prod.splits sum.splits)

lemma row_ok_revoked [simp]: "row_ok w (r\<lparr>tr_revoked := b\<rparr>) = row_ok w r"
  by (simp add: row_ok_def)

lemma row_ok_mono: "row_ok w r \<Longrightarrow> set (tw_issued w) \<subseteq> set (tw_issued w') \<Longrightarrow> row_ok w' r"
  by (auto simp: row_ok_def)

lemma issued_ok_same: "tw_issued w' = tw_issued w \<Longrightarrow> tw_now w \<le> tw_now w' \<Longrightarrow> issued_ok env w \<Longrightarrow> issued_ok env w'"
  by (fastforce simp: issued_ok_def)

lemma sessions_ok_change:
  assumes "sessions_ok env w" "tw_issued w' = tw_issued w" "tw_now w \<le> tw_now w'"
    "\<forall>r\<in>set (ts_tokens (tw_state w')). row_ok w r" "ts_audit (tw_state w') = ts_audit (tw_state w)"
  shows "sessions_ok env w'"
  using assms issued_ok_same [OF assms(2,3)] row_ok_mono [of w _ w'] by (simp add: sessions_ok_def)

lemma revoke_where_ok:
  assumes "\<forall>r\<in>set (ts_tokens s). row_ok w r"
  shows "\<forall>r\<in>set (ts_tokens (revoke_where P s)). row_ok w r" "ts_audit (revoke_where P s) = ts_audit s"
  using assms by (auto simp: revoke_where_def)

lemma step_sessions_ok:
  assumes "token_step env w w'" "jwt_ok env" "sessions_ok env w"
  shows "sessions_ok env w'"
  using assms(1)
proof cases
  case (issue fresh user s' pair)
  have row: "ts_tokens s' = ts_tokens (tw_state w) @ [\<lparr>tr_id = tf_id fresh, tr_user = ur_id user, tr_tenant = ur_tenant user,
      tr_family = tf_family fresh, tr_nonce = tf_nonce fresh, tr_expires = tw_now w + REFRESH_TOKEN_EXPIRY * 1000, tr_revoked = False,
      tr_reuse = False, tr_rotations = 0, tr_family_created = tw_now w, tr_created = tw_now w\<rparr>]"
    and pair: "tp_refresh pair = te_sign env (te_refresh_secret env)
      (refresh_claims (tf_id fresh) (ur_id user) (ur_tenant user) (tf_nonce fresh)) (tw_now w) REFRESH_TOKEN_EXPIRY"
    and audit: "ts_audit s' = ts_audit (tw_state w)"
    using issue(3) by (auto simp: issueTokenPair_def Let_def split: if_splits)
  have old: "issued_ok env w" "\<forall>r\<in>set (ts_tokens (tw_state w)). row_ok w r" "\<forall>a\<in>set (ts_audit (tw_state w)). ta_action a \<noteq> ''REUSE_DETECTED''"
    using assms(3) by (simp_all add: sessions_ok_def)
  have "issued_ok env w'"
    using old(1) issue(2) pair unfolding issue(1) issued_ok_def issued_ids_def by fastforce
  moreover have "row_ok w' r" if "r \<in> set (ts_tokens (tw_state w))" for r
    using row_ok_mono [of w r w'] old(2) that unfolding issue(1) by auto
  ultimately show ?thesis
    using row audit old(3) unfolding issue(1) sessions_ok_def by (auto simp: row_ok_def)
next
  case (refresh token q)
  have old: "issued_ok env w" "\<forall>r\<in>set (ts_tokens (tw_state w)). row_ok w r" using assms(3) by (simp_all add: sessions_ok_def)
  from refresh_issued [OF assms(2,3) refresh(2), of "tw_now w" q] show ?thesis
    using old row_ok_mono [of w _ w'] issued_ok_same [of w' w env]
    unfolding refresh(1) refresh_state by (simp add: sessions_ok_def)
next
  case (later t)
  then show ?thesis using assms(3) by (intro sessions_ok_change [OF assms(3)]) (simp_all add: sessions_ok_def)
next
  case (users us)
  then show ?thesis using assms(3) by (intro sessions_ok_change [OF assms(3)]) (simp_all add: sessions_ok_def)
next
  case (revoke db_ok token)
  then show ?thesis using assms(3) revoke_where_ok [of "tw_state w" w]
    by (intro sessions_ok_change [OF assms(3)]) (auto simp: sessions_ok_def revokeRefreshToken_def split: sum.splits)
next
  case (revoke_all db_ok userId tenantId)
  then show ?thesis using assms(3) revoke_where_ok [of "tw_state w" w]
    by (intro sessions_ok_change [OF assms(3)]) (auto simp: sessions_ok_def revokeAllUserTokens_def)
next
  case (cleanup db_ok)
  then show ?thesis using assms(3)
    by (intro sessions_ok_change [OF assms(3)]) (auto simp: sessions_ok_def cleanupExpiredTokens_def)
qed

lemma run_sessions_ok:
  "(token_step env)\<^sup>*\<^sup>* w w' \<Longrightarrow> jwt_ok env \<Longrightarrow> sessions_ok env w \<Longrightarrow> sessions_ok env w'"
  by (induction rule: rtranclp_induct) (auto intro: step_sessions_ok)

lemma no_sessions_ok: "sessions_ok env (no_sessions now)"
  by (simp add: no_sessions_def sessions_ok_def issued_ok_def)

text \<open>
  A refresh never rotates anything: whatever is issued, revoked and cleaned up, refreshing an issued
  token never finds it reused and never finds the session too old, so neither guard ever fires, the log
  never reports a reuse, and the table of tokens stays as it was.
\<close>

theorem refresh_guards_dead:
  assumes "jwt_ok env" "(token_step env)\<^sup>*\<^sup>* (no_sessions start) w" "token \<in> fst ` set (tw_issued w)"
  shows "snd (refreshAccessToken env q (tw_now w) token (tw_state w)) \<notin> {Inl (refresh_failed REUSE_MESSAGE), Inl (refresh_failed SESSION_MESSAGE)} \<and>
    ts_tokens (fst (refreshAccessToken env q (tw_now w) token (tw_state w))) = ts_tokens (tw_state w) \<and>
    ''REUSE_DETECTED'' \<notin> ta_action ` set (ts_audit (tw_state w))"
proof -
  have ok: "sessions_ok env w" by (rule run_sessions_ok [OF assms(2,1) no_sessions_ok])
  then have audit: "\<forall>a\<in>set (ts_audit (tw_state w)). ta_action a \<noteq> ''REUSE_DETECTED''" by (simp add: sessions_ok_def)
  from refresh_issued [OF assms(1) ok assms(3), of "tw_now w" q] show ?thesis
    using audit unfolding refresh_state refresh_answer by (auto simp: refresh_failed_def split: sum.split)
qed

text \<open>The rows of a user among some ids are revoked, and stay so.\<close>

definition all_revoked :: "string \<Rightarrow> string \<Rightarrow> string set \<Rightarrow> token_world \<Rightarrow> bool" where
  "all_revoked userId tenantId ids w =
     (ids \<subseteq> issued_ids w \<and>
      (\<forall>r\<in>set (ts_tokens (tw_state w)). tr_user r = userId \<and> tr_tenant r = tenantId \<and> tr_id r \<in> ids \<longrightarrow> tr_revoked r))"

lemma all_revoked_change:
  assumes "all_revoked u t ids w" "tw_issued w' = tw_issued w"
    "\<forall>r'\<in>set (ts_tokens (tw_state w')). \<exists>r\<in>set (ts_tokens (tw_state w)). tr_user r' = tr_user r \<and> tr_tenant r' = tr_tenant r \<and>
       tr_id r' = tr_id r \<and> (tr_revoked r \<longrightarrow> tr_revoked r')"
  shows "all_revoked u t ids w'"
  using assms by (fastforce simp: all_revoked_def issued_ids_def)

lemma step_all_revoked:
  assumes "token_step env w w'" "jwt_ok env" "sessions_ok env w" "all_revoked u t ids w"
  shows "all_revoked u t ids w'"
  using assms(1)
proof cases
  case (issue fresh user s' pair)
  have row: "ts_tokens s' = ts_tokens (tw_state w) @ [\<lparr>tr_id = tf_id fresh, tr_user = ur_id user, tr_tenant = ur_tenant user,
      tr_family = tf_family fresh, tr_nonce = tf_nonce fresh, tr_expires = tw_now w + REFRESH_TOKEN_EXPIRY * 1000, tr_revoked = False,
      tr_reuse = False, tr_rotations = 0, tr_family_created = tw_now w, tr_created = tw_now w\<rparr>]"
    using issue(3) by (auto simp: issueTokenPair_def Let_def split: if_splits)
  have "tf_id fresh \<notin> ids" using issue(2) assms(4) by (auto simp: all_revoked_def)
  then show ?thesis using assms(4) row unfolding issue(1) by (auto simp: all_revoked_def issued_ids_def)
next
  case (refresh token q)
  from refresh_issued [OF assms(2,3) refresh(2), of "tw_now w" q] show ?thesis
    unfolding refresh(1) refresh_state by (intro all_revoked_change [OF assms(4)]) auto
next
  case (revoke db_ok token)
  then show ?thesis
    by (intro all_revoked_change [OF assms(4)]) (auto simp: revokeRefreshToken_def revoke_where_def split: sum.splits)
next
  case (revoke_all db_ok userId tenantId)
  then show ?thesis by (intro all_revoked_change [OF assms(4)]) (auto simp: revokeAllUserTokens_def revoke_where_def)
next
  case (cleanup db_ok)
  then show ?thesis by (intro all_revoked_change [OF assms(4)]) (auto simp: cleanupExpiredTokens_def)
qed (use assms(4) in \<open>simp_all add: all_revoked_def issued_ids_def\<close>)

lemma run_all_revoked:
  "(token_step env)\<^sup>*\<^sup>* w w' \<Longrightarrow> jwt_ok env \<Longrightarrow> sessions_ok env w \<Longrightarrow> all_revoked u t ids w \<Longrightarrow> all_revoked u t ids w'"
proof (induction rule: rtranclp_induct)
  case (step x y)
  then show ?case using step_all_revoked [OF step(2,4) run_sessions_ok [OF step(1,4,5)]] by blast
qed

definition revoke_user :: "string \<Rightarrow> string \<Rightarrow> token_world \<Rightarrow> token_world" where
  "revoke_user userId tenantId w = w\<lparr>tw_state := fst (revokeAllUserTokens True userId tenantId (tw_state w))\<rparr>"

lemma revoke_user_all: "all_revoked u t (issued_ids w) (revoke_user u t w)"
proof -
  have "tr_user r = u \<and> tr_tenant r = t \<and> tr_id r \<in> ids \<longrightarrow> tr_revoked r" if mem: "r \<in> set (ts_tokens (tw_state (revoke_user u t w)))" for r ids
  proof -
    obtain r0 where r0: "r = (if tr_user r0 = u \<and> tr_tenant r0 = t \<and> \<not> tr_revoked r0 then r0\<lparr>tr_revoked := True\<rparr> else r0)"
    proof -
      have "r \<in> (\<lambda>r0. if tr_user r0 = u \<and> tr_tenant r0 = t \<and> \<not> tr_revoked r0 then r0\<lparr>tr_revoked := True\<rparr> else r0) ` set (ts_tokens (tw_state w))"
        using mem by (simp add: revoke_user_def revokeAllUserTokens_def revoke_where_def)
      then show ?thesis by (elim imageE) (rule that)
    qed
    show ?thesis unfolding r0 by (cases "tr_user r0 = u \<and> tr_tenant r0 = t \<and> \<not> tr_revoked r0") simp_all
  qed
  moreover have "issued_ids (revoke_user u t w) = issued_ids w" by (simp add: revoke_user_def issued_ids_def)
  ultimately show ?thesis unfolding all_revoked_def by (intro conjI ballI) (simp, blast)
qed

text \<open>
  C23: After all tokens of a user were revoked, no token that was issued to the user before refreshes
  again, whatever happens afterwards, logins of the same user included.
\<close>

theorem revocation_of_user_final:
  assumes "jwt_ok env" "(token_step env)\<^sup>*\<^sup>* (no_sessions start) w" "(token, t0, i, n) \<in> set (tw_issued w)"
    "token = te_sign env (te_refresh_secret env) (refresh_claims i userId tenantId n) t0 REFRESH_TOKEN_EXPIRY"
    "(token_step env)\<^sup>*\<^sup>* (revoke_user userId tenantId w) w'"
  shows "\<exists>e. snd (refreshAccessToken env q now token (tw_state w')) = Inl e"
proof -
  have ok: "sessions_ok env w" by (rule run_sessions_ok [OF assms(2,1) no_sessions_ok])
  have "token_step env w (revoke_user userId tenantId w)" unfolding revoke_user_def by (rule token_step.revoke_all)
  from run_all_revoked [OF assms(5,1) step_sessions_ok [OF this assms(1) ok] revoke_user_all]
  have rev: "all_revoked userId tenantId (issued_ids w) w'" .
  have i: "i \<in> issued_ids w" using assms(3) by (force simp: issued_ids_def)
  have v: "te_verify env (te_refresh_secret env) now token = Inl ''jwt expired'' \<or>
    (\<exists>x. te_verify env (te_refresh_secret env) now token = Inr (refresh_claims i userId tenantId n @ x))"
    using jwt_verifies [OF assms(1)] jwt_expires [OF assms(1)] unfolding assms(4) by blast
  have "tr_revoked r" if "find (names_row (refresh_claims i userId tenantId n @ x)) (ts_tokens (tw_state w')) = Some r" for x r
    using find_Some_mem [OF that] rev i by (auto simp: all_revoked_def names_row_def refresh_claims_get)
  then have "\<exists>e. snd (refresh_body env q now token (tw_state w')) = Inl e"
    using v by (auto simp: refresh_body_def Let_def split: option.split)
  then show ?thesis unfolding refresh_answer by auto
qed

text \<open>
  A refresh token is as good after a refresh as before: once it was accepted it is accepted again by
  the state it left, by anyone who has it, until seven days after its issue.
\<close>

theorem refresh_token_reusable:
  assumes "jwt_ok env" "(token_step env)\<^sup>*\<^sup>* (no_sessions start) w" "(token, t0, i, n) \<in> set (tw_issued w)"
    "refreshAccessToken env q (tw_now w) token (tw_state w) = (s', Inr info)"
    "now + 1000 \<le> t0 + REFRESH_TOKEN_EXPIRY * 1000" "rq_select q'" "rq_user q'" "rq_audit q'"
  shows "\<exists>info'. snd (refreshAccessToken env q' now token s') = Inr info'"
proof -
  have ok: "sessions_ok env w" by (rule run_sessions_ok [OF assms(2,1) no_sessions_ok])
  obtain u t where token: "token = te_sign env (te_refresh_secret env) (refresh_claims i u t n) t0 REFRESH_TOKEN_EXPIRY"
    using ok assms(3) by (auto simp: sessions_ok_def issued_ok_def)
  have before: "now div 1000 < t0 div 1000 + REFRESH_TOKEN_EXPIRY" using assms(5) by (simp add: REFRESH_TOKEN_EXPIRY_def)
  have claims: "\<exists>x. te_verify env (te_refresh_secret env) m token = Inr (refresh_claims i u t n @ x)"
    if "m div 1000 < t0 div 1000 + REFRESH_TOKEN_EXPIRY" for m
    unfolding token by (rule jwt_verifies [OF assms(1) that])
  have body: "refresh_body env q (tw_now w) token (tw_state w) = (s', Inr info)"
    using assms(4) by (auto simp: refreshAccessToken_def split: prod.splits sum.splits)
  then have nf: "tw_now w div 1000 < t0 div 1000 + REFRESH_TOKEN_EXPIRY"
    using jwt_expires [OF assms(1), of "tw_now w" t0] unfolding token refresh_body_def
    by (cases "tw_now w div 1000 < t0 div 1000 + REFRESH_TOKEN_EXPIRY") simp_all
  obtain x where x: "te_verify env (te_refresh_secret env) (tw_now w) token = Inr (refresh_claims i u t n @ x)" using claims [OF nf] by blast
  obtain y where y: "te_verify env (te_refresh_secret env) now token = Inr (refresh_claims i u t n @ y)" using claims [OF before] by blast
  have same: "names_row (refresh_claims i u t n @ z) = names_row (refresh_claims i u t n @ z')" for z z'
    by (rule ext) (simp add: names_row_def refresh_claims_get)
  obtain r where r: "find (names_row (refresh_claims i u t n @ x)) (ts_tokens (tw_state w)) = Some r"
    using body x by (auto simp: refresh_body_def split: option.splits if_splits)
  from named_nonce [OF ok assms(3) r]
  have facts: "tr_nonce r = n" "tr_family_created r = t0" "\<not> tr_reuse r" by simp_all
  have exp: "tr_expires r = t0 + REFRESH_TOKEN_EXPIRY * 1000"
    using ok find_Some_mem [OF r] facts(2) by (auto simp: sessions_ok_def row_ok_def)
  have acc: "accept_refresh env q (tw_now w) r (tw_state w) = (s', Inr info)" "\<not> tr_revoked r"
    using body x r facts by (auto simp: refresh_body_def refresh_claims_get split: if_splits)
  have tokens: "ts_tokens s' = ts_tokens (tw_state w)" using accept_refresh_tokens [of env q "tw_now w" r "tw_state w"] acc(1) by simp
  obtain user where user: "find (\<lambda>v. ur_id v = tr_user r \<and> ur_tenant v = tr_tenant r) (ts_users (tw_state w)) = Some user"
    and users: "ts_users s' = ts_users (tw_state w)"
    using acc(1) by (auto simp: accept_refresh_def log_action_def Let_def split: if_splits option.splits)
  have "\<not> tr_expires r \<le> now" "\<not> MAX_SESSION_LIFETIME < now - t0"
    using assms(5) by (simp_all add: exp REFRESH_TOKEN_EXPIRY_def MAX_SESSION_LIFETIME_def)
  then have "\<exists>info'. snd (refresh_body env q' now token s') = Inr info'"
    using y r same [of y x] facts acc(2) tokens user users assms(6-8)
    by (simp add: refresh_body_def refresh_claims_get accept_refresh_def Let_def)
  then show ?thesis unfolding refresh_answer by auto
qed

section \<open>A concrete service\<close>

text \<open>Texts that can be read back: every character of a field is marked, a dot ends the field.\<close>

definition field_text :: "string \<Rightarrow> string" where
  "field_text s = concat (map (\<lambda>c. [CHR ''x'', c]) s) @ ''.''"

fun read_fields :: "string \<Rightarrow> string \<Rightarrow> string list" where
  "read_fields acc [] = []"
| "read_fields acc (a # r) =
     (if a = CHR ''.'' then acc # read_fields [] r
      else (case r of [] \<Rightarrow> [] | c # r' \<Rightarrow> read_fields (acc @ [c]) r'))"

lemma read_field: "read_fields acc (field_text s @ r) = (acc @ s) # read_fields [] r"
  by (induction s arbitrary: acc) (simp_all add: field_text_def)

definition sample_sign :: "string \<Rightarrow> claims \<Rightarrow> int \<Rightarrow> int \<Rightarrow> string" where
  "sample_sign secret cs t0 secs =
     concat (map field_text (replicate (nat \<bar>t0\<bar>) (CHR ''u'') # (if t0 < 0 then ''-'' else []) #
       map (\<lambda>(k, v). case v of Str s \<Rightarrow> s | _ \<Rightarrow> []) cs))"

definition sample_verify :: "string \<Rightarrow> int \<Rightarrow> string \<Rightarrow> string + claims" where
  "sample_verify secret m token =
     (case read_fields [] token of
        [a, b, i, u, t, n] \<Rightarrow>
          (let t0 = (if b = [] then int (length a) else - int (length a))
           in if m div 1000 < t0 div 1000 + REFRESH_TOKEN_EXPIRY
              then Inr (refresh_claims i u t n @
                [(''iat'', Num (Fin (of_int (t0 div 1000)))), (''exp'', Num (Fin (of_int (t0 div 1000 + REFRESH_TOKEN_EXPIRY))))])
              else Inl ''jwt expired'')
      | _ \<Rightarrow> Inl ''jwt malformed'')"

definition sample_env :: token_env where
  "sample_env = \<lparr>te_sign = sample_sign, te_verify = sample_verify, te_access_secret = ''a'', te_refresh_secret = ''r''\<rparr>"

lemma sample_jwt: "jwt_ok sample_env"
proof -
  have "read_fields [] (sample_sign secret (refresh_claims i u t n) t0 secs) =
    [replicate (nat \<bar>t0\<bar>) (CHR ''u''), if t0 < 0 then ''-'' else [], i, u, t, n]" for secret i u t n t0 secs
    using read_field [of "[]" n "[]"] by (simp add: sample_sign_def refresh_claims_def read_field)
  then show ?thesis by (simp add: jwt_ok_def sample_env_def sample_verify_def Let_def)
qed

definition ann :: user_row where
  "ann = \<lparr>ur_id = ''ann'', ur_tenant = ''acme'', ur_email = ''a'', ur_role = ''viewer''\<rparr>"

definition ann_fresh :: token_fresh where
  "ann_fresh = \<lparr>tf_id = ''1'', tf_nonce = ''n'', tf_family = ''f''\<rparr>"

abbreviation ann_token :: string where
  "ann_token \<equiv> refresh_token sample_env ''1'' ''ann'' ''acme'' ''n'' 0"

definition with_ann :: token_world where
  "with_ann = (no_sessions 0)\<lparr>tw_state := (tw_state (no_sessions 0))\<lparr>ts_users := [ann]\<rparr>\<rparr>"

definition signed_in :: token_world where
  "signed_in = with_ann\<lparr>tw_state := fst (issueTokenPair sample_env True 0 ann_fresh ann (tw_state with_ann)),
     tw_issued := [(ann_token, 0, ''1'', ''n'')]\<rparr>"

lemma signed_in_reached: "(token_step sample_env)\<^sup>*\<^sup>* (no_sessions 0) signed_in"
proof -
  have "token_step sample_env (no_sessions 0) with_ann" unfolding with_ann_def by (rule token_step.users)
  moreover obtain s' pair where i: "issueTokenPair sample_env True 0 ann_fresh ann (tw_state with_ann) = (s', Inr pair)" "tp_refresh pair = ann_token"
    by (simp add: issueTokenPair_def with_ann_def no_sessions_def ann_def ann_fresh_def Let_def)
  have "token_step sample_env with_ann (with_ann\<lparr>tw_state := s',
      tw_issued := (tp_refresh pair, tw_now with_ann, tf_id ann_fresh, tf_nonce ann_fresh) # tw_issued with_ann\<rparr>)"
    by (rule token_step.issue [of _ _ _ ann])
      (use i in \<open>simp_all add: with_ann_def no_sessions_def issued_ids_def\<close>)
  then have "token_step sample_env with_ann signed_in"
    using i by (simp add: signed_in_def with_ann_def no_sessions_def ann_fresh_def)
  ultimately show ?thesis by (meson rtranclp.rtrancl_refl rtranclp.rtrancl_into_rtrancl)
qed

definition all_queries :: refresh_queries where
  "all_queries = \<lparr>rq_select = True, rq_audit = True, rq_revoke = True, rq_user = True\<rparr>"

lemma ann_accepted: "\<exists>s' info. refreshAccessToken sample_env all_queries 0 ann_token (tw_state signed_in) = (s', Inr info)"
proof -
  obtain x where "te_verify sample_env (te_refresh_secret sample_env) 0 ann_token = Inr (refresh_claims ''1'' ''ann'' ''acme'' ''n'' @ x)"
  proof -
    have "(0 :: int) div 1000 < 0 div 1000 + REFRESH_TOKEN_EXPIRY" by (simp add: REFRESH_TOKEN_EXPIRY_def)
    from jwt_verifies [OF sample_jwt this] show ?thesis using that by blast
  qed
  then show ?thesis
    by (simp add: refreshAccessToken_def refresh_body_def accept_refresh_def signed_in_def issueTokenPair_def with_ann_def no_sessions_def
        ann_def ann_fresh_def all_queries_def names_row_def refresh_claims_get MAX_SESSION_LIFETIME_def REFRESH_TOKEN_EXPIRY_def Let_def)
qed

lemma refresh_guards_dead_witness:
  "snd (refreshAccessToken sample_env all_queries 0 ann_token (tw_state signed_in)) \<noteq> Inl (refresh_failed REUSE_MESSAGE)"
  using refresh_guards_dead [OF sample_jwt signed_in_reached, of ann_token all_queries] by (simp add: signed_in_def with_ann_def no_sessions_def)

lemma revocation_of_user_final_witness:
  "\<exists>e. snd (refreshAccessToken sample_env all_queries 5 ann_token (tw_state (revoke_user ''ann'' ''acme'' signed_in))) = Inl e"
  by (rule revocation_of_user_final [OF sample_jwt signed_in_reached _ refl rtranclp.rtrancl_refl]) (simp add: signed_in_def)

lemma refresh_token_reusable_witness:
  "\<exists>info. snd (refreshAccessToken sample_env all_queries 600000 ann_token
     (fst (refreshAccessToken sample_env all_queries 0 ann_token (tw_state signed_in)))) = Inr info"
proof -
  obtain s' info where e: "refreshAccessToken sample_env all_queries 0 ann_token (tw_state signed_in) = (s', Inr info)"
    using ann_accepted by blast
  have t: "tw_now signed_in = 0" "(ann_token, 0, ''1'', ''n'') \<in> set (tw_issued signed_in)"
    by (simp_all add: signed_in_def with_ann_def no_sessions_def)
  show ?thesis
    using refresh_token_reusable [OF sample_jwt signed_in_reached t(2), unfolded t(1), OF e, of 600000 all_queries] e
    by (simp add: REFRESH_TOKEN_EXPIRY_def all_queries_def)
qed

end
