(* ===== verification/NonceCache.thy ===== *)
theory NonceCache
  imports JsValue
begin

text \<open>
  Replay prevention for signed envelopes, \<open>apps/api/services/envelope-replay-prevention.ts\<close>, over the table
  \<open>envelope_nonce_cache\<close> and the functions of the migration 112. The clock, the random numbers (of the
  service and of the database) and the failure of a query, with its message, are arguments, as are what
  \<open>new Date\<close> makes of a text and which texts the database takes for a UUID. Times of the table are milliseconds.
\<close>

section \<open>Table and configuration\<close>

record nonce_row =
  nc_tenant :: string
  nc_envelope :: string
  nc_nonce :: string
  nc_key :: "string option"
  nc_expires :: int
  nc_seen :: int
  nc_source :: "string option"
  nc_consumer :: "string option"
  nc_created :: int

record cache_tiers =
  ct_hotPathMinutes :: jsnum
  ct_warmPathMinutes :: jsnum
  ct_warmPathSamplingRate :: jsnum

definition DEFAULT_CACHE_TIERS :: cache_tiers where
  "DEFAULT_CACHE_TIERS = \<lparr>ct_hotPathMinutes = Fin 5, ct_warmPathMinutes = Fin 60, ct_warmPathSamplingRate = jlit (5 / 100)\<rparr>"

record replay_config =
  rp_ttlSeconds :: jsnum
  rp_maxCacheBytes :: jsnum
  rp_pressurePercent :: jsnum
  rp_tiers :: cache_tiers

definition truthy_or :: "jsnum option \<Rightarrow> jsnum \<Rightarrow> jsnum" where
  "truthy_or x d = (case x of Some v \<Rightarrow> if js_truthy (Num v) then v else d | None \<Rightarrow> d)"

text \<open>The tiers that are given replace the default ones; missing members are not given.\<close>

definition EnvelopeReplayPreventionService ::
  "jsnum option \<Rightarrow> jsnum option \<Rightarrow> (jsnum option \<times> jsnum option \<times> jsnum option) option \<Rightarrow> replay_config" where
  "EnvelopeReplayPreventionService ttl maxBytes tiers =
     \<lparr>rp_ttlSeconds = truthy_or ttl (Fin 3600), rp_maxCacheBytes = truthy_or maxBytes (Fin 104857600), rp_pressurePercent = Fin 85,
      rp_tiers = (case tiers of
          None \<Rightarrow> DEFAULT_CACHE_TIERS
        | Some (hot, warm, rate) \<Rightarrow>
            \<lparr>ct_hotPathMinutes = (case hot of Some x \<Rightarrow> x | None \<Rightarrow> ct_hotPathMinutes DEFAULT_CACHE_TIERS),
             ct_warmPathMinutes = (case warm of Some x \<Rightarrow> x | None \<Rightarrow> ct_warmPathMinutes DEFAULT_CACHE_TIERS),
             ct_warmPathSamplingRate = (case rate of Some x \<Rightarrow> x | None \<Rightarrow> ct_warmPathSamplingRate DEFAULT_CACHE_TIERS)\<rparr>)\<rparr>"

definition generateNonce :: "replay_config \<Rightarrow> int \<Rightarrow> string \<Rightarrow> string \<times> jsnum" where
  "generateNonce cfg now random = (random, jadd (Fin (of_int now)) (jmul (rp_ttlSeconds cfg) (Fin 1000)))"

section \<open>Registering an envelope\<close>

record envelope_request =
  er_tenant :: string
  er_envelope :: string
  er_nonce :: string
  er_expires :: int
  er_key :: "string option"
  er_source :: "string option"
  er_consumer :: "string option"

record check_result =
  cr_allowed :: bool
  cr_reason :: "string option"
  cr_previouslySeen :: bool
  cr_seenAt :: "int option"

definition or_null :: "string option \<Rightarrow> string option" where
  "or_null x = (case x of Some s \<Rightarrow> if s = [] then None else Some s | None \<Rightarrow> None)"

definition fits :: "nat \<Rightarrow> string option \<Rightarrow> bool" where
  "fits n x = (case x of Some s \<Rightarrow> length s \<le> n | None \<Rightarrow> True)"

definition same_nonce :: "string \<Rightarrow> string \<Rightarrow> nonce_row \<Rightarrow> bool" where
  "same_nonce tenant nonce r = (nc_tenant r = tenant \<and> nc_nonce r = nonce)"

text \<open>
  The function of the database: it inserts, reports a violation of the unique index with the time the nonce
  was seen, and turns every other error into an answer as well.
\<close>

definition register_envelope_nonce :: "int \<Rightarrow> envelope_request \<Rightarrow> nonce_row list \<Rightarrow> nonce_row list \<times> bool \<times> string \<times> int option" where
  "register_envelope_nonce now r rows =
     (if \<not> fits 255 (Some (er_envelope r)) \<or> \<not> fits 255 (Some (er_nonce r)) \<or> \<not> fits 255 (or_null (er_key r))
      then (rows, False, ''Error registering nonce: value too long for type character varying(255)'', None)
      else if \<not> fits 100 (or_null (er_source r))
      then (rows, False, ''Error registering nonce: value too long for type character varying(100)'', None)
      else if \<not> fits 255 (or_null (er_consumer r))
      then (rows, False, ''Error registering nonce: value too long for type character varying(255)'', None)
      else (case find (same_nonce (er_tenant r) (er_nonce r)) rows of
              Some old \<Rightarrow> (rows, False, ''REPLAY_DETECTED: Nonce has already been processed'', Some (nc_seen old))
            | None \<Rightarrow>
                (rows @ [\<lparr>nc_tenant = er_tenant r, nc_envelope = er_envelope r, nc_nonce = er_nonce r, nc_key = or_null (er_key r),
                   nc_expires = er_expires r, nc_seen = now, nc_source = or_null (er_source r), nc_consumer = or_null (er_consumer r),
                   nc_created = now\<rparr>],
                 True, ''Nonce registered successfully'', None)))"

definition check_failed :: "string \<Rightarrow> check_result" where
  "check_failed e =
     (if str_includes e ''unique'' \<or> str_includes e ''duplicate''
      then \<lparr>cr_allowed = False, cr_reason = Some ''ENVELOPE_REPLAY_DETECTED: Database constraint violation on nonce uniqueness'',
            cr_previouslySeen = True, cr_seenAt = None\<rparr>
      else \<lparr>cr_allowed = False, cr_reason = Some (''Fatal error checking envelope replay: '' @ e), cr_previouslySeen = False,
            cr_seenAt = None\<rparr>)"

text \<open>A tenant that is not a UUID makes the call itself fail.\<close>

definition checkAndRegisterEnvelope ::
  "(string \<Rightarrow> bool) \<Rightarrow> string option \<Rightarrow> int \<Rightarrow> envelope_request \<Rightarrow> nonce_row list \<Rightarrow> nonce_row list \<times> check_result" where
  "checkAndRegisterEnvelope uuid fault now r rows =
     (case fault of
        Some e \<Rightarrow> (rows, check_failed e)
      | None \<Rightarrow>
          if \<not> uuid (er_tenant r)
          then (rows, check_failed (''invalid input syntax for type uuid: '' @ dquote @ er_tenant r @ dquote))
          else (case register_envelope_nonce now r rows of
                  (rows', True, _, _) \<Rightarrow>
                    (rows', \<lparr>cr_allowed = True, cr_reason = Some ''Nonce registered successfully'', cr_previouslySeen = False,
                             cr_seenAt = None\<rparr>)
                | (rows', False, reason, seen) \<Rightarrow>
                    (rows', \<lparr>cr_allowed = False, cr_reason = Some (''ENVELOPE_REPLAY_DETECTED: '' @ reason), cr_previouslySeen = True,
                             cr_seenAt = seen\<rparr>)))"

definition verifyEnvelopeExpiration :: "(string \<Rightarrow> jsnum) \<Rightarrow> replay_config \<Rightarrow> int \<Rightarrow> string option \<Rightarrow> bool \<times> string option" where
  "verifyEnvelopeExpiration date cfg now emittedAt =
     (case or_null emittedAt of
        None \<Rightarrow> (False, Some ''Missing emittedAt timestamp'')
      | Some s \<Rightarrow>
          (let age = jsub (Fin (of_int now)) (date s)
           in if jlt (jmul (rp_ttlSeconds cfg) (Fin 1000)) age
              then (False, Some (''Envelope expired: emitted '' @ num_string (jround (jdiv age (Fin 1000))) @ ''s ago, max age is '' @
                      num_string (rp_ttlSeconds cfg) @ ''s''))
              else (True, None)))"

section \<open>Replay statistics\<close>

text \<open>The nonces of a list of rows that occur more than once, in the order of their last occurrence.\<close>

definition repeated :: "nonce_row list \<Rightarrow> string list" where
  "repeated rows = filter (\<lambda>n. 1 < length (filter (\<lambda>r. nc_nonce r = n) rows)) (remdups (map nc_nonce rows))"

record replay_attempt =
  at_nonce :: string
  at_count :: nat
  at_first :: int
  at_last :: int
  at_consumers :: "string option set"

definition get_replay_attempts :: "int \<Rightarrow> string \<Rightarrow> int \<Rightarrow> nonce_row list \<Rightarrow> replay_attempt list" where
  "get_replay_attempts now tenant window_minutes rows =
     (let recent = filter (\<lambda>r. nc_tenant r = tenant \<and> now - 60000 * window_minutes < nc_seen r) rows
      in sort_by (\<lambda>a b. at_last b < at_last a) (map (\<lambda>n. let g = filter (\<lambda>r. nc_nonce r = n) recent
           in \<lparr>at_nonce = n, at_count = length g, at_first = Min (set (map nc_seen g)), at_last = Max (set (map nc_seen g)),
               at_consumers = nc_consumer ` set g\<rparr>) (repeated recent)))"

definition getRecentReplayAttempts :: "bool \<Rightarrow> int \<Rightarrow> string \<Rightarrow> int \<Rightarrow> nonce_row list \<Rightarrow> replay_attempt list" where
  "getRecentReplayAttempts db_ok now tenant windowMinutes rows =
     (if db_ok then get_replay_attempts now tenant windowMinutes rows else [])"

definition detectReplayAttackPattern :: "bool \<Rightarrow> int \<Rightarrow> string \<Rightarrow> int \<Rightarrow> int \<Rightarrow> nonce_row list \<Rightarrow> bool" where
  "detectReplayAttackPattern db_ok now tenant threshold windowMinutes rows =
     (db_ok \<and> threshold \<le> int (length (filter (\<lambda>r. nc_tenant r = tenant \<and> now - 60000 * windowMinutes < nc_seen r \<and>
        1 < length (filter (same_nonce tenant (nc_nonce r)) rows)) rows)))"

record cache_stats =
  cs_active :: nat
  cs_expired :: nat
  cs_replays :: nat

definition getNonceCacheStats :: "bool \<Rightarrow> int \<Rightarrow> string \<Rightarrow> nonce_row list \<Rightarrow> cache_stats" where
  "getNonceCacheStats db_ok now tenant rows =
     (let mine = filter (\<lambda>r. nc_tenant r = tenant) rows
      in if db_ok then \<lparr>cs_active = length (filter (\<lambda>r. now < nc_expires r) mine),
            cs_expired = length (filter (\<lambda>r. nc_expires r \<le> now) mine), cs_replays = length (repeated mine)\<rparr>
         else \<lparr>cs_active = 0, cs_expired = 0, cs_replays = 0\<rparr>)"

section \<open>Maintenance\<close>

definition removed :: "(nonce_row \<Rightarrow> bool) \<Rightarrow> nonce_row list \<Rightarrow> nonce_row list \<times> nat" where
  "removed P rows = (filter (\<lambda>r. \<not> P r) rows, length (filter P rows))"

definition cleanup_expired_nonce_cache :: "int \<Rightarrow> nonce_row list \<Rightarrow> nonce_row list \<times> nat" where
  "cleanup_expired_nonce_cache now rows = removed (\<lambda>r. nc_expires r < now - 3600000) rows"

definition cleanupExpiredNonces :: "bool \<Rightarrow> int \<Rightarrow> nonce_row list \<Rightarrow> nonce_row list \<times> nat" where
  "cleanupExpiredNonces db_ok now rows = (if db_ok then cleanup_expired_nonce_cache now rows else (rows, 0))"

datatype pressure = Critical_pressure | High_pressure | Normal_pressure | Pressure_error

definition pressurePercent :: "replay_config \<Rightarrow> int \<Rightarrow> nonce_row list \<Rightarrow> jsnum" where
  "pressurePercent cfg now rows =
     (let estimatedBytes = rnd64 (of_nat (200 * length (filter (\<lambda>r. now - 86400000 < nc_expires r) rows)))
      in jmul (jdiv estimatedBytes (rp_maxCacheBytes cfg)) (Fin 100))"

text \<open>
  The outcomes are those of the size query and of the at most two deletions; \<open>drawn\<close> are the rows for which
  the database draws a number below one tenth.
\<close>

definition manageCachePressure ::
  "replay_config \<Rightarrow> bool \<times> bool \<times> bool \<Rightarrow> (nonce_row \<Rightarrow> bool) \<Rightarrow> int \<Rightarrow> nonce_row list \<Rightarrow> nonce_row list \<times> pressure \<times> nat" where
  "manageCachePressure cfg ok drawn now rows =
     (case ok of (size_ok, first_ok, second_ok) \<Rightarrow>
        if \<not> size_ok then (rows, Pressure_error, 0)
        else if jlt (Fin 100) (pressurePercent cfg now rows)
        then (if \<not> first_ok then (rows, Pressure_error, 0)
              else (let (rows1, n) = removed (\<lambda>r. nc_expires r < now - 1800000) rows in (rows1, Critical_pressure, n)))
        else if jlt (rp_pressurePercent cfg) (pressurePercent cfg now rows)
        then (if \<not> first_ok then (rows, Pressure_error, 0)
              else (let (rows1, n) = cleanup_expired_nonce_cache now rows
                    in if \<not> second_ok then (rows1, Pressure_error, 0)
                       else (let (rows2, m) = removed (\<lambda>r. nc_created r < now - 3000000 \<and> drawn r) rows1
                             in (rows2, High_pressure, n + m))))
        else (rows, Normal_pressure, 0))"

record tier_answer =
  tn_inCache :: bool
  tn_strategy :: string
  tn_confidence :: jsnum

definition in_cache :: "int \<Rightarrow> string \<Rightarrow> string \<Rightarrow> nonce_row list \<Rightarrow> bool" where
  "in_cache now tenant nonce rows = list_ex (\<lambda>r. same_nonce tenant nonce r \<and> now < nc_expires r) rows"

definition checkNonceWithTiering ::
  "replay_config \<Rightarrow> bool \<Rightarrow> jsnum \<Rightarrow> int \<Rightarrow> string \<Rightarrow> string \<Rightarrow> jsnum \<Rightarrow> nonce_row list \<Rightarrow> string + tier_answer" where
  "checkNonceWithTiering cfg db_ok random now tenant nonce seenAt rows =
     (let ageMs = jsub (Fin (of_int now)) seenAt;
          hotPathMs = jmul (jmul (ct_hotPathMinutes (rp_tiers cfg)) (Fin 60)) (Fin 1000);
          warmPathMs = jmul (jmul (ct_warmPathMinutes (rp_tiers cfg)) (Fin 60)) (Fin 1000);
          rate = ct_warmPathSamplingRate (rp_tiers cfg); is_found = in_cache now tenant nonce rows
      in if jlt ageMs hotPathMs
         then (if db_ok then Inr \<lparr>tn_inCache = is_found, tn_strategy = ''EXACT_MATCH_HOT_PATH'', tn_confidence = Fin 1\<rparr> else Inl ''query failed'')
         else if jlt ageMs warmPathMs
         then (if \<not> db_ok then Inl ''query failed''
               else if \<not> is_found \<and> jlt random rate
               then Inr \<lparr>tn_inCache = False, tn_strategy = ''PROBABILISTIC_WARM_PATH'', tn_confidence = jsub (Fin 1) rate\<rparr>
               else Inr \<lparr>tn_inCache = is_found, tn_strategy = ''PROBABILISTIC_WARM_PATH'', tn_confidence = jsub (Fin 1) rate\<rparr>)
         else Inr \<lparr>tn_inCache = False, tn_strategy = ''COLD_PATH_EXPIRED'', tn_confidence = Fin 1\<rparr>)"

definition periodicMaintenance ::
  "replay_config \<Rightarrow> bool \<times> bool \<times> bool \<Rightarrow> bool \<Rightarrow> (nonce_row \<Rightarrow> bool) \<Rightarrow> int \<Rightarrow> nonce_row list \<Rightarrow> nonce_row list \<times> pressure \<times> nat \<times> nat" where
  "periodicMaintenance cfg ok cleanup_ok drawn now rows =
     (let (rows1, level, cleaned) = manageCachePressure cfg ok drawn now rows;
          (rows2, expired) = cleanupExpiredNonces cleanup_ok now rows1
      in (rows2, level, cleaned, expired))"

section \<open>Runs\<close>

text \<open>The cache over time; the first argument says whether the sampled deletion happens at all.\<close>

inductive nonce_step :: "bool \<Rightarrow> (string \<Rightarrow> bool) \<Rightarrow> replay_config \<Rightarrow> int \<times> nonce_row list \<Rightarrow> int \<times> nonce_row list \<Rightarrow> bool"
  for sampled uuid cfg where
  later: "now \<le> t \<Longrightarrow> nonce_step sampled uuid cfg (now, rows) (t, rows)"
| check: "nonce_step sampled uuid cfg (now, rows) (now, fst (checkAndRegisterEnvelope uuid fault now r rows))"
| cleanup: "nonce_step sampled uuid cfg (now, rows) (now, fst (cleanupExpiredNonces db_ok now rows))"
| manage: "(\<forall>r. drawn r \<longrightarrow> sampled) \<Longrightarrow> nonce_step sampled uuid cfg (now, rows) (now, fst (manageCachePressure cfg ok drawn now rows))"

section \<open>Laws\<close>

definition nonces_unique :: "nonce_row list \<Rightarrow> bool" where
  "nonces_unique rows = distinct (map (\<lambda>r. (nc_tenant r, nc_nonce r)) rows)"

lemma unique_removed: "nonces_unique rows \<Longrightarrow> nonces_unique (fst (removed P rows))"
  by (simp add: nonces_unique_def removed_def distinct_map_filter)

lemma register_cases:
  assumes "register_envelope_nonce now r rows = (rows', ok, reason, seen)"
  obtains (added) row where "ok" "rows' = rows @ [row]" "same_nonce (er_tenant r) (er_nonce r) row" "nc_expires row = er_expires r"
      "find (same_nonce (er_tenant r) (er_nonce r)) rows = None"
    | (refused) "\<not> ok" "rows' = rows"
  using assms by (auto simp: register_envelope_nonce_def same_nonce_def split: if_splits option.splits)

lemma check_cases:
  assumes "checkAndRegisterEnvelope uuid fault now r rows = (rows', res)"
  obtains (added) row where "cr_allowed res" "rows' = rows @ [row]" "same_nonce (er_tenant r) (er_nonce r) row" "nc_expires row = er_expires r"
      "find (same_nonce (er_tenant r) (er_nonce r)) rows = None"
    | (refused) "\<not> cr_allowed res" "rows' = rows"
proof -
  have failed: "\<not> cr_allowed (check_failed e)" for e by (simp add: check_failed_def)
  show thesis
  proof (cases "fault = None \<and> uuid (er_tenant r)")
    case False
    then show thesis using assms failed refused by (auto simp: checkAndRegisterEnvelope_def split: option.splits)
  next
    case True
    obtain rows1 ok reason seen where g: "register_envelope_nonce now r rows = (rows1, ok, reason, seen)" by (metis prod_cases4)
    then have e: "rows' = rows1" "cr_allowed res \<longleftrightarrow> ok"
      using assms True by (auto simp: checkAndRegisterEnvelope_def split: bool.splits)
    from g show thesis by (cases rule: register_cases) (use e added refused in auto)
  qed
qed

lemma check_unique:
  assumes "nonces_unique rows"
  shows "nonces_unique (fst (checkAndRegisterEnvelope uuid fault now r rows))"
proof -
  obtain rows' res where c: "checkAndRegisterEnvelope uuid fault now r rows = (rows', res)" by fastforce
  then show ?thesis
    by (cases rule: check_cases) (use assms c in \<open>auto simp: nonces_unique_def same_nonce_def find_None_iff\<close>)
qed

lemma manage_cases:
  assumes "manageCachePressure cfg ok drawn now rows = (rows', level, n)"
  obtains (same) "rows' = rows" | (critical) "rows' = fst (removed (\<lambda>r. nc_expires r < now - 1800000) rows)"
    | (expired) "rows' = fst (cleanup_expired_nonce_cache now rows)"
    | (sampled) "rows' = fst (removed (\<lambda>r. nc_created r < now - 3000000 \<and> drawn r) (fst (cleanup_expired_nonce_cache now rows)))"
  using assms by (auto simp: manageCachePressure_def Let_def split: prod.splits if_splits)

lemma step_unique:
  assumes "nonce_step sampled uuid cfg x y" "nonces_unique (snd x)"
  shows "nonces_unique (snd y)"
  using assms
proof cases
  case (check now rows fault r)
  then show ?thesis using assms(2) check_unique by simp
next
  case (cleanup now rows db_ok)
  then show ?thesis using assms(2) unique_removed by (simp add: cleanupExpiredNonces_def cleanup_expired_nonce_cache_def)
next
  case (manage drawn now rows ok)
  obtain rows' level n where m: "manageCachePressure cfg ok drawn now rows = (rows', level, n)" by (metis prod_cases3)
  then have "nonces_unique rows'"
    by (cases rule: manage_cases) (use assms(2) manage(1) unique_removed in \<open>auto simp: cleanup_expired_nonce_cache_def\<close>)
  then show ?thesis using manage m by simp
qed simp

lemma run_unique: "(nonce_step sampled uuid cfg)\<^sup>*\<^sup>* x y \<Longrightarrow> nonces_unique (snd x) \<Longrightarrow> nonces_unique (snd y)"
  by (induction rule: rtranclp_induct) (auto dest: step_unique)

text \<open>Without the sampled deletion a row survives until half an hour after its expiry.\<close>

lemma kept_removed: "r \<in> set rows \<Longrightarrow> r \<in> set (fst (removed P rows)) \<or> P r"
  by (simp add: removed_def)

lemma step_keeps:
  assumes "nonce_step False uuid cfg x y" "r \<in> set (snd x)"
  shows "fst x \<le> fst y \<and> (r \<in> set (snd y) \<or> nc_expires r < fst y - 1800000)"
  using assms
proof cases
  case (check now rows fault r')
  obtain rows' res where c: "checkAndRegisterEnvelope uuid fault now r' rows = (rows', res)" by fastforce
  then have "set rows \<subseteq> set rows'" by (cases rule: check_cases) auto
  then show ?thesis using check c assms(2) by auto
next
  case (cleanup now rows db_ok)
  then show ?thesis using assms(2) kept_removed [of r rows "\<lambda>r. nc_expires r < now - 3600000"]
    by (auto simp: cleanupExpiredNonces_def cleanup_expired_nonce_cache_def)
next
  case (manage drawn now rows ok)
  then have none: "\<not> drawn q" for q by blast
  obtain rows' level n where m: "manageCachePressure cfg ok drawn now rows = (rows', level, n)" by (metis prod_cases3)
  then have "r \<in> set rows' \<or> nc_expires r < now - 1800000"
    by (cases rule: manage_cases) (use assms(2) manage(1) none in \<open>auto simp: cleanup_expired_nonce_cache_def removed_def\<close>)
  then show ?thesis using manage m by simp
qed simp

lemma run_keeps:
  "(nonce_step False uuid cfg)\<^sup>*\<^sup>* x y \<Longrightarrow> r \<in> set (snd x) \<Longrightarrow> fst x \<le> fst y \<and> (r \<in> set (snd y) \<or> nc_expires r < fst y - 1800000)"
proof (induction rule: rtranclp_induct)
  case (step y z)
  have mono: "fst y \<le> fst z" using step(2) by (cases rule: nonce_step.cases) simp_all
  show ?case using step mono step_keeps [OF step(2), of r] by force
qed simp

text \<open>
  C24: An envelope that was accepted is refused when it comes again, whatever else is checked and cleaned up
  in between, until half an hour after its nonce expired, as long as the database deletes no live rows at
  random.
\<close>

theorem envelope_accepted_once:
  assumes "checkAndRegisterEnvelope uuid fault now r rows = (rows1, res)" "cr_allowed res"
    "(nonce_step False uuid cfg)\<^sup>*\<^sup>* (now, rows1) (later, rows2)" "later \<le> er_expires r + 1800000"
    "er_tenant r' = er_tenant r" "er_nonce r' = er_nonce r"
  shows "\<not> cr_allowed (snd (checkAndRegisterEnvelope uuid fault' later r' rows2))"
proof -
  obtain row where row: "row \<in> set rows1" "same_nonce (er_tenant r) (er_nonce r) row" "nc_expires row = er_expires r"
    using assms(1,2) by (cases rule: check_cases) auto
  then have "row \<in> set rows2" using run_keeps [OF assms(3), of row] assms(4) by auto
  then have "find (same_nonce (er_tenant r') (er_nonce r')) rows2 \<noteq> None" using row(2) assms(5,6) by (auto simp: find_None_iff)
  moreover obtain rows3 res' where c: "checkAndRegisterEnvelope uuid fault' later r' rows2 = (rows3, res')" by fastforce
  ultimately show ?thesis by (cases rule: check_cases [OF c]) (simp_all add: c)
qed

text \<open>
  When the cache is under high pressure, a row older than fifty minutes that the database draws is
  deleted although its nonce is still valid, and the envelope is accepted a second time.
\<close>

theorem sampled_deletion_admits_replay:
  assumes "row \<in> set rows" "nonces_unique rows" "nc_created row < now - 3000000" "drawn row"
    "jlt (rp_pressurePercent cfg) (pressurePercent cfg now rows)" "\<not> jlt (Fin 100) (pressurePercent cfg now rows)"
    "same_nonce (er_tenant r) (er_nonce r) row" "uuid (er_tenant r)"
    "\<forall>x\<in>{Some (er_envelope r), Some (er_nonce r), or_null (er_key r), or_null (er_consumer r)}. fits 255 x" "fits 100 (or_null (er_source r))"
  shows "cr_allowed (snd (checkAndRegisterEnvelope uuid None now r (fst (manageCachePressure cfg (True, True, True) drawn now rows))))"
proof -
  have m: "fst (manageCachePressure cfg (True, True, True) drawn now rows) =
    filter (\<lambda>q. \<not> (nc_created q < now - 3000000 \<and> drawn q)) (filter (\<lambda>q. \<not> nc_expires q < now - 3600000) rows)"
    using assms(5,6) by (simp add: manageCachePressure_def cleanup_expired_nonce_cache_def removed_def)
  have only: "q = row" if "q \<in> set rows" "same_nonce (er_tenant r) (er_nonce r) q" for q
  proof -
    have "inj_on (\<lambda>r. (nc_tenant r, nc_nonce r)) (set rows)" using assms(2) by (simp add: nonces_unique_def distinct_map)
    from inj_onD [OF this _ that(1) assms(1)] show ?thesis using that(2) assms(7) by (simp add: same_nonce_def)
  qed
  have "find (same_nonce (er_tenant r) (er_nonce r)) (fst (manageCachePressure cfg (True, True, True) drawn now rows)) = None"
    unfolding m find_None_iff using only assms(3,4) by auto
  then show ?thesis using assms(8-10) by (simp add: checkAndRegisterEnvelope_def register_envelope_nonce_def)
qed

lemma distinct_key_once:
  assumes "distinct (map f xs)"
  shows "length (filter (\<lambda>x. f x = k) xs) \<le> 1"
  using assms
proof (induction xs)
  case (Cons a xs)
  show ?case
  proof (cases "f a = k")
    case True
    then have "filter (\<lambda>x. f x = k) xs = []" using Cons.prems by (auto simp: filter_empty_conv image_iff)
    then show ?thesis by simp
  next
    case False
    then show ?thesis using Cons by simp
  qed
qed simp

lemma repeated_unique:
  assumes "nonces_unique rows" "\<forall>r\<in>set rows. nc_tenant r = t"
  shows "repeated rows = []"
proof -
  have "distinct (map nc_nonce rows)"
    using assms by (auto simp: nonces_unique_def distinct_map inj_on_def)
  from distinct_key_once [OF this] show ?thesis by (auto simp: repeated_def filter_empty_conv not_less)
qed

lemma same_nonce_once: "nonces_unique rows \<Longrightarrow> length (filter (same_nonce t n) rows) \<le> 1"
  using distinct_key_once [of "\<lambda>r. (nc_tenant r, nc_nonce r)" rows "(t, n)"]
  by (simp add: nonces_unique_def same_nonce_def [abs_def])

text \<open>
  A refused envelope leaves no row, and the index allows one row per nonce, so however many replays
  are refused, the reports list none, the statistics count none and no attack pattern is detected.
\<close>

theorem replays_never_counted:
  assumes "(nonce_step sampled uuid cfg)\<^sup>*\<^sup>* (start, []) (now, rows)"
  shows "getRecentReplayAttempts db_ok now tenant window rows = [] \<and> cs_replays (getNonceCacheStats db_ok now tenant rows) = 0 \<and>
    (detectReplayAttackPattern db_ok now tenant threshold window rows \<longleftrightarrow> db_ok \<and> threshold \<le> 0)"
proof -
  have u: "nonces_unique rows" using run_unique [OF assms] by (simp add: nonces_unique_def)
  then have f: "nonces_unique (filter P rows)" for P by (simp add: nonces_unique_def distinct_map_filter)
  have "repeated (filter (\<lambda>r. nc_tenant r = tenant \<and> P r) rows) = []" for P
    by (rule repeated_unique [OF f, of _ tenant]) simp
  from this [of "\<lambda>r. now - 60000 * window < nc_seen r"] this [of "\<lambda>_. True"]
  have "repeated (filter (\<lambda>r. nc_tenant r = tenant \<and> now - 60000 * window < nc_seen r) rows) = []"
    "repeated (filter (\<lambda>r. nc_tenant r = tenant) rows) = []" by simp_all
  moreover have "\<not> 1 < length (filter (same_nonce tenant n) rows)" for n using same_nonce_once [OF u, of tenant n] by simp
  ultimately show ?thesis
    by (simp add: getRecentReplayAttempts_def get_replay_attempts_def getNonceCacheStats_def detectReplayAttackPattern_def Let_def)
qed

text \<open>
  The sampling of the warm path changes nothing: the answer does not depend on the random number.
\<close>

theorem warm_path_not_probabilistic:
  "checkNonceWithTiering cfg db_ok x now tenant nonce seenAt rows = checkNonceWithTiering cfg db_ok y now tenant nonce seenAt rows"
  by (simp add: checkNonceWithTiering_def Let_def)

lemma unreadable_emission_valid:
  "s \<noteq> [] \<Longrightarrow> date s = NaN \<Longrightarrow> verifyEnvelopeExpiration date cfg now (Some s) = (True, None)"
  by (simp add: verifyEnvelopeExpiration_def or_null_def jsub_def)

section \<open>Samples\<close>

text \<open>An envelope is registered at time zero; fifty-one minutes later the cache, kept very small, is nearly full.\<close>

definition sample_request :: envelope_request where
  "sample_request = \<lparr>er_tenant = ''t'', er_envelope = ''e'', er_nonce = ''n'', er_expires = 3600000, er_key = None, er_source = None,
     er_consumer = None\<rparr>"

definition sample_row :: nonce_row where
  "sample_row = \<lparr>nc_tenant = ''t'', nc_envelope = ''e'', nc_nonce = ''n'', nc_key = None, nc_expires = 3600000, nc_seen = 0, nc_source = None,
     nc_consumer = None, nc_created = 0\<rparr>"

definition sample_cache :: replay_config where
  "sample_cache = EnvelopeReplayPreventionService None (Some (Fin 216)) None"

lemma sample_registered:
  "checkAndRegisterEnvelope (\<lambda>_. True) None 0 sample_request [] =
     ([sample_row], \<lparr>cr_allowed = True, cr_reason = Some ''Nonce registered successfully'', cr_previouslySeen = False, cr_seenAt = None\<rparr>)"
  by (simp add: checkAndRegisterEnvelope_def register_envelope_nonce_def sample_request_def sample_row_def fits_def or_null_def)

lemma sample_run: "(nonce_step sampled (\<lambda>_. True) cfg)\<^sup>*\<^sup>* (0, []) (0, [sample_row])"
  using nonce_step.check [of sampled "\<lambda>_. True" cfg 0 "[]" None sample_request] by (simp add: sample_registered)

lemma envelope_accepted_once_witness:
  "\<not> cr_allowed (snd (checkAndRegisterEnvelope (\<lambda>_. True) None 60000 sample_request [sample_row]))"
  by (rule envelope_accepted_once [OF sample_registered _ r_into_rtranclp, where cfg = sample_cache])
    (auto simp: sample_request_def intro: nonce_step.later)

lemma sampled_deletion_admits_replay_witness:
  "cr_allowed (snd (checkAndRegisterEnvelope (\<lambda>_. True) None 3060000 sample_request
     (fst (manageCachePressure sample_cache (True, True, True) (\<lambda>_. True) 3060000 [sample_row]))))"
proof (rule sampled_deletion_admits_replay [where row = sample_row])
  show "jlt (rp_pressurePercent sample_cache) (pressurePercent sample_cache 3060000 [sample_row])"
    "\<not> jlt (Fin 100) (pressurePercent sample_cache 3060000 [sample_row])"
    by code_simp+
qed (auto simp: sample_request_def sample_row_def nonces_unique_def same_nonce_def fits_def or_null_def)

lemma replays_never_counted_witness:
  "getRecentReplayAttempts True 0 ''t'' 60 [sample_row] = []"
  using replays_never_counted [OF sample_run, of True "''t''" 60 5] by simp

end
