(* ===== verification/TraceTrust.thy ===== *)
theory TraceTrust
  imports JsValue
begin

text \<open>
  The validation of traces, \<open>apps/api/validators/trace-completeness-validator.ts\<close> and
  \<open>apps/api/validators/trace-trust-evaluator.ts\<close>, over the table \<open>mutation_lifecycle_events\<close>: completeness of
  the stages, the graph of the spans, and what the verdict allows an automation to do. Times are
  microseconds; whether the queries of a trace succeed is an argument, and so is the number of stack frames
  the recursive walks may use.
\<close>

section \<open>Events and stages\<close>

record lifecycle_event =
  ev_trace :: string
  ev_correlation :: string
  ev_span :: string
  ev_parent :: "string option"
  ev_state :: string
  ev_status :: string
  ev_duration :: int
  ev_recorded :: int

definition HTTP_LIFECYCLE_STAGES :: "string list" where
  "HTTP_LIFECYCLE_STAGES = [''INTENT_RECEIVED'', ''MUTATION_DISPATCHED'', ''API_ACCEPTED'', ''STATE_PERSISTED'', ''AUDIT_SNAPSHOTTED'',
     ''QUERY_INVALIDATED'', ''CACHE_REFRESH_REQUESTED'', ''QUERY_REFETCHED'', ''UI_RECONCILED'', ''STATE_VERIFIED'']"

definition EXPECTED_LIFECYCLE_STAGES :: "string list" where
  "EXPECTED_LIFECYCLE_STAGES = HTTP_LIFECYCLE_STAGES"

definition STAGE_ORDER :: "(string, nat) jmap" where
  "STAGE_ORDER = zip EXPECTED_LIFECYCLE_STAGES [0..<length EXPECTED_LIFECYCLE_STAGES]"

text \<open>The states the check constraint of the table admits, as the migrations leave it.\<close>

definition MIGRATED_STATES :: "string list" where
  "MIGRATED_STATES = [''INTENT_RECEIVED'', ''MUTATION_DISPATCHED'', ''API_ACCEPTED'', ''STATE_PERSISTED'', ''AUDIT_SNAPSHOTTED'',
     ''QUERY_INVALIDATED'', ''CACHE_REFRESH_REQUESTED'', ''QUERY_REFETCHED'', ''UI_RECONCILED'', ''OPERATOR_ACKNOWLEDGED'',
     ''QUEUE_ENQUEUED'', ''JOB_EXECUTION_START'', ''JOB_EXECUTION_SUCCESS'', ''JOB_EXECUTION_FAILURE'', ''RETRY_SCHEDULED'',
     ''STREAM_BROADCAST_EMITTED'', ''CLIENT_STREAM_RECEIVED'', ''CACHE_EVICTION_EMITTED'']"

text \<open>The events of a trace in the order of their times, those of one time in the order of the table.\<close>

definition trace_events :: "string \<Rightarrow> lifecycle_event list \<Rightarrow> lifecycle_event list" where
  "trace_events traceId table = sort_key ev_recorded (filter (\<lambda>e. ev_trace e = traceId) table)"

section \<open>The graph of the spans\<close>

record span_node =
  sn_parent :: "string option"
  sn_stage :: string
  sn_timestamp :: int
  sn_duration :: int
  sn_status :: string
  sn_children :: "string list"
  sn_depth :: nat

type_synonym span_graph = "(string, span_node) jmap"

definition node_of :: "lifecycle_event \<Rightarrow> span_node" where
  "node_of e = \<lparr>sn_parent = ev_parent e, sn_stage = ev_state e, sn_timestamp = ev_recorded e, sn_duration = ev_duration e,
     sn_status = ev_status e, sn_children = [], sn_depth = 0\<rparr>"

definition no_parent :: "string option \<Rightarrow> bool" where
  "no_parent p = (case p of None \<Rightarrow> True | Some s \<Rightarrow> s = [])"

text \<open>The first event of a span makes its node; the last event without a parent names the root.\<close>

definition add_event_node :: "span_graph \<times> string option \<Rightarrow> lifecycle_event \<Rightarrow> span_graph \<times> string option" where
  "add_event_node acc e = (case acc of (g, rt) \<Rightarrow>
     (if jm_get g (ev_span e) = None then jm_set (ev_span e) (node_of e) g else g,
      if no_parent (ev_parent e) then Some (ev_span e) else rt))"

definition add_child :: "span_graph \<Rightarrow> string \<times> span_node \<Rightarrow> span_graph" where
  "add_child g entry = (case entry of (spanId, node) \<Rightarrow>
     (case sn_parent node of
        None \<Rightarrow> g
      | Some p \<Rightarrow>
          if p = [] then g
          else (case jm_get g p of
                  None \<Rightarrow> g
                | Some parent \<Rightarrow> jm_set p (parent\<lparr>sn_children := sn_children parent @ [spanId]\<rparr>) g)))"

definition link_spans :: "span_graph \<Rightarrow> span_graph" where
  "link_spans g = foldl add_child g g"

fun calculateDepths :: "nat \<Rightarrow> span_graph \<Rightarrow> string \<Rightarrow> nat \<Rightarrow> span_graph option"
and child_depths :: "nat \<Rightarrow> span_graph \<Rightarrow> string list \<Rightarrow> nat \<Rightarrow> span_graph option" where
  "calculateDepths 0 g spanId depth = None"
| "calculateDepths (Suc frames) g spanId depth =
     (case jm_get g spanId of
        None \<Rightarrow> Some g
      | Some node \<Rightarrow> child_depths frames (jm_set spanId (node\<lparr>sn_depth := depth\<rparr>) g) (sn_children node) (depth + 1))"
| "child_depths frames g [] depth = Some g"
| "child_depths frames g (c # cs) depth =
     (case calculateDepths frames g c depth of
        None \<Rightarrow> None
      | Some g' \<Rightarrow> child_depths frames g' cs depth)"

fun findAllPaths :: "nat \<Rightarrow> span_graph \<Rightarrow> string \<Rightarrow> string list \<Rightarrow> string list list \<Rightarrow> string list list option"
and child_paths :: "nat \<Rightarrow> span_graph \<Rightarrow> string list \<Rightarrow> string list \<Rightarrow> string list list \<Rightarrow> string list list option" where
  "findAllPaths 0 g spanId currentPath allPaths = None"
| "findAllPaths (Suc frames) g spanId currentPath allPaths =
     (case jm_get g spanId of
        None \<Rightarrow> Some allPaths
      | Some node \<Rightarrow>
          if sn_children node = [] then Some (allPaths @ [currentPath])
          else child_paths frames g (sn_children node) currentPath allPaths)"
| "child_paths frames g [] currentPath allPaths = Some allPaths"
| "child_paths frames g (c # cs) currentPath allPaths =
     (case findAllPaths frames g c (currentPath @ [c]) allPaths of
        None \<Rightarrow> None
      | Some allPaths' \<Rightarrow> child_paths frames g cs currentPath allPaths')"

record trace_reconstruction =
  rc_root :: "string option"
  rc_graph :: span_graph
  rc_linear :: bool
  rc_branches :: int
  rc_paths :: "string list list"

datatype trace_error = Query_failed | Stack_overflow

text \<open>An empty span id is no root either.\<close>

definition root_walk :: "string option \<Rightarrow> (string \<Rightarrow> 'a option) \<Rightarrow> 'a \<Rightarrow> 'a option" where
  "root_walk rt f x = (case rt of None \<Rightarrow> Some x | Some r \<Rightarrow> if r = [] then Some x else f r)"

definition reconstruct_events :: "nat \<Rightarrow> lifecycle_event list \<Rightarrow> trace_error + trace_reconstruction" where
  "reconstruct_events frames events =
     (let (nodes, rt) = foldl add_event_node ([], None) events; linked = link_spans nodes
      in case root_walk rt (\<lambda>r. calculateDepths frames linked r 0) linked of
           None \<Rightarrow> Inl Stack_overflow
         | Some g \<Rightarrow>
             (case root_walk rt (\<lambda>r. findAllPaths frames g r [r] []) [] of
                None \<Rightarrow> Inl Stack_overflow
              | Some paths \<Rightarrow>
                  Inr \<lparr>rc_root = rt, rc_graph = g, rc_linear = list_all (\<lambda>(_, n). length (sn_children n) \<le> 1) g,
                       rc_branches = int (length g) - int (length paths), rc_paths = paths\<rparr>))"

definition reconstructSpanGraph :: "bool \<Rightarrow> nat \<Rightarrow> string \<Rightarrow> lifecycle_event list \<Rightarrow> trace_error + trace_reconstruction" where
  "reconstructSpanGraph db_ok frames traceId table =
     (if db_ok then reconstruct_events frames (trace_events traceId table) else Inl Query_failed)"

text \<open>The number of unreachable spans is declared and never counted.\<close>

definition calculateSpanDepth :: "span_graph \<Rightarrow> nat \<times> nat" where
  "calculateSpanDepth g = (foldl (\<lambda>m (_, n). max m (sn_depth n)) 0 g, 0)"

section \<open>Completeness\<close>

record ordering_violation =
  vo_from :: string
  vo_to :: string
  vo_reason :: string

record trace_completeness =
  tc_trace :: string
  tc_correlation :: string
  tc_complete :: bool
  tc_observed :: "string list"
  tc_missing :: "string list"
  tc_ordered :: bool
  tc_violations :: "ordering_violation list"
  tc_spans :: nat
  tc_linked :: bool
  tc_orphans :: "string list"
  tc_maxDepth :: nat
  tc_unreachable :: nat
  tc_score :: jsnum

definition violation :: "string \<Rightarrow> string \<Rightarrow> ordering_violation option" where
  "violation current nxt =
     (case (jm_get STAGE_ORDER current, jm_get STAGE_ORDER nxt) of
        (Some a, Some b) \<Rightarrow>
          if b < a
          then Some \<lparr>vo_from = current, vo_to = nxt,
                     vo_reason = ''Stage '' @ nxt @ '' (order '' @ nat_str b @ '') comes after '' @ current @ '' (order '' @ nat_str a @ '')''\<rparr>
          else None
      | _ \<Rightarrow> None)"

fun ordering_violations :: "string list \<Rightarrow> ordering_violation list" where
  "ordering_violations (a # b # ss) = (case violation a b of None \<Rightarrow> [] | Some v \<Rightarrow> [v]) @ ordering_violations (b # ss)"
| "ordering_violations ss = []"

definition is_orphan :: "lifecycle_event list \<Rightarrow> lifecycle_event \<Rightarrow> bool" where
  "is_orphan events e = (case ev_parent e of None \<Rightarrow> False | Some p \<Rightarrow> p \<notin> ev_span ` set events)"

definition no_trace :: "string \<Rightarrow> trace_completeness" where
  "no_trace traceId = \<lparr>tc_trace = traceId, tc_correlation = ''unknown'', tc_complete = False, tc_observed = [],
     tc_missing = EXPECTED_LIFECYCLE_STAGES, tc_ordered = False, tc_violations = [], tc_spans = 0, tc_linked = False, tc_orphans = [],
     tc_maxDepth = 0, tc_unreachable = 0, tc_score = Fin 0\<rparr>"

definition stage_score :: "nat \<Rightarrow> jsnum" where
  "stage_score missing =
     jmul (jdiv (Fin (of_int (int (length EXPECTED_LIFECYCLE_STAGES) - int missing))) (Fin (of_nat (length EXPECTED_LIFECYCLE_STAGES)))) (Fin 40)"

definition completeness_score :: "nat \<Rightarrow> bool \<Rightarrow> bool \<Rightarrow> bool \<Rightarrow> jsnum" where
  "completeness_score missing ordered linked reachable =
     jround (jadd (jadd (jadd (stage_score missing) (Fin (if ordered then 30 else 0))) (Fin (if linked then 20 else 0)))
       (Fin (if reachable then 10 else 0)))"

definition validate_events :: "nat \<Rightarrow> string \<Rightarrow> lifecycle_event list \<Rightarrow> trace_error + trace_completeness" where
  "validate_events frames traceId events =
     (if events = [] then Inr (no_trace traceId)
      else (let observed = uniq (map ev_state events); missing = filter (\<lambda>s. s \<notin> set observed) EXPECTED_LIFECYCLE_STAGES;
                violations = ordering_violations (map ev_state events);
                orphans = uniq (map ev_span (filter (is_orphan events) events)); linked = (orphans = [])
            in case reconstruct_events frames events of
                 Inl e \<Rightarrow> Inl e
               | Inr rc \<Rightarrow>
                   (let (maxDepth, unreachable) = calculateSpanDepth (rc_graph rc)
                    in Inr \<lparr>tc_trace = traceId, tc_correlation = ev_correlation (hd events),
                            tc_complete = (missing = [] \<and> violations = [] \<and> linked \<and> orphans = []), tc_observed = observed,
                            tc_missing = missing, tc_ordered = (violations = []), tc_violations = violations,
                            tc_spans = card (ev_span ` set events), tc_linked = linked, tc_orphans = orphans, tc_maxDepth = maxDepth,
                            tc_unreachable = unreachable,
                            tc_score = completeness_score (length missing) (violations = []) linked (unreachable = 0)\<rparr>)))"

definition validateTraceCompleteness :: "bool \<Rightarrow> nat \<Rightarrow> string \<Rightarrow> lifecycle_event list \<Rightarrow> trace_error + trace_completeness" where
  "validateTraceCompleteness db_ok frames traceId table =
     (if db_ok then validate_events frames traceId (trace_events traceId table) else Inl Query_failed)"

fun validateTraceBatch ::
  "(string \<Rightarrow> bool) \<Rightarrow> nat \<Rightarrow> lifecycle_event list \<Rightarrow> string list \<Rightarrow> (string, trace_completeness) jmap \<Rightarrow>
     trace_error + (string, trace_completeness) jmap" where
  "validateTraceBatch db_ok frames table [] results = Inr results"
| "validateTraceBatch db_ok frames table (t # ts) results =
     (case validateTraceCompleteness (db_ok t) frames t table of
        Inl e \<Rightarrow> Inl e
      | Inr c \<Rightarrow> validateTraceBatch db_ok frames table ts (jm_set t c results))"

record trace_audit_report =
  ar_total :: nat
  ar_complete :: nat
  ar_incomplete :: int
  ar_rate :: jsnum
  ar_missing :: "(string \<times> nat) list"
  ar_orphan_incidents :: nat
  ar_ordering_incidents :: nat
  ar_issues :: "string list"

definition critical_issues :: "trace_completeness \<Rightarrow> string list" where
  "critical_issues c =
     (if 1 < length (tc_orphans c) then [''Trace '' @ tc_trace c @ '': '' @ nat_str (length (tc_orphans c)) @ '' orphan spans detected''] else []) @
     (if tc_violations c \<noteq> []
      then [''Trace '' @ tc_trace c @ '': Stage ordering violation ('' @ nat_str (length (tc_violations c)) @ '' violations)''] else []) @
     (if jlt (tc_score c) (Fin 50) then [''Trace '' @ tc_trace c @ '': Low completeness score ('' @ num_string (tc_score c) @ ''/100)''] else [])"

definition count_missing :: "trace_completeness list \<Rightarrow> (string, nat) jmap" where
  "count_missing cs = foldl (\<lambda>m s. jm_set s (case jm_get m s of None \<Rightarrow> 1 | Some n \<Rightarrow> n + 1) m) [] (concat (map tc_missing cs))"

definition percent :: "nat \<Rightarrow> nat \<Rightarrow> jsnum" where
  "percent n total_count = (if 0 < total_count then jmul (jdiv (rnd64 (of_nat n)) (rnd64 (of_nat total_count))) (Fin 100) else Fin 0)"

text \<open>The traces of the last days, in some order that the database gives them.\<close>

definition generateTraceAuditReport ::
  "bool \<Rightarrow> (string \<Rightarrow> bool) \<Rightarrow> nat \<Rightarrow> string list \<Rightarrow> lifecycle_event list \<Rightarrow> trace_error + trace_audit_report" where
  "generateTraceAuditReport list_ok db_ok frames traceIds table =
     (if \<not> list_ok then Inl Query_failed
      else (case validateTraceBatch db_ok frames table traceIds [] of
              Inl e \<Rightarrow> Inl e
            | Inr results \<Rightarrow>
                (let cs = map snd results; complete = length (filter tc_complete cs)
                 in Inr \<lparr>ar_total = length traceIds, ar_complete = complete, ar_incomplete = int (length traceIds) - int complete,
                         ar_rate = percent complete (length traceIds),
                         ar_missing = take 5 (sort_by (\<lambda>a b. snd b < snd a) (count_missing cs)),
                         ar_orphan_incidents = length (filter (\<lambda>c. tc_orphans c \<noteq> []) cs),
                         ar_ordering_incidents = length (filter (\<lambda>c. tc_violations c \<noteq> []) cs),
                         ar_issues = take 10 (concat (map critical_issues cs))\<rparr>)))"

section \<open>Trust\<close>

datatype trust_level = TRUSTED | DEGRADED | UNTRUSTWORTHY

definition STAGE_WEIGHTS :: "(string, nat) jmap" where
  "STAGE_WEIGHTS = [(''INTENT_RECEIVED'', 5), (''MUTATION_DISPATCHED'', 5), (''API_ACCEPTED'', 10), (''STATE_PERSISTED'', 25),
     (''AUDIT_SNAPSHOTTED'', 5), (''QUERY_INVALIDATED'', 25), (''CACHE_REFRESH_REQUESTED'', 10), (''QUERY_REFETCHED'', 15),
     (''UI_RECONCILED'', 10), (''STATE_VERIFIED'', 10)]"

definition stage_weight :: "string \<Rightarrow> nat" where
  "stage_weight s = (case jm_get STAGE_WEIGHTS s of Some w \<Rightarrow> w | None \<Rightarrow> 0)"

definition TOTAL_STAGE_WEIGHT :: nat where
  "TOTAL_STAGE_WEIGHT = sum_list (map snd STAGE_WEIGHTS)"

definition weighted_score :: "nat \<Rightarrow> jsnum" where
  "weighted_score w = jround (jmul (jdiv (Fin (of_nat w)) (Fin (of_nat TOTAL_STAGE_WEIGHT))) (Fin 100))"

definition calculateWeightedCompletenessScore :: "trace_completeness \<Rightarrow> jsnum" where
  "calculateWeightedCompletenessScore c = weighted_score (sum_list (map stage_weight (tc_observed c)))"

text \<open>The distances between consecutive events in the order of their times.\<close>

fun gaps :: "int list \<Rightarrow> int list" where
  "gaps (a # b # ts) = (b - a) # gaps (b # ts)"
| "gaps ts = []"

definition temporal_ok :: "lifecycle_event list \<Rightarrow> bool" where
  "temporal_ok events =
     (let ds = gaps (map ev_recorded events)
      in length (filter (\<lambda>d. d < 0) ds) = 0 \<and> length (filter (\<lambda>d. 300000000 < d) ds) = 0)"

definition validateTemporalConsistency :: "bool \<Rightarrow> string \<Rightarrow> lifecycle_event list \<Rightarrow> trace_error + bool" where
  "validateTemporalConsistency db_ok traceId table =
     (if db_ok then Inr (temporal_ok (trace_events traceId table)) else Inl Query_failed)"

definition validateSpanCardinality :: "nat \<Rightarrow> bool" where
  "validateSpanCardinality spanCount = (spanCount \<le> 40)"

record trust_assessment =
  ta_trace :: string
  ta_level :: trust_level
  ta_safe :: bool
  ta_score :: jsnum
  ta_weighted :: jsnum
  ta_ordered :: bool
  ta_linked :: bool
  ta_reachable :: bool
  ta_temporal :: bool
  ta_cardinality :: bool
  ta_reasons :: "string list"
  ta_full :: bool
  ta_suggest :: bool
  ta_escalate :: bool
  ta_critical :: "string list"
  ta_severe :: "string list"

definition severe_issues :: "trace_completeness \<Rightarrow> string list \<Rightarrow> bool \<Rightarrow> string list" where
  "severe_issues c critical temporal =
     map (\<lambda>s. ''CRITICAL: Missing '' @ s @ '' (weight: '' @ nat_str (stage_weight s) @ '')'') critical @
     (if temporal then [] else [''SEVERE: Timestamp ordering anomaly detected (possible clock skew or impossible latencies)'']) @
     (if tc_linked c then [] else [''SEVERE: orphan spans detected ('' @ nat_str (length (tc_orphans c)) @ '' broken parent-child links)'']) @
     (if validateSpanCardinality (tc_spans c) then []
      else [''SEVERE: Abnormal span explosion ('' @ nat_str (tc_spans c) @ '' spans, threshold ~30)''])"

definition blocked_reasons :: "trace_completeness \<Rightarrow> string list \<Rightarrow> bool \<Rightarrow> string list" where
  "blocked_reasons c critical temporal =
     [''Trace contains critical gaps or structural anomalies''] @
     (if jlt (tc_score c) (Fin 60) then [''Completeness too low ('' @ num_string (tc_score c) @ ''/100, threshold 60)''] else []) @
     (if critical \<noteq> [] then [''Missing critical stages: '' @ join '', '' critical] else []) @
     (if tc_linked c then [] else [''Orphan spans detected (broken parent-child linkage)'']) @
     (if temporal then [] else [''Temporal anomaly (impossible timing or clock skew)'']) @
     (if validateSpanCardinality (tc_spans c) then [] else [''Abnormal span cardinality (possible retry storm)''])"

definition degraded_reasons :: "trace_completeness \<Rightarrow> jsnum \<Rightarrow> string list" where
  "degraded_reasons c weighted =
     [''Trace has minor gaps; suggest-only mode enabled''] @
     (if jlt (tc_score c) (Fin 90) then [''Completeness approaching threshold ('' @ num_string (tc_score c) @ ''/100)''] else []) @
     (if jlt weighted (Fin 85) then [''Weighted completeness low ('' @ num_string weighted @ ''/100)''] else []) @
     (if tc_violations c \<noteq> [] then [nat_str (length (tc_violations c)) @ '' stage ordering anomalies detected''] else [])"

definition trust_verdict :: "trace_completeness \<Rightarrow> bool \<Rightarrow> trust_assessment" where
  "trust_verdict c temporal =
     (let weighted = calculateWeightedCompletenessScore c;
          critical = (if jlt weighted (Fin 100) then filter (\<lambda>s. 20 \<le> stage_weight s) (tc_missing c) else []);
          cardinal = validateSpanCardinality (tc_spans c); severe = severe_issues c critical temporal;
          verdict = (\<lambda>level reasons. \<lparr>ta_trace = tc_trace c, ta_level = level, ta_safe = (level = TRUSTED), ta_score = tc_score c,
             ta_weighted = weighted, ta_ordered = tc_ordered c, ta_linked = tc_linked c, ta_reachable = (tc_unreachable c = 0),
             ta_temporal = temporal, ta_cardinality = cardinal, ta_reasons = reasons, ta_full = (level = TRUSTED),
             ta_suggest = (level = DEGRADED), ta_escalate = (level = UNTRUSTWORTHY), ta_critical = critical, ta_severe = severe\<rparr>)
      in if jlt (tc_score c) (Fin 60) \<or> critical \<noteq> [] \<or> severe \<noteq> [] \<or> \<not> tc_linked c \<or> \<not> temporal \<or> \<not> cardinal
         then verdict UNTRUSTWORTHY (blocked_reasons c critical temporal)
         else if jlt (tc_score c) (Fin 90) \<or> jlt weighted (Fin 85) \<or> tc_violations c \<noteq> []
         then verdict DEGRADED (degraded_reasons c weighted)
         else verdict TRUSTED [''Trace is complete, ordered, and structurally sound'', ''Completeness: '' @ num_string (tc_score c) @ ''/100'',
                ''Weighted score: '' @ num_string weighted @ ''/100''])"

definition evaluateTraceTrust :: "bool \<Rightarrow> trace_completeness \<Rightarrow> lifecycle_event list \<Rightarrow> trace_error + trust_assessment" where
  "evaluateTraceTrust db_ok c table =
     (case validateTemporalConsistency db_ok (tc_trace c) table of
        Inl e \<Rightarrow> Inl e
      | Inr temporal \<Rightarrow> Inr (trust_verdict c temporal))"




fun evaluateTraceTrustBatch ::
  "(string \<Rightarrow> bool) \<Rightarrow> nat \<Rightarrow> lifecycle_event list \<Rightarrow> (string, trace_completeness) jmap \<Rightarrow> string list \<Rightarrow>
     (string, trust_assessment) jmap \<Rightarrow> trace_error + (string, trust_assessment) jmap" where
  "evaluateTraceTrustBatch db_ok frames table completenessMap [] results = Inr results"
| "evaluateTraceTrustBatch db_ok frames table completenessMap (t # ts) results =
     (case jm_get completenessMap t of
        None \<Rightarrow> evaluateTraceTrustBatch db_ok frames table completenessMap ts results
      | Some c \<Rightarrow>
          (case reconstructSpanGraph (db_ok t) frames t table of
             Inl e \<Rightarrow> Inl e
           | Inr _ \<Rightarrow>
               (case evaluateTraceTrust (db_ok t) c table of
                  Inl e \<Rightarrow> Inl e
                | Inr a \<Rightarrow> evaluateTraceTrustBatch db_ok frames table completenessMap ts (jm_set t a results))))"

definition generateRecommendations :: "nat \<Rightarrow> nat \<Rightarrow> string list" where
  "generateRecommendations trustedCount totalTraces =
     (let p = percent trustedCount totalTraces
      in (if jlt p (Fin 80) then [''Trust percentage below 80% - investigate root causes''] else []) @
         (if jlt p (Fin 70) then [''CRITICAL: Only 70% of traces are automation-safe - disable automation''] else []) @
         (if jlt (Fin 95) p then [''Trace quality excellent - automation safe''] else []))"

record trust_audit_report =
  tr_total :: nat
  tr_trusted :: nat
  tr_degraded :: nat
  tr_untrustworthy :: nat
  tr_trust :: jsnum
  tr_automation_safe :: jsnum
  tr_gaps :: "(string \<times> nat) list"
  tr_issues :: "(string \<times> nat) list"
  tr_recommendations :: "string list"

text \<open>The loop over the traces has no body, so the counters stay at zero.\<close>

definition generateTrustAuditReport :: "bool \<Rightarrow> string list \<Rightarrow> trace_error + trust_audit_report" where
  "generateTrustAuditReport list_ok traceIds =
     (if \<not> list_ok then Inl Query_failed
      else Inr \<lparr>tr_total = length traceIds, tr_trusted = 0, tr_degraded = 0, tr_untrustworthy = 0, tr_trust = percent 0 (length traceIds),
             tr_automation_safe = percent 0 (length traceIds), tr_gaps = [], tr_issues = [],
             tr_recommendations = generateRecommendations 0 (length traceIds)\<rparr>)"

section \<open>Laws of the graph\<close>

abbreviation "event_nodes events \<equiv> fst (foldl add_event_node ([], None) events)"
abbreviation "event_root events \<equiv> snd (foldl add_event_node ([], None) events)"

lemma add_event_node_pair: "add_event_node (g, rt) e =
    (if jm_get g (ev_span e) = None then jm_set (ev_span e) (node_of e) g else g, if no_parent (ev_parent e) then Some (ev_span e) else rt)"
  by (simp add: add_event_node_def)

lemma event_nodes_from:
  "jm_get (fst (foldl add_event_node (g, rt) events)) s =
     (case jm_get g s of Some n \<Rightarrow> Some n | None \<Rightarrow> map_option node_of (find (\<lambda>e. ev_span e = s) events))"
proof (induction events arbitrary: g rt)
  case (Cons e es)
  show ?case by (cases "jm_get g (ev_span e)") (auto simp: add_event_node_pair Cons update_conv' split: option.splits)
qed (simp split: option.split)

lemma event_nodes_get: "jm_get (event_nodes events) s = map_option node_of (find (\<lambda>e. ev_span e = s) events)"
  by (simp add: event_nodes_from)

lemma event_root_from:
  "snd (foldl add_event_node (g, rt) events) = Some r \<Longrightarrow> rt = Some r \<or> (\<exists>e\<in>set events. ev_span e = r \<and> no_parent (ev_parent e))"
proof (induction events arbitrary: g rt)
  case (Cons e es)
  from Cons.IH [of "fst (add_event_node (g, rt) e)" "snd (add_event_node (g, rt) e)"] Cons.prems
  show ?case by (auto simp: add_event_node_pair split: if_splits)
qed simp

lemma event_root_event: "event_root events = Some r \<Longrightarrow> \<exists>e\<in>set events. ev_span e = r \<and> no_parent (ev_parent e)"
  using event_root_from by fastforce

lemma event_keys_from: "set (jm_keys (fst (foldl add_event_node (g, rt) events))) = set (jm_keys g) \<union> ev_span ` set events"
proof (induction events arbitrary: g rt)
  case (Cons e es)
  then show ?case by (cases "jm_get g (ev_span e)") (auto simp: add_event_node_pair dom_update jm_get_None_iff dest: map_of_SomeD intro: rev_image_eqI)
qed simp

lemma distinct_event_keys_from: "distinct (jm_keys g) \<Longrightarrow> distinct (jm_keys (fst (foldl add_event_node (g, rt) events)))"
proof (induction events arbitrary: g rt)
  case (Cons e es)
  then show ?case by (simp add: add_event_node_pair distinct_update)
qed simp

definition child_ids :: "span_graph \<Rightarrow> string \<Rightarrow> string list" where
  "child_ids es p = map fst (filter (\<lambda>(s, m). sn_parent m = Some p \<and> p \<noteq> []) es)"

lemma add_child_pair: "add_child g (spanId, node) =
    (case sn_parent node of None \<Rightarrow> g | Some p \<Rightarrow> if p = [] then g
       else (case jm_get g p of None \<Rightarrow> g | Some parent \<Rightarrow> jm_set p (parent\<lparr>sn_children := sn_children parent @ [spanId]\<rparr>) g))"
  by (simp add: add_child_def)

lemma linked_get:
  "jm_get (foldl add_child g es) p = map_option (\<lambda>n. n\<lparr>sn_children := sn_children n @ child_ids es p\<rparr>) (jm_get g p)"
proof (induction es arbitrary: g)
  case Nil
  show ?case by (simp add: child_ids_def option.map_ident)
next
  case (Cons e es)
  obtain s m where e: "e = (s, m)" by fastforce
  show ?case unfolding foldl_Cons Cons
    by (cases "jm_get g p") (auto simp: e add_child_pair child_ids_def update_conv' split: option.splits)
qed

lemma linked_children:
  assumes "jm_get (link_spans (event_nodes events)) p = Some n"
  shows "sn_children n = child_ids (event_nodes events) p"
  using assms by (auto simp: link_spans_def linked_get event_nodes_get node_of_def)

lemma child_parent: "c \<in> set (child_ids (event_nodes events) p) \<Longrightarrow>
    p \<noteq> [] \<and> (\<exists>e. find (\<lambda>e. ev_span e = c) events = Some e \<and> ev_parent e = Some p)"
proof -
  assume "c \<in> set (child_ids (event_nodes events) p)"
  then obtain m where m: "(c, m) \<in> set (event_nodes events)" "sn_parent m = Some p" "p \<noteq> []" by (auto simp: child_ids_def)
  then have "jm_get (event_nodes events) c = Some m" using distinct_event_keys_from [of "[]" None events] by simp
  then show ?thesis using m by (auto simp: event_nodes_get node_of_def)
qed

text \<open>The way from a span up to the root, and what the walks rely on.\<close>

fun up_chain :: "span_graph \<Rightarrow> string \<Rightarrow> string list \<Rightarrow> bool" where
  "up_chain g r [] = False"
| "up_chain g r [s] = (s = r)"
| "up_chain g r (s # t # xs) = (s \<in> set (child_ids g t) \<and> up_chain g r (t # xs))"

definition walkable :: "lifecycle_event list \<Rightarrow> span_graph \<Rightarrow> bool" where
  "walkable events g = (\<forall>s. map_option sn_children (jm_get g s) =
     map_option (\<lambda>_. child_ids (event_nodes events) s) (jm_get (event_nodes events) s))"

lemma walkable_linked: "walkable events (link_spans (event_nodes events))"
  by (auto simp: walkable_def link_spans_def linked_get event_nodes_get node_of_def option.map_comp o_def)

lemma walkable_depth:
  "walkable events g \<Longrightarrow> jm_get g s = Some n \<Longrightarrow> walkable events (jm_set s (n\<lparr>sn_depth := d\<rparr>) g)"
  unfolding walkable_def by (metis (no_types, lifting) option.map(2) span_node.select_convs(6) span_node.surjective span_node.update_convs(7) update_conv' fun_upd_apply)

lemma walkable_children: "walkable events g \<Longrightarrow> jm_get g s = Some n \<Longrightarrow> sn_children n = child_ids (event_nodes events) s"
  unfolding walkable_def by (metis (mono_tags, lifting) map_option_eq_Some option.sel)

definition rooted :: "lifecycle_event list \<Rightarrow> string \<Rightarrow> bool" where
  "rooted events r = (r \<in> ev_span ` set events \<and> (\<forall>p. r \<notin> set (child_ids (event_nodes events) p)))"

lemma child_one_parent:
  "c \<in> set (child_ids (event_nodes events) p) \<Longrightarrow> c \<in> set (child_ids (event_nodes events) q) \<Longrightarrow> p = q"
  by (auto dest!: child_parent)

lemma chain_unique:
  assumes "rooted events r" "up_chain (event_nodes events) r (s # xs)" "up_chain (event_nodes events) r (s # ys)"
  shows "xs = ys"
  using assms(2,3)
proof (induction xs arbitrary: s ys)
  case Nil
  then show ?case using assms(1) by (cases ys) (auto simp: rooted_def)
next
  case (Cons t xs)
  then obtain u zs where ys: "ys = u # zs" using assms(1) by (cases ys) (auto simp: rooted_def)
  then have "t = u" using Cons.prems child_one_parent by auto
  then show ?case using Cons ys by auto
qed

lemma chain_suffix: "up_chain g r (as @ s # xs) \<Longrightarrow> up_chain g r (s # xs)"
proof (induction as)
  case (Cons a as)
  then show ?case by (cases as) auto
qed simp

lemma chain_distinct:
  assumes "rooted events r" "up_chain (event_nodes events) r xs"
  shows "distinct xs"
proof (rule ccontr)
  assume "\<not> distinct xs"
  then obtain as bs cs s where "xs = as @ [s] @ bs @ [s] @ cs" using not_distinct_decomp by blast
  then have "up_chain (event_nodes events) r (s # (bs @ s # cs))" "up_chain (event_nodes events) r (s # cs)"
    using assms(2) chain_suffix [of "event_nodes events" r as s] chain_suffix [of "event_nodes events" r "as @ s # bs" s] by simp_all
  from chain_unique [OF assms(1) this] have "length (bs @ s # cs) = length cs" by simp
  then show False by simp
qed

lemma child_span: "c \<in> set (child_ids (event_nodes events) p) \<Longrightarrow> c \<in> ev_span ` set events"
  by (drule child_parent) (auto dest!: find_Some_mem)

lemma chain_spans:
  assumes "rooted events r"
  shows "up_chain (event_nodes events) r xs \<Longrightarrow> set xs \<subseteq> ev_span ` set events"
proof (induction xs)
  case (Cons s xs)
  show ?case
  proof (cases xs)
    case Nil
    then show ?thesis using Cons.prems assms by (simp add: rooted_def)
  next
    case (Cons t ys)
    then show ?thesis using Cons.prems Cons.IH child_span [of s events t] by simp
  qed
qed simp

lemma chain_length:
  assumes "rooted events r" "up_chain (event_nodes events) r xs"
  shows "length xs \<le> card (ev_span ` set events)"
  using chain_distinct [OF assms] chain_spans [OF assms] by (metis List.finite_set card_mono distinct_card finite_imageI)

lemma walkable_None: "walkable events g \<Longrightarrow> jm_get g s = None \<longleftrightarrow> jm_get (event_nodes events) s = None"
  unfolding walkable_def by (metis option.map_disc_iff)

lemma depths_total:
  assumes "rooted events r"
  shows "walkable events g \<Longrightarrow> up_chain (event_nodes events) r (s # xs) \<Longrightarrow> card (ev_span ` set events) \<le> frames + length xs \<Longrightarrow>
      \<exists>g'. calculateDepths frames g s d = Some g' \<and> walkable events g'"
    and "walkable events g \<Longrightarrow> \<forall>c\<in>set cs. up_chain (event_nodes events) r (c # xs) \<Longrightarrow> card (ev_span ` set events) \<le> frames + length xs \<Longrightarrow>
      \<exists>g'. child_depths frames g cs d = Some g' \<and> walkable events g'"
proof (induction frames g s d and frames g cs d arbitrary: xs and xs rule: calculateDepths_child_depths.induct)
  case (1 g s d)
  then show ?case using chain_length [OF assms, of "s # xs"] by simp
next
  case (2 frames g s d)
  show ?case
  proof (cases "jm_get g s")
    case None
    then show ?thesis using 2 by simp
  next
    case (Some n)
    have "\<forall>c\<in>set (sn_children n). up_chain (event_nodes events) r (c # s # xs)"
      using walkable_children [OF 2(2) Some] 2(3) by simp
    from 2(1) [OF Some walkable_depth [OF 2(2) Some] this] 2(4) show ?thesis using Some by simp
  qed
next
  case (3 frames g d)
  then show ?case by simp
next
  case (4 frames g c cs d)
  have "up_chain (event_nodes events) r (c # xs)" "\<forall>c\<in>set cs. up_chain (event_nodes events) r (c # xs)" using 4(4) by simp_all
  note ch = this
  obtain g' where g': "calculateDepths frames g c d = Some g'" "walkable events g'" using 4(1) [OF 4(3) ch(1) 4(5)] by blast
  from 4(2) [OF g'(1,2) ch(2) 4(5)] g'(1) show ?case by simp
qed

definition leaf :: "lifecycle_event list \<Rightarrow> string \<Rightarrow> bool" where
  "leaf events s = (child_ids (event_nodes events) s = [])"

definition paths_below :: "lifecycle_event list \<Rightarrow> string \<Rightarrow> string list \<Rightarrow> string list set" where
  "paths_below events r below = {rev xs | xs. up_chain (event_nodes events) r xs \<and> leaf events (hd xs) \<and> (\<exists>as. xs = as @ below)}"

lemma paths_belowI:
  "up_chain (event_nodes events) r (as @ below) \<Longrightarrow> leaf events (hd (as @ below)) \<Longrightarrow> rev (as @ below) \<in> paths_below events r below"
  unfolding paths_below_def by blast

lemma paths_below_leaf:
  assumes "up_chain (event_nodes events) r (s # xs)" "leaf events s"
  shows "paths_below events r (s # xs) = {rev (s # xs)}"
proof -
  have "as = []" if "up_chain (event_nodes events) r (as @ s # xs)" for as
  proof (cases as rule: rev_cases)
    case (snoc bs b)
    then show ?thesis using chain_suffix [of "event_nodes events" r bs b "s # xs"] that assms(2) by (simp add: leaf_def)
  qed simp
  then have "paths_below events r (s # xs) \<subseteq> {rev (s # xs)}" by (auto simp: paths_below_def)
  moreover have "rev (s # xs) \<in> paths_below events r (s # xs)" using paths_belowI [of events r "[]" "s # xs"] assms by simp
  ultimately show ?thesis by blast
qed

lemma paths_below_children:
  assumes "\<not> leaf events s"
  shows "paths_below events r (s # xs) = (\<Union>c\<in>set (child_ids (event_nodes events) s). paths_below events r (c # s # xs))" (is "?L = ?R")
proof
  show "?L \<subseteq> ?R"
  proof
    fix p assume "p \<in> ?L"
    then obtain ys as where ys: "p = rev ys" "up_chain (event_nodes events) r ys" "leaf events (hd ys)" "ys = as @ s # xs"
      by (auto simp: paths_below_def)
    show "p \<in> ?R"
    proof (cases as rule: rev_cases)
      case Nil
      then show ?thesis using ys assms by simp
    next
      case (snoc bs b)
      then have "b \<in> set (child_ids (event_nodes events) s)"
        using chain_suffix [of "event_nodes events" r bs b "s # xs"] ys by simp
      moreover have "p \<in> paths_below events r (b # s # xs)" 
        using paths_belowI [of events r bs "b # s # xs"] ys snoc by simp
      ultimately show ?thesis by blast
    qed
  qed
  show "?R \<subseteq> ?L"
  proof
    fix p assume "p \<in> ?R"
    then obtain c ys as where "p = rev ys" "up_chain (event_nodes events) r ys" "leaf events (hd ys)" "ys = as @ c # s # xs"
      by (auto simp: paths_below_def)
    moreover from this have "ys = (as @ [c]) @ s # xs" by simp
    ultimately show "p \<in> ?L" unfolding paths_below_def by blast
  qed
qed

lemma paths_total:
  assumes "rooted events r" "walkable events g"
  shows "up_chain (event_nodes events) r (s # xs) \<Longrightarrow> card (ev_span ` set events) \<le> frames + length xs \<Longrightarrow> cur = rev (s # xs) \<Longrightarrow>
      \<exists>ps. findAllPaths frames g s cur acc = Some ps \<and> set ps = set acc \<union> paths_below events r (s # xs)"
    and "\<forall>c\<in>set cs. up_chain (event_nodes events) r (c # xs) \<Longrightarrow> card (ev_span ` set events) \<le> frames + length xs \<Longrightarrow> cur = rev xs \<Longrightarrow>
      \<exists>ps. child_paths frames g cs cur acc = Some ps \<and> set ps = set acc \<union> (\<Union>c\<in>set cs. paths_below events r (c # xs))"
  using assms(2)
proof (induction frames g s cur acc and frames g cs cur acc arbitrary: xs and xs rule: findAllPaths_child_paths.induct)
  case (1 g s cur acc)
  then show ?case using chain_length [OF assms(1), of "s # xs"] by simp
next
  case (2 frames g s cur acc)
  have "s \<in> ev_span ` set events" using chain_spans [OF assms(1) 2(2)] by simp
  then have "jm_get (event_nodes events) s \<noteq> None" by (auto simp: event_nodes_get find_None_iff)
  then obtain n where n: "jm_get g s = Some n" using walkable_None [OF 2(5)] by (metis not_None_eq)
  have ch: "sn_children n = child_ids (event_nodes events) s" by (rule walkable_children [OF 2(5) n])
  show ?case
  proof (cases "leaf events s")
    case True
    then show ?thesis using n ch 2(4) paths_below_leaf [OF 2(2) True] by (simp add: leaf_def)
  next
    case False
    have "sn_children n \<noteq> []" using False ch by (simp add: leaf_def)
    moreover have "\<forall>c\<in>set (sn_children n). up_chain (event_nodes events) r (c # s # xs)" using ch 2(2) by simp
    moreover have "card (ev_span ` set events) \<le> frames + length (s # xs)" using 2(3) by simp
    ultimately show ?thesis using 2(1) [OF n _ _ _ 2(4) 2(5)] n paths_below_children [OF False] ch by simp
  qed
next
  case (3 frames g cur acc)
  then show ?case by simp
next
  case (4 frames g c cs cur acc)
  have ch: "up_chain (event_nodes events) r (c # xs)" "\<forall>c\<in>set cs. up_chain (event_nodes events) r (c # xs)" using 4(3) by simp_all
  have "cur @ [c] = rev (c # xs)" using 4(5) by simp
  from 4(1) [OF ch(1) 4(4) this 4(6)] obtain ps where
    ps: "findAllPaths frames g c (cur @ [c]) acc = Some ps" "set ps = set acc \<union> paths_below events r (c # xs)" by blast
  from 4(2) [OF ps(1) ch(2) 4(4,5,6)] ps show ?case by (auto simp: Un_assoc)
qed

definition spans_agree :: "lifecycle_event list \<Rightarrow> bool" where
  "spans_agree events = (\<forall>e\<in>set events. \<forall>e'\<in>set events. ev_span e = ev_span e' \<longrightarrow> no_parent (ev_parent e) = no_parent (ev_parent e'))"

lemma event_root_rooted:
  assumes "spans_agree events" "event_root events = Some r"
  shows "rooted events r"
proof -
  obtain e where e: "e \<in> set events" "ev_span e = r" "no_parent (ev_parent e)" using event_root_event [OF assms(2)] by blast
  have False if child: "r \<in> set (child_ids (event_nodes events) p)" for p
  proof -
    obtain e' where "find (\<lambda>e. ev_span e = r) events = Some e'" "ev_parent e' = Some p" "p \<noteq> []" using child_parent [OF child] by blast
    moreover from this have "e' \<in> set events" "ev_span e' = r" by (auto dest: find_Some_mem)
    ultimately show False using assms(1) e by (auto simp: spans_agree_def no_parent_def split: option.splits)
  qed
  then show ?thesis using e by (auto simp: rooted_def)
qed

lemma chain_ends: "up_chain g r xs \<Longrightarrow> xs = butlast xs @ [r]"
  by (induction g r xs rule: up_chain.induct) auto

text \<open>The paths the graph stands for: from the root down along the first parents to a span without children.\<close>

definition root_paths :: "lifecycle_event list \<Rightarrow> string list set" where
  "root_paths events = (case event_root events of None \<Rightarrow> {} | Some r \<Rightarrow>
     if r = [] then {} else {rev xs | xs. up_chain (event_nodes events) r xs \<and> leaf events (hd xs)})"

lemma paths_below_root:
  "paths_below events r [r] = {rev xs | xs. up_chain (event_nodes events) r xs \<and> leaf events (hd xs)}"
  unfolding paths_below_def using chain_ends by blast

text \<open>
  C29: The graph of a trace is built, without running out of stack, with as many frames as it has spans, as
  long as no span is reported both with and without a parent; the paths found are then exactly the ways
  from the root to the spans without children.
\<close>

theorem reconstruction_returns:
  assumes "spans_agree events" "card (ev_span ` set events) \<le> frames"
  shows "\<exists>rc. reconstruct_events frames events = Inr rc \<and> rc_root rc = event_root events \<and> set (rc_paths rc) = root_paths events"
proof (cases "event_root events")
  case None
  then show ?thesis by (cases "foldl add_event_node ([], None) events") (simp add: reconstruct_events_def root_walk_def root_paths_def Let_def)
next
  case (Some r)
  obtain nodes where fold: "foldl add_event_node ([], None) events = (nodes, Some r)" using Some by (metis prod.collapse)
  show ?thesis
  proof (cases "r = []")
    case True
    then show ?thesis using Some fold by (simp add: reconstruct_events_def root_walk_def root_paths_def Let_def)
  next
    case False
    have r: "rooted events r" by (rule event_root_rooted [OF assms(1) Some])
    have up: "up_chain (event_nodes events) r [r]" by simp
    have fr: "card (ev_span ` set events) \<le> frames + length ([] :: string list)" using assms(2) by simp
    obtain g where g: "calculateDepths frames (link_spans nodes) r 0 = Some g" "walkable events g"
      using depths_total(1) [OF r walkable_linked up fr, of 0] fold by auto
    obtain ps where ps: "findAllPaths frames g r [r] [] = Some ps" "set ps = paths_below events r [r]"
      using paths_total(1) [OF r g(2) up fr, of "[r]" "[]"] by auto
    show ?thesis using g(1) ps False Some fold
      by (simp add: reconstruct_events_def root_walk_def root_paths_def paths_below_root Let_def)
  qed
qed

lemma depths_walkable:
  "calculateDepths frames g s d = Some g' \<Longrightarrow> walkable events g \<Longrightarrow> walkable events g'"
  "child_depths frames g cs d = Some g' \<Longrightarrow> walkable events g \<Longrightarrow> walkable events g'"
proof (induction frames g s d and frames g cs d arbitrary: g' and g' rule: calculateDepths_child_depths.induct)
  case (2 frames g s d)
  show ?case
  proof (cases "jm_get g s")
    case None
    then show ?thesis using 2 by simp
  next
    case (Some n)
    then show ?thesis using 2(1) [OF Some _ walkable_depth [OF 2(3) Some]] 2(2) by simp
  qed
next
  case (4 frames g c cs d)
  show ?case
  proof (cases "calculateDepths frames g c d")
    case None
    then show ?thesis using 4(3) by simp
  next
    case (Some g1)
    then show ?thesis using 4(2) [OF Some _ 4(1) [OF Some 4(4)]] 4(3) by simp
  qed
qed simp_all

lemma cycle_overflows:
  assumes "\<forall>s\<in>C. \<exists>c\<in>C. c \<in> set (child_ids (event_nodes events) s)" "\<forall>s\<in>C. s \<in> ev_span ` set events"
  shows "walkable events g \<Longrightarrow> s \<in> C \<Longrightarrow> calculateDepths frames g s d = None"
    and "walkable events g \<Longrightarrow> \<exists>c\<in>set cs. c \<in> C \<Longrightarrow> child_depths frames g cs d = None"
proof (induction frames g s d and frames g cs d rule: calculateDepths_child_depths.induct)
  case (1 g s d)
  show ?case by simp
next
  case (2 frames g s d)
  have "jm_get (event_nodes events) s \<noteq> None" using assms(2) 2(3) by (auto simp: event_nodes_get find_None_iff)
  then obtain n where n: "jm_get g s = Some n" using walkable_None [OF 2(2)] by (cases "jm_get g s") simp_all
  obtain c where "c \<in> C" "c \<in> set (child_ids (event_nodes events) s)" using assms(1) 2(3) by meson
  then have "\<exists>c\<in>set (sn_children n). c \<in> C" using walkable_children [OF 2(2) n] by auto
  from 2(1) [OF n walkable_depth [OF 2(2) n] this] n show ?case by simp
next
  case (3 frames g d)
  then show ?case by simp
next
  case (4 frames g c cs d)
  show ?case
  proof (cases "calculateDepths frames g c d")
    case None
    then show ?thesis by simp
  next
    case (Some g')
    then have "c \<notin> C" using 4(1) [OF 4(3)] by auto
    then have "\<exists>c\<in>set cs. c \<in> C" using 4(4) by auto
    from 4(2) [OF Some depths_walkable(1) [OF Some 4(3)] this] Some show ?thesis by simp
  qed
qed

text \<open>
  Two spans each first reported as the child of the other, one of which is later reported without a
  parent after all other roots, make the walk over the graph overflow the stack, whatever its size, so the
  trace is never judged.
\<close>

theorem cyclic_trace_overflows:
  assumes "find (\<lambda>e. ev_span e = a) events = Some ea" "ev_parent ea = Some b"
    "find (\<lambda>e. ev_span e = b) events = Some eb" "ev_parent eb = Some a" "a \<noteq> []" "b \<noteq> []" "event_root events = Some a"
  shows "validate_events frames traceId events = Inl Stack_overflow"
proof -
  have keys: "a \<in> ev_span ` set events" "b \<in> ev_span ` set events" using assms(1,3) by (auto dest!: find_Some_mem)
  have child: "s \<in> set (child_ids (event_nodes events) p)"
    if "find (\<lambda>e. ev_span e = s) events = Some e" "ev_parent e = Some p" "p \<noteq> []" for s p e
  proof -
    have "jm_get (event_nodes events) s = Some (node_of e)" using that(1) by (simp add: event_nodes_get)
    then show ?thesis using that(2,3) by (force simp: child_ids_def node_of_def dest: map_of_SomeD)
  qed
  have "\<forall>s\<in>{a, b}. \<exists>c\<in>{a, b}. c \<in> set (child_ids (event_nodes events) s)"
    using child [OF assms(1,2,6)] child [OF assms(3,4,5)] by simp
  moreover have "\<forall>s\<in>{a, b}. s \<in> ev_span ` set events" using keys by simp
  ultimately have "calculateDepths frames (link_spans (event_nodes events)) a 0 = None"
    using cycle_overflows(1) [of "{a, b}" events, OF _ _ walkable_linked] by simp
  moreover obtain nodes where "foldl add_event_node ([], None) events = (nodes, Some a)" using assms(7) by (metis prod.collapse)
  ultimately have "reconstruct_events frames events = Inl Stack_overflow"
    using assms(5) by (simp add: reconstruct_events_def root_walk_def Let_def)
  moreover have "events \<noteq> []" using keys by auto
  ultimately show ?thesis by (simp add: validate_events_def Let_def)
qed

section \<open>Laws of the verdict\<close>









definition missing_stages :: "lifecycle_event list \<Rightarrow> string list" where
  "missing_stages events = filter (\<lambda>s. s \<notin> ev_state ` set events) EXPECTED_LIFECYCLE_STAGES"




lemma validated_fields:
  assumes "validateTraceCompleteness True frames t table = Inr c" "trace_events t table \<noteq> []"
  defines "events \<equiv> trace_events t table"
  shows "tc_trace c = t" "tc_observed c = uniq (map ev_state events)" "tc_missing c = missing_stages events"
    "tc_violations c = ordering_violations (map ev_state events)" "tc_linked c \<longleftrightarrow> list_all (\<lambda>e. \<not> is_orphan events e) events"
    "tc_spans c = card (ev_span ` set events)"
    "tc_score c = completeness_score (length (missing_stages events)) (tc_violations c = []) (tc_linked c) True"
    "tc_complete c \<longleftrightarrow> tc_missing c = [] \<and> tc_violations c = [] \<and> tc_linked c"
proof -
  obtain rc where "reconstruct_events frames events = Inr rc"
    using assms(1,2) by (auto simp: validateTraceCompleteness_def validate_events_def events_def Let_def split: sum.splits)
  then have c: "c = \<lparr>tc_trace = t, tc_correlation = ev_correlation (hd events),
      tc_complete = (missing_stages events = [] \<and> ordering_violations (map ev_state events) = [] \<and>
        uniq (map ev_span (filter (is_orphan events) events)) = []), tc_observed = uniq (map ev_state events),
      tc_missing = missing_stages events, tc_ordered = (ordering_violations (map ev_state events) = []),
      tc_violations = ordering_violations (map ev_state events), tc_spans = card (ev_span ` set events),
      tc_linked = (uniq (map ev_span (filter (is_orphan events) events)) = []),
      tc_orphans = uniq (map ev_span (filter (is_orphan events) events)), tc_maxDepth = fst (calculateSpanDepth (rc_graph rc)),
      tc_unreachable = 0, tc_score = completeness_score (length (missing_stages events)) (ordering_violations (map ev_state events) = [])
        (uniq (map ev_span (filter (is_orphan events) events)) = []) True\<rparr>"
    using assms(1,2)
    by (simp add: validateTraceCompleteness_def validate_events_def events_def Let_def missing_stages_def calculateSpanDepth_def)
  have o: "uniq (map ev_span (filter (is_orphan events) events)) = [] \<longleftrightarrow> list_all (\<lambda>e. \<not> is_orphan events e) events"
    using set_uniq [of "map ev_span (filter (is_orphan events) events)"] by (auto simp: list_all_iff filter_empty_conv simp flip: set_empty)
  show "tc_trace c = t" "tc_observed c = uniq (map ev_state events)" "tc_missing c = missing_stages events"
    "tc_violations c = ordering_violations (map ev_state events)" "tc_linked c \<longleftrightarrow> list_all (\<lambda>e. \<not> is_orphan events e) events"
    "tc_spans c = card (ev_span ` set events)"
    "tc_score c = completeness_score (length (missing_stages events)) (tc_violations c = []) (tc_linked c) True"
    "tc_complete c \<longleftrightarrow> tc_missing c = [] \<and> tc_violations c = [] \<and> tc_linked c"
    by (simp_all add: c o)
qed





text \<open>
  With the states the migrations admit no trace is ever complete: its last expected stage cannot be
  stored.
\<close>

theorem migrated_trace_never_complete:
  assumes "\<forall>e\<in>set table. ev_state e \<in> set MIGRATED_STATES" "validateTraceCompleteness db_ok frames t table = Inr c"
  shows "\<not> tc_complete c \<and> ''STATE_VERIFIED'' \<in> set (tc_missing c)"
proof (cases "trace_events t table = []")
  case True
  then show ?thesis using assms(2)
    by (auto simp: validateTraceCompleteness_def validate_events_def no_trace_def EXPECTED_LIFECYCLE_STAGES_def HTTP_LIFECYCLE_STAGES_def
      split: if_splits)
next
  case False
  have ok: "validateTraceCompleteness True frames t table = Inr c"
    using assms(2) by (auto simp: validateTraceCompleteness_def split: if_splits)
  have "''STATE_VERIFIED'' \<notin> set MIGRATED_STATES" by (simp add: MIGRATED_STATES_def)
  then have "''STATE_VERIFIED'' \<notin> ev_state ` set (trace_events t table)" using assms(1) by (auto simp: trace_events_def)
  then have "''STATE_VERIFIED'' \<in> set (tc_missing c)" unfolding validated_fields(3) [OF ok False]
    by (simp add: missing_stages_def EXPECTED_LIFECYCLE_STAGES_def HTTP_LIFECYCLE_STAGES_def)
  then show ?thesis unfolding validated_fields(8) [OF ok False] by auto
qed

section \<open>Samples\<close>

text \<open>
  The first nine stages in order, one second apart, in two spans that name each other as parents: the trace
  has no root and lacks the final verification.
\<close>

definition looped_trace :: "lifecycle_event list" where
  "looped_trace = map (\<lambda>(i, s). \<lparr>ev_trace = ''t'', ev_correlation = ''c'', ev_span = if even i then ''a'' else ''b'',
     ev_parent = Some (if even i then ''b'' else ''a''), ev_state = s, ev_status = ''success'', ev_duration = 0,
     ev_recorded = 1000000 * int i\<rparr>) (zip [0..<9] EXPECTED_LIFECYCLE_STAGES)"

lemma looped_events: "trace_events ''t'' looped_trace = looped_trace"
  by code_simp


lemma looped_root: "event_root looped_trace = None"
  by code_simp

lemma looped_validated: "\<exists>c. validateTraceCompleteness True 0 ''t'' looped_trace = Inr c"
proof -
  have "looped_trace \<noteq> []" by (simp add: looped_trace_def EXPECTED_LIFECYCLE_STAGES_def HTTP_LIFECYCLE_STAGES_def)
  moreover obtain g where "foldl add_event_node ([], None) looped_trace = (g, None)" using looped_root by (metis prod.collapse)
  ultimately show ?thesis
    by (simp add: validateTraceCompleteness_def looped_events validate_events_def reconstruct_events_def root_walk_def Let_def
      split: prod.split)
qed


lemma migrated_trace_never_complete_witness:
  "\<exists>c. validateTraceCompleteness True 0 ''t'' looped_trace = Inr c \<and> \<not> tc_complete c"
proof -
  obtain c where c: "validateTraceCompleteness True 0 ''t'' looped_trace = Inr c" using looped_validated by blast
  have "\<forall>e\<in>set looped_trace. ev_state e \<in> set MIGRATED_STATES" by code_simp
  from migrated_trace_never_complete [OF this c] c show ?thesis by blast
qed

definition sample_event :: "string \<Rightarrow> string option \<Rightarrow> lifecycle_event" where
  "sample_event s p = \<lparr>ev_trace = ''t'', ev_correlation = ''c'', ev_span = s, ev_parent = p, ev_state = ''API_ACCEPTED'',
     ev_status = ''success'', ev_duration = 0, ev_recorded = 0\<rparr>"

lemma reconstruction_returns_witness:
  "\<exists>rc. reconstruct_events 2 [sample_event ''a'' None, sample_event ''b'' (Some ''a'')] = Inr rc"
  using reconstruction_returns [of "[sample_event ''a'' None, sample_event ''b'' (Some ''a'')]" 2]
  by (auto simp: spans_agree_def sample_event_def no_parent_def)

lemma cyclic_trace_overflows_witness:
  "validate_events 1000 ''t'' [sample_event ''a'' (Some ''b''), sample_event ''b'' (Some ''a''), sample_event ''a'' None] = Inl Stack_overflow"
  by (rule cyclic_trace_overflows [of "''a''" _ "sample_event ''a'' (Some ''b'')" "''b''" "sample_event ''b'' (Some ''a'')"])
    (simp_all add: sample_event_def add_event_node_pair no_parent_def)

end
