(* ===== verification/Execution.thy ===== *)
theory Execution
  imports JsValue
begin

text \<open>
  The execution of decisions, \<open>packages/core/workflow/executor-v2.ts\<close>, the adapter
  \<open>packages/core/adapters/splunk-http.adapter.ts\<close> it deletes indexes with, and the worker
  \<open>packages/infra/queue/reconciliation-worker.ts\<close> that repairs what a crash left behind, over the tables of
  \<open>prisma/schema.prisma\<close>. The replies of Splunk, the failures of the database with their messages, the clock
  and fresh ids are arguments.
\<close>

section \<open>Adapter\<close>

text \<open>A reply with its status and its body, or the error of reading the body; a timeout; another error.\<close>

datatype http_reply = Http_reply nat "string + string" | Http_aborted | Http_error string

definition response_ok :: "nat \<Rightarrow> bool" where
  "response_ok status = (200 \<le> status \<and> status \<le> 299)"

datatype external_status = Ext_success | Ext_failed | Ext_unknown

record external_result =
  xr_status :: external_status
  xr_id :: "string option"
  xr_error :: "string option"

definition xr_failed :: "string \<Rightarrow> external_result" where
  "xr_failed e = \<lparr>xr_status = Ext_failed, xr_id = None, xr_error = Some e\<rparr>"

definition timeout_of :: "nat option \<Rightarrow> nat" where
  "timeout_of t = (case t of Some n \<Rightarrow> if n = 0 then 30000 else n | None \<Rightarrow> 30000)"

definition timeout_text :: "nat option \<Rightarrow> string" where
  "timeout_text t = ''Request timeout after '' @ nat_str (timeout_of t) @ ''ms''"

definition deleteIndex :: "nat option \<Rightarrow> string \<Rightarrow> http_reply \<Rightarrow> external_result" where
  "deleteIndex timeoutMs idempotencyKey reply =
     (case reply of
        Http_reply status body \<Rightarrow>
          if response_ok status \<or> status = 404 then \<lparr>xr_status = Ext_success, xr_id = Some idempotencyKey, xr_error = None\<rparr>
          else (case body of
                  Inr text \<Rightarrow> xr_failed (''Splunk API returned '' @ nat_str status @ '': '' @ text)
                | Inl e \<Rightarrow> xr_failed (''Network error: '' @ e))
      | Http_aborted \<Rightarrow> \<lparr>xr_status = Ext_unknown, xr_id = None, xr_error = Some (timeout_text timeoutMs)\<rparr>
      | Http_error e \<Rightarrow> xr_failed (''Network error: '' @ e))"

record probe_result =
  pr_exists :: bool
  pr_deleted :: "bool option"
  pr_error :: "string option"

definition probe_error :: "string \<Rightarrow> probe_result" where
  "probe_error e = \<lparr>pr_exists = False, pr_deleted = None, pr_error = Some e\<rparr>"

definition getIndexState :: "nat option \<Rightarrow> http_reply \<Rightarrow> probe_result" where
  "getIndexState timeoutMs reply =
     (case reply of
        Http_reply status body \<Rightarrow>
          if response_ok status
          then (case body of
                  Inr _ \<Rightarrow> \<lparr>pr_exists = True, pr_deleted = Some False, pr_error = None\<rparr>
                | Inl e \<Rightarrow> probe_error (''Network error: '' @ e))
          else if status = 404 then \<lparr>pr_exists = False, pr_deleted = Some True, pr_error = None\<rparr>
          else probe_error (''Splunk API returned '' @ nat_str status)
      | Http_aborted \<Rightarrow> probe_error (timeout_text timeoutMs)
      | Http_error e \<Rightarrow> probe_error (''Network error: '' @ e))"

definition health :: "http_reply \<Rightarrow> bool \<times> string option" where
  "health reply =
     (case reply of
        Http_reply status _ \<Rightarrow> (response_ok status, if response_ok status then None else Some (''Splunk health check failed: '' @ nat_str status))
      | Http_aborted \<Rightarrow> (False, Some ''Health check failed: This operation was aborted'')
      | Http_error e \<Rightarrow> (False, Some (''Health check failed: '' @ e)))"

section \<open>Tables\<close>

record decision_row =
  dr_id :: string
  dr_tenant :: string
  dr_snapshot :: string
  dr_index :: string
  dr_decision :: string
  dr_status :: string
  dr_executedAt :: "int option"

datatype journal_status = STARTED | COMPLETED | FAILED

record journal_row =
  jr_id :: string
  jr_decision :: string
  jr_tenant :: string
  jr_key :: string
  jr_status :: journal_status
  jr_external :: "(external_result + probe_result) option"
  jr_created :: int

datatype audit_payload =
    Execution_completed string external_result string
  | Execution_confirmed probe_result string
  | Execution_failed string
  | Reconciliation_escalated string string

record audit_row =
  ae_decision :: string
  ae_tenant :: string
  ae_actor :: string
  ae_type :: string
  ae_payload :: audit_payload

record exec_db =
  xd_decisions :: "decision_row list"
  xd_journals :: "journal_row list"
  xd_audit :: "audit_row list"

definition write_audit :: "audit_row \<Rightarrow> exec_db \<Rightarrow> exec_db" where
  "write_audit a db = db\<lparr>xd_audit := xd_audit db @ [a]\<rparr>"

definition update_journals :: "(journal_row \<Rightarrow> bool) \<Rightarrow> (journal_row \<Rightarrow> journal_row) \<Rightarrow> exec_db \<Rightarrow> exec_db" where
  "update_journals P f db = db\<lparr>xd_journals := map (\<lambda>j. if P j then f j else j) (xd_journals db)\<rparr>"

definition set_decision :: "string \<Rightarrow> string \<Rightarrow> int option \<Rightarrow> exec_db \<Rightarrow> exec_db" where
  "set_decision i status time db = db\<lparr>xd_decisions := map (\<lambda>d. if dr_id d = i
     then d\<lparr>dr_status := status, dr_executedAt := (case time of Some t \<Rightarrow> Some t | None \<Rightarrow> dr_executedAt d)\<rparr> else d) (xd_decisions db)\<rparr>"

definition decision_exists :: "string \<Rightarrow> exec_db \<Rightarrow> bool" where
  "decision_exists i db = (i \<in> dr_id ` set (xd_decisions db))"

section \<open>Executing a decision\<close>

record execution_metadata =
  em_index :: string
  em_sourcetype :: "string option"
  em_decision :: string
  em_compositeScore :: jsnum
  em_annualCostUsd :: jsnum
  em_tenantId :: string
  em_snapshotId :: string

record execution_result =
  er_status :: external_status
  er_decisionId :: string
  er_key :: string
  er_error :: "string option"
  er_executedAt :: "int option"

definition idempotency_key :: "string \<Rightarrow> string \<Rightarrow> string \<Rightarrow> string" where
  "idempotency_key decisionId snapshotId tenantId = ''exec:'' @ decisionId @ '':'' @ snapshotId @ '':'' @ tenantId"

definition no_result :: "external_status \<Rightarrow> string \<Rightarrow> string \<Rightarrow> string \<Rightarrow> execution_result" where
  "no_result status decisionId key e = \<lparr>er_status = status, er_decisionId = decisionId, er_key = key, er_error = Some e, er_executedAt = None\<rparr>"

text \<open>
  The first step writes the journal; it returns early when the key is there or the write fails. A decision
  that does not exist violates the foreign key.
\<close>

definition journal_begin ::
  "string option \<Rightarrow> int \<Rightarrow> string \<Rightarrow> string \<Rightarrow> execution_metadata \<Rightarrow> exec_db \<Rightarrow> exec_db \<times> execution_result option" where
  "journal_begin fault now fresh decisionId md db =
     (let key = idempotency_key decisionId (em_snapshotId md) (em_tenantId md)
      in case fault of
           Some e \<Rightarrow> (db, Some (no_result Ext_failed decisionId key (''Failed to write execution journal: '' @ e)))
         | None \<Rightarrow>
             if key \<in> jr_key ` set (xd_journals db)
             then (db, Some (no_result Ext_unknown decisionId key ''Already executing (duplicate idempotency key)''))
             else if \<not> decision_exists decisionId db
             then (db, Some (no_result Ext_failed decisionId key ''Failed to write execution journal: Foreign key constraint violated''))
             else (db\<lparr>xd_journals := xd_journals db @
                    [\<lparr>jr_id = fresh, jr_decision = decisionId, jr_tenant = em_tenantId md, jr_key = key, jr_status = STARTED, jr_external = None,
                      jr_created = now\<rparr>]\<rparr>, None))"

text \<open>The second step acts on Splunk for one decision only; the reply is that of the deletion.\<close>

definition deletes :: "execution_metadata \<Rightarrow> bool" where
  "deletes md = (em_decision md = ''ELIMINATE'')"

definition external_step :: "nat option \<Rightarrow> execution_metadata \<Rightarrow> string \<Rightarrow> http_reply \<Rightarrow> external_result" where
  "external_step timeoutMs md key reply =
     (if deletes md then deleteIndex timeoutMs key reply
      else if em_decision md \<in> {''RETAIN'', ''MONITOR'', ''REBALANCE'', ''ESCALATE''}
      then \<lparr>xr_status = Ext_success, xr_id = None, xr_error = None\<rparr>
      else \<lparr>xr_status = Ext_unknown, xr_id = None, xr_error = Some (''Unknown decision: '' @ em_decision md)\<rparr>)"

text \<open>The third step is a transaction: it fails when the database does, or when one of the rows is gone.\<close>

definition commit_step ::
  "string option \<Rightarrow> int \<Rightarrow> string \<Rightarrow> execution_metadata \<Rightarrow> external_result \<Rightarrow> exec_db \<Rightarrow> exec_db \<times> execution_result" where
  "commit_step fault now decisionId md x db =
     (let key = idempotency_key decisionId (em_snapshotId md) (em_tenantId md);
          failed = (\<lambda>e. (db, no_result Ext_unknown decisionId key (''Transaction failed: '' @ e @ ''. Reconciliation will repair state.'')))
      in case fault of
           Some e \<Rightarrow> failed e
         | None \<Rightarrow>
             if key \<notin> jr_key ` set (xd_journals db) \<or> \<not> decision_exists decisionId db then failed ''Record to update not found''
             else (set_decision decisionId (if xr_status x = Ext_success then ''EXECUTED'' else ''FAILED'') (Some now)
                    (update_journals (\<lambda>j. jr_key j = key) (\<lambda>j. j\<lparr>jr_status := COMPLETED, jr_external := Some (Inl x)\<rparr>)
                      (write_audit \<lparr>ae_decision = decisionId, ae_tenant = em_tenantId md, ae_actor = ''system'', ae_type = ''execution.completed'',
                         ae_payload = Execution_completed (em_decision md) x key\<rparr> db)),
                   \<lparr>er_status = xr_status x, er_decisionId = decisionId, er_key = key, er_error = xr_error x, er_executedAt = Some now\<rparr>))"

definition executeDecisionSafe ::
  "nat option \<Rightarrow> string option \<times> string option \<Rightarrow> int \<Rightarrow> string \<Rightarrow> http_reply \<Rightarrow> string \<Rightarrow> execution_metadata \<Rightarrow> exec_db \<Rightarrow>
     exec_db \<times> execution_result" where
  "executeDecisionSafe timeoutMs faults now fresh reply decisionId md db =
     (case journal_begin (fst faults) now fresh decisionId md db of
        (db1, Some r) \<Rightarrow> (db1, r)
      | (db1, None) \<Rightarrow>
          commit_step (snd faults) now decisionId md
            (external_step timeoutMs md (idempotency_key decisionId (em_snapshotId md) (em_tenantId md)) reply) db1)"

definition getExecutionStatus :: "string \<Rightarrow> exec_db \<Rightarrow> (journal_status \<times> string) option" where
  "getExecutionStatus decisionId db =
     (case sort_by (\<lambda>a b. jr_created b < jr_created a) (filter (\<lambda>j. jr_decision j = decisionId) (xd_journals db)) of
        [] \<Rightarrow> None
      | j # _ \<Rightarrow> Some (jr_status j, jr_key j))"

section \<open>Reconciliation\<close>

datatype reconcile_status = Repaired | Retried | Escalated

definition reconcile_audit :: "decision_row \<Rightarrow> string \<Rightarrow> audit_payload \<Rightarrow> audit_row" where
  "reconcile_audit d type payload =
     \<lparr>ae_decision = dr_id d, ae_tenant = dr_tenant d, ae_actor = ''system:reconciliation'', ae_type = type, ae_payload = payload\<rparr>"

definition repairExecutionSucceeded :: "int \<Rightarrow> journal_row \<Rightarrow> decision_row \<Rightarrow> probe_result \<Rightarrow> exec_db \<Rightarrow> exec_db" where
  "repairExecutionSucceeded now entry d probe db =
     set_decision (dr_id d) ''EXECUTED'' (Some now)
       (update_journals (\<lambda>j. jr_id j = jr_id entry) (\<lambda>j. j\<lparr>jr_status := COMPLETED, jr_external := Some (Inr probe)\<rparr>)
         (write_audit (reconcile_audit d ''reconciliation.execution_confirmed'' (Execution_confirmed probe (jr_key entry))) db))"

definition markExecutionFailed :: "journal_row \<Rightarrow> decision_row \<Rightarrow> string \<Rightarrow> exec_db \<Rightarrow> exec_db" where
  "markExecutionFailed entry d reason db =
     set_decision (dr_id d) ''FAILED'' None
       (update_journals (\<lambda>j. jr_id j = jr_id entry) (\<lambda>j. j\<lparr>jr_status := FAILED\<rparr>)
         (write_audit (reconcile_audit d ''reconciliation.execution_failed'' (Execution_failed reason)) db))"

definition escalateReconciliation :: "journal_row \<Rightarrow> decision_row \<Rightarrow> string \<Rightarrow> exec_db \<Rightarrow> exec_db" where
  "escalateReconciliation entry d reason db =
     write_audit (reconcile_audit d ''reconciliation.escalated'' (Reconciliation_escalated reason (jr_id entry))) db"

text \<open>The rows that an update or a transaction needs; without them, or when the database fails, it throws.\<close>

definition rows_there :: "bool \<Rightarrow> journal_row \<Rightarrow> decision_row \<Rightarrow> exec_db \<Rightarrow> bool" where
  "rows_there db_ok entry d db = (db_ok \<and> jr_id entry \<in> jr_id ` set (xd_journals db) \<and> decision_exists (dr_id d) db)"

definition reconcileOne ::
  "nat option \<Rightarrow> bool \<Rightarrow> int \<Rightarrow> http_reply \<Rightarrow> journal_row \<times> decision_row \<Rightarrow> exec_db \<Rightarrow> exec_db \<times> reconcile_status option" where
  "reconcileOne timeoutMs db_ok now reply entry_decision db =
     (case entry_decision of (entry, d) \<Rightarrow>
        let probe = getIndexState timeoutMs reply
        in if dr_decision d = ''ELIMINATE''
           then if \<not> pr_exists probe \<or> pr_deleted probe = Some True
                then (if rows_there db_ok entry d db then (repairExecutionSucceeded now entry d probe db, Some Repaired) else (db, None))
                else if pr_exists probe
                then (if rows_there db_ok entry d db then (markExecutionFailed entry d ''Index still exists in Splunk'' db, Some Retried)
                      else (db, None))
                else (if db_ok \<and> decision_exists (dr_id d) db
                      then (escalateReconciliation entry d ''Unknown external state after probe'' db, Some Escalated) else (db, None))
           else if db_ok \<and> jr_id entry \<in> jr_id ` set (xd_journals db)
           then (update_journals (\<lambda>j. jr_id j = jr_id entry) (\<lambda>j. j\<lparr>jr_status := COMPLETED\<rparr>) db, Some Repaired)
           else (db, None))"

record reconciliation_result =
  rr_repaired :: nat
  rr_retried :: nat
  rr_failed :: nat

definition count_result :: "reconcile_status option \<Rightarrow> reconciliation_result \<Rightarrow> reconciliation_result" where
  "count_result s r =
     (case s of
        Some Repaired \<Rightarrow> r\<lparr>rr_repaired := rr_repaired r + 1\<rparr>
      | Some Retried \<Rightarrow> r\<lparr>rr_retried := rr_retried r + 1\<rparr>
      | _ \<Rightarrow> r\<lparr>rr_failed := rr_failed r + 1\<rparr>)"

fun reconcile_all ::
  "nat option \<Rightarrow> (string \<Rightarrow> bool) \<Rightarrow> int \<Rightarrow> (string \<Rightarrow> http_reply) \<Rightarrow> (journal_row \<times> decision_row) list \<Rightarrow>
     exec_db \<times> reconciliation_result \<Rightarrow> exec_db \<times> reconciliation_result" where
  "reconcile_all timeoutMs db_ok now replies [] acc = acc"
| "reconcile_all timeoutMs db_ok now replies (ed # eds) acc =
     (case reconcileOne timeoutMs (db_ok (jr_id (fst ed))) now (replies (jr_id (fst ed))) ed (fst acc) of
        (db', s) \<Rightarrow> reconcile_all timeoutMs db_ok now replies eds (db', count_result s (snd acc)))"

definition given_or :: "nat option \<Rightarrow> nat \<Rightarrow> nat" where
  "given_or x d = (case x of Some n \<Rightarrow> if n = 0 then d else n | None \<Rightarrow> d)"

text \<open>The started entries older than the threshold, oldest first, each with its decision.\<close>

definition stuck_entries :: "nat \<Rightarrow> nat \<Rightarrow> int \<Rightarrow> exec_db \<Rightarrow> (journal_row \<times> decision_row) list" where
  "stuck_entries threshold batch now db =
     List.map_filter (\<lambda>j. map_option (Pair j) (find (\<lambda>d. dr_id d = jr_decision j) (xd_decisions db)))
       (take batch (sort_key jr_created (filter (\<lambda>j. jr_status j = STARTED \<and> jr_created j < now - int threshold) (xd_journals db))))"

definition reconcileExecutions ::
  "nat option \<Rightarrow> nat option \<Rightarrow> nat option \<Rightarrow> string option \<Rightarrow> (string \<Rightarrow> bool) \<Rightarrow> int \<Rightarrow> (string \<Rightarrow> http_reply) \<Rightarrow> exec_db \<Rightarrow>
     exec_db \<times> (string + reconciliation_result)" where
  "reconcileExecutions timeoutMs stuckThresholdMs batchSize fault db_ok now replies db =
     (case fault of
        Some e \<Rightarrow> (db, Inl e)
      | None \<Rightarrow>
          (case reconcile_all timeoutMs db_ok now replies (stuck_entries (given_or stuckThresholdMs 300000) (given_or batchSize 100) now db)
                  (db, \<lparr>rr_repaired = 0, rr_retried = 0, rr_failed = 0\<rparr>) of
             (db', r) \<Rightarrow> (db', Inr r)))"

section \<open>Runs\<close>

text \<open>
  Executions over time: each in progress is between two of its steps and may be lost in a crash; Splunk may
  or may not have carried out a deletion whose reply is an error, and others change it as well.
\<close>

record exec_run =
  ru_decision :: string
  ru_metadata :: execution_metadata
  ru_result :: "external_result option"

definition run_key :: "exec_run \<Rightarrow> string" where
  "run_key r = idempotency_key (ru_decision r) (em_snapshotId (ru_metadata r)) (em_tenantId (ru_metadata r))"

record exec_world =
  xw_now :: int
  xw_db :: exec_db
  xw_indexes :: "string set"
  xw_running :: "exec_run list"
  xw_deletions :: "string list"

inductive exec_step :: "nat option \<Rightarrow> exec_world \<Rightarrow> exec_world \<Rightarrow> bool" for timeoutMs where
  later: "xw_now w \<le> t \<Longrightarrow> exec_step timeoutMs w (w\<lparr>xw_now := t, xw_indexes := others\<rparr>)"
| begins: "journal_begin fault (xw_now w) fresh i md (xw_db w) = (db', None) \<Longrightarrow>
    exec_step timeoutMs w (w\<lparr>xw_db := db', xw_running := xw_running w @ [\<lparr>ru_decision = i, ru_metadata = md, ru_result = None\<rparr>]\<rparr>)"
| refused: "journal_begin fault (xw_now w) fresh i md (xw_db w) = (db', Some r) \<Longrightarrow> exec_step timeoutMs w (w\<lparr>xw_db := db'\<rparr>)"
| external: "xw_running w = before @ r # after \<Longrightarrow> ru_result r = None \<Longrightarrow>
    exec_step timeoutMs w (w\<lparr>xw_running := before @ r\<lparr>ru_result := Some (external_step timeoutMs (ru_metadata r) (run_key r) reply)\<rparr> # after,
      xw_indexes := (if deletes (ru_metadata r) \<and> carried_out then xw_indexes w - {em_index (ru_metadata r)} else xw_indexes w),
      xw_deletions := (if deletes (ru_metadata r) then xw_deletions w @ [run_key r] else xw_deletions w)\<rparr>)"
| commits: "xw_running w = before @ r # after \<Longrightarrow> ru_result r = Some x \<Longrightarrow>
    exec_step timeoutMs w (w\<lparr>xw_db := fst (commit_step fault (xw_now w) (ru_decision r) (ru_metadata r) x (xw_db w)),
      xw_running := before @ after\<rparr>)"
| crash: "xw_running w = before @ r # after \<Longrightarrow> exec_step timeoutMs w (w\<lparr>xw_running := before @ after\<rparr>)"
| reconcile: "jr_status j = STARTED \<Longrightarrow>
    exec_step timeoutMs w (w\<lparr>xw_db := fst (reconcileOne timeoutMs db_ok (xw_now w) reply (j, d) (xw_db w))\<rparr>)"

definition fresh_world :: "decision_row list \<Rightarrow> string set \<Rightarrow> exec_world" where
  "fresh_world ds indexes = \<lparr>xw_now = 0, xw_db = \<lparr>xd_decisions = ds, xd_journals = [], xd_audit = []\<rparr>, xw_indexes = indexes,
     xw_running = [], xw_deletions = []\<rparr>"

section \<open>Laws of the journal\<close>

definition journal_keys :: "exec_db \<Rightarrow> string list" where
  "journal_keys db = map jr_key (xd_journals db)"

lemma update_keys:
  "(\<And>j. jr_key (f j) = jr_key j) \<Longrightarrow> journal_keys (update_journals P f db) = journal_keys db"
  by (simp add: journal_keys_def update_journals_def)

lemma other_writes [simp]:
  "xd_journals (write_audit a db) = xd_journals db" "xd_journals (set_decision i s t db) = xd_journals db"
  "journal_keys (write_audit a db) = journal_keys db" "journal_keys (set_decision i s t db) = journal_keys db"
  "xd_decisions (write_audit a db) = xd_decisions db" "xd_decisions (update_journals P f db) = xd_decisions db"
  by (simp_all add: write_audit_def set_decision_def journal_keys_def update_journals_def)

lemma commit_keys: "journal_keys (fst (commit_step fault now i md x db)) = journal_keys db"
  by (simp add: commit_step_def Let_def update_keys split: option.split)

lemma reconcile_keys: "journal_keys (fst (reconcileOne timeoutMs db_ok now reply ed db)) = journal_keys db"
  by (simp add: reconcileOne_def Let_def repairExecutionSucceeded_def markExecutionFailed_def escalateReconciliation_def update_keys
    split: prod.split)

lemma begin_cases:
  assumes "journal_begin fault now fresh i md db = (db', res)"
  obtains (begun) "res = None" "journal_keys db' = journal_keys db @ [idempotency_key i (em_snapshotId md) (em_tenantId md)]"
      "idempotency_key i (em_snapshotId md) (em_tenantId md) \<notin> set (journal_keys db)"
    | (refused) r where "res = Some r" "db' = db"
  using assms by (auto simp: journal_begin_def Let_def journal_keys_def split: option.splits if_splits)

definition deletions_ok :: "exec_world \<Rightarrow> bool" where
  "deletions_ok w =
     (distinct (map run_key (xw_running w)) \<and> run_key ` set (xw_running w) \<subseteq> set (journal_keys (xw_db w)) \<and>
      distinct (xw_deletions w) \<and> set (xw_deletions w) \<subseteq> set (journal_keys (xw_db w)) \<and>
      (\<forall>r\<in>set (xw_running w). ru_result r = None \<longrightarrow> run_key r \<notin> set (xw_deletions w)))"

lemma run_key_result [simp]: "run_key (r\<lparr>ru_result := x\<rparr>) = run_key r"
  by (simp add: run_key_def)

lemma step_deletions_ok:
  assumes "exec_step timeoutMs w w'" "deletions_ok w"
  shows "deletions_ok w'"
  using assms
proof cases
  case (begins fault fresh i md db')
  let ?k = "idempotency_key i (em_snapshotId md) (em_tenantId md)"
  have "journal_keys db' = journal_keys (xw_db w) @ [?k]" "?k \<notin> set (journal_keys (xw_db w))"
    by (cases rule: begin_cases [OF begins(2)]; simp)+
  moreover have "run_key \<lparr>ru_decision = i, ru_metadata = md, ru_result = None\<rparr> = ?k" by (simp add: run_key_def)
  ultimately show ?thesis using assms(2) begins(1) by (auto simp: deletions_ok_def)
next
  case (refused fault fresh i md db' r)
  then have "db' = xw_db w" by (cases rule: begin_cases [OF refused(2)]) simp_all
  then show ?thesis using assms(2) refused(1) by (simp add: deletions_ok_def)
next
  case (external before r "after" carried_out reply)
  then show ?thesis using assms(2) by (auto simp: deletions_ok_def) (metis rev_image_eqI)+
next
  case (commits before r "after" x fault)
  then show ?thesis using assms(2) by (auto simp: deletions_ok_def commit_keys)
next
  case (crash before r "after")
  then show ?thesis using assms(2) by (auto simp: deletions_ok_def)
next
  case (reconcile j db_ok reply d)
  then show ?thesis using assms(2) by (auto simp: deletions_ok_def reconcile_keys)
qed (simp add: deletions_ok_def)

lemma run_deletions_ok: "(exec_step timeoutMs)\<^sup>*\<^sup>* w w' \<Longrightarrow> deletions_ok w \<Longrightarrow> deletions_ok w'"
  by (induction rule: rtranclp_induct) (auto intro: step_deletions_ok)

text \<open>
  C25: However executions are started, interleaved, lost in crashes and reconciled, the deletion of an index
  is requested at most once for a decision, snapshot and tenant.
\<close>

theorem deletion_at_most_once:
  assumes "(exec_step timeoutMs)\<^sup>*\<^sup>* (fresh_world ds indexes) w"
  shows "distinct (xw_deletions w)"
  using run_deletions_ok [OF assms] by (simp add: deletions_ok_def fresh_world_def)

text \<open>
  Once its journal is written an execution is never repeated: whatever its outcome, every later call for
  the same decision, snapshot and tenant answers that it is already executing and changes nothing.
\<close>

theorem execution_never_repeated:
  assumes "executeDecisionSafe timeoutMs (None, fault) now fresh reply i md db = (db1, r)" "decision_exists i db"
    "(exec_step timeoutMs)\<^sup>*\<^sup>* (w\<lparr>xw_db := db1\<rparr>) w2" "em_snapshotId md2 = em_snapshotId md" "em_tenantId md2 = em_tenantId md"
  shows "executeDecisionSafe timeoutMs (None, fault2) now2 fresh2 reply2 i md2 (xw_db w2) =
    (xw_db w2, no_result Ext_unknown i (idempotency_key i (em_snapshotId md) (em_tenantId md)) ''Already executing (duplicate idempotency key)'')"
proof -
  let ?k = "idempotency_key i (em_snapshotId md) (em_tenantId md)"
  obtain db0 res where b: "journal_begin None now fresh i md db = (db0, res)" by fastforce
  have "?k \<in> set (journal_keys db0)"
    using b assms(2) by (auto simp: journal_begin_def Let_def journal_keys_def split: if_splits)
  moreover have "journal_keys db1 = journal_keys db0"
  proof (cases res)
    case None
    then have "db1 = fst (commit_step fault now i md (external_step timeoutMs md ?k reply) db0)"
      using assms(1) b by (simp add: executeDecisionSafe_def)
    then show ?thesis using commit_keys by simp
  next
    case (Some r')
    then show ?thesis using assms(1) b by (simp add: executeDecisionSafe_def)
  qed
  ultimately have k1: "?k \<in> set (journal_keys (xw_db (w\<lparr>xw_db := db1\<rparr>)))" by simp
  have "?k \<in> set (journal_keys (xw_db w2))" using assms(3)
  proof (induction rule: rtranclp_induct)
    case (step y z)
    from step(2,3) show ?case
    proof cases
      case (begins fault fresh i' md' db')
      then show ?thesis using step(3) by (cases rule: begin_cases [OF begins(2)]) auto
    next
      case (refused fault fresh i' md' db' r')
      then show ?thesis using step(3) by (cases rule: begin_cases [OF refused(2)]) auto
    qed (simp_all add: commit_keys reconcile_keys)
  qed (use k1 in simp)
  then show ?thesis using assms(4,5) by (simp add: executeDecisionSafe_def journal_begin_def journal_keys_def Let_def)
qed

section \<open>Laws of the reconciliation\<close>

text \<open>The probe that shows the index; every other reply counts as a deleted index.\<close>

definition probe_saw :: "http_reply \<Rightarrow> bool" where
  "probe_saw reply = (case reply of Http_reply status (Inr _) \<Rightarrow> response_ok status | _ \<Rightarrow> False)"

lemma probe_decides: "(\<not> pr_exists (getIndexState t reply) \<or> pr_deleted (getIndexState t reply) = Some True) \<longleftrightarrow> \<not> probe_saw reply"
  by (auto simp: getIndexState_def probe_saw_def probe_error_def split: http_reply.splits sum.splits)

lemma reconcile_one_law:
  assumes "dr_decision d = ''ELIMINATE''" "rows_there db_ok entry d db"
  shows "reconcileOne t db_ok now reply (entry, d) db =
    (if probe_saw reply then (markExecutionFailed entry d ''Index still exists in Splunk'' db, Some Retried)
     else (repairExecutionSucceeded now entry d (getIndexState t reply) db, Some Repaired))"
  using assms probe_decides [of t reply] by (auto simp: reconcileOne_def Let_def)

lemma reconcile_one_missing:
  "dr_decision d = ''ELIMINATE'' \<Longrightarrow> \<not> rows_there db_ok entry d db \<Longrightarrow> reconcileOne t db_ok now reply (entry, d) db = (db, None)"
  by (simp add: reconcileOne_def Let_def)

lemma status_after:
  assumes "row \<in> set (xd_decisions (set_decision i s time db))" "dr_id row = i"
  shows "dr_status row = s"
proof -
  let ?f = "\<lambda>d. if dr_id d = i then d\<lparr>dr_status := s, dr_executedAt := (case time of Some t \<Rightarrow> Some t | None \<Rightarrow> dr_executedAt d)\<rparr> else d"
  have "xd_decisions (set_decision i s time db) = map ?f (xd_decisions db)" by (simp add: set_decision_def)
  then have "row \<in> ?f ` set (xd_decisions db)" using assms(1) by simp
  then obtain d where "row = ?f d" by (rule imageE)
  then show ?thesis using assms(2) by (cases "dr_id d = i") simp_all
qed

text \<open>
  C27: Reconciling an elimination never escalates: unless the probe saw the index the decision is recorded as
  executed and its journal completed, also when the probe timed out, was refused or could not be read.
\<close>

theorem probe_error_executes:
  assumes "dr_decision d = ''ELIMINATE''" "reconcileOne t db_ok now reply (entry, d) db = (db', outcome)" "row \<in> set (xd_decisions db')"
    "dr_id row = dr_id d" "outcome \<noteq> None"
  shows "outcome \<noteq> Some Escalated \<and> dr_status row = (if probe_saw reply then ''FAILED'' else ''EXECUTED'')"
proof -
  have "rows_there db_ok entry d db"
  proof (rule ccontr)
    assume "\<not> ?thesis"
    from reconcile_one_missing [OF assms(1) this, of t now reply] assms(2,5) show False by simp
  qed
  note law = reconcile_one_law [OF assms(1) this, of t now reply]
  show ?thesis
  proof (cases "probe_saw reply")
    case True
    then have "db' = markExecutionFailed entry d ''Index still exists in Splunk'' db" "outcome = Some Retried" using law assms(2) by simp_all
    then show ?thesis using status_after [OF _ assms(4)] assms(3) True by (simp add: markExecutionFailed_def)
  next
    case False
    then have "db' = repairExecutionSucceeded now entry d (getIndexState t reply) db" "outcome = Some Repaired" using law assms(2) by simp_all
    then show ?thesis using status_after [OF _ assms(4)] assms(3) False by (simp add: repairExecutionSucceeded_def)
  qed
qed

definition settled_in :: "string set \<Rightarrow> exec_db \<Rightarrow> exec_db \<Rightarrow> bool" where
  "settled_in ids db db' =
     list_all2 (\<lambda>j j'. jr_id j' = jr_id j \<and> jr_created j' = jr_created j \<and> jr_decision j' = jr_decision j \<and>
       (if jr_id j \<in> ids then jr_status j' \<noteq> STARTED else j' = j)) (xd_journals db) (xd_journals db')"

lemma settled_update:
  assumes "\<And>j. jr_id (f j) = jr_id j" "\<And>j. jr_created (f j) = jr_created j" "\<And>j. jr_decision (f j) = jr_decision j"
    "\<And>j. jr_status (f j) \<noteq> STARTED"
  shows "settled_in {i} db (update_journals (\<lambda>j. jr_id j = i) f db)"
  using assms by (auto simp: settled_in_def update_journals_def list_all2_map2 list_all2_same)

lemma settled_same: "xd_journals db1 = xd_journals db \<Longrightarrow> xd_journals db2 = xd_journals db' \<Longrightarrow> settled_in I db1 db2 = settled_in I db db'"
  by (simp add: settled_in_def)

lemma settled_decision: "settled_in I db (set_decision i s time db') = settled_in I db db'"
  by (simp add: settled_in_def)

lemma settled_trans: "settled_in I a b \<Longrightarrow> settled_in J b c \<Longrightarrow> settled_in (I \<union> J) a c"
  unfolding settled_in_def by (rule list_all2_trans) (auto split: if_splits)

lemma settled_refl: "settled_in {} db db"
  by (simp add: settled_in_def list_all2_same)

lemma list_all2_map_eq: "list_all2 (\<lambda>x y. f y = f x \<and> P x y) xs ys \<Longrightarrow> map f ys = map f xs"
  by (induction rule: list_all2_induct) simp_all

lemma settled_ids: "settled_in I db db' \<Longrightarrow> map jr_id (xd_journals db') = map jr_id (xd_journals db)"
  unfolding settled_in_def by (rule list_all2_map_eq)

lemma reconcile_one_settles:
  assumes "jr_id entry \<in> jr_id ` set (xd_journals db)" "decision_exists (dr_id d) db" "reconcileOne t True now reply (entry, d) db = (db', outcome)"
  shows "outcome \<noteq> None \<and> settled_in {jr_id entry} db db' \<and> dr_id ` set (xd_decisions db') = dr_id ` set (xd_decisions db)"
proof -
  have r: "rows_there True entry d db" using assms(1,2) by (simp add: rows_there_def)
  have ids: "dr_id ` set (xd_decisions (set_decision i s time db0)) = dr_id ` set (xd_decisions db0)" for i s time db0
  proof -
    have "map dr_id (xd_decisions (set_decision i s time db0)) = map dr_id (xd_decisions db0)" by (simp add: set_decision_def)
    then show ?thesis by (metis list.set_map)
  qed
  have u: "settled_in {jr_id entry} db (update_journals (\<lambda>j. jr_id j = jr_id entry) f db1)"
    if "xd_journals db1 = xd_journals db" "\<And>j. jr_id (f j) = jr_id j" "\<And>j. jr_created (f j) = jr_created j"
      "\<And>j. jr_decision (f j) = jr_decision j" "\<And>j. jr_status (f j) \<noteq> STARTED" for f db1
    using settled_update [of f "jr_id entry" db1] that by (simp add: settled_in_def)
  have marks: "settled_in {jr_id entry} db (markExecutionFailed entry d e db)" "settled_in {jr_id entry} db (repairExecutionSucceeded now entry d p db)"
    for e p
    by (simp_all add: markExecutionFailed_def repairExecutionSucceeded_def settled_decision u)
  have same: "dr_id ` set (xd_decisions (markExecutionFailed entry d e db)) = dr_id ` set (xd_decisions db)"
    "dr_id ` set (xd_decisions (repairExecutionSucceeded now entry d p db)) = dr_id ` set (xd_decisions db)" for e p
    by (simp_all add: markExecutionFailed_def repairExecutionSucceeded_def ids)
  show ?thesis
  proof (cases "dr_decision d = ''ELIMINATE''")
    case True
    have "(db', outcome) = (if probe_saw reply then (markExecutionFailed entry d ''Index still exists in Splunk'' db, Some Retried)
        else (repairExecutionSucceeded now entry d (getIndexState t reply) db, Some Repaired))"
      using reconcile_one_law [OF True r, of t now reply] assms(3) by simp
    then show ?thesis using marks same by (cases "probe_saw reply") simp_all
  next
    case False
    then have "db' = update_journals (\<lambda>j. jr_id j = jr_id entry) (\<lambda>j. j\<lparr>jr_status := COMPLETED\<rparr>) db" "outcome = Some Repaired"
      using assms(1,3) by (simp_all add: reconcileOne_def Let_def)
    then show ?thesis using u [of db "\<lambda>j. j\<lparr>jr_status := COMPLETED\<rparr>"] by simp
  qed
qed

lemma reconcile_all_settles:
  "\<forall>(j, d)\<in>set eds. jr_id j \<in> jr_id ` set (xd_journals (fst acc)) \<and> decision_exists (dr_id d) (fst acc) \<Longrightarrow>
   settled_in (jr_id ` fst ` set eds) (fst acc) (fst (reconcile_all t (\<lambda>_. True) now replies eds acc))"
proof (induction eds arbitrary: acc)
  case Nil
  then show ?case by (simp add: settled_refl)
next
  case (Cons ed eds)
  obtain j d where ed: "ed = (j, d)" by fastforce
  obtain db' outcome where one: "reconcileOne t True now (replies (jr_id j)) (j, d) (fst acc) = (db', outcome)" by fastforce
  have s: "settled_in {jr_id j} (fst acc) db'" "dr_id ` set (xd_decisions db') = dr_id ` set (xd_decisions (fst acc))"
    using reconcile_one_settles [OF _ _ one] Cons.prems ed by auto
  have "jr_id ` set (xd_journals db') = jr_id ` set (xd_journals (fst acc))" using settled_ids [OF s(1)] by (metis list.set_map)
  then have "\<forall>(j, d)\<in>set eds. jr_id j \<in> jr_id ` set (xd_journals db') \<and> decision_exists (dr_id d) db'"
    using Cons.prems s(2) by (auto simp: decision_exists_def)
  with Cons.IH [of "(db', count_result outcome (snd acc))"] settled_trans [OF s(1)] one
  show ?case by (auto simp: ed)
qed

definition stuck_count :: "nat \<Rightarrow> int \<Rightarrow> exec_db \<Rightarrow> nat" where
  "stuck_count threshold now db = length (filter (\<lambda>j. jr_status j = STARTED \<and> jr_created j < now - int threshold) (xd_journals db))"

lemma settled_count:
  assumes "settled_in I db db'"
  shows "stuck_count threshold now db' =
    length (filter (\<lambda>j. jr_status j = STARTED \<and> jr_created j < now - int threshold \<and> jr_id j \<notin> I) (xd_journals db))"
  using assms unfolding settled_in_def stuck_count_def
  by (induction rule: list_all2_induct) (auto split: if_splits)

definition db_ok_rows :: "exec_db \<Rightarrow> bool" where
  "db_ok_rows db = (distinct (map jr_id (xd_journals db)) \<and> (\<forall>j\<in>set (xd_journals db). decision_exists (jr_decision j) db))"

lemma length_filter_split: "length (filter P xs) = length (filter (\<lambda>x. P x \<and> Q x) xs) + length (filter (\<lambda>x. P x \<and> \<not> Q x) xs)"
  by (induction xs) auto

lemma stored_decision: "decision_exists i db \<Longrightarrow> \<exists>d. find (\<lambda>d. dr_id d = i) (xd_decisions db) = Some d"
  by (cases "find (\<lambda>d. dr_id d = i) (xd_decisions db)") (auto simp: decision_exists_def find_None_iff)

lemma map_filter_elem:
  assumes "y \<in> set (List.map_filter f xs)"
  obtains x where "f x = Some y"
  using assms by (induction xs) (auto simp: map_filter_simps split: option.splits)

lemma map_filter_fst:
  "x \<in> fst ` set (List.map_filter (\<lambda>j. map_option (Pair j) (f j)) xs) \<Longrightarrow> x \<in> set xs"
  by (induction xs) (auto simp: map_filter_simps split: option.splits)

lemma stuck_in:
  assumes "j \<in> fst ` set (stuck_entries threshold n now db)"
  shows "j \<in> set (xd_journals db)" "jr_status j = STARTED"
  using map_filter_fst [OF assms [unfolded stuck_entries_def]] set_take_subset by fastforce+

lemma batch_of:
  assumes "db_ok_rows db"
  shows "map fst (stuck_entries threshold n now db) =
      take n (sort_key jr_created (filter (\<lambda>j. jr_status j = STARTED \<and> jr_created j < now - int threshold) (xd_journals db)))"
    and "\<forall>(j, d)\<in>set (stuck_entries threshold n now db). jr_id j \<in> jr_id ` set (xd_journals db) \<and> decision_exists (dr_id d) db"
proof -
  let ?s = "filter (\<lambda>j. jr_status j = STARTED \<and> jr_created j < now - int threshold) (xd_journals db)"
  have "set (take n (sort_key jr_created ?s)) \<subseteq> set ?s" using set_take_subset [of n "sort_key jr_created ?s"] by simp
  also have "\<dots> \<subseteq> set (xd_journals db)" by (rule filter_is_subset)
  finally have sub: "set (take n (sort_key jr_created ?s)) \<subseteq> set (xd_journals db)" .
  have found: "\<exists>d. find (\<lambda>d. dr_id d = jr_decision j) (xd_decisions db) = Some d" if "j \<in> set (xd_journals db)" for j
    by (rule stored_decision) (use assms(1) that in \<open>simp add: db_ok_rows_def\<close>)
  have "map fst (List.map_filter (\<lambda>j. map_option (Pair j) (find (\<lambda>d. dr_id d = jr_decision j) (xd_decisions db))) xs) = xs"
    if "set xs \<subseteq> set (xd_journals db)" for xs
    using that
  proof (induction xs)
    case (Cons j xs)
    then obtain d where "find (\<lambda>d. dr_id d = jr_decision j) (xd_decisions db) = Some d" using found by auto
    then show ?case using Cons by (simp add: map_filter_simps)
  qed (simp add: map_filter_simps)
  then show m: "map fst (stuck_entries threshold n now db) = take n (sort_key jr_created ?s)" using sub by (simp add: stuck_entries_def)
  show "\<forall>(j, d)\<in>set (stuck_entries threshold n now db). jr_id j \<in> jr_id ` set (xd_journals db) \<and> decision_exists (dr_id d) db"
  proof (rule ballI, rule case_prodI2)
    fix x j d assume "x \<in> set (stuck_entries threshold n now db)" "x = (j, d)"
    then have jd: "(j, d) \<in> set (stuck_entries threshold n now db)" by simp
    have "j \<in> fst ` set (stuck_entries threshold n now db)" using imageI [OF jd, of fst] by simp
    also have "\<dots> = set (take n (sort_key jr_created ?s))" unfolding m [symmetric] by simp
    finally have "j \<in> set (xd_journals db)" using sub by (rule rev_subsetD)
    moreover have "d \<in> set (xd_decisions db)"
    proof -
      obtain x where "map_option (Pair x) (find (\<lambda>d. dr_id d = jr_decision x) (xd_decisions db)) = Some (j, d)"
        using jd unfolding stuck_entries_def by (rule map_filter_elem)
      then have "find (\<lambda>d. dr_id d = jr_decision x) (xd_decisions db) = Some d" by (cases "find (\<lambda>d. dr_id d = jr_decision x) (xd_decisions db)") simp_all
      then show ?thesis by (blast dest: find_Some_mem)
    qed
    ultimately show "jr_id j \<in> jr_id ` set (xd_journals db) \<and> decision_exists (dr_id d) db" by (simp add: decision_exists_def)
  qed
qed

text \<open>
  C26: Every run of the worker settles as many stuck executions as its batch holds, whatever the probes
  answer, so repeated runs leave none, as long as the database works and no rows are missing.
\<close>

theorem reconciliation_settles:
  assumes "db_ok_rows db" "reconcileExecutions t threshold batch None (\<lambda>_. True) now replies db = (db', outcome)"
  shows "stuck_count (given_or threshold 300000) now db' = stuck_count (given_or threshold 300000) now db - given_or batch 100"
proof -
  let ?th = "given_or threshold 300000" let ?n = "given_or batch 100"
  let ?P = "\<lambda>j. jr_status j = STARTED \<and> jr_created j < now - int ?th"
  let ?eds = "stuck_entries ?th ?n now db"
  let ?I = "jr_id ` fst ` set ?eds"
  note batch = batch_of [OF assms(1), of ?th ?n now]
  have "settled_in ?I db db'"
    using assms(2) reconcile_all_settles [of ?eds "(db, \<lparr>rr_repaired = 0, rr_retried = 0, rr_failed = 0\<rparr>)" t now replies] batch(2)
    by (auto simp: reconcileExecutions_def split: prod.splits)
  then have count: "stuck_count ?th now db' = length (filter (\<lambda>j. ?P j \<and> jr_id j \<notin> ?I) (xd_journals db))"
    using settled_count by simp
  have dist: "distinct (map jr_id (xd_journals db))" using assms(1) by (simp add: db_ok_rows_def)
  let ?b = "take ?n (sort_key jr_created (filter ?P (xd_journals db)))"
  have ids: "?I = jr_id ` set ?b" using batch(1) by (metis list.set_map)
  have inj: "inj_on jr_id (set (xd_journals db))" and dj: "distinct (xd_journals db)" using dist by (simp_all add: distinct_map)
  have bsub: "set ?b \<subseteq> set (filter ?P (xd_journals db))" using set_take_subset [of ?n] by fastforce
  have "set (filter (\<lambda>j. ?P j \<and> jr_id j \<in> ?I) (xd_journals db)) = set ?b"
    using bsub inj unfolding ids by (auto dest: inj_onD)
  then have "length (filter (\<lambda>j. ?P j \<and> jr_id j \<in> ?I) (xd_journals db)) = length ?b"
    using dj by (metis (no_types, lifting) distinct_card distinct_filter distinct_sort distinct_take)
  moreover have "length (filter ?P (xd_journals db)) = length (filter (\<lambda>j. ?P j \<and> jr_id j \<in> ?I) (xd_journals db)) +
      length (filter (\<lambda>j. ?P j \<and> \<not> jr_id j \<in> ?I) (xd_journals db))"
    by (rule length_filter_split)
  ultimately show ?thesis using count by (simp add: stuck_count_def)
qed

lemma commit_result_key: "er_key (snd (commit_step fault now i md x db)) = idempotency_key i (em_snapshotId md) (em_tenantId md)"
  by (simp add: commit_step_def Let_def no_result_def split: option.split)

lemma completed_left:
  assumes "j \<in> set (xd_journals (update_journals (\<lambda>j. jr_key j = k) (\<lambda>j. j\<lparr>jr_status := COMPLETED, jr_external := x\<rparr>) db))"
    "jr_status j = STARTED"
  shows "jr_key j \<noteq> k"
proof -
  let ?f = "\<lambda>j. if jr_key j = k then j\<lparr>jr_status := COMPLETED, jr_external := x\<rparr> else j"
  have "j \<in> ?f ` set (xd_journals db)" using assms(1) by (simp add: update_journals_def)
  then obtain j0 where "j = ?f j0" by (rule imageE)
  then show ?thesis using assms(2) by (cases "jr_key j0 = k") simp_all
qed

text \<open>
  A deletion whose reply times out is recorded as failed with a completed journal, so the reconciliation
  never probes it, although the index may be gone. Nothing asks whether the decision was approved: the row
  becomes executed or failed by the reply alone, whatever its status and decision were.
\<close>

theorem timeout_never_reconciled:
  assumes "deletes md" "decision_exists i db" "idempotency_key i (em_snapshotId md) (em_tenantId md) \<notin> set (journal_keys db)"
    "executeDecisionSafe t (None, None) now fresh reply i md db = (db', r)"
  shows "(row \<in> set (xd_decisions db') \<and> dr_id row = i \<longrightarrow>
      dr_status row = (if xr_status (deleteIndex t (er_key r) reply) = Ext_success then ''EXECUTED'' else ''FAILED'')) \<and>
    (j \<in> fst ` set (stuck_entries threshold n later db') \<longrightarrow> jr_key j \<noteq> idempotency_key i (em_snapshotId md) (em_tenantId md))"
proof -
  let ?k = "idempotency_key i (em_snapshotId md) (em_tenantId md)" let ?x = "deleteIndex t ?k reply"
  let ?db1 = "db\<lparr>xd_journals := xd_journals db @ [\<lparr>jr_id = fresh, jr_decision = i, jr_tenant = em_tenantId md, jr_key = ?k,
    jr_status = STARTED, jr_external = None, jr_created = now\<rparr>]\<rparr>"
  let ?audit = "write_audit \<lparr>ae_decision = i, ae_tenant = em_tenantId md, ae_actor = ''system'', ae_type = ''execution.completed'',
    ae_payload = Execution_completed (em_decision md) ?x ?k\<rparr> ?db1"
  have begun: "journal_begin None now fresh i md db = (?db1, None)"
    using assms(2,3) by (simp add: journal_begin_def Let_def journal_keys_def)
  have ex: "external_step t md ?k reply = ?x" using assms(1) by (simp add: external_step_def)
  have "decision_exists i ?db1" using assms(2) by (simp add: decision_exists_def)
  then have res: "db' = set_decision i (if xr_status ?x = Ext_success then ''EXECUTED'' else ''FAILED'') (Some now)
        (update_journals (\<lambda>j. jr_key j = ?k) (\<lambda>j. j\<lparr>jr_status := COMPLETED, jr_external := Some (Inl ?x)\<rparr>) ?audit)"
    using assms(4) begun ex by (simp add: executeDecisionSafe_def commit_step_def Let_def)
  have "commit_step None now i md ?x ?db1 = (db', r)" using assms(4) begun ex by (simp add: executeDecisionSafe_def)
  then have key: "er_key r = ?k" using commit_result_key [of None now i md ?x ?db1] by simp
  have "jr_key j \<noteq> ?k" if stuck: "j \<in> fst ` set (stuck_entries threshold n later db')"
  proof -
    have "j \<in> set (xd_journals db')" "jr_status j = STARTED" using stuck_in [OF stuck] by simp_all
    then show ?thesis unfolding res other_writes by (rule completed_left)
  qed
  moreover have "dr_status row = (if xr_status ?x = Ext_success then ''EXECUTED'' else ''FAILED'')"
    if "row \<in> set (xd_decisions db')" "dr_id row = i"
    using that(1) unfolding res by (rule status_after) (rule that(2))
  ultimately show ?thesis using key by simp
qed

section \<open>Samples\<close>

definition sample_decision :: decision_row where
  "sample_decision = \<lparr>dr_id = ''d'', dr_tenant = ''t'', dr_snapshot = ''s'', dr_index = ''old'', dr_decision = ''ELIMINATE'',
     dr_status = ''REJECTED_FINAL'', dr_executedAt = None\<rparr>"

definition sample_metadata :: execution_metadata where
  "sample_metadata = \<lparr>em_index = ''old'', em_sourcetype = None, em_decision = ''ELIMINATE'', em_compositeScore = Fin 10,
     em_annualCostUsd = Fin 100, em_tenantId = ''t'', em_snapshotId = ''s''\<rparr>"

definition sample_journal :: journal_row where
  "sample_journal = \<lparr>jr_id = ''j'', jr_decision = ''d'', jr_tenant = ''t'', jr_key = ''exec:d:s:t'', jr_status = STARTED,
     jr_external = None, jr_created = 0\<rparr>"

definition sample_db :: exec_db where
  "sample_db = \<lparr>xd_decisions = [sample_decision], xd_journals = [], xd_audit = []\<rparr>"

definition stuck_db :: exec_db where
  "stuck_db = \<lparr>xd_decisions = [sample_decision], xd_journals = [sample_journal], xd_audit = []\<rparr>"

lemma sample_begun: "journal_begin None 0 ''j'' ''d'' sample_metadata sample_db = (stuck_db, None)"
  by (simp add: journal_begin_def sample_db_def stuck_db_def sample_decision_def sample_metadata_def sample_journal_def
    decision_exists_def idempotency_key_def)

lemma deletion_at_most_once_witness:
  "\<exists>w. (exec_step None)\<^sup>*\<^sup>* (fresh_world [sample_decision] {''old''}) w \<and> xw_deletions w = [''exec:d:s:t''] \<and> distinct (xw_deletions w)"
proof -
  let ?w0 = "fresh_world [sample_decision] {''old''}"
  let ?r = "\<lparr>ru_decision = ''d'', ru_metadata = sample_metadata, ru_result = None\<rparr>"
  have "journal_begin None (xw_now ?w0) ''j'' ''d'' sample_metadata (xw_db ?w0) = (stuck_db, None)"
    using sample_begun by (simp add: fresh_world_def sample_db_def)
  from exec_step.begins [OF this, of None] have s1: "exec_step None ?w0 (?w0\<lparr>xw_db := stuck_db, xw_running := [?r]\<rparr>)"
    by (simp add: fresh_world_def)
  let ?w1 = "?w0\<lparr>xw_db := stuck_db, xw_running := [?r]\<rparr>"
  have "xw_running ?w1 = [] @ ?r # []" "ru_result ?r = None" by simp_all
  from exec_step.external [OF this, of None True Http_aborted]
  obtain w where s2: "exec_step None ?w1 w" "xw_deletions w = [run_key ?r]"
    by (auto simp: fresh_world_def deletes_def sample_metadata_def)
  have r: "(exec_step None)\<^sup>*\<^sup>* ?w0 w" using s1 s2(1) by (meson r_into_rtranclp rtranclp.rtrancl_into_rtrancl)
  from deletion_at_most_once [OF r] r s2(2) show ?thesis by (auto simp: run_key_def idempotency_key_def sample_metadata_def)
qed

lemma execution_never_repeated_witness:
  "er_status (snd (executeDecisionSafe None (None, None) 9 ''k'' Http_aborted ''d'' sample_metadata
     (fst (executeDecisionSafe None (None, Some ''lost'') 0 ''j'' Http_aborted ''d'' sample_metadata sample_db)))) = Ext_unknown"
proof -
  obtain db1 r where e: "executeDecisionSafe None (None, Some ''lost'') 0 ''j'' Http_aborted ''d'' sample_metadata sample_db = (db1, r)"
    by fastforce
  have "decision_exists ''d'' sample_db" by (simp add: decision_exists_def sample_db_def sample_decision_def)
  from execution_never_repeated [OF e this rtranclp.rtrancl_refl [of "exec_step None" "(fresh_world [] {})\<lparr>xw_db := db1\<rparr>"] refl refl]
  show ?thesis by (simp add: e no_result_def)
qed

lemma probe_error_executes_witness:
  "list_all (\<lambda>row. dr_status row = ''EXECUTED'') (xd_decisions (fst (reconcileOne None True 0 Http_aborted (sample_journal, sample_decision) stuck_db)))"
proof -
  have d: "dr_decision sample_decision = ''ELIMINATE''" by (simp add: sample_decision_def)
  have rows: "rows_there True sample_journal sample_decision stuck_db"
    by (simp add: rows_there_def stuck_db_def decision_exists_def)
  note law = reconcile_one_law [OF d rows, of None 0 Http_aborted]
  obtain db' outcome where e: "reconcileOne None True 0 Http_aborted (sample_journal, sample_decision) stuck_db = (db', outcome)" by fastforce
  have "outcome \<noteq> None" using law e by (simp add: probe_saw_def)
  moreover have "dr_id row = dr_id sample_decision" if "row \<in> set (xd_decisions db')" for row
    using that law e by (auto simp: probe_saw_def repairExecutionSucceeded_def stuck_db_def set_decision_def update_journals_def write_audit_def)
  ultimately have "dr_status row = ''EXECUTED''" if "row \<in> set (xd_decisions db')" for row
    using probe_error_executes [OF d e that] that by (simp add: probe_saw_def)
  then show ?thesis by (simp add: e list_all_iff)
qed

lemma reconciliation_settles_witness:
  "stuck_count 300000 300001 (fst (reconcileExecutions None None None None (\<lambda>_. True) 300001 (\<lambda>_. Http_aborted) stuck_db)) = 0"
proof -
  obtain db' outcome where e: "reconcileExecutions None None None None (\<lambda>_. True) 300001 (\<lambda>_. Http_aborted) stuck_db = (db', outcome)"
    by fastforce
  have "db_ok_rows stuck_db" by (simp add: db_ok_rows_def stuck_db_def decision_exists_def sample_journal_def sample_decision_def)
  from reconciliation_settles [OF this e] show ?thesis unfolding e fst_conv
    by (simp add: stuck_count_def stuck_db_def sample_journal_def given_or_def)
qed

lemma timeout_never_reconciled_witness:
  "sample_journal \<notin> fst ` set (stuck_entries 0 5 9 (fst (executeDecisionSafe None (None, None) 0 ''j'' Http_aborted ''d'' sample_metadata sample_db)))"
proof -
  obtain db' r where e: "executeDecisionSafe None (None, None) 0 ''j'' Http_aborted ''d'' sample_metadata sample_db = (db', r)" by fastforce
  have "deletes sample_metadata" "decision_exists ''d'' sample_db"
    "idempotency_key ''d'' (em_snapshotId sample_metadata) (em_tenantId sample_metadata) \<notin> set (journal_keys sample_db)"
    by (simp_all add: deletes_def sample_metadata_def decision_exists_def sample_db_def sample_decision_def journal_keys_def)
  from timeout_never_reconciled [OF this e, of _ sample_journal 0 5 9] show ?thesis unfolding e fst_conv
    by (auto simp: sample_journal_def idempotency_key_def sample_metadata_def)
qed

end
