(* ===== verification/Adapters.thy ===== *)
theory Adapters
  imports PolicyProfiles Portfolio Inventory
begin

text \<open>
  The adapters that join the layers of \<open>packages\<close>: \<open>infra/aggregation/gold-engine-adapter.ts\<close> scores the
  inventory and compares two scorings, \<open>infra/aggregation/policy-engine-adapter.ts\<close> validates recommendations
  and prepares what is executed, and \<open>core/workflow/executor.ts\<close> turns a decision into actions. The clock
  and the random part of a ticket id are arguments; the actions themselves are stubs in the source.
\<close>

section \<open>Scoring an inventory\<close>

record gold_data =
  go_telemetry :: "volume_snapshot list"
  go_detection :: "(string, detection_coverage) jmap"
  go_quality :: "(string, quality_signals) jmap"
  go_searches :: "saved_search list"
  go_dashboards :: "dashboard list"
  go_weights :: "scoring_weights option"

record engine_input =
  ei_telemetry :: volume_snapshot
  ei_key :: string
  ei_utilCount :: "nat \<times> jsnum"
  ei_panelCount :: "nat \<times> jsnum"
  ei_detection :: "detection_coverage option"
  ei_quality :: "quality_signals option"

definition count_or_zero :: "(nat \<times> jsnum) option \<Rightarrow> nat \<times> jsnum" where
  "count_or_zero e = (case e of Some p \<Rightarrow> p | None \<Rightarrow> (0, Fin 0))"

definition engine_input_of :: "gold_data \<Rightarrow> volume_snapshot \<Rightarrow> engine_input" where
  "engine_input_of gold t =
     (let key = score_key (vs_index t) (vs_sourcetype t); st = or_default (vs_sourcetype t) []
      in \<lparr>ei_telemetry = t, ei_key = key,
          ei_utilCount = count_or_zero (jm_get (aggregateSearchCountsByIndex (go_searches gold)) key),
          ei_panelCount = count_or_zero (jm_get (aggregatePanelCountsByIndex (go_dashboards gold)) key),
          ei_detection = jm_get (go_detection gold) st, ei_quality = jm_get (go_quality gold) st\<rparr>)"

text \<open>\<open>x || 1\<close> for a number that may be missing.\<close>

definition alerts_or_one :: "engine_input \<Rightarrow> jsnum" where
  "alerts_or_one i =
     (case ei_detection i of
        Some d \<Rightarrow> if js_truthy (Num (dc_activeAlerts d)) then dc_activeAlerts d else Fin 1
      | None \<Rightarrow> Fin 1)"

definition engine_detection :: "jsnum \<Rightarrow> engine_input \<Rightarrow> jsnum" where
  "engine_detection most i =
     (case ei_detection i of
        Some d \<Rightarrow>
          jadd (jmul (jdiv (jadd (jmul (Fin (of_nat (length (dc_mitreTechniques d)))) (Fin (5 / 4)))
                             (jmul (Fin (of_nat (length (dc_lanternUsecases d)))) (Fin 6))) (Fin 2)) (jlit (4 / 10)))
            (jmul (jmul (jdiv (dc_activeAlerts d) most) (Fin 100)) (jlit (6 / 10)))
      | None \<Rightarrow> Fin 0)"

definition engine_quality :: "engine_input \<Rightarrow> jsnum" where
  "engine_quality i =
     (case ei_quality i of
        Some q \<Rightarrow> computeQualityScore \<lparr>qi_index = vs_index (ei_telemetry i), qi_sourcetype = vs_sourcetype (ei_telemetry i),
            weightedIssues = qs_weightedIssues q, qi_dailyGb = vs_dailyAvgGb (ei_telemetry i), eventsPerGbFactor = None\<rparr>
      | None \<Rightarrow> Fin 100)"

record engine_score =
  en_index :: string
  en_sourcetype :: "string option"
  en_utilization :: jsnum
  en_detection :: jsnum
  en_quality :: jsnum
  en_composite :: jsnum
  en_tier :: tier
  en_annualCostUsd :: jsnum

datatype engine_error = Score_error score_error | Invalid_composite string

definition score_input :: "scoring_weights \<Rightarrow> jsnum \<Rightarrow> engine_input \<Rightarrow> engine_error + engine_score" where
  "score_input weights most i =
     (let utilScore = jmul (snd (ei_utilCount i)) (Fin 100); detectionScore = engine_detection most i; qualityScore = engine_quality i;
          t = ei_telemetry i
      in case computeCompositeScore utilScore detectionScore qualityScore weights of
           Inl e \<Rightarrow> Inl (Score_error e)
         | Inr composite \<Rightarrow>
             if \<not> isFinite composite then Inl (Invalid_composite (vs_index t))
             else Inr \<lparr>en_index = vs_index t, en_sourcetype = vs_sourcetype t, en_utilization = jround1 utilScore,
               en_detection = jround1 detectionScore, en_quality = jround1 qualityScore, en_composite = jround1 composite,
               en_tier = assignTier composite, en_annualCostUsd = vs_annualCostUsd t\<rparr>)"

text \<open>The first source that cannot be scored ends the run.\<close>

fun map_first_error :: "('a \<Rightarrow> 'e + 'b) \<Rightarrow> 'a list \<Rightarrow> 'e + 'b list" where
  "map_first_error f [] = Inr []"
| "map_first_error f (x # xs) =
     (case f x of Inl e \<Rightarrow> Inl e
      | Inr y \<Rightarrow> (case map_first_error f xs of Inl e \<Rightarrow> Inl e | Inr ys \<Rightarrow> Inr (y # ys)))"

definition scoreWithEngine :: "gold_data \<Rightarrow> engine_error + engine_score list" where
  "scoreWithEngine gold =
     (let weights = (case go_weights gold of Some w \<Rightarrow> w | None \<Rightarrow> DEFAULT_WEIGHTS);
          engineInputs = map (engine_input_of gold) (go_telemetry gold);
          most = jmax_list (map alerts_or_one engineInputs) NegInf
      in map_first_error (score_input weights most) engineInputs)"

text \<open>The indicators of scored sources; the scores of this engine have no volume and no gaps.\<close>

record kpi_source =
  ks_composite :: jsnum
  ks_tier :: tier
  ks_annualCostUsd :: jsnum
  ks_dailyAvgGb :: "jsnum option"

definition scored_of :: "kpi_source \<Rightarrow> scored_source" where
  "scored_of s =
     \<lparr>ss_index = [], ss_sourcetype = None, ss_utilization = NaN, ss_detection = NaN, ss_quality = NaN, ss_composite = ks_composite s,
      ss_tier = ks_tier s,
      ss_dailyGb = (case ks_dailyAvgGb s of Some x \<Rightarrow> if js_truthy (Num x) then x else Fin 0 | None \<Rightarrow> Fin 0),
      ss_annualCostUsd = ks_annualCostUsd s, ss_detectionGap = False, ss_operationalGap = False\<rparr>"

definition computeDeterministicKPIs :: "kpi_source list \<Rightarrow> portfolio_kpis" where
  "computeDeterministicKPIs scored = computePortfolioKPIs (map scored_of scored)"

section \<open>Comparing two scorings\<close>

record path_score =
  ps_index :: string
  ps_sourcetype :: "string option"
  ps_composite :: jsnum

record divergence =
  dv_index :: string
  dv_old :: jsnum
  dv_new :: jsnum
  dv_delta :: jsnum

definition same_source :: "path_score \<Rightarrow> path_score \<Rightarrow> bool" where
  "same_source a b = (ps_index a = ps_index b \<and> or_default (ps_sourcetype a) [] = or_default (ps_sourcetype b) [])"

definition compare_score :: "path_score list \<Rightarrow> path_score \<Rightarrow> divergence list" where
  "compare_score newScores old =
     (case find (\<lambda>n. same_source n old) newScores of
        None \<Rightarrow> [\<lparr>dv_index = ps_index old, dv_old = ps_composite old, dv_new = Fin 0, dv_delta = ps_composite old\<rparr>]
      | Some n \<Rightarrow>
          (let delta = jabs (jsub (ps_composite old) (ps_composite n))
           in if jlt (Fin (1 / 2)) delta
              then [\<lparr>dv_index = ps_index old, dv_old = ps_composite old, dv_new = ps_composite n, dv_delta = delta\<rparr>] else []))"

record dual_path =
  dp_matches :: int
  dp_divergences :: "divergence list"
  dp_isValid :: bool

definition validateDualPath :: "path_score list \<Rightarrow> path_score list \<Rightarrow> dual_path" where
  "validateDualPath oldScores newScores =
     (let divergences = concat (map (compare_score newScores) oldScores)
      in \<lparr>dp_matches = int (length oldScores) - int (length divergences), dp_divergences = divergences, dp_isValid = (divergences = [])\<rparr>)"

section \<open>Policy validation\<close>











record execution_item =
  xi_index :: string
  xi_sourcetype :: "string option"
  xi_decision :: policy_decision
  xi_tier :: string
  xi_compositeScore :: jsnum
  xi_annualCostUsd :: jsnum
  xi_violations :: nat
  xi_requiresApproval :: bool

definition execution_item_of :: "policy_validation_result \<Rightarrow> execution_item" where
  "execution_item_of v =
     \<lparr>xi_index = si_index (pvr_input v), xi_sourcetype = si_sourcetype (pvr_input v), xi_decision = pvr_validatedDecision v,
      xi_tier = si_tier (pvr_input v), xi_compositeScore = si_compositeScore (pvr_input v),
      xi_annualCostUsd = si_annualCostUsd (pvr_input v), xi_violations = length (pvr_violations v),
      xi_requiresApproval = (pvr_validatedDecision v = ESCALATE \<or> pvr_violations v \<noteq> [])\<rparr>"




definition updatePolicyConfig :: "policy_config \<Rightarrow> policy_config \<Rightarrow> policy_config" where
  "updatePolicyConfig engine newConfig = updateGuardrails (pc_guardrails newConfig) (updateRules (pc_rules newConfig) engine)"

section \<open>From a decision to actions\<close>

record execution_action =
  ac_id :: string
  ac_index :: string
  ac_sourcetype :: "string option"
  ac_decision :: policy_decision
  ac_action :: string
  ac_parameters :: "(string \<times> js) list"

definition new_action :: "string \<Rightarrow> string option \<Rightarrow> policy_decision \<Rightarrow> string \<Rightarrow> string \<Rightarrow> (string \<times> js) list \<Rightarrow> execution_action" where
  "new_action index st d name action ps =
     \<lparr>ac_id = index @ name, ac_index = index, ac_sourcetype = st, ac_decision = d, ac_action = action, ac_parameters = ps\<rparr>"

definition tag_parameters :: "string \<Rightarrow> string list \<Rightarrow> string \<Rightarrow> (string \<times> js) list" where
  "tag_parameters index tags text = [(''index'', Str index), (''tags'', Arr (map Str tags)), (''comment'', Str text)]"

definition ticket_parameters :: "string \<Rightarrow> (string \<times> js) list \<Rightarrow> string \<Rightarrow> string \<Rightarrow> (string \<times> js) list" where
  "ticket_parameters issueType extra summary description =
     [(''system'', Str ''jira''), (''project'', Str ''SPLUNK''), (''issueType'', Str issueType)] @ extra @
     [(''summary'', Str summary), (''description'', Str description)]"

definition mapDecisionToActions ::
  "string \<Rightarrow> policy_decision \<Rightarrow> string \<Rightarrow> string option \<Rightarrow> jsnum \<Rightarrow> jsnum \<Rightarrow> execution_action list" where
  "mapDecisionToActions now_iso decision index st compositeScore annualCostUsd =
     (let act = new_action index st decision in
      case decision of
        ELIMINATE \<Rightarrow>
          [act '':eliminate:archive'' ''ARCHIVE_TO_S3''
             [(''bucket'', Str ''governance-archive''), (''prefix'', Str (''eliminated/'' @ index @ ''/'' @ now_iso))],
           act '':eliminate:delete'' ''DELETE_INDEX'' [(''index'', Str index), (''force'', Bool False)]]
      | MONITOR \<Rightarrow>
          [act '':monitor:tag'' ''TAG_INDEX''
             (tag_parameters index [''monitored'', ''governance-tracked''] ''Monitoring for optimization opportunity'')]
      | RETAIN \<Rightarrow>
          [act '':retain:tag'' ''TAG_INDEX''
             (tag_parameters index [''strategic'', ''governance-retained''] ''Retained due to high value/detection''),
           act '':retain:ticket'' ''CREATE_TICKET''
             (ticket_parameters ''Review'' [] (''Strategic Retention: '' @ index)
               (''Index retained due to composite score '' @ to_fixed 1 compositeScore @ ''. Annual cost: $'' @ to_fixed 0 annualCostUsd @
                ''. Review for optimization opportunities.''))]
      | REBALANCE \<Rightarrow>
          [act '':rebalance:ticket'' ''CREATE_TICKET''
             (ticket_parameters ''Task'' [] (''Rebalance Opportunity: '' @ index)
               (''Index recommended for consolidation/rebalancing. Low-to-medium value (score '' @ to_fixed 1 compositeScore @
                ''). Potential savings: $'' @ to_fixed 0 annualCostUsd @ ''/year.''))]
      | ESCALATE \<Rightarrow>
          [act '':escalate:ticket'' ''CREATE_TICKET''
             (ticket_parameters ''Bug'' [(''priority'', Str ''High'')] (''ESCALATION: '' @ index @ '' requires governance review'')
               (''Automated governance decision requires human review. Composite score: '' @ to_fixed 1 compositeScore @
                ''. Policy violations detected. Requires approval before proceeding.''))])"

record action_result =
  re_actionId :: string
  re_outcome :: "string + js"

text \<open>The tags are joined for a log line, which needs an array.\<close>

definition join_error :: "js \<Rightarrow> string option" where
  "join_error v =
     (case v of
        Arr _ \<Rightarrow> None
      | Undefined \<Rightarrow> Some ''Cannot read properties of undefined (reading 'join')''
      | Null \<Rightarrow> Some ''Cannot read properties of null (reading 'join')''
      | _ \<Rightarrow> Some ''tags.join is not a function'')"

definition executeAction :: "string \<Rightarrow> execution_action \<Rightarrow> action_result" where
  "executeAction random a =
     (let p = js_get (ac_parameters a)
      in \<lparr>re_actionId = ac_id a, re_outcome =
          (if ac_action a = ''DELETE_INDEX'' then Inr (Obj [(''index'', p ''index''), (''deleted'', Bool True)])
           else if ac_action a = ''ARCHIVE_TO_S3''
           then Inr (Obj [(''bucket'', p ''bucket''), (''prefix'', p ''prefix''), (''archived'', Bool True)])
           else if ac_action a = ''TAG_INDEX''
           then (case join_error (p ''tags'') of
                   Some e \<Rightarrow> Inl e
                 | None \<Rightarrow> Inr (Obj [(''index'', p ''index''), (''tags'', p ''tags''), (''comment'', p ''comment'')]))
           else if ac_action a = ''CREATE_TICKET''
           then Inr (Obj (foldl (\<lambda>m kv. jm_set (fst kv) (snd kv) m) [(''ticketId'', Str (''SPLUNK-'' @ random))] (ac_parameters a)))
           else if ac_action a = ''REDUCE_RETENTION'' then Inr (Obj [(''index'', p ''index''), (''maxDays'', p ''days'')])
           else Inl (''Unknown action: '' @ ac_action a))\<rparr>)"

text \<open>The actions of a decision run in order; only a failed deletion stops them.\<close>

fun run_actions :: "(execution_action \<Rightarrow> action_result) \<Rightarrow> execution_action list \<Rightarrow> action_result list" where
  "run_actions run [] = []"
| "run_actions run (a # as) =
     (let r = run a
      in if isl (re_outcome r) \<and> ac_action a = ''DELETE_INDEX'' then [r] else r # run_actions run as)"

record decision_metadata =
  md_sourcetype :: "string option"
  md_compositeScore :: jsnum
  md_annualCostUsd :: jsnum

definition executeDecision :: "string \<Rightarrow> string \<Rightarrow> string \<Rightarrow> policy_decision \<Rightarrow> decision_metadata \<Rightarrow> action_result list" where
  "executeDecision now_iso random index decision metadata =
     run_actions (executeAction random)
       (mapDecisionToActions now_iso decision index (md_sourcetype metadata) (md_compositeScore metadata) (md_annualCostUsd metadata))"

section \<open>Laws of the scoring\<close>

lemma index_characters: "idx \<in> set (extractIndexes q) \<Longrightarrow> list_all index_char idx"
  using all_assigned_sound [of idx "''index''" index_char q] by (auto simp: extractIndexes_def assigns_def)

lemma key_not_extracted: "score_key idx st \<notin> set (extractIndexes q)"
proof
  assume "score_key idx st \<in> set (extractIndexes q)"
  then have "index_char (CHR '':'')" using index_characters by (fastforce simp: score_key_def)
  then show False by (simp add: index_char_def alnum_def Let_def)
qed

lemma searches_not_counted:
  assumes "go_searches gold = normalizeSavedSearches env raw"
  shows "ei_utilCount (engine_input_of gold t) = (0, Fin 0)"
proof -
  have "referencing (score_key (vs_index t) (vs_sourcetype t)) raw = []" by (simp add: referencing_def key_not_extracted)
  then show ?thesis
    using search_attribution_law [of env raw "score_key (vs_index t) (vs_sourcetype t)"] assms
    by (simp add: engine_input_of_def Let_def count_or_zero_def)
qed

lemma map_first_error_mem: "map_first_error f xs = Inr ys \<Longrightarrow> y \<in> set ys \<Longrightarrow> \<exists>x\<in>set xs. f x = Inr y"
  by (induction xs arbitrary: ys) (auto split: sum.splits)

text \<open>
  Every source is scored without any utilization: the counts of the searches are kept by index and
  looked up by index and source type, with a colon that no index name found in a search contains.
\<close>

theorem engine_utilization_zero:
  assumes "go_searches gold = normalizeSavedSearches env raw" "scoreWithEngine gold = Inr scores" "s \<in> set scores"
  shows "en_utilization s = Fin 0"
proof -
  obtain w most i where i: "i \<in> set (map (engine_input_of gold) (go_telemetry gold))" and e: "score_input w most i = Inr s"
    using map_first_error_mem assms(2,3) unfolding scoreWithEngine_def Let_def by metis
  have "ei_utilCount i = (0, Fin 0)" using i searches_not_counted [OF assms(1)] by auto
  moreover have "\<lfloor>1 / 2 :: rat\<rfloor> = 0" by (simp add: floor_eq_iff)
  then have "jround1 (Fin 0) = Fin 0" by (simp add: jround1_def)
  ultimately show ?thesis using e
    by (auto simp: score_input_def Let_def split: sum.splits if_splits)
qed

definition sample_volume :: volume_snapshot where
  "sample_volume = \<lparr>vs_snapshotId = ''s'', vs_snapshotDate = Fin 0, vs_index = ''main'', vs_sourcetype = None, vs_dailyAvgGb = Fin 1,
     vs_totalEvents = Fin 1, vs_retentionDays = Fin 1, vs_firstEvent = None, vs_lastEvent = None, vs_costPerGbPerDay = Fin 1,
     vs_annualCostUsd = Fin 365, vs_isActive = True, vs_daysOfHistory = Fin 1\<rparr>"

definition sample_search :: raw_search where
  "sample_search = \<lparr>rs_id = ''1'', rs_title = ''t'', rs_search = ''index=main'', rs_updated = None, rs_is_scheduled = True,
     rs_is_alert = False, rs_earliest = None\<rparr>"

definition sample_gold :: "inventory_env \<Rightarrow> gold_data" where
  "sample_gold env = \<lparr>go_telemetry = [sample_volume], go_detection = [], go_quality = [],
     go_searches = normalizeSavedSearches env [sample_search],
     go_dashboards = [], go_weights = Some \<lparr>w_utilization = Fin 0, w_detection = Fin 0, w_quality = Fin 1\<rparr>\<rparr>"

definition sample_env :: inventory_env where
  "sample_env = \<lparr>ie_date = (\<lambda>_. NaN), ie_now = Fin 0, ie_days_back = (\<lambda>t n. t)\<rparr>"

lemma tolerance_not_negative: "\<not> jlt (jlit (1 / 1000)) (Fin 0)"
  by code_simp

lemma sample_composite:
  "computeCompositeScore (Fin 0) (Fin 0) (Fin 100) \<lparr>w_utilization = Fin 0, w_detection = Fin 0, w_quality = Fin 1\<rparr> = Inr (Fin 100)"
proof -
  have "\<lfloor>2001 / 2 :: rat\<rfloor> = 1000" by (simp add: floor_eq_iff)
  then show ?thesis using tolerance_not_negative
    by (simp add: computeCompositeScore_def validateWeights_def weighted_composite_def jsub_def jround1_def)
qed

lemma sample_searches: "go_searches (sample_gold env) = normalizeSavedSearches env [sample_search]"
  by (simp add: sample_gold_def)

lemma sample_gold_scored: "\<exists>s. scoreWithEngine (sample_gold sample_env) = Inr [s]"
proof -
  let ?i = "engine_input_of (sample_gold sample_env) sample_volume"
  have "ei_utilCount ?i = (0, Fin 0)" by (rule searches_not_counted [OF sample_searches])
  moreover have "ei_detection ?i = None" "ei_quality ?i = None" by (simp_all add: engine_input_of_def sample_gold_def Let_def)
  moreover have "go_telemetry (sample_gold sample_env) = [sample_volume]"
    "go_weights (sample_gold sample_env) = Some \<lparr>w_utilization = Fin 0, w_detection = Fin 0, w_quality = Fin 1\<rparr>"
    by (simp_all add: sample_gold_def)
  ultimately show ?thesis
    by (simp add: scoreWithEngine_def score_input_def engine_detection_def engine_quality_def Let_def sample_composite)
qed

theorem engine_utilization_zero_witness:
  "en_utilization (hd (case scoreWithEngine (sample_gold sample_env) of Inr ss \<Rightarrow> ss)) = Fin 0"
proof -
  obtain s where s: "scoreWithEngine (sample_gold sample_env) = Inr [s]" using sample_gold_scored by blast
  show ?thesis using engine_utilization_zero [OF sample_searches s, of s] by (simp add: s)
qed

lemma jsum_zeros: "list_all (\<lambda>x. x = Fin 0) xs \<Longrightarrow> jsum xs = Fin 0"
  by (induction xs rule: rev_induct) (simp_all add: jsum_def)

text \<open>
  Sources without a daily volume, as the engine returns them, have no gain scope, and no gap is ever
  counted.
\<close>

theorem engine_kpis_blind:
  assumes "list_all (\<lambda>s. ks_dailyAvgGb s = None) scored"
  shows "kp_gainScope (computeDeterministicKPIs scored) = Fin 0 \<and> kp_securityGaps (computeDeterministicKPIs scored) = 0 \<and>
    kp_operationalGaps (computeDeterministicKPIs scored) = 0"
proof -
  have "jsum (map ss_dailyGb (map scored_of scored)) = Fin 0"
    using assms by (intro jsum_zeros) (auto simp: list_all_iff scored_of_def)
  then show ?thesis by (simp add: computeDeterministicKPIs_def computePortfolioKPIs_def computeGainScope_def Let_def scored_of_def)
qed

theorem engine_kpis_blind_witness:
  "kp_gainScope (computeDeterministicKPIs [\<lparr>ks_composite = Fin 80, ks_tier = Critical, ks_annualCostUsd = Fin 1000, ks_dailyAvgGb = None\<rparr>]) = Fin 0"
  using engine_kpis_blind [of "[\<lparr>ks_composite = Fin 80, ks_tier = Critical, ks_annualCostUsd = Fin 1000, ks_dailyAvgGb = None\<rparr>]"] by simp

section \<open>Laws of the comparison\<close>

text \<open>An old score agrees when its first counterpart is not known to be more than half a point away.\<close>

definition agrees :: "path_score list \<Rightarrow> path_score \<Rightarrow> bool" where
  "agrees newScores old =
     (case find (\<lambda>n. same_source n old) newScores of
        None \<Rightarrow> False | Some n \<Rightarrow> \<not> jlt (Fin (1 / 2)) (jabs (jsub (ps_composite old) (ps_composite n))))"

lemma compare_cases: "length (compare_score newScores old) = (if agrees newScores old then 0 else 1)"
  by (simp add: compare_score_def agrees_def Let_def split: option.split)

lemma divergences_count: "length (concat (map (compare_score newScores) xs)) = length (filter (\<lambda>s. \<not> agrees newScores s) xs)"
  by (induction xs) (simp_all add: compare_cases)

text \<open>
  Two scorings are accepted exactly when every old score has a counterpart that is not more than half a
  point away; the number of matches counts those, NaN composites among them.
\<close>

theorem dual_path_verdict:
  "dp_isValid (validateDualPath oldScores newScores) = list_all (agrees newScores) oldScores \<and>
   dp_matches (validateDualPath oldScores newScores) = int (length (filter (agrees newScores) oldScores)) \<and>
   length (dp_divergences (validateDualPath oldScores newScores)) = length (filter (\<lambda>s. \<not> agrees newScores s) oldScores)"
proof -
  have "length oldScores = length (filter (agrees newScores) oldScores) + length (filter (\<lambda>s. \<not> agrees newScores s) oldScores)"
    using sum_length_filter_compl [of "agrees newScores" oldScores] by simp
  moreover have "concat (map (compare_score newScores) oldScores) = [] \<longleftrightarrow> list_all (agrees newScores) oldScores"
    using divergences_count [of newScores oldScores]
    by (metis length_0_conv filter_empty_conv list_all_iff)
  ultimately show ?thesis using divergences_count [of newScores oldScores] by (simp add: validateDualPath_def Let_def)
qed

lemma nan_agrees: "find (\<lambda>n. same_source n old) news = Some n \<Longrightarrow> ps_composite n = NaN \<Longrightarrow> agrees news old"
  by (cases "ps_composite old") (simp_all add: agrees_def jsub_def)

section \<open>Laws of the payload\<close>





lemma violations_Nil_iff:
  "pvr_violations (validateRecommendation config scored r) = [] \<longleftrightarrow>
     \<not> blocks (pc_guardrails config) scored (recommendedDecision r) \<and> \<not> blocks (pc_guardrails config) scored (requested config scored r)"
  by (simp add: validateRecommendation_def requested_def Let_def no_violations_iff isDecisionBlocked_iff)

lemma default_fallback_not: 
  "pc_guardrails config = createDefaultGuardrails \<Longrightarrow> findFallbackDecision config scored d \<noteq> ESCALATE \<and> findFallbackDecision config scored d \<noteq> ELIMINATE"
  by (simp add: default_fallback)






text \<open>
  With the shipped guardrails a result that the engine marks invalid goes into execution without
  approval exactly when a rule, and no guardrail, forbids the decision.
\<close>

theorem invalid_without_approval:
  assumes "pc_guardrails config = createDefaultGuardrails"
  shows "(\<not> pvr_isValid (validateRecommendation config scored r) \<and>
      \<not> xi_requiresApproval (execution_item_of (validateRecommendation config scored r))) =
    (\<not> blocks createDefaultGuardrails scored (recommendedDecision r) \<and> \<not> blocks createDefaultGuardrails scored (requested config scored r) \<and>
      (\<exists>rule\<in>set (pc_rules config). rule_forbids (requested config scored r) rule))"
  using assms default_fallback_not [OF assms]
  by (auto simp: execution_item_of_def violations_Nil_iff isValid_iff validatedDecision_eq accepted_def)

theorem invalid_without_approval_witness:
  "\<not> xi_requiresApproval (execution_item_of
     (validateRecommendation OPERATIONS_FOCUSED_POLICY (sample_scored\<lparr>si_tier := ''Critical''\<rparr>) (eliminate_rec\<lparr>recommendedDecision := RETAIN\<rparr>)))"
proof -
  let ?s = "sample_scored\<lparr>si_tier := ''Critical''\<rparr>" and ?r = "eliminate_rec\<lparr>recommendedDecision := RETAIN\<rparr>"
  have "requested OPERATIONS_FOCUSED_POLICY ?s ?r = RETAIN"
    by (simp add: requested_def resolveDecisionFromRules_def OPERATIONS_FOCUSED_POLICY_def findMatchingRules_def
        evaluateRule_def evaluateCondition_def sample_scored_def)
  then show ?thesis using invalid_without_approval [of OPERATIONS_FOCUSED_POLICY ?s ?r] of_forbids [of RETAIN] by (simp add: eliminate_rec_def)
qed

section \<open>Laws of the actions\<close>

text \<open>
  C35: Both actions of an elimination are carried out, whatever becomes of the first: the index is deleted
  also when its archive has failed.
\<close>

theorem deletion_follows_failed_archive:
  assumes "\<And>a. re_actionId (run a) = ac_id a"
  shows "map re_actionId (run_actions run (mapDecisionToActions stamp ELIMINATE index st c cost)) =
    [index @ '':eliminate:archive'', index @ '':eliminate:delete'']"
  using assms by (simp add: mapDecisionToActions_def new_action_def Let_def)

theorem deletion_follows_failed_archive_witness:
  "length (run_actions (\<lambda>a. \<lparr>re_actionId = ac_id a, re_outcome = Inl ''failed''\<rparr>)
     (mapDecisionToActions [] ELIMINATE ''main'' None (Fin 0) (Fin 0))) = 2"
  using arg_cong [OF deletion_follows_failed_archive [of "\<lambda>a. \<lparr>re_actionId = ac_id a, re_outcome = Inl ''failed''\<rparr>" "[]" "''main''" None "Fin 0" "Fin 0"],
      of length]
  by simp

text \<open>
  Executing a decision reports one success for every action it is mapped to, as the actions are stubs.
\<close>

theorem execution_always_succeeds:
  "map re_actionId (executeDecision stamp random index d md) =
     map ac_id (mapDecisionToActions stamp d index (md_sourcetype md) (md_compositeScore md) (md_annualCostUsd md)) \<and>
   list_all (\<lambda>r. \<not> isl (re_outcome r)) (executeDecision stamp random index d md)"
  by (cases d) (simp_all add: executeDecision_def mapDecisionToActions_def new_action_def executeAction_def tag_parameters_def
      ticket_parameters_def join_error_def js_get_def Let_def)

end
