(* ===== verification/Workflow.thy ===== *)
theory Workflow
  imports JsValue
begin

text \<open>
  The review workflow of \<open>apps/api/services/governance-workflow-service.ts\<close> over the tables of
  \<open>infrastructure/migrations/archive/.broken_021_archive.sql\<close>: the states of a review, the log of their
  transitions, caveats of conditional approvals and investigations. Every query commits by itself and may
  fail; the failures with their messages, the clock and fresh ids are arguments. Rows are modelled as they
  are parsed.
\<close>

section \<open>States\<close>

datatype workflow_state = PROPOSED | APPROVED | REJECTED | ESCALATED | CONDITIONAL | EXPIRED | SUPERSEDED | UNDER_INVESTIGATION | QUARANTINED

fun state_text :: "workflow_state \<Rightarrow> string" where
  "state_text PROPOSED = ''PROPOSED''"
| "state_text APPROVED = ''APPROVED''"
| "state_text REJECTED = ''REJECTED''"
| "state_text ESCALATED = ''ESCALATED''"
| "state_text CONDITIONAL = ''CONDITIONAL''"
| "state_text EXPIRED = ''EXPIRED''"
| "state_text SUPERSEDED = ''SUPERSEDED''"
| "state_text UNDER_INVESTIGATION = ''UNDER_INVESTIGATION''"
| "state_text QUARANTINED = ''QUARANTINED''"

fun VALID_TRANSITIONS :: "workflow_state \<Rightarrow> workflow_state list" where
  "VALID_TRANSITIONS PROPOSED = [APPROVED, REJECTED, ESCALATED, CONDITIONAL]"
| "VALID_TRANSITIONS APPROVED = [EXPIRED, UNDER_INVESTIGATION, SUPERSEDED]"
| "VALID_TRANSITIONS REJECTED = []"
| "VALID_TRANSITIONS ESCALATED = [APPROVED, REJECTED, CONDITIONAL]"
| "VALID_TRANSITIONS CONDITIONAL = [APPROVED, EXPIRED, SUPERSEDED]"
| "VALID_TRANSITIONS EXPIRED = [APPROVED]"
| "VALID_TRANSITIONS SUPERSEDED = []"
| "VALID_TRANSITIONS UNDER_INVESTIGATION = [APPROVED, QUARANTINED]"
| "VALID_TRANSITIONS QUARANTINED = []"

definition TRANSITIONS_REQUIRING_REASON :: "(workflow_state \<times> workflow_state) list" where
  "TRANSITIONS_REQUIRING_REASON =
     [(PROPOSED, REJECTED), (PROPOSED, ESCALATED), (PROPOSED, CONDITIONAL), (APPROVED, EXPIRED), (APPROVED, UNDER_INVESTIGATION),
      (ESCALATED, APPROVED), (ESCALATED, REJECTED), (ESCALATED, CONDITIONAL), (UNDER_INVESTIGATION, APPROVED),
      (UNDER_INVESTIGATION, QUARANTINED)]"

text \<open>The rules that the migration stores, with whether they require a reason.\<close>

definition STORED_RULES :: "(workflow_state \<times> workflow_state \<times> bool) list" where
  "STORED_RULES =
     [(PROPOSED, APPROVED, False), (PROPOSED, REJECTED, True), (PROPOSED, ESCALATED, True), (PROPOSED, CONDITIONAL, True),
      (APPROVED, EXPIRED, True), (APPROVED, UNDER_INVESTIGATION, True), (CONDITIONAL, APPROVED, False), (CONDITIONAL, EXPIRED, True),
      (ESCALATED, APPROVED, True), (ESCALATED, REJECTED, True), (ESCALATED, CONDITIONAL, True), (UNDER_INVESTIGATION, APPROVED, True),
      (UNDER_INVESTIGATION, QUARANTINED, True)]"

section \<open>Tables\<close>

record review_row =
  rv_id :: string
  rv_state :: workflow_state
  rv_caveat :: "string option"
  rv_caveatUntil :: "int option"
  rv_escalation :: "string option"

record transition_row =
  tr_id :: string
  tr_review :: string
  tr_index :: string
  tr_from :: workflow_state
  tr_to :: workflow_state
  tr_reason :: "string option"
  tr_by :: string
  tr_at :: int
  tr_caveat :: "string option"
  tr_caveatUntil :: "int option"
  tr_automatic :: bool

record caveat_row =
  cv_id :: string
  cv_review :: string
  cv_index :: string
  cv_type :: string
  cv_description :: string
  cv_severity :: string
  cv_from :: int
  cv_until :: int
  cv_active :: bool
  cv_resolvedBy :: "string option"
  cv_resolvedAt :: "int option"
  cv_notes :: "string option"

datatype investigation_status = OPEN | IN_PROGRESS | RESOLVED | CLOSED

record investigation_row =
  iv_id :: string
  iv_review :: string
  iv_index :: string
  iv_reason :: string
  iv_by :: string
  iv_at :: int
  iv_status :: investigation_status
  iv_assignedTo :: "string option"
  iv_assignedAt :: "int option"
  iv_findings :: "string option"
  iv_severity :: "string option"
  iv_conclusion :: "string option"
  iv_closedAt :: "int option"
  iv_closedBy :: "string option"
  iv_action :: "string option"

record workflow_db =
  wd_reviews :: "review_row list"
  wd_transitions :: "transition_row list"
  wd_caveats :: "caveat_row list"
  wd_investigations :: "investigation_row list"

text \<open>A query that fails throws its message; a row of a missing review violates the foreign key.\<close>

definition review_there :: "string \<Rightarrow> workflow_db \<Rightarrow> bool" where
  "review_there rid db = (rid \<in> rv_id ` set (wd_reviews db))"

definition FOREIGN_KEY :: string where
  "FOREIGN_KEY = ''insert or update violates foreign key constraint''"

definition insert_fault :: "string option \<Rightarrow> string \<Rightarrow> workflow_db \<Rightarrow> string option" where
  "insert_fault fault rid db = (case fault of Some e \<Rightarrow> Some e | None \<Rightarrow> if review_there rid db then None else Some FOREIGN_KEY)"

text \<open>\<open>x || null\<close> for a text that may be missing.\<close>

definition text_or_null :: "string option \<Rightarrow> string option" where
  "text_or_null s = (case s of Some t \<Rightarrow> if t = [] then None else Some t | None \<Rightarrow> None)"

section \<open>Transitions\<close>

record transition_options =
  op_reason :: "string option"
  op_caveat :: "string option"
  op_caveatUntil :: "int option"
  op_automatic :: bool

definition no_options :: transition_options where
  "no_options = \<lparr>op_reason = None, op_caveat = None, op_caveatUntil = None, op_automatic = False\<rparr>"

definition set_review :: "string \<Rightarrow> workflow_state \<Rightarrow> transition_options \<Rightarrow> workflow_db \<Rightarrow> workflow_db" where
  "set_review rid toState opts db = db\<lparr>wd_reviews := map (\<lambda>r. if rv_id r = rid
     then r\<lparr>rv_state := toState, rv_caveat := text_or_null (op_caveat opts), rv_caveatUntil := op_caveatUntil opts,
       rv_escalation := (if toState = ESCALATED then text_or_null (op_reason opts) else rv_escalation r)\<rparr>
     else r) (wd_reviews db)\<rparr>"

definition new_transition ::
  "int \<Rightarrow> string \<Rightarrow> string \<Rightarrow> string \<Rightarrow> workflow_state \<Rightarrow> workflow_state \<Rightarrow> string \<Rightarrow> transition_options \<Rightarrow> transition_row" where
  "new_transition now fresh rid indexName fromState toState user opts =
     \<lparr>tr_id = fresh, tr_review = rid, tr_index = indexName, tr_from = fromState, tr_to = toState,
      tr_reason = text_or_null (op_reason opts), tr_by = user, tr_at = now, tr_caveat = text_or_null (op_caveat opts),
      tr_caveatUntil = op_caveatUntil opts, tr_automatic = op_automatic opts\<rparr>"

text \<open>
  The outcome is an exception, or a refusal with its error, or the transition. The state to leave is an
  argument; the stored one is not read.
\<close>

definition transitionWorkflowState ::
  "string option \<times> string option \<Rightarrow> int \<Rightarrow> string \<Rightarrow> string \<Rightarrow> string \<Rightarrow> workflow_state \<Rightarrow> workflow_state \<Rightarrow> string \<Rightarrow> transition_options \<Rightarrow>
     workflow_db \<Rightarrow> workflow_db \<times> (string + (string + transition_row))" where
  "transitionWorkflowState faults now fresh rid indexName fromState toState user opts db =
     (if toState \<notin> set (VALID_TRANSITIONS fromState)
      then (db, Inr (Inl (''Invalid transition: '' @ state_text fromState @ '' -> '' @ state_text toState)))
      else if (fromState, toState) \<in> set TRANSITIONS_REQUIRING_REASON \<and> text_or_null (op_reason opts) = None
      then (db, Inr (Inl (''Transition '' @ state_text fromState @ '' -> '' @ state_text toState @ '' requires a reason'')))
      else
        let t = new_transition now fresh rid indexName fromState toState user opts
        in case insert_fault (fst faults) rid db of
             Some e \<Rightarrow> (db, Inl e)
           | None \<Rightarrow>
               (let db1 = db\<lparr>wd_transitions := wd_transitions db @ [t]\<rparr>
                in case snd faults of
                     Some e \<Rightarrow> (db1, Inl e)
                   | None \<Rightarrow> (set_review rid toState opts db1, Inr (Inr t))))"

section \<open>Conditional approvals\<close>

definition missing_row :: "string \<Rightarrow> string" where
  "missing_row field = ''Cannot read properties of undefined (reading '' @ [CHR 0x27] @ field @ [CHR 0x27] @ '')''"

definition stored_review :: "string \<Rightarrow> workflow_db \<Rightarrow> review_row option" where
  "stored_review rid db = find (\<lambda>r. rv_id r = rid) (wd_reviews db)"

definition createConditionalApprovalWithCaveat ::
  "string option \<times> string option \<times> string option \<Rightarrow> int \<Rightarrow> string \<times> string \<Rightarrow> string \<Rightarrow> string \<Rightarrow> string \<Rightarrow> string \<Rightarrow> string \<Rightarrow> int \<Rightarrow> string \<Rightarrow>
     workflow_db \<Rightarrow> workflow_db \<times> (string + caveat_row \<times> transition_row)" where
  "createConditionalApprovalWithCaveat faults now fresh rid indexName caveatType description severity validUntil user db =
     (case stored_review rid db of
        None \<Rightarrow> (db, Inl (missing_row ''workflow_state''))
      | Some r \<Rightarrow>
          (case (if rv_state r \<noteq> CONDITIONAL
                 then (case transitionWorkflowState (fst faults, fst (snd faults)) now (fst fresh) rid indexName (rv_state r) CONDITIONAL user
                             (no_options\<lparr>op_caveat := Some caveatType, op_caveatUntil := Some validUntil\<rparr>) db of
                         (db1, Inl e) \<Rightarrow> (db1, Inl e)
                       | (db1, Inr (Inl e)) \<Rightarrow> (db1, Inl e)
                       | (db1, Inr (Inr t)) \<Rightarrow> (db1, Inr t))
                 else (case insert_fault (fst faults) rid db of
                         Some e \<Rightarrow> (db, Inl e)
                       | None \<Rightarrow>
                           (let t = \<lparr>tr_id = fst fresh, tr_review = rid, tr_index = indexName, tr_from = CONDITIONAL, tr_to = CONDITIONAL,
                                  tr_reason = None, tr_by = user, tr_at = now, tr_caveat = Some caveatType,
                                  tr_caveatUntil = Some validUntil, tr_automatic = False\<rparr>
                            in (db\<lparr>wd_transitions := wd_transitions db @ [t]\<rparr>, Inr t)))) of
             (db1, Inl e) \<Rightarrow> (db1, Inl e)
           | (db1, Inr t) \<Rightarrow>
               (case insert_fault (snd (snd faults)) rid db1 of
                  Some e \<Rightarrow> (db1, Inl e)
                | None \<Rightarrow>
                    (let c = \<lparr>cv_id = snd fresh, cv_review = rid, cv_index = indexName, cv_type = caveatType, cv_description = description,
                           cv_severity = severity, cv_from = now, cv_until = validUntil, cv_active = True, cv_resolvedBy = None,
                           cv_resolvedAt = None, cv_notes = None\<rparr>
                     in (db1\<lparr>wd_caveats := wd_caveats db1 @ [c]\<rparr>, Inr (c, t))))))"

definition resolveCaveat :: "int \<Rightarrow> string \<Rightarrow> string \<Rightarrow> string option \<Rightarrow> workflow_db \<Rightarrow> workflow_db \<times> (string + caveat_row)" where
  "resolveCaveat now caveatId resolvedBy notes db =
     (let f = (\<lambda>c. if cv_id c = caveatId
            then c\<lparr>cv_active := False, cv_resolvedBy := Some resolvedBy, cv_resolvedAt := Some now, cv_notes := text_or_null notes\<rparr> else c)
      in (db\<lparr>wd_caveats := map f (wd_caveats db)\<rparr>,
          case find (\<lambda>c. cv_id c = caveatId) (wd_caveats db) of Some c \<Rightarrow> Inr (f c) | None \<Rightarrow> Inl (missing_row ''caveat_id'')))"

definition getActiveCaveats :: "string \<Rightarrow> workflow_db \<Rightarrow> caveat_row list" where
  "getActiveCaveats rid db = sort_key cv_until (filter (\<lambda>c. cv_review c = rid \<and> cv_active c) (wd_caveats db))"

definition getRecentTransitions :: "string \<Rightarrow> nat \<Rightarrow> workflow_db \<Rightarrow> transition_row list" where
  "getRecentTransitions rid limit db = take limit (sort_key (\<lambda>t. - tr_at t) (filter (\<lambda>t. tr_review t = rid) (wd_transitions db)))"

section \<open>Investigations\<close>

definition initiateInvestigation ::
  "string option \<times> string option \<times> string option \<Rightarrow> int \<Rightarrow> string \<times> string \<Rightarrow> string \<Rightarrow> string \<Rightarrow> string \<Rightarrow> string \<Rightarrow> workflow_db \<Rightarrow>
     workflow_db \<times> (string + investigation_row \<times> transition_row)" where
  "initiateInvestigation faults now fresh rid indexName reason user db =
     (case stored_review rid db of
        None \<Rightarrow> (db, Inl (missing_row ''workflow_state''))
      | Some r \<Rightarrow>
          (case transitionWorkflowState (fst faults, fst (snd faults)) now (fst fresh) rid indexName (rv_state r) UNDER_INVESTIGATION user
                  (no_options\<lparr>op_reason := Some reason\<rparr>) db of
             (db1, Inl e) \<Rightarrow> (db1, Inl e)
           | (db1, Inr (Inl e)) \<Rightarrow> (db1, Inl e)
           | (db1, Inr (Inr t)) \<Rightarrow>
               (case insert_fault (snd (snd faults)) rid db1 of
                  Some e \<Rightarrow> (db1, Inl e)
                | None \<Rightarrow>
                    (let i = \<lparr>iv_id = snd fresh, iv_review = rid, iv_index = indexName, iv_reason = reason, iv_by = user, iv_at = now,
                           iv_status = OPEN, iv_assignedTo = None, iv_assignedAt = None, iv_findings = None, iv_severity = None,
                           iv_conclusion = None, iv_closedAt = None, iv_closedBy = None, iv_action = None\<rparr>
                     in (db1\<lparr>wd_investigations := wd_investigations db1 @ [i]\<rparr>, Inr (i, t))))))"

record investigation_options =
  io_assignedTo :: "string option"
  io_findings :: "string option"
  io_severity :: "string option"
  io_conclusion :: "string option"
  io_closedBy :: "string option"
  io_action :: "string option"

text \<open>\<open>COALESCE\<close> of a parameter \<open>x || null\<close> and the column.\<close>

definition coalesce :: "string option \<Rightarrow> string option \<Rightarrow> string option" where
  "coalesce x old = (case text_or_null x of Some t \<Rightarrow> Some t | None \<Rightarrow> old)"

definition updateInvestigationStatus ::
  "int \<Rightarrow> string \<Rightarrow> investigation_status \<Rightarrow> investigation_options \<Rightarrow> workflow_db \<Rightarrow> workflow_db \<times> (string + investigation_row)" where
  "updateInvestigationStatus now investigationId newStatus opts db =
     (let f = (\<lambda>i. if iv_id i = investigationId
            then i\<lparr>iv_status := newStatus, iv_assignedTo := coalesce (io_assignedTo opts) (iv_assignedTo i),
              iv_assignedAt := (if text_or_null (io_assignedTo opts) \<noteq> None then Some now else iv_assignedAt i),
              iv_findings := coalesce (io_findings opts) (iv_findings i), iv_severity := coalesce (io_severity opts) (iv_severity i),
              iv_conclusion := coalesce (io_conclusion opts) (iv_conclusion i),
              iv_closedAt := (if newStatus = CLOSED then Some now else iv_closedAt i),
              iv_closedBy := coalesce (io_closedBy opts) (iv_closedBy i), iv_action := coalesce (io_action opts) (iv_action i)\<rparr>
            else i)
      in (db\<lparr>wd_investigations := map f (wd_investigations db)\<rparr>,
          case find (\<lambda>i. iv_id i = investigationId) (wd_investigations db) of Some i \<Rightarrow> Inr (f i) | None \<Rightarrow> Inl (missing_row ''investigation_id'')))"

definition getInvestigationForReview :: "string \<Rightarrow> workflow_db \<Rightarrow> investigation_row option" where
  "getInvestigationForReview rid db =
     (case sort_key (\<lambda>i. - iv_at i) (filter (\<lambda>i. iv_review i = rid) (wd_investigations db)) of [] \<Rightarrow> None | i # _ \<Rightarrow> Some i)"

definition canApproveReview :: "int \<Rightarrow> string \<Rightarrow> workflow_db \<Rightarrow> bool \<times> string option" where
  "canApproveReview now rid db =
     (if list_ex (\<lambda>i. iv_review i = rid \<and> iv_status i \<noteq> CLOSED) (wd_investigations db)
      then (False, Some ''Open investigation in progress'')
      else if list_ex (\<lambda>c. cv_review c = rid \<and> cv_active c \<and> cv_until c < now) (wd_caveats db)
      then (False, Some ''One or more caveats have expired'')
      else (True, None))"

section \<open>Runs\<close>

text \<open>
  Any sequence of operations, with any arguments and failures; an orderly one passes the stored state to
  \<open>transitionWorkflowState\<close>, with no other operation in between, and loses no update of the review.
\<close>

inductive wf_step :: "workflow_db \<Rightarrow> workflow_db \<Rightarrow> bool" where
  transition: "wf_step db (fst (transitionWorkflowState faults now fresh rid idx fromState toState user opts db))"
| conditional: "wf_step db (fst (createConditionalApprovalWithCaveat faults3 now fresh2 rid idx caveat descr sev until user db))"
| resolve: "wf_step db (fst (resolveCaveat now cid user remarks db))"
| investigate: "wf_step db (fst (initiateInvestigation faults3 now fresh2 rid idx reason user db))"
| progress: "wf_step db (fst (updateInvestigationStatus now iid status iopts db))"

inductive orderly_step :: "workflow_db \<Rightarrow> workflow_db \<Rightarrow> bool" where
  transition: "stored_review rid db = Some r \<Longrightarrow>
    orderly_step db (fst (transitionWorkflowState (fault, None) now fresh rid idx (rv_state r) toState user opts db))"
| conditional: "orderly_step db (fst (createConditionalApprovalWithCaveat (f1, None, f3) now fresh2 rid idx caveat descr sev until user db))"
| resolve: "orderly_step db (fst (resolveCaveat now cid user remarks db))"
| investigate: "orderly_step db (fst (initiateInvestigation (f1, None, f3) now fresh2 rid idx reason user db))"
| progress: "orderly_step db (fst (updateInvestigationStatus now iid status iopts db))"

section \<open>Laws of the log\<close>

definition logged_ok :: "transition_row \<Rightarrow> bool" where
  "logged_ok t =
     (tr_to t \<in> set (VALID_TRANSITIONS (tr_from t)) \<and>
        ((tr_from t, tr_to t) \<in> set TRANSITIONS_REQUIRING_REASON \<longrightarrow> tr_reason t \<noteq> None) \<or>
      tr_from t = CONDITIONAL \<and> tr_to t = CONDITIONAL)"

lemma set_review_fields [simp]:
  "wd_transitions (set_review rid s opts db) = wd_transitions db" "wd_caveats (set_review rid s opts db) = wd_caveats db"
  "wd_investigations (set_review rid s opts db) = wd_investigations db"
  by (simp_all add: set_review_def)

lemma new_transition_fields [simp]:
  "tr_review (new_transition now fresh rid idx s s' user opts) = rid" "tr_from (new_transition now fresh rid idx s s' user opts) = s"
  "tr_to (new_transition now fresh rid idx s s' user opts) = s'"
  "tr_reason (new_transition now fresh rid idx s s' user opts) = text_or_null (op_reason opts)"
  by (simp_all add: new_transition_def)

lemma transition_log:
  "\<exists>ts. list_all logged_ok ts \<and>
     wd_transitions (fst (transitionWorkflowState faults now fresh rid idx fromState toState user opts db)) = wd_transitions db @ ts"
  unfolding transitionWorkflowState_def Let_def
  by (fastforce simp: logged_ok_def split: option.splits intro: exI [of _ "[]"])

lemma transition_no_reason_conditional:
  assumes "s \<noteq> CONDITIONAL"
  shows "transitionWorkflowState faults now fresh rid idx s CONDITIONAL user (no_options\<lparr>op_caveat := c, op_caveatUntil := u\<rparr>) db =
    (db, Inr (Inl (if s \<in> {PROPOSED, ESCALATED} then ''Transition '' @ state_text s @ '' -> CONDITIONAL requires a reason''
       else ''Invalid transition: '' @ state_text s @ '' -> CONDITIONAL'')))"
  using assms by (cases s) (simp_all add: transitionWorkflowState_def TRANSITIONS_REQUIRING_REASON_def no_options_def text_or_null_def)

lemma conditional_cases:
  assumes "stored_review rid db = Some r" "rv_state r \<noteq> CONDITIONAL"
  shows "createConditionalApprovalWithCaveat faults now fresh rid idx c d sev u user db =
    (db, Inl (if rv_state r \<in> {PROPOSED, ESCALATED} then ''Transition '' @ state_text (rv_state r) @ '' -> CONDITIONAL requires a reason''
       else ''Invalid transition: '' @ state_text (rv_state r) @ '' -> CONDITIONAL''))"
  using assms(1,2) transition_no_reason_conditional [OF assms(2)] by (simp add: createConditionalApprovalWithCaveat_def)

lemma conditional_log:
  "\<exists>ts. list_all logged_ok ts \<and>
     wd_transitions (fst (createConditionalApprovalWithCaveat faults now fresh rid idx c d sev u user db)) = wd_transitions db @ ts"
proof (cases "stored_review rid db")
  case None
  then show ?thesis by (intro exI [of _ "[]"]) (simp add: createConditionalApprovalWithCaveat_def)
next
  case (Some r)
  show ?thesis
  proof (cases "rv_state r = CONDITIONAL")
    case True
    with Some show ?thesis unfolding createConditionalApprovalWithCaveat_def Let_def
      by (fastforce simp: logged_ok_def split: option.splits intro: exI [of _ "[]"])
  next
    case False
    then show ?thesis using conditional_cases [OF Some False] by (intro exI [of _ "[]"]) simp
  qed
qed

lemma investigate_log:
  "\<exists>ts. list_all logged_ok ts \<and>
     wd_transitions (fst (initiateInvestigation faults now fresh rid idx reason user db)) = wd_transitions db @ ts"
proof (cases "stored_review rid db")
  case None
  then show ?thesis by (intro exI [of _ "[]"]) (simp add: initiateInvestigation_def)
next
  case (Some r)
  let ?t = "transitionWorkflowState (fst faults, fst (snd faults)) now (fst fresh) rid idx (rv_state r) UNDER_INVESTIGATION user
    (no_options\<lparr>op_reason := Some reason\<rparr>) db"
  have "wd_transitions (fst (initiateInvestigation faults now fresh rid idx reason user db)) = wd_transitions (fst ?t)"
    using Some by (simp add: initiateInvestigation_def Let_def split: prod.splits sum.splits option.splits)
  then show ?thesis using transition_log by metis
qed

lemma step_log: "wf_step db db' \<Longrightarrow> \<exists>ts. list_all logged_ok ts \<and> wd_transitions db' = wd_transitions db @ ts"
proof (induction rule: wf_step.induct)
  case transition
  show ?case by (rule transition_log)
next
  case conditional
  show ?case by (rule conditional_log)
next
  case investigate
  show ?case by (rule investigate_log)
qed (auto simp: resolveCaveat_def updateInvestigationStatus_def Let_def intro: exI [of _ "[]"])

text \<open>
  Whatever operations run, the log of transitions only grows, and everything it gains is a valid
  transition with a reason where one is required, or a renewed condition.
\<close>

theorem workflow_log_valid:
  assumes "wf_step\<^sup>*\<^sup>* db db'"
  shows "\<exists>ts. list_all logged_ok ts \<and> wd_transitions db' = wd_transitions db @ ts"
  using assms
proof (induction rule: rtranclp_induct)
  case base
  show ?case by (intro exI [of _ "[]"]) simp
next
  case (step db1 db2)
  then obtain ts ts' where "list_all logged_ok ts" "wd_transitions db1 = wd_transitions db @ ts" "list_all logged_ok ts'"
    "wd_transitions db2 = wd_transitions db1 @ ts'" using step_log by metis
  then show ?case by (intro exI [of _ "ts @ ts'"]) simp
qed

definition sample_review :: "workflow_state \<Rightarrow> review_row" where
  "sample_review s = \<lparr>rv_id = ''r'', rv_state = s, rv_caveat = None, rv_caveatUntil = None, rv_escalation = None\<rparr>"

definition sample_reviews :: "workflow_state \<Rightarrow> workflow_db" where
  "sample_reviews s = \<lparr>wd_reviews = [sample_review s], wd_transitions = [], wd_caveats = [], wd_investigations = []\<rparr>"

definition approved_sample :: workflow_db where
  "approved_sample = fst (transitionWorkflowState (None, None) 1 ''t'' ''r'' ''main'' PROPOSED APPROVED ''u'' no_options (sample_reviews PROPOSED))"

lemma sample_stored: "stored_review ''r'' (sample_reviews s) = Some (sample_review s)"
  by (simp add: stored_review_def sample_reviews_def sample_review_def)


theorem workflow_log_valid_witness: "\<exists>ts. list_all logged_ok ts \<and> wd_transitions approved_sample = ts"
  using workflow_log_valid [OF r_into_rtranclp, OF wf_step.transition [of "sample_reviews PROPOSED" "(None, None)" 1 "''t''" "''r''" "''main''"
    PROPOSED APPROVED "''u''" no_options]]
  by (simp add: approved_sample_def [symmetric]) (simp add: sample_reviews_def)

text \<open>
  C31: A conditional approval can only be added to a review that is conditional already: for every other
  state the operation throws and changes nothing, since the transition needs a reason that is never passed.
\<close>

theorem conditional_approval_refused:
  assumes "stored_review rid db = Some r" "rv_state r \<noteq> CONDITIONAL"
  shows "\<exists>e. createConditionalApprovalWithCaveat faults now fresh rid idx c d sev u user db = (db, Inl e)"
  using conditional_cases [OF assms] by blast

theorem conditional_approval_refused_witness:
  "fst (createConditionalApprovalWithCaveat (None, None, None) 1 (''t'', ''c'') ''r'' ''main'' ''POLICY_EXCEPTION'' ''d'' ''INFO'' 2 ''u''
     (sample_reviews PROPOSED)) = sample_reviews PROPOSED"
  using conditional_approval_refused [OF sample_stored, of PROPOSED "(None, None, None)" 1 "(''t'', ''c'')" "''main''" "''POLICY_EXCEPTION''" "''d''"
    "''INFO''" 2 "''u''"]
  by (auto simp: sample_review_def)

section \<open>Orderly runs\<close>





lemma stored_review_mem: "stored_review rid db = Some r \<Longrightarrow> r \<in> set (wd_reviews db) \<and> rv_id r = rid"
  by (auto simp: stored_review_def find_Some_iff)






lemma set_review_other [simp]: "wd_reviews (set_review rid s opts (db\<lparr>wd_transitions := ts\<rparr>)) = wd_reviews (set_review rid s opts db)"
  by (simp add: set_review_def)


lemma conditional_effect:
  assumes "stored_review rid db = Some r" "rv_state r = CONDITIONAL"
    and e: "db' = fst (createConditionalApprovalWithCaveat faults now fresh2 rid idx caveat descr sev until user db)"
  shows "wd_reviews db' = wd_reviews db \<and> (wd_transitions db' = wd_transitions db \<or>
    (\<exists>t. tr_review t = rid \<and> tr_from t = CONDITIONAL \<and> tr_to t = CONDITIONAL \<and> wd_transitions db' = wd_transitions db @ [t]))"
proof -
  let ?t = "\<lparr>tr_id = fst fresh2, tr_review = rid, tr_index = idx, tr_from = CONDITIONAL, tr_to = CONDITIONAL,
    tr_reason = None, tr_by = user, tr_at = now, tr_caveat = Some caveat, tr_caveatUntil = Some until, tr_automatic = False\<rparr>"
  have "wd_reviews db' = wd_reviews db \<and> (wd_transitions db' = wd_transitions db \<or> wd_transitions db' = wd_transitions db @ [?t])"
    using assms(1,2) by (simp add: e createConditionalApprovalWithCaveat_def Let_def split: option.splits)
  then show ?thesis by (auto intro!: exI [of _ ?t])
qed


lemma investigate_reviews:
  assumes "stored_review rid db = Some r"
  shows "wd_reviews (fst (initiateInvestigation faults now fresh rid idx reason user db)) =
      wd_reviews (fst (transitionWorkflowState (fst faults, fst (snd faults)) now (fst fresh) rid idx (rv_state r) UNDER_INVESTIGATION user
        (no_options\<lparr>op_reason := Some reason\<rparr>) db)) \<and>
    wd_transitions (fst (initiateInvestigation faults now fresh rid idx reason user db)) =
      wd_transitions (fst (transitionWorkflowState (fst faults, fst (snd faults)) now (fst fresh) rid idx (rv_state r) UNDER_INVESTIGATION user
        (no_options\<lparr>op_reason := Some reason\<rparr>) db))"
  using assms by (simp add: initiateInvestigation_def Let_def split: prod.splits sum.splits option.splits)






section \<open>Final states\<close>

lemma find_map_same: "(\<And>x. P (f x) = P x) \<Longrightarrow> find P (map f xs) = map_option f (find P xs)"
  by (induction xs) simp_all

definition with_state :: "string \<Rightarrow> workflow_state \<Rightarrow> transition_options \<Rightarrow> review_row \<Rightarrow> review_row" where
  "with_state rid s opts r = (if rv_id r = rid
     then r\<lparr>rv_state := s, rv_caveat := text_or_null (op_caveat opts), rv_caveatUntil := op_caveatUntil opts,
       rv_escalation := (if s = ESCALATED then text_or_null (op_reason opts) else rv_escalation r)\<rparr> else r)"

lemma stored_set_review: "stored_review i (set_review rid s opts db) = map_option (with_state rid s opts) (stored_review i db)"
proof -
  have "wd_reviews (set_review rid s opts db) = map (with_state rid s opts) (wd_reviews db)"
    by (simp add: set_review_def with_state_def [abs_def])
  then show ?thesis unfolding stored_review_def by (simp add: find_map_same with_state_def)
qed

lemma stored_other:
  assumes "i \<noteq> rid"
  shows "stored_review i (set_review rid s opts db) = stored_review i db"
proof (cases "stored_review i db")
  case (Some r)
  then have "with_state rid s opts r = r" using stored_review_mem [OF Some] assms by (simp add: with_state_def)
  then show ?thesis using Some by (simp add: stored_set_review)
qed (simp add: stored_set_review)

lemma stored_same: "wd_reviews db' = wd_reviews db \<Longrightarrow> stored_review i db' = stored_review i db"
  by (simp add: stored_review_def)

lemma transition_other:
  assumes "i = rid \<Longrightarrow> VALID_TRANSITIONS s = []"
  shows "stored_review i (fst (transitionWorkflowState (f1, None) now fresh rid idx s toState user opts db)) = stored_review i db"
proof (cases "i = rid")
  case True
  then show ?thesis using assms by (simp add: transitionWorkflowState_def)
next
  case False
  then have "stored_review i (set_review rid toState opts (db\<lparr>wd_transitions := ts\<rparr>)) = stored_review i db" for ts
    using stored_other [OF False, of toState opts "db\<lparr>wd_transitions := ts\<rparr>"] by (simp add: stored_review_def)
  then show ?thesis by (simp add: transitionWorkflowState_def Let_def split: option.split)
qed

definition final_state :: "workflow_state \<Rightarrow> bool" where
  "final_state s = (s \<in> {REJECTED, SUPERSEDED, QUARANTINED})"

lemma final_no_transitions: "final_state s \<Longrightarrow> VALID_TRANSITIONS s = []"
  by (auto simp: final_state_def)

lemma orderly_final_step:
  "orderly_step db db' \<Longrightarrow> stored_review i db = Some r \<Longrightarrow> final_state (rv_state r) \<Longrightarrow> stored_review i db' = Some r"
proof (induction rule: orderly_step.induct)
  case (transition rid db r2 fault now fresh idx toState user opts)
  have "stored_review i (fst (transitionWorkflowState (fault, None) now fresh rid idx (rv_state r2) toState user opts db)) = stored_review i db"
    by (rule transition_other) (use transition final_no_transitions in auto)
  then show ?case using transition by simp
next
  case (conditional db f1 f3 now fresh2 rid idx caveat descr sev until user)
  show ?case
  proof (cases "stored_review rid db")
    case None
    then show ?thesis using conditional by (simp add: createConditionalApprovalWithCaveat_def)
  next
    case (Some r2)
    show ?thesis
    proof (cases "rv_state r2 = CONDITIONAL")
      case True
      note e = conditional_effect [OF Some True refl, of "(f1, None, f3)" now fresh2 idx caveat descr sev until user]
      show ?thesis using stored_same [OF conjunct1 [OF e]] conditional by simp
    next
      case False
      then show ?thesis using conditional_cases [OF Some False] conditional by simp
    qed
  qed
next
  case (resolve db now cid user remarks)
  then show ?case by (simp add: resolveCaveat_def Let_def stored_review_def)
next
  case (investigate db f1 f3 now fresh2 rid idx reason user)
  show ?case
  proof (cases "stored_review rid db")
    case None
    then show ?thesis using investigate by (simp add: initiateInvestigation_def)
  next
    case (Some r2)
    note e = investigate_reviews [OF Some, of "(f1, None, f3)" now fresh2 idx reason user, unfolded fst_conv snd_conv]
    have "stored_review i (fst (transitionWorkflowState (f1, None) now (fst fresh2) rid idx (rv_state r2) UNDER_INVESTIGATION user
        (no_options\<lparr>op_reason := Some reason\<rparr>) db)) = stored_review i db"
      by (rule transition_other) (use Some investigate final_no_transitions in auto)
    then show ?thesis using stored_same [OF conjunct1 [OF e]] investigate by simp
  qed
next
  case (progress db now iid status iopts)
  then show ?case by (simp add: updateInvestigationStatus_def Let_def stored_review_def)
qed

text \<open>
  As long as callers pass the stored state, a review that is rejected, superseded or quarantined stays
  as it is for good.
\<close>

theorem final_states_stay:
  assumes "orderly_step\<^sup>*\<^sup>* db db'" "stored_review i db = Some r" "final_state (rv_state r)"
  shows "stored_review i db' = Some r"
  using assms by (induction rule: rtranclp_induct) (auto intro: orderly_final_step)

theorem final_states_stay_witness:
  "stored_review ''r'' (fst (transitionWorkflowState (None, None) 1 ''t'' ''r'' ''main'' REJECTED APPROVED ''u'' no_options (sample_reviews REJECTED))) =
     Some (sample_review REJECTED)"
proof -
  have "orderly_step (sample_reviews REJECTED)
      (fst (transitionWorkflowState (None, None) 1 ''t'' ''r'' ''main'' REJECTED APPROVED ''u'' no_options (sample_reviews REJECTED)))"
    using orderly_step.transition [OF sample_stored, of REJECTED None 1 "''t''" "''main''" APPROVED "''u''" no_options]
    by (simp add: sample_review_def)
  from final_states_stay [OF r_into_rtranclp [of orderly_step, OF this] sample_stored] show ?thesis
    by (simp add: final_state_def) (simp add: sample_review_def)
qed

definition moved_to :: "string \<Rightarrow> workflow_state \<Rightarrow> workflow_db \<times> (string + (string + transition_row)) \<Rightarrow> bool" where
  "moved_to rid s result = ((\<exists>t. snd result = Inr (Inr t)) \<and> map_option rv_state (stored_review rid (fst result)) = Some s)"

text \<open>
  With another state than the stored one a caller takes a review from any state, rejected or
  quarantined ones included, to any state but the first: the stored state is never compared.
\<close>

theorem stale_state_accepted:
  assumes "stored_review rid db = Some r" "toState \<noteq> PROPOSED"
  shows "\<exists>fromState. moved_to rid toState
    (transitionWorkflowState (None, None) now fresh rid idx fromState toState user (no_options\<lparr>op_reason := Some ''r''\<rparr>) db)"
proof -
  have "\<exists>s. toState \<in> set (VALID_TRANSITIONS s)"
  proof (cases toState)
    case CONDITIONAL
    then show ?thesis by (intro exI [of _ ESCALATED]) simp
  next
    case UNDER_INVESTIGATION
    then show ?thesis by (intro exI [of _ APPROVED]) simp
  next
    case EXPIRED
    then show ?thesis by (intro exI [of _ APPROVED]) simp
  next
    case SUPERSEDED
    then show ?thesis by (intro exI [of _ APPROVED]) simp
  next
    case QUARANTINED
    then show ?thesis by (intro exI [of _ UNDER_INVESTIGATION]) simp
  qed (use assms(2) in \<open>auto intro: exI [of _ PROPOSED]\<close>)
  then obtain s where s: "toState \<in> set (VALID_TRANSITIONS s)" by blast
  let ?o = "no_options\<lparr>op_reason := Some ''r''\<rparr>"
  have there: "review_there rid db" using stored_review_mem [OF assms(1)] by (auto simp: review_there_def)
  let ?n = "new_transition now fresh rid idx s toState user ?o"
  have e: "transitionWorkflowState (None, None) now fresh rid idx s toState user ?o db =
      (set_review rid toState ?o (db\<lparr>wd_transitions := wd_transitions db @ [?n]\<rparr>), Inr (Inr ?n))"
    using s there by (simp add: transitionWorkflowState_def insert_fault_def Let_def text_or_null_def)
  have "stored_review rid (db\<lparr>wd_transitions := wd_transitions db @ [?n]\<rparr>) = Some r" using assms(1) by (simp add: stored_review_def)
  then have "map_option rv_state (stored_review rid (set_review rid toState ?o (db\<lparr>wd_transitions := wd_transitions db @ [?n]\<rparr>))) = Some toState"
    using stored_review_mem [OF assms(1)] by (simp add: stored_set_review with_state_def)
  then show ?thesis by (intro exI [of _ s]) (simp add: moved_to_def e)
qed

theorem stale_state_accepted_witness:
  "\<exists>fromState. moved_to ''r'' APPROVED (transitionWorkflowState (None, None) 1 ''t'' ''r'' ''main'' fromState APPROVED ''u''
     (no_options\<lparr>op_reason := Some ''r''\<rparr>) (sample_reviews QUARANTINED))"
  by (rule stale_state_accepted [OF sample_stored [of QUARANTINED]]) simp

text \<open>
  The rules the migration stores are transitions of the code, and they ask for the same reasons but
  for an expired condition, for which the code asks none; the code allows three transitions more.
\<close>

theorem stored_rules_agree:
  "list_all (\<lambda>(s, s', reason). s' \<in> set (VALID_TRANSITIONS s) \<and>
     (((s, s') \<in> set TRANSITIONS_REQUIRING_REASON) = reason \<or> (s, s') = (CONDITIONAL, EXPIRED))) STORED_RULES \<and>
   filter (\<lambda>p. p \<notin> (\<lambda>(s, s', _). (s, s')) ` set STORED_RULES)
     (concat (map (\<lambda>s. map (Pair s) (VALID_TRANSITIONS s))
       [PROPOSED, APPROVED, REJECTED, ESCALATED, CONDITIONAL, EXPIRED, SUPERSEDED, UNDER_INVESTIGATION, QUARANTINED])) =
     [(APPROVED, SUPERSEDED), (CONDITIONAL, SUPERSEDED), (EXPIRED, APPROVED)]"
  by (simp add: STORED_RULES_def TRANSITIONS_REQUIRING_REASON_def)

end
