(* ===== verification/Reanalysis.thy ===== *)
theory Reanalysis
  imports JsValue
begin

text \<open>
  The queue of reanalysis jobs: \<open>apps/api/services/reanalysis-budget-service.ts\<close> with its budget from
  \<open>hardware-capability-service.ts\<close>, and the worker \<open>reanalysis-worker-service.ts\<close>, over the tables of
  \<open>infrastructure/migrations/archive/.broken_020_archive.sql\<close>. Times are milliseconds, dates those of
  UTC. Whether a write succeeds, the counts of the corpus, the measurements of the machine and the outcome
  of an analysis are arguments.
\<close>

section \<open>Jobs and budgets\<close>

datatype priority_tier = EMERGENCY | CRITICAL | STANDARD | BACKGROUND | DEFERRED

datatype execution_state = PENDING | QUEUED | PROCESSING | COMPLETED | FAILED | DEFERRED_STATE

record job =
  jb_id :: string
  jb_index :: string
  jb_sourcetype :: "string option"
  jb_trigger :: string
  jb_tier :: priority_tier
  jb_state :: execution_state
  jb_attempts :: nat
  jb_queuedAt :: int
  jb_dueAt :: "int option"
  jb_cost :: "nat option"
  jb_lastError :: "string option"
  jb_willRetry :: bool
  jb_drift :: "string option"
  jb_review :: bool

datatype budget_status = AVAILABLE | WARNING | EXHAUSTED

record budget =
  bg_date :: int
  bg_total :: nat
  bg_max :: int
  bg_completed :: nat
  bg_remaining :: int
  bg_status :: budget_status

record rate_limit =
  rl_maxJobsPerHour :: nat
  rl_maxConcurrentJobs :: nat
  rl_retryBackoffMinutes :: nat

fun RATE_LIMITS :: "priority_tier \<Rightarrow> rate_limit" where
  "RATE_LIMITS EMERGENCY = \<lparr>rl_maxJobsPerHour = 999, rl_maxConcurrentJobs = 10, rl_retryBackoffMinutes = 5\<rparr>"
| "RATE_LIMITS CRITICAL = \<lparr>rl_maxJobsPerHour = 30, rl_maxConcurrentJobs = 5, rl_retryBackoffMinutes = 10\<rparr>"
| "RATE_LIMITS STANDARD = \<lparr>rl_maxJobsPerHour = 10, rl_maxConcurrentJobs = 2, rl_retryBackoffMinutes = 30\<rparr>"
| "RATE_LIMITS BACKGROUND = \<lparr>rl_maxJobsPerHour = 3, rl_maxConcurrentJobs = 1, rl_retryBackoffMinutes = 60\<rparr>"
| "RATE_LIMITS DEFERRED = \<lparr>rl_maxJobsPerHour = 1, rl_maxConcurrentJobs = 1, rl_retryBackoffMinutes = 120\<rparr>"

definition tiers :: "priority_tier list" where
  "tiers = [EMERGENCY, CRITICAL, STANDARD, BACKGROUND, DEFERRED]"

record queue_db =
  qd_jobs :: "job list"
  qd_budgets :: "budget list"

definition day_of :: "int \<Rightarrow> int" where
  "day_of now = now div 86400000"

section \<open>Budget of the machine\<close>

definition jceil :: "jsnum \<Rightarrow> jsnum" where
  "jceil x = (case x of Fin r \<Rightarrow> Fin (of_int \<lceil>r\<rceil>) | _ \<Rightarrow> x)"

record hardware_profile =
  hp_availableMemoryGB :: jsnum
  hp_isThrottling :: bool
  hp_gpuMemoryGB :: "jsnum option"

definition memory_factor :: "jsnum \<Rightarrow> jsnum" where
  "memory_factor gb =
     (if jlt gb (Fin 8) then jlit (2 / 10) else if jlt gb (Fin 16) then jlit (4 / 10) else if jlt gb (Fin 32) then jlit (7 / 10)
      else if jlt gb (Fin 64) then Fin 1 else if jlt gb (Fin 128) then Fin (3 / 2) else Fin (5 / 2))"

definition gpu_factor :: "jsnum option \<Rightarrow> jsnum \<Rightarrow> jsnum" where
  "gpu_factor gpu factor =
     (case gpu of
        None \<Rightarrow> factor
      | Some gb \<Rightarrow>
          if \<not> js_truthy (Num gb) then factor
          else if jlt (Fin 24) gb then jmul factor (jlit (18 / 10))
          else if jlt (Fin 12) gb then jmul factor (Fin (3 / 2))
          else if jlt (Fin 8) gb then jmul factor (jlit (13 / 10)) else factor)"

definition calculateHardwareFactor :: "hardware_profile \<Rightarrow> jsnum" where
  "calculateHardwareFactor p =
     (let factor = gpu_factor (hp_gpuMemoryGB p) (memory_factor (hp_availableMemoryGB p));
          factor = (if hp_isThrottling p then jmul factor (Fin (1 / 2)) else factor)
      in string_number (to_fixed 2 factor))"

record adaptive_budget =
  ab_effective :: jsnum
  ab_baseline :: jsnum
  ab_hardware :: jsnum
  ab_queue :: jsnum
  ab_thermal :: jsnum

definition getAdaptiveBudget :: "hardware_profile \<Rightarrow> jsnum \<Rightarrow> nat \<Rightarrow> nat \<Rightarrow> adaptive_budget" where
  "getAdaptiveBudget p baseBudget corpusSize currentQueueDepth =
     (let hardwareFactor = calculateHardwareFactor p;
          maxAllowedBacklog = jceil (jmul (Fin (of_nat corpusSize)) (jlit (5 / 100)));
          queueFactor = jmax (jlit (1 / 10)) (jsub (Fin 1) (jdiv (Fin (of_nat currentQueueDepth)) (jmax maxAllowedBacklog (Fin 10))));
          thermalFactor = (if hp_isThrottling p then Fin (1 / 4) else Fin 1);
          effective = jceil (jmul (jmul (jmul baseBudget hardwareFactor) queueFactor) thermalFactor)
      in \<lparr>ab_effective = jmax (Fin 1) effective, ab_baseline = baseBudget, ab_hardware = hardwareFactor,
          ab_queue = string_number (to_fixed 2 queueFactor), ab_thermal = thermalFactor\<rparr>)"

section \<open>Enqueuing\<close>

text \<open>The interval of one job, truncated as the constructor of dates does.\<close>

definition calculateExecutionDueAt :: "int \<Rightarrow> priority_tier \<Rightarrow> int" where
  "calculateExecutionDueAt now tier = now + 3600000 div int (rl_maxJobsPerHour (RATE_LIMITS tier))"

record enqueue_options =
  eo_sourcetype :: "string option"
  eo_cost :: "nat option"
  eo_drift :: "string option"
  eo_review :: bool

text \<open>
  An INTEGER column takes an integral value only. The writes are, in this order, the budget, the job, and
  the update of the budget.
\<close>

definition integer_column :: "jsnum \<Rightarrow> int option" where
  "integer_column x = (case x of Fin r \<Rightarrow> if of_int \<lfloor>r\<rfloor> = r then Some \<lfloor>r\<rfloor> else None | _ \<Rightarrow> None)"

definition todays_budget ::
  "bool \<Rightarrow> int \<Rightarrow> hardware_profile \<Rightarrow> nat \<Rightarrow> queue_db \<Rightarrow> (queue_db \<times> budget) option" where
  "todays_budget write_ok now p totalIndexes db =
     (case find (\<lambda>b. bg_date b = day_of now) (qd_budgets db) of
        Some b \<Rightarrow> Some (db, b)
      | None \<Rightarrow>
          (let baseline = jceil (jmul (Fin (of_nat totalIndexes)) (jlit (5 / 100)));
               depth = length (filter (\<lambda>j. jb_state j = PENDING) (qd_jobs db))
           in case integer_column (ab_effective (getAdaptiveBudget p baseline totalIndexes depth)) of
                Some m \<Rightarrow>
                  (let b = \<lparr>bg_date = day_of now, bg_total = totalIndexes, bg_max = m, bg_completed = 0, bg_remaining = m,
                         bg_status = AVAILABLE\<rparr>
                   in if write_ok then Some (db\<lparr>qd_budgets := qd_budgets db @ [b]\<rparr>, b) else None)
              | None \<Rightarrow> None))"

definition first_state :: "priority_tier \<Rightarrow> budget \<Rightarrow> execution_state" where
  "first_state tier b =
     (if tier = EMERGENCY then QUEUED else if bg_status b = EXHAUSTED \<or> bg_remaining b \<le> 0 then DEFERRED_STATE else PENDING)"

definition first_due :: "int \<Rightarrow> priority_tier \<Rightarrow> execution_state \<Rightarrow> int" where
  "first_due now tier s = (case s of QUEUED \<Rightarrow> now | DEFERRED_STATE \<Rightarrow> now + 86400000 | _ \<Rightarrow> calculateExecutionDueAt now tier)"

definition text_or_none :: "string option \<Rightarrow> string option" where
  "text_or_none v = (if v = Some '''' then None else v)"

definition number_or_none :: "nat option \<Rightarrow> nat option" where
  "number_or_none v = (if v = Some 0 then None else v)"

definition new_job :: "int \<Rightarrow> string \<Rightarrow> string \<Rightarrow> string \<Rightarrow> priority_tier \<Rightarrow> execution_state \<Rightarrow> enqueue_options \<Rightarrow> job" where
  "new_job now fresh indexName trigger tier s opts =
     \<lparr>jb_id = fresh, jb_index = indexName, jb_sourcetype = text_or_none (eo_sourcetype opts), jb_trigger = trigger, jb_tier = tier, jb_state = s,
      jb_attempts = 0, jb_queuedAt = now, jb_dueAt = Some (first_due now tier s), jb_cost = number_or_none (eo_cost opts),
      jb_lastError = None, jb_willRetry = True, jb_drift = text_or_none (eo_drift opts), jb_review = eo_review opts\<rparr>"

definition spend :: "int \<Rightarrow> budget \<Rightarrow> queue_db \<Rightarrow> queue_db" where
  "spend now b db =
     (let newRemaining = max 0 (bg_remaining b - 1); newStatus = (if newRemaining = 0 then EXHAUSTED else bg_status b)
      in db\<lparr>qd_budgets := map (\<lambda>x. if bg_date x = day_of now then x\<lparr>bg_remaining := newRemaining, bg_status := newStatus\<rparr> else x)
           (qd_budgets db)\<rparr>)"

definition enqueueReanalysisJob ::
  "bool \<times> bool \<times> bool \<Rightarrow> int \<Rightarrow> string \<Rightarrow> hardware_profile \<Rightarrow> nat \<Rightarrow> string \<Rightarrow> string \<Rightarrow> priority_tier \<Rightarrow> enqueue_options \<Rightarrow> queue_db \<Rightarrow>
     queue_db \<times> (job \<times> bool) option" where
  "enqueueReanalysisJob writes now fresh p totalIndexes indexName trigger tier opts db =
     (case todays_budget (fst writes) now p totalIndexes db of
        None \<Rightarrow> (db, None)
      | Some (db1, b) \<Rightarrow>
          if \<not> fst (snd writes) then (db1, None)
          else
            (let s = first_state tier b; j = new_job now fresh indexName trigger tier s opts; db2 = db1\<lparr>qd_jobs := qd_jobs db1 @ [j]\<rparr>
             in if s = DEFERRED_STATE then (db2, Some (j, False))
                else if \<not> snd (snd writes) then (db2, None)
                else (spend now b db2, Some (j, True))))"

section \<open>Executing jobs of the budget service\<close>

definition eligible :: "int \<Rightarrow> priority_tier \<Rightarrow> job \<Rightarrow> bool" where
  "eligible now tier j = (jb_tier j = tier \<and> jb_state j = PENDING \<and> (case jb_dueAt j of None \<Rightarrow> True | Some t \<Rightarrow> t \<le> now))"

definition saturated :: "int \<Rightarrow> priority_tier \<Rightarrow> queue_db \<Rightarrow> bool" where
  "saturated now tier db =
     (rl_maxConcurrentJobs (RATE_LIMITS tier) \<le> length (filter (\<lambda>j. jb_tier j = tier \<and> jb_state j = PROCESSING) (qd_jobs db)) \<or>
      rl_maxJobsPerHour (RATE_LIMITS tier) \<le> length (filter (\<lambda>j. jb_tier j = tier \<and> jb_state j \<in> {PROCESSING, COMPLETED} \<and>
        now - 3600000 < jb_queuedAt j) (qd_jobs db)))"

definition first_of_tier :: "int \<Rightarrow> queue_db \<Rightarrow> priority_tier \<Rightarrow> job option" where
  "first_of_tier now db tier =
     (if saturated now tier db then None
      else (case sort_key jb_queuedAt (filter (eligible now tier) (qd_jobs db)) of [] \<Rightarrow> None | j # _ \<Rightarrow> Some j))"

fun first_some :: "('a \<Rightarrow> 'b option) \<Rightarrow> 'a list \<Rightarrow> 'b option" where
  "first_some f [] = None"
| "first_some f (x # xs) = (case f x of Some y \<Rightarrow> Some y | None \<Rightarrow> first_some f xs)"

definition getNextJobToExecute :: "int \<Rightarrow> queue_db \<Rightarrow> job option" where
  "getNextJobToExecute now db = first_some (first_of_tier now db) tiers"

definition update_job :: "string \<Rightarrow> (job \<Rightarrow> job) \<Rightarrow> queue_db \<Rightarrow> queue_db" where
  "update_job i f db = db\<lparr>qd_jobs := map (\<lambda>j. if jb_id j = i then f j else j) (qd_jobs db)\<rparr>"

definition startJobExecution :: "string \<Rightarrow> queue_db \<Rightarrow> queue_db" where
  "startJobExecution i db = update_job i (\<lambda>j. j\<lparr>jb_state := PROCESSING, jb_attempts := jb_attempts j + 1\<rparr>) db"

definition completeJobExecution :: "int \<Rightarrow> string \<Rightarrow> queue_db \<Rightarrow> queue_db" where
  "completeJobExecution now i db =
     (let db1 = update_job i (\<lambda>j. j\<lparr>jb_state := COMPLETED\<rparr>) db
      in db1\<lparr>qd_budgets := map (\<lambda>b. if bg_date b = day_of now then b\<lparr>bg_completed := bg_completed b + 1\<rparr> else b) (qd_budgets db1)\<rparr>)"

definition getJob :: "string \<Rightarrow> queue_db \<Rightarrow> job option" where
  "getJob i db = find (\<lambda>j. jb_id j = i) (qd_jobs db)"

definition failJobExecution :: "int \<Rightarrow> string \<Rightarrow> string \<Rightarrow> queue_db \<Rightarrow> queue_db" where
  "failJobExecution now i e db =
     (case getJob i db of
        None \<Rightarrow> db
      | Some j \<Rightarrow>
          if 3 \<le> jb_attempts j then update_job i (\<lambda>j. j\<lparr>jb_state := FAILED, jb_lastError := Some e, jb_willRetry := False\<rparr>) db
          else update_job i (\<lambda>x. x\<lparr>jb_state := PENDING,
                 jb_dueAt := Some (now + int (rl_retryBackoffMinutes (RATE_LIMITS (jb_tier j))) * 60000), jb_lastError := Some e,
                 jb_willRetry := True\<rparr>) db)"

text \<open>
  The snapshot of the queue. Counts arrive as texts, and the rows in any order; adding a text to a number
  makes a text.
\<close>

fun js_plus :: "js \<Rightarrow> string \<Rightarrow> js" where
  "js_plus (Num x) s = Str (num_string x @ s)"
| "js_plus (Str t) s = Str (t @ s)"
| "js_plus v s = Str s"

record health_snapshot =
  hs_depth :: "priority_tier \<Rightarrow> js"
  hs_total :: js
  hs_backlogHours :: jsnum
  hs_status :: string

definition depth_rows :: "priority_tier list \<Rightarrow> queue_db \<Rightarrow> (priority_tier \<times> string) list" where
  "depth_rows order db =
     map (\<lambda>t. (t, nat_str (length (filter (\<lambda>j. jb_tier j = t \<and> jb_state j = PENDING) (qd_jobs db)))))
       (filter (\<lambda>t. \<exists>j\<in>set (qd_jobs db). jb_tier j = t \<and> jb_state j = PENDING) order)"

definition captureQueueHealthSnapshot :: "priority_tier list \<Rightarrow> queue_db \<Rightarrow> health_snapshot" where
  "captureQueueHealthSnapshot order db =
     (let rows = depth_rows order db; total = foldl (\<lambda>v r. js_plus v (snd r)) (Num (Fin 0)) rows; n = js_number total
      in \<lparr>hs_depth = (\<lambda>t. case map_of rows t of Some s \<Rightarrow> Str s | None \<Rightarrow> Num (Fin 0)), hs_total = total,
          hs_backlogHours = (if jlt (Fin 0) n then jdiv n (Fin 10) else Fin 0),
          hs_status = (if jlt (Fin 100) n then ''CRITICAL_BACKLOG'' else if jlt (Fin 20) n then ''DEGRADED'' else ''HEALTHY'')\<rparr>)"

section \<open>The worker\<close>

text \<open>
  The outcome of one job: the error of the write that starts it, the error it failed with before it was
  completed, and whether the write that records the failure succeeds; when that one fails the run ends.
\<close>

record job_outcome =
  jo_start :: "string option"
  jo_error :: "string option"
  jo_recorded :: bool

definition outcome_error :: "job_outcome \<Rightarrow> string option" where
  "outcome_error out = (case jo_start out of Some e \<Rightarrow> Some e | None \<Rightarrow> jo_error out)"

definition start_job :: "job \<Rightarrow> job_outcome \<Rightarrow> queue_db \<Rightarrow> queue_db" where
  "start_job j out db = (if jo_start out = None then update_job (jb_id j) (\<lambda>x. x\<lparr>jb_state := PROCESSING\<rparr>) db else db)"

definition max_attempts :: "priority_tier \<Rightarrow> nat" where
  "max_attempts tier = (case tier of EMERGENCY \<Rightarrow> 3 | CRITICAL \<Rightarrow> 2 | _ \<Rightarrow> 1)"

definition record_outcome :: "int \<Rightarrow> job \<Rightarrow> string option \<Rightarrow> queue_db \<Rightarrow> queue_db" where
  "record_outcome now j err db =
     (case err of
        None \<Rightarrow> update_job (jb_id j) (\<lambda>x. x\<lparr>jb_state := COMPLETED\<rparr>) db
      | Some e \<Rightarrow>
          if jb_attempts j < max_attempts (jb_tier j)
          then update_job (jb_id j) (\<lambda>x. x\<lparr>jb_state := PENDING, jb_attempts := jb_attempts x + 1, jb_lastError := Some e,
                 jb_dueAt := Some (now + int (rl_retryBackoffMinutes (RATE_LIMITS (jb_tier j))) * 60000)\<rparr>) db
          else update_job (jb_id j) (\<lambda>x. x\<lparr>jb_state := FAILED, jb_lastError := Some e, jb_willRetry := False\<rparr>) db)"

record worker_stats =
  ws_processed :: nat
  ws_completed :: nat
  ws_failed :: nat

fun process_jobs :: "int \<Rightarrow> (string \<Rightarrow> job_outcome) \<Rightarrow> job list \<Rightarrow> queue_db \<times> worker_stats \<Rightarrow> queue_db \<times> worker_stats" where
  "process_jobs now outcomes [] acc = acc"
| "process_jobs now outcomes (j # js) (db, stats) =
     (let out = outcomes (jb_id j); err = outcome_error out; started = start_job j out db;
          stats1 = stats\<lparr>ws_processed := ws_processed stats + 1\<rparr>
      in if err \<noteq> None \<and> \<not> jo_recorded out then (started, stats1)
         else process_jobs now outcomes js
           (record_outcome now j err started,
            (if err = None then stats1\<lparr>ws_completed := ws_completed stats1 + 1\<rparr> else stats1\<lparr>ws_failed := ws_failed stats1 + 1\<rparr>)))"

fun tier_order :: "priority_tier \<Rightarrow> nat" where
  "tier_order EMERGENCY = 1"
| "tier_order CRITICAL = 2"
| "tier_order STANDARD = 3"
| "tier_order BACKGROUND = 4"
| "tier_order DEFERRED = 5"

definition queued_jobs :: "nat \<Rightarrow> queue_db \<Rightarrow> job list" where
  "queued_jobs limit db =
     take limit (sort_key (\<lambda>j. tier_order (jb_tier j)) (sort_key jb_queuedAt (filter (\<lambda>j. jb_state j = QUEUED) (qd_jobs db))))"

definition processReanalysisQueue :: "int \<Rightarrow> nat \<Rightarrow> (string \<Rightarrow> job_outcome) \<Rightarrow> queue_db \<Rightarrow> queue_db \<times> worker_stats" where
  "processReanalysisQueue now limit outcomes db =
     process_jobs now outcomes (queued_jobs limit db) (db, \<lparr>ws_processed = 0, ws_completed = 0, ws_failed = 0\<rparr>)"


section \<open>Runs of the queue\<close>

text \<open>What the program calls: requests are enqueued, and the worker runs. Identifiers are primary keys.\<close>

inductive queue_step :: "queue_db \<Rightarrow> queue_db \<Rightarrow> bool" where
  enqueued: "fresh \<notin> jb_id ` set (qd_jobs db) \<Longrightarrow>
    queue_step db (fst (enqueueReanalysisJob writes now fresh p totalIndexes indexName trigger tier opts db))"
| worked: "queue_step db (fst (processReanalysisQueue now limit outcomes db))"

definition empty_queue :: queue_db where
  "empty_queue = \<lparr>qd_jobs = [], qd_budgets = []\<rparr>"

inductive_cases queue_stepE: "queue_step db db'"

definition job_tame :: "job \<Rightarrow> bool" where
  "job_tame j =
     (if jb_tier j = EMERGENCY
      then jb_attempts j \<le> 1 \<and> (jb_state j = QUEUED \<and> jb_attempts j = 0 \<or> jb_state j \<in> {PENDING, PROCESSING, COMPLETED})
      else jb_attempts j = 0 \<and> jb_state j \<in> {PENDING, DEFERRED_STATE})"

definition queue_tame :: "queue_db \<Rightarrow> bool" where
  "queue_tame db = (distinct (map jb_id (qd_jobs db)) \<and> (\<forall>j\<in>set (qd_jobs db). job_tame j))"

lemma empty_queue_tame: "queue_tame empty_queue"
  by (simp add: queue_tame_def empty_queue_def)

lemma todays_budget_jobs: "todays_budget ok now p n db = Some (db1, b) \<Longrightarrow> qd_jobs db1 = qd_jobs db"
  by (auto simp: todays_budget_def Let_def split: option.splits if_splits)

lemma spend_jobs [simp]: "qd_jobs (spend now b db) = qd_jobs db"
  by (simp add: spend_def Let_def)

lemma new_job_simps [simp]:
  "jb_id (new_job now i n t tier s opts) = i" "jb_tier (new_job now i n t tier s opts) = tier"
  "jb_state (new_job now i n t tier s opts) = s" "jb_attempts (new_job now i n t tier s opts) = 0"
  "jb_queuedAt (new_job now i n t tier s opts) = now"
  by (simp_all add: new_job_def)

lemma new_job_tame: "job_tame (new_job now i n t tier (first_state tier b) opts)"
  by (simp add: job_tame_def first_state_def)

lemma enqueue_jobs:
  "qd_jobs (fst (enqueueReanalysisJob w now i p n idx t tier opts db)) = qd_jobs db \<or>
   (\<exists>b. qd_jobs (fst (enqueueReanalysisJob w now i p n idx t tier opts db)) =
      qd_jobs db @ [new_job now i idx t tier (first_state tier b) opts])"
proof (cases "todays_budget (fst w) now p n db")
  case (Some r)
  then show ?thesis
    by (cases r) (simp add: enqueueReanalysisJob_def Let_def todays_budget_jobs, metis)
qed (simp add: enqueueReanalysisJob_def)

lemma update_job_simps [simp]:
  "qd_jobs (update_job i f db) = map (\<lambda>j. if jb_id j = i then f j else j) (qd_jobs db)" "qd_budgets (update_job i f db) = qd_budgets db"
  by (simp_all add: update_job_def)

text \<open>What the worker does to one job, given the row it read.\<close>

definition settle_job :: "int \<Rightarrow> job \<Rightarrow> string option \<Rightarrow> job \<Rightarrow> job" where
  "settle_job now j err x =
     (case err of
        None \<Rightarrow> x\<lparr>jb_state := COMPLETED\<rparr>
      | Some e \<Rightarrow>
          if jb_attempts j < max_attempts (jb_tier j)
          then x\<lparr>jb_state := PENDING, jb_attempts := jb_attempts x + 1, jb_lastError := Some e,
                 jb_dueAt := Some (now + int (rl_retryBackoffMinutes (RATE_LIMITS (jb_tier j))) * 60000)\<rparr>
          else x\<lparr>jb_state := FAILED, jb_lastError := Some e, jb_willRetry := False\<rparr>)"

lemma record_outcome_settle: "record_outcome now j err db = update_job (jb_id j) (settle_job now j err) db"
  by (simp add: record_outcome_def settle_job_def update_job_def split: option.splits)

lemma settle_job_id [simp]: "jb_id (settle_job now j err x) = jb_id x" "jb_tier (settle_job now j err x) = jb_tier x"
  by (auto simp: settle_job_def split: option.splits)

lemma settle_job_tame:
  "jb_tier j = EMERGENCY \<Longrightarrow> jb_attempts j = 0 \<Longrightarrow> jb_tier x = EMERGENCY \<Longrightarrow> jb_attempts x = 0 \<Longrightarrow> job_tame (settle_job now j err x)"
  by (auto simp: settle_job_def job_tame_def max_attempts_def split: option.splits)

lemma process_jobs_recorded:
  assumes "outcome_error (outcomes (jb_id j)) = None \<or> jo_recorded (outcomes (jb_id j))"
  shows "\<exists>acc'. process_jobs now outcomes (j # js) acc = process_jobs now outcomes js acc' \<and>
    fst acc' = update_job (jb_id j) (settle_job now j (outcome_error (outcomes (jb_id j)))) (start_job j (outcomes (jb_id j)) (fst acc))"
proof -
  have n: "\<not> (outcome_error (outcomes (jb_id j)) \<noteq> None \<and> \<not> jo_recorded (outcomes (jb_id j)))" using assms by (simp only: de_Morgan_conj not_not)
  show ?thesis
    by (cases acc, simp only: process_jobs.simps Let_def if_not_P [OF n], rule exI, rule conjI, rule refl)
      (simp add: record_outcome_settle)
qed

text \<open>A loop over rows satisfies what each of its two writes keeps.\<close>

lemma process_jobs_induct:
  assumes start: "P js (fst acc)"
    and begun: "\<And>j js db. P (j # js) db \<Longrightarrow> P (j # js) (update_job (jb_id j) (\<lambda>x. x\<lparr>jb_state := PROCESSING\<rparr>) db)"
    and settled: "\<And>j js db err. P (j # js) db \<Longrightarrow> P js (update_job (jb_id j) (settle_job now j err) db)"
  shows "\<exists>js'. P js' (fst (process_jobs now outcomes js acc))"
  using start
proof (induction js arbitrary: acc)
  case Nil
  then show ?case by (cases acc) auto
next
  case (Cons j js)
  let ?out = "outcomes (jb_id j)"
  have P: "P (j # js) (start_job j ?out (fst acc))" using begun [OF Cons.prems] Cons.prems by (simp add: start_job_def)
  show ?case
  proof (cases "outcome_error ?out = None \<or> jo_recorded ?out")
    case True
    then obtain acc' where "process_jobs now outcomes (j # js) acc = process_jobs now outcomes js acc'"
      "fst acc' = update_job (jb_id j) (settle_job now j (outcome_error ?out)) (start_job j ?out (fst acc))"
      using process_jobs_recorded by blast
    then show ?thesis using Cons.IH [of acc'] settled [OF P] by simp
  next
    case False
    then show ?thesis using P by (cases acc) (auto simp: Let_def)
  qed
qed

lemma queued_jobs_sound: "set (queued_jobs limit db) \<subseteq> {j \<in> set (qd_jobs db). jb_state j = QUEUED}"
  unfolding queued_jobs_def by (rule subset_trans [OF set_take_subset]) auto

lemma queued_jobs_distinct: "distinct (map jb_id (qd_jobs db)) \<Longrightarrow> distinct (map jb_id (queued_jobs limit db))"
proof -
  assume "distinct (map jb_id (qd_jobs db))"
  then have "distinct (qd_jobs db)" "inj_on jb_id (set (qd_jobs db))" by (auto simp: distinct_map)
  then show ?thesis
    using queued_jobs_sound [of limit db] by (auto simp: distinct_map queued_jobs_def intro: inj_on_subset)
qed

lemma map_id_update: "(\<And>x. jb_id (f x) = jb_id x) \<Longrightarrow> map jb_id (qd_jobs (update_job i f db)) = map jb_id (qd_jobs db)"
  by simp

definition fresh_emergencies :: "job list \<Rightarrow> queue_db \<Rightarrow> bool" where
  "fresh_emergencies js db =
     (queue_tame db \<and> distinct (map jb_id js) \<and> (\<forall>j\<in>set js. jb_tier j = EMERGENCY \<and> jb_attempts j = 0) \<and>
      (\<forall>x\<in>set (qd_jobs db). jb_id x \<in> jb_id ` set js \<longrightarrow> jb_tier x = EMERGENCY \<and> jb_attempts x = 0))"

lemma queued_fresh_emergencies: "queue_tame db \<Longrightarrow> fresh_emergencies (queued_jobs limit db) db"
proof -
  assume t: "queue_tame db"
  have q: "jb_tier j = EMERGENCY \<and> jb_attempts j = 0" if "j \<in> set (queued_jobs limit db)" for j
  proof -
    have "j \<in> set (qd_jobs db)" "jb_state j = QUEUED" using subsetD [OF queued_jobs_sound that] by simp_all
    moreover from this have "job_tame j" using t by (simp add: queue_tame_def)
    ultimately show ?thesis by (simp add: job_tame_def split: if_splits)
  qed
  have "x = j" if "x \<in> set (qd_jobs db)" "j \<in> set (queued_jobs limit db)" "jb_id x = jb_id j" for x j
  proof -
    have "inj_on jb_id (set (qd_jobs db))" using t by (simp add: queue_tame_def distinct_map)
    then show "x = j" using that subsetD [OF queued_jobs_sound that(2)] by (auto dest: inj_onD)
  qed
  with q have "\<forall>x\<in>set (qd_jobs db). jb_id x \<in> jb_id ` set (queued_jobs limit db) \<longrightarrow> jb_tier x = EMERGENCY \<and> jb_attempts x = 0"
    by (metis imageE)
  moreover have "distinct (map jb_id (queued_jobs limit db))" using t queued_jobs_distinct by (simp add: queue_tame_def)
  ultimately show ?thesis
    unfolding fresh_emergencies_def using t q by blast
qed



lemma first_some_Some:
  "first_some f xs = Some y \<Longrightarrow> \<exists>us x vs. xs = us @ x # vs \<and> f x = Some y \<and> (\<forall>u\<in>set us. f u = None)"
proof (induction xs)
  case (Cons a xs)
  show ?case
  proof (cases "f a")
    case None
    then obtain us x vs where "xs = us @ x # vs" "f x = Some y" "\<forall>u\<in>set us. f u = None" using Cons by auto
    then have "a # xs = (a # us) @ x # vs \<and> f x = Some y \<and> (\<forall>u\<in>set (a # us). f u = None)" using None by simp
    then show ?thesis by blast
  next
    case (Some b)
    then have "a # xs = [] @ a # xs \<and> f a = Some y \<and> (\<forall>u\<in>set []. f u = None)" using Cons.prems by simp
    then show ?thesis by blast
  qed
qed simp

lemma first_some_None: "first_some f xs = None \<longleftrightarrow> (\<forall>x\<in>set xs. f x = None)"
  by (induction xs) (auto split: option.split)

lemma first_of_tier_None: "first_of_tier now db t = None \<longleftrightarrow> saturated now t db \<or> (\<forall>j\<in>set (qd_jobs db). \<not> eligible now t j)"
proof -
  have "(sort_key jb_queuedAt (filter (eligible now t) (qd_jobs db)) = []) = (\<forall>j\<in>set (qd_jobs db). \<not> eligible now t j)"
    by (metis empty_filter_conv set_empty set_sort)
  then show ?thesis by (auto simp: first_of_tier_def split: list.split)
qed

lemma first_of_tier_Some:
  assumes "first_of_tier now db t = Some j"
  shows "\<not> saturated now t db" "j \<in> set (qd_jobs db)" "eligible now t j"
    "k \<in> set (qd_jobs db) \<Longrightarrow> eligible now t k \<Longrightarrow> jb_queuedAt j \<le> jb_queuedAt k"
proof -
  let ?xs = "sort_key jb_queuedAt (filter (eligible now t) (qd_jobs db))"
  obtain js where js: "?xs = j # js" "\<not> saturated now t db"
    using assms by (auto simp: first_of_tier_def split: if_splits list.splits)
  have s: "set (j # js) = {k \<in> set (qd_jobs db). eligible now t k}" using arg_cong [OF js(1), of set] by auto
  have o: "sorted (map jb_queuedAt (j # js))" using sorted_sort_key [of jb_queuedAt "filter (eligible now t) (qd_jobs db)"] js by simp
  show "\<not> saturated now t db" by (rule js)
  show "j \<in> set (qd_jobs db)" "eligible now t j" using s by auto
  show "jb_queuedAt j \<le> jb_queuedAt k" if "k \<in> set (qd_jobs db)" "eligible now t k"
  proof -
    have "k \<in> set (j # js)" using s that by simp
    then show ?thesis using o by auto
  qed
qed

definition day_spent :: "int \<Rightarrow> queue_db \<Rightarrow> nat" where
  "day_spent d db = length (filter (\<lambda>j. jb_tier j \<noteq> EMERGENCY \<and> jb_state j = PENDING \<and> day_of (jb_queuedAt j) = d) (qd_jobs db))"

definition budget_of :: "int \<Rightarrow> queue_db \<Rightarrow> budget option" where
  "budget_of d db = find (\<lambda>b. bg_date b = d) (qd_budgets db)"

definition budget_kept :: "int \<Rightarrow> queue_db \<Rightarrow> bool" where
  "budget_kept d db =
     (case budget_of d db of
        None \<Rightarrow> day_spent d db = 0
      | Some b \<Rightarrow> 0 \<le> bg_remaining b \<and> int (day_spent d db) + bg_remaining b \<le> bg_max b)"

lemma adaptive_budget_positive: "integer_column (ab_effective (getAdaptiveBudget p base n d)) = Some m \<Longrightarrow> 1 \<le> m"
  by (simp add: getAdaptiveBudget_def Let_def integer_column_def jmax_def split: jsnum.splits if_splits)

lemma find_map_other: "(\<And>x. bg_date (f x) = bg_date x) \<Longrightarrow> find (\<lambda>b. bg_date b = d) (map f bs) = map_option f (find (\<lambda>b. bg_date b = d) bs)"
  by (induction bs) auto

lemma budget_of_jobs [simp]: "budget_of d (db\<lparr>qd_jobs := js\<rparr>) = budget_of d db"
  by (simp add: budget_of_def)

lemma budget_of_spend:
  "budget_of d (spend now b db) =
     (if d = day_of now
      then map_option (\<lambda>x. x\<lparr>bg_remaining := max 0 (bg_remaining b - 1),
             bg_status := if max 0 (bg_remaining b - 1) = 0 then EXHAUSTED else bg_status b\<rparr>) (budget_of d db)
      else budget_of d db)"
proof -
  let ?f = "\<lambda>x. if bg_date x = day_of now then x\<lparr>bg_remaining := max 0 (bg_remaining b - 1),
    bg_status := if max 0 (bg_remaining b - 1) = 0 then EXHAUSTED else bg_status b\<rparr> else x"
  have m: "budget_of d (spend now b db) = map_option ?f (budget_of d db)"
    by (simp add: budget_of_def spend_def Let_def find_map_other)
  show ?thesis
  proof (cases "budget_of d db")
    case (Some x)
    then have "bg_date x = d" by (auto simp: budget_of_def find_Some_iff)
    then show ?thesis using Some m by auto
  qed (use m in auto)
qed

lemma budget_kept_cong: "budget_of d db' = budget_of d db \<Longrightarrow> day_spent d db' = day_spent d db \<Longrightarrow> budget_kept d db \<Longrightarrow> budget_kept d db'"
  by (simp add: budget_kept_def split: option.splits)

lemma day_spent_spend [simp]: "day_spent d (spend now b db) = day_spent d db"
  by (simp add: day_spent_def)

lemma find_snoc: "find P (xs @ [x]) = (case find P xs of Some y \<Rightarrow> Some y | None \<Rightarrow> if P x then Some x else None)"
  by (induction xs) auto

lemma todays_budget_kept:
  assumes "todays_budget ok now p n db = Some (db1, b)" "budget_kept d db"
  shows "budget_kept d db1" "budget_of (day_of now) db1 = Some b"
proof -
  consider "db1 = db" "budget_of (day_of now) db = Some b"
    | m where "budget_of (day_of now) db = None" "1 \<le> m" "db1 = db\<lparr>qd_budgets := qd_budgets db @ [b]\<rparr>"
      "bg_date b = day_of now" "bg_max b = m" "bg_remaining b = m"
    using assms(1)
    by (auto simp: todays_budget_def budget_of_def Let_def dest: adaptive_budget_positive split: option.splits if_splits)
  then have "budget_kept d db1 \<and> budget_of (day_of now) db1 = Some b"
  proof cases
    case (2 m)
    then have "budget_of d' db1 = (case budget_of d' db of Some y \<Rightarrow> Some y | None \<Rightarrow> if day_of now = d' then Some b else None)" for d'
      by (simp add: budget_of_def find_snoc)
    moreover have "day_spent d db1 = day_spent d db" using 2 by (simp add: day_spent_def)
    ultimately show ?thesis using 2 assms(2) by (auto simp: budget_kept_def split: option.splits)
  qed (use assms in simp)
  then show "budget_kept d db1" "budget_of (day_of now) db1 = Some b" by simp_all
qed

lemma enqueue_keeps_budget:
  assumes kept: "budget_kept d db" and paid: "snd (snd w)"
  shows "budget_kept d (fst (enqueueReanalysisJob w now i p n idx t tier opts db))"
proof (cases "todays_budget (fst w) now p n db")
  case (Some r)
  obtain db1 b where r: "r = (db1, b)" by (cases r)
  have k: "budget_kept d db1" and b: "budget_of (day_of now) db1 = Some b"
    using todays_budget_kept [OF Some [unfolded r]] kept by blast+
  let ?s = "first_state tier b" and ?j = "new_job now i idx t tier (first_state tier b) opts"
  let ?db2 = "db1\<lparr>qd_jobs := qd_jobs db1 @ [?j]\<rparr>"
  have n: "day_spent d ?db2 = day_spent d db1 + (if tier \<noteq> EMERGENCY \<and> ?s = PENDING \<and> day_of now = d then 1 else 0)"
    by (simp add: day_spent_def)
  consider "\<not> fst (snd w)" | "fst (snd w)" "?s = DEFERRED_STATE" | "fst (snd w)" "?s \<noteq> DEFERRED_STATE" by blast
  then show ?thesis
  proof cases
    case 1
    then show ?thesis using Some r k by (simp add: enqueueReanalysisJob_def)
  next
    case 2
    then have "budget_kept d ?db2" using n by (intro budget_kept_cong [OF _ _ k]) simp_all
    then show ?thesis using 2 Some r by (simp add: enqueueReanalysisJob_def Let_def)
  next
    case 3
    then have "budget_kept d (spend now b ?db2)"
      using k b n by (auto simp: budget_kept_def budget_of_spend first_state_def split: if_splits option.splits)
    then show ?thesis using 3 Some r paid by (simp add: enqueueReanalysisJob_def Let_def)
  qed
qed (use kept in \<open>simp add: enqueueReanalysisJob_def\<close>)

text \<open>The worker leaves the budgets and the other tiers as they are.\<close>

definition worker_frame :: "queue_db \<Rightarrow> job list \<Rightarrow> queue_db \<Rightarrow> bool" where
  "worker_frame db0 js db = (fresh_emergencies js db \<and> qd_budgets db = qd_budgets db0 \<and> (\<forall>d. day_spent d db = day_spent d db0))"

lemma day_spent_update:
  assumes "\<forall>x\<in>set (qd_jobs db). jb_id x = i \<longrightarrow> jb_tier x = EMERGENCY" "\<And>x. jb_tier (f x) = jb_tier x"
  shows "day_spent d (update_job i f db) = day_spent d db"
proof -
  have "filter (\<lambda>j. jb_tier j \<noteq> EMERGENCY \<and> jb_state j = PENDING \<and> day_of (jb_queuedAt j) = d) (map (\<lambda>j. if jb_id j = i then f j else j) js)
      = filter (\<lambda>j. jb_tier j \<noteq> EMERGENCY \<and> jb_state j = PENDING \<and> day_of (jb_queuedAt j) = d) js"
    if "\<forall>x\<in>set js. jb_id x = i \<longrightarrow> jb_tier x = EMERGENCY" for js
    using that assms(2) by (induction js) auto
  then show ?thesis using assms(1) by (simp add: day_spent_def)
qed

lemma fresh_emergencies_started:
  "fresh_emergencies (j # js) db \<Longrightarrow> fresh_emergencies (j # js) (update_job (jb_id j) (\<lambda>x. x\<lparr>jb_state := PROCESSING\<rparr>) db)"
  unfolding fresh_emergencies_def queue_tame_def by (subst map_id_update, simp) (auto simp: job_tame_def)

lemma fresh_emergencies_settled:
  "fresh_emergencies (j # js) db \<Longrightarrow> fresh_emergencies js (update_job (jb_id j) (settle_job now j err) db)"
  unfolding fresh_emergencies_def queue_tame_def by (subst map_id_update, simp) (auto intro!: settle_job_tame)

lemma fresh_emergencies_tier: "fresh_emergencies (j # js) db \<Longrightarrow> \<forall>x\<in>set (qd_jobs db). jb_id x = jb_id j \<longrightarrow> jb_tier x = EMERGENCY"
  by (auto simp: fresh_emergencies_def)

lemma worker_keeps_frame:
  assumes "queue_tame db"
  shows "\<exists>js. worker_frame db js (fst (processReanalysisQueue now limit outcomes db))"
  unfolding processReanalysisQueue_def
proof (rule process_jobs_induct)
  show "worker_frame db (queued_jobs limit db) (fst (db, \<lparr>ws_processed = 0, ws_completed = 0, ws_failed = 0\<rparr>))"
    using queued_fresh_emergencies [OF assms] by (simp add: worker_frame_def)
next
  fix j js db1
  assume "worker_frame db (j # js) db1"
  then show "worker_frame db (j # js) (update_job (jb_id j) (\<lambda>x. x\<lparr>jb_state := PROCESSING\<rparr>) db1)"
    unfolding worker_frame_def using fresh_emergencies_started fresh_emergencies_tier day_spent_update by auto
next
  fix j js db1 err
  assume "worker_frame db (j # js) db1"
  then show "worker_frame db js (update_job (jb_id j) (settle_job now j err) db1)"
    unfolding worker_frame_def using fresh_emergencies_settled fresh_emergencies_tier day_spent_update by auto
qed

lemma queue_step_tame: "queue_step db db' \<Longrightarrow> queue_tame db \<Longrightarrow> queue_tame db'"
proof (induction rule: queue_step.induct)
  case (enqueued fresh db writes now p totalIndexes indexName trigger tier opts)
  then show ?case
    using enqueue_jobs [of writes now fresh p totalIndexes indexName trigger tier opts db] new_job_tame by (auto simp: queue_tame_def)
next
  case (worked db now limit outcomes)
  then show ?case using worker_keeps_frame by (auto simp: worker_frame_def fresh_emergencies_def)
qed


inductive paid_step :: "queue_db \<Rightarrow> queue_db \<Rightarrow> bool" where
  paid: "fresh \<notin> jb_id ` set (qd_jobs db) \<Longrightarrow>
    paid_step db (fst (enqueueReanalysisJob (budget_ok, job_ok, True) now fresh p totalIndexes indexName trigger tier opts db))"
| run: "paid_step db (fst (processReanalysisQueue now limit outcomes db))"

lemma paid_step_is_step: "paid_step db db' \<Longrightarrow> queue_step db db'"
  by (induction rule: paid_step.induct) (auto intro: queue_step.intros)

lemma paid_step_kept: "paid_step db db' \<Longrightarrow> queue_tame db \<Longrightarrow> budget_kept d db \<Longrightarrow> budget_kept d db'"
proof (induction rule: paid_step.induct)
  case (run db now limit outcomes)
  then show ?case using worker_keeps_frame [OF run(1), of now limit outcomes]
    by (auto simp: worker_frame_def budget_of_def intro!: budget_kept_cong [OF _ _ run(2)])
qed (simp add: enqueue_keeps_budget)

lemma paid_run: "paid_step\<^sup>*\<^sup>* db db' \<Longrightarrow> queue_tame db \<Longrightarrow> budget_kept d db \<Longrightarrow> queue_tame db' \<and> budget_kept d db'"
  by (induction rule: rtranclp_induct) (auto intro: paid_step_kept queue_step_tame paid_step_is_step)


section \<open>Properties\<close>


text \<open>
  the next job is the oldest due one of the first tier that is neither saturated nor without due
  jobs; there is none exactly when every tier is one of these.
\<close>

theorem next_job_contract:
  "case getNextJobToExecute now db of
     None \<Rightarrow> \<forall>t. saturated now t db \<or> (\<forall>k\<in>set (qd_jobs db). \<not> eligible now t k)
   | Some j \<Rightarrow> j \<in> set (qd_jobs db) \<and> eligible now (jb_tier j) j \<and> \<not> saturated now (jb_tier j) db \<and>
       (\<forall>k\<in>set (qd_jobs db). eligible now (jb_tier j) k \<longrightarrow> jb_queuedAt j \<le> jb_queuedAt k) \<and>
       (\<forall>t. tier_order t < tier_order (jb_tier j) \<longrightarrow> saturated now t db \<or> (\<forall>k\<in>set (qd_jobs db). \<not> eligible now t k))"
proof (cases "getNextJobToExecute now db")
  case None
  have "t \<in> set tiers" for t by (cases t) (simp_all add: tiers_def)
  then have "saturated now t db \<or> (\<forall>k\<in>set (qd_jobs db). \<not> eligible now t k)" for t
    using None by (simp add: getNextJobToExecute_def first_some_None first_of_tier_None)
  then show ?thesis using None by simp
next
  case (Some j)
  then obtain us t vs where t: "tiers = us @ t # vs" "first_of_tier now db t = Some j" "\<forall>u\<in>set us. first_of_tier now db u = None"
    using first_some_Some unfolding getNextJobToExecute_def by metis
  note j = first_of_tier_Some [OF t(2)]
  have "jb_tier j = t" using j(3) by (simp add: eligible_def)
  moreover have "u \<in> set us" if "tier_order u < tier_order t" for u
    using t(1) that by (cases u; cases t) (auto simp: tiers_def append_eq_Cons_conv Cons_eq_append_conv)
  ultimately show ?thesis using Some j t(3) by (auto simp: first_of_tier_None)
qed

text \<open>
  C33: when the budget is charged for every job, the pending jobs of a day other than emergencies and what
  is left of its budget never exceed its maximum.
\<close>

theorem budget_bounds_enqueued:
  assumes "paid_step\<^sup>*\<^sup>* empty_queue db" "budget_of d db = Some b"
  shows "int (day_spent d db) + bg_remaining b \<le> bg_max b \<and> 0 \<le> bg_remaining b"
proof -
  have "budget_kept d empty_queue" by (simp add: budget_kept_def budget_of_def day_spent_def empty_queue_def)
  then have "budget_kept d db" using paid_run [OF assms(1) empty_queue_tame] by blast
  then show ?thesis using assms(2) by (simp add: budget_kept_def)
qed

lemma js_plus_text: "foldl (\<lambda>v r. js_plus v (snd r)) (Str s) rows = Str (s @ concat (map snd rows))"
  by (induction rows arbitrary: s) auto

text \<open>
  the total of a snapshot is the concatenation of the counts after a zero, not their sum, and its
  status is judged by that number.
\<close>

theorem backlog_is_concatenated:
  "hs_total (captureQueueHealthSnapshot order db) =
     (if depth_rows order db = [] then Num (Fin 0) else Str (''0'' @ concat (map snd (depth_rows order db))))"
  by (cases "depth_rows order db") (simp_all add: captureQueueHealthSnapshot_def Let_def js_plus_text num_string_def)

section \<open>The properties at concrete inputs\<close>

definition example_machine :: hardware_profile where
  "example_machine = \<lparr>hp_availableMemoryGB = Fin 48, hp_isThrottling = False, hp_gpuMemoryGB = None\<rparr>"

definition example_enqueue :: "string \<Rightarrow> priority_tier \<Rightarrow> queue_db \<Rightarrow> queue_db" where
  "example_enqueue i tier db =
     fst (enqueueReanalysisJob (True, True, True) 1000 i example_machine 40 ''main'' ''SCHEDULED'' tier
       \<lparr>eo_sourcetype = None, eo_cost = None, eo_drift = None, eo_review = False\<rparr> db)"

definition example_queue :: queue_db where
  "example_queue = example_enqueue ''j2'' EMERGENCY (example_enqueue ''j1'' STANDARD empty_queue)"

lemma example_queue_states:
  "map jb_state (qd_jobs example_queue) = [PENDING, QUEUED]" "map jb_id (qd_jobs example_queue) = [''j1'', ''j2'']"
  "map bg_max (qd_budgets example_queue) = [2]" "day_spent 0 example_queue = 1" "map bg_date (qd_budgets example_queue) = [0]"
  by code_simp+

lemma example_first: "qd_jobs (example_enqueue ''j1'' STANDARD empty_queue) = [hd (qd_jobs example_queue)]"
  by code_simp

lemma example_paid: "paid_step\<^sup>*\<^sup>* empty_queue example_queue"
proof -
  have "paid_step empty_queue (example_enqueue ''j1'' STANDARD empty_queue)"
    unfolding example_enqueue_def by (rule paid) (simp add: empty_queue_def)
  moreover have "jb_id (hd (qd_jobs example_queue)) = ''j1''"
    using example_queue_states(2) by (cases "qd_jobs example_queue") auto
  then have "''j2'' \<notin> jb_id ` set (qd_jobs (example_enqueue ''j1'' STANDARD empty_queue))" by (simp add: example_first)
  then have "paid_step (example_enqueue ''j1'' STANDARD empty_queue) example_queue"
    unfolding example_queue_def by (subst example_enqueue_def) (rule paid)
  ultimately show ?thesis by (meson converse_rtranclp_into_rtranclp rtranclp.rtrancl_refl)
qed



theorem budget_bounds_enqueued_witness: "1 + bg_remaining (hd (qd_budgets example_queue)) \<le> 2"
proof -
  obtain b where b: "qd_budgets example_queue = [b]" using example_queue_states(3) by auto
  then have "budget_of 0 example_queue = Some b" using example_queue_states(5) by (simp add: budget_of_def)
  then show ?thesis using budget_bounds_enqueued [OF example_paid, of 0 b] b example_queue_states(3,4) by simp
qed

text \<open>Three tiers with one pending job each are a critical backlog of a hundred and eleven jobs.\<close>

lemma three_jobs_are_critical:
  "hs_total (captureQueueHealthSnapshot tiers (example_enqueue ''j3'' CRITICAL (example_enqueue ''j2'' BACKGROUND
     (example_enqueue ''j1'' STANDARD empty_queue)))) = Str ''011'' \<and>
   hs_status (captureQueueHealthSnapshot tiers (empty_queue\<lparr>qd_jobs := map (\<lambda>t. new_job 0 ''j'' ''main'' ''SCHEDULED'' t PENDING
     \<lparr>eo_sourcetype = None, eo_cost = None, eo_drift = None, eo_review = False\<rparr>) [CRITICAL, STANDARD, BACKGROUND]\<rparr>)) =
     ''CRITICAL_BACKLOG''"
  by code_simp

end
