(* ===== verification/Causality.thy ===== *)
theory Causality
  imports JsValue
begin

text \<open>
  Trace propagation: \<open>apps/api/types/trace-context.ts\<close>, \<open>apps/api/services/governance-causality-engine.ts\<close>,
  \<open>apps/api/adapters/trace-context-adapters.ts\<close> and \<open>apps/api/middleware/governance-trace-middleware.ts\<close>, over
  the tables of \<open>docker/infrastructure/schema.sql/02-migration-104-trace-propagation.sql\<close>. Random ids, clock
  readings, the connection and the writes of the database, and what an operation returns are arguments.
\<close>

section \<open>Trace contexts\<close>

text \<open>
  The casts of the reader are not checked, so a text read from a header stands for the execution context, and
  a missing value is possible.
\<close>

record trace_context =
  tc_traceId :: string
  tc_spanId :: string
  tc_parentSpanId :: "string option"
  tc_sampled :: bool
  tc_recorded :: bool
  tc_correlationId :: "string option"
  tc_sessionId :: "string option"
  tc_executionContext :: "string option"
  tc_metadata :: "(string \<times> js) list"
  tc_createdAt :: jsnum
  tc_parentCreatedAt :: "jsnum option"
  tc_causalParentId :: "string option"
  tc_retryCount :: "jsnum option"
  tc_retryParentSpanId :: "string option"

datatype coherence_tier = NOMINAL | DEGRADED | STALE | SEVERE

definition calculateCoherenceTier :: "jsnum \<Rightarrow> coherence_tier" where
  "calculateCoherenceTier latencyMs =
     (if jle latencyMs (Fin 500) then NOMINAL else if jle latencyMs (Fin 3000) then DEGRADED
      else if jle latencyMs (Fin 15000) then STALE else SEVERE)"

datatype lifecycle_state = INTENT_RECEIVED | MUTATION_DISPATCHED | API_ACCEPTED | STATE_PERSISTED | AUDIT_SNAPSHOTTED
  | QUERY_INVALIDATED | CACHE_REFRESH_REQUESTED | QUERY_REFETCHED | UI_RECONCILED | STATE_VERIFIED

text \<open>An id is drawn again while it is all zeros; \<open>None\<close> stands for draws that are all of that kind.\<close>

fun generateId :: "string \<Rightarrow> string list \<Rightarrow> string option" where
  "generateId zeros [] = None"
| "generateId zeros (d # ds) = (if d = zeros then generateId zeros ds else Some d)"

definition generateTraceId :: "string list \<Rightarrow> string option" where
  "generateTraceId = generateId (replicate 32 CHR ''0'')"

definition generateSpanId :: "string list \<Rightarrow> string option" where
  "generateSpanId = generateId (replicate 16 CHR ''0'')"

definition generateCorrelationId :: "nat \<Rightarrow> string \<Rightarrow> string" where
  "generateCorrelationId now entropy = ''corr_'' @ nat_str now @ ''_'' @ entropy"

record root_options =
  ro_sessionId :: "string option"
  ro_executionContext :: "string option"
  ro_metadata :: "(string \<times> js) list option"

definition createRootTraceContext :: "string \<Rightarrow> string \<Rightarrow> string \<Rightarrow> jsnum \<Rightarrow> root_options \<Rightarrow> trace_context" where
  "createRootTraceContext traceId spanId correlationId now opts =
     \<lparr>tc_traceId = traceId, tc_spanId = spanId, tc_parentSpanId = None, tc_sampled = True, tc_recorded = True,
      tc_correlationId = Some correlationId, tc_sessionId = ro_sessionId opts,
      tc_executionContext = (case ro_executionContext opts of None \<Rightarrow> Some ''PRODUCTION'' | Some e \<Rightarrow> Some e),
      tc_metadata = (case ro_metadata opts of None \<Rightarrow> [] | Some m \<Rightarrow> m), tc_createdAt = now, tc_parentCreatedAt = None,
      tc_causalParentId = None, tc_retryCount = None, tc_retryParentSpanId = None\<rparr>"

record child_options =
  co_spanName :: "string option"
  co_parentSpanId :: "string option"
  co_retryAttempt :: "jsnum option"
  co_metadata :: "(string \<times> js) list"

definition child_of :: "string \<Rightarrow> child_options" where
  "child_of name = \<lparr>co_spanName = Some name, co_parentSpanId = None, co_retryAttempt = None, co_metadata = []\<rparr>"

text \<open>Object spread: a later member replaces the value of an earlier one with the same key.\<close>

fun set_member :: "string \<times> js \<Rightarrow> (string \<times> js) list \<Rightarrow> (string \<times> js) list" where
  "set_member (k, v) [] = [(k, v)]"
| "set_member (k, v) ((k', v') # fs) = (if k' = k then (k, v) # fs else (k', v') # set_member (k, v) fs)"

definition spread :: "(string \<times> js) list \<Rightarrow> (string \<times> js) list \<Rightarrow> (string \<times> js) list" where
  "spread a b = fold set_member b a"

definition js_of_option :: "string option \<Rightarrow> js" where
  "js_of_option v = (case v of None \<Rightarrow> Undefined | Some s \<Rightarrow> Str s)"

definition createChildSpan :: "string \<Rightarrow> jsnum \<Rightarrow> trace_context \<Rightarrow> child_options \<Rightarrow> trace_context" where
  "createChildSpan childSpanId now parent opts =
     parent\<lparr>tc_spanId := childSpanId, tc_parentSpanId := Some (tc_spanId parent), tc_parentCreatedAt := Some (tc_createdAt parent),
       tc_createdAt := now,
       tc_retryCount := (case co_retryAttempt opts of
           Some n \<Rightarrow> Some n
         | None \<Rightarrow> (case tc_retryCount parent of Some n \<Rightarrow> Some n | None \<Rightarrow> Some (Fin 0))),
       tc_retryParentSpanId := (if co_retryAttempt opts \<noteq> None then Some (tc_spanId parent) else None),
       tc_metadata := spread (spread (tc_metadata parent) (co_metadata opts)) [(''spanName'', js_of_option (co_spanName opts))]\<rparr>"

section \<open>The wire format\<close>

definition template :: "string option \<Rightarrow> string" where
  "template v = (case v of None \<Rightarrow> ''undefined'' | Some s \<Rightarrow> s)"



definition tracestate_members :: "trace_context \<Rightarrow> string list" where
  "tracestate_members c =
     [''corr='' @ template (tc_correlationId c)] @
     (if tc_executionContext c \<noteq> Some ''PRODUCTION'' then [''exec='' @ template (tc_executionContext c)] else []) @
     (case tc_retryCount c of Some n \<Rightarrow> if jlt (Fin 0) n then [''retry='' @ num_string n] else [] | None \<Rightarrow> [])"


text \<open>\<open>parseInt\<close>: leading spaces, a sign, the prefix of base 16, and the longest prefix of digits.\<close>

definition radix_char :: "nat \<Rightarrow> char \<Rightarrow> bool" where
  "radix_char b c = (case radix_digit c of Some d \<Rightarrow> d < b | None \<Rightarrow> False)"

definition parse_int :: "nat \<Rightarrow> string \<Rightarrow> jsnum" where
  "parse_int b s =
     (let t = trim_start s;
          (neg, u) = (case t of
              c # v \<Rightarrow> if c = CHR ''-'' then (True, v) else if c = CHR ''+'' then (False, v) else (False, t)
            | [] \<Rightarrow> (False, t));
          w = (if b = 16 \<and> to_lower (take 2 u) = ''0x'' then drop 2 u else u)
      in case radix_value b (takeWhile (radix_char b) w) 0 of
           None \<Rightarrow> NaN
         | Some n \<Rightarrow>
             if takeWhile (radix_char b) w = [] then NaN
             else if neg then jneg (rnd64 (of_nat n)) else rnd64 (of_nat n))"


record wire_state =
  ws_corr :: "string option"
  ws_exec :: "string option"
  ws_retry :: jsnum

definition read_pair :: "string \<Rightarrow> wire_state \<Rightarrow> wire_state" where
  "read_pair pair st =
     (let kv = split_on (CHR ''='') (trim pair); key = hd kv; val = (case tl kv of [] \<Rightarrow> None | v # _ \<Rightarrow> Some v);
          st = (if key = ''corr'' then st\<lparr>ws_corr := val\<rparr> else st);
          st = (if key = ''exec'' then st\<lparr>ws_exec := val\<rparr> else st)
      in if key = ''retry'' then st\<lparr>ws_retry := (case val of None \<Rightarrow> NaN | Some v \<Rightarrow> parse_int 10 v)\<rparr> else st)"

definition read_tracestate :: "string \<Rightarrow> string option \<Rightarrow> wire_state" where
  "read_tracestate freshCorrelation tracestate =
     (let st = \<lparr>ws_corr = Some freshCorrelation, ws_exec = Some ''PRODUCTION'', ws_retry = Fin 0\<rparr>
      in case tracestate of
           None \<Rightarrow> st
         | Some s \<Rightarrow> if s = [] then st else fold read_pair (split_on (CHR '','') s) st)"


section \<open>Queue payloads\<close>

definition serializeTraceContextToPayload :: "trace_context \<Rightarrow> trace_context" where
  "serializeTraceContextToPayload c =
     \<lparr>tc_traceId = tc_traceId c, tc_spanId = tc_spanId c, tc_parentSpanId = tc_parentSpanId c, tc_sampled = tc_sampled c,
      tc_recorded = tc_recorded c, tc_correlationId = tc_correlationId c, tc_sessionId = tc_sessionId c,
      tc_executionContext = tc_executionContext c, tc_metadata = tc_metadata c, tc_createdAt = tc_createdAt c,
      tc_parentCreatedAt = tc_parentCreatedAt c, tc_causalParentId = tc_causalParentId c, tc_retryCount = tc_retryCount c,
      tc_retryParentSpanId = tc_retryParentSpanId c\<rparr>"

definition deserializeTraceContextFromPayload :: "trace_context \<Rightarrow> trace_context" where
  "deserializeTraceContextFromPayload p =
     \<lparr>tc_traceId = tc_traceId p, tc_spanId = tc_spanId p, tc_parentSpanId = tc_parentSpanId p, tc_sampled = tc_sampled p,
      tc_recorded = tc_recorded p, tc_correlationId = tc_correlationId p, tc_sessionId = tc_sessionId p,
      tc_executionContext = tc_executionContext p, tc_metadata = tc_metadata p, tc_createdAt = tc_createdAt p,
      tc_parentCreatedAt = tc_parentCreatedAt p, tc_causalParentId = tc_causalParentId p, tc_retryCount = tc_retryCount p,
      tc_retryParentSpanId = tc_retryParentSpanId p\<rparr>"

section \<open>Recording spans\<close>

text \<open>
  Two sets of tables exist: those of the file for the container and those of the migrations 103 to 105, which
  know no terminal state and no journal of simulations.
\<close>

record lifecycle_event =
  le_traceId :: string
  le_spanId :: string
  le_parentSpanId :: "string option"
  le_correlationId :: string
  le_state :: lifecycle_state
  le_previous :: "lifecycle_state option"
  le_status :: string
  le_duration :: int
  le_errorCode :: "string option"
  le_errorMessage :: "string option"
  le_context :: string
  le_targetHash :: "string option"

record trace_schema =
  sc_states :: "lifecycle_state list"
  sc_contexts :: "string list option"
  sc_journal :: "string list option"
  sc_errorCode :: nat

definition CONTAINER_SCHEMA :: trace_schema where
  "CONTAINER_SCHEMA =
     \<lparr>sc_states = [INTENT_RECEIVED, MUTATION_DISPATCHED, API_ACCEPTED, STATE_PERSISTED, AUDIT_SNAPSHOTTED, QUERY_INVALIDATED,
        CACHE_REFRESH_REQUESTED, QUERY_REFETCHED, UI_RECONCILED, STATE_VERIFIED],
      sc_contexts = None, sc_journal = Some [''SANDBOX'', ''SIMULATION'', ''TESTING''], sc_errorCode = 100\<rparr>"

definition MIGRATED_SCHEMA :: trace_schema where
  "MIGRATED_SCHEMA =
     \<lparr>sc_states = [INTENT_RECEIVED, MUTATION_DISPATCHED, API_ACCEPTED, STATE_PERSISTED, AUDIT_SNAPSHOTTED, QUERY_INVALIDATED,
        CACHE_REFRESH_REQUESTED, QUERY_REFETCHED, UI_RECONCILED],
      sc_contexts = Some [''PRODUCTION'', ''SANDBOX'', ''SIMULATION''], sc_journal = None, sc_errorCode = 50\<rparr>"

definition span_columns_fit :: "lifecycle_event \<Rightarrow> bool" where
  "span_columns_fit e =
     (length (le_traceId e) \<le> 32 \<and> length (le_spanId e) \<le> 16 \<and>
      (case le_parentSpanId e of None \<Rightarrow> True | Some p \<Rightarrow> length p \<le> 16) \<and> length (le_correlationId e) \<le> 64 \<and>
      le_status e \<in> {''success'', ''error'', ''timeout'', ''cancelled''})"

definition fits_in :: "nat \<Rightarrow> string option \<Rightarrow> bool" where
  "fits_in n v = (case v of None \<Rightarrow> True | Some s \<Rightarrow> length s \<le> n)"

definition event_accepted :: "trace_schema \<Rightarrow> lifecycle_event \<Rightarrow> bool" where
  "event_accepted sc e =
     (span_columns_fit e \<and> le_state e \<in> set (sc_states sc) \<and> fits_in (sc_errorCode sc) (le_errorCode e) \<and> length (le_context e) \<le> 30 \<and>
      (case sc_contexts sc of None \<Rightarrow> True | Some cs \<Rightarrow> le_context e \<in> set cs))"

definition journal_accepted :: "trace_schema \<Rightarrow> lifecycle_event \<Rightarrow> bool" where
  "journal_accepted sc e =
     (case sc_journal sc of
        None \<Rightarrow> False
      | Some cs \<Rightarrow> span_columns_fit e \<and> fits_in (sc_errorCode sc) (le_errorCode e) \<and> le_context e \<in> set cs)"

record trace_db =
  td_events :: "lifecycle_event list"
  td_journal :: "lifecycle_event list"

text \<open>Whether a connection is obtained, whether the statement reaches the database, and the error if not.\<close>

record op_error =
  oe_code :: "string option"
  oe_message :: "string option"

record db_io =
  io_connects :: bool
  io_writes :: bool
  io_error :: op_error

datatype record_result = Threw op_error | Not_recorded | Was_recorded

record span_options =
  so_status :: "string option"
  so_errorCode :: "string option"
  so_errorMessage :: "string option"
  so_durationMs :: "jsnum option"
  so_previousState :: "lifecycle_state option"

definition int4_column :: "jsnum \<Rightarrow> int option" where
  "int4_column x =
     (case x of Fin r \<Rightarrow> if of_int \<lfloor>r\<rfloor> = r \<and> - 2147483648 \<le> \<lfloor>r\<rfloor> \<and> \<lfloor>r\<rfloor> \<le> 2147483647 then Some \<lfloor>r\<rfloor> else None | _ \<Rightarrow> None)"

definition span_duration :: "jsnum \<Rightarrow> trace_context \<Rightarrow> span_options \<Rightarrow> jsnum" where
  "span_duration now c opts = (case so_durationMs opts of Some d \<Rightarrow> d | None \<Rightarrow> jsub now (tc_createdAt c))"

text \<open>The row of a span, if no column that must not be null is null and the duration is an integer.\<close>

definition span_row :: "jsnum \<Rightarrow> trace_context \<Rightarrow> lifecycle_state \<Rightarrow> span_options \<Rightarrow> lifecycle_event option" where
  "span_row now c st opts =
     (case (tc_correlationId c, int4_column (jround (span_duration now c opts)), tc_executionContext c) of
        (Some corr, Some d, Some ctx) \<Rightarrow>
          Some \<lparr>le_traceId = tc_traceId c, le_spanId = tc_spanId c, le_parentSpanId = tc_parentSpanId c, le_correlationId = corr,
            le_state = st, le_previous = so_previousState opts,
            le_status = (case so_status opts of None \<Rightarrow> ''success'' | Some s \<Rightarrow> s), le_duration = d, le_errorCode = so_errorCode opts,
            le_errorMessage = so_errorMessage opts, le_context = ctx, le_targetHash = None\<rparr>
      | _ \<Rightarrow> None)"

definition recordSimulationSpanEvent ::
  "trace_schema \<Rightarrow> db_io \<Rightarrow> jsnum \<Rightarrow> trace_context \<Rightarrow> lifecycle_state \<Rightarrow> span_options \<Rightarrow> trace_db \<Rightarrow> trace_db \<times> record_result" where
  "recordSimulationSpanEvent sc io now c st opts db =
     (if \<not> io_connects io then (db, Threw (io_error io))
      else case span_row now c st opts of
          None \<Rightarrow> (db, Threw (io_error io))
        | Some e \<Rightarrow>
            (let row = e\<lparr>le_previous := None, le_errorMessage := None\<rparr>
             in if io_writes io \<and> journal_accepted sc row then (db\<lparr>td_journal := td_journal db @ [row]\<rparr>, Was_recorded) else (db, Threw (io_error io))))"

definition recordSpanEvent ::
  "trace_schema \<Rightarrow> db_io \<Rightarrow> jsnum \<Rightarrow> trace_context \<Rightarrow> lifecycle_state \<Rightarrow> span_options \<Rightarrow> trace_db \<Rightarrow> trace_db \<times> record_result" where
  "recordSpanEvent sc io now c st opts db =
     (if tc_executionContext c \<noteq> Some ''PRODUCTION'' then recordSimulationSpanEvent sc io now c st opts db
      else if \<not> io_connects io then (db, Threw (io_error io))
      else case span_row now c st opts of
          None \<Rightarrow> (db, Not_recorded)
        | Some e \<Rightarrow> if io_writes io \<and> event_accepted sc e then (db\<lparr>td_events := td_events db @ [e]\<rparr>, Was_recorded) else (db, Not_recorded))"

text \<open>
  The columns of the table of the coherence metrics, as both sets of tables have them, with those that must
  be given; an insertion naming another column, or leaving out one of these, fails.
\<close>

definition COHERENCE_COLUMNS :: "(string \<times> bool) list" where
  "COHERENCE_COLUMNS =
     [(''coherence_id'', False), (''index_name'', True), (''mutation_committed_at'', True), (''invalidation_requested_at'', False),
      (''server_response_received_at'', False), (''ui_refetch_initiated_at'', False), (''ui_acknowledged_at'', False),
      (''server_commit_to_invalidation_ms'', False), (''invalidation_to_client_awareness_ms'', False),
      (''client_awareness_to_refetch_ms'', False), (''refetch_to_ui_reconciliation_ms'', False), (''total_divergence_window_ms'', False),
      (''invalidation_failed'', False), (''refetch_failed'', False), (''ui_still_stale'', False), (''correlation_id'', True),
      (''recorded_at'', False)]"

definition COHERENCE_EXTENSION :: "(string \<times> bool) list" where
  "COHERENCE_EXTENSION =
     [(''trace_id'', False), (''coherence_tier'', False), (''target_state_hash'', False), (''actual_state_hash'', False),
      (''stale_render_duration_ms'', False)]"

definition COHERENCE_INSERT :: "string list" where
  "COHERENCE_INSERT =
     [''trace_id'', ''correlation_id'', ''index_name'', ''invalidation_to_refetch_ms'', ''refetch_to_ui_reconciliation_ms'',
      ''total_divergence_window_ms'', ''coherence_tier'', ''stale_render_duration_ms'', ''recorded_at'']"

definition insert_accepted :: "(string \<times> bool) list \<Rightarrow> string list \<Rightarrow> bool" where
  "insert_accepted cols names =
     (list_all (\<lambda>n. n \<in> set (map fst cols)) names \<and> list_all (\<lambda>(n, required). required \<longrightarrow> n \<in> set names) cols)"

record coherence_metrics =
  cm_initiated :: jsnum
  cm_refetched :: jsnum
  cm_reconciled :: "jsnum option"

definition divergence_window :: "coherence_metrics \<Rightarrow> jsnum" where
  "divergence_window m =
     (case cm_reconciled m of
        Some t \<Rightarrow> if js_truthy (Num t) then jsub t (cm_initiated m) else jsub (cm_refetched m) (cm_initiated m)
      | None \<Rightarrow> jsub (cm_refetched m) (cm_initiated m))"

definition recordCacheCoherenceMetrics ::
  "(string \<times> bool) list \<Rightarrow> db_io \<Rightarrow> trace_context \<Rightarrow> coherence_metrics \<Rightarrow> record_result \<times> coherence_tier option" where
  "recordCacheCoherenceMetrics cols io c m =
     (if tc_executionContext c \<noteq> Some ''PRODUCTION'' then (Not_recorded, None)
      else if \<not> io_connects io then (Threw (io_error io), None)
      else if io_writes io \<and> insert_accepted cols COHERENCE_INSERT
      then (Was_recorded, Some (calculateCoherenceTier (divergence_window m))) else (Not_recorded, None))"

datatype verify_result = Verify_threw | Verified | Unverified string

definition verified_row :: "trace_context \<Rightarrow> string \<Rightarrow> lifecycle_event option" where
  "verified_row c target =
     (case (tc_correlationId c, tc_executionContext c) of
        (Some corr, Some ctx) \<Rightarrow>
          Some \<lparr>le_traceId = tc_traceId c, le_spanId = tc_spanId c, le_parentSpanId = tc_parentSpanId c, le_correlationId = corr,
            le_state = STATE_VERIFIED, le_previous = None, le_status = ''success'', le_duration = 0, le_errorCode = None,
            le_errorMessage = None, le_context = ctx, le_targetHash = Some target\<rparr>
      | _ \<Rightarrow> None)"

definition verifyTerminalState ::
  "trace_schema \<Rightarrow> db_io \<Rightarrow> trace_context \<Rightarrow> string \<Rightarrow> string \<Rightarrow> trace_db \<Rightarrow> trace_db \<times> verify_result" where
  "verifyTerminalState sc io c target actual db =
     (if target \<noteq> actual then (db, Unverified (''State hash mismatch: target='' @ target @ '' actual='' @ actual))
      else if \<not> io_connects io then (db, Verify_threw)
      else case verified_row c target of
          None \<Rightarrow> (db, Unverified ''Database error'')
        | Some e \<Rightarrow>
            if io_writes io \<and> event_accepted sc e then (db\<lparr>td_events := td_events db @ [e]\<rparr>, Verified)
            else (db, Unverified ''Database error''))"

section \<open>Adapters\<close>

record queue_envelope =
  qe_payload :: js
  qe_traceContext :: trace_context
  qe_enqueuedAt :: jsnum
  qe_jobId :: string
  qe_retryCount :: nat

definition enqueueTaskWithTrace ::
  "trace_context option \<Rightarrow> string \<Rightarrow> jsnum \<Rightarrow> jsnum \<Rightarrow> string \<Rightarrow> string \<Rightarrow> js \<Rightarrow> string + queue_envelope" where
  "enqueueTaskWithTrace current childSpanId now enqueuedAt jobId queueName payload =
     (case current of
        None \<Rightarrow> Inl (''enqueueTaskWithTrace called without parent trace context. Ensure mutation runs within trace boundary.'')
      | Some parent \<Rightarrow>
          Inr \<lparr>qe_payload = payload,
            qe_traceContext = serializeTraceContextToPayload (createChildSpan childSpanId now parent (child_of (''queue:'' @ queueName))),
            qe_enqueuedAt = enqueuedAt, qe_jobId = jobId, qe_retryCount = 0\<rparr>)"

definition span_success :: "lifecycle_state option \<Rightarrow> span_options" where
  "span_success previous =
     \<lparr>so_status = Some ''success'', so_errorCode = None, so_errorMessage = None, so_durationMs = None, so_previousState = previous\<rparr>"

definition span_failure :: "string \<Rightarrow> string \<Rightarrow> op_error \<Rightarrow> span_options" where
  "span_failure status code e =
     \<lparr>so_status = Some status, so_errorCode = Some code, so_errorMessage = oe_message e, so_durationMs = None, so_previousState = None\<rparr>"

definition code_or :: "string \<Rightarrow> op_error \<Rightarrow> string" where
  "code_or d e = (case oe_code e of None \<Rightarrow> d | Some c \<Rightarrow> c)"

text \<open>
  The two recordings of a wrapper, after a success and in its handler, each with the state of the connection
  and the clock. An error while a success is recorded goes to the handler too.
\<close>

record recordings =
  rg_success :: db_io
  rg_successAt :: jsnum
  rg_failure :: db_io
  rg_failureAt :: jsnum

definition record_failed ::
  "trace_schema \<Rightarrow> recordings \<Rightarrow> trace_context \<Rightarrow> lifecycle_state \<Rightarrow> string \<Rightarrow> op_error \<Rightarrow> trace_db \<Rightarrow> trace_db \<times> (op_error + 'r)" where
  "record_failed sc rg c st defaultCode e db =
     (case recordSpanEvent sc (rg_failure rg) (rg_failureAt rg) c st (span_failure ''error'' (code_or defaultCode e) e) db of
        (db2, res) \<Rightarrow> (db2, Inl (case res of Threw e2 \<Rightarrow> e2 | _ \<Rightarrow> e)))"

definition run_recorded ::
  "trace_schema \<Rightarrow> recordings \<Rightarrow> trace_context \<Rightarrow> lifecycle_state \<Rightarrow> string \<Rightarrow> op_error + 'r \<Rightarrow> trace_db \<Rightarrow> trace_db \<times> (op_error + 'r)" where
  "run_recorded sc rg c st defaultCode outcome db =
     (case outcome of
        Inl e \<Rightarrow> record_failed sc rg c st defaultCode e db
      | Inr r \<Rightarrow>
          (case recordSpanEvent sc (rg_success rg) (rg_successAt rg) c st (span_success None) db of
             (db1, res) \<Rightarrow> (case res of Threw e \<Rightarrow> record_failed sc rg c st defaultCode e db1 | _ \<Rightarrow> (db1, Inr r))))"

definition processQueueJobWithTrace ::
  "trace_schema \<Rightarrow> recordings \<Rightarrow> string \<Rightarrow> jsnum \<Rightarrow> queue_envelope \<Rightarrow> (js \<Rightarrow> trace_context \<Rightarrow> op_error + 'r) \<Rightarrow> trace_db \<Rightarrow>
     trace_db \<times> (op_error + 'r)" where
  "processQueueJobWithTrace sc rg childSpanId now envelope workerFn db =
     (let parent = deserializeTraceContextFromPayload (qe_traceContext envelope);
          child = createChildSpan childSpanId now parent (child_of ''worker:process'')
      in run_recorded sc rg child QUERY_REFETCHED ''UNKNOWN'' (workerFn (qe_payload envelope) child) db)"

definition no_context :: "string \<Rightarrow> op_error" where
  "no_context name = \<lparr>oe_code = None, oe_message = Some (name @ '' called without parent trace context'')\<rparr>"

definition executeInTransactionWithTrace ::
  "trace_schema \<Rightarrow> recordings \<Rightarrow> string \<Rightarrow> jsnum \<Rightarrow> trace_context option \<Rightarrow> (trace_context \<Rightarrow> op_error + 'r) \<Rightarrow> trace_db \<Rightarrow>
     trace_db \<times> (op_error + 'r)" where
  "executeInTransactionWithTrace sc rg childSpanId now current body db =
     (case current of
        None \<Rightarrow> (db, Inl (no_context ''executeInTransactionWithTrace''))
      | Some parent \<Rightarrow>
          (let txn = createChildSpan childSpanId now parent (child_of ''db:transaction'')
           in run_recorded sc rg txn STATE_PERSISTED ''TRANSACTION_FAILED'' (body txn) db))"

text \<open>One attempt: its spans for the call and for the handler, the clock, the recordings and the outcome.\<close>

record 'r attempt =
  at_span :: string
  at_now :: jsnum
  at_failedSpan :: string
  at_failedNow :: jsnum
  at_recordings :: recordings
  at_outcome :: "op_error + 'r"

definition retry_child :: "string \<Rightarrow> jsnum \<Rightarrow> trace_context \<Rightarrow> string \<Rightarrow> nat \<Rightarrow> trace_context" where
  "retry_child childSpanId now parent ending n =
     createChildSpan childSpanId now parent
       \<lparr>co_spanName = Some (''retry:'' @ nat_str n @ ending), co_parentSpanId = None, co_retryAttempt = Some (Fin (of_nat n)), co_metadata = []\<rparr>"

definition attempt_succeeds :: "trace_schema \<Rightarrow> trace_context \<Rightarrow> nat \<Rightarrow> 'r attempt \<Rightarrow> trace_db \<Rightarrow> trace_db \<times> (op_error + 'r)" where
  "attempt_succeeds sc parent n a db =
     (case at_outcome a of
        Inl e \<Rightarrow> (db, Inl e)
      | Inr r \<Rightarrow>
          (case recordSpanEvent sc (rg_success (at_recordings a)) (rg_successAt (at_recordings a))
             (retry_child (at_span a) (at_now a) parent [] n) API_ACCEPTED
             (span_success (Some (if n = 0 then INTENT_RECEIVED else QUERY_INVALIDATED))) db of
             (db1, res) \<Rightarrow> (case res of Threw e \<Rightarrow> (db1, Inl e) | _ \<Rightarrow> (db1, Inr r))))"

definition attempt_failed :: "trace_schema \<Rightarrow> trace_context \<Rightarrow> nat \<Rightarrow> 'r attempt \<Rightarrow> bool \<Rightarrow> op_error \<Rightarrow> trace_db \<Rightarrow> trace_db \<times> record_result" where
  "attempt_failed sc parent n a lastAttempt e db =
     recordSpanEvent sc (rg_failure (at_recordings a)) (rg_failureAt (at_recordings a))
       (retry_child (at_failedSpan a) (at_failedNow a) parent '':failed'' n) API_ACCEPTED
       (if lastAttempt then span_failure ''error'' ''MAX_RETRIES_EXCEEDED'' e else span_failure ''timeout'' ''RETRY_ATTEMPT'' e) db"

fun retry_loop ::
  "trace_schema \<Rightarrow> trace_context \<Rightarrow> (nat \<Rightarrow> 'r attempt) \<Rightarrow> int \<Rightarrow> nat \<Rightarrow> nat \<Rightarrow> trace_db \<Rightarrow> trace_db \<times> (op_error + 'r) \<times> nat list" where
  "retry_loop sc parent attempts maxRetries n 0 db = (db, Inl \<lparr>oe_code = None, oe_message = Some ''Unreachable''\<rparr>, [])"
| "retry_loop sc parent attempts maxRetries n (Suc k) db =
     (case attempt_succeeds sc parent n (attempts n) db of
        (db1, Inr r) \<Rightarrow> (db1, Inr r, [n])
      | (db1, Inl e) \<Rightarrow>
          (case attempt_failed sc parent n (attempts n) (int n = maxRetries) e db1 of
             (db2, res) \<Rightarrow>
               (case res of
                  Threw e2 \<Rightarrow> (db2, Inl e2, [n])
                | _ \<Rightarrow>
                    if int n = maxRetries then (db2, Inl e, [n])
                    else (case retry_loop sc parent attempts maxRetries (n + 1) k db2 of (db3, r, runs) \<Rightarrow> (db3, r, n # runs)))))"

text \<open>The last component is the list of the attempts that called the operation.\<close>

definition executeWithRetryTrace ::
  "trace_schema \<Rightarrow> trace_context option \<Rightarrow> (nat \<Rightarrow> 'r attempt) \<Rightarrow> int option \<Rightarrow> trace_db \<Rightarrow> trace_db \<times> (op_error + 'r) \<times> nat list" where
  "executeWithRetryTrace sc current attempts maxRetries db =
     (case current of
        None \<Rightarrow> (db, Inl (no_context ''executeWithRetryTrace''), [])
      | Some parent \<Rightarrow>
          (let m = (case maxRetries of None \<Rightarrow> 3 | Some x \<Rightarrow> x) in retry_loop sc parent attempts m 0 (nat (m + 1)) db))"

text \<open>Events of a stream, with the two JSON texts they carry.\<close>

definition newline :: string where
  "newline = [CHR 0x0A]"

definition formatSSEEventForTransmission :: "string \<Rightarrow> string \<Rightarrow> string \<Rightarrow> string" where
  "formatSSEEventForTransmission traceText event dataText =
     join newline ['': trace='' @ traceText, ''event: '' @ event, ''data: '' @ dataText, []]"

definition sse_line :: "string \<Rightarrow> string option \<times> string option \<Rightarrow> string option \<times> string option" where
  "sse_line line acc =
     (if prefix '': trace='' line then (Some (drop 8 line), snd acc)
      else if prefix ''data: '' line then (fst acc, Some (drop 6 line)) else acc)"

definition extractTraceContextFromSSEEvent :: "string \<Rightarrow> string option \<times> string option" where
  "extractTraceContextFromSSEEvent raw = fold sse_line (split_on (CHR 0x0A) (trim raw)) (None, None)"

section \<open>The middleware\<close>

definition is_hex :: "char \<Rightarrow> bool" where
  "is_hex c = (radix_digit c \<noteq> None)"

definition parseTraceparent :: "string option \<Rightarrow> (string \<times> string) option" where
  "parseTraceparent header =
     (case header of
        None \<Rightarrow> None
      | Some s \<Rightarrow>
          if \<not> prefix ''00-'' s then None
          else (case split_on (CHR ''-'') s of
              [_, traceId, spanId, _] \<Rightarrow>
                if length traceId = 32 \<and> list_all is_hex traceId \<and> length spanId = 16 \<and> list_all is_hex spanId
                then Some (traceId, spanId) else None
            | _ \<Rightarrow> None))"

definition pad_end :: "nat \<Rightarrow> string \<Rightarrow> string" where
  "pad_end n s = s @ replicate (n - length s) (CHR ''0'')"

definition pad_start :: "nat \<Rightarrow> string \<Rightarrow> string" where
  "pad_start n s = replicate (n - length s) (CHR ''0'') @ s"

definition local_span :: "nat \<Rightarrow> string" where
  "local_span now = pad_end 16 (take 16 (''spn'' @ nat_str now))"

fun hex_str :: "nat \<Rightarrow> string" where
  "hex_str n = (if n < 16 then [hex_digit n] else hex_str (n div 16) @ [hex_digit (n mod 16)])"

declare hex_str.simps [simp del]

definition generateTraceIds :: "nat \<Rightarrow> string \<Rightarrow> string \<times> string" where
  "generateTraceIds now random =
     (pad_end 32 (take 32 (pad_start 16 (hex_str now) @ pad_start 8 (take 8 (drop 2 random)))), local_span now)"

record request_headers =
  rh_traceparent :: "string option"
  rh_correlation :: "string option"
  rh_executionContext :: "string option"
  rh_executionClass :: "string option"

record request_context =
  rc_traceId :: string
  rc_spanId :: string
  rc_parentSpanId :: "string option"
  rc_correlationId :: string
  rc_executionContext :: string
  rc_executionClass :: string
  rc_topologyHash :: string
  rc_timestamp :: nat

definition text_or :: "string \<Rightarrow> string option \<Rightarrow> string" where
  "text_or d v = (case v of Some s \<Rightarrow> if s = [] then d else s | None \<Rightarrow> d)"

definition governanceTraceMiddleware :: "string \<Rightarrow> nat \<Rightarrow> string \<Rightarrow> request_headers \<Rightarrow> request_context" where
  "governanceTraceMiddleware topology now random h =
     (let parsed = parseTraceparent (rh_traceparent h)
      in \<lparr>rc_traceId = (case parsed of Some p \<Rightarrow> fst p | None \<Rightarrow> fst (generateTraceIds now random)), rc_spanId = local_span now,
          rc_parentSpanId = map_option snd parsed, rc_correlationId = text_or (''corr_'' @ nat_str now) (rh_correlation h),
          rc_executionContext = text_or ''PRODUCTION'' (rh_executionContext h),
          rc_executionClass = text_or ''DIRECT_MUTATION'' (rh_executionClass h), rc_topologyHash = topology, rc_timestamp = now\<rparr>)"

section \<open>Reading back what was written\<close>


















section \<open>What is recorded where\<close>

lemma record_production: "tc_executionContext c = Some ''PRODUCTION'' \<Longrightarrow> td_journal (fst (recordSpanEvent sc io now c st opts db)) = td_journal db"
  by (auto simp: recordSpanEvent_def split: option.splits)

lemma record_elsewhere: "tc_executionContext c \<noteq> Some ''PRODUCTION'' \<Longrightarrow> td_events (fst (recordSpanEvent sc io now c st opts db)) = td_events db"
  by (auto simp: recordSpanEvent_def recordSimulationSpanEvent_def Let_def split: option.splits)

text \<open>
  a span outside production never enters the events of production, except for the assertion of the
  final state, which is written there in every context: with the tables of the container one whose columns
  fit does enter.
\<close>

theorem simulation_reaches_production:
  assumes "tc_executionContext c = Some ctx" "ctx \<noteq> ''PRODUCTION''" "length ctx \<le> 30"
    and "tc_correlationId c = Some corr" "length corr \<le> 64" "length (tc_traceId c) \<le> 32" "length (tc_spanId c) \<le> 16"
    and "tc_parentSpanId c = None" "io_connects io" "io_writes io"
  shows "td_events (fst (recordSpanEvent sc io now c st opts db)) = td_events db \<and>
    (\<exists>e. le_context e = ctx \<and> td_events (fst (verifyTerminalState CONTAINER_SCHEMA io c h h db)) = td_events db @ [e])"
proof
  show "td_events (fst (recordSpanEvent sc io now c st opts db)) = td_events db"
    using assms by (intro record_elsewhere) simp
  obtain e where e: "verified_row c h = Some e" "le_context e = ctx" "event_accepted CONTAINER_SCHEMA e"
    using assms by (simp add: verified_row_def event_accepted_def span_columns_fit_def CONTAINER_SCHEMA_def fits_in_def)
  then show "\<exists>e. le_context e = ctx \<and> td_events (fst (verifyTerminalState CONTAINER_SCHEMA io c h h db)) = td_events db @ [e]"
    using assms by (intro exI [of _ e]) (simp add: verifyTerminalState_def)
qed

text \<open>With the tables of the migrations no final state is ever verified.\<close>

lemma migrated_never_verified: "verifyTerminalState MIGRATED_SCHEMA io c h h' db = (db, r) \<Longrightarrow> r \<noteq> Verified"
  by (auto simp: verifyTerminalState_def verified_row_def event_accepted_def MIGRATED_SCHEMA_def split: if_splits option.splits)

text \<open>The insertion of coherence metrics names a column the table lacks and leaves out one it requires.\<close>

lemma coherence_never_recorded: "fst (recordCacheCoherenceMetrics (COHERENCE_COLUMNS @ COHERENCE_EXTENSION) io c m) \<noteq> Was_recorded"
proof -
  have "\<not> insert_accepted (COHERENCE_COLUMNS @ COHERENCE_EXTENSION) COHERENCE_INSERT" by code_simp
  then show ?thesis by (simp add: recordCacheCoherenceMetrics_def)
qed

section \<open>Spans of children\<close>

text \<open>A path of spans, each created in the context of the one before.\<close>

fun descend :: "trace_context \<Rightarrow> (string \<times> jsnum \<times> child_options) list \<Rightarrow> trace_context list" where
  "descend c [] = [c]"
| "descend c ((i, t, opts) # xs) = c # descend (createChildSpan i t c opts) xs"

fun linked :: "trace_context list \<Rightarrow> bool" where
  "linked (a # b # cs) = (tc_parentSpanId b = Some (tc_spanId a) \<and> tc_parentCreatedAt b = Some (tc_createdAt a) \<and> linked (b # cs))"
| "linked _ = True"

lemma child_keeps [simp]:
  "tc_traceId (createChildSpan i t c opts) = tc_traceId c" "tc_correlationId (createChildSpan i t c opts) = tc_correlationId c"
  "tc_executionContext (createChildSpan i t c opts) = tc_executionContext c" "tc_spanId (createChildSpan i t c opts) = i"
  "tc_sessionId (createChildSpan i t c opts) = tc_sessionId c" "tc_sampled (createChildSpan i t c opts) = tc_sampled c"
  "tc_recorded (createChildSpan i t c opts) = tc_recorded c" "tc_parentSpanId (createChildSpan i t c opts) = Some (tc_spanId c)"
  "tc_createdAt (createChildSpan i t c opts) = t" "tc_parentCreatedAt (createChildSpan i t c opts) = Some (tc_createdAt c)"
  by (simp_all add: createChildSpan_def)

lemma descend_hd: "\<exists>cs. descend c xs = c # cs"
  by (cases "(c, xs)" rule: descend.cases) auto

text \<open>
  along any path of child spans every span names the one before as its parent, with its time, and all
  of them carry the trace, correlation, session, flags and execution context of the first; the parent an
  option names is ignored.
\<close>

theorem lineage_unbroken:
  "linked (descend c xs) \<and>
   list_all (\<lambda>d. tc_traceId d = tc_traceId c \<and> tc_correlationId d = tc_correlationId c \<and> tc_sessionId d = tc_sessionId c \<and>
     tc_sampled d = tc_sampled c \<and> tc_recorded d = tc_recorded c \<and> tc_executionContext d = tc_executionContext c) (descend c xs)"
proof (induction c xs rule: descend.induct)
  case (2 c i t opts xs)
  obtain cs where "descend (createChildSpan i t c opts) xs = createChildSpan i t c opts # cs" using descend_hd by blast
  then show ?case using 2 by simp
qed simp

section \<open>Retries\<close>

text \<open>A context that the journal does not take: the insertion fails and the error is not caught.\<close>

definition unjournaled :: "trace_schema \<Rightarrow> trace_context \<Rightarrow> bool" where
  "unjournaled sc c =
     (tc_executionContext c \<noteq> Some ''PRODUCTION'' \<and>
      (case (sc_journal sc, tc_executionContext c) of (Some cs, Some ctx) \<Rightarrow> ctx \<notin> set cs | _ \<Rightarrow> True))"

lemma unjournaled_throws: "unjournaled sc c \<Longrightarrow> recordSpanEvent sc io now c st opts db = (db, Threw (io_error io))"
  by (auto simp: unjournaled_def recordSpanEvent_def recordSimulationSpanEvent_def span_row_def journal_accepted_def Let_def
      split: option.splits)

lemma unjournaled_child: "unjournaled sc c \<Longrightarrow> unjournaled sc (createChildSpan i t c opts)"
  by (simp add: unjournaled_def)

text \<open>
  C40: in a context the journal does not take, such as a replay with the tables of the container or anything but
  production with those of the migrations, an operation is carried out once and then reported as failed, with
  the error of the recording, whatever it returned; it is never repeated.
\<close>

theorem unjournaled_context_fails:
  assumes "unjournaled sc parent" "0 \<le> maxRetries"
  shows "executeWithRetryTrace sc (Some parent) attempts (Some maxRetries) db =
    (db, Inl (io_error (rg_failure (at_recordings (attempts 0)))), [0])"
proof -
  have k: "nat (maxRetries + 1) = Suc (nat maxRetries)" using assms(2) by simp
  obtain e where "attempt_succeeds sc parent 0 (attempts 0) db = (db, Inl e)"
    by (cases "at_outcome (attempts 0)")
      (simp_all add: attempt_succeeds_def retry_child_def unjournaled_throws [OF unjournaled_child [OF assms(1)]])
  moreover have "attempt_failed sc parent 0 (attempts 0) lst e db = (db, Threw (io_error (rg_failure (at_recordings (attempts 0)))))" for lst
    by (simp add: attempt_failed_def retry_child_def unjournaled_throws [OF unjournaled_child [OF assms(1)]])
  ultimately show ?thesis by (simp add: executeWithRetryTrace_def Let_def k)
qed

lemma retry_loop_runs:
  "retry_loop sc parent attempts m n k db = (db', res, runs) \<Longrightarrow>
    (\<exists>j\<le>k. runs = [n..<n + j] \<and> (\<forall>r. res = Inr r \<longrightarrow> 0 < j \<and> at_outcome (attempts (n + j - 1)) = Inr r))"
proof (induction sc parent attempts m n k db arbitrary: db' res runs rule: retry_loop.induct)
  case (2 sc parent attempts m n k db)
  obtain db1 r1 where s: "attempt_succeeds sc parent n (attempts n) db = (db1, r1)" by force
  show ?case
  proof (cases r1)
    case (Inr r)
    then have "at_outcome (attempts n) = Inr r"
      using s by (auto simp: attempt_succeeds_def split: sum.splits prod.splits record_result.splits)
    then show ?thesis using "2.prems" s Inr by (intro exI [of _ 1]) auto
  next
    case (Inl e)
    obtain db2 res2 where f: "attempt_failed sc parent n (attempts n) (int n = m) e db1 = (db2, res2)" by force
    show ?thesis
    proof (cases "int n = m \<or> (\<exists>e2. res2 = Threw e2)")
      case True
      then show ?thesis using "2.prems" s Inl f by (intro exI [of _ 1]) (auto split: record_result.splits)
    next
      case False
      obtain db3 r3 runs3 where t: "retry_loop sc parent attempts m (n + 1) k db2 = (db3, r3, runs3)" by (metis prod_cases3)
      have eq: "runs = n # runs3" "res = r3" using "2.prems" s Inl f t False by (auto split: record_result.splits)
      obtain j where j: "j \<le> k" "runs3 = [n + 1..<n + 1 + j]"
        "\<forall>r. r3 = Inr r \<longrightarrow> 0 < j \<and> at_outcome (attempts (n + 1 + j - 1)) = Inr r"
        using "2.IH" [OF s [symmetric] Inl f [symmetric]] t False by (cases res2) auto
      have "runs = [n..<n + Suc j]" using j(2) eq by (simp add: upt_rec)
      then show ?thesis using j eq by (intro exI [of _ "Suc j"]) auto
    qed
  qed
qed simp

text \<open>
  A retried operation is called for the attempts from zero on, at most one more than the retries, and a
  result that is returned is that of the last call.
\<close>

theorem retry_returns_last:
  "case executeWithRetryTrace sc current attempts maxRetries db of
     (db', res, runs) \<Rightarrow> \<exists>j. int j \<le> max 0 ((case maxRetries of None \<Rightarrow> 3 | Some m \<Rightarrow> m) + 1) \<and> runs = [0..<j] \<and>
       (\<forall>r. res = Inr r \<longrightarrow> 0 < j \<and> at_outcome (attempts (j - 1)) = Inr r)"
proof (cases current)
  case None
  then show ?thesis by (auto simp: executeWithRetryTrace_def intro!: exI [of _ 0])
next
  case (Some parent)
  let ?m = "case maxRetries of None \<Rightarrow> 3 | Some m \<Rightarrow> m"
  obtain db' res runs where l: "retry_loop sc parent attempts ?m 0 (nat (?m + 1)) db = (db', res, runs)" by (metis prod_cases3)
  then obtain j where j: "j \<le> nat (?m + 1)" "runs = [0..<j]" "\<forall>r. res = Inr r \<longrightarrow> 0 < j \<and> at_outcome (attempts (j - 1)) = Inr r"
    using retry_loop_runs [OF l] by auto
  have e: "executeWithRetryTrace sc current attempts maxRetries db = (db', res, runs)"
    using l by (simp add: executeWithRetryTrace_def Some Let_def)
  have b: "int j \<le> max 0 (?m + 1)" using j(1) by linarith
  show ?thesis unfolding e prod.case using j(2,3) b by blast
qed

text \<open>
  an operation that succeeded is carried out again when no connection was free to record its success.
\<close>

theorem success_repeated:
  assumes "tc_executionContext parent = Some ''PRODUCTION''" "1 \<le> maxRetries" "at_outcome (attempts 0) = Inr r"
    and "\<not> io_connects (rg_success (at_recordings (attempts 0)))" "io_connects (rg_failure (at_recordings (attempts 0)))"
  shows "case executeWithRetryTrace sc (Some parent) attempts (Some maxRetries) db of (db', res, runs) \<Rightarrow> {0, 1} \<subseteq> set runs"
proof -
  have k: "nat (maxRetries + 1) = Suc (Suc (nat (maxRetries - 1)))" using assms(2) by simp
  have s: "attempt_succeeds sc parent 0 (attempts 0) db = (db, Inl (io_error (rg_success (at_recordings (attempts 0)))))"
    using assms by (simp add: attempt_succeeds_def recordSpanEvent_def retry_child_def)
  obtain db2 res2 where f: "attempt_failed sc parent 0 (attempts 0) False (io_error (rg_success (at_recordings (attempts 0)))) db = (db2, res2)"
    by force
  have n: "\<nexists>e. res2 = Threw e"
    using f assms by (auto simp: attempt_failed_def recordSpanEvent_def retry_child_def split: option.splits if_splits)
  obtain db3 r3 runs3 where t: "retry_loop sc parent attempts maxRetries 1 (Suc (nat (maxRetries - 1))) db2 = (db3, r3, runs3)"
    by (metis prod_cases3)
  have "runs3 \<noteq> []"
    using t by (auto split: prod.splits sum.splits record_result.splits if_splits)
  moreover obtain j where "runs3 = [1..<1 + j]" using retry_loop_runs [OF t] by blast
  ultimately have "1 \<in> set runs3" by (cases j) auto
  moreover have "executeWithRetryTrace sc (Some parent) attempts (Some maxRetries) db = (db3, r3, 0 # runs3)"
    using s f n t assms(2) by (cases res2) (simp_all add: executeWithRetryTrace_def Let_def k del: retry_loop.simps(1))
  ultimately show ?thesis by simp
qed

section \<open>Streams and the middleware\<close>

text \<open>
  the client of a stream reads back both JSON texts of an event whose parts have no line break.
\<close>

theorem sse_roundtrip:
  assumes "CHR 0x0A \<notin> set t" "CHR 0x0A \<notin> set e" "CHR 0x0A \<notin> set d" "d \<noteq> []" "\<not> is_space (last d)"
  shows "extractTraceContextFromSSEEvent (formatSSEEventForTransmission t e d) = (Some t, Some d)"
proof -
  let ?ls = "['': trace='' @ t, ''event: '' @ e, ''data: '' @ d]"
  have f: "formatSSEEventForTransmission t e d = join newline ?ls @ newline"
    by (simp add: formatSSEEventForTransmission_def)
  have last: "last (join newline ?ls) = last d" "hd (join newline ?ls) = CHR '':''" using assms(4) by simp_all
  have "trim_start (join newline ?ls @ newline) = join newline ?ls @ newline" by (simp add: trim_start_def is_space_def)
  moreover have "trim_start (rev (join newline ?ls @ newline)) = trim_start (rev (join newline ?ls))"
    by (simp add: trim_start_def newline_def is_space_def)
  moreover have "trim_start (rev (join newline ?ls)) = rev (join newline ?ls)"
    using last(1) assms(5) by (cases "rev (join newline ?ls)") (simp_all add: trim_start_def flip: hd_rev)
  ultimately have "trim (formatSSEEventForTransmission t e d) = join newline ?ls" by (simp add: f trim_def)
  moreover have "split_on (CHR 0x0A) (join newline ?ls) = ?ls"
    unfolding newline_def by (rule split_on_join) (use assms in auto)
  ultimately show ?thesis by (simp add: extractTraceContextFromSSEEvent_def sse_line_def)
qed

lemma split_on_length: "length (split_on d s) = Suc (length (filter (\<lambda>c. c = d) s))"
  by (induction s) (auto split: list.split)

lemma split_on_first: "c \<noteq> d \<Longrightarrow> \<exists>t ts. split_on d (c # s) = (c # t) # ts"
  by (cases "split_on d s") auto

lemma local_span_first: "\<exists>u. local_span now = CHR ''s'' # u"
  by (simp add: local_span_def pad_end_def)

text \<open>
  the middleware gives every request a span that the same middleware, in the next service, does not read:
  a header with such a span is refused, whatever trace and flags it has, and the trace is broken there.
\<close>

theorem own_spans_refused: "parseTraceparent (Some (''00-'' @ traceId @ ''-'' @ local_span now @ ''-'' @ flags)) = None"
proof -
  obtain u where u: "local_span now = CHR ''s'' # u" using local_span_first by blast
  let ?h = "''00-'' @ traceId @ ''-'' @ local_span now @ ''-'' @ flags"
  have "\<not> is_hex (CHR ''s'')" by code_simp
  then have no: "split_on (CHR ''-'') ?h = [v, a, b, f] \<Longrightarrow> \<not> list_all is_hex b" for v a b f
  proof (cases "CHR ''-'' \<in> set traceId")
    case True
    then have "0 < length (filter (\<lambda>c. c = CHR ''-'') traceId)" by (auto simp: filter_empty_conv)
    moreover assume "split_on (CHR ''-'') ?h = [v, a, b, f]"
    then have "length (split_on (CHR ''-'') ?h) = 4" by simp
    ultimately show ?thesis unfolding split_on_length by simp
  next
    case False
    have "CHR ''s'' \<noteq> CHR ''-''" by simp
    then obtain t ts where "split_on (CHR ''-'') (CHR ''s'' # u @ ''-'' @ flags) = (CHR ''s'' # t) # ts"
      using split_on_first by blast
    moreover have "split_on (CHR ''-'') ?h = ''00'' # traceId # split_on (CHR ''-'') (CHR ''s'' # u @ ''-'' @ flags)"
      using split_on_append [of "CHR ''-''" "''00''"] split_on_append [OF False, of "CHR ''s'' # u @ ''-'' @ flags"] by (simp add: u)
    moreover assume "split_on (CHR ''-'') ?h = [v, a, b, f]" "\<not> is_hex (CHR ''s'')"
    ultimately show ?thesis by auto
  qed
  show ?thesis
  proof (rule ccontr)
    assume "parseTraceparent (Some ?h) \<noteq> None"
    then obtain v a b f where "split_on (CHR ''-'') ?h = [v, a, b, f]" "list_all is_hex b"
      by (auto simp: parseTraceparent_def split: list.splits if_splits)
    then show False using no by blast
  qed
qed

section \<open>The properties at concrete inputs\<close>

definition sample_trace :: trace_context where
  "sample_trace =
     \<lparr>tc_traceId = ''4bf92f3577b34da6a3ce929d0e0e4736'', tc_spanId = ''00f067aa0ba902b7'', tc_parentSpanId = None, tc_sampled = True,
      tc_recorded = True, tc_correlationId = Some ''corr_1_ab'', tc_sessionId = None, tc_executionContext = Some ''REPLAY'',
      tc_metadata = [], tc_createdAt = Fin 0, tc_parentCreatedAt = None, tc_causalParentId = None,
      tc_retryCount = Some (Fin (of_nat 2)), tc_retryParentSpanId = None\<rparr>"

definition sample_io :: "bool \<Rightarrow> db_io" where
  "sample_io b = \<lparr>io_connects = b, io_writes = b, io_error = \<lparr>oe_code = Some ''23514'', oe_message = None\<rparr>\<rparr>"

definition sample_attempt :: "bool \<Rightarrow> nat attempt" where
  "sample_attempt b =
     \<lparr>at_span = ''00f067aa0ba902b8'', at_now = Fin 1, at_failedSpan = ''00f067aa0ba902b9'', at_failedNow = Fin 2,
      at_recordings = \<lparr>rg_success = sample_io b, rg_successAt = Fin 3, rg_failure = sample_io True, rg_failureAt = Fin 4\<rparr>,
      at_outcome = Inr 7\<rparr>"

definition no_events :: trace_db where
  "no_events = \<lparr>td_events = [], td_journal = []\<rparr>"


theorem simulation_reaches_production_witness:
  "td_events (fst (recordSpanEvent CONTAINER_SCHEMA (sample_io True) (Fin 5) sample_trace API_ACCEPTED (span_success None) no_events)) = []"
  using simulation_reaches_production [of sample_trace "''REPLAY''" "''corr_1_ab''" "sample_io True" CONTAINER_SCHEMA "Fin 5" API_ACCEPTED
      "span_success None" no_events]
  by (simp add: sample_trace_def sample_io_def no_events_def)

theorem unjournaled_context_fails_witness:
  "snd (snd (executeWithRetryTrace CONTAINER_SCHEMA (Some sample_trace) (\<lambda>n. sample_attempt True) (Some 3) no_events)) = [0]"
proof -
  have "unjournaled CONTAINER_SCHEMA sample_trace" by (simp add: unjournaled_def CONTAINER_SCHEMA_def sample_trace_def)
  then show ?thesis by (simp add: unjournaled_context_fails)
qed

theorem success_repeated_witness:
  "1 \<in> set (snd (snd (executeWithRetryTrace CONTAINER_SCHEMA (Some (sample_trace\<lparr>tc_executionContext := Some ''PRODUCTION''\<rparr>))
     (\<lambda>n. sample_attempt False) (Some 3) no_events)))"
  using success_repeated [of "sample_trace\<lparr>tc_executionContext := Some ''PRODUCTION''\<rparr>" 3 "\<lambda>n. sample_attempt False" 7 CONTAINER_SCHEMA no_events]
  by (simp add: sample_attempt_def sample_io_def split: prod.splits)

theorem sse_roundtrip_witness:
  "extractTraceContextFromSSEEvent (formatSSEEventForTransmission ''{}'' ''update'' ''[1]'') = (Some ''{}'', Some ''[1]'')"
  by (rule sse_roundtrip) (simp_all add: is_space_def)

text \<open>A comma in a correlation adds a member: the trace of a production request goes on as a simulation.\<close>

lemma correlation_injects_context:
  "ws_exec (read_tracestate fresh (Some (join '','' (tracestate_members (sample_trace\<lparr>tc_executionContext := Some ''PRODUCTION'',
     tc_correlationId := Some ''x,exec=SIMULATION'', tc_retryCount := None\<rparr>))))) = Some ''SIMULATION''"
  by (simp add: tracestate_members_def template_def read_tracestate_def read_pair_def Let_def trim_def trim_start_def is_space_def)

end
