(* ===== verification/Ledger.thy ===== *)
theory Ledger
  imports JsValue
begin

text \<open>
  The ledger of pipeline runs: \<open>apps/web/lib/pipeline-ledger-service.ts\<close>, which the refresh endpoint uses, its
  twin \<open>apps/api/services/pipeline-ledger-service.ts\<close>, which the worker \<open>docker/worker.ts\<close> uses, over the tables
  of \<open>infrastructure/migrations/131_pipeline_ledger_core.sql\<close> and \<open>204a_snapshot_source_separation.sql\<close>, and the
  lifecycle \<open>apps/web/lib/pipeline-lifecycle.ts\<close>. Times are milliseconds. Failures of the database other than
  violated constraints are arguments.
\<close>

section \<open>Tables\<close>

datatype run_status = PENDING | RUNNING | FAILED | SUCCEEDED

record run_versions =
  rv_pipeline :: string
  rv_model :: string
  rv_prompt :: string
  rv_query :: string

record run_metrics =
  rm_modelName :: "string option"
  rm_latencyMs :: "nat option"
  rm_tokensIn :: "nat option"
  rm_tokensOut :: "nat option"
  rm_batchCount :: "nat option"

record run_hashes =
  rh_source :: string
  rh_snapshot :: string
  rh_decision :: "string option"
  rh_execution :: string

record pipeline_run =
  pr_runId :: string
  pr_snapshotId :: string
  pr_tenantId :: string
  pr_status :: run_status
  pr_published :: bool
  pr_hash :: "string option"
  pr_startedAt :: int
  pr_publishedAt :: "int option"
  pr_superseded :: "string option"
  pr_versions :: run_versions
  pr_error :: "string option"
  pr_metrics :: run_metrics
  pr_hashes :: "run_hashes option"

datatype snapshot_source = Splunk_live | Csv_analytics

record snapshot_pointer =
  sp_tenant :: string
  sp_source :: snapshot_source
  sp_run :: string
  sp_snapshot :: string
  sp_updatedAt :: int

datatype stage = SPLUNK_FETCH | SNAPSHOT_WRITE | KPI_AGGREGATION | AI_DECISIONS | GOVERNANCE_SYNC | PUBLISH

datatype stage_status = IN_PROGRESS | Stage_SUCCESS | Stage_FAILED | HEARTBEAT

record stage_event =
  se_run :: string
  se_stage :: stage
  se_attempt :: nat
  se_status :: stage_status
  se_completedAt :: "int option"
  se_records :: nat
  se_metadata :: "string option"
  se_error :: "string option"
  se_requestId :: "string option"
  se_errorType :: "string option"
  se_errorCode :: "string option"

record ledger =
  lg_runs :: "pipeline_run list"
  lg_pointers :: "snapshot_pointer list"
  lg_events :: "stage_event list"

definition find_run :: "string \<Rightarrow> ledger \<Rightarrow> pipeline_run option" where
  "find_run i lg = find (\<lambda>r. pr_runId r = i) (lg_runs lg)"

definition find_pointer :: "string \<Rightarrow> snapshot_source \<Rightarrow> ledger \<Rightarrow> snapshot_pointer option" where
  "find_pointer tenant source lg = find (\<lambda>p. sp_tenant p = tenant \<and> sp_source p = source) (lg_pointers lg)"

definition update_runs :: "(pipeline_run \<Rightarrow> bool) \<Rightarrow> (pipeline_run \<Rightarrow> pipeline_run) \<Rightarrow> ledger \<Rightarrow> ledger" where
  "update_runs P f lg = lg\<lparr>lg_runs := map (\<lambda>r. if P r then f r else r) (lg_runs lg)\<rparr>"

section \<open>Starting a run\<close>

definition idempotency_text :: "string \<Rightarrow> string \<Rightarrow> string \<Rightarrow> string" where
  "idempotency_text tenant trigger window = tenant @ '':'' @ window @ '':'' @ trigger"

definition buildIdempotencyHash :: "(string \<Rightarrow> string) \<Rightarrow> string \<Rightarrow> string \<Rightarrow> string \<Rightarrow> string" where
  "buildIdempotencyHash sha256 tenant trigger window = sha256 (idempotency_text tenant trigger window)"

definition live :: "pipeline_run \<Rightarrow> bool" where
  "live r = (pr_status r = PENDING \<or> pr_status r = RUNNING)"

definition stale :: "int \<Rightarrow> nat \<Rightarrow> pipeline_run \<Rightarrow> bool" where
  "stale now maxAgeMinutes r = (live r \<and> pr_startedAt r < now - int maxAgeMinutes * 60000)"

definition fail_run :: "string \<Rightarrow> pipeline_run \<Rightarrow> pipeline_run" where
  "fail_run e r = r\<lparr>pr_status := FAILED, pr_published := False, pr_error := Some e, pr_hash := None\<rparr>"

definition recoverStalePipelineRuns :: "int \<Rightarrow> nat \<Rightarrow> ledger \<Rightarrow> ledger" where
  "recoverStalePipelineRuns now maxAge lg =
     update_runs (stale now maxAge)
       (\<lambda>r. fail_run (case pr_error r of Some e \<Rightarrow> e | None \<Rightarrow> ''Recovered stale pipeline run after refresh restart'') r) lg"

definition releaseIdempotencyHash :: "string \<Rightarrow> ledger \<Rightarrow> ledger" where
  "releaseIdempotencyHash h lg = update_runs (\<lambda>r. pr_hash r = Some h \<and> \<not> live r) (\<lambda>r. r\<lparr>pr_hash := None\<rparr>) lg"

text \<open>The newest of the live runs with the hash.\<close>

definition newest_live :: "string \<Rightarrow> ledger \<Rightarrow> pipeline_run option" where
  "newest_live h lg =
     (case sort_key (\<lambda>r. - pr_startedAt r) (filter (\<lambda>r. pr_hash r = Some h \<and> live r) (lg_runs lg)) of [] \<Rightarrow> None | r # _ \<Rightarrow> Some r)"

definition getActiveRunByHash :: "int \<Rightarrow> string \<Rightarrow> ledger \<Rightarrow> ledger \<times> pipeline_run option" where
  "getActiveRunByHash now h lg =
     (let lg1 = releaseIdempotencyHash h (recoverStalePipelineRuns now 5 lg) in (lg1, newest_live h lg1))"

definition is_hex :: "char \<Rightarrow> bool" where
  "is_hex c = (radix_digit c \<noteq> None)"

definition isValidUUID :: "string \<Rightarrow> bool" where
  "isValidUUID s =
     (case split_on (CHR ''-'') s of
        [a, b, c, d, e] \<Rightarrow> map length [a, b, c, d, e] = [8, 4, 4, 4, 12] \<and> list_all is_hex (a @ b @ c @ d @ e)
      | _ \<Rightarrow> False)"

record new_run =
  nr_runId :: string
  nr_snapshotId :: string
  nr_tenantId :: string
  nr_hash :: string
  nr_versions :: run_versions
  nr_modelName :: "string option"

definition no_metrics :: run_metrics where
  "no_metrics = \<lparr>rm_modelName = None, rm_latencyMs = None, rm_tokensIn = None, rm_tokensOut = None, rm_batchCount = None\<rparr>"

definition run_of :: "int \<Rightarrow> new_run \<Rightarrow> pipeline_run" where
  "run_of now p =
     \<lparr>pr_runId = nr_runId p, pr_snapshotId = nr_snapshotId p, pr_tenantId = nr_tenantId p, pr_status = RUNNING, pr_published = False,
      pr_hash = Some (nr_hash p), pr_startedAt = now, pr_publishedAt = None, pr_superseded = None, pr_versions = nr_versions p,
      pr_error = None, pr_metrics = no_metrics\<lparr>rm_modelName := (if nr_modelName p = Some [] then None else nr_modelName p)\<rparr>,
      pr_hashes = None\<rparr>"

text \<open>The primary key and the two unique columns.\<close>

definition run_unique :: "new_run \<Rightarrow> ledger \<Rightarrow> bool" where
  "run_unique p lg =
     (nr_runId p \<notin> pr_runId ` set (lg_runs lg) \<and> nr_snapshotId p \<notin> pr_snapshotId ` set (lg_runs lg) \<and>
      Some (nr_hash p) \<notin> pr_hash ` set (lg_runs lg))"

definition createRunningRun :: "int \<Rightarrow> new_run \<Rightarrow> ledger \<Rightarrow> ledger option" where
  "createRunningRun now p lg = (if run_unique p lg then Some (lg\<lparr>lg_runs := lg_runs lg @ [run_of now p]\<rparr>) else None)"

text \<open>The twin of the worker checks the tenant and stores no model name.\<close>

definition createRunningRun_api :: "int \<Rightarrow> new_run \<Rightarrow> ledger \<Rightarrow> ledger option" where
  "createRunningRun_api now p lg =
     (if nr_tenantId p = ''default'' \<or> \<not> isValidUUID (nr_tenantId p) then None
      else createRunningRun now (p\<lparr>nr_modelName := None\<rparr>) lg)"

section \<open>Events, failure and publication\<close>

text \<open>Metadata are their JSON text and their request id, if that is a text.\<close>

record event_input =
  ei_run :: string
  ei_stage :: stage
  ei_status :: stage_status
  ei_attempt :: "nat option"
  ei_records :: "nat option"
  ei_error :: "string option"
  ei_requestId :: "string option"
  ei_metadata :: "(string \<times> string option) option"
  ei_errorType :: "string option"
  ei_errorCode :: "string option"

definition positive_or :: "nat \<Rightarrow> nat option \<Rightarrow> nat" where
  "positive_or d v = (case v of Some n \<Rightarrow> if n = 0 then d else n | None \<Rightarrow> d)"

definition text_or_null :: "string option \<Rightarrow> string option" where
  "text_or_null v = (if v = Some [] then None else v)"

definition event_of :: "int \<Rightarrow> event_input \<Rightarrow> stage_event" where
  "event_of now e =
     \<lparr>se_run = ei_run e, se_stage = ei_stage e, se_attempt = positive_or 1 (ei_attempt e), se_status = ei_status e,
      se_completedAt = (if ei_status e = Stage_SUCCESS \<or> ei_status e = Stage_FAILED then Some now else None),
      se_records = positive_or 0 (ei_records e), se_metadata = map_option fst (ei_metadata e), se_error = text_or_null (ei_error e),
      se_requestId = (case text_or_null (ei_requestId e) of Some r \<Rightarrow> Some r | None \<Rightarrow> Option.bind (ei_metadata e) snd),
      se_errorType = text_or_null (ei_errorType e), se_errorCode = text_or_null (ei_errorCode e)\<rparr>"

definition appendStageEvent :: "bool \<Rightarrow> int \<Rightarrow> event_input \<Rightarrow> ledger \<Rightarrow> ledger option" where
  "appendStageEvent ok now e lg =
     (if ok \<and> ei_run e \<in> pr_runId ` set (lg_runs lg) then Some (lg\<lparr>lg_events := lg_events lg @ [event_of now e]\<rparr>) else None)"

definition coalesce :: "'a option \<Rightarrow> 'a option \<Rightarrow> 'a option" where
  "coalesce a b = (case a of None \<Rightarrow> b | Some _ \<Rightarrow> a)"

definition setRunExecutionMetrics :: "string \<Rightarrow> run_metrics \<Rightarrow> ledger \<Rightarrow> ledger" where
  "setRunExecutionMetrics i m lg =
     update_runs (\<lambda>r. pr_runId r = i)
       (\<lambda>r. r\<lparr>pr_metrics :=
         \<lparr>rm_modelName = coalesce (rm_modelName m) (rm_modelName (pr_metrics r)), rm_latencyMs = coalesce (rm_latencyMs m) (rm_latencyMs (pr_metrics r)),
          rm_tokensIn = coalesce (rm_tokensIn m) (rm_tokensIn (pr_metrics r)), rm_tokensOut = coalesce (rm_tokensOut m) (rm_tokensOut (pr_metrics r)),
          rm_batchCount = coalesce (rm_batchCount m) (rm_batchCount (pr_metrics r))\<rparr>\<rparr>) lg"

definition setRunHashes :: "string \<Rightarrow> run_hashes \<Rightarrow> ledger \<Rightarrow> ledger" where
  "setRunHashes i h lg = update_runs (\<lambda>r. pr_runId r = i) (\<lambda>r. r\<lparr>pr_hashes := Some h\<rparr>) lg"

definition markRunFailed :: "string \<Rightarrow> string \<Rightarrow> ledger \<Rightarrow> ledger" where
  "markRunFailed i e lg = update_runs (\<lambda>r. pr_runId r = i) (fail_run e) lg"

text \<open>The row of the pointer is inserted or, by the key of tenant and source, overwritten.\<close>

definition upsert_pointer :: "snapshot_pointer \<Rightarrow> ledger \<Rightarrow> ledger" where
  "upsert_pointer p lg =
     lg\<lparr>lg_pointers :=
       (if find_pointer (sp_tenant p) (sp_source p) lg = None then lg_pointers lg @ [p]
        else map (\<lambda>q. if sp_tenant q = sp_tenant p \<and> sp_source q = sp_source p then p else q) (lg_pointers lg))\<rparr>"

text \<open>
  The transaction; the run it names must exist, for the pointer and for the run it supersedes refer to it.
\<close>

definition publishRunAtomic :: "bool \<Rightarrow> int \<Rightarrow> string \<Rightarrow> string \<Rightarrow> string \<Rightarrow> snapshot_source \<Rightarrow> ledger \<Rightarrow> ledger option" where
  "publishRunAtomic ok now runId snapshotId tenant source lg =
     (if \<not> ok \<or> find_run runId lg = None then None
      else
        (let lg1 = (case find_pointer tenant source lg of
               None \<Rightarrow> lg
             | Some p \<Rightarrow> update_runs (\<lambda>r. pr_runId r = sp_run p) (\<lambda>r. r\<lparr>pr_superseded := Some runId\<rparr>) lg);
             lg2 = update_runs (\<lambda>r. pr_runId r = runId)
               (\<lambda>r. r\<lparr>pr_status := SUCCEEDED, pr_published := True, pr_publishedAt := Some now, pr_hash := None\<rparr>) lg1
         in Some (upsert_pointer \<lparr>sp_tenant = tenant, sp_source = source, sp_run = runId, sp_snapshot = snapshotId, sp_updatedAt = now\<rparr> lg2)))"

definition latest_of :: "string \<Rightarrow> snapshot_source \<Rightarrow> ledger \<Rightarrow> pipeline_run option" where
  "latest_of tenant source lg = (case find_pointer tenant source lg of None \<Rightarrow> None | Some p \<Rightarrow> find_run (sp_run p) lg)"

definition getLatestPublishedRun :: "string \<Rightarrow> snapshot_source option \<Rightarrow> ledger \<Rightarrow> pipeline_run option" where
  "getLatestPublishedRun tenant source lg =
     (case source of
        Some s \<Rightarrow> latest_of tenant s lg
      | None \<Rightarrow> (case latest_of tenant Csv_analytics lg of Some r \<Rightarrow> Some r | None \<Rightarrow> latest_of tenant Splunk_live lg))"

definition getLatestPublishedRun_api :: "string \<Rightarrow> ledger \<Rightarrow> pipeline_run option" where
  "getLatestPublishedRun_api tenant lg = latest_of tenant Splunk_live lg"

definition getRunById :: "string \<Rightarrow> ledger \<Rightarrow> pipeline_run option" where
  "getRunById i lg = find_run i lg"

text \<open>The last steps of the worker: a failure after the publication marks the run as failed.\<close>

record publish_io =
  pi_published :: bool
  pi_successEvent :: bool
  pi_failureEvent :: bool
  pi_error :: string

definition publish_event :: "string \<Rightarrow> stage_status \<Rightarrow> string option \<Rightarrow> string option \<Rightarrow> event_input" where
  "publish_event i st e req =
     \<lparr>ei_run = i, ei_stage = PUBLISH, ei_status = st, ei_attempt = None, ei_records = None, ei_error = e, ei_requestId = req,
      ei_metadata = None, ei_errorType = (if st = Stage_FAILED then Some ''UNKNOWN'' else None),
      ei_errorCode = (if st = Stage_FAILED then Some ''PUBLISH_FAILED'' else None)\<rparr>"

definition worker_publish ::
  "publish_io \<Rightarrow> int \<Rightarrow> string \<Rightarrow> string \<Rightarrow> string \<Rightarrow> string option \<Rightarrow> run_metrics \<Rightarrow> ledger \<Rightarrow> ledger \<times> bool" where
  "worker_publish pio now i snapshotId tenant req metrics lg =
     (let failed = (\<lambda>l.
            (case appendStageEvent (pi_failureEvent pio) now (publish_event i Stage_FAILED (Some (pi_error pio)) req) l of
               None \<Rightarrow> (l, False)
             | Some l1 \<Rightarrow> (markRunFailed i (pi_error pio) (setRunExecutionMetrics i metrics l1), False)))
      in case publishRunAtomic (pi_published pio) now i snapshotId tenant Splunk_live lg of
           None \<Rightarrow> failed lg
         | Some l \<Rightarrow>
             (case appendStageEvent (pi_successEvent pio) now (publish_event i Stage_SUCCESS None req) l of
                None \<Rightarrow> failed l
              | Some l1 \<Rightarrow> (l1, True)))"

section \<open>The lifecycle\<close>

datatype snapshot_status = Snap_NOT_READY | Snap_READY | Snap_FAILED

datatype llm_status = Llm_NOT_STARTED | Llm_RUNNING | Llm_READY | Llm_FAILED | Llm_FAILED_TIMEOUT

datatype pipeline_status = Pipe_PENDING | Pipe_PARTIAL | Pipe_READY | Pipe_FAILED

datatype failure_code = MISSING_DECISIONS | TIMEOUT | RUNTIME | FAILED_MODEL_UNAVAILABLE | FAILED_MODEL_TIMEOUT | FAILED_MODEL_REFUSED
  | FAILED_MODEL_CONTEXT | FAILED_MODEL_CRASH

definition derivePipelineStatus :: "snapshot_status \<Rightarrow> llm_status \<Rightarrow> pipeline_status" where
  "derivePipelineStatus s l =
     (if s = Snap_FAILED then Pipe_FAILED
      else if s = Snap_READY \<and> l = Llm_READY then Pipe_READY
      else if s = Snap_READY \<and> l \<noteq> Llm_READY then Pipe_PARTIAL else Pipe_PENDING)"

text \<open>The date of the last stage is given as its time, if it has one that is a number.\<close>

record lifecycle_input =
  li_snapshotStatus :: snapshot_status
  li_llmStatus :: llm_status
  li_aiDecisionStage :: "stage_status option"
  li_aiDecisionMode :: "string option"
  li_decisionCount :: nat
  li_lastStageAt :: "int option"
  li_runId :: "string option"
  li_previousFailureCode :: "failure_code option"
  li_previousFailureRunId :: "string option"

record lifecycle =
  lc_llmStatus :: llm_status
  lc_pipelineStatus :: pipeline_status
  lc_failureCode :: "failure_code option"
  lc_failureReason :: "string option"

definition nonempty :: "string option \<Rightarrow> bool" where
  "nonempty v = (case v of Some s \<Rightarrow> s \<noteq> [] | None \<Rightarrow> False)"

definition still_failed :: "lifecycle_input \<Rightarrow> bool" where
  "still_failed i =
     (nonempty (li_runId i) \<and> nonempty (li_previousFailureRunId i) \<and> li_runId i = li_previousFailureRunId i \<and>
      (li_previousFailureCode i = Some TIMEOUT \<or> li_previousFailureCode i = Some MISSING_DECISIONS) \<and> li_llmStatus i \<noteq> Llm_READY)"

definition decisions_missing :: "lifecycle_input \<Rightarrow> bool" where
  "decisions_missing i =
     (li_aiDecisionStage i = Some Stage_SUCCESS \<and> li_llmStatus i = Llm_READY \<and> li_decisionCount i = 0 \<and>
      li_aiDecisionMode i \<noteq> Some ''no_material_candidates'')"

definition idle_too_long :: "int \<Rightarrow> int \<Rightarrow> lifecycle_input \<Rightarrow> bool" where
  "idle_too_long timeout now i =
     (li_llmStatus i = Llm_RUNNING \<and> (case li_lastStageAt i of Some t \<Rightarrow> timeout < now - t | None \<Rightarrow> False))"

definition normalizeLifecycle :: "int \<Rightarrow> int \<Rightarrow> lifecycle_input \<Rightarrow> lifecycle" where
  "normalizeLifecycle timeout now i =
     (if still_failed i then
        \<lparr>lc_llmStatus = (if li_previousFailureCode i = Some TIMEOUT then Llm_FAILED_TIMEOUT else Llm_FAILED), lc_pipelineStatus = Pipe_FAILED,
         lc_failureCode = li_previousFailureCode i,
         lc_failureReason = Some (if li_previousFailureCode i = Some TIMEOUT
           then ''Pipeline run exceeded idle timeout and remains failed until a new run starts''
           else ''AI_DECISIONS marked SUCCESS but no persisted decisions found'')\<rparr>
      else if decisions_missing i then
        \<lparr>lc_llmStatus = Llm_FAILED, lc_pipelineStatus = Pipe_FAILED, lc_failureCode = Some MISSING_DECISIONS,
         lc_failureReason = Some ''AI_DECISIONS marked SUCCESS but no persisted decisions found''\<rparr>
      else if idle_too_long timeout now i then
        \<lparr>lc_llmStatus = Llm_FAILED_TIMEOUT, lc_pipelineStatus = Pipe_FAILED, lc_failureCode = Some TIMEOUT,
         lc_failureReason = Some ''Pipeline idle timeout exceeded while AI decisions were running''\<rparr>
      else
        \<lparr>lc_llmStatus = li_llmStatus i, lc_pipelineStatus = derivePipelineStatus (li_snapshotStatus i) (li_llmStatus i),
         lc_failureCode = None, lc_failureReason = None\<rparr>)"

section \<open>Runs of the ledger\<close>

definition empty_ledger :: ledger where
  "empty_ledger = \<lparr>lg_runs = [], lg_pointers = [], lg_events = []\<rparr>"

inductive ledger_step :: "ledger \<Rightarrow> ledger \<Rightarrow> bool" where
  created: "createRunningRun now p lg = Some lg' \<Longrightarrow> ledger_step lg lg'"
| asked: "ledger_step lg (fst (getActiveRunByHash now h lg))"
| released: "ledger_step lg (releaseIdempotencyHash h lg)"
| logged: "appendStageEvent ok now e lg = Some lg' \<Longrightarrow> ledger_step lg lg'"
| measured: "ledger_step lg (setRunExecutionMetrics i m lg)"
| hashed: "ledger_step lg (setRunHashes i hs lg)"
| gave_up: "ledger_step lg (markRunFailed i e lg)"
| published: "publishRunAtomic ok now i snapshotId tenant source lg = Some lg' \<Longrightarrow> ledger_step lg lg'"

definition run_ok :: "pipeline_run \<Rightarrow> bool" where
  "run_ok r = ((pr_hash r \<noteq> None \<longrightarrow> pr_status r = RUNNING) \<and> (pr_published r \<longrightarrow> pr_status r = SUCCEEDED))"

definition holders :: "string \<Rightarrow> pipeline_run list \<Rightarrow> nat" where
  "holders h rs = length (filter (\<lambda>r. pr_hash r = Some h) rs)"

definition ledger_ok :: "ledger \<Rightarrow> bool" where
  "ledger_ok lg =
     (distinct (map pr_runId (lg_runs lg)) \<and> distinct (map pr_snapshotId (lg_runs lg)) \<and> (\<forall>h. holders h (lg_runs lg) \<le> 1) \<and>
      (\<forall>r\<in>set (lg_runs lg). run_ok r) \<and> distinct (map (\<lambda>p. (sp_tenant p, sp_source p)) (lg_pointers lg)) \<and>
      (\<forall>p\<in>set (lg_pointers lg). sp_run p \<in> pr_runId ` set (lg_runs lg)) \<and>
      (\<forall>e\<in>set (lg_events lg). se_run e \<in> pr_runId ` set (lg_runs lg)))"

lemma update_runs_simps [simp]:
  "lg_pointers (update_runs P f lg) = lg_pointers lg" "lg_events (update_runs P f lg) = lg_events lg"
  "lg_runs (update_runs P f lg) = map (\<lambda>r. if P r then f r else r) (lg_runs lg)"
  by (simp_all add: update_runs_def)

lemma holders_map: "(\<And>r. pr_hash (g r) = pr_hash r \<or> pr_hash (g r) = None) \<Longrightarrow> holders h (map g rs) \<le> holders h rs"
proof (induction rs)
  case (Cons r rs)
  then have "length (filter ((\<lambda>r. pr_hash r = Some h) \<circ> g) rs) \<le> length (filter (\<lambda>r. pr_hash r = Some h) rs)"
    by (simp add: holders_def filter_map)
  moreover have "pr_hash (g r) = Some h \<Longrightarrow> pr_hash r = Some h" using Cons.prems [of r] by auto
  ultimately show ?case by (auto simp: holders_def filter_map)
qed (simp add: holders_def)

text \<open>An update of rows that keeps their keys, and their hash or drops it, keeps the ledger well formed.\<close>

lemma update_runs_ok:
  assumes "ledger_ok lg" "\<And>r. pr_runId (f r) = pr_runId r" "\<And>r. pr_snapshotId (f r) = pr_snapshotId r"
    and "\<And>r. pr_hash (f r) = pr_hash r \<or> pr_hash (f r) = None" "\<And>r. P r \<Longrightarrow> run_ok r \<Longrightarrow> run_ok (f r)"
  shows "ledger_ok (update_runs P f lg)"
proof -
  have m: "map pr_runId (lg_runs (update_runs P f lg)) = map pr_runId (lg_runs lg)"
    "map pr_snapshotId (lg_runs (update_runs P f lg)) = map pr_snapshotId (lg_runs lg)"
    using assms(2,3) by simp_all
  then have i: "pr_runId ` set (lg_runs (update_runs P f lg)) = pr_runId ` set (lg_runs lg)" by (metis set_map)
  have h: "holders h (lg_runs (update_runs P f lg)) \<le> 1" for h
  proof -
    have "holders h (map (\<lambda>r. if P r then f r else r) (lg_runs lg)) \<le> holders h (lg_runs lg)"
      by (rule holders_map) (simp add: assms(4))
    also have "\<dots> \<le> 1" using assms(1) by (simp add: ledger_ok_def)
    finally show ?thesis by simp
  qed
  have "\<forall>r\<in>set (lg_runs (update_runs P f lg)). run_ok r" using assms(1,5) by (auto simp: ledger_ok_def)
  then show ?thesis using assms(1) h unfolding ledger_ok_def m i by simp
qed

lemma recover_ok: "ledger_ok lg \<Longrightarrow> ledger_ok (recoverStalePipelineRuns now n lg)"
  unfolding recoverStalePipelineRuns_def by (rule update_runs_ok) (simp_all add: fail_run_def run_ok_def)

lemma release_ok: "ledger_ok lg \<Longrightarrow> ledger_ok (releaseIdempotencyHash h lg)"
  unfolding releaseIdempotencyHash_def by (rule update_runs_ok) (auto simp: run_ok_def live_def)

lemma mark_failed_ok: "ledger_ok lg \<Longrightarrow> ledger_ok (markRunFailed i e lg)"
  unfolding markRunFailed_def by (rule update_runs_ok) (simp_all add: fail_run_def run_ok_def)

lemma metrics_ok: "ledger_ok lg \<Longrightarrow> ledger_ok (setRunExecutionMetrics i m lg)"
  unfolding setRunExecutionMetrics_def by (rule update_runs_ok) (simp_all add: run_ok_def)

lemma hashes_ok: "ledger_ok lg \<Longrightarrow> ledger_ok (setRunHashes i h lg)"
  unfolding setRunHashes_def by (rule update_runs_ok) (simp_all add: run_ok_def)

lemma create_ok: "createRunningRun now p lg = Some lg' \<Longrightarrow> ledger_ok lg \<Longrightarrow> ledger_ok lg'"
proof -
  assume c: "createRunningRun now p lg = Some lg'" and ok: "ledger_ok lg"
  then have u: "run_unique p lg" and lg': "lg' = lg\<lparr>lg_runs := lg_runs lg @ [run_of now p]\<rparr>"
    by (auto simp: createRunningRun_def split: if_splits)
  have r: "pr_runId (run_of now p) = nr_runId p" "pr_snapshotId (run_of now p) = nr_snapshotId p" "pr_hash (run_of now p) = Some (nr_hash p)"
    "run_ok (run_of now p)" by (simp_all add: run_of_def run_ok_def)
  have "filter (\<lambda>r. pr_hash r = Some (nr_hash p)) (lg_runs lg) = []"
    using u unfolding run_unique_def filter_empty_conv by (metis imageI)
  then have "holders h (lg_runs lg') \<le> 1" for h using ok r by (auto simp: lg' holders_def ledger_ok_def)
  then show ?thesis using ok u r unfolding lg' ledger_ok_def run_unique_def by (auto simp: image_iff)
qed

lemma find_pointer_None: "find_pointer t s lg = None \<longleftrightarrow> (t, s) \<notin> (\<lambda>p. (sp_tenant p, sp_source p)) ` set (lg_pointers lg)"
  by (auto simp: find_pointer_def find_None_iff)

lemma pointers_ok:
  "ledger_ok lg \<Longrightarrow> distinct (map (\<lambda>p. (sp_tenant p, sp_source p)) ps) \<Longrightarrow> \<forall>p\<in>set ps. sp_run p \<in> pr_runId ` set (lg_runs lg) \<Longrightarrow>
    ledger_ok (lg\<lparr>lg_pointers := ps\<rparr>)"
  by (simp add: ledger_ok_def)

lemma upsert_ok:
  assumes "ledger_ok lg" "sp_run p \<in> pr_runId ` set (lg_runs lg)"
  shows "ledger_ok (upsert_pointer p lg)"
proof (cases "find_pointer (sp_tenant p) (sp_source p) lg = None")
  case True
  then show ?thesis using assms unfolding find_pointer_None by (auto simp: upsert_pointer_def ledger_ok_def find_pointer_None)
next
  case False
  let ?ps = "map (\<lambda>q. if sp_tenant q = sp_tenant p \<and> sp_source q = sp_source p then p else q) (lg_pointers lg)"
  have k: "map (\<lambda>q. (sp_tenant q, sp_source q)) ?ps = map (\<lambda>q. (sp_tenant q, sp_source q)) (lg_pointers lg)" by auto
  have "\<forall>q\<in>set ?ps. sp_run q \<in> pr_runId ` set (lg_runs lg)" using assms by (auto simp: ledger_ok_def)
  moreover have "distinct (map (\<lambda>q. (sp_tenant q, sp_source q)) ?ps)" unfolding k using assms(1) by (simp add: ledger_ok_def)
  ultimately have "ledger_ok (lg\<lparr>lg_pointers := ?ps\<rparr>)" by (intro pointers_ok assms(1))
  then show ?thesis using False by (auto simp: upsert_pointer_def)
qed

text \<open>The rows between the first and the last statement of a publication.\<close>

definition settled :: "int \<Rightarrow> string \<Rightarrow> string \<Rightarrow> snapshot_source \<Rightarrow> ledger \<Rightarrow> ledger" where
  "settled now runId tenant source lg =
     update_runs (\<lambda>r. pr_runId r = runId)
       (\<lambda>r. r\<lparr>pr_status := SUCCEEDED, pr_published := True, pr_publishedAt := Some now, pr_hash := None\<rparr>)
       (case find_pointer tenant source lg of
          None \<Rightarrow> lg
        | Some p \<Rightarrow> update_runs (\<lambda>r. pr_runId r = sp_run p) (\<lambda>r. r\<lparr>pr_superseded := Some runId\<rparr>) lg)"

lemma publish_settled:
  "publishRunAtomic ok now i snapshotId tenant source lg = Some lg' \<longleftrightarrow>
     ok \<and> find_run i lg \<noteq> None \<and>
     lg' = upsert_pointer \<lparr>sp_tenant = tenant, sp_source = source, sp_run = i, sp_snapshot = snapshotId, sp_updatedAt = now\<rparr> (settled now i tenant source lg)"
  by (auto simp: publishRunAtomic_def settled_def Let_def)

lemma settled_ok: "ledger_ok lg \<Longrightarrow> ledger_ok (settled now i tenant source lg)"
proof -
  assume ok: "ledger_ok lg"
  have "ledger_ok (case find_pointer tenant source lg of None \<Rightarrow> lg
      | Some p \<Rightarrow> update_runs (\<lambda>r. pr_runId r = sp_run p) (\<lambda>r. r\<lparr>pr_superseded := Some i\<rparr>) lg)"
    using ok update_runs_ok [OF ok, of "\<lambda>r. r\<lparr>pr_superseded := Some i\<rparr>"] by (cases "find_pointer tenant source lg") (simp_all add: run_ok_def)
  then show ?thesis unfolding settled_def by (rule update_runs_ok) (simp_all add: run_ok_def)
qed

lemma settled_run_ids: "pr_runId ` set (lg_runs (settled now i tenant source lg)) = pr_runId ` set (lg_runs lg)"
proof -
  have "map pr_runId (lg_runs (settled now i tenant source lg)) = map pr_runId (lg_runs lg)"
    by (cases "find_pointer tenant source lg") (simp_all add: settled_def)
  then show ?thesis by (metis set_map)
qed

lemma find_run_in: "find_run i lg \<noteq> None \<longleftrightarrow> i \<in> pr_runId ` set (lg_runs lg)"
  by (auto simp: find_run_def find_None_iff)

lemma ledger_step_ok: "ledger_step lg lg' \<Longrightarrow> ledger_ok lg \<Longrightarrow> ledger_ok lg'"
proof (induction rule: ledger_step.induct)
  case (published ok now i snapshotId tenant source lg lg')
  then show ?case unfolding publish_settled by (auto intro!: upsert_ok settled_ok simp: settled_run_ids simp flip: find_run_in)
next
  case (logged ok now e lg lg')
  then show ?case by (auto simp: appendStageEvent_def event_of_def ledger_ok_def split: if_splits)
qed (simp_all add: create_ok getActiveRunByHash_def Let_def release_ok recover_ok mark_failed_ok metrics_ok hashes_ok)

lemma empty_ledger_ok: "ledger_ok empty_ledger"
  by (simp add: ledger_ok_def empty_ledger_def holders_def)

lemma ledger_run_ok: "ledger_step\<^sup>*\<^sup>* empty_ledger lg \<Longrightarrow> ledger_ok lg"
  by (induction rule: rtranclp_induct) (auto intro: ledger_step_ok empty_ledger_ok)

lemma newest_live_Some:
  assumes "newest_live h lg = Some r"
  shows "r \<in> set (lg_runs lg)" "pr_hash r = Some h" "live r"
proof -
  let ?xs = "filter (\<lambda>r. pr_hash r = Some h \<and> live r) (lg_runs lg)"
  obtain rs where "sort_key (\<lambda>r. - pr_startedAt r) ?xs = r # rs" using assms by (auto simp: newest_live_def split: list.splits)
  then have "r \<in> set ?xs" by (metis list.set_intros(1) set_sort)
  then show "r \<in> set (lg_runs lg)" "pr_hash r = Some h" "live r" by simp_all
qed

lemma newest_live_None: "newest_live h lg = None \<Longrightarrow> r \<in> set (lg_runs lg) \<Longrightarrow> pr_hash r = Some h \<Longrightarrow> \<not> live r"
proof
  assume n: "newest_live h lg = None" and r: "r \<in> set (lg_runs lg)" "pr_hash r = Some h" "live r"
  then have "sort_key (\<lambda>r. - pr_startedAt r) (filter (\<lambda>r. pr_hash r = Some h \<and> live r) (lg_runs lg)) = []"
    by (auto simp: newest_live_def split: list.splits)
  then have "filter (\<lambda>r. pr_hash r = Some h \<and> live r) (lg_runs lg) = []" by (metis set_empty set_sort)
  then show False using r by (auto simp: filter_empty_conv)
qed

lemma recovered_young: "r \<in> set (lg_runs (recoverStalePipelineRuns now n lg)) \<Longrightarrow> live r \<Longrightarrow> now - int n * 60000 \<le> pr_startedAt r"
  by (auto simp: recoverStalePipelineRuns_def stale_def fail_run_def live_def split: if_splits)

section \<open>Properties\<close>

text \<open>
  C36: in every state the ledger reaches the ids of runs and snapshots are distinct, at most one run holds an
  idempotency hash and it is running, published runs have succeeded, there is one pointer for a tenant and
  source, and pointers and events name existing runs.
\<close>

theorem ledger_invariant:
  assumes "ledger_step\<^sup>*\<^sup>* empty_ledger lg"
  shows "ledger_ok lg"
  by (rule ledger_run_ok [OF assms])

text \<open>
  C37: A refresh either finds the run that holds its hash, which is at most five minutes old and without which a
  new run would be refused, or it can start one under every pair of new ids.
\<close>

theorem refresh_joins_or_starts:
  assumes "ledger_step\<^sup>*\<^sup>* empty_ledger lg"
  shows "case getActiveRunByHash now h lg of
     (lg1, Some r) \<Rightarrow> pr_hash r = Some h \<and> pr_status r = RUNNING \<and> now - 300000 \<le> pr_startedAt r \<and>
       createRunningRun now (p\<lparr>nr_hash := h\<rparr>) lg1 = None
   | (lg1, None) \<Rightarrow> createRunningRun now (p\<lparr>nr_hash := h\<rparr>) lg1 \<noteq> None \<longleftrightarrow>
       find_run (nr_runId p) lg = None \<and> nr_snapshotId p \<notin> pr_snapshotId ` set (lg_runs lg)"
proof -
  let ?rec = "recoverStalePipelineRuns now 5 lg"
  let ?lg1 = "releaseIdempotencyHash h ?rec"
  have ok: "ledger_ok ?lg1" using ledger_run_ok [OF assms] by (intro release_ok recover_ok)
  show ?thesis
  proof (cases "newest_live h ?lg1")
    case (Some r)
    note r = newest_live_Some [OF Some]
    have "r \<in> set (lg_runs ?rec)" using r by (auto simp: releaseIdempotencyHash_def split: if_splits)
    then have "now - 300000 \<le> pr_startedAt r" using recovered_young [of r now 5 lg] r(3) by simp
    moreover have "pr_status r = RUNNING" using ok r by (auto simp: ledger_ok_def run_ok_def)
    moreover have "Some h \<in> pr_hash ` set (lg_runs ?lg1)" using r by force
    ultimately show ?thesis using Some r by (simp add: getActiveRunByHash_def Let_def createRunningRun_def run_unique_def)
  next
    case None
    have free: "Some h \<notin> pr_hash ` set (lg_runs ?lg1)"
    proof
      assume "Some h \<in> pr_hash ` set (lg_runs ?lg1)"
      then obtain r where r: "r \<in> set (lg_runs ?lg1)" "pr_hash r = Some h" by force
      then have "run_ok r" using ok by (simp add: ledger_ok_def)
      then show False using newest_live_None [OF None r] r(2) by (simp add: live_def run_ok_def)
    qed
    have "map pr_runId (lg_runs ?lg1) = map pr_runId (lg_runs lg)" "map pr_snapshotId (lg_runs ?lg1) = map pr_snapshotId (lg_runs lg)"
      by (simp_all add: releaseIdempotencyHash_def recoverStalePipelineRuns_def fail_run_def)
    then have "pr_runId ` set (lg_runs ?lg1) = pr_runId ` set (lg_runs lg)" "pr_snapshotId ` set (lg_runs ?lg1) = pr_snapshotId ` set (lg_runs lg)"
      by (metis set_map)+
    moreover have "find_run (nr_runId p) lg = None \<longleftrightarrow> nr_runId p \<notin> pr_runId ` set (lg_runs lg)" using find_run_in by blast
    ultimately show ?thesis using None free by (simp add: getActiveRunByHash_def Let_def createRunningRun_def run_unique_def)
  qed
qed

lemma find_map_run: "(\<And>r. pr_runId (g r) = pr_runId r) \<Longrightarrow> find (\<lambda>r. pr_runId r = i) (map g rs) = map_option g (find (\<lambda>r. pr_runId r = i) rs)"
  by (induction rs) auto

lemma find_run_update: "(\<And>r. pr_runId (f r) = pr_runId r) \<Longrightarrow> find_run i (update_runs P f lg) = map_option (\<lambda>r. if P r then f r else r) (find_run i lg)"
  by (simp add: find_run_def find_map_run)

lemma find_pointer_upsert:
  "find_pointer t s (upsert_pointer p lg) = (if t = sp_tenant p \<and> s = sp_source p then Some p else find_pointer t s lg)"
proof -
  have a: "find Q (xs @ [x]) = (case find Q xs of None \<Rightarrow> if Q x then Some x else None | Some y \<Rightarrow> Some y)" for Q and xs :: "snapshot_pointer list" and x
    by (induction xs) auto
  have b: "find (\<lambda>q. sp_tenant q = t \<and> sp_source q = s) (map (\<lambda>q. if sp_tenant q = sp_tenant p \<and> sp_source q = sp_source p then p else q) ps) =
      (if t = sp_tenant p \<and> s = sp_source p then (if find (\<lambda>q. sp_tenant q = t \<and> sp_source q = s) ps = None then None else Some p)
       else find (\<lambda>q. sp_tenant q = t \<and> sp_source q = s) ps)" for ps
    by (induction ps) auto
  show ?thesis
    by (cases "find_pointer (sp_tenant p) (sp_source p) lg") (auto simp: upsert_pointer_def find_pointer_def a b split: option.splits)
qed

lemma find_run_upsert [simp]: "find_run i (upsert_pointer p lg) = find_run i lg"
  by (simp add: find_run_def upsert_pointer_def)

lemma find_run_id: "find_run i lg = Some r \<Longrightarrow> pr_runId r = i"
  by (auto simp: find_run_def find_Some_iff)

lemma publication_latest:
  assumes "publishRunAtomic ok now i snapshotId tenant source lg = Some lg'"
  shows "(\<exists>r r'. find_run i lg = Some r \<and> latest_of tenant source lg' = Some r' \<and> pr_runId r' = i \<and> pr_status r' = SUCCEEDED \<and> pr_published r' \<and>
      pr_hash r' = None \<and> pr_error r' = pr_error r) \<and>
    (\<forall>t s. (t, s) \<noteq> (tenant, source) \<longrightarrow> find_pointer t s lg' = find_pointer t s lg)"
proof -
  obtain r where r: "find_run i lg = Some r"
    and lg': "lg' = upsert_pointer \<lparr>sp_tenant = tenant, sp_source = source, sp_run = i, sp_snapshot = snapshotId, sp_updatedAt = now\<rparr> (settled now i tenant source lg)"
    using assms by (auto simp: publish_settled)
  note id = find_run_id [OF r]
  have "\<exists>r'. find_run i (settled now i tenant source lg) = Some r' \<and> pr_runId r' = i \<and> pr_status r' = SUCCEEDED \<and> pr_published r' \<and>
      pr_hash r' = None \<and> pr_error r' = pr_error r"
    using r id by (cases "find_pointer tenant source lg") (auto simp: settled_def find_run_update)
  moreover have "find_pointer t s (settled now i tenant source lg) = find_pointer t s lg" for t s
    by (cases "find_pointer tenant source lg") (simp_all add: settled_def find_pointer_def)
  ultimately show ?thesis using r by (auto simp: lg' latest_of_def find_pointer_upsert)
qed

text \<open>
  A publication that succeeds makes its run the latest of its tenant and source, succeeded and published
  and without its hash but with the error it may have had, and leaves the other pointers alone; a failed one
  changes nothing.
\<close>

theorem publication_becomes_latest:
  assumes "publishRunAtomic ok now i snapshotId tenant source lg = Some lg'"
  shows "(\<exists>r r'. find_run i lg = Some r \<and> latest_of tenant source lg' = Some r' \<and> pr_runId r' = i \<and> pr_status r' = SUCCEEDED \<and> pr_published r' \<and>
      pr_hash r' = None \<and> pr_error r' = pr_error r) \<and>
    (\<forall>t s. (t, s) \<noteq> (tenant, source) \<longrightarrow> find_pointer t s lg' = find_pointer t s lg)"
  by (rule publication_latest [OF assms])

text \<open>
  A run of more than five minutes is marked as failed when anybody asks for any hash, and succeeds
  nevertheless when its worker publishes it, with the error of its recovery.
\<close>

theorem long_run_fails_and_succeeds:
  assumes "find_run i lg = Some r" "live r" "pr_startedAt r < now - 300000" "pr_error r = None"
    and "publishRunAtomic True later i snapshotId tenant source (fst (getActiveRunByHash now h lg)) = Some lg'"
  shows "map_option pr_status (find_run i (fst (getActiveRunByHash now h lg))) = Some FAILED \<and>
    (\<exists>r'. latest_of tenant source lg' = Some r' \<and> pr_runId r' = i \<and> pr_status r' = SUCCEEDED \<and>
      pr_error r' = Some ''Recovered stale pipeline run after refresh restart'')"
proof -
  have "find_run i (recoverStalePipelineRuns now 5 lg) = Some (fail_run ''Recovered stale pipeline run after refresh restart'' r)"
    using assms by (simp add: recoverStalePipelineRuns_def find_run_update fail_run_def stale_def)
  then have f: "find_run i (fst (getActiveRunByHash now h lg)) = Some (fail_run ''Recovered stale pipeline run after refresh restart'' r)"
    by (simp add: getActiveRunByHash_def Let_def releaseIdempotencyHash_def find_run_update fail_run_def live_def)
  obtain r' where "latest_of tenant source lg' = Some r'" "pr_runId r' = i" "pr_status r' = SUCCEEDED"
    "pr_error r' = pr_error (fail_run ''Recovered stale pipeline run after refresh restart'' r)"
    using publication_latest [OF assms(5)] f by auto
  then show ?thesis using f by (auto simp: fail_run_def)
qed

lemma markRunFailed_find: "find_run j (markRunFailed i e lg) = map_option (\<lambda>r. if pr_runId r = i then fail_run e r else r) (find_run j lg)"
  unfolding markRunFailed_def by (rule find_run_update) (simp add: fail_run_def)

lemma metrics_find: "find_run j (setRunExecutionMetrics i m lg) \<noteq> None \<longleftrightarrow> find_run j lg \<noteq> None"
  unfolding setRunExecutionMetrics_def by (subst find_run_update) simp_all

lemma metrics_pointers [simp]: "lg_pointers (setRunExecutionMetrics i m lg) = lg_pointers lg" "lg_pointers (markRunFailed i e lg) = lg_pointers lg"
  by (simp_all add: setRunExecutionMetrics_def markRunFailed_def)

text \<open>
  When the worker published its run and the event that says so cannot be written, the run is marked as
  failed and unpublished while the pointer still names it: the latest published run is a failed one.
\<close>

theorem failed_run_stays_latest:
  assumes "pi_published pio" "\<not> pi_successEvent pio" "pi_failureEvent pio" "find_run i lg \<noteq> None"
  shows "case worker_publish pio now i snapshotId tenant req metrics lg of
    (lg', returned) \<Rightarrow> \<not> returned \<and>
      (\<exists>r. getLatestPublishedRun_api tenant lg' = Some r \<and> pr_runId r = i \<and> pr_status r = FAILED \<and> \<not> pr_published r)"
proof -
  obtain l where l: "publishRunAtomic True now i snapshotId tenant Splunk_live lg = Some l"
    using assms(4) by (auto simp: publish_settled)
  obtain r where r: "latest_of tenant Splunk_live l = Some r" "pr_runId r = i" using publication_latest [OF l] by blast
  obtain p where p: "find_pointer tenant Splunk_live l = Some p" "find_run (sp_run p) l = Some r"
    using r(1) by (auto simp: latest_of_def split: option.splits)
  have pi: "sp_run p = i" using r(2) find_run_id [OF p(2)] by simp
  have "i \<in> pr_runId ` set (lg_runs l)" using p(2) pi find_run_in by (metis option.distinct(1))
  then obtain l1 where l1: "appendStageEvent True now (publish_event i Stage_FAILED (Some (pi_error pio)) req) l = Some l1"
    "lg_runs l1 = lg_runs l" "lg_pointers l1 = lg_pointers l"
    by (simp add: appendStageEvent_def publish_event_def)
  let ?lg' = "markRunFailed i (pi_error pio) (setRunExecutionMetrics i metrics l1)"
  have w: "worker_publish pio now i snapshotId tenant req metrics lg = (?lg', False)"
    using assms l l1(1) by (simp add: worker_publish_def Let_def appendStageEvent_def [of False])
  have "find_run i l1 \<noteq> None" using p(2) pi l1(2) by (simp add: find_run_def)
  then obtain r2 where r2: "find_run i (setRunExecutionMetrics i metrics l1) = Some r2" using metrics_find by blast
  then have "find_run i ?lg' = Some (fail_run (pi_error pio) r2)" using find_run_id [OF r2] by (simp add: markRunFailed_find)
  moreover have "find_pointer tenant Splunk_live ?lg' = Some p" using p(1) l1(3) by (simp add: find_pointer_def)
  ultimately show ?thesis using w pi find_run_id [OF r2] by (simp add: getLatestPublishedRun_api_def latest_of_def fail_run_def)
qed

text \<open>
  the lifecycle is ready exactly when snapshot and agent are ready and the decisions are not missing, and
  then it reports no failure; it is failed exactly when the snapshot failed or a failure is reported.
\<close>

theorem lifecycle_verdict:
  "(lc_pipelineStatus (normalizeLifecycle timeout now i) = Pipe_READY \<longleftrightarrow>
      li_snapshotStatus i = Snap_READY \<and> li_llmStatus i = Llm_READY \<and> \<not> decisions_missing i) \<and>
   (lc_pipelineStatus (normalizeLifecycle timeout now i) = Pipe_FAILED \<longleftrightarrow>
      li_snapshotStatus i = Snap_FAILED \<or> lc_failureCode (normalizeLifecycle timeout now i) \<noteq> None) \<and>
   (lc_pipelineStatus (normalizeLifecycle timeout now i) = Pipe_READY \<longleftrightarrow>
      derivePipelineStatus (li_snapshotStatus i) (lc_llmStatus (normalizeLifecycle timeout now i)) = Pipe_READY)"
  by (auto simp: normalizeLifecycle_def still_failed_def decisions_missing_def idle_too_long_def derivePipelineStatus_def)

section \<open>The properties at concrete inputs\<close>

definition example_run :: new_run where
  "example_run = \<lparr>nr_runId = ''r1'', nr_snapshotId = ''s1'', nr_tenantId = ''t'', nr_hash = ''h'',
     nr_versions = \<lparr>rv_pipeline = ''1'', rv_model = ''m'', rv_prompt = ''2'', rv_query = ''1''\<rparr>, nr_modelName = None\<rparr>"

definition example_ledger :: ledger where
  "example_ledger = empty_ledger\<lparr>lg_runs := [run_of 1000 example_run]\<rparr>"

lemma example_reached: "ledger_step\<^sup>*\<^sup>* empty_ledger example_ledger"
proof -
  have "createRunningRun 1000 example_run empty_ledger = Some example_ledger"
    by (simp add: createRunningRun_def run_unique_def empty_ledger_def example_ledger_def)
  then show ?thesis by (intro r_into_rtranclp created)
qed

lemma example_found: "find_run ''r1'' example_ledger = Some (run_of 1000 example_run)"
  by (simp add: example_ledger_def find_run_def run_of_def example_run_def)

theorem ledger_invariant_witness: "ledger_ok example_ledger"
  by (rule ledger_invariant [OF example_reached])

theorem refresh_joins_or_starts_witness:
  "createRunningRun 2000 (example_run\<lparr>nr_runId := ''r2'', nr_snapshotId := ''s2'', nr_hash := ''h''\<rparr>)
     (fst (getActiveRunByHash 2000 ''h'' example_ledger)) = None"
proof -
  have "snd (getActiveRunByHash 2000 ''h'' example_ledger) \<noteq> None" by code_simp
  then show ?thesis
    using refresh_joins_or_starts [OF example_reached, of 2000 "''h''" "example_run\<lparr>nr_runId := ''r2'', nr_snapshotId := ''s2''\<rparr>"]
    by (auto split: prod.splits option.splits)
qed

theorem publication_becomes_latest_witness:
  "map_option pr_status (latest_of ''t'' Splunk_live (the (publishRunAtomic True 5000 ''r1'' ''s1'' ''t'' Splunk_live example_ledger))) = Some SUCCEEDED"
proof -
  obtain lg' where l: "publishRunAtomic True 5000 ''r1'' ''s1'' ''t'' Splunk_live example_ledger = Some lg'"
    using example_found by (auto simp: publish_settled)
  show ?thesis using publication_becomes_latest [OF l] l by auto
qed

theorem long_run_fails_and_succeeds_witness:
  "map_option pr_status (find_run ''r1'' (fst (getActiveRunByHash 400000 ''other'' example_ledger))) = Some FAILED"
proof -
  have "find_run ''r1'' (fst (getActiveRunByHash 400000 ''other'' example_ledger)) \<noteq> None" by code_simp
  then obtain lg' where l: "publishRunAtomic True 500000 ''r1'' ''s1'' ''t'' Splunk_live (fst (getActiveRunByHash 400000 ''other'' example_ledger)) = Some lg'"
    by (auto simp: publish_settled)
  show ?thesis
    using long_run_fails_and_succeeds [OF example_found _ _ _ l] by (simp add: run_of_def live_def)
qed

theorem failed_run_stays_latest_witness:
  "map_option pr_status (getLatestPublishedRun_api ''t'' (fst (worker_publish \<lparr>pi_published = True, pi_successEvent = False, pi_failureEvent = True,
     pi_error = ''lost''\<rparr> 5000 ''r1'' ''s1'' ''t'' None no_metrics example_ledger))) = Some FAILED"
  using failed_run_stays_latest [where i = "''r1''" and lg = example_ledger and now = 5000 and snapshotId = "''s1''" and tenant = "''t''"
      and req = None and metrics = no_metrics
      and pio = "\<lparr>pi_published = True, pi_successEvent = False, pi_failureEvent = True, pi_error = ''lost''\<rparr>"] example_found
  by (auto split: prod.splits)

end
