(* ===== verification/JobQueue.thy ===== *)
theory JobQueue
  imports Ledger
begin

text \<open>
  The queue of analysis jobs, \<open>apps/api/services/job-service.ts\<close>, as the worker \<open>docker/worker.ts\<close> uses it, over
  the tables of \<open>infrastructure/migrations/009_job_queue.sql\<close> and \<open>133_job_queue_lease_heartbeat.sql\<close>, with the
  ledger of runs that the recovery of stale jobs writes to. Times are milliseconds.
\<close>

section \<open>Jobs\<close>

datatype job_status = Job_pending | Job_running | Job_partial | Job_complete | Job_failed

record job_progress =
  jg_batch :: nat
  jg_totalBatches :: nat
  jg_decisionsWritten :: nat
  jg_message :: "string option"

record job_payload =
  jp_tenantId :: string
  jp_userId :: string
  jp_traceId :: string
  jp_requestId :: "string option"
  jp_modelName :: "string option"
  jp_runId :: "string option"
  jp_checkpoint :: "nat option"

record job_record =
  jr_id :: nat
  jr_jobId :: string
  jr_jobType :: string
  jr_status :: job_status
  jr_snapshotId :: "string option"
  jr_snapshotDate :: int
  jr_payload :: job_payload
  jr_progress :: job_progress
  jr_error :: "string option"
  jr_createdAt :: int
  jr_startedAt :: "int option"
  jr_completedAt :: "int option"
  jr_heartbeatAt :: "int option"
  jr_leaseExpiresAt :: "int option"
  jr_workerId :: "string option"
  jr_requestId :: "string option"
  jr_metrics :: run_metrics

record job_system =
  js_jobs :: "job_record list"
  js_ledger :: ledger

definition LEASE :: int where
  "LEASE = 25 * 60000"

definition DAY :: int where
  "DAY = 24 * 60 * 60000"

definition update_job :: "string \<Rightarrow> (job_record \<Rightarrow> job_record) \<Rightarrow> job_system \<Rightarrow> job_system" where
  "update_job i f s = s\<lparr>js_jobs := map (\<lambda>j. if jr_jobId j = i then f j else j) (js_jobs s)\<rparr>"

definition new_job :: "int \<Rightarrow> nat \<Rightarrow> string \<Rightarrow> string option \<Rightarrow> string option \<Rightarrow> job_payload \<Rightarrow> job_record" where
  "new_job now serial jobId jobType snapshotId payload =
     \<lparr>jr_id = serial, jr_jobId = jobId,
      jr_jobType = (case text_or_null jobType of Some t \<Rightarrow> t | None \<Rightarrow> ''llm_analysis''), jr_status = Job_pending,
      jr_snapshotId = text_or_null snapshotId, jr_snapshotDate = now div DAY, jr_payload = payload,
      jr_progress = \<lparr>jg_batch = 0, jg_totalBatches = 0, jg_decisionsWritten = 0, jg_message = None\<rparr>, jr_error = None, jr_createdAt = now,
      jr_startedAt = None, jr_completedAt = None, jr_heartbeatAt = None, jr_leaseExpiresAt = None, jr_workerId = None,
      jr_requestId = text_or_null (jp_requestId payload),
      jr_metrics = no_metrics\<lparr>rm_modelName := text_or_null (jp_modelName payload)\<rparr>\<rparr>"

datatype enqueue_error = Missing_context | Invalid_tenant

definition enqueueJob ::
  "int \<Rightarrow> nat \<Rightarrow> string \<Rightarrow> string option \<Rightarrow> string option \<Rightarrow> job_payload \<Rightarrow> job_system \<Rightarrow> enqueue_error + job_system" where
  "enqueueJob now serial jobId jobType snapshotId payload s =
     (if jp_tenantId payload = [] \<or> jp_userId payload = [] \<or> jp_traceId payload = [] then Inl Missing_context
      else if jp_tenantId payload = ''default'' \<or> \<not> isValidUUID (jp_tenantId payload) then Inl Invalid_tenant
      else Inr (s\<lparr>js_jobs := js_jobs s @ [new_job now serial jobId jobType snapshotId payload]\<rparr>))"

definition getJobStatus :: "string \<Rightarrow> job_system \<Rightarrow> job_record option" where
  "getJobStatus i s = find (\<lambda>j. jr_jobId j = i) (js_jobs s)"

text \<open>
  The oldest pending job that no other transaction has locked, in one transaction; the job returned is the row
  as read, with the new status.
\<close>

definition claimNextJob :: "int \<Rightarrow> string \<Rightarrow> nat set \<Rightarrow> job_system \<Rightarrow> job_system \<times> job_record option" where
  "claimNextJob now worker locked s =
     (case sort_key jr_createdAt (filter (\<lambda>j. jr_status j = Job_pending \<and> jr_id j \<notin> locked) (js_jobs s)) of
        [] \<Rightarrow> (s, None)
      | j # _ \<Rightarrow>
          (s\<lparr>js_jobs := map (\<lambda>x. if jr_id x = jr_id j
               then x\<lparr>jr_status := Job_running, jr_startedAt := Some now, jr_heartbeatAt := Some now, jr_leaseExpiresAt := Some (now + LEASE),
                      jr_workerId := Some worker\<rparr> else x) (js_jobs s)\<rparr>,
           Some (j\<lparr>jr_status := Job_running\<rparr>)))"

definition updateJobProgress :: "int \<Rightarrow> string \<Rightarrow> job_progress \<Rightarrow> job_system \<Rightarrow> job_system" where
  "updateJobProgress now i p s =
     update_job i (\<lambda>j. j\<lparr>jr_status := Job_partial, jr_progress := p, jr_heartbeatAt := Some now, jr_leaseExpiresAt := Some (now + LEASE)\<rparr>) s"

definition checkpointJob :: "int \<Rightarrow> string \<Rightarrow> nat \<Rightarrow> job_progress \<Rightarrow> job_system \<Rightarrow> job_system" where
  "checkpointJob now i c p s =
     update_job i (\<lambda>j. j\<lparr>jr_progress := p, jr_payload := (jr_payload j)\<lparr>jp_checkpoint := Some c\<rparr>, jr_heartbeatAt := Some now,
       jr_leaseExpiresAt := Some (now + LEASE)\<rparr>) s"

definition setJobComplete :: "int \<Rightarrow> string \<Rightarrow> string \<Rightarrow> job_system \<Rightarrow> job_system" where
  "setJobComplete now i snapshotId s =
     update_job i (\<lambda>j. j\<lparr>jr_status := Job_complete, jr_snapshotId := Some snapshotId, jr_completedAt := Some now, jr_heartbeatAt := Some now,
       jr_leaseExpiresAt := None\<rparr>) s"

definition setJobFailed :: "int \<Rightarrow> string \<Rightarrow> string \<Rightarrow> job_system \<Rightarrow> job_system" where
  "setJobFailed now i e s =
     update_job i (\<lambda>j. j\<lparr>jr_status := Job_failed, jr_error := Some e, jr_completedAt := Some now, jr_heartbeatAt := Some now,
       jr_leaseExpiresAt := None\<rparr>) s"

definition setJobExecutionMetrics :: "string \<Rightarrow> run_metrics \<Rightarrow> job_system \<Rightarrow> job_system" where
  "setJobExecutionMetrics i m s =
     update_job i (\<lambda>j. j\<lparr>jr_metrics :=
       \<lparr>rm_modelName = coalesce (rm_modelName m) (rm_modelName (jr_metrics j)), rm_latencyMs = coalesce (rm_latencyMs m) (rm_latencyMs (jr_metrics j)),
        rm_tokensIn = coalesce (rm_tokensIn m) (rm_tokensIn (jr_metrics j)), rm_tokensOut = coalesce (rm_tokensOut m) (rm_tokensOut (jr_metrics j)),
        rm_batchCount = coalesce (rm_batchCount m) (rm_batchCount (jr_metrics j))\<rparr>\<rparr>) s"

section \<open>Recovery\<close>

definition lease_expired :: "int \<Rightarrow> job_record \<Rightarrow> bool" where
  "lease_expired now j = (case jr_leaseExpiresAt j of Some t \<Rightarrow> t < now | None \<Rightarrow> False)"

definition last_sign :: "job_record \<Rightarrow> int" where
  "last_sign j = (case jr_heartbeatAt j of Some t \<Rightarrow> t | None \<Rightarrow> (case jr_startedAt j of Some t \<Rightarrow> t | None \<Rightarrow> jr_createdAt j))"

definition stale_job :: "int \<Rightarrow> nat \<Rightarrow> string option \<Rightarrow> job_record \<Rightarrow> bool" where
  "stale_job now maxAge tenant j =
     (jr_status j \<in> {Job_pending, Job_running, Job_partial} \<and>
      (lease_expired now j \<or> jr_status j \<in> {Job_running, Job_partial} \<and> last_sign j < now - int maxAge * 60000) \<and>
      (case tenant of None \<Rightarrow> True | Some t \<Rightarrow> jp_tenantId (jr_payload j) = t))"

definition fail_stale :: "int \<Rightarrow> job_record \<Rightarrow> job_record" where
  "fail_stale now j =
     j\<lparr>jr_status := Job_failed,
       jr_error := Some (case jr_error j of Some e \<Rightarrow> e
         | None \<Rightarrow> if lease_expired now j then ''Recovered stale job after lease expiry'' else ''Recovered stale running/partial job after worker restart''),
       jr_completedAt := Some now, jr_leaseExpiresAt := None\<rparr>"

definition affected_run :: "int \<Rightarrow> nat \<Rightarrow> string option \<Rightarrow> job_system \<Rightarrow> pipeline_run \<Rightarrow> bool" where
  "affected_run now maxAge tenant s r =
     ((\<exists>j\<in>set (js_jobs s). stale_job now maxAge tenant j \<and> jp_runId (jr_payload j) = Some (pr_runId r)) \<and> live r \<and>
      (case tenant of None \<Rightarrow> True | Some t \<Rightarrow> pr_tenantId r = t))"

definition timeout_event :: "int \<Rightarrow> string \<Rightarrow> stage_event" where
  "timeout_event now i =
     \<lparr>se_run = i, se_stage = AI_DECISIONS, se_attempt = 1, se_status = Stage_FAILED, se_completedAt = Some now, se_records = 0,
      se_metadata = Some ''{\"source\": \"recoverStaleJobs\", \"reason\": \"lease_expired_or_stale\"}'', se_error = Some ''Pipeline worker lease expired'',
      se_requestId = None, se_errorType = Some ''TIMEOUT'', se_errorCode = Some ''TIMEOUT''\<rparr>"

definition timed_out :: "stage_event list \<Rightarrow> string \<Rightarrow> bool" where
  "timed_out es i = (\<exists>e\<in>set es. se_run e = i \<and> se_stage e = AI_DECISIONS \<and> se_status e = Stage_FAILED \<and> se_errorCode e = Some ''TIMEOUT'')"

definition recover_runs :: "int \<Rightarrow> (pipeline_run \<Rightarrow> bool) \<Rightarrow> ledger \<Rightarrow> ledger" where
  "recover_runs now affected lg =
     (let failed = map pr_runId (filter affected (lg_runs lg));
          lg1 = update_runs affected (\<lambda>r. fail_run (case pr_error r of Some e \<Rightarrow> e | None \<Rightarrow> ''Pipeline worker lease expired'') r) lg
      in lg1\<lparr>lg_events := lg_events lg1 @ map (timeout_event now) (filter (\<lambda>i. \<not> timed_out (lg_events lg) i) failed)\<rparr>)"

definition recoverStaleJobs :: "int \<Rightarrow> nat \<Rightarrow> string option \<Rightarrow> job_system \<Rightarrow> job_system \<times> nat" where
  "recoverStaleJobs now maxAge tenant s =
     (\<lparr>js_jobs = map (\<lambda>j. if stale_job now maxAge tenant j then fail_stale now j else j) (js_jobs s),
       js_ledger = recover_runs now (affected_run now maxAge tenant s) (js_ledger s)\<rparr>,
      length (filter (stale_job now maxAge tenant) (js_jobs s)))"

definition getLatestJob :: "int \<Rightarrow> string option \<Rightarrow> job_system \<Rightarrow> job_record option" where
  "getLatestJob date tenant s =
     (case sort_key (\<lambda>j. - jr_createdAt j)
        (filter (\<lambda>j. jr_snapshotDate j = date \<and> (case tenant of None \<Rightarrow> True | Some t \<Rightarrow> jp_tenantId (jr_payload j) = t)) (js_jobs s)) of
        [] \<Rightarrow> None | j # _ \<Rightarrow> Some j)"

section \<open>Runs of the queue\<close>

text \<open>
  The rows as they were enqueued, the jobs that were claimed, and the system. Workers write only to jobs they
  claimed; serial numbers and job ids are keys.
\<close>

record job_world =
  jw_enqueued :: "job_record list"
  jw_claimed :: "job_record list"
  jw_system :: job_system

definition held :: "string \<Rightarrow> job_world \<Rightarrow> bool" where
  "held i w = (i \<in> jr_jobId ` set (jw_claimed w))"

inductive job_step :: "job_world \<Rightarrow> job_world \<Rightarrow> bool" where
  enqueued: "serial \<notin> jr_id ` set (js_jobs (jw_system w)) \<Longrightarrow> jobId \<notin> jr_jobId ` set (js_jobs (jw_system w)) \<Longrightarrow>
    enqueueJob now serial jobId jobType snapshotId payload (jw_system w) = Inr s \<Longrightarrow>
    job_step w (w\<lparr>jw_enqueued := jw_enqueued w @ [new_job now serial jobId jobType snapshotId payload], jw_system := s\<rparr>)"
| claimed: "claimNextJob now worker locked (jw_system w) = (s, Some j) \<Longrightarrow>
    job_step w (w\<lparr>jw_claimed := jw_claimed w @ [j], jw_system := s\<rparr>)"
| progressed: "held i w \<Longrightarrow> job_step w (w\<lparr>jw_system := updateJobProgress now i p (jw_system w)\<rparr>)"
| checkpointed: "held i w \<Longrightarrow> job_step w (w\<lparr>jw_system := checkpointJob now i c p (jw_system w)\<rparr>)"
| completed: "held i w \<Longrightarrow> job_step w (w\<lparr>jw_system := setJobComplete now i snapshotId (jw_system w)\<rparr>)"
| gave_up: "held i w \<Longrightarrow> job_step w (w\<lparr>jw_system := setJobFailed now i e (jw_system w)\<rparr>)"
| measured: "held i w \<Longrightarrow> job_step w (w\<lparr>jw_system := setJobExecutionMetrics i m (jw_system w)\<rparr>)"
| recovered: "job_step w (w\<lparr>jw_system := fst (recoverStaleJobs now maxAge tenant (jw_system w))\<rparr>)"
| run_changed: "ledger_step (js_ledger (jw_system w)) lg \<Longrightarrow> job_step w (w\<lparr>jw_system := (jw_system w)\<lparr>js_ledger := lg\<rparr>\<rparr>)"

definition empty_world :: job_world where
  "empty_world = \<lparr>jw_enqueued = [], jw_claimed = [], jw_system = \<lparr>js_jobs = [], js_ledger = empty_ledger\<rparr>\<rparr>"

definition keys :: "job_record \<Rightarrow> nat \<times> string" where
  "keys j = (jr_id j, jr_jobId j)"

definition jobs_ok :: "job_world \<Rightarrow> bool" where
  "jobs_ok w =
     (distinct (map jr_id (js_jobs (jw_system w))) \<and> distinct (map jr_jobId (js_jobs (jw_system w))) \<and>
      (\<forall>j\<in>set (js_jobs (jw_system w)). jr_status j = Job_pending \<longrightarrow> jr_leaseExpiresAt j = None \<and> j \<in> set (jw_enqueued w) \<and>
         jr_id j \<notin> jr_id ` set (jw_claimed w)) \<and>
      distinct (map jr_id (jw_claimed w)) \<and> (\<forall>c\<in>set (jw_claimed w). keys c \<in> keys ` set (js_jobs (jw_system w))) \<and>
      (\<forall>c\<in>set (jw_claimed w). c\<lparr>jr_status := Job_pending\<rparr> \<in> set (jw_enqueued w)))"

lemma update_job_jobs [simp]: "js_jobs (update_job i f s) = map (\<lambda>j. if jr_jobId j = i then f j else j) (js_jobs s)"
  by (simp add: update_job_def)

text \<open>A change of rows that keeps their keys and makes none pending keeps the queue well formed.\<close>

lemma jobs_ok_map:
  assumes "jobs_ok w" "js_jobs s = map f (js_jobs (jw_system w))" "\<And>j. keys (f j) = keys j"
    and "\<And>j. j \<in> set (js_jobs (jw_system w)) \<Longrightarrow> jr_status (f j) = Job_pending \<Longrightarrow> f j = j"
  shows "jobs_ok (w\<lparr>jw_system := s\<rparr>)"
proof -
  have k: "jr_id (f j) = jr_id j" "jr_jobId (f j) = jr_jobId j" for j using assms(3) [of j] by (simp_all add: keys_def)
  have m: "map jr_id (js_jobs s) = map jr_id (js_jobs (jw_system w))" "map jr_jobId (js_jobs s) = map jr_jobId (js_jobs (jw_system w))"
    using k by (simp_all add: assms(2))
  have "map keys (js_jobs s) = map keys (js_jobs (jw_system w))" using assms(3) by (simp add: assms(2))
  then have i: "keys ` set (js_jobs s) = keys ` set (js_jobs (jw_system w))" by (metis set_map)
  have p: "j \<in> set (js_jobs (jw_system w))" if m: "j \<in> set (js_jobs s)" "jr_status j = Job_pending" for j
  proof -
    obtain x where "x \<in> set (js_jobs (jw_system w))" "j = f x" using m(1) unfolding assms(2) by auto
    then show ?thesis using assms(4) m(2) by metis
  qed
  show ?thesis using assms(1) p unfolding jobs_ok_def by (simp add: m i)
qed

text \<open>A job a worker holds is not pending.\<close>

lemma held_not_pending:
  assumes "jobs_ok w" "held i w" "j \<in> set (js_jobs (jw_system w))" "jr_jobId j = i"
  shows "jr_status j \<noteq> Job_pending"
proof -
  obtain c where c: "c \<in> set (jw_claimed w)" "jr_jobId c = i" using assms(2) by (auto simp: held_def)
  have "keys c \<in> keys ` set (js_jobs (jw_system w))" using assms(1) c(1) by (simp add: jobs_ok_def)
  then obtain j' where j': "j' \<in> set (js_jobs (jw_system w))" "jr_id j' = jr_id c" "jr_jobId j' = i"
    using c(2) by (auto simp: keys_def)
  have "inj_on jr_jobId (set (js_jobs (jw_system w)))" using assms(1) by (simp add: jobs_ok_def distinct_map)
  then have "j = j'" using assms(3,4) j' by (auto dest: inj_onD)
  then show ?thesis using assms(1,3) j'(2) c(1) by (auto simp: jobs_ok_def)
qed

lemma jobs_ok_update:
  assumes "jobs_ok w" "held i w" "\<And>j. keys (f j) = keys j" "\<And>j. jr_status j \<noteq> Job_pending \<Longrightarrow> jr_status (f j) \<noteq> Job_pending"
  shows "jobs_ok (w\<lparr>jw_system := update_job i f (jw_system w)\<rparr>)"
  by (rule jobs_ok_map [OF assms(1) update_job_jobs]) (use assms held_not_pending [OF assms(1,2)] in \<open>auto split: if_splits\<close>)

lemma claim_job:
  assumes "claimNextJob now worker locked s = (s', Some c)"
  obtains j where "j \<in> set (js_jobs s)" "jr_status j = Job_pending" "c = j\<lparr>jr_status := Job_running\<rparr>"
    "s' = s\<lparr>js_jobs := map (\<lambda>x. if jr_id x = jr_id j
       then x\<lparr>jr_status := Job_running, jr_startedAt := Some now, jr_heartbeatAt := Some now, jr_leaseExpiresAt := Some (now + LEASE),
              jr_workerId := Some worker\<rparr> else x) (js_jobs s)\<rparr>"
proof -
  let ?xs = "filter (\<lambda>j. jr_status j = Job_pending \<and> jr_id j \<notin> locked) (js_jobs s)"
  obtain j js where js: "sort_key jr_createdAt ?xs = j # js"
    using assms by (cases "sort_key jr_createdAt ?xs") (simp_all add: claimNextJob_def)
  then have "j \<in> set ?xs" by (metis list.set_intros(1) set_sort)
  then show thesis using assms js by (intro that [of j]) (auto simp: claimNextJob_def)
qed

lemma jobs_ok_claim:
  assumes ok: "jobs_ok w" and c: "claimNextJob now worker locked (jw_system w) = (s, Some c)"
  shows "jobs_ok (w\<lparr>jw_claimed := jw_claimed w @ [c], jw_system := s\<rparr>)"
proof -
  obtain j where j: "j \<in> set (js_jobs (jw_system w))" "jr_status j = Job_pending" "c = j\<lparr>jr_status := Job_running\<rparr>"
    and s: "s = (jw_system w)\<lparr>js_jobs := map (\<lambda>x. if jr_id x = jr_id j
       then x\<lparr>jr_status := Job_running, jr_startedAt := Some now, jr_heartbeatAt := Some now, jr_leaseExpiresAt := Some (now + LEASE),
              jr_workerId := Some worker\<rparr> else x) (js_jobs (jw_system w))\<rparr>"
    using claim_job [OF c] by blast
  let ?f = "\<lambda>x. if jr_id x = jr_id j
       then x\<lparr>jr_status := Job_running, jr_startedAt := Some now, jr_heartbeatAt := Some now, jr_leaseExpiresAt := Some (now + LEASE),
              jr_workerId := Some worker\<rparr> else x"
  have moved: "jobs_ok (w\<lparr>jw_system := s\<rparr>)"
    by (rule jobs_ok_map [OF ok, where f = ?f]) (auto simp: s keys_def split: if_splits)
  have row: "j \<in> set (jw_enqueued w)" "jr_id j \<notin> jr_id ` set (jw_claimed w)" using ok j(1,2) by (auto simp: jobs_ok_def)
  have pend: "jr_id x \<noteq> jr_id j" if "x \<in> set (js_jobs s)" "jr_status x = Job_pending" for x
    using that by (auto simp: s split: if_splits)
  have "map keys (js_jobs s) = map keys (js_jobs (jw_system w))" by (simp add: s keys_def)
  then have "keys ` set (js_jobs s) = keys ` set (js_jobs (jw_system w))" by (metis set_map)
  then have "keys c \<in> keys ` set (js_jobs s)" using j(1,3) by (simp add: keys_def image_iff) blast
  moreover have "c\<lparr>jr_status := Job_pending\<rparr> = j" using j(2,3) by (cases j) simp
  ultimately show ?thesis using moved row pend j(3) unfolding jobs_ok_def by auto
qed

lemma job_step_ok: "job_step w w' \<Longrightarrow> jobs_ok w \<Longrightarrow> jobs_ok w'"
proof (induction rule: job_step.induct)
  case (enqueued serial w jobId now jobType snapshotId payload s)
  then have "s = (jw_system w)\<lparr>js_jobs := js_jobs (jw_system w) @ [new_job now serial jobId jobType snapshotId payload]\<rparr>"
    by (auto simp: enqueueJob_def split: if_splits)
  moreover have "serial \<notin> jr_id ` set (jw_claimed w)" using enqueued by (force simp: jobs_ok_def keys_def)
  ultimately show ?case using enqueued by (auto simp: jobs_ok_def new_job_def)
next
  case (claimed now worker locked w s j)
  then show ?case by (simp add: jobs_ok_claim)
next
  case (recovered w now maxAge tenant)
  show ?case
  proof (rule jobs_ok_map [OF recovered])
    fix j assume "j \<in> set (js_jobs (jw_system w))" "jr_status (if stale_job now maxAge tenant j then fail_stale now j else j) = Job_pending"
    then show "(if stale_job now maxAge tenant j then fail_stale now j else j) = j" by (auto simp: fail_stale_def)
  qed (simp_all add: recoverStaleJobs_def keys_def fail_stale_def)
next
  case (run_changed w lg)
  then show ?case by (simp add: jobs_ok_def)
qed (simp_all add: updateJobProgress_def checkpointJob_def setJobComplete_def setJobFailed_def setJobExecutionMetrics_def jobs_ok_update keys_def)

lemma job_run_ok: "job_step\<^sup>*\<^sup>* empty_world w \<Longrightarrow> jobs_ok w"
proof (induction rule: rtranclp_induct)
  case base
  then show ?case by (simp add: jobs_ok_def empty_world_def)
qed (blast intro: job_step_ok)

section \<open>Properties\<close>

text \<open>
  C38: Whatever workers, requests and recoveries do, a job is claimed at most once, and the claimed job is the row
  as it was enqueued: a checkpoint saved later is never what a worker starts from.
\<close>

theorem claimed_once:
  assumes "job_step\<^sup>*\<^sup>* empty_world w"
  shows "distinct (map jr_id (jw_claimed w)) \<and> (\<lambda>c. c\<lparr>jr_status := Job_pending\<rparr>) ` set (jw_claimed w) \<subseteq> set (jw_enqueued w)"
  using job_run_ok [OF assms] by (auto simp: jobs_ok_def)

lemma fail_stale_fields [simp]:
  "jr_status (fail_stale now j) = Job_failed" "jr_jobId (fail_stale now j) = jr_jobId j" "jr_payload (fail_stale now j) = jr_payload j"
  "jr_error (fail_stale now j) \<noteq> None" "jr_leaseExpiresAt (fail_stale now j) = None"
  by (auto simp: fail_stale_def split: option.splits)

lemma events_ok:
  "ledger_ok lg \<Longrightarrow> se_run ` set es \<subseteq> pr_runId ` set (lg_runs lg) \<Longrightarrow> ledger_ok (lg\<lparr>lg_events := lg_events lg @ es\<rparr>)"
  by (auto simp: ledger_ok_def)

lemma recover_runs_ok:
  assumes "ledger_ok lg"
  shows "ledger_ok (recover_runs now affected lg)"
  unfolding recover_runs_def Let_def
proof (rule events_ok)
  show "ledger_ok (update_runs affected (\<lambda>r. fail_run (case pr_error r of Some e \<Rightarrow> e | None \<Rightarrow> ''Pipeline worker lease expired'') r) lg)"
    by (rule update_runs_ok) (use assms in \<open>simp_all add: fail_run_def run_ok_def\<close>)
  have t: "se_run (timeout_event now i) = i" for i by (simp add: timeout_event_def)
  have m: "pr_runId ` set (lg_runs (update_runs affected f lg)) = pr_runId ` set (lg_runs lg)"
    if "\<And>r. pr_runId (f r) = pr_runId r" for f
  proof -
    have "map pr_runId (lg_runs (update_runs affected f lg)) = map pr_runId (lg_runs lg)" using that by simp
    then show ?thesis by (metis set_map)
  qed
  show "se_run ` set (map (timeout_event now) (filter (\<lambda>i. \<not> timed_out (lg_events lg) i) (map pr_runId (filter affected (lg_runs lg)))))
      \<subseteq> pr_runId ` set (lg_runs (update_runs affected (\<lambda>r. fail_run (case pr_error r of Some e \<Rightarrow> e | None \<Rightarrow> ''Pipeline worker lease expired'') r) lg))"
    by (subst m) (auto simp: t fail_run_def)
qed

text \<open>
  The recovery of stale jobs keeps the ledger well formed. Afterwards no job of the tenant has an expired
  lease or has been silent too long while it counts as working, the failed jobs have an error and no lease, and
  every run of a job it failed is over.
\<close>

theorem recovery_clears_stale_work:
  assumes "ledger_ok (js_ledger s)"
  shows "case recoverStaleJobs now maxAge tenant s of (s', n) \<Rightarrow>
     ledger_ok (js_ledger s') \<and> \<not> list_ex (stale_job now maxAge tenant) (js_jobs s') \<and>
     n = length (filter (\<lambda>j. jr_status j = Job_failed) (js_jobs s')) - length (filter (\<lambda>j. jr_status j = Job_failed) (js_jobs s)) \<and>
     \<not> list_ex (affected_run now maxAge tenant s) (lg_runs (js_ledger s')) \<and>
     list_all2 (\<lambda>j j'. if stale_job now maxAge tenant j then jr_status j' = Job_failed \<and> jr_error j' \<noteq> None \<and> jr_leaseExpiresAt j' = None
       else j' = j) (js_jobs s) (js_jobs s')"
proof -
  have c: "length (filter (\<lambda>j. jr_status j = Job_failed) (map (\<lambda>j. if stale_job now maxAge tenant j then fail_stale now j else j) js)) =
      length (filter (stale_job now maxAge tenant) js) + length (filter (\<lambda>j. jr_status j = Job_failed) js)" for js
    by (induction js) (auto simp: stale_job_def)
  have "\<not> affected_run now maxAge tenant s (fail_run e r)" for e r by (simp add: affected_run_def fail_run_def live_def)
  then have r: "\<not> list_ex (affected_run now maxAge tenant s) (lg_runs (recover_runs now (affected_run now maxAge tenant s) (js_ledger s)))"
    by (auto simp: recover_runs_def Let_def list_ex_iff)
  have "\<not> stale_job now maxAge tenant (fail_stale now j)" for j by (simp add: stale_job_def)
  then have j: "\<not> list_ex (stale_job now maxAge tenant) (map (\<lambda>j. if stale_job now maxAge tenant j then fail_stale now j else j) (js_jobs s))"
    by (auto simp: list_ex_iff)
  show ?thesis using recover_runs_ok [OF assms] by (simp add: recoverStaleJobs_def c [simplified filter_map length_map] filter_map r j list_all2_map2 list.rel_refl)
qed

text \<open>
  Nothing fences off the worker whose job was recovered: when it reports that it is done, the failed job is
  complete and still carries the error of the recovery.
\<close>

theorem recovered_job_completes:
  assumes "getJobStatus i s = Some j" "stale_job now maxAge tenant j"
  shows "let s1 = fst (recoverStaleJobs now maxAge tenant s) in
     map_option jr_status (getJobStatus i s1) = Some Job_failed \<and>
     (case getJobStatus i (setJobComplete later i snapshotId s1) of
        Some j' \<Rightarrow> jr_status j' = Job_complete \<and> jr_error j' \<noteq> None \<and> jr_snapshotId j' = Some snapshotId
      | None \<Rightarrow> False)"
proof -
  have f: "find P (map g js) = map_option g (find (P \<circ> g) js)" for P and g :: "job_record \<Rightarrow> job_record" and js by (induction js) auto
  have e: "((\<lambda>x. jr_jobId x = i) \<circ> (\<lambda>j. if stale_job now maxAge tenant j then fail_stale now j else j)) = (\<lambda>x. jr_jobId x = i)"
    by (auto simp: fun_eq_iff)
  have "jr_jobId j = i" using assms(1) by (auto simp: getJobStatus_def find_Some_iff)
  then have s1: "getJobStatus i (fst (recoverStaleJobs now maxAge tenant s)) = Some (fail_stale now j)"
    using assms by (simp add: getJobStatus_def recoverStaleJobs_def f e)
  have d: "((\<lambda>x. jr_jobId x = i) \<circ> (\<lambda>j. if jr_jobId j = i then j\<lparr>jr_status := Job_complete, jr_snapshotId := Some snapshotId,
      jr_completedAt := Some later, jr_heartbeatAt := Some later, jr_leaseExpiresAt := None\<rparr> else j)) = (\<lambda>x. jr_jobId x = i)"
    by (auto simp: fun_eq_iff)
  have "\<exists>y. jr_error (fail_stale now j) = Some y" using fail_stale_fields(4) by blast
  then show ?thesis using s1 \<open>jr_jobId j = i\<close> by (simp add: Let_def getJobStatus_def setJobComplete_def f d)
qed

section \<open>Witnesses\<close>

definition example_payload :: job_payload where
  "example_payload = \<lparr>jp_tenantId = ''00000000-0000-0000-0000-000000000001'', jp_userId = ''u'', jp_traceId = ''t'', jp_requestId = None,
     jp_modelName = None, jp_runId = Some ''r1'', jp_checkpoint = None\<rparr>"

definition example_job :: job_record where
  "example_job = new_job 1000 1 ''j1'' None None example_payload"

definition claimed_job :: job_record where
  "claimed_job = example_job\<lparr>jr_status := Job_running, jr_startedAt := Some 2000, jr_heartbeatAt := Some 2000,
     jr_leaseExpiresAt := Some (2000 + LEASE), jr_workerId := Some ''w''\<rparr>"

definition example_system :: job_system where
  "example_system = \<lparr>js_jobs = [claimed_job], js_ledger = example_ledger\<rparr>"

definition claimed_world :: job_world where
  "claimed_world = \<lparr>jw_enqueued = [example_job], jw_claimed = [example_job\<lparr>jr_status := Job_running\<rparr>],
     jw_system = \<lparr>js_jobs = [claimed_job], js_ledger = empty_ledger\<rparr>\<rparr>"

lemma claimed_world_reached: "job_step\<^sup>*\<^sup>* empty_world claimed_world"
proof -
  let ?s = "\<lparr>js_jobs = [example_job], js_ledger = empty_ledger\<rparr>"
  have "isValidUUID (jp_tenantId example_payload)" by code_simp
  moreover have "jp_tenantId example_payload \<noteq> ''default''" by (simp add: example_payload_def)
  moreover have "jp_tenantId example_payload \<noteq> []" "jp_userId example_payload \<noteq> []" "jp_traceId example_payload \<noteq> []"
    by (simp_all add: example_payload_def)
  ultimately have "enqueueJob 1000 1 ''j1'' None None example_payload (jw_system empty_world) = Inr ?s"
    by (simp add: enqueueJob_def empty_world_def example_job_def)
  then have "job_step empty_world \<lparr>jw_enqueued = [example_job], jw_claimed = [], jw_system = ?s\<rparr>"
    using enqueued [of 1 empty_world "''j1''" 1000 None None example_payload ?s] by (simp add: empty_world_def example_job_def)
  moreover have "claimNextJob 2000 ''w'' {} ?s = (\<lparr>js_jobs = [claimed_job], js_ledger = empty_ledger\<rparr>, Some (example_job\<lparr>jr_status := Job_running\<rparr>))"
    by (simp add: claimNextJob_def claimed_job_def example_job_def new_job_def)
  then have "job_step \<lparr>jw_enqueued = [example_job], jw_claimed = [], jw_system = ?s\<rparr> claimed_world"
    using claimed [of 2000 "''w''" "{}" "\<lparr>jw_enqueued = [example_job], jw_claimed = [], jw_system = ?s\<rparr>"] by (simp add: claimed_world_def)
  ultimately show ?thesis by (meson converse_rtranclp_into_rtranclp r_into_rtranclp)
qed

theorem claimed_once_witness: "jr_id ` set (jw_claimed claimed_world) = {1} \<and> distinct (map jr_id (jw_claimed claimed_world))"
  using claimed_once [OF claimed_world_reached] by (simp add: claimed_world_def example_job_def new_job_def)

lemma claimed_job_stale: "stale_job 9000000 30 None claimed_job"
  by (simp add: stale_job_def lease_expired_def claimed_job_def LEASE_def)

theorem recovery_clears_stale_work_witness: "\<not> list_ex (stale_job 9000000 30 None) (js_jobs (fst (recoverStaleJobs 9000000 30 None example_system)))"
proof -
  have "ledger_ok (js_ledger example_system)" using ledger_run_ok [OF example_reached] by (simp add: example_system_def)
  then show ?thesis using recovery_clears_stale_work [of example_system 9000000 30 None] by (auto split: prod.splits)
qed

theorem recovered_job_completes_witness:
  "map_option jr_status (getJobStatus ''j1'' (setJobComplete 9100000 ''j1'' ''s1'' (fst (recoverStaleJobs 9000000 30 None example_system)))) = Some Job_complete"
proof -
  have "getJobStatus ''j1'' example_system = Some claimed_job"
    by (simp add: getJobStatus_def example_system_def claimed_job_def example_job_def new_job_def)
  from recovered_job_completes [OF this claimed_job_stale, where later = 9100000 and snapshotId = "''s1''"] show ?thesis
    by (auto simp: Let_def split: option.splits)
qed

end
