(* ===== verification/Spec2Isabelle.thy ===== *)
theory Spec2Isabelle
  imports JsNumber Prelude Scoring PolicyRules PolicyEngine PolicyProfiles DecisionModel Approval
    JsValue DslPolicy Metrics Snapshot RuntimeEngine Replay Tenancy Scopes Grants
    AuditStore Observer OperatorBinding AuditChain AuditRoutes Breaker Provider LlmAgent
    Medallion Recommend Portfolio Normalizer Inventory Tokens NonceCache TraceTrust Execution
    Adapters Workflow Reanalysis Causality Ledger JobQueue
begin

text \<open>
  A verification development for the governance core of the telemetry governance platform.

  The program scores telemetry sources (indexes and source types of a Splunk installation), lets an
  agent recommend what to do with each (retain, monitor, eliminate, ...), validates the recommendation
  against rules and guardrails, and guards every administrative action with a runtime governance engine:
  a request is decided by stored policies or by hardcoded rules, gets a deterministic identity, and is
  counted, snapshot, sampled for replay and audited. High risk actions need approvals; permissions are
  granted for a limited time within a tenant and can be revoked.

  \<^bold>\<open>Foundations.\<close> \<open>Prelude\<close> holds the vocabulary: insertion-ordered maps and the interface
  \<open>js_map\<close>, bounded buffers and the interface \<open>bounded_buffer\<close>, ASCII strings. \<open>JsNumber\<close> is the
  number type of JavaScript, binary64 with round to nearest even over the rationals, with the
  interface \<open>rounding\<close> and its interpretation; negative zero is not distinguished. \<open>JsValue\<close> holds
  dynamically typed values, their conversions to strings and numbers, and JSON texts with their
  injectivity.

  \<^bold>\<open>Scoring and policy\<close> (\<open>packages/core\<close>). \<open>Scoring\<close>: \<open>engine/types.ts\<close>, \<open>engine/scoring/*.ts\<close>,
  \<open>engine/tier.ts\<close>; the lemmas bound every score over the doubles and order the tiers.
  \<open>PolicyRules\<close>: \<open>policy/types.ts\<close>, \<open>policy/rules-validator.ts\<close>. \<open>PolicyEngine\<close>:
  \<open>policy/guardrails.ts\<close>, \<open>policy/policy-engine.ts\<close> and \<open>extractPolicyContext\<close> of
  \<open>policy/policy-context.ts\<close>; the lemmas characterise the validated decision on every branch.
  \<open>PolicyProfiles\<close>: the five profiles of \<open>policy/policies.config.ts\<close>. \<open>Portfolio\<close>:
  \<open>engine/savings/*.ts\<close>, \<open>engine/kpi/index.ts\<close>, \<open>engine/attribution/validation.ts\<close>; the lemmas bound what
  is claimed and characterise the verdict on a batch. \<open>Normalizer\<close>: \<open>normalization/*.ts\<close>; the normalizers
  exclude each other and what they produce satisfies the contract, with one exception. \<open>Inventory\<close>:
  \<open>gold/*.ts\<close>; the patterns as scanners, the shares of searches and dashboards, the merge of coverage.

  \<^bold>\<open>Runtime governance\<close> (\<open>core/governance\<close>). \<open>DecisionModel\<close>: \<open>engine/decision-model.ts\<close>,
  \<open>governance-mode.ts\<close>, \<open>governance-freeze.ts\<close>. \<open>Approval\<close>: \<open>governance-approval.ts\<close> and
  \<open>governance-approval-store.ts\<close>, with a step relation over the store, its reachable states and an
  invariant; the mutual calls of \<open>getById\<close> and \<open>expire\<close> carry a number of call-stack frames as
  fuel, and running out of them is the stack overflow of the program, which is what is proved of
  expired requests, for every number. \<open>DslPolicy\<close>: \<open>governance-policy-engine.ts\<close>, with a boolean
  semantics that the rule evaluator refines, and the policy cache. \<open>Metrics\<close>:
  \<open>governance-metrics.ts\<close> and \<open>governance-integrity.ts\<close>. \<open>Snapshot\<close>: \<open>governance-snapshot.ts\<close> and
  the sampler of \<open>governance-replay.ts\<close>. \<open>RuntimeEngine\<close>: \<open>engine/runtime-governance-engine.ts\<close>, an
  explicit state (environment, switch, cache, metrics, samples, audit trail) passed through every
  evaluation. \<open>Replay\<close>: the rest of \<open>governance-replay.ts\<close>, which evaluates snapshots again with the
  same engine. \<open>AuditStore\<close>: \<open>governance-audit-store.ts\<close>, the ring buffer, the table behind it and the
  composition with the engine. \<open>Observer\<close>: \<open>governance-observer.ts\<close>, the readiness of the rollout
  stages.

  \<^bold>\<open>Tenants and permissions.\<close> \<open>Tenancy\<close>: \<open>apps/api/middleware/assert-tenant-isolation.ts\<close>. \<open>Scopes\<close>:
  \<open>governance-scopes.ts\<close>; the regular expression a pattern is turned into is built and read back as
  the code and the language do, and proved equivalent to the meaning of the glob. \<open>Grants\<close>:
  \<open>governance-ttl.ts\<close> and \<open>governance-revocation.ts\<close> over the tables of the migration, with a step
  relation on the clock and the tables.

  \<^bold>\<open>Services of the API\<close> (\<open>apps/api\<close>). \<open>OperatorBinding\<close>: \<open>types/operator-trace-binding.ts\<close>, signed records
  of what an operator did. \<open>AuditChain\<close>: \<open>services/audit-chain-service.ts\<close> and
  \<open>services/audit-chain-fork-detection.ts\<close>, the ledger of such records as a hash chain per tenant: what
  an accepted ledger pins down, what can be rewritten, and which writes are never accepted.
  \<open>AuditRoutes\<close>: \<open>routes/immutable-audit-routes.ts\<close> with \<open>services/audit-rate-limiter.ts\<close>, the endpoints
  that write and verify the ledger. \<open>Breaker\<close>: \<open>services/mcp-circuit-breaker.ts\<close>, each execution in steps
  so that several interleave. \<open>Provider\<close>: \<open>services/ai-provider-state-machine.ts\<close> and
  \<open>agents/reasoning/llm-router.ts\<close>. \<open>LlmAgent\<close>: \<open>agents/llm-decision-agent.ts\<close> and
  \<open>services/llm-output-guardrails.ts\<close>, from the model's reply to the bounded decision.
  \<open>Tokens\<close>: \<open>services/token-service.ts\<close>, refresh tokens over their table, with a step relation over the tokens
  that were issued. \<open>NonceCache\<close>: \<open>services/envelope-replay-prevention.ts\<close> with the functions of its
  migration, a step relation over the table and what it accepts twice. \<open>TraceTrust\<close>: \<open>validators/*.ts\<close>, the
  completeness of a trace and its trust; the recursion over its spans has a number of frames as fuel, the
  number of events is enough for a tree, and no number is for a cycle.

  \<^bold>\<open>Execution.\<close> \<open>Execution\<close>: \<open>packages/core/workflow/executor-v2.ts\<close> with the adapter
  \<open>packages/core/adapters/splunk-http.adapter.ts\<close> and \<open>packages/infra/queue/reconciliation-worker.ts\<close>, with a
  step relation in which executions interleave, crash and are repaired. \<open>Adapters\<close>:
  \<open>packages/infra/aggregation/gold-engine-adapter.ts\<close>, \<open>packages/infra/aggregation/policy-engine-adapter.ts\<close> and
  \<open>packages/core/workflow/executor.ts\<close>, between the engines and the executor.

  \<^bold>\<open>Reviews and reanalysis.\<close> \<open>Workflow\<close>: \<open>services/governance-workflow-service.ts\<close>, the states of a review, its
  caveats and investigations over their tables, with a step relation and the log as its history.
  \<open>Reanalysis\<close>: \<open>services/reanalysis-budget-service.ts\<close> with the budget of
  \<open>services/hardware-capability-service.ts\<close> and \<open>services/reanalysis-worker-service.ts\<close>; which jobs are ever
  run and what the budget bounds.

  \<^bold>\<open>Traces.\<close> \<open>Causality\<close>: \<open>types/trace-context.ts\<close>, \<open>services/governance-causality-engine.ts\<close>,
  \<open>adapters/trace-context-adapters.ts\<close> and \<open>middleware/governance-trace-middleware.ts\<close> over the tables of both
  sets of migrations: what a context is after a journey over the wire, which spans the journal takes, and how
  often a traced operation runs.

  \<^bold>\<open>Runs and jobs.\<close> \<open>Ledger\<close>: \<open>apps/web/lib/pipeline-ledger-service.ts\<close> with its twin under
  \<open>apps/api/services\<close>, the publication of a run by \<open>docker/worker.ts\<close> and \<open>apps/web/lib/pipeline-lifecycle.ts\<close>; an
  invariant of the tables over every sequence of operations. \<open>JobQueue\<close>: \<open>services/job-service.ts\<close>, whose
  recovery writes to the ledger, with a step relation of requests, workers and recoveries.

  \<^bold>\<open>Data pipeline of the API.\<close> \<open>Medallion\<close>: \<open>services/bronze-extractor.ts\<close>, \<open>services/silver-normalizer.ts\<close>
  and \<open>services/gold-scorer.ts\<close> over the tables of their migration, each write with the outcome of its
  queries, and a step relation over the three layers; the lemmas keep the layers well formed and only
  growing, say which row is current after a scoring, and bound what is scored. \<open>Recommend\<close>:
  \<open>services/deterministic-recommendation-engine.ts\<close> and \<open>services/recommendation-store.ts\<close>, the checks on
  the scores, the ranking, and the table of candidates.

  \<^bold>\<open>Parameters and hypotheses.\<close> SHA-256, the URL parser and the regular expressions of stored policies are
  arguments of the engine; where a property needs the truncated hash not to collide, it says so for the
  texts at hand. Clock readings, random ids, database outcomes and the arrival of fire-and-forget writes
  are arguments. Strings are ASCII. Counts in the score bounds are at most \<open>2 ^ 40\<close>, far below the
  \<open>2 ^ 53\<close> at which doubles stop counting, and so is the size of a replay batch. The search for the
  shortest decimal of a number looks at 17 digits, which always suffice for a double.

  \<^bold>\<open>Not modelled.\<close> Console output, the asynchronous TTL sweep of the engine, the SQL text itself (queries
  are list operations on rows), prompt texts, the web interface, most routes and authentication, the
  rest of the queue worker, telemetry export, scripts and tests. The remaining services of the API are not modelled yet.
\<close>

end
